(* ===== verification/Prelude.thy ===== *)
theory Prelude
  imports Complex_Main
begin

text \<open>
  Shared vocabulary of the development: errors with context layers (the \<open>anyhow\<close> errors of
  the program), fallible state-passing code, saturating machine arithmetic, the 64-bit floats
  the program compares, byte strings, and the generic state-machine contract used by the
  component theories.
\<close>

named_theorems pres_intros \<open>introduction rules for invariants kept by effectful code\<close>
named_theorems pres_cases \<open>the same for case distinctions and local definitions\<close>
named_theorems wp_intros \<open>weakest-precondition rules of effectful code\<close>
named_theorems eff_simps \<open>evaluation rules of effectful code\<close>

section \<open>Errors\<close>

text \<open>
  An error is its chain of layers, outermost first. Three layer types are markers the program
  itself attaches and later looks for (\<open>RetryablePreflight\<close>, \<open>RetryCancelled\<close> of
  \<open>sleep.rs\<close>, \<open>OutcomeUnknown\<close> of \<open>battery/authorization.rs\<close>); every other layer is its text. Typographic dashes of message texts are
  written as ASCII hyphens.
\<close>

datatype err_layer = Msg string | RetryablePreflight nat | RetryCancelled | OutcomeUnknown

type_synonym error = "err_layer list"

fun layer_text :: "err_layer \<Rightarrow> string" where
  "layer_text (Msg m) = m"
| "layer_text (RetryablePreflight _) = ''sleep preparation failed before dispatch''"
| "layer_text RetryCancelled = ''automatic retry cancelled''"
| "layer_text OutcomeUnknown = ''battery write outcome unknown; reconcile hardware state before another action''"

definition err :: "string \<Rightarrow> error" where
  "err m = [Msg m]"

text \<open>\<open>to_string()\<close> shows the outermost layer, the alternate form the whole chain.\<close>

fun err_to_string :: "error \<Rightarrow> string" where
  "err_to_string [] = []"
| "err_to_string (l # ls) = layer_text l"

fun err_chain :: "error \<Rightarrow> string" where
  "err_chain [] = []"
| "err_chain [l] = layer_text l"
| "err_chain (l # ls) = layer_text l @ '': '' @ err_chain ls"

text \<open>Downcasting finds the outermost layer of the wanted type.\<close>

fun downcast_preflight :: "error \<Rightarrow> nat option" where
  "downcast_preflight [] = None"
| "downcast_preflight (RetryablePreflight n # ls) = Some n"
| "downcast_preflight (_ # ls) = downcast_preflight ls"

definition is_retry_cancelled :: "error \<Rightarrow> bool" where
  "is_retry_cancelled e \<longleftrightarrow> RetryCancelled \<in> set e"

definition is_unknown :: "error \<Rightarrow> bool" where
  "is_unknown e \<longleftrightarrow> OutcomeUnknown \<in> set e"

lemma downcast_preflight_append_None [simp]:
  "downcast_preflight xs = None \<Longrightarrow> downcast_preflight (xs @ ys) = downcast_preflight ys"
  by (induction xs rule: downcast_preflight.induct) auto

lemma downcast_preflight_Some_mem:
  "downcast_preflight e = Some n \<Longrightarrow> RetryablePreflight n \<in> set e"
  by (induction e rule: downcast_preflight.induct) auto

section \<open>Fallible and effectful code\<close>

type_synonym 'a result = "error + 'a"

abbreviation Ok :: "'a \<Rightarrow> 'a result" where "Ok \<equiv> Inr"
abbreviation Err :: "error \<Rightarrow> 'a result" where "Err \<equiv> Inl"

definition is_ok :: "'a result \<Rightarrow> bool" where
  "is_ok r = (case r of Inr _ \<Rightarrow> True | Inl _ \<Rightarrow> False)"

definition ensure :: "bool \<Rightarrow> string \<Rightarrow> unit result" where
  "ensure b m = (if b then Ok () else Err (err m))"

definition and_then :: "'a result \<Rightarrow> ('a \<Rightarrow> 'b result) \<Rightarrow> 'b result" where
  "and_then r k = (case r of Inl e \<Rightarrow> Inl e | Inr x \<Rightarrow> k x)"

definition with_context :: "string \<Rightarrow> 'a result \<Rightarrow> 'a result" where
  "with_context m r = (case r of Inl e \<Rightarrow> Inl (Msg m # e) | Inr x \<Rightarrow> Inr x)"

definition ok_or :: "string \<Rightarrow> 'a option \<Rightarrow> 'a result" where
  "ok_or m v = (case v of None \<Rightarrow> Err (err m) | Some x \<Rightarrow> Ok x)"

definition unwrap_or :: "'a \<Rightarrow> 'a option \<Rightarrow> 'a" where
  "unwrap_or d v = (case v of Some x \<Rightarrow> x | None \<Rightarrow> d)"

lemma is_ok_simps [simp]: "is_ok (Inr x)" "\<not> is_ok (Inl e)"
  by (simp_all add: is_ok_def)

lemma and_then_simps [simp]:
  "and_then (Inl e) k = Inl e" "and_then (Inr x) k = k x"
  by (simp_all add: and_then_def)

lemma and_then_Ok_iff: "and_then r k = Inr y \<longleftrightarrow> (\<exists>x. r = Inr x \<and> k x = Inr y)"
  by (cases r) auto

lemma ensure_Ok_iff [simp]: "ensure b m = Inr u \<longleftrightarrow> b"
  by (simp add: ensure_def)

lemma ensure_simps [simp]: "ensure True m = Inr ()" "ensure False m = Inl (err m)"
  by (simp_all add: ensure_def)

lemma ok_or_Ok_iff [simp]: "ok_or m v = Inr x \<longleftrightarrow> v = Some x"
  by (cases v) (simp_all add: ok_or_def)

lemma with_context_Ok_iff [simp]: "with_context m r = Inr x \<longleftrightarrow> r = Inr x"
  by (cases r) (simp_all add: with_context_def)

text \<open>
  Code with effects threads a state: the component's own fields together with whatever the
  outside world keeps. It returns a result, and the state it leaves behind also when it fails.
\<close>

type_synonym ('s, 'a) eff = "'s \<Rightarrow> 'a result \<times> 's"

definition returnE :: "'a \<Rightarrow> ('s, 'a) eff" where
  "returnE x s = (Ok x, s)"

definition throwE :: "error \<Rightarrow> ('s, 'a) eff" where
  "throwE e s = (Err e, s)"

definition bindE :: "('s, 'a) eff \<Rightarrow> ('a \<Rightarrow> ('s, 'b) eff) \<Rightarrow> ('s, 'b) eff" where
  "bindE m k s = (case m s of (Inl e, s') \<Rightarrow> (Inl e, s') | (Inr x, s') \<Rightarrow> k x s')"

definition seqE :: "('s, 'a) eff \<Rightarrow> ('s, 'b) eff \<Rightarrow> ('s, 'b) eff" where
  "seqE m n = bindE m (\<lambda>_. n)"

definition getE :: "('s \<Rightarrow> 'a) \<Rightarrow> ('s, 'a) eff" where
  "getE f s = (Ok (f s), s)"

definition modifyE :: "('s \<Rightarrow> 's) \<Rightarrow> ('s, unit) eff" where
  "modifyE f s = (Ok (), f s)"

definition liftE :: "'a result \<Rightarrow> ('s, 'a) eff" where
  "liftE r s = (r, s)"

definition ensureE :: "bool \<Rightarrow> string \<Rightarrow> ('s, unit) eff" where
  "ensureE b m = liftE (ensure b m)"

definition map_errE :: "(error \<Rightarrow> error) \<Rightarrow> ('s, 'a) eff \<Rightarrow> ('s, 'a) eff" where
  "map_errE f m s = (case m s of (Inl e, s') \<Rightarrow> (Inl (f e), s') | (Inr x, s') \<Rightarrow> (Inr x, s'))"

definition contextE :: "string \<Rightarrow> ('s, 'a) eff \<Rightarrow> ('s, 'a) eff" where
  "contextE msg m = map_errE (\<lambda>e. Msg msg # e) m"

definition catchE :: "('s, 'a) eff \<Rightarrow> (error \<Rightarrow> ('s, 'a) eff) \<Rightarrow> ('s, 'a) eff" where
  "catchE m h s = (case m s of (Inl e, s') \<Rightarrow> h e s' | (Inr x, s') \<Rightarrow> (Inr x, s'))"

definition attemptE :: "('s, 'a) eff \<Rightarrow> ('s, 'a result) eff" where
  "attemptE m s = (case m s of (r, s') \<Rightarrow> (Inr r, s'))"

fun forE :: "('a \<Rightarrow> ('s, unit) eff) \<Rightarrow> 'a list \<Rightarrow> ('s, unit) eff" where
  "forE f [] = returnE ()"
| "forE f (x # xs) = seqE (f x) (forE f xs)"

lemmas eff_defs = returnE_def throwE_def bindE_def seqE_def getE_def modifyE_def liftE_def
  ensureE_def map_errE_def contextE_def catchE_def attemptE_def

lemma eff_run [eff_simps]:
  "returnE x s = (Inr x, s)" "throwE e s = (Inl e, s)"
  "getE f s = (Inr (f s), s)" "modifyE g s = (Inr (), g s)" "liftE r s = (r, s)"
  "ensureE b msg s = (ensure b msg, s)"
  by (simp_all add: eff_defs)

lemma bindE_eq_Ok:
  "bindE m k s = (Inr y, t) \<longleftrightarrow> (\<exists>x u. m s = (Inr x, u) \<and> k x u = (Inr y, t))"
  by (auto simp: bindE_def split: prod.splits sum.splits)

lemma bindE_eq_Err:
  "bindE m k s = (Inl e, t) \<longleftrightarrow>
     m s = (Inl e, t) \<or> (\<exists>x u. m s = (Inr x, u) \<and> k x u = (Inl e, t))"
  by (auto simp: bindE_def split: prod.splits sum.splits)

lemma seqE_eq_Ok:
  "seqE m n s = (Inr y, t) \<longleftrightarrow> (\<exists>x u. m s = (Inr x, u) \<and> n u = (Inr y, t))"
  by (simp add: seqE_def bindE_eq_Ok)

lemma map_errE_eq_Ok [simp]: "map_errE f m s = (Inr y, t) \<longleftrightarrow> m s = (Inr y, t)"
  by (auto simp: map_errE_def split: prod.splits sum.splits)

lemma contextE_eq_Ok [simp]: "contextE c m s = (Inr y, t) \<longleftrightarrow> m s = (Inr y, t)"
  by (simp add: contextE_def)

lemma snd_map_errE [simp]: "snd (map_errE f m s) = snd (m s)"
  by (auto simp: map_errE_def split: prod.splits sum.splits)

lemma snd_contextE [simp]: "snd (contextE c m s) = snd (m s)"
  by (simp add: contextE_def)

text \<open>A predicate kept by an effect, whether it succeeds or fails.\<close>

definition preserves :: "('s \<Rightarrow> bool) \<Rightarrow> ('s, 'a) eff \<Rightarrow> bool" where
  "preserves I m \<longleftrightarrow> (\<forall>s. I s \<longrightarrow> I (snd (m s)))"

lemma preservesI: "(\<And>s. I s \<Longrightarrow> I (snd (m s))) \<Longrightarrow> preserves I m"
  by (simp add: preserves_def)

lemma preservesD: "preserves I m \<Longrightarrow> I s \<Longrightarrow> I (snd (m s))"
  by (simp add: preserves_def)

lemma preserves_returnE [pres_intros]: "preserves I (returnE x)"
  and preserves_throwE [pres_intros]: "preserves I (throwE e)"
  and preserves_getE [pres_intros]: "preserves I (getE f)"
  and preserves_liftE [pres_intros]: "preserves I (liftE r)"
  and preserves_ensureE [pres_intros]: "preserves I (ensureE b msg)"
  by (simp_all add: preserves_def eff_defs)

lemma preserves_modifyE [pres_intros]: "(\<And>s. I s \<Longrightarrow> I (f s)) \<Longrightarrow> preserves I (modifyE f)"
  by (simp add: preserves_def eff_defs)

lemma preserves_bindE [pres_intros]:
  assumes "preserves I m" and "\<And>x. preserves I (k x)"
  shows "preserves I (bindE m k)"
proof (rule preservesI)
  fix s
  assume "I s"
  obtain r t where m: "m s = (r, t)" by (cases "m s")
  from assms(1) \<open>I s\<close> m have "I t" by (auto simp: preserves_def dest: spec [of _ s])
  with m show "I (snd (bindE m k s))"
    by (cases r) (auto simp: bindE_def dest: preservesD [OF assms(2)])
qed

text \<open>What was read from the state is known of the state the continuation starts in.\<close>

lemma preserves_get:
  "(\<And>s. I s \<Longrightarrow> preserves I (k (f s))) \<Longrightarrow> preserves I (bindE (getE f) k)"
  by (simp add: preserves_def bindE_def getE_def)

lemma preserves_seqE [pres_intros]:
  "preserves I m \<Longrightarrow> preserves I n \<Longrightarrow> preserves I (seqE m n)"
  by (simp add: seqE_def preserves_bindE)

lemma preserves_map_errE [pres_intros]: "preserves I m \<Longrightarrow> preserves I (map_errE f m)"
  and preserves_contextE [pres_intros]: "preserves I m \<Longrightarrow> preserves I (contextE c m)"
  by (simp_all add: preserves_def)

lemma preserves_attemptE [pres_intros]: "preserves I m \<Longrightarrow> preserves I (attemptE m)"
  by (auto simp: preserves_def attemptE_def split: prod.splits)

lemma preserves_catchE [pres_intros]:
  assumes "preserves I m" and "\<And>e. preserves I (h e)"
  shows "preserves I (catchE m h)"
proof (rule preservesI)
  fix s
  assume "I s"
  obtain r t where m: "m s = (r, t)" by (cases "m s")
  from assms(1) \<open>I s\<close> m have "I t" by (auto simp: preserves_def dest: spec [of _ s])
  with m show "I (snd (catchE m h s))"
    by (cases r) (auto simp: catchE_def dest: preservesD [OF assms(2)])
qed

lemma preserves_if [pres_intros]:
  "(b \<Longrightarrow> preserves I m) \<Longrightarrow> (\<not> b \<Longrightarrow> preserves I n) \<Longrightarrow> preserves I (if b then m else n)"
  by simp

lemma preserves_option [pres_cases]:
  "preserves I m \<Longrightarrow> (\<And>x. preserves I (k x)) \<Longrightarrow> preserves I (case v of None \<Rightarrow> m | Some x \<Rightarrow> k x)"
  by (cases v) simp_all

lemma preserves_let [pres_cases]: "preserves I (f x) \<Longrightarrow> preserves I (let y = x in f y)"
  by simp

lemma preserves_prod [pres_cases]: "(\<And>a b. preserves I (f a b)) \<Longrightarrow> preserves I (case p of (a, b) \<Rightarrow> f a b)"
  by (cases p) simp

lemma preserves_forE [pres_intros]: "(\<And>x. preserves I (f x)) \<Longrightarrow> preserves I (forE f xs)"
  by (induction xs) (simp_all add: pres_intros)

text \<open>
  What holds of the result and the state when an effect succeeds, and of the state when it fails.
\<close>

definition wp :: "('s, 'a) eff \<Rightarrow> ('a \<Rightarrow> 's \<Rightarrow> bool) \<Rightarrow> ('s \<Rightarrow> bool) \<Rightarrow> 's \<Rightarrow> bool" where
  "wp m Q R s = (case m s of (Inr x, t) \<Rightarrow> Q x t | (Inl e, t) \<Rightarrow> R t)"

lemma wp_Ok: "wp m Q R s \<Longrightarrow> m s = (Inr x, t) \<Longrightarrow> Q x t"
  and wp_Err: "wp m Q R s \<Longrightarrow> m s = (Inl e, t) \<Longrightarrow> R t"
  by (simp_all add: wp_def)

lemma wp_snd: "wp m Q R s \<Longrightarrow> (\<And>x t. Q x t \<Longrightarrow> T t) \<Longrightarrow> (\<And>t. R t \<Longrightarrow> T t) \<Longrightarrow> T (snd (m s))"
  by (auto simp: wp_def split: prod.splits sum.splits)

lemma wp_mono:
  "wp m Q R s \<Longrightarrow> (\<And>x t. Q x t \<Longrightarrow> Q' x t) \<Longrightarrow> (\<And>t. R t \<Longrightarrow> R' t) \<Longrightarrow> wp m Q' R' s"
  by (auto simp: wp_def split: prod.splits sum.splits)

lemma wp_returnE [wp_intros]: "Q x s \<Longrightarrow> wp (returnE x) Q R s"
  and wp_throwE [wp_intros]: "R s \<Longrightarrow> wp (throwE e) Q R s"
  and wp_getE [wp_intros]: "Q (f s) s \<Longrightarrow> wp (getE f) Q R s"
  by (simp_all add: wp_def eff_defs)

lemma wp_modifyE [wp_intros]: "Q () (g s) \<Longrightarrow> wp (modifyE g) Q R s"
  by (simp add: wp_def eff_defs)

lemma wp_option [wp_intros]:
  "(v = None \<Longrightarrow> wp m Q R s) \<Longrightarrow> (\<And>x. v = Some x \<Longrightarrow> wp (k x) Q R s) \<Longrightarrow>
   wp (case v of None \<Rightarrow> m | Some x \<Rightarrow> k x) Q R s"
  by (cases v) simp_all

lemma wp_prod [wp_intros]:
  "(\<And>a b. p = (a, b) \<Longrightarrow> wp (f a b) Q R s) \<Longrightarrow> wp (case p of (a, b) \<Rightarrow> f a b) Q R s"
  by (cases p) simp

lemma wp_let [wp_intros]: "wp (f x) Q R s \<Longrightarrow> wp (let y = x in f y) Q R s"
  by simp

lemma wp_liftE [wp_intros]:
  "(\<And>x. r = Inr x \<Longrightarrow> Q x s) \<Longrightarrow> (\<And>e. r = Inl e \<Longrightarrow> R s) \<Longrightarrow> wp (liftE r) Q R s"
  by (auto simp: wp_def eff_defs split: sum.splits)

lemma wp_ensureE [wp_intros]:
  "(b \<Longrightarrow> Q () s) \<Longrightarrow> (\<not> b \<Longrightarrow> R s) \<Longrightarrow> wp (ensureE b msg) Q R s"
  by (auto simp: wp_def eff_defs ensure_def split: sum.splits)

lemma wp_bindE [wp_intros]: "wp m (\<lambda>x. wp (k x) Q R) R s \<Longrightarrow> wp (bindE m k) Q R s"
  by (auto simp: wp_def bindE_def split: prod.splits sum.splits)

lemma wp_seqE [wp_intros]: "wp m (\<lambda>_. wp n Q R) R s \<Longrightarrow> wp (seqE m n) Q R s"
  by (simp add: seqE_def wp_bindE)

lemma wp_catchE [wp_intros]:
  "wp m Q (\<lambda>t. \<forall>e. wp (h e) Q R t) s \<Longrightarrow> wp (catchE m h) Q R s"
  by (cases "m s"; cases "fst (m s)") (auto simp: wp_def catchE_def)

lemma wp_if [wp_intros]:
  "(b \<Longrightarrow> wp m Q R s) \<Longrightarrow> (\<not> b \<Longrightarrow> wp n Q R s) \<Longrightarrow> wp (if b then m else n) Q R s"
  by simp

lemma wp_result: "(\<And>x t. m s = (Inr x, t) \<Longrightarrow> Q x t) \<Longrightarrow> (\<And>e t. m s = (Inl e, t) \<Longrightarrow> R t) \<Longrightarrow> wp m Q R s"
  by (auto simp: wp_def split: prod.splits sum.splits)

lemma wp_preserved:
  assumes "preserves I m" "I s" "\<And>x t. m s = (Inr x, t) \<Longrightarrow> I t \<Longrightarrow> Q x t" "\<And>t. I t \<Longrightarrow> R t"
  shows "wp m Q R s"
  using assms(1,2) by (intro wp_result) (auto dest!: preservesD intro: assms(3,4))

section \<open>Machine arithmetic\<close>

text \<open>
  Unsigned values are natural numbers below their width's bound; saturating and wrapping
  operations are written out at their width.
\<close>

definition U8_MAX :: nat where "U8_MAX = 255"
definition U32_MAX :: nat where "U32_MAX = 4294967295"
definition U64_MAX :: nat where "U64_MAX = 18446744073709551615"

definition saturating_add_u8 :: "nat \<Rightarrow> nat \<Rightarrow> nat" where
  "saturating_add_u8 a b = min (a + b) U8_MAX"

definition saturating_add_u32 :: "nat \<Rightarrow> nat \<Rightarrow> nat" where
  "saturating_add_u32 a b = min (a + b) U32_MAX"

definition saturating_add_u64 :: "nat \<Rightarrow> nat \<Rightarrow> nat" where
  "saturating_add_u64 a b = min (a + b) U64_MAX"

definition wrapping_add_u64 :: "nat \<Rightarrow> nat \<Rightarrow> nat" where
  "wrapping_add_u64 a b = (a + b) mod (U64_MAX + 1)"

lemma saturating_add_u64_le [simp]: "saturating_add_u64 a b \<le> U64_MAX"
  by (simp add: saturating_add_u64_def)

lemma saturating_add_u64_small: "a + b \<le> U64_MAX \<Longrightarrow> saturating_add_u64 a b = a + b"
  by (simp add: saturating_add_u64_def)

lemma saturating_add_u64_ge: "a \<le> U64_MAX \<Longrightarrow> a \<le> saturating_add_u64 a b"
  by (simp add: saturating_add_u64_def)

lemma saturating_add_u64_mono: "a \<le> b \<Longrightarrow> saturating_add_u64 a c \<le> saturating_add_u64 b c"
  by (simp add: saturating_add_u64_def min_def)

section \<open>Floats\<close>

text \<open>
  The program stores, compares and classifies 64-bit floats. A value is one of the two
  infinities, a NaN, negative zero or a rational number; \<open>f64_val\<close> reads a finite value.
  Comparisons follow IEEE 754: every comparison with a NaN is false. NaN payloads are not
  distinguished.
\<close>

datatype f64 = Fin rat | NegZero | PosInf | NegInf | NaN

fun f64_val :: "f64 \<Rightarrow> rat option" where
  "f64_val (Fin q) = Some q"
| "f64_val NegZero = Some 0"
| "f64_val _ = None"

definition f64_finite :: "f64 \<Rightarrow> bool" where
  "f64_finite x \<longleftrightarrow> f64_val x \<noteq> None"

fun f64_le :: "f64 \<Rightarrow> f64 \<Rightarrow> bool" where
  "f64_le NaN _ = False"
| "f64_le _ NaN = False"
| "f64_le NegInf _ = True"
| "f64_le _ PosInf = True"
| "f64_le PosInf _ = False"
| "f64_le _ NegInf = False"
| "f64_le x y = (the (f64_val x) \<le> the (f64_val y))"

definition f64_eq :: "f64 \<Rightarrow> f64 \<Rightarrow> bool" where
  "f64_eq x y \<longleftrightarrow> f64_le x y \<and> f64_le y x"

text \<open>\<open>(lo..=hi).contains(x)\<close> for finite bounds.\<close>

definition f64_in :: "rat \<Rightarrow> rat \<Rightarrow> f64 \<Rightarrow> bool" where
  "f64_in lo hi x \<longleftrightarrow> (case f64_val x of None \<Rightarrow> False | Some q \<Rightarrow> lo \<le> q \<and> q \<le> hi)"

lemma f64_le_Fin: "f64_le (Fin a) (Fin b) \<longleftrightarrow> a \<le> b"
  by simp

lemma f64_le_finite:
  "f64_val x = Some a \<Longrightarrow> f64_val y = Some b \<Longrightarrow> f64_le x y \<longleftrightarrow> a \<le> b"
  by (cases x; cases y) auto

lemma f64_eq_refl_iff: "f64_eq x x \<longleftrightarrow> x \<noteq> NaN"
  by (cases x) (auto simp: f64_eq_def)

lemma f64_in_finite: "f64_in lo hi x \<Longrightarrow> f64_finite x"
  by (auto simp: f64_in_def f64_finite_def split: option.splits)

section \<open>Strings\<close>

text \<open>Strings are byte lists, so \<open>length\<close> counts UTF-8 bytes as \<open>len()\<close> does.\<close>

definition starts_with :: "string \<Rightarrow> string \<Rightarrow> bool" where
  "starts_with p s \<longleftrightarrow> take (length p) s = p"

definition ascii_lower :: "char \<Rightarrow> char" where
  "ascii_lower c = (if 65 \<le> (of_char c :: nat) \<and> (of_char c :: nat) \<le> 90
                    then char_of ((of_char c :: nat) + 32) else c)"

definition eq_ignore_ascii_case :: "string \<Rightarrow> string \<Rightarrow> bool" where
  "eq_ignore_ascii_case s t \<longleftrightarrow> map ascii_lower s = map ascii_lower t"

definition ascii_digit :: "char \<Rightarrow> bool" where
  "ascii_digit c \<longleftrightarrow> 48 \<le> (of_char c :: nat) \<and> (of_char c :: nat) \<le> 57"

definition ascii_alnum :: "char \<Rightarrow> bool" where
  "ascii_alnum c \<longleftrightarrow> (let n = (of_char c :: nat) in
     (48 \<le> n \<and> n \<le> 57) \<or> (65 \<le> n \<and> n \<le> 90) \<or> (97 \<le> n \<and> n \<le> 122))"

text \<open>\<open>split(c)\<close>: the pieces between occurrences of a character, at least one.\<close>

fun split_on :: "char \<Rightarrow> string \<Rightarrow> string list" where
  "split_on c [] = [[]]"
| "split_on c (x # xs) =
     (if x = c then [] # split_on c xs
      else (case split_on c xs of [] \<Rightarrow> [[x]] | p # ps \<Rightarrow> (x # p) # ps))"

lemma split_on_nonempty [simp]: "split_on c s \<noteq> []"
  by (induction s) (auto split: list.splits)

text \<open>
  \<open>trim()\<close> removes Unicode white space at both ends: the byte sequences of its characters, removed from the
  front, and reversed from the back.
\<close>

definition ws_seqs :: "nat list list" where
  "ws_seqs = map (\<lambda>n. [n]) [9, 10, 11, 12, 13, 32] @ [[194, 133], [194, 160], [225, 154, 128]]
     @ map (\<lambda>n. [226, 128, n]) [128, 129, 130, 131, 132, 133, 134, 135, 136, 137, 138, 168, 169, 175]
     @ [[226, 129, 159], [227, 128, 128]]"

definition ws_strings :: "string list" where
  "ws_strings = map (map char_of) ws_seqs"

fun skip_prefixes :: "string list \<Rightarrow> nat \<Rightarrow> string \<Rightarrow> string" where
  "skip_prefixes ps 0 s = s"
| "skip_prefixes ps (Suc n) s =
     (case find (\<lambda>p. starts_with p s) ps of None \<Rightarrow> s | Some p \<Rightarrow> skip_prefixes ps n (drop (length p) s))"

definition trim :: "string \<Rightarrow> string" where
  "trim s = (let t = skip_prefixes ws_strings (length s) s in
     rev (skip_prefixes (map rev ws_strings) (length t) (rev t)))"

text \<open>Decimal printing, as the formatting of an unsigned integer does.\<close>

fun show_nat :: "nat \<Rightarrow> string" where
  "show_nat n = (if n < 10 then [char_of (48 + n)]
                 else show_nat (n div 10) @ [char_of (48 + n mod 10)])"

declare show_nat.simps [simp del]

section \<open>Lists\<close>

lemma find_Some_mem: "find P xs = Some x \<Longrightarrow> x \<in> set xs \<and> P x"
  by (induction xs) (auto split: if_splits)

section \<open>State machines\<close>

text \<open>
  The contract of a component that reacts to operations: a start state, a step function and an
  invariant that the start state has and every step keeps. Whole runs then keep it.
\<close>

fun run :: "('s \<Rightarrow> 'o \<Rightarrow> 's) \<Rightarrow> 's \<Rightarrow> 'o list \<Rightarrow> 's" where
  "run step s [] = s"
| "run step s (x # xs) = run step (step s x) xs"

lemma run_append: "run step s (xs @ ys) = run step (run step s xs) ys"
  by (induction xs arbitrary: s) auto

lemma run_snoc [simp]: "run step s (xs @ [x]) = step (run step s xs) x"
  by (simp add: run_append)

locale guarded_machine =
  fixes init :: 's
    and step :: "'s \<Rightarrow> 'o \<Rightarrow> 's"
    and admissible :: "'o \<Rightarrow> bool"
    and inv :: "'s \<Rightarrow> bool"
  assumes inv_init: "inv init"
    and inv_step: "inv s \<Longrightarrow> admissible x \<Longrightarrow> inv (step s x)"
begin

lemma inv_guarded_from: "inv s \<Longrightarrow> list_all admissible xs \<Longrightarrow> inv (run step s xs)"
  by (induction xs arbitrary: s) (simp_all add: inv_step)

lemma inv_guarded: "list_all admissible xs \<Longrightarrow> inv (run step init xs)"
  by (rule inv_guarded_from [OF inv_init])

end

text \<open>Where every operation is admissible, every run keeps the invariant.\<close>

locale machine = guarded_machine init step "\<lambda>_. True" inv
  for init :: 's and step :: "'s \<Rightarrow> 'o \<Rightarrow> 's" and inv :: "'s \<Rightarrow> bool"
begin

lemma inv_run_from: "inv s \<Longrightarrow> inv (run step s xs)"
  by (rule inv_guarded_from) (simp_all add: list.pred_True)

lemma inv_run: "inv (run step init xs)"
  by (rule inv_run_from [OF inv_init])

end

section \<open>Hysteresis\<close>

text \<open>
  Several monitors latch a low reading and release it only once the reading has recovered past
  a margin. The contract is that no reading is low and recovered at once.
\<close>

definition latched :: "('r \<Rightarrow> bool) \<Rightarrow> ('r \<Rightarrow> bool) \<Rightarrow> bool \<Rightarrow> 'r \<Rightarrow> bool" where
  "latched low recovered b r \<longleftrightarrow> low r \<or> (b \<and> \<not> recovered r)"

locale hysteresis =
  fixes low :: "'r \<Rightarrow> bool"
    and recovered :: "'r \<Rightarrow> bool"
  assumes low_not_recovered: "low r \<Longrightarrow> \<not> recovered r"
begin

lemma released_only_by_recovery:
  "latched low recovered True r = (\<not> recovered r)"
  using low_not_recovered by (auto simp: latched_def)

lemma engaged_only_by_low: "latched low recovered False r = low r"
  by (simp add: latched_def)

lemma latched_until_recovered:
  "b \<Longrightarrow> \<forall>r\<in>set rs. \<not> recovered r \<Longrightarrow> run (latched low recovered) b rs"
  by (induction rs arbitrary: b) (simp_all add: latched_def)

lemma unlatched_until_low:
  "\<not> b \<Longrightarrow> \<forall>r\<in>set rs. \<not> low r \<Longrightarrow> \<not> run (latched low recovered) b rs"
  by (induction rs arbitrary: b) (simp_all add: latched_def)

end

end
