(* ===== verification/Battery.thy ===== *)
theory Battery
  imports Prelude
begin

text \<open>
  Battery levels, alerts and charge forecasts: \<open>battery/levels.rs\<close>, \<open>battery/policy.rs\<close>,
  the forecast of \<open>battery/derived.rs\<close>, the estimate label of \<open>presentation.rs\<close> and the
  battery records of \<open>model.rs\<close>. The display texts and the recorded history of a battery state
  are left out. The one rounded float division of the forecast is its exact quotient here.
\<close>

section \<open>Data\<close>

datatype BatteryProfileAction = KeepCurrent | PowerSaver | Balanced | Performance

fun BatteryProfileAction_profile :: "BatteryProfileAction \<Rightarrow> string option" where
  "BatteryProfileAction_profile KeepCurrent = None"
| "BatteryProfileAction_profile PowerSaver = Some ''power-saver''"
| "BatteryProfileAction_profile Balanced = Some ''balanced''"
| "BatteryProfileAction_profile Performance = Some ''performance''"

record BatteryPolicyState =
  warning_percent :: nat
  critical_percent :: nat
  notify_warning :: bool
  notify_critical :: bool
  warning_profile :: BatteryProfileAction
  critical_profile :: BatteryProfileAction
  recovery_margin_percent :: nat
  notify_when_full :: bool
  auto_power_saver :: bool

definition BatteryPolicyState_default :: BatteryPolicyState where
  "BatteryPolicyState_default =
     \<lparr>warning_percent = 25, critical_percent = 12, notify_warning = True, notify_critical = True,
      warning_profile = PowerSaver, critical_profile = PowerSaver, recovery_margin_percent = 3,
      notify_when_full = True, auto_power_saver = True\<rparr>"

record BatteryProtectionState =
  pt_supported :: bool
  pt_backend :: string
  pt_managed :: bool
  protection_enabled :: bool
  start_percent :: "nat option"
  end_percent :: "nat option"
  desired_start_percent :: "nat option"
  desired_end_percent :: "nat option"
  desired_enabled :: bool
  thresholds_verified :: bool
  charge_once_active :: bool
  supports_start :: bool
  supports_end :: bool
  supports_charge_behaviour :: bool
  charge_behaviour :: "string option"
  available_behaviours :: "string list"
  pt_error :: "string option"

definition BatteryProtectionState_default :: BatteryProtectionState where
  "BatteryProtectionState_default =
     \<lparr>pt_supported = False, pt_backend = [], pt_managed = False, protection_enabled = False, start_percent = None,
      end_percent = None, desired_start_percent = None, desired_end_percent = None, desired_enabled = False,
      thresholds_verified = False, charge_once_active = False, supports_start = False, supports_end = False,
      supports_charge_behaviour = False, charge_behaviour = None, available_behaviours = [], pt_error = None\<rparr>"

text \<open>What the kernel reports in millionths is its exact quotient.\<close>

record BatteryDeviceState =
  bd_id :: string
  bd_vendor :: string
  bd_model :: string
  bd_serial :: string
  bd_present :: bool
  bd_percentage :: nat
  bd_state :: string
  bd_power_watts :: rat
  energy_now_wh :: "rat option"
  energy_full_wh :: "rat option"
  energy_full_design_wh :: "rat option"
  voltage_volts :: "rat option"
  bd_health_percent :: "nat option"
  bd_cycles :: "nat option"
  bd_protection :: BatteryProtectionState

record BatteryOperationState =
  bo_kind :: string
  bo_battery_id :: string
  bo_phase :: string
  bo_started_unix_ms :: nat
  bo_expires_unix_ms :: nat

record BatteryState =
  bat_available :: bool
  native_path :: string
  percentage :: nat
  bat_state :: string
  charging :: bool
  plugged :: bool
  power_watts :: rat
  power_available :: bool
  time_to_empty_seconds :: nat
  time_to_full_seconds :: nat
  health_percent :: "nat option"
  bat_cycles :: "nat option"
  bat_warning :: bool
  bat_critical :: bool
  bat_policy :: BatteryPolicyState
  bat_operation :: BatteryOperationState
  protection :: BatteryProtectionState
  bat_devices :: "BatteryDeviceState list"
  bat_error :: "string option"

definition BatteryState_default :: BatteryState where
  "BatteryState_default =
     \<lparr>bat_available = False, native_path = [], percentage = 0, bat_state = [], charging = False, plugged = False,
      power_watts = 0, power_available = False, time_to_empty_seconds = 0, time_to_full_seconds = 0, health_percent = None,
      bat_cycles = None, bat_warning = False, bat_critical = False, bat_policy = BatteryPolicyState_default,
      bat_operation = \<lparr>bo_kind = [], bo_battery_id = [], bo_phase = [], bo_started_unix_ms = 0, bo_expires_unix_ms = 0\<rparr>,
      protection = BatteryProtectionState_default, bat_devices = [], bat_error = None\<rparr>"

section \<open>Levels\<close>

definition RECOVERY_MARGIN :: nat where "RECOVERY_MARGIN = 3"

definition recovered :: "nat \<Rightarrow> nat \<Rightarrow> bool" where
  "recovered pct threshold \<longleftrightarrow> pct > min (saturating_add_u8 threshold RECOVERY_MARGIN) 100"

datatype BatteryLevel = Normal | Low | Critical

definition BatteryLevel_observe :: "BatteryLevel \<Rightarrow> BatteryState \<Rightarrow> BatteryLevel" where
  "BatteryLevel_observe self battery =
     (if \<not> bat_available battery \<or> plugged battery then Normal
      else
        let percent = percentage battery; policy = bat_policy battery in
        if percent \<le> critical_percent policy
           \<or> (self = Critical \<and> \<not> recovered percent (critical_percent policy)) then Critical
        else if percent \<le> warning_percent policy
           \<or> (self \<noteq> Normal \<and> \<not> recovered percent (warning_percent policy)) then Low
        else Normal)"

fun BatteryLevel_as_str :: "BatteryLevel \<Rightarrow> string" where
  "BatteryLevel_as_str Normal = ''normal''"
| "BatteryLevel_as_str Low = ''low''"
| "BatteryLevel_as_str Critical = ''critical''"

fun BatteryLevel_action :: "BatteryLevel \<Rightarrow> BatteryState \<Rightarrow> BatteryProfileAction" where
  "BatteryLevel_action Normal battery = KeepCurrent"
| "BatteryLevel_action Low battery = warning_profile (bat_policy battery)"
| "BatteryLevel_action Critical battery = critical_profile (bat_policy battery)"

section \<open>Alerts\<close>

datatype BatteryAlert = AlertWarning | AlertCritical | ChargeComplete nat

record AlertTracker =
  initialized :: bool
  warning_sent :: bool
  critical_sent :: bool
  full_sent :: bool

definition AlertTracker_default :: AlertTracker where
  "AlertTracker_default =
     \<lparr>initialized = False, warning_sent = False, critical_sent = False, full_sent = False\<rparr>"

definition charge_complete_percent :: "BatteryState \<Rightarrow> nat" where
  "charge_complete_percent state =
     (if charge_once_active (protection state) then 100
      else if protection_enabled (protection state)
      then (case end_percent (protection state) of Some p \<Rightarrow> p | None \<Rightarrow> 100)
      else 100)"

definition AlertTracker_initialize :: "AlertTracker \<Rightarrow> BatteryState \<Rightarrow> nat \<Rightarrow> AlertTracker" where
  "AlertTracker_initialize self state complete_at =
     self\<lparr>initialized := True,
       warning_sent := \<not> plugged state \<and> percentage state \<le> warning_percent (bat_policy state),
       critical_sent := \<not> plugged state \<and> percentage state \<le> critical_percent (bat_policy state),
       full_sent := plugged state \<and> percentage state \<ge> complete_at\<rparr>"

definition AlertTracker_observe_charging ::
  "AlertTracker \<Rightarrow> nat \<Rightarrow> nat \<Rightarrow> bool \<Rightarrow> BatteryAlert option \<times> AlertTracker" where
  "AlertTracker_observe_charging self pct complete_at notify_full =
     (let self = self\<lparr>warning_sent := False, critical_sent := False\<rparr> in
      if pct < complete_at then (None, self\<lparr>full_sent := False\<rparr>)
      else if full_sent self then (None, self\<lparr>full_sent := True\<rparr>)
      else (if notify_full then Some (ChargeComplete complete_at) else None,
            self\<lparr>full_sent := True\<rparr>))"

definition AlertTracker_observe_discharging ::
  "AlertTracker \<Rightarrow> BatteryState \<Rightarrow> BatteryAlert option \<times> AlertTracker" where
  "AlertTracker_observe_discharging self state =
     (let self = self\<lparr>full_sent := False\<rparr>;
          policy = bat_policy state;
          self = (if recovered (percentage state) (warning_percent policy)
                  then self\<lparr>warning_sent := False\<rparr> else self);
          self = (if recovered (percentage state) (critical_percent policy)
                  then self\<lparr>critical_sent := False\<rparr> else self) in
      if percentage state \<le> critical_percent policy then
        let self = self\<lparr>warning_sent := True\<rparr> in
        if \<not> critical_sent self
        then (if notify_critical policy then Some AlertCritical else None,
              self\<lparr>critical_sent := True\<rparr>)
        else (None, self\<lparr>critical_sent := True\<rparr>)
      else if percentage state \<le> warning_percent policy then
        if \<not> warning_sent self
        then (if notify_warning policy then Some AlertWarning else None,
              self\<lparr>warning_sent := True\<rparr>)
        else (None, self\<lparr>warning_sent := True\<rparr>)
      else (None, self))"

definition AlertTracker_observe ::
  "AlertTracker \<Rightarrow> BatteryState \<Rightarrow> bool \<Rightarrow> BatteryAlert option \<times> AlertTracker" where
  "AlertTracker_observe self state notify_full =
     (if \<not> bat_available state then (None, self)
      else
        let complete_at = charge_complete_percent state in
        if \<not> initialized self then (None, AlertTracker_initialize self state complete_at)
        else if plugged state
        then AlertTracker_observe_charging self (percentage state) complete_at notify_full
        else AlertTracker_observe_discharging self state)"

text \<open>The alerts of a sequence of readings, in order, as the monitor sends them.\<close>

fun AlertTracker_alerts ::
  "AlertTracker \<Rightarrow> (BatteryState \<times> bool) list \<Rightarrow> BatteryAlert list" where
  "AlertTracker_alerts self [] = []"
| "AlertTracker_alerts self ((state, notify_full) # rest) =
     (case AlertTracker_observe self state notify_full of
        (None, self') \<Rightarrow> AlertTracker_alerts self' rest
      | (Some a, self') \<Rightarrow> a # AlertTracker_alerts self' rest)"

text \<open>Notification of an alert: icon, summary, body, urgency.\<close>

fun alert_notification :: "BatteryAlert \<Rightarrow> string \<times> string \<times> string \<times> nat" where
  "alert_notification AlertWarning = (''battery-caution'', ''Battery low'', ''Plug in soon.'', 1)"
| "alert_notification AlertCritical = (''battery-empty'', ''Battery critical'', ''Plug in now.'', 2)"
| "alert_notification (ChargeComplete percent) =
     (''battery-full-charged'',
      (if percent < 100 then ''Charge limit reached'' else ''Battery full''),
      (if percent < 100
       then ''Charging paused at the protected limit of '' @ show_nat percent @ ''%.''
       else ''Unplug to reduce wear.''),
      0)"

section \<open>Forecast\<close>

definition estimate :: "rat \<Rightarrow> string" where
  "estimate seconds =
     (if seconds \<le> 0 then ''Estimating''
      else
        let minutes = nat \<lfloor>seconds / 60\<rfloor> in
        if minutes \<ge> 60
        then show_nat (minutes div 60) @ ''h '' @ show_nat (minutes mod 60) @ ''m''
        else show_nat (max minutes 1) @ ''m'')"

record ChargeForecast =
  duration_label :: string
  fc_limit :: "nat option"
  fc_target :: nat
  fc_percentage :: nat
  fc_seconds :: rat
  estimating :: bool
  fc_status :: string
  approximate :: bool
  fc_scope :: string

definition forecast_seconds :: "BatteryState \<Rightarrow> nat \<Rightarrow> rat option" where
  "forecast_seconds battery target =
     (if \<not> bat_available battery then None
      else if target = 0 then
        (if percentage battery = 0 then None
         else if 1 \<le> time_to_empty_seconds battery \<and> time_to_empty_seconds battery \<le> 604800
         then Some (of_nat (time_to_empty_seconds battery) * 1 / 1)
         else Some 0)
      else
        (if \<not> charging battery \<or> percentage battery \<ge> target then None
         else if 1 \<le> time_to_full_seconds battery \<and> time_to_full_seconds battery \<le> 86400
         then Some (of_nat (time_to_full_seconds battery)
                     * of_nat (target - percentage battery) / of_nat (100 - percentage battery))
         else Some 0))"

definition forecast_limit :: "BatteryState \<Rightarrow> nat option" where
  "forecast_limit battery =
     (case end_percent (protection battery) of
        Some v \<Rightarrow> (if protection_enabled (protection battery)
                       \<and> \<not> charge_once_active (protection battery) \<and> 1 \<le> v \<and> v < 100
                    then Some v else None)
      | None \<Rightarrow> None)"

definition forecast :: "BatteryState \<Rightarrow> ChargeForecast" where
  "forecast battery =
     (let limit = forecast_limit battery;
          discharging = \<not> plugged battery \<and> \<not> charging battery;
          target = (if discharging then 0 else (case limit of Some v \<Rightarrow> v | None \<Rightarrow> 100));
          est = forecast_seconds battery target;
          at_limit = bat_available battery \<and> limit = Some target \<and> percentage battery \<ge> target;
          status = (case est of
              Some seconds \<Rightarrow> (if seconds > 0 then ''valid'' else ''estimating'')
            | None \<Rightarrow> (if at_limit then ''limit-reached''
                       else if bat_available battery \<and> plugged battery \<and> percentage battery = 100
                       then ''full'' else ''unavailable''));
          secs = (case est of Some s \<Rightarrow> s | None \<Rightarrow> 0) in
      \<lparr>duration_label = estimate secs, fc_limit = limit, fc_target = target,
       fc_percentage = percentage battery, fc_seconds = secs,
       estimating = (status = ''estimating''), fc_status = status,
       approximate = (status = ''valid''), fc_scope = ''aggregate''\<rparr>)"

section \<open>Levels: hysteresis\<close>

lemma recovered_iff: "recovered p t \<longleftrightarrow> p > min (t + 3) 100"
  by (auto simp: recovered_def saturating_add_u8_def RECOVERY_MARGIN_def U8_MAX_def min_def)

lemma recovered_above: "t \<le> 100 \<Longrightarrow> recovered p t \<Longrightarrow> t < p"
  by (auto simp: recovered_iff)

text \<open>A reading paired with its threshold; thresholds are percentages.\<close>

definition at_or_below :: "nat \<times> nat \<Rightarrow> bool" where
  "at_or_below r \<longleftrightarrow> fst r \<le> snd r \<and> snd r \<le> 100"

definition past_margin :: "nat \<times> nat \<Rightarrow> bool" where
  "past_margin r \<longleftrightarrow> recovered (fst r) (snd r)"

interpretation level_latch: hysteresis at_or_below past_margin
  by unfold_locales (auto simp: at_or_below_def past_margin_def dest: recovered_above)

definition on_battery :: "BatteryState \<Rightarrow> bool" where
  "on_battery b \<longleftrightarrow> bat_available b \<and> \<not> plugged b"

definition thresholds_valid :: "BatteryState \<Rightarrow> bool" where
  "thresholds_valid b \<longleftrightarrow> critical_percent (bat_policy b) \<le> 100 \<and> warning_percent (bat_policy b) \<le> 100"

lemma BatteryLevel_observe_Critical_iff:
  assumes "thresholds_valid b" and "on_battery b"
  shows "BatteryLevel_observe l b = Critical \<longleftrightarrow>
    latched at_or_below past_margin (l = Critical) (percentage b, critical_percent (bat_policy b))"
  using assms
  by (auto simp: BatteryLevel_observe_def on_battery_def thresholds_valid_def latched_def
      at_or_below_def past_margin_def Let_def)

lemma BatteryLevel_observe_off_battery [simp]:
  "\<not> on_battery b \<Longrightarrow> BatteryLevel_observe l b = Normal"
  by (auto simp: BatteryLevel_observe_def on_battery_def)

lemma run_BatteryLevel_Critical:
  assumes "\<forall>b\<in>set bs. on_battery b \<and> thresholds_valid b"
  shows "(run BatteryLevel_observe l bs = Critical) =
    run (latched at_or_below past_margin) (l = Critical)
      (map (\<lambda>b. (percentage b, critical_percent (bat_policy b))) bs)"
  using assms
  by (induction bs arbitrary: l) (simp_all add: BatteryLevel_observe_Critical_iff)

text \<open>
  Once the battery is at the critical level it stays there over any sequence of readings on
  battery power that never climbs more than the recovery margin above the critical threshold:
  small oscillations around the threshold do not switch power profiles back and forth.
\<close>

theorem level_critical_is_latched:
  assumes "\<forall>b\<in>set bs. on_battery b \<and> thresholds_valid b
      \<and> percentage b \<le> min (critical_percent (bat_policy b) + 3) 100"
  shows "run BatteryLevel_observe Critical bs = Critical"
proof -
  have "run (latched at_or_below past_margin) (Critical = Critical)
      (map (\<lambda>b. (percentage b, critical_percent (bat_policy b))) bs)"
    by (rule level_latch.latched_until_recovered)
      (use assms in \<open>auto simp: past_margin_def recovered_iff\<close>)
  with assms show ?thesis by (simp add: run_BatteryLevel_Critical)
qed

definition example_reading :: "nat \<Rightarrow> bool \<Rightarrow> BatteryState" where
  "example_reading pct plug = BatteryState_default\<lparr>bat_available := True, percentage := pct, charging := plug,
     plugged := plug, time_to_empty_seconds := 3600, time_to_full_seconds := 3600,
     protection := BatteryProtectionState_default\<lparr>protection_enabled := True, end_percent := Some 80\<rparr>\<rparr>"

lemmas reading_simps = example_reading_def BatteryState_default_def BatteryProtectionState_default_def BatteryPolicyState_default_def on_battery_def
  thresholds_valid_def

theorem level_critical_is_latched_witness:
  "run BatteryLevel_observe Critical [example_reading 13 False, example_reading 15 False, example_reading 12 False] = Critical"
  by (rule level_critical_is_latched) (simp add: reading_simps)

section \<open>Alerts: one per episode\<close>

lemmas alert_defs = AlertTracker_observe_def AlertTracker_initialize_def
  AlertTracker_observe_charging_def AlertTracker_observe_discharging_def Let_def

text \<open>Readings of one episode for a threshold: on battery and never past its margin.\<close>

definition same_episode :: "(BatteryPolicyState \<Rightarrow> nat) \<Rightarrow> BatteryState \<Rightarrow> bool" where
  "same_episode threshold b \<longleftrightarrow>
     \<not> plugged b \<and> \<not> recovered (percentage b) (threshold (bat_policy b))"

lemma critical_alert_step:
  assumes "AlertTracker_observe t b n = (a, t')" and "same_episode critical_percent b"
  shows "(if a = Some AlertCritical then 1 else 0)
      + (if initialized t' \<and> critical_sent t' then 0 else 1)
    \<le> (if initialized t \<and> critical_sent t then 0 else 1 :: nat)"
  using assms by (auto simp: alert_defs same_episode_def split: if_splits)

lemma warning_alert_step:
  assumes "AlertTracker_observe t b n = (a, t')" and "same_episode warning_percent b"
  shows "(if a = Some AlertWarning then 1 else 0)
      + (if initialized t' \<and> warning_sent t' then 0 else 1)
    \<le> (if initialized t \<and> warning_sent t then 0 else 1 :: nat)"
  using assms by (auto simp: alert_defs same_episode_def split: if_splits)

lemma critical_alert_count:
  assumes "\<forall>(b, n)\<in>set rs. same_episode critical_percent b"
  shows "count_list (AlertTracker_alerts t rs) AlertCritical
    \<le> (if initialized t \<and> critical_sent t then 0 else 1)"
  using assms
proof (induction rs arbitrary: t)
  case (Cons r rs)
  obtain b n where r: "r = (b, n)" by (cases r)
  obtain a t' where o: "AlertTracker_observe t b n = (a, t')"
    by (cases "AlertTracker_observe t b n")
  from Cons.prems r have "same_episode critical_percent b" by simp
  from critical_alert_step [OF o this] Cons.IH [of t'] Cons.prems r o
  show ?case by (cases a) (auto split: if_splits)
qed simp

lemma warning_alert_count:
  assumes "\<forall>(b, n)\<in>set rs. same_episode warning_percent b"
  shows "count_list (AlertTracker_alerts t rs) AlertWarning
    \<le> (if initialized t \<and> warning_sent t then 0 else 1)"
  using assms
proof (induction rs arbitrary: t)
  case (Cons r rs)
  obtain b n where r: "r = (b, n)" by (cases r)
  obtain a t' where o: "AlertTracker_observe t b n = (a, t')"
    by (cases "AlertTracker_observe t b n")
  from Cons.prems r have "same_episode warning_percent b" by simp
  from warning_alert_step [OF o this] Cons.IH [of t'] Cons.prems r o
  show ?case by (cases a) (auto split: if_splits)
qed simp

text \<open>
  Alerts are deduplicated per episode. Over any sequence of readings that is never plugged in
  and never climbs past the recovery margin of the critical threshold, the tracker sends at most
  one critical alert, from whatever state it starts; the same holds of the warning alert and the
  warning threshold.
\<close>

theorem alerts_once_per_episode:
  "((\<forall>(b, n)\<in>set rs. same_episode critical_percent b) \<longrightarrow>
      count_list (AlertTracker_alerts t rs) AlertCritical \<le> 1)
   \<and> ((\<forall>(b, n)\<in>set rs. same_episode warning_percent b) \<longrightarrow>
      count_list (AlertTracker_alerts t rs) AlertWarning \<le> 1)"
proof (intro conjI impI)
  assume "\<forall>(b, n)\<in>set rs. same_episode critical_percent b"
  from critical_alert_count [OF this, of t]
  show "count_list (AlertTracker_alerts t rs) AlertCritical \<le> 1" by (auto split: if_splits)
next
  assume "\<forall>(b, n)\<in>set rs. same_episode warning_percent b"
  from warning_alert_count [OF this, of t]
  show "count_list (AlertTracker_alerts t rs) AlertWarning \<le> 1" by (auto split: if_splits)
qed

definition sample_episode :: "(BatteryState \<times> bool) list" where
  "sample_episode = [(example_reading 14 False, True), (example_reading 12 False, True), (example_reading 15 False, True),
     (example_reading 11 False, True)]"

lemma sample_episode_same:
  "\<forall>(b, n)\<in>set sample_episode. same_episode critical_percent b"
  "\<forall>(b, n)\<in>set sample_episode. same_episode warning_percent b"
  by (simp_all add: sample_episode_def same_episode_def recovered_iff reading_simps)

theorem alerts_once_per_episode_witness:
  "count_list (AlertTracker_alerts AlertTracker_default sample_episode) AlertCritical \<le> 1
   \<and> count_list (AlertTracker_alerts AlertTracker_default sample_episode) AlertWarning \<le> 1
   \<and> AlertTracker_alerts AlertTracker_default sample_episode = [AlertCritical]"
proof -
  have "AlertTracker_alerts AlertTracker_default sample_episode = [AlertCritical]"
    by (simp add: sample_episode_def recovered_iff reading_simps alert_defs AlertTracker_default_def)
  with alerts_once_per_episode [of sample_episode AlertTracker_default] sample_episode_same
  show ?thesis by blast
qed

text \<open>
  An alert states what its reading shows. A critical alert comes from a reading on battery at
  or below the critical threshold with critical notifications on, a warning alert from one between
  the two thresholds with warning notifications on (crossing both sends only the critical one), a
  charge-complete alert from a plugged-in reading at or above the charge limit it names with full
  notifications on; the first available reading never alerts.
\<close>

theorem alert_states_the_reading:
  assumes "AlertTracker_observe t b notify_full = (Some a, t')"
  shows "bat_available b \<and> initialized t \<and>
    (case a of
       AlertCritical \<Rightarrow> \<not> plugged b \<and> percentage b \<le> critical_percent (bat_policy b)
         \<and> notify_critical (bat_policy b)
     | AlertWarning \<Rightarrow> \<not> plugged b \<and> critical_percent (bat_policy b) < percentage b
         \<and> percentage b \<le> warning_percent (bat_policy b) \<and> notify_warning (bat_policy b)
     | ChargeComplete p \<Rightarrow> plugged b \<and> p = charge_complete_percent b \<and> p \<le> percentage b
         \<and> notify_full \<and> \<not> full_sent t)"
  using assms by (auto simp: alert_defs split: if_splits)

theorem alert_states_the_reading_witness:
  "bat_available (example_reading 80 True)
   \<and> 80 = charge_complete_percent (example_reading 80 True) \<and> 80 \<le> percentage (example_reading 80 True)"
  using alert_states_the_reading
    [of "AlertTracker_default\<lparr>initialized := True\<rparr>" "example_reading 80 True" True "ChargeComplete 80"]
  by (simp add: alert_defs reading_simps AlertTracker_default_def charge_complete_percent_def)

section \<open>Forecast\<close>

lemma forecast_seconds_bounds:
  assumes "forecast_seconds b target = Some s" and "target \<le> 100"
  shows "0 \<le> s \<and> s \<le> 604800 \<and> (0 < target \<longrightarrow> s \<le> of_nat (time_to_full_seconds b))"
proof (cases "target = 0")
  case True
  with assms show ?thesis by (auto simp: forecast_seconds_def split: if_splits)
next
  case False
  show ?thesis
  proof (cases "s = 0")
    case nz: False
    define f where "f = time_to_full_seconds b"
    from assms(1) False nz have s: "s = of_nat f * of_nat (target - percentage b)
        / of_nat (100 - percentage b)" and p: "percentage b < target" and f: "f \<le> 86400"
      by (auto simp: forecast_seconds_def f_def split: if_splits)
    have le: "(of_nat (target - percentage b) :: rat) \<le> of_nat (100 - percentage b)"
      using assms(2) by simp
    have pos: "(0 :: rat) < of_nat (100 - percentage b)" using p assms(2) by simp
    have "s \<le> of_nat f"
      unfolding s by (simp add: pos_divide_le_eq [OF pos] mult_left_mono [OF le])
    moreover have "(of_nat f :: rat) \<le> of_nat 86400" using f by (simp only: of_nat_le_iff)
    moreover have "0 \<le> s" unfolding s by simp
    ultimately show ?thesis by (simp add: f_def)
  qed simp
qed

lemma forecast_status:
  "fc_status (forecast b) = (case forecast_seconds b (fc_target (forecast b)) of
      Some s \<Rightarrow> (if s > 0 then ''valid'' else ''estimating'')
    | None \<Rightarrow> (if bat_available b \<and> fc_limit (forecast b) = Some (fc_target (forecast b))
                   \<and> percentage b \<ge> fc_target (forecast b) then ''limit-reached''
               else if bat_available b \<and> plugged b \<and> percentage b = 100
               then ''full'' else ''unavailable''))"
  by (simp only: forecast_def Let_def ChargeForecast.simps)

text \<open>
  Every published forecast is consistent and bounded, whatever the telemetry: the remaining
  time is between zero and one week and, towards a charge limit, never exceeds the hardware's own
  time to full; the status is valid exactly for a positive time and estimating only for zero; a
  status of limit-reached comes from a reading at the protected limit.
\<close>

theorem forecast_consistent:
  "0 \<le> fc_seconds (forecast b) \<and> fc_seconds (forecast b) \<le> 604800
   \<and> (0 < fc_target (forecast b) \<longrightarrow> fc_seconds (forecast b) \<le> of_nat (time_to_full_seconds b))
   \<and> (fc_status (forecast b) = ''valid'' \<longleftrightarrow> 0 < fc_seconds (forecast b))
   \<and> (fc_status (forecast b) = ''limit-reached'' \<longrightarrow>
        fc_limit (forecast b) = Some (fc_target (forecast b))
        \<and> fc_target (forecast b) \<le> percentage b)"
proof -
  define target where "target = fc_target (forecast b)"
  have t100: "target \<le> 100"
    by (auto simp: target_def forecast_def forecast_limit_def Let_def split: option.splits if_splits)
  have secs: "fc_seconds (forecast b) =
      (case forecast_seconds b target of Some s \<Rightarrow> s | None \<Rightarrow> 0)"
    by (simp add: forecast_def target_def Let_def)
  have "0 \<le> fc_seconds (forecast b) \<and> fc_seconds (forecast b) \<le> 604800
      \<and> (0 < target \<longrightarrow> fc_seconds (forecast b) \<le> of_nat (time_to_full_seconds b))"
    using forecast_seconds_bounds [of b target] t100
    by (cases "forecast_seconds b target") (simp_all add: secs)
  moreover have "fc_status (forecast b) = ''valid'' \<longleftrightarrow> 0 < fc_seconds (forecast b)"
    by (cases "forecast_seconds b target") (simp_all add: secs forecast_status flip: target_def)
  moreover have "fc_status (forecast b) = ''limit-reached'' \<longrightarrow>
      fc_limit (forecast b) = Some target \<and> target \<le> percentage b"
    by (cases "forecast_seconds b target") (simp_all add: secs forecast_status flip: target_def)
  ultimately show ?thesis by (simp add: target_def)
qed

theorem forecast_consistent_witness:
  "0 < fc_target (forecast (example_reading 50 True)) \<and> fc_seconds (forecast (example_reading 50 True)) = 2160
   \<and> fc_seconds (forecast (example_reading 50 True)) \<le> of_nat (time_to_full_seconds (example_reading 50 True))
   \<and> fc_status (forecast (example_reading 85 True)) = ''limit-reached''
   \<and> fc_target (forecast (example_reading 85 True)) \<le> percentage (example_reading 85 True)"
proof -
  have 1: "0 < fc_target (forecast (example_reading 50 True))
      \<and> fc_seconds (forecast (example_reading 50 True)) = 2160"
    by (simp add: forecast_def forecast_limit_def forecast_seconds_def reading_simps Let_def)
  have 2: "fc_status (forecast (example_reading 85 True)) = ''limit-reached''"
    by (simp add: forecast_def forecast_limit_def forecast_seconds_def reading_simps Let_def)
  from 1 2 forecast_consistent [of "example_reading 50 True"] forecast_consistent [of "example_reading 85 True"]
  show ?thesis by blast
qed

end
