(* ===== verification/Sleep_Outcome.thy ===== *)
theory Sleep_Outcome
  imports Prelude
begin

text \<open>
  The outcome tracker of \<open>sleep/outcome.rs\<close>: one sleep operation with its phase, the systemd job
  correlated with it, and the file-descriptor lease of the hibernate settings. Every method of the
  tracker is one definition; \<open>tracker_step\<close> is the interleaving of the requesting worker, the
  systemd monitor, the expiry timer and dropped guards, one method call at a time. A descriptor is
  a number, an instant a number of milliseconds.
\<close>

section \<open>State\<close>

record SleepOperation =
  op_id :: nat
  op_action :: string
  op_phase :: string
  op_job :: "string option"
  op_error :: "string option"

definition SleepOperation_default :: SleepOperation where
  "SleepOperation_default =
     \<lparr>op_id = 0, op_action = [], op_phase = [], op_job = None, op_error = None\<rparr>"

record Tracked =
  operation :: SleepOperation
  started :: nat
  lease :: "nat option"

definition Tracker_default :: "nat \<Rightarrow> Tracked" where
  "Tracker_default now = \<lparr>operation = SleepOperation_default, started = now, lease = None\<rparr>"

section \<open>Operations\<close>

definition dispatched :: "string \<Rightarrow> bool" where
  "dispatched phase \<longleftrightarrow> phase \<in> {''dispatching'', ''accepted'', ''preparing'', ''returned''}"

definition unfinished :: "string \<Rightarrow> bool" where
  "unfinished phase \<longleftrightarrow> dispatched phase \<or> phase \<in> {''requested'', ''unknown''}"

definition service :: "string \<Rightarrow> string" where
  "service action =
     (if action = ''suspend'' then ''systemd-suspend.service''
      else if action = ''hibernate'' then ''systemd-hibernate.service''
      else if action = ''suspend-then-hibernate'' then ''systemd-suspend-then-hibernate.service''
      else [])"

text \<open>
  \<open>modify\<close> runs an update of the operation, which also says whether watchers are notified, and
  drops the lease in every terminal phase.
\<close>

definition Tracker_modify ::
  "(SleepOperation \<Rightarrow> bool \<times> SleepOperation) \<Rightarrow> Tracked \<Rightarrow> bool \<times> Tracked" where
  "Tracker_modify update t =
     (case update (operation t) of (changed, op) \<Rightarrow>
        let t = t\<lparr>operation := op\<rparr> in
        (changed, if op_phase op \<in> {''failed'', ''completed'', ''unknown''}
                  then t\<lparr>lease := None\<rparr> else t))"

definition CancellationGuard_drop :: "nat \<Rightarrow> Tracked \<Rightarrow> bool \<times> Tracked" where
  "CancellationGuard_drop gid = Tracker_modify (\<lambda>s.
     if op_id s \<noteq> gid then (False, s)
     else if op_phase s = ''requested'' then
       (True, s\<lparr>op_phase := ''failed'', op_error := Some ''Sleep request cancelled before dispatch''\<rparr>)
     else if op_phase s = ''dispatching'' then
       (True, s\<lparr>op_phase := ''unknown'',
          op_error := Some ''Sleep dispatch was interrupted; outcome unknown''\<rparr>)
     else (False, s))"

definition Tracker_retain_lease :: "nat \<Rightarrow> Tracked \<Rightarrow> unit result \<times> Tracked" where
  "Tracker_retain_lease fd t =
     (if op_phase (operation t) \<noteq> ''requested'' \<or> lease t \<noteq> None
      then (Err (err ''hibernate settings lease requires an unleased, undispatched sleep request''), t)
      else (Ok (), t\<lparr>lease := Some fd\<rparr>))"

definition Tracker_ready_for_new_request :: "Tracked \<Rightarrow> bool" where
  "Tracker_ready_for_new_request t \<longleftrightarrow>
     op_phase (operation t) \<noteq> ''requested'' \<and> \<not> dispatched (op_phase (operation t))"

definition Tracker_cancellation_guard :: "Tracked \<Rightarrow> nat" where
  "Tracker_cancellation_guard t = op_id (operation t)"

definition Tracker_begin :: "string \<Rightarrow> nat \<Rightarrow> Tracked \<Rightarrow> Tracked" where
  "Tracker_begin action now t =
     t\<lparr>operation := SleepOperation_default\<lparr>op_id := saturating_add_u64 (op_id (operation t)) 1,
         op_action := action, op_phase := ''requested''\<rparr>,
       started := now, lease := None\<rparr>"

definition Tracker_dispatching :: "Tracked \<Rightarrow> bool \<times> Tracked" where
  "Tracker_dispatching = Tracker_modify (\<lambda>s. (True, s\<lparr>op_phase := ''dispatching''\<rparr>))"

definition Tracker_accepted :: "Tracked \<Rightarrow> bool \<times> Tracked" where
  "Tracker_accepted = Tracker_modify (\<lambda>s.
     if op_phase s \<notin> {''requested'', ''dispatching''} then (False, s)
     else (True, s\<lparr>op_phase := ''accepted''\<rparr>))"

definition Tracker_failed :: "string \<Rightarrow> bool \<Rightarrow> Tracked \<Rightarrow> bool \<times> Tracked" where
  "Tracker_failed error ambiguous = Tracker_modify (\<lambda>s.
     if ambiguous \<and> op_phase s \<in> {''completed'', ''failed''} then (False, s)
     else (True, s\<lparr>op_phase := (if ambiguous then ''unknown'' else ''failed''),
                   op_error := Some error\<rparr>))"

definition Tracker_finish_preflight_error :: "error \<Rightarrow> Tracked \<Rightarrow> bool \<times> Tracked" where
  "Tracker_finish_preflight_error error t =
     (if op_phase (operation t) = ''requested'' then Tracker_failed (err_chain error) False t
      else (False, t))"

definition Tracker_prepared :: "bool \<Rightarrow> Tracked \<Rightarrow> bool \<times> Tracked" where
  "Tracker_prepared preparing = Tracker_modify (\<lambda>s.
     if \<not> dispatched (op_phase s) then (False, s)
     else (True, s\<lparr>op_phase := (if preparing then ''preparing'' else ''returned'')\<rparr>))"

definition Tracker_job_new :: "string \<Rightarrow> string \<Rightarrow> Tracked \<Rightarrow> bool \<times> Tracked" where
  "Tracker_job_new path unit = Tracker_modify (\<lambda>s.
     if \<not> dispatched (op_phase s) \<or> op_job s \<noteq> None \<or> service (op_action s) \<noteq> unit then (False, s)
     else (True, s\<lparr>op_job := Some path\<rparr>))"

definition Tracker_job_removed ::
  "string \<Rightarrow> string \<Rightarrow> string \<Rightarrow> Tracked \<Rightarrow> bool \<times> Tracked" where
  "Tracker_job_removed path unit result = Tracker_modify (\<lambda>s.
     if op_job s \<noteq> Some path \<or> service (op_action s) \<noteq> unit \<or> \<not> unfinished (op_phase s)
     then (False, s)
     else if result = ''done''
     then (True, s\<lparr>op_phase := ''completed'', op_error := None\<rparr>)
     else (True, s\<lparr>op_phase := ''failed'',
       op_error := Some (unit @ '': '' @ result
         @ ''. Inspect this unit's journal for the sleep failure.'')\<rparr>))"

definition Tracker_lost_monitor :: "string \<Rightarrow> Tracked \<Rightarrow> bool \<times> Tracked" where
  "Tracker_lost_monitor reason = Tracker_modify (\<lambda>s.
     if \<not> dispatched (op_phase s) then (False, s)
     else (True, s\<lparr>op_phase := ''unknown'', op_error := Some reason\<rparr>))"

definition Tracker_expire :: "nat \<Rightarrow> Tracked \<Rightarrow> bool \<times> Tracked" where
  "Tracker_expire now t =
     (if now - started t \<ge> 120000
      then Tracker_lost_monitor
        ''No correlated sleep-job result was received. Outcome unknown; inspect the session before another request.'' t
      else (False, t))"

section \<open>Interleaved method calls\<close>

datatype tracker_op =
    Begin string nat
  | Dispatching
  | Accepted
  | Failed string bool
  | PreflightError error
  | Prepared bool
  | JobNew string string
  | JobRemoved string string string
  | LostMonitor string
  | Expire nat
  | RetainLease nat
  | DropGuard nat

fun tracker_step :: "Tracked \<Rightarrow> tracker_op \<Rightarrow> Tracked" where
  "tracker_step t (Begin action now) = Tracker_begin action now t"
| "tracker_step t Dispatching = snd (Tracker_dispatching t)"
| "tracker_step t Accepted = snd (Tracker_accepted t)"
| "tracker_step t (Failed e ambiguous) = snd (Tracker_failed e ambiguous t)"
| "tracker_step t (PreflightError e) = snd (Tracker_finish_preflight_error e t)"
| "tracker_step t (Prepared p) = snd (Tracker_prepared p t)"
| "tracker_step t (JobNew path unit) = snd (Tracker_job_new path unit t)"
| "tracker_step t (JobRemoved path unit result) = snd (Tracker_job_removed path unit result t)"
| "tracker_step t (LostMonitor reason) = snd (Tracker_lost_monitor reason t)"
| "tracker_step t (Expire now) = snd (Tracker_expire now t)"
| "tracker_step t (RetainLease fd) = snd (Tracker_retain_lease fd t)"
| "tracker_step t (DropGuard gid) = snd (CancellationGuard_drop gid t)"

abbreviation tracker_run :: "nat \<Rightarrow> tracker_op list \<Rightarrow> Tracked" where
  "tracker_run now \<equiv> run tracker_step (Tracker_default now)"

lemmas tracker_defs = Tracker_modify_def CancellationGuard_drop_def Tracker_retain_lease_def
  Tracker_begin_def Tracker_dispatching_def Tracker_accepted_def Tracker_failed_def
  Tracker_finish_preflight_error_def Tracker_prepared_def Tracker_job_new_def
  Tracker_job_removed_def Tracker_lost_monitor_def Tracker_expire_def Let_def

lemmas phase_defs = dispatched_def unfinished_def

definition is_begin :: "tracker_op \<Rightarrow> bool" where
  "is_begin x \<longleftrightarrow> (case x of Begin _ _ \<Rightarrow> True | _ \<Rightarrow> False)"

definition phases :: "string set" where
  "phases = {[], ''requested'', ''dispatching'', ''accepted'', ''preparing'', ''returned'',
     ''failed'', ''completed'', ''unknown''}"

definition lease_inv :: "Tracked \<Rightarrow> bool" where
  "lease_inv t \<longleftrightarrow> op_phase (operation t) \<in> phases
     \<and> (lease t \<noteq> None \<longrightarrow> op_phase (operation t) = ''requested'' \<or> dispatched (op_phase (operation t)))"

lemma lease_inv_step: "lease_inv t \<Longrightarrow> lease_inv (tracker_step t x)"
  by (cases x) (auto simp: lease_inv_def phases_def phase_defs tracker_defs)

interpretation tracker: machine "Tracker_default now" tracker_step lease_inv for now
  by unfold_locales (auto simp: lease_inv_step,
    simp add: lease_inv_def Tracker_default_def SleepOperation_default_def phases_def)

text \<open>
  Whatever the interleaving of the worker, the systemd monitor, the expiry timer and dropped
  guards, the tracker is in one of its nine phases and holds the hibernate-settings lease only while
  a request is pending or dispatched: every terminal outcome (failed, completed, unknown) releases
  it, and a later operation never inherits it.
\<close>

theorem tracker_lease_only_while_pending:
  "op_phase (operation (tracker_run now ops)) \<in> phases \<and>
   (lease (tracker_run now ops) \<noteq> None \<longrightarrow>
     op_phase (operation (tracker_run now ops)) = ''requested''
     \<or> dispatched (op_phase (operation (tracker_run now ops))))"
  using tracker.inv_run [of now ops] by (simp add: lease_inv_def)

theorem tracker_lease_only_while_pending_witness:
  "lease (tracker_run 0 [Begin ''hibernate'' 5, RetainLease 7, Dispatching]) = Some 7
   \<and> dispatched (op_phase (operation (tracker_run 0 [Begin ''hibernate'' 5, RetainLease 7, Dispatching])))
   \<and> lease (tracker_run 0 [Begin ''hibernate'' 5, RetainLease 7, Dispatching, LostMonitor ''x'']) = None"
  using tracker_lease_only_while_pending [of 0 "[Begin ''hibernate'' 5, RetainLease 7, Dispatching]"]
  by (simp add: tracker_defs phase_defs Tracker_default_def SleepOperation_default_def)

section \<open>Completion is correlated\<close>

text \<open>The job recorded for the current operation was announced by systemd after it began.\<close>

definition announced :: "tracker_op list \<Rightarrow> Tracked \<Rightarrow> bool" where
  "announced ops t \<longleftrightarrow> (\<forall>p. op_job (operation t) = Some p \<longrightarrow>
     (\<exists>pre mid. ops = pre @ JobNew p (service (op_action (operation t))) # mid
        \<and> (\<forall>x\<in>set mid. \<not> is_begin x)))"

lemma job_step:
  "op_job (operation (tracker_step t x)) = op_job (operation t)
     \<or> (is_begin x \<and> op_job (operation (tracker_step t x)) = None)
     \<or> (\<exists>p. x = JobNew p (service (op_action (operation t)))
           \<and> op_job (operation (tracker_step t x)) = Some p)"
  by (cases x) (auto simp: tracker_defs is_begin_def SleepOperation_default_def)

lemma action_step:
  "\<not> is_begin x \<Longrightarrow> op_action (operation (tracker_step t x)) = op_action (operation t)"
  by (cases x) (auto simp: tracker_defs is_begin_def)

lemma begin_clears_job: "is_begin x \<Longrightarrow> op_job (operation (tracker_step t x)) = None"
  by (cases x) (auto simp: tracker_defs is_begin_def SleepOperation_default_def)

lemma announced_step: "announced ops t \<Longrightarrow> announced (ops @ [x]) (tracker_step t x)"
proof (cases "is_begin x")
  case True
  then show ?thesis by (simp add: announced_def begin_clears_job)
next
  case False
  assume IH: "announced ops t"
  have act: "op_action (operation (tracker_step t x)) = op_action (operation t)"
    by (rule action_step [OF False])
  show ?thesis
    unfolding announced_def
  proof (intro allI impI)
    fix p
    assume p: "op_job (operation (tracker_step t x)) = Some p"
    consider "op_job (operation t) = Some p" | "x = JobNew p (service (op_action (operation t)))"
      using job_step [of t x] p False by auto
    then show "\<exists>pre mid. ops @ [x] = pre @ JobNew p (service (op_action (operation (tracker_step t x)))) # mid
        \<and> (\<forall>y\<in>set mid. \<not> is_begin y)"
    proof cases
      case 1
      with IH obtain pre mid where "ops = pre @ JobNew p (service (op_action (operation t))) # mid"
        and "\<forall>y\<in>set mid. \<not> is_begin y" by (auto simp: announced_def)
      with False show ?thesis
        by (intro exI [of _ pre] exI [of _ "mid @ [x]"]) (simp add: act)
    next
      case 2
      then have "ops @ [x] = ops @ JobNew p (service (op_action (operation (tracker_step t x)))) # []"
        unfolding act by (rule arg_cong)
      then show ?thesis by (metis empty_iff empty_set)
    qed
  qed
qed

lemma announced_run: "announced ops (tracker_run now ops)"
proof (induction ops rule: rev_induct)
  case Nil
  show ?case by (simp add: announced_def Tracker_default_def SleepOperation_default_def)
next
  case (snoc x xs)
  then show ?case by (simp add: announced_step)
qed

lemma completion_step:
  assumes "op_phase (operation (tracker_step t x)) = ''completed''"
    and "op_phase (operation t) \<noteq> ''completed''"
  obtains p where "x = JobRemoved p (service (op_action (operation t))) ''done''"
    and "op_job (operation t) = Some p"
  using assms by (cases x) (auto simp: tracker_defs SleepOperation_default_def split: if_splits)

lemma completed_not_begin:
  "op_phase (operation (tracker_step t x)) = ''completed'' \<Longrightarrow> \<not> is_begin x"
  by (cases x) (auto simp: tracker_defs is_begin_def)

text \<open>
  Completion is never inferred. If the tracker reports an operation as completed, then since
  that operation began systemd announced a job for exactly the unit of its action and later removed
  that same job with result done; no reply, signal or job of another unit or an earlier operation
  completes it.
\<close>

theorem tracker_completion_correlated:
  assumes "op_phase (operation (tracker_run now ops)) = ''completed''"
  shows "\<exists>pre mid post p.
    ops = pre @ JobNew p (service (op_action (operation (tracker_run now ops)))) # mid
      @ JobRemoved p (service (op_action (operation (tracker_run now ops)))) ''done'' # post
    \<and> (\<forall>x\<in>set (mid @ post). \<not> is_begin x)"
  using assms
proof (induction ops rule: rev_induct)
  case Nil
  then show ?case by (simp add: Tracker_default_def SleepOperation_default_def)
next
  case (snoc x xs)
  let ?t = "tracker_run now xs"
  from snoc.prems have compl: "op_phase (operation (tracker_step ?t x)) = ''completed''" by simp
  then have nb: "\<not> is_begin x" by (rule completed_not_begin)
  have act: "op_action (operation (tracker_run now (xs @ [x]))) = op_action (operation ?t)"
    by (simp add: action_step [OF nb])
  show ?case
  proof (cases "op_phase (operation ?t) = ''completed''")
    case True
    from snoc.IH [OF True] obtain pre mid post p where
      xs: "xs = pre @ JobNew p (service (op_action (operation ?t))) # mid
        @ JobRemoved p (service (op_action (operation ?t))) ''done'' # post"
      and no: "\<forall>x\<in>set (mid @ post). \<not> is_begin x" by blast
    show ?thesis
      unfolding act
      by (intro exI [of _ pre] exI [of _ mid] exI [of _ "post @ [x]"] exI [of _ p])
        (use xs no nb in auto)
  next
    case False
    from completion_step [OF compl False] obtain p where
      x: "x = JobRemoved p (service (op_action (operation ?t))) ''done''"
      and j: "op_job (operation ?t) = Some p" by blast
    from announced_run [of xs now] j obtain pre mid where
      "xs = pre @ JobNew p (service (op_action (operation ?t))) # mid"
      and "\<forall>y\<in>set mid. \<not> is_begin y" by (auto simp: announced_def)
    with x show ?thesis
      unfolding act
      by (intro exI [of _ pre] exI [of _ mid] exI [of _ "[]"] exI [of _ p]) auto
  qed
qed

definition sample_sleep :: "tracker_op list" where
  "sample_sleep = [Begin ''suspend'' 1, Dispatching, JobNew ''/job/1'' ''systemd-hibernate.service'',
     JobNew ''/job/2'' ''systemd-suspend.service'', Accepted, Prepared True, Prepared False,
     JobRemoved ''/job/2'' ''systemd-suspend.service'' ''done'']"

lemmas tracker_eval = tracker_defs phase_defs service_def Tracker_default_def
  SleepOperation_default_def sample_sleep_def

theorem tracker_completion_correlated_witness:
  "op_phase (operation (tracker_run 0 sample_sleep)) = ''completed'' \<and>
   (\<exists>pre mid post p.
     sample_sleep = pre @ JobNew p (service (op_action (operation (tracker_run 0 sample_sleep)))) # mid
      @ JobRemoved p (service (op_action (operation (tracker_run 0 sample_sleep)))) ''done'' # post
    \<and> (\<forall>x\<in>set (mid @ post). \<not> is_begin x))"
proof -
  have "op_phase (operation (tracker_run 0 sample_sleep)) = ''completed''"
    by (simp add: tracker_eval)
  with tracker_completion_correlated [OF this] show ?thesis by blast
qed

section \<open>Terminal outcomes and stale guards\<close>

definition is_monitor_op :: "tracker_op \<Rightarrow> bool" where
  "is_monitor_op x \<longleftrightarrow> (case x of
      Begin _ _ \<Rightarrow> False | Dispatching \<Rightarrow> False | Failed _ a \<Rightarrow> a | _ \<Rightarrow> True)"

lemma settled_step:
  assumes "op_phase (operation t) \<in> {''completed'', ''failed''}" and "is_monitor_op x"
  shows "operation (tracker_step t x) = operation t"
  using assms by (cases x) (auto simp: tracker_defs phase_defs is_monitor_op_def)

text \<open>
  A settled outcome outranks everything that arrives late: once an operation is completed or
  failed, no further systemd signal, lost reply, expiry, lost monitor connection, lease or dropped
  guard changes it, until a new request begins or is dispatched.
\<close>

theorem tracker_settled_outcome_kept:
  assumes "op_phase (operation t) \<in> {''completed'', ''failed''}"
    and "\<forall>x\<in>set ops. is_monitor_op x"
  shows "operation (run tracker_step t ops) = operation t"
  using assms
proof (induction ops arbitrary: t)
  case (Cons x xs)
  have "operation (tracker_step t x) = operation t"
    by (rule settled_step) (use Cons.prems in auto)
  with Cons show ?case by simp
qed simp

theorem tracker_settled_outcome_kept_witness:
  "operation (run tracker_step (tracker_run 0 sample_sleep)
      [Failed ''lost reply'' True, LostMonitor ''gone'', Expire 500000, DropGuard 1])
   = operation (tracker_run 0 sample_sleep)"
  by (rule tracker_settled_outcome_kept) (simp_all add: tracker_eval is_monitor_op_def)

text \<open>
  A request that is dispatched and never gets a correlated job result does not stay pending:
  once the expiry timer fires two minutes after it began, the phase is unknown, its lease is gone
  and a new request may begin; before two minutes the timer changes nothing.
\<close>

theorem tracker_expiry_frees:
  assumes "dispatched (op_phase (operation t))"
  shows "(started t + 120000 \<le> now \<longrightarrow>
      op_phase (operation (tracker_step t (Expire now))) = ''unknown''
      \<and> lease (tracker_step t (Expire now)) = None
      \<and> Tracker_ready_for_new_request (tracker_step t (Expire now)))
    \<and> (now < started t + 120000 \<longrightarrow> tracker_step t (Expire now) = t)"
  using assms by (auto simp: tracker_defs phase_defs Tracker_ready_for_new_request_def)

theorem tracker_expiry_frees_witness:
  "\<not> Tracker_ready_for_new_request (tracker_run 0 [Begin ''suspend'' 10, Dispatching])
   \<and> Tracker_ready_for_new_request (tracker_run 0 [Begin ''suspend'' 10, Dispatching, Expire 120010])"
proof -
  have "dispatched (op_phase (operation (tracker_run 0 [Begin ''suspend'' 10, Dispatching])))"
    by (simp add: tracker_eval)
  from tracker_expiry_frees [OF this, of 120010] show ?thesis
    by (simp add: tracker_eval Tracker_ready_for_new_request_def)
qed

end
