(* ===== verification/Sleep_Perform.thy ===== *)
theory Sleep_Perform
  imports Sleep_Outcome
begin

text \<open>
  Sleep requests: \<open>sleep.rs\<close>, \<open>sleep/capability.rs\<close> and \<open>sleep/keep_awake.rs\<close>. The services the
  code talks to over D-Bus and Wayland are a record of operations on an unknown world; each may fail
  with any error, a timeout being one of them. The model keeps, beside the tracker, a log of the
  answers the code acted on, in order, so that what preceded a sleep request can be stated. The
  session-lock poll runs at most as often as its deadline admits polls; running out is the timeout.
\<close>

section \<open>Capabilities\<close>

definition configurable :: "string \<Rightarrow> bool" where
  "configurable v \<longleftrightarrow> v \<in> {''yes'', ''challenge'', ''inhibited'', ''inhibitor-blocked'',
     ''challenge-inhibitor-blocked''}"

definition limitation :: "string \<Rightarrow> string option" where
  "limitation v =
     (if v = ''yes'' then None
      else if v = ''challenge'' then Some ''Authentication is required; non-interactive sleep is not authorized. Configure system policy before using this action.''
      else if v = ''inhibited'' \<or> v = ''inhibitor-blocked'' then Some ''Sleep is temporarily inhibited; close or release the blocking application's inhibitor.''
      else if v = ''challenge-inhibitor-blocked'' then Some ''Sleep is inhibited and also requires authentication.''
      else if v = ''no'' then Some ''Sleep is disabled or denied by system policy.''
      else if v = ''na'' then Some ''Sleep is not supported by the current system configuration.''
      else Some ''Sleep capability is unknown; refusing an unconfirmed action.'')"

definition require_authorized :: "string \<Rightarrow> unit result" where
  "require_authorized v = (case limitation v of
     Some reason \<Rightarrow> Err (err (v @ '': '' @ reason)) | None \<Rightarrow> Ok ())"

lemma require_authorized_Ok_iff [simp]: "require_authorized v = Inr u \<longleftrightarrow> v = ''yes''"
  by (auto simp: require_authorized_def limitation_def)

section \<open>Retry markers\<close>

definition mark_retryable :: "Tracked \<Rightarrow> error \<Rightarrow> error" where
  "mark_retryable t e = Msg (err_to_string e) # RetryablePreflight (op_id (operation t)) # e"

definition cancel_retry :: "error \<Rightarrow> error" where
  "cancel_retry e = Msg (err_to_string e) # RetryCancelled # e"

lemma mark_retryable_downcast [simp]:
  "downcast_preflight (mark_retryable t e) = Some (op_id (operation t))"
  by (simp add: mark_retryable_def)

lemma cancel_retry_cancelled [simp]: "is_retry_cancelled (cancel_retry e)"
  and mark_retryable_keeps_cancelled [simp]:
    "is_retry_cancelled (mark_retryable t e) = is_retry_cancelled e"
  by (auto simp: is_retry_cancelled_def cancel_retry_def mark_retryable_def)

section \<open>State\<close>

record SleepInhibitor =
  inh_what :: string
  inh_who :: string
  inh_why :: string
  inh_mode :: string
  inh_uid :: nat
  inh_pid :: nat

type_synonym RawInhibitor = "string \<times> string \<times> string \<times> string \<times> nat \<times> nat"

record PowerSleepState =
  ps_available :: bool
  can_suspend :: string
  can_hibernate :: string
  preparing_for_sleep :: bool
  resume_generation :: nat
  ps_operation :: SleepOperation
  lock_before_sleep :: bool
  keep_awake :: bool
  inhibitors :: "SleepInhibitor list"
  ps_error :: "string option"

definition PowerSleepState_default :: PowerSleepState where
  "PowerSleepState_default = \<lparr>ps_available = False, can_suspend = [], can_hibernate = [],
     preparing_for_sleep = False, resume_generation = 0, ps_operation = SleepOperation_default,
     lock_before_sleep = False, keep_awake = False, inhibitors = [], ps_error = None\<rparr>"

datatype dbus_error = MethodError string | TransportError string

fun dbus_text :: "dbus_error \<Rightarrow> string" where
  "dbus_text (MethodError n) = n"
| "dbus_text (TransportError m) = m"

text \<open>What the code asks of logind, the bus and the Wayland lock observer.\<close>

record 'w logind =
  system_bus :: "('w, unit) eff"
  manager :: "('w, unit) eff"
  call_can_suspend :: "('w, string) eff"
  call_can_hibernate :: "('w, string) eff"
  call_can_combined :: "('w, string) eff"
  call_list_inhibitors :: "('w, RawInhibitor list) eff"
  prop_preparing :: "('w, bool) eff"
  current_session :: "('w, nat) eff"
  prop_active :: "nat \<Rightarrow> ('w, bool) eff"
  prop_locked_hint :: "nat \<Rightarrow> ('w, bool) eff"
  call_lock :: "nat \<Rightarrow> ('w, unit) eff"
  observer_connect :: "('w, unit) eff"
  observer_locked :: "('w, bool) eff"
  call_sleep :: "string \<Rightarrow> 'w \<Rightarrow> dbus_error option \<times> 'w"
  call_inhibit :: "('w, nat) eff"
  process_id :: nat
  use_wayland :: bool
  lock_polls :: nat
  clock_ms :: "'w \<Rightarrow> nat"

datatype sleep_event =
    StateRead bool
  | PreparingRead bool
  | ActiveRead bool
  | LockRead bool
  | LockRequested
  | SetupDone
  | TriggerValidated
  | SleepCalled string

record 'w sleep_sys =
  trk :: Tracked
  world :: 'w
  event_log :: "sleep_event list"

definition ext :: "('w, 'a) eff \<Rightarrow> ('w sleep_sys, 'a) eff" where
  "ext m s = (case m (world s) of (r, w) \<Rightarrow> (r, s\<lparr>world := w\<rparr>))"

definition logE :: "sleep_event \<Rightarrow> ('w sleep_sys, unit) eff" where
  "logE e = modifyE (\<lambda>s. s\<lparr>event_log := event_log s @ [e]\<rparr>)"

definition trackE :: "(Tracked \<Rightarrow> 'b \<times> Tracked) \<Rightarrow> ('w sleep_sys, unit) eff" where
  "trackE f = modifyE (\<lambda>s. s\<lparr>trk := snd (f (trk s))\<rparr>)"

section \<open>Status\<close>

definition WHO :: string where "WHO = ''Shelllist Keep awake''"

definition is_ours :: "nat \<Rightarrow> RawInhibitor \<Rightarrow> bool" where
  "is_ours self_pid item = (case item of (what, who, why, mode, uid, pid) \<Rightarrow>
     who = WHO \<and> mode = ''block'' \<and> pid = self_pid
     \<and> list_ex (\<lambda>part. part = ''sleep'') (split_on CHR '':'' what))"

definition read_state :: "'w logind \<Rightarrow> bool \<Rightarrow> ('w sleep_sys, PowerSleepState) eff" where
  "read_state L prep =
     bindE (contextE ''read suspend capability'' (ext (call_can_suspend L))) (\<lambda>suspend.
     bindE (contextE ''read hibernate capability'' (ext (call_can_hibernate L))) (\<lambda>hibernate.
     bindE (contextE ''list logind inhibitors'' (ext (call_list_inhibitors L))) (\<lambda>raw.
     bindE (attemptE (ext (prop_preparing L))) (\<lambda>p.
     bindE (getE (\<lambda>s. operation (trk s))) (\<lambda>op.
     returnE \<lparr>ps_available = True, can_suspend = suspend, can_hibernate = hibernate,
       preparing_for_sleep = (case p of Inr v \<Rightarrow> v | Inl _ \<Rightarrow> prep),
       resume_generation = 0, ps_operation = op, lock_before_sleep = True,
       keep_awake = list_ex (is_ours (process_id L)) raw,
       inhibitors = map (\<lambda>(what, who, why, mode, uid, pid).
         \<lparr>inh_what = what, inh_who = who, inh_why = why, inh_mode = mode, inh_uid = uid, inh_pid = pid\<rparr>) raw,
       ps_error = None\<rparr>)))))"

definition ensure_sleep_allowed :: "PowerSleepState \<Rightarrow> ('w sleep_sys, unit) eff" where
  "ensure_sleep_allowed st = seqE (logE (StateRead (keep_awake st)))
     (ensureE (\<not> keep_awake st) ''Keep awake is enabled; turn it off before sleeping'')"

definition ensure_not_preparing :: "'w logind \<Rightarrow> ('w sleep_sys, unit) eff" where
  "ensure_not_preparing L =
     bindE (contextE ''cannot confirm whether logind is preparing for sleep; refusing to sleep''
       (ext (prop_preparing L))) (\<lambda>p.
     seqE (logE (PreparingRead p))
     (if p then throwE (cancel_retry (err ''the system is already preparing for sleep''))
      else returnE ()))"

definition ensure_active :: "'w logind \<Rightarrow> nat \<Rightarrow> ('w sleep_sys, unit) eff" where
  "ensure_active L session =
     bindE (contextE ''verify active session'' (ext (prop_active L session))) (\<lambda>a.
     seqE (logE (ActiveRead a))
     (ensureE a ''the requested session is no longer active; refusing to sleep''))"

definition confirmed_locked :: "'w logind \<Rightarrow> nat \<Rightarrow> ('w sleep_sys, bool) eff" where
  "confirmed_locked L session =
     bindE (if use_wayland L then ext (observer_locked L)
            else contextE ''read session lock confirmation'' (ext (prop_locked_hint L session))) (\<lambda>b.
     seqE (logE (LockRead b)) (returnE b))"

fun await_locked :: "'w logind \<Rightarrow> nat \<Rightarrow> nat \<Rightarrow> ('w sleep_sys, nat) eff" where
  "await_locked L session 0 =
     throwE [Msg ''session lock was not confirmed before the deadline; refusing to sleep'',
       Msg ''deadline has elapsed'']"
| "await_locked L session (Suc polls) =
     bindE (confirmed_locked L session) (\<lambda>b.
       if b then returnE session else await_locked L session polls)"

definition lock_session :: "'w logind \<Rightarrow> bool \<Rightarrow> ('w sleep_sys, nat) eff" where
  "lock_session L require_active =
     bindE (ext (current_session L)) (\<lambda>session.
      seqE (if require_active then ensure_active L session else returnE ())
      (bindE (confirmed_locked L session) (\<lambda>b.
       seqE (if b then returnE ()
             else seqE (contextE ''request session lock'' (ext (call_lock L session))) (logE LockRequested))
       (await_locked L session (lock_polls L)))))"

definition ensure_locked :: "'w logind \<Rightarrow> nat \<Rightarrow> string \<Rightarrow> ('w sleep_sys, unit) eff" where
  "ensure_locked L session stage =
     seqE (ensure_active L session)
     (bindE (confirmed_locked L session) (\<lambda>b.
       ensureE b (''session unlocked '' @ stage @ ''; refusing to sleep'')))"

section \<open>Actions\<close>

datatype Action = Lock | Suspend | Hibernate | SuspendThenHibernate

definition Action_parse :: "string \<Rightarrow> Action result" where
  "Action_parse action =
     (if action = ''lock'' then Ok Lock
      else if action = ''suspend'' then Ok Suspend
      else if action = ''hibernate'' then Ok Hibernate
      else if action = ''suspend-then-hibernate'' then Ok SuspendThenHibernate
      else Err (err (''unsupported power and sleep action: '' @ action)))"

fun Action_method :: "Action \<Rightarrow> string" where
  "Action_method Lock = ''Lock''"
| "Action_method Suspend = ''Suspend''"
| "Action_method Hibernate = ''Hibernate''"
| "Action_method SuspendThenHibernate = ''SuspendThenHibernate''"

definition Action_require_available ::
  "'w logind \<Rightarrow> Action \<Rightarrow> PowerSleepState \<Rightarrow> ('w sleep_sys, unit) eff" where
  "Action_require_available L self st =
     (case self of
        Lock \<Rightarrow> returnE ()
      | Suspend \<Rightarrow> contextE (Action_method self @ '' is unavailable'')
          (liftE (require_authorized (can_suspend st)))
      | Hibernate \<Rightarrow> contextE (Action_method self @ '' is unavailable'')
          (liftE (require_authorized (can_hibernate st)))
      | SuspendThenHibernate \<Rightarrow> bindE (ext (call_can_combined L)) (\<lambda>combined.
          contextE (Action_method self @ '' is unavailable'')
            (liftE (require_authorized combined))))"

definition ambiguous_error :: "dbus_error \<Rightarrow> bool" where
  "ambiguous_error e = (case e of
      MethodError name \<Rightarrow> name \<in> {''org.freedesktop.DBus.Error.NoReply'',
        ''org.freedesktop.DBus.Error.Timeout'', ''org.freedesktop.DBus.Error.Disconnected''}
    | TransportError _ \<Rightarrow> True)"

definition Action_dispatch :: "'w logind \<Rightarrow> Action \<Rightarrow> ('w sleep_sys, unit) eff" where
  "Action_dispatch L self =
     seqE (ext (manager L))
     (seqE (trackE Tracker_dispatching)
     (seqE (logE (SleepCalled (Action_method self)))
     (bindE (ext (\<lambda>w. case call_sleep L (Action_method self) w of (e, w') \<Rightarrow> (Inr e, w'))) (\<lambda>reply.
       case reply of
         Some e \<Rightarrow>
           seqE (trackE (Tracker_failed (Action_method self @ '': '' @ dbus_text e) (ambiguous_error e)))
             (throwE [Msg (''could not confirm '' @ Action_method self
                @ ''; a lost reply may mean acceptance. Inspect the session before another request''),
               Msg (dbus_text e)])
       | None \<Rightarrow> trackE Tracker_accepted))))"

section \<open>Performing a request\<close>

text \<open>The block guarded by the preflight deadline: no sleep request is sent inside it.\<close>

definition preflight ::
  "'w logind \<Rightarrow> Action \<Rightarrow> ('w sleep_sys, unit) eff \<Rightarrow> ('w sleep_sys, unit) eff
     \<Rightarrow> ('w sleep_sys, PowerSleepState) eff" where
  "preflight L action setup validate =
     bindE (read_state L False) (\<lambda>current.
     seqE (if action \<noteq> Lock then seqE (ensure_not_preparing L) (ensure_sleep_allowed current)
           else returnE ())
     (seqE (Action_require_available L action current)
     (seqE (if use_wayland L then ext (observer_connect L) else returnE ())
     (bindE (lock_session L (action \<noteq> Lock)) (\<lambda>session.
     seqE (if action \<noteq> Lock then
         seqE setup (seqE (logE SetupDone)
         (seqE (bindE (read_state L False) ensure_sleep_allowed)
         (seqE (ensure_locked L session ''before the sleep request'')
         (seqE (ensure_not_preparing L)
         (seqE validate (seqE (logE TriggerValidated)
         (ensure_locked L session ''during final trigger validation'')))))))
       else returnE ())
     (returnE current))))))"

definition perform_connected_with_validation ::
  "'w logind \<Rightarrow> string \<Rightarrow> ('w sleep_sys, unit) eff \<Rightarrow> ('w sleep_sys, unit) eff
     \<Rightarrow> ('w sleep_sys, PowerSleepState) eff" where
  "perform_connected_with_validation L action_name setup validate =
     bindE (liftE (Action_parse action_name)) (\<lambda>action.
     bindE (\<lambda>s. case preflight L action setup validate s of
              (Inl e, s') \<Rightarrow> (Inl (mark_retryable (trk s') e), s')
            | (Inr c, s') \<Rightarrow> (Inr c, s')) (\<lambda>current.
     seqE (if action \<noteq> Lock then Action_dispatch L action else returnE ())
     (catchE (read_state L (action \<noteq> Lock)) (\<lambda>e.
        returnE (current\<lparr>ps_available := False, preparing_for_sleep := (action \<noteq> Lock),
          ps_error := Some (Action_method action @ '' accepted, but status refresh failed: ''
            @ err_chain e)\<rparr>)))))"

text \<open>
  The exported entry point. \<open>busy\<close> says whether another lock or sleep request holds the action
  mutex. The cancellation guard taken when the request begins is dropped on return.
\<close>

definition perform_with_validation ::
  "'w logind \<Rightarrow> bool \<Rightarrow> string \<Rightarrow> ('w sleep_sys, unit) eff \<Rightarrow> ('w sleep_sys, unit) eff
     \<Rightarrow> ('w sleep_sys, PowerSleepState) eff" where
  "perform_with_validation L busy action setup validate s =
     (case Action_parse action of
        Inl e \<Rightarrow> (Inl e, s)
      | Inr _ \<Rightarrow>
        if busy then
          let e = [Msg ''a lock or sleep request is already in progress'', Msg ''operation would block''] in
          (Inl (if op_phase (operation (trk s)) \<in> {[], ''completed'', ''failed''}
                then mark_retryable (trk s) e else e), s)
        else if action \<noteq> ''lock'' \<and> \<not> Tracker_ready_for_new_request (trk s) then
          (Inl (err ''a previously accepted sleep operation is still pending''), s)
        else
          let s = (if action \<noteq> ''lock''
                   then s\<lparr>trk := Tracker_begin action (clock_ms L (world s)) (trk s)\<rparr> else s);
              guard = Tracker_cancellation_guard (trk s);
              (result, s) = bindE (\<lambda>s. case ext (system_bus L) s of
                    (Inl e, s') \<Rightarrow> (Inl (mark_retryable (trk s') e), s')
                  | (Inr u, s') \<Rightarrow> (Inr u, s'))
                (\<lambda>_. perform_connected_with_validation L action setup validate) s;
              s = (if action \<noteq> ''lock'' then
                     (case result of
                        Inl e \<Rightarrow> s\<lparr>trk := snd (Tracker_finish_preflight_error e (trk s))\<rparr>
                      | Inr _ \<Rightarrow> s)
                   else s);
              s = (if action \<noteq> ''lock'' then s\<lparr>trk := snd (CancellationGuard_drop guard (trk s))\<rparr>
                   else s) in
          (result, s))"

definition perform :: "'w logind \<Rightarrow> bool \<Rightarrow> string \<Rightarrow> ('w sleep_sys, PowerSleepState) eff" where
  "perform L busy action = perform_with_validation L busy action (returnE ()) (returnE ())"

section \<open>What a request leaves behind\<close>

definition is_sleep_call :: "sleep_event \<Rightarrow> bool" where
  "is_sleep_call e \<longleftrightarrow> (case e of SleepCalled _ \<Rightarrow> True | _ \<Rightarrow> False)"

definition sleep_calls :: "'w sleep_sys \<Rightarrow> sleep_event list" where
  "sleep_calls s = filter is_sleep_call (event_log s)"

text \<open>
  The callers' setup and validation code, like the status and lock checks, sends no sleep request,
  leaves the tracked operation alone (it may attach a lease) and only adds to the log.
\<close>

definition undisturbed :: "'w sleep_sys \<Rightarrow> 'w sleep_sys \<Rightarrow> bool" where
  "undisturbed s t \<longleftrightarrow> sleep_calls t = sleep_calls s \<and> operation (trk t) = operation (trk s)
     \<and> (\<exists>d. event_log t = event_log s @ d)"

definition quiet :: "('w sleep_sys, 'a) eff \<Rightarrow> bool" where
  "quiet m \<longleftrightarrow> (\<forall>s0. preserves (undisturbed s0) m)"

named_theorems quiet_intros \<open>code that sends no sleep request\<close>

lemma undisturbed_refl [simp]: "undisturbed s s"
  by (simp add: undisturbed_def)

lemma undisturbed_trans: "undisturbed s t \<Longrightarrow> undisturbed t u \<Longrightarrow> undisturbed s u"
  by (auto simp: undisturbed_def)

lemma quietD: "quiet m \<Longrightarrow> undisturbed s (snd (m s))"
  by (auto simp: quiet_def preserves_def)

lemma quiet_run: "quiet m \<Longrightarrow> m s = (r, t) \<Longrightarrow> undisturbed s t"
  by (drule quietD [of _ s]) simp

lemma quiet_ext [quiet_intros]: "quiet (ext m)"
  by (auto simp: quiet_def preserves_def ext_def undisturbed_def sleep_calls_def split: prod.splits)

lemma quiet_logE [quiet_intros]: "\<not> is_sleep_call e \<Longrightarrow> quiet (logE e)"
  by (auto simp: quiet_def preserves_def logE_def eff_defs undisturbed_def sleep_calls_def)

lemma quiet_basic [quiet_intros]:
  "quiet (returnE x)" "quiet (throwE e)" "quiet (getE f)" "quiet (liftE r)" "quiet (ensureE b msg)"
  by (simp_all add: quiet_def pres_intros)

lemma quiet_bindE [quiet_intros]: "quiet m \<Longrightarrow> (\<And>x. quiet (k x)) \<Longrightarrow> quiet (bindE m k)"
  and quiet_seqE [quiet_intros]: "quiet m \<Longrightarrow> quiet n \<Longrightarrow> quiet (seqE m n)"
  and quiet_contextE [quiet_intros]: "quiet m \<Longrightarrow> quiet (contextE c m)"
  and quiet_map_errE [quiet_intros]: "quiet m \<Longrightarrow> quiet (map_errE f m)"
  and quiet_attemptE [quiet_intros]: "quiet m \<Longrightarrow> quiet (attemptE m)"
  and quiet_catchE [quiet_intros]: "quiet m \<Longrightarrow> (\<And>e. quiet (h e)) \<Longrightarrow> quiet (catchE m h)"
  by (simp_all add: quiet_def pres_intros)

lemma quiet_if [quiet_intros]:
  "(b \<Longrightarrow> quiet m) \<Longrightarrow> (\<not> b \<Longrightarrow> quiet n) \<Longrightarrow> quiet (if b then m else n)"
  by simp

lemma is_sleep_call_simps [simp]:
  "is_sleep_call (SleepCalled m)" "\<not> is_sleep_call (StateRead b)"
  "\<not> is_sleep_call (PreparingRead b)" "\<not> is_sleep_call (ActiveRead b)"
  "\<not> is_sleep_call (LockRead b)" "\<not> is_sleep_call LockRequested"
  "\<not> is_sleep_call SetupDone" "\<not> is_sleep_call TriggerValidated"
  by (simp_all add: is_sleep_call_def)

lemma quiet_read_state [quiet_intros]: "quiet (read_state L p)"
  unfolding read_state_def by (intro quiet_intros)

lemma quiet_checks [quiet_intros]:
  "quiet (ensure_sleep_allowed st)" "quiet (ensure_not_preparing L)" "quiet (ensure_active L n)"
  "quiet (confirmed_locked L n)" "quiet (ensure_locked L n stage)"
  unfolding ensure_sleep_allowed_def ensure_not_preparing_def ensure_active_def
    confirmed_locked_def ensure_locked_def
  by (intro quiet_intros; simp)+

lemma quiet_await_locked [quiet_intros]: "quiet (await_locked L session polls)"
  by (induction polls) (auto intro!: quiet_intros)

lemma quiet_lock_session [quiet_intros]: "quiet (lock_session L b)"
  unfolding lock_session_def by (intro quiet_intros; simp)

lemma quiet_require_available [quiet_intros]: "quiet (Action_require_available L a st)"
  unfolding Action_require_available_def by (cases a) (auto intro!: quiet_intros)

lemma quiet_preflight: "quiet setup \<Longrightarrow> quiet validate \<Longrightarrow> quiet (preflight L a setup validate)"
  unfolding preflight_def by (intro quiet_intros; simp)

subsection \<open>Successful checks and their log\<close>

lemma ext_Ok: "ext m s = (Inr x, t) \<Longrightarrow> event_log t = event_log s \<and> trk t = trk s"
  by (auto simp: ext_def split: prod.splits)

lemma logE_run: "logE e s = (Inr (), s\<lparr>event_log := event_log s @ [e]\<rparr>)"
  by (simp add: logE_def eff_simps)

lemma preserves_ext_log [pres_intros]: "preserves (\<lambda>s. event_log s = l \<and> trk s = t) (ext m)"
  by (auto simp: preserves_def ext_def split: prod.splits)

lemma read_state_log: "event_log (snd (read_state L p s)) = event_log s \<and> trk (snd (read_state L p s)) = trk s"
proof -
  have "preserves (\<lambda>u. event_log u = event_log s \<and> trk u = trk s) (read_state L p)"
    unfolding read_state_def by (intro pres_intros)
  then show ?thesis by (auto dest: preservesD)
qed

lemma read_state_Ok: "read_state L p s = (r, t) \<Longrightarrow> event_log t = event_log s \<and> trk t = trk s"
  using read_state_log [of L p s] by simp

lemma ensure_sleep_allowed_log:
  "ensure_sleep_allowed st s = (Inr u, t) \<Longrightarrow> event_log t = event_log s @ [StateRead False]"
  by (auto simp: ensure_sleep_allowed_def seqE_eq_Ok logE_run eff_simps)

lemma ensure_not_preparing_log:
  "ensure_not_preparing L s = (Inr u, t) \<Longrightarrow> event_log t = event_log s @ [PreparingRead False]"
  by (auto simp: ensure_not_preparing_def bindE_eq_Ok seqE_eq_Ok logE_run eff_simps
      dest!: ext_Ok split: if_splits)

lemma ensure_active_log:
  "ensure_active L n s = (Inr u, t) \<Longrightarrow> event_log t = event_log s @ [ActiveRead True]"
  by (auto simp: ensure_active_def bindE_eq_Ok seqE_eq_Ok logE_run eff_simps dest!: ext_Ok)

lemma confirmed_locked_log:
  "confirmed_locked L n s = (Inr b, t) \<Longrightarrow> event_log t = event_log s @ [LockRead b]"
  by (auto simp: confirmed_locked_def bindE_eq_Ok seqE_eq_Ok logE_run eff_simps dest!: ext_Ok
      split: if_splits)

lemma ensure_locked_log:
  "ensure_locked L n stage s = (Inr u, t) \<Longrightarrow>
     event_log t = event_log s @ [ActiveRead True, LockRead True]"
  by (auto simp: ensure_locked_def bindE_eq_Ok seqE_eq_Ok eff_simps
      dest!: ensure_active_log confirmed_locked_log)

subsection \<open>Preflight and dispatch\<close>

text \<open>The last answers before a request: not kept awake, active, locked, not preparing; then the
  caller's validation, run at that point, succeeds; and active and locked again.\<close>

definition cleared :: "('w sleep_sys, unit) eff \<Rightarrow> sleep_event list \<Rightarrow> bool" where
  "cleared validate l \<longleftrightarrow> (\<exists>pre u v. validate u = (Inr (), v)
     \<and> event_log u = pre @ [StateRead False, ActiveRead True, LockRead True, PreparingRead False]
     \<and> l = event_log v @ [TriggerValidated, ActiveRead True, LockRead True])"

lemma preflight_cleared:
  assumes "a \<noteq> Lock" and "preflight L a setup validate s = (Inr c, t)"
  shows "cleared validate (event_log t)"
proof -
  from assms obtain u1 u2 u3 u4 u5 u6 n x st where
    1: "read_state L False u1 = (Inr st, u2)" and 2: "ensure_sleep_allowed st u2 = (Inr (), u3)"
    and 3: "ensure_locked L n ''before the sleep request'' u3 = (Inr (), u4)"
    and 4: "ensure_not_preparing L u4 = (Inr (), u5)" and 5: "validate u5 = (Inr x, u6)"
    and 6: "ensure_locked L n ''during final trigger validation''
        (u6\<lparr>event_log := event_log u6 @ [TriggerValidated]\<rparr>) = (Inr (), t)"
    by (auto simp: preflight_def bindE_eq_Ok seqE_eq_Ok logE_run eff_simps)
  show ?thesis
    unfolding cleared_def
    using 5 ensure_sleep_allowed_log [OF 2] ensure_locked_log [OF 3] ensure_not_preparing_log [OF 4]
      ensure_locked_log [OF 6]
    by (intro exI [of _ "event_log u2"] exI [of _ u5] exI [of _ u6]) simp
qed

lemma dispatch_outcome:
  assumes "Action_dispatch L a s = (r, t)"
  shows "(undisturbed s t \<and> \<not> is_ok r)
    \<or> (event_log t = event_log s @ [SleepCalled (Action_method a)]
       \<and> op_id (operation (trk t)) = op_id (operation (trk s))
       \<and> (case r of Inr _ \<Rightarrow> op_phase (operation (trk t)) = ''accepted''
          | Inl e \<Rightarrow> downcast_preflight e = None
              \<and> op_phase (operation (trk t)) \<in> {''failed'', ''unknown''}))"
proof -
  obtain m s1 where m: "ext (manager L) s = (m, s1)" by (cases "ext (manager L) s")
  show ?thesis
  proof (cases m)
    case (Inl e)
    with m assms have "r = Inl e" "t = s1" by (simp_all add: Action_dispatch_def seqE_def bindE_def)
    with quiet_run [OF quiet_ext m] show ?thesis by simp
  next
    case (Inr u)
    from ext_Ok [OF m [unfolded Inr]] have "event_log s1 = event_log s" "trk s1 = trk s" by simp_all
    with assms m Inr show ?thesis
      by (auto simp: Action_dispatch_def seqE_def bindE_def trackE_def logE_def eff_simps ext_def
          tracker_defs split: prod.splits option.splits if_splits)
  qed
qed

lemma perform_connected_outcome:
  assumes "quiet setup" "quiet validate"
    and "perform_connected_with_validation L name setup validate s = (r, t)"
  shows "(undisturbed s t \<and> (is_ok r \<longrightarrow> name = ''lock''))
    \<or> (\<exists>a l. Action_parse name = Inr a \<and> a \<noteq> Lock \<and> cleared validate l \<and> filter is_sleep_call l = sleep_calls s
       \<and> event_log t = l @ [SleepCalled (Action_method a)]
       \<and> op_id (operation (trk t)) = op_id (operation (trk s))
       \<and> (case r of Inr _ \<Rightarrow> op_phase (operation (trk t)) = ''accepted''
          | Inl e \<Rightarrow> downcast_preflight e = None
              \<and> op_phase (operation (trk t)) \<in> {''failed'', ''unknown''}))"
proof (cases "Action_parse name")
  case (Inl e)
  with assms(3) show ?thesis
    by (auto simp: perform_connected_with_validation_def bindE_def eff_simps)
next
  case (Inr a)
  obtain p u where p: "preflight L a setup validate s = (p, u)"
    by (cases "preflight L a setup validate s")
  have su: "undisturbed s u"
    by (rule quiet_run [OF quiet_preflight [OF assms(1,2)] p])
  show ?thesis
  proof (cases p)
    case (Inl e)
    with assms(3) Inr p su show ?thesis
      by (auto simp: perform_connected_with_validation_def bindE_def eff_simps)
  next
    case pr: (Inr c)
    let ?final = "catchE (read_state L (a \<noteq> Lock)) (\<lambda>e. returnE (c\<lparr>ps_available := False,
      preparing_for_sleep := (a \<noteq> Lock), ps_error := Some (Action_method a
        @ '' accepted, but status refresh failed: '' @ err_chain e)\<rparr>))"
    have fin: "?final v = (r', w) \<Longrightarrow> is_ok r' \<and> event_log w = event_log v \<and> trk w = trk v" for v r' w
      by (auto simp: catchE_def eff_simps dest!: read_state_Ok split: prod.splits sum.splits)
    show ?thesis
    proof (cases "a = Lock")
      case True
      with Inr have name: "name = ''lock''" by (auto simp: Action_parse_def split: if_splits)
      from assms(3) Inr p pr True have "?final u = (r, t)"
        by (simp add: perform_connected_with_validation_def bindE_def seqE_def eff_simps)
      from fin [OF this] have "event_log t = event_log u" "trk t = trk u" by auto
      with su name show ?thesis by (auto simp: undisturbed_def sleep_calls_def)
    next
      case False
      obtain d v where d: "Action_dispatch L a u = (d, v)" by (cases "Action_dispatch L a u")
      have cl: "cleared validate (event_log u)"
        by (rule preflight_cleared [OF False p [unfolded pr]])
      from su have uc: "filter is_sleep_call (event_log u) = sleep_calls s"
        and ui: "op_id (operation (trk u)) = op_id (operation (trk s))"
        by (simp_all add: undisturbed_def sleep_calls_def)
      show ?thesis
      proof (cases d)
        case di: (Inl e)
        with assms(3) Inr p pr False d have "r = Inl e" "t = v"
          by (simp_all add: perform_connected_with_validation_def bindE_def seqE_def eff_simps)
        with dispatch_outcome [OF d] di su Inr False cl uc ui show ?thesis
          by (auto dest: undisturbed_trans)
      next
        case di: (Inr x)
        with assms(3) Inr p pr False d have "?final v = (r, t)"
          by (simp add: perform_connected_with_validation_def bindE_def seqE_def eff_simps)
        from fin [OF this] have "is_ok r" "event_log t = event_log v" "trk t = trk v" by auto
        with dispatch_outcome [OF d] di Inr False cl uc ui show ?thesis
          by (cases r) auto
      qed
    qed
  qed
qed

subsection \<open>The whole request\<close>

definition connect_and_perform ::
  "'w logind \<Rightarrow> string \<Rightarrow> ('w sleep_sys, unit) eff \<Rightarrow> ('w sleep_sys, unit) eff
     \<Rightarrow> ('w sleep_sys, PowerSleepState) eff" where
  "connect_and_perform L name setup validate =
     bindE (\<lambda>s. case ext (system_bus L) s of
         (Inl e, s') \<Rightarrow> (Inl (mark_retryable (trk s') e), s') | (Inr u, s') \<Rightarrow> (Inr u, s'))
       (\<lambda>_. perform_connected_with_validation L name setup validate)"

lemma connect_and_perform_outcome:
  assumes "quiet setup" "quiet validate" and "connect_and_perform L name setup validate s = (r, t)"
  shows "(undisturbed s t \<and> (is_ok r \<longrightarrow> name = ''lock''))
    \<or> (\<exists>a l. Action_parse name = Inr a \<and> a \<noteq> Lock \<and> cleared validate l \<and> filter is_sleep_call l = sleep_calls s
       \<and> event_log t = l @ [SleepCalled (Action_method a)]
       \<and> op_id (operation (trk t)) = op_id (operation (trk s))
       \<and> (case r of Inr _ \<Rightarrow> op_phase (operation (trk t)) = ''accepted''
          | Inl e \<Rightarrow> downcast_preflight e = None
              \<and> op_phase (operation (trk t)) \<in> {''failed'', ''unknown''}))"
proof -
  obtain m s1 where m: "ext (system_bus L) s = (m, s1)" by (cases "ext (system_bus L) s")
  show ?thesis
  proof (cases m)
    case (Inl e)
    with m assms(3) quiet_run [OF quiet_ext m] show ?thesis
      by (auto simp: connect_and_perform_def bindE_def)
  next
    case (Inr u)
    from ext_Ok [OF m [unfolded Inr]] have "event_log s1 = event_log s" "trk s1 = trk s" by simp_all
    moreover have "perform_connected_with_validation L name setup validate s1 = (r, t)"
      using assms(3) m Inr by (simp add: connect_and_perform_def bindE_def)
    ultimately show ?thesis
      using perform_connected_outcome [OF assms(1,2), of L name s1 r t]
      by (simp add: undisturbed_def sleep_calls_def)
  qed
qed

lemma perform_lock:
  "Action_parse ''lock'' = Inr Lock"
  "perform_with_validation L False ''lock'' setup validate s =
     connect_and_perform L ''lock'' setup validate s"
  by (auto simp: Action_parse_def perform_with_validation_def connect_and_perform_def Let_def
      split: prod.splits)

lemma perform_sleep:
  assumes "name \<noteq> ''lock''" "Action_parse name = Inr a" "Tracker_ready_for_new_request (trk s)"
    and "connect_and_perform L name setup validate
      (s\<lparr>trk := Tracker_begin name (clock_ms L (world s)) (trk s)\<rparr>) = (r, u)"
  shows "perform_with_validation L False name setup validate s =
    (r, u\<lparr>trk := snd (CancellationGuard_drop (saturating_add_u64 (op_id (operation (trk s))) 1)
       (case r of Inl e \<Rightarrow> snd (Tracker_finish_preflight_error e (trk u)) | Inr _ \<Rightarrow> trk u))\<rparr>)"
  using assms
  by (cases r) (auto simp: perform_with_validation_def connect_and_perform_def Let_def
      Tracker_cancellation_guard_def Tracker_begin_def SleepOperation_default_def)

lemma perform_refused:
  assumes "busy \<or> (name \<noteq> ''lock'' \<and> \<not> Tracker_ready_for_new_request (trk s)) \<or> \<not> is_ok (Action_parse name)"
  shows "snd (perform_with_validation L busy name setup validate s) = s
    \<and> \<not> is_ok (fst (perform_with_validation L busy name setup validate s))"
  using assms by (auto simp: perform_with_validation_def Let_def split: sum.splits)

lemma settle_after:
  assumes "op_id (operation (trk u)) = n" "op_phase (operation (trk u)) = ''requested''"
  shows "op_phase (operation (snd (CancellationGuard_drop n
      (snd (Tracker_finish_preflight_error e (trk u)))))) = ''failed''"
    and "op_id (operation (snd (CancellationGuard_drop n
      (snd (Tracker_finish_preflight_error e (trk u)))))) = n"
  using assms by (simp_all add: tracker_defs)

lemma settle_keeps:
  assumes "op_phase (operation t) \<notin> {''requested'', ''dispatching''}"
  shows "operation (snd (CancellationGuard_drop n t)) = operation t"
    and "operation (snd (Tracker_finish_preflight_error e t)) = operation t"
  using assms by (auto simp: tracker_defs)

text \<open>Summary: a request is refused and changes nothing, or is a lock, or begins and settles.\<close>

lemma perform_outcome:
  assumes "quiet setup" "quiet validate"
    and run: "perform_with_validation L busy name setup validate s = (r, t)"
  obtains
      (refused) "t = s" "\<not> is_ok r"
    | (lock) "name = ''lock''" "undisturbed s t"
    | (unsent) "name \<noteq> ''lock''" "sleep_calls t = sleep_calls s" "\<not> is_ok r"
        "op_phase (operation (trk t)) = ''failed''"
        "op_id (operation (trk t)) = saturating_add_u64 (op_id (operation (trk s))) 1"
    | (sent) a l where "\<not> busy" "Tracker_ready_for_new_request (trk s)" "Action_parse name = Inr a"
        "a \<noteq> Lock" "cleared validate l" "event_log t = l @ [SleepCalled (Action_method a)]"
        "sleep_calls t = sleep_calls s @ [SleepCalled (Action_method a)]"
        "op_id (operation (trk t)) = saturating_add_u64 (op_id (operation (trk s))) 1"
        "case r of Inr _ \<Rightarrow> op_phase (operation (trk t)) = ''accepted''
          | Inl e \<Rightarrow> downcast_preflight e = None
              \<and> op_phase (operation (trk t)) \<in> {''failed'', ''unknown''}"
proof (cases "busy \<or> (name \<noteq> ''lock'' \<and> \<not> Tracker_ready_for_new_request (trk s))
    \<or> \<not> is_ok (Action_parse name)")
  case True
  from perform_refused [OF this, of L "setup" "validate"] run refused show thesis by simp
next
  case False
  then have nb: "busy = False" and ready: "name \<noteq> ''lock'' \<longrightarrow> Tracker_ready_for_new_request (trk s)"
    by auto
  from False obtain a where a: "Action_parse name = Inr a" by (cases "Action_parse name") auto
  show thesis
  proof (cases "name = ''lock''")
    case True
    with run nb have "connect_and_perform L ''lock'' setup validate s = (r, t)"
      by (simp add: perform_lock)
    from connect_and_perform_outcome [OF assms(1,2) this] True lock show thesis
      by (auto simp: perform_lock)
  next
    case nl: False
    define s0 where "s0 = s\<lparr>trk := Tracker_begin name (clock_ms L (world s)) (trk s)\<rparr>"
    obtain r' u where u: "connect_and_perform L name setup validate s0 = (r', u)"
      by (cases "connect_and_perform L name setup validate s0")
    let ?n = "saturating_add_u64 (op_id (operation (trk s))) 1"
    have s0: "op_id (operation (trk s0)) = ?n" "op_phase (operation (trk s0)) = ''requested''"
      "sleep_calls s0 = sleep_calls s"
      by (simp_all add: s0_def Tracker_begin_def sleep_calls_def)
    have pr: "perform_with_validation L busy name setup validate s =
      (r', u\<lparr>trk := snd (CancellationGuard_drop ?n
         (case r' of Inl e \<Rightarrow> snd (Tracker_finish_preflight_error e (trk u)) | Inr _ \<Rightarrow> trk u))\<rparr>)"
      using perform_sleep [OF nl a _ u [unfolded s0_def]] ready nl nb by simp
    with run have r: "r' = r" and t: "t = u\<lparr>trk := snd (CancellationGuard_drop ?n
         (case r of Inl e \<Rightarrow> snd (Tracker_finish_preflight_error e (trk u)) | Inr _ \<Rightarrow> trk u))\<rparr>"
      by auto
    from connect_and_perform_outcome [OF assms(1,2) u] r consider
        (A) "undisturbed s0 u" "\<not> is_ok r"
      | (B) a' l where "Action_parse name = Inr a'" "a' \<noteq> Lock" "cleared validate l"
          "filter is_sleep_call l = sleep_calls s"
          "event_log u = l @ [SleepCalled (Action_method a')]"
          "op_id (operation (trk u)) = ?n"
          "case r of Inr _ \<Rightarrow> op_phase (operation (trk u)) = ''accepted''
            | Inl e \<Rightarrow> downcast_preflight e = None
                \<and> op_phase (operation (trk u)) \<in> {''failed'', ''unknown''}"
      using nl s0 by auto
    then show thesis
    proof cases
      case A
      then obtain e where e: "r = Inl e" by (cases r) auto
      from A s0 have "op_id (operation (trk u)) = ?n" "op_phase (operation (trk u)) = ''requested''"
        by (simp_all add: undisturbed_def)
      from settle_after [OF this, of e] A e t s0 nl show thesis
        by (intro unsent) (simp_all add: undisturbed_def sleep_calls_def)
    next
      case B
      have ph: "op_phase (operation (trk u)) \<notin> {''requested'', ''dispatching''}"
        using B(7) by (auto split: sum.splits)
      have "operation (trk t) = operation (trk u)"
        unfolding t using settle_keeps(1) [OF ph]
        by (cases r) (simp_all add: settle_keeps(1) settle_keeps(2) [OF ph] ph [simplified])
      moreover have "event_log t = event_log u" by (simp add: t)
      ultimately show thesis
        using B nb ready nl by (intro sent [of a' l]) (simp_all add: sleep_calls_def split: sum.splits)
    qed
  qed
qed

text \<open>For callers: a quiet prefix sends nothing, and an error after a request proves no retry.\<close>

lemma bind_quiet_sends:
  assumes "bindE m k s = (r, t)" "quiet m" "sleep_calls t \<noteq> sleep_calls s"
  obtains x u where "m s = (Inr x, u)" "k x u = (r, t)" "sleep_calls u = sleep_calls s"
proof -
  obtain y u where m: "m s = (y, u)" by (cases "m s")
  from quiet_run [OF assms(2) m] have "sleep_calls u = sleep_calls s" by (simp add: undisturbed_def)
  with assms m that show thesis by (cases y) (auto simp: bindE_def)
qed

lemma seq_quiet_sends:
  assumes "seqE m n s = (r, t)" "quiet m" "sleep_calls t \<noteq> sleep_calls s"
  obtains x u where "m s = (Inr x, u)" "n u = (r, t)" "sleep_calls u = sleep_calls s"
  using assms(1) [unfolded seqE_def] assms(2,3) by (rule bind_quiet_sends)

lemma sent_error_not_retryable:
  assumes "quiet setup" "quiet validate"
    and "perform_with_validation L busy name setup validate s = (Inl e, t)"
    and "sleep_calls t \<noteq> sleep_calls s"
  shows "downcast_preflight e = None"
  using assms(1-3)
proof (cases rule: perform_outcome)
  case (sent a l)
  then show ?thesis by simp
qed (use assms(4) in \<open>auto simp: undisturbed_def\<close>)

lemma sent_cleared:
  assumes "quiet setup" "quiet validate"
    and "perform_with_validation L busy name setup validate s = (r, t)"
    and "sleep_calls t \<noteq> sleep_calls s"
  shows "\<exists>a l. Action_parse name = Inr a \<and> a \<noteq> Lock \<and> cleared validate l
    \<and> event_log t = l @ [SleepCalled (Action_method a)]"
  using assms(1-3)
proof (cases rule: perform_outcome)
  case (sent a l)
  then show ?thesis by blast
qed (use assms(4) in \<open>auto simp: undisturbed_def\<close>)

section \<open>Properties\<close>

text \<open>
  C1. A request reaches logind only through a cleared preflight. Whatever the services answer, a
  call of the exported entry point sends at most one sleep request, and only if no other request was
  in progress or pending; the answers it acted on end with: not kept awake, session active, locked,
  logind not already preparing, the caller's trigger valid, and session active and locked once more.
\<close>

theorem sleep_request_only_when_cleared:
  assumes "quiet setup" "quiet validate"
    and "perform_with_validation L busy name setup validate s = (r, t)"
  shows "sleep_calls t = sleep_calls s \<or>
    (\<exists>a l. Action_parse name = Inr a \<and> a \<noteq> Lock \<and> \<not> busy \<and> Tracker_ready_for_new_request (trk s)
       \<and> cleared validate l \<and> event_log t = l @ [SleepCalled (Action_method a)]
       \<and> sleep_calls t = sleep_calls s @ [SleepCalled (Action_method a)])"
  using assms
proof (cases rule: perform_outcome)
  case lock
  then show ?thesis by (simp add: undisturbed_def)
qed blast+

definition calm :: "unit logind" where
  "calm = \<lparr>system_bus = returnE (), manager = returnE (), call_can_suspend = returnE ''yes'',
     call_can_hibernate = returnE ''na'', call_can_combined = returnE ''na'',
     call_list_inhibitors = returnE [(''sleep'', ''Other'', ''x'', ''delay'', 0, 9)],
     prop_preparing = returnE False, current_session = returnE 2, prop_active = (\<lambda>_. returnE True),
     prop_locked_hint = (\<lambda>_. returnE True), call_lock = (\<lambda>_. returnE ()),
     observer_connect = returnE (), observer_locked = returnE True,
     call_sleep = (\<lambda>_ w. (None, w)), call_inhibit = returnE 3, process_id = 7, use_wayland = False,
     lock_polls = 2, clock_ms = (\<lambda>_. 0)\<rparr>"

definition idle_sys :: "unit sleep_sys" where
  "idle_sys = \<lparr>trk = Tracker_default 0, world = (), event_log = []\<rparr>"

lemmas perform_eval = perform_with_validation_def Let_def Action_parse_def
  Tracker_ready_for_new_request_def perform_connected_with_validation_def preflight_def read_state_def
  bindE_def seqE_def contextE_def map_errE_def attemptE_def catchE_def eff_simps ext_def logE_def
  trackE_def ensure_sleep_allowed_def ensure_not_preparing_def ensure_active_def confirmed_locked_def
  lock_session_def ensure_locked_def Action_require_available_def Action_dispatch_def is_ours_def
  WHO_def calm_def idle_sys_def require_authorized_def limitation_def tracker_defs phase_defs
  Tracker_default_def SleepOperation_default_def Tracker_cancellation_guard_def
  numeral_2_eq_2 ensure_def

lemma calm_suspend:
  "event_log (snd (perform_with_validation calm False ''suspend'' (returnE ()) (returnE ()) idle_sys)) =
    [PreparingRead False, StateRead False, ActiveRead True, LockRead True, LockRead True, SetupDone,
     StateRead False, ActiveRead True, LockRead True, PreparingRead False, TriggerValidated,
     ActiveRead True, LockRead True, SleepCalled ''Suspend'']"
  by (simp add: perform_eval)

theorem sleep_request_only_when_cleared_witness:
  "\<exists>a l. Action_parse ''suspend'' = Inr a \<and> a \<noteq> Lock \<and> cleared (returnE () :: (unit sleep_sys, unit) eff) l
     \<and> event_log (snd (perform_with_validation calm False ''suspend'' (returnE ()) (returnE ()) idle_sys))
        = l @ [SleepCalled (Action_method a)]"
proof -
  obtain r t where run: "perform_with_validation calm False ''suspend'' (returnE ()) (returnE ()) idle_sys = (r, t)"
    by (cases "perform_with_validation calm False ''suspend'' (returnE ()) (returnE ()) idle_sys")
  have "sleep_calls t \<noteq> sleep_calls idle_sys"
    using calm_suspend run by (simp add: sleep_calls_def idle_sys_def)
  with sleep_request_only_when_cleared [OF quiet_basic(1) quiet_basic(1) run] run
  show ?thesis by auto
qed

text \<open>
  The proof that allows an automatic retry is never attached to an error that follows a sent
  request: if the call fails after a sleep request went out, its error carries no retryable-preflight
  marker, so a lost or negative reply is never replayed automatically.
\<close>

theorem no_retry_proof_after_dispatch:
  assumes "quiet setup" "quiet validate"
    and "perform_with_validation L busy name setup validate s = (Inl e, t)"
    and "sleep_calls t \<noteq> sleep_calls s"
  shows "downcast_preflight e = None"
  using assms by (rule sent_error_not_retryable)

theorem no_retry_proof_after_dispatch_witness:
  "downcast_preflight (projl (fst (perform_with_validation
     (calm\<lparr>call_sleep := (\<lambda>_ w. (Some (TransportError ''gone''), w))\<rparr>) False ''suspend''
     (returnE ()) (returnE ()) idle_sys))) = None"
proof -
  let ?L = "calm\<lparr>call_sleep := (\<lambda>_ w. (Some (TransportError ''gone''), w))\<rparr>"
  obtain r t where run: "perform_with_validation ?L False ''suspend'' (returnE ()) (returnE ()) idle_sys = (r, t)"
    by (cases "perform_with_validation ?L False ''suspend'' (returnE ()) (returnE ()) idle_sys")
  have "sleep_calls (snd (perform_with_validation ?L False ''suspend'' (returnE ()) (returnE ()) idle_sys))
      \<noteq> sleep_calls idle_sys"
    by (simp add: perform_eval sleep_calls_def ambiguous_error_def)
  moreover have "\<not> is_ok (fst (perform_with_validation ?L False ''suspend'' (returnE ()) (returnE ()) idle_sys))"
    by (simp add: perform_eval ambiguous_error_def)
  ultimately obtain e where "r = Inl e" and ne: "sleep_calls t \<noteq> sleep_calls idle_sys"
    using run by (cases r) auto
  with run have "perform_with_validation ?L False ''suspend'' (returnE ()) (returnE ()) idle_sys = (Inl e, t)"
    by simp
  from no_retry_proof_after_dispatch [OF quiet_basic(1) quiet_basic(1) this ne] this
  show ?thesis by simp
qed

text \<open>
  A sleep request always settles. After a call of the entry point for a sleep action returns,
  either it was refused and nothing changed, or a new operation began (its number is the next one)
  and is no longer pending preflight or dispatch: it is accepted exactly when the call succeeded, and
  failed or unknown exactly when it returned an error.
\<close>

theorem sleep_request_settles:
  assumes "quiet setup" "quiet validate" and "name \<noteq> ''lock''"
    and "perform_with_validation L busy name setup validate s = (r, t)"
  shows "(t = s \<and> \<not> is_ok r) \<or>
    (op_id (operation (trk t)) = saturating_add_u64 (op_id (operation (trk s))) 1
     \<and> (if is_ok r then op_phase (operation (trk t)) = ''accepted''
        else op_phase (operation (trk t)) \<in> {''failed'', ''unknown''}))"
  using assms(1,2,4)
proof (cases rule: perform_outcome)
  case (sent a l)
  then show ?thesis by (cases r) auto
qed (use assms(3) in auto)

theorem sleep_request_settles_witness:
  "op_id (operation (trk (snd (perform calm False ''suspend'' idle_sys)))) = 1
   \<and> op_phase (operation (trk (snd (perform calm False ''suspend'' idle_sys)))) = ''accepted''"
proof -
  obtain r t where run: "perform_with_validation calm False ''suspend'' (returnE ()) (returnE ()) idle_sys = (r, t)"
    by (cases "perform_with_validation calm False ''suspend'' (returnE ()) (returnE ()) idle_sys")
  have "is_ok (fst (perform_with_validation calm False ''suspend'' (returnE ()) (returnE ()) idle_sys))"
    by (simp add: perform_eval)
  with run sleep_request_settles [OF quiet_basic(1) quiet_basic(1) _ run] show ?thesis
    by (simp add: perform_def idle_sys_def Tracker_default_def SleepOperation_default_def
        saturating_add_u64_def U64_MAX_def)
qed

end
