(* ===== verification/Keep_Awake.thy ===== *)
theory Keep_Awake
  imports Sleep_Perform
begin

text \<open>
  The daemon-owned sleep inhibitor of \<open>sleep/keep_awake.rs\<close>. The descriptor the daemon holds is kept
  beside the sleep system's state; a sleep action in progress holds the mutex the toggle tries.
\<close>

record 'w keep_sys =
  ks_sys :: "'w sleep_sys"
  ks_inhibitor :: "nat option"

definition onsys :: "('w sleep_sys, 'a) eff \<Rightarrow> ('w keep_sys, 'a) eff" where
  "onsys m k = (case m (ks_sys k) of (r, s) \<Rightarrow> (r, k\<lparr>ks_sys := s\<rparr>))"

definition hold :: "nat option \<Rightarrow> ('w keep_sys, unit) eff" where
  "hold fd = modifyE (\<lambda>k. k\<lparr>ks_inhibitor := fd\<rparr>)"

definition released_view :: "nat \<Rightarrow> PowerSleepState \<Rightarrow> PowerSleepState" where
  "released_view self_pid current = current\<lparr>keep_awake := False,
     inhibitors := filter (\<lambda>item. inh_who item \<noteq> WHO \<or> inh_pid item \<noteq> self_pid) (inhibitors current)\<rparr>"

definition take_inhibitor :: "'w logind \<Rightarrow> ('w keep_sys, PowerSleepState) eff" where
  "take_inhibitor L =
     bindE (onsys (read_state L False)) (\<lambda>current.
     seqE (onsys (ensure_not_preparing L))
     (bindE (getE ks_inhibitor) (\<lambda>inhibitor.
      if inhibitor = None \<or> \<not> keep_awake current then
        seqE (onsys (ext (manager L)))
        (bindE (contextE ''enable Keep awake through systemd-logind'' (onsys (ext (call_inhibit L)))) (\<lambda>fd.
         seqE (hold (Some fd)) (returnE current)))
      else returnE current)))"

definition refresh_view :: "'w logind \<Rightarrow> bool \<Rightarrow> PowerSleepState \<Rightarrow> ('w keep_sys, PowerSleepState) eff" where
  "refresh_view L enabled current =
     bindE (catchE (onsys (read_state L False)) (\<lambda>e.
        returnE (current\<lparr>ps_available := False, keep_awake := enabled,
          ps_error := Some (''Keep awake updated, but status refresh failed: '' @ err_chain e)\<rparr>)))
     (\<lambda>current. returnE (if enabled then current else released_view (process_id L) current))"

definition set_connected :: "'w logind \<Rightarrow> bool \<Rightarrow> ('w keep_sys, PowerSleepState) eff" where
  "set_connected L enabled =
     bindE (if enabled then take_inhibitor L
            else seqE (hold None) (returnE (PowerSleepState_default\<lparr>lock_before_sleep := True\<rparr>)))
     (refresh_view L enabled)"

definition set_keep_awake :: "'w logind \<Rightarrow> bool \<Rightarrow> bool \<Rightarrow> ('w keep_sys, PowerSleepState) eff" where
  "set_keep_awake L busy enabled =
     (if busy then throwE [Msg ''a lock or sleep request is already in progress'', Msg ''operation would block'']
      else
        seqE (if enabled then returnE () else hold None)
        (bindE (attemptE (onsys (ext (system_bus L)))) (\<lambda>bus.
         case bus of
           Inr _ \<Rightarrow> set_connected L enabled
         | Inl e \<Rightarrow>
             if \<not> enabled then
               returnE (PowerSleepState_default\<lparr>ps_error :=
                   Some (''Keep awake disabled, but status refresh failed: '' @ err_to_string e),
                 lock_before_sleep := True\<rparr>)
             else throwE (Msg ''connect to system D-Bus'' # e))))"

section \<open>Lemmas\<close>

lemma onsys_inhibitor: "onsys m k = (r, k') \<Longrightarrow> ks_inhibitor k' = ks_inhibitor k"
  by (auto simp: onsys_def split: prod.splits)

lemma onsys_ensure_Ok:
  "onsys (ensure_not_preparing L) k = (Inr u, k') \<Longrightarrow>
     event_log (ks_sys k') = event_log (ks_sys k) @ [PreparingRead False]"
  by (auto simp: onsys_def dest: ensure_not_preparing_log split: prod.splits)

lemma refresh_total:
  "\<exists>st k'. refresh_view L enabled current k = (Inr st, k') \<and> ks_inhibitor k' = ks_inhibitor k
     \<and> (\<not> enabled \<longrightarrow> \<not> keep_awake st
          \<and> (\<forall>i\<in>set (inhibitors st). inh_who i \<noteq> WHO \<or> inh_pid i \<noteq> process_id L))"
proof -
  obtain r k1 where m: "onsys (read_state L False) k = (r, k1)" by (cases "onsys (read_state L False) k")
  from onsys_inhibitor [OF m] m show ?thesis
    by (cases r) (simp_all add: refresh_view_def bindE_def catchE_def eff_simps released_view_def)
qed

lemma take_inhibitor_outcome:
  assumes "take_inhibitor L k = (r, k')"
  shows "case r of Inr _ \<Rightarrow> ks_inhibitor k' \<noteq> None | Inl _ \<Rightarrow> ks_inhibitor k' = ks_inhibitor k"
  using assms
  by (auto simp: take_inhibitor_def seqE_def bindE_def contextE_def map_errE_def hold_def eff_simps
      dest!: onsys_inhibitor split: prod.splits sum.splits if_splits)

lemma set_connected_disable:
  "\<exists>st k'. set_connected L False k = (Inr st, k') \<and> ks_inhibitor k' = None
     \<and> \<not> keep_awake st \<and> (\<forall>i\<in>set (inhibitors st). inh_who i \<noteq> WHO \<or> inh_pid i \<noteq> process_id L)"
  using refresh_total [of L False "PowerSleepState_default\<lparr>lock_before_sleep := True\<rparr>"
      "k\<lparr>ks_inhibitor := None\<rparr>"]
  by (simp add: set_connected_def seqE_def bindE_def hold_def eff_simps)

lemma set_connected_enable:
  assumes "set_connected L True k = (r, k')"
  shows "case r of Inr _ \<Rightarrow> ks_inhibitor k' \<noteq> None | Inl _ \<Rightarrow> ks_inhibitor k' = ks_inhibitor k"
proof -
  obtain x u where t: "take_inhibitor L k = (x, u)" by (cases "take_inhibitor L k")
  show ?thesis
  proof (cases x)
    case (Inl e)
    with assms t take_inhibitor_outcome [OF t] show ?thesis
      by (auto simp: set_connected_def bindE_def)
  next
    case (Inr st)
    with assms t take_inhibitor_outcome [OF t] refresh_total [of L True st u] show ?thesis
      by (auto simp: set_connected_def bindE_def)
  qed
qed

section \<open>Property\<close>

text \<open>
  The keep-awake toggle. Switching it off while no sleep action is in progress always succeeds,
  whatever the bus answers, releases the descriptor and reports it as off and absent. Switching it on
  succeeds only with a descriptor held, and a failure leaves the previous one in place. While a sleep
  action is in progress the toggle changes nothing.
\<close>

theorem keep_awake_toggle:
  "set_keep_awake L busy enabled k = (r, k') \<Longrightarrow>
     (if busy then \<not> is_ok r \<and> k' = k
      else if enabled then (if is_ok r then ks_inhibitor k' \<noteq> None else ks_inhibitor k' = ks_inhibitor k)
      else is_ok r \<and> ks_inhibitor k' = None \<and> \<not> keep_awake (projr r)
        \<and> (\<forall>i\<in>set (inhibitors (projr r)). inh_who i \<noteq> WHO \<or> inh_pid i \<noteq> process_id L))"
proof (cases "busy")
  case False
  assume run: "set_keep_awake L busy enabled k = (r, k')"
  let ?k = "if enabled then k else k\<lparr>ks_inhibitor := None\<rparr>"
  obtain b u where b: "onsys (ext (system_bus L)) ?k = (b, u)" by (cases "onsys (ext (system_bus L)) ?k")
  have u: "ks_inhibitor u = (if enabled then ks_inhibitor k else None)"
    using onsys_inhibitor [OF b] by simp
  show ?thesis
  proof (cases b)
    case (Inl e)
    with run b False u show ?thesis
      by (cases enabled) (auto simp: set_keep_awake_def seqE_def bindE_def attemptE_def hold_def eff_simps
          PowerSleepState_default_def)
  next
    case (Inr x)
    with run b False have sc: "set_connected L enabled u = (r, k')"
      by (cases enabled) (auto simp: set_keep_awake_def seqE_def bindE_def attemptE_def hold_def eff_simps)
    show ?thesis
    proof (cases enabled)
      case True
      with set_connected_enable [of L u r k'] sc u False show ?thesis by (cases r) auto
    next
      case off: False
      with set_connected_disable [of L u] sc False show ?thesis by auto
    qed
  qed
qed (auto simp: set_keep_awake_def eff_simps)

theorem keep_awake_toggle_witness:
  "ks_inhibitor (snd (set_keep_awake calm False False \<lparr>ks_sys = idle_sys, ks_inhibitor = Some 5\<rparr>)) = None
   \<and> ks_inhibitor (snd (set_keep_awake calm True False \<lparr>ks_sys = idle_sys, ks_inhibitor = Some 5\<rparr>)) = Some 5"
  using keep_awake_toggle [of calm False False "\<lparr>ks_sys = idle_sys, ks_inhibitor = Some 5\<rparr>"]
    keep_awake_toggle [of calm True False "\<lparr>ks_sys = idle_sys, ks_inhibitor = Some 5\<rparr>"]
  by (metis (no_types, lifting) keep_sys.select_convs(2) prod.collapse)

end
