(* ===== verification/Sleep_Policy.thy ===== *)
theory Sleep_Policy
  imports Sleep_Perform
begin

text \<open>
  The persisted idle, lid and critical-battery policy of \<open>sleep_policy.rs\<close>: its data, validation
  and profile selection, loading and saving with rollback, the settings transaction \<open>set\<close>, the idle
  callback and its revalidation, and the observation the monitor publishes. The policy file, the
  JSON parser, hypridle and the privileged helper are the fields of \<open>policy_env\<close>.
\<close>

section \<open>Data\<close>

datatype LidAction = LidSystem | LidIgnore | LidLock | LidSuspend | LidHibernate | LidProfile

record CriticalPolicy =
  cp_enabled :: bool
  cp_percent :: nat
  cp_grace_seconds :: nat

definition CriticalPolicy_default :: CriticalPolicy where
  "CriticalPolicy_default = \<lparr>cp_enabled = False, cp_percent = 5, cp_grace_seconds = 60\<rparr>"

definition CriticalPolicy_validate :: "CriticalPolicy \<Rightarrow> unit result" where
  "CriticalPolicy_validate p =
     ensure (1 \<le> cp_percent p \<and> cp_percent p \<le> 20
             \<and> 30 \<le> cp_grace_seconds p \<and> cp_grace_seconds p \<le> 300)
       ''critical battery requires 1-20 percent and a 30-300 second grace period''"

record SleepProfile =
  sleep_minutes :: nat
  hibernate_minutes :: nat

definition SleepProfile_default :: SleepProfile where
  "SleepProfile_default = \<lparr>sleep_minutes = 30, hibernate_minutes = 0\<rparr>"

record SleepPolicy =
  lid_action :: LidAction
  critical_battery :: CriticalPolicy
  same_profile :: bool
  battery_profile :: SleepProfile
  plugged_profile :: SleepProfile

definition SleepPolicy_default :: SleepPolicy where
  "SleepPolicy_default = \<lparr>lid_action = LidSystem, critical_battery = CriticalPolicy_default,
     same_profile = True, battery_profile = SleepProfile_default,
     plugged_profile = SleepProfile_default\<rparr>"

definition MAX_MINUTES :: nat where "MAX_MINUTES = 7 * 24 * 60"

definition with_stored_critical :: "SleepPolicy \<Rightarrow> SleepPolicy \<Rightarrow> SleepPolicy" where
  "with_stored_critical self previous = self\<lparr>critical_battery := critical_battery previous\<rparr>"

fun validate_profiles :: "SleepProfile list \<Rightarrow> unit result" where
  "validate_profiles [] = Ok ()"
| "validate_profiles (p # ps) =
     (if sleep_minutes p > MAX_MINUTES \<or> hibernate_minutes p > MAX_MINUTES
      then Err (err ''sleep and hibernate delays must be 0 (Never) or 1-10080 minutes'')
      else validate_profiles ps)"

definition SleepPolicy_validate :: "SleepPolicy \<Rightarrow> unit result" where
  "SleepPolicy_validate self =
     and_then (CriticalPolicy_validate (critical_battery self))
       (\<lambda>_. validate_profiles [battery_profile self, plugged_profile self])"

definition SleepPolicy_profile :: "SleepPolicy \<Rightarrow> bool \<Rightarrow> SleepProfile" where
  "SleepPolicy_profile self plug =
     (if same_profile self \<or> \<not> plug then battery_profile self else plugged_profile self)"

definition uses_timed_hibernation :: "SleepPolicy \<Rightarrow> bool" where
  "uses_timed_hibernation self =
     list_ex (\<lambda>p. hibernate_minutes p > 0 \<and> (sleep_minutes p > 0 \<or> lid_action self = LidProfile))
       [SleepPolicy_profile self False, SleepPolicy_profile self True]"

definition idle_profile :: "SleepPolicy \<Rightarrow> bool \<Rightarrow> nat \<Rightarrow> SleepProfile result" where
  "idle_profile self plug expected_minutes =
     (let profile = SleepPolicy_profile self plug in
      if sleep_minutes profile = 0 \<or> sleep_minutes profile \<noteq> expected_minutes
      then Err (err ''idle sleep profile changed; waiting for the new inactivity deadline'')
      else Ok profile)"

definition profile_name :: "SleepPolicy \<Rightarrow> bool \<Rightarrow> string" where
  "profile_name self plug =
     (if same_profile self then ''shared'' else if plug then ''plugged'' else ''battery'')"

record SleepPolicyState =
  sps_available :: bool
  sps_policy :: SleepPolicy
  active_profile :: string
  hibernate_available :: bool
  hibernate_ready :: bool
  hibernate_error :: "string option"
  sps_last_error :: "string option"
  sps_error :: "string option"

definition SleepPolicyState_default :: SleepPolicyState where
  "SleepPolicyState_default = \<lparr>sps_available = False, sps_policy = SleepPolicy_default,
     active_profile = [], hibernate_available = False, hibernate_ready = False,
     hibernate_error = None, sps_last_error = None, sps_error = None\<rparr>"

section \<open>Loading, saving and the settings transaction\<close>

datatype file_read = NotFound | ReadError error | Bytes string

record 'w policy_env =
  read_file :: "'w \<Rightarrow> file_read \<times> 'w"
  parse_policy :: "string \<Rightarrow> SleepPolicy result"
  backup_invalid :: "string \<Rightarrow> ('w, unit) eff"
  save_json_atomic :: "SleepPolicy \<Rightarrow> ('w, unit) eff"
  base_config :: "('w, unit) eff"
  validate_config :: "SleepPolicy \<Rightarrow> ('w, unit) eff"
  idle_running :: "('w, unit) eff"
  read_plugged :: "('w, bool) eff"
  set_timeout :: "nat \<Rightarrow> ('w, unit) eff"
  active_minutes :: "('w, nat) eff"
  verify_episode :: "('w, unit) eff"
  combined_capability :: "('w, string) eff"
  helper_available :: "('w, bool) eff"
  cleanup_delay :: "('w, unit) eff"

definition load_policy :: "'w policy_env \<Rightarrow> ('w, SleepPolicy) eff" where
  "load_policy E =
     bindE (\<lambda>w. case read_file E w of
              (NotFound, w') \<Rightarrow> (Ok SleepPolicy_default, w')
            | (ReadError e, w') \<Rightarrow> (Err e, w')
            | (Bytes b, w') \<Rightarrow> (parse_policy E b, w')) (\<lambda>policy.
     seqE (liftE (SleepPolicy_validate policy)) (returnE policy))"

definition load_for_update :: "'w policy_env \<Rightarrow> ('w, SleepPolicy) eff" where
  "load_for_update E w =
     (case read_file E w of
        (NotFound, w') \<Rightarrow> (Ok SleepPolicy_default, w')
      | (ReadError e, w') \<Rightarrow> (Err (Msg ''read sleep.json'' # e), w')
      | (Bytes b, w') \<Rightarrow>
          (case and_then (with_context ''parse sleep policy'' (parse_policy E b))
                 (\<lambda>policy. and_then (SleepPolicy_validate policy) (\<lambda>_. Ok policy)) of
             Inr policy \<Rightarrow> (Ok policy, w')
           | Inl e \<Rightarrow> seqE (contextE ''back up invalid sleep policy'' (backup_invalid E b))
                       (returnE SleepPolicy_default) w'))"

definition apply_idle :: "'w policy_env \<Rightarrow> ('w, unit) eff" where
  "apply_idle E =
     seqE (idle_running E)
     (bindE (load_policy E) (\<lambda>policy.
      bindE (read_plugged E) (\<lambda>plug.
      seqE (set_timeout E (sleep_minutes (SleepPolicy_profile policy plug)))
      (idle_running E))))"

definition persist_and_apply ::
  "('w, unit) eff \<Rightarrow> (SleepPolicy \<Rightarrow> ('w, unit) eff) \<Rightarrow> SleepPolicy \<Rightarrow> SleepPolicy \<Rightarrow> ('w, unit) eff" where
  "persist_and_apply app save policy previous =
     seqE (save policy)
     (catchE app (\<lambda>e.
       seqE (contextE ''restore previous sleep policy after live timeout update failed'' (save previous))
       (seqE (contextE (''new sleep policy failed ('' @ err_chain e
            @ ''); previous policy was restored but its live timeout could not be confirmed'') app)
       (throwE (Msg ''sleep settings not applied; previous policy restored'' # e)))))"

definition hibernate_support :: "'w policy_env \<Rightarrow> ('w, string option) eff" where
  "hibernate_support E =
     bindE (combined_capability E) (\<lambda>capability.
     seqE (ensureE (configurable capability)
       (''suspend-then-hibernate cannot be configured: '' @ capability))
     (bindE (helper_available E) (\<lambda>helper_authorized.
      returnE (if \<not> helper_authorized
        then Some ''Hibernate delay helper requires system-policy authorization; automatic sleep cannot prompt.''
        else limitation capability))))"

definition support_ok :: "string option result \<Rightarrow> bool" where
  "support_ok support = is_ok support"

definition support_error :: "string option result \<Rightarrow> string option" where
  "support_error support = (case support of Inr v \<Rightarrow> v | Inl e \<Rightarrow> Some (err_chain e))"

definition require_support :: "bool \<Rightarrow> string option result \<Rightarrow> ('w, unit) eff" where
  "require_support timed support =
     (case support of
        Inl e \<Rightarrow> if timed then throwE (err (err_chain e)) else returnE ()
      | Inr _ \<Rightarrow> returnE ())"

definition set_policy :: "'w policy_env \<Rightarrow> SleepPolicy \<Rightarrow> ('w, SleepPolicyState) eff" where
  "set_policy E requested =
     bindE (load_for_update E) (\<lambda>previous.
     let policy = with_stored_critical requested previous in
     seqE (liftE (SleepPolicy_validate policy))
     (seqE (validate_config E policy)
     (seqE (idle_running E)
     (bindE (read_plugged E) (\<lambda>plug.
     (bindE (attemptE (hibernate_support E)) (\<lambda>support.
     let timed = uses_timed_hibernation policy in
     seqE (require_support timed support)
     (seqE (persist_and_apply (apply_idle E) (save_json_atomic E) policy previous)
     (seqE (if timed then returnE () else bindE (attemptE (cleanup_delay E)) (\<lambda>_. returnE ()))
     (returnE (SleepPolicyState_default\<lparr>sps_available := True,
        active_profile := profile_name policy plug, sps_policy := policy,
        hibernate_available := support_ok support,
        hibernate_ready := (support = Ok None),
        hibernate_error := support_error support\<rparr>)))))))))))"

section \<open>Idle callback\<close>

definition validate_idle_selection :: "SleepProfile \<Rightarrow> SleepPolicy \<Rightarrow> bool \<Rightarrow> unit result" where
  "validate_idle_selection selected policy plug =
     and_then (idle_profile policy plug (sleep_minutes selected)) (\<lambda>current.
       ensure (current = selected)
         ''idle hibernate profile changed; refusing to use the previous sleep settings'')"

definition validate_idle_trigger :: "'w policy_env \<Rightarrow> SleepProfile \<Rightarrow> ('w, unit) eff" where
  "validate_idle_trigger E selected =
     seqE (base_config E)
     (bindE (load_policy E) (\<lambda>policy.
      bindE (read_plugged E) (\<lambda>plug.
      seqE (verify_episode E)
      (liftE (validate_idle_selection selected policy plug)))))"

text \<open>The setup that runs after locking: validate, take the lease, validate again.\<close>

definition validated_setup :: "('s, unit) eff \<Rightarrow> ('s, unit) eff \<Rightarrow> ('s, unit) eff" where
  "validated_setup validate setup = seqE validate (seqE setup validate)"

definition acquire_delay ::
  "(nat \<Rightarrow> ('w, nat) eff) \<Rightarrow> SleepProfile \<Rightarrow> ('w sleep_sys, unit) eff" where
  "acquire_delay acquire profile =
     (if hibernate_minutes profile > 0 then
        bindE (contextE ''lease and verify systemd's time asleep before hibernation''
                 (ext (acquire (hibernate_minutes profile)))) (\<lambda>fd.
        (\<lambda>s. case Tracker_retain_lease fd (trk s) of (r, t) \<Rightarrow> (r, s\<lparr>trk := t\<rparr>)))
      else returnE ())"

definition profile_action :: "SleepProfile \<Rightarrow> string" where
  "profile_action profile =
     (if hibernate_minutes profile = 0 then ''suspend'' else ''suspend-then-hibernate'')"

definition perform_profile ::
  "'w logind \<Rightarrow> bool \<Rightarrow> (nat \<Rightarrow> ('w, nat) eff) \<Rightarrow> SleepProfile \<Rightarrow> ('w sleep_sys, unit) eff
     \<Rightarrow> ('w sleep_sys, PowerSleepState) eff" where
  "perform_profile L busy acquire profile validate_trigger =
     perform_with_validation L busy (profile_action profile)
       (validated_setup validate_trigger (acquire_delay acquire profile)) validate_trigger"

definition perform_idle ::
  "'w logind \<Rightarrow> 'w policy_env \<Rightarrow> bool \<Rightarrow> (nat \<Rightarrow> ('w, nat) eff) \<Rightarrow> nat
     \<Rightarrow> ('w sleep_sys, PowerSleepState) eff" where
  "perform_idle L E busy acquire expected_minutes =
     seqE (ext (base_config E))
     (seqE (ext (verify_episode E))
     (bindE (ext (load_policy E)) (\<lambda>policy.
      bindE (ext (read_plugged E)) (\<lambda>plug.
      bindE (liftE (idle_profile policy plug expected_minutes)) (\<lambda>profile.
      perform_profile L busy acquire profile (ext (validate_idle_trigger E profile)))))))"

section \<open>Observation\<close>

definition observe_policy ::
  "'w policy_env \<Rightarrow> 'w \<Rightarrow> (SleepPolicyState \<times> SleepPolicy option \<times> nat option) \<times> 'w" where
  "observe_policy E w =
     (case load_policy E w of
        (Inl e, w1) \<Rightarrow> ((SleepPolicyState_default\<lparr>sps_error := Some (err_chain e)\<rparr>, None, None), w1)
      | (Inr policy, w1) \<Rightarrow>
        (let st = SleepPolicyState_default\<lparr>sps_policy := policy\<rparr> in
         case seqE (validate_config E policy) (seqE (idle_running E) (active_minutes E)) w1 of
           (Inl e, w2) \<Rightarrow> ((st\<lparr>sps_error := Some (err_chain e)\<rparr>, Some policy, None), w2)
         | (Inr active, w2) \<Rightarrow>
           (case attemptE (hibernate_support E) w2 of
              (Inl e, w3) \<Rightarrow> ((st\<lparr>sps_error := Some (err_chain e)\<rparr>, Some policy, None), w3)
            | (Inr support, w3) \<Rightarrow>
              (let st = st\<lparr>hibernate_available := support_ok support,
                          hibernate_ready := (support = Ok None),
                          hibernate_error := support_error support\<rparr> in
               case read_plugged E w3 of
                 (Inl e, w4) \<Rightarrow> ((st\<lparr>sps_error := Some (err_chain e)\<rparr>, Some policy, None), w4)
               | (Inr plug, w4) \<Rightarrow>
                 (let minutes = sleep_minutes (SleepPolicy_profile policy plug) in
                  ((st\<lparr>active_profile := profile_name policy plug, sps_available := True\<rparr>,
                    Some policy, if active \<noteq> minutes then Some minutes else None), w4))))))"

text \<open>
  One round of the monitor under the policy lock: the observation is dropped when the stored policy
  has changed since, otherwise a differing live timeout is corrected and the state published.
\<close>

definition monitor_round ::
  "'w policy_env \<Rightarrow> string option \<Rightarrow> 'w \<Rightarrow> SleepPolicyState option \<times> 'w" where
  "monitor_round E last_error w =
     (case observe_policy E w of ((st, observed, upd), w1) \<Rightarrow>
      case load_policy E w1 of (now_stored, w2) \<Rightarrow>
      if (case now_stored of Inr p \<Rightarrow> Some p | Inl _ \<Rightarrow> None) \<noteq> observed then (None, w2)
      else
        (case upd of
           None \<Rightarrow> (Some (st\<lparr>sps_last_error := last_error\<rparr>), w2)
         | Some minutes \<Rightarrow>
             (case set_timeout E minutes w2 of
                (Inr _, w3) \<Rightarrow> (Some (st\<lparr>sps_last_error := last_error\<rparr>), w3)
              | (Inl e, w3) \<Rightarrow> (Some (st\<lparr>sps_available := False, sps_error := Some (err_chain e),
                                       sps_last_error := last_error\<rparr>), w3))))"

section \<open>Validation and selection\<close>

lemma validate_profiles_Ok_iff:
  "validate_profiles ps = Inr u \<longleftrightarrow>
     (\<forall>p\<in>set ps. sleep_minutes p \<le> 10080 \<and> hibernate_minutes p \<le> 10080)"
  by (induction ps) (auto simp: MAX_MINUTES_def not_less)

lemma SleepPolicy_validate_Ok_iff:
  "SleepPolicy_validate p = Inr u \<longleftrightarrow>
     1 \<le> cp_percent (critical_battery p) \<and> cp_percent (critical_battery p) \<le> 20
     \<and> 30 \<le> cp_grace_seconds (critical_battery p) \<and> cp_grace_seconds (critical_battery p) \<le> 300
     \<and> (\<forall>q\<in>{battery_profile p, plugged_profile p}.
          sleep_minutes q \<le> 10080 \<and> hibernate_minutes q \<le> 10080)"
  by (auto simp: SleepPolicy_validate_def and_then_Ok_iff CriticalPolicy_validate_def
      validate_profiles_Ok_iff simp del: validate_profiles.simps)

lemma load_policy_valid:
  "load_policy E w = (Inr p, w') \<Longrightarrow> SleepPolicy_validate p = Inr ()"
  by (auto simp: load_policy_def bindE_eq_Ok seqE_eq_Ok eff_simps)

lemma load_for_update_valid:
  assumes "load_for_update E w = (Inr p, w')"
  shows "SleepPolicy_validate p = Inr ()"
proof -
  have d: "SleepPolicy_validate SleepPolicy_default = Inr ()"
    by (simp add: SleepPolicy_validate_Ok_iff SleepPolicy_default_def CriticalPolicy_default_def
        SleepProfile_default_def)
  from assms show ?thesis
    by (auto simp: load_for_update_def seqE_eq_Ok eff_simps and_then_Ok_iff d
        split: prod.splits file_read.splits sum.splits)
qed

section \<open>The settings transaction\<close>

text \<open>
  What the transaction relies on: saving is atomic (the stored policy is the new one, or on failure
  the old one) and nothing else writes the policy file while the policy lock is held.
\<close>

definition atomic_save :: "('w \<Rightarrow> SleepPolicy option) \<Rightarrow> (SleepPolicy \<Rightarrow> ('w, unit) eff) \<Rightarrow> bool" where
  "atomic_save stored save \<longleftrightarrow>
     (\<forall>p w. stored (snd (save p w)) = (if is_ok (fst (save p w)) then Some p else stored w))"

definition keeps :: "('w \<Rightarrow> SleepPolicy option) \<Rightarrow> ('w, 'a) eff \<Rightarrow> bool" where
  "keeps stored m \<longleftrightarrow> (\<forall>v. preserves (\<lambda>w. stored w = v) m)"

definition sole_writer :: "('w \<Rightarrow> SleepPolicy option) \<Rightarrow> 'w policy_env \<Rightarrow> bool" where
  "sole_writer stored E \<longleftrightarrow>
     atomic_save stored (save_json_atomic E) \<and> (\<forall>w. stored (snd (read_file E w)) = stored w)
     \<and> (\<forall>b. keeps stored (backup_invalid E b)) \<and> (\<forall>p. keeps stored (validate_config E p))
     \<and> keeps stored (idle_running E) \<and> keeps stored (read_plugged E)
     \<and> (\<forall>n. keeps stored (set_timeout E n)) \<and> keeps stored (combined_capability E)
     \<and> keeps stored (helper_available E) \<and> keeps stored (cleanup_delay E)"

lemma keeps_run: "keeps stored m \<Longrightarrow> m w = (r, w') \<Longrightarrow> stored w' = stored w"
  unfolding keeps_def preserves_def by (drule spec [of _ "stored w"], drule spec [of _ w]) simp

lemma atomic_save_run:
  "atomic_save stored save \<Longrightarrow> save p w = (r, w') \<Longrightarrow>
     stored w' = (if is_ok r then Some p else stored w)"
  by (metis atomic_save_def fst_conv snd_conv)

lemma keeps_load_policy:
  assumes "sole_writer stored E" shows "keeps stored (load_policy E)"
proof -
  have "preserves (\<lambda>w. stored w = v) (\<lambda>w. case read_file E w of
      (NotFound, w') \<Rightarrow> (Ok SleepPolicy_default, w') | (ReadError e, w') \<Rightarrow> (Err e, w')
    | (Bytes b, w') \<Rightarrow> (parse_policy E b, w'))" for v
    using assms unfolding sole_writer_def preserves_def
    by (auto split: prod.splits file_read.splits) (metis snd_conv)+
  then show ?thesis
    unfolding keeps_def load_policy_def by (auto intro!: pres_intros)
qed

lemma keeps_apply_idle:
  assumes "sole_writer stored E" shows "keeps stored (apply_idle E)"
  using assms keeps_load_policy [OF assms] unfolding keeps_def apply_idle_def sole_writer_def
  by (auto intro!: pres_intros)

lemma load_for_update_keeps:
  assumes "sole_writer stored E" "load_for_update E w = (r, w')"
  shows "stored w' = stored w"
proof -
  obtain f w1 where f: "read_file E w = (f, w1)" by (cases "read_file E w")
  with assms(1) have w1: "stored w1 = stored w" unfolding sole_writer_def by (metis snd_conv)
  have "keeps stored (seqE (contextE c (backup_invalid E b)) (returnE SleepPolicy_default))" for c b
    using assms(1) unfolding keeps_def sole_writer_def by (auto intro!: pres_intros)
  note k = keeps_run [OF this]
  from assms(2) f w1 show ?thesis
    by (auto simp: load_for_update_def dest: k split: file_read.splits sum.splits)
qed

lemma persist_and_apply_outcome:
  assumes "atomic_save stored save" "keeps stored app"
    and "persist_and_apply app save policy previous w = (r, w')"
  shows "case r of
      Inr _ \<Rightarrow> stored w' = Some policy
    | Inl e \<Rightarrow> stored w' = stored w \<or> stored w' = Some previous
        \<or> stored w' = Some policy \<and> hd e = Msg ''restore previous sleep policy after live timeout update failed''"
proof -
  obtain r1 w1 where 1: "save policy w = (r1, w1)" by (cases "save policy w")
  note s1 = atomic_save_run [OF assms(1) 1]
  show ?thesis
  proof (cases r1)
    case (Inl e)
    with assms(3) 1 s1 show ?thesis by (auto simp: persist_and_apply_def seqE_def bindE_def)
  next
    case (Inr u)
    obtain r2 w2 where 2: "app w1 = (r2, w2)" by (cases "app w1")
    note s2 = keeps_run [OF assms(2) 2]
    obtain r3 w3 where 3: "save previous w2 = (r3, w3)" by (cases "save previous w2")
    note s3 = atomic_save_run [OF assms(1) 3]
    obtain r4 w4 where 4: "app w3 = (r4, w4)" by (cases "app w3")
    note s4 = keeps_run [OF assms(2) 4]
    from assms(3) 1 2 3 4 Inr s1 s2 s3 s4 show ?thesis
      by (cases r2; cases r3; cases r4)
        (auto simp: persist_and_apply_def seqE_def bindE_def catchE_def contextE_def map_errE_def
          eff_simps)
  qed
qed

lemma hibernate_support_keeps:
  "sole_writer stored E \<Longrightarrow> keeps stored (attemptE (hibernate_support E))"
  unfolding keeps_def hibernate_support_def sole_writer_def by (auto intro!: pres_intros)

text \<open>The part of the transaction that follows the checks, as one step.\<close>

lemma set_policy_Ok_cases:
  assumes "set_policy E requested w = (Inr st, w')" "sole_writer stored E"
  obtains previous w1 w2 w3 and support :: "string option result" where
    "load_for_update E w = (Inr previous, w1)"
    "SleepPolicy_validate (with_stored_critical requested previous) = Inr ()"
    "persist_and_apply (apply_idle E) (save_json_atomic E)
       (with_stored_critical requested previous) previous w2 = (Inr (), w3)"
    "uses_timed_hibernation (with_stored_critical requested previous) \<Longrightarrow> is_ok support"
    "sps_policy st = with_stored_critical requested previous"
    "hibernate_available st = is_ok support" "stored w' = stored w3"
proof -
  have cl: "keeps stored (bindE (attemptE (cleanup_delay E)) (\<lambda>_. returnE ()))"
    using assms(2) unfolding keeps_def sole_writer_def by (auto intro!: pres_intros)
  have gate: "is_ok support" if "require_support timed support u = (Inr x, v)" timed
    for timed and support and u v :: 'a and x
    using that by (cases support) (simp_all add: require_support_def eff_simps)
  from assms(1) obtain previous w1 plug support u6 w2 w3 where
    "load_for_update E w = (Inr previous, w1)"
    "SleepPolicy_validate (with_stored_critical requested previous) = Inr ()"
    "require_support (uses_timed_hibernation (with_stored_critical requested previous)) support u6
       = (Inr (), w2)"
    "persist_and_apply (apply_idle E) (save_json_atomic E)
       (with_stored_critical requested previous) previous w2 = (Inr (), w3)"
    "(if uses_timed_hibernation (with_stored_critical requested previous) then returnE ()
      else bindE (attemptE (cleanup_delay E)) (\<lambda>_. returnE ())) w3 = (Inr (), w')"
    "st = SleepPolicyState_default\<lparr>sps_available := True,
        active_profile := profile_name (with_stored_critical requested previous) plug,
        sps_policy := with_stored_critical requested previous,
        hibernate_available := support_ok support,
        hibernate_ready := (support = Ok None),
        hibernate_error := support_error support\<rparr>"
    unfolding set_policy_def bindE_eq_Ok seqE_eq_Ok Let_def
    by (auto simp: eff_simps simp del: if_split split del: if_split)
  then show ?thesis
    by (intro that [of previous w1 w2 w3 support])
      (auto simp: support_ok_def eff_simps dest: gate keeps_run [OF cl] split: if_splits)
qed

lemma set_policy_Err_cases:
  assumes "set_policy E requested w = (Inl e, w')" "sole_writer stored E"
  obtains "stored w' = stored w"
    | previous w1 w2 where "load_for_update E w = (Inr previous, w1)" "stored w2 = stored w"
      "persist_and_apply (apply_idle E) (save_json_atomic E)
         (with_stored_critical requested previous) previous w2 = (Inl e, w')"
proof (cases "load_for_update E w")
  case (Pair r w1)
  note s1 = load_for_update_keeps [OF assms(2) Pair]
  show ?thesis
  proof (cases r)
    case (Inl x)
    with Pair assms(1) s1 that(1) show ?thesis by (simp add: set_policy_def bindE_def)
  next
    case (Inr previous)
    let ?p = "with_stored_critical requested previous"
    have k: "keeps stored (liftE (SleepPolicy_validate ?p))" "keeps stored (validate_config E ?p)"
      "keeps stored (idle_running E)" "keeps stored (read_plugged E)"
      "keeps stored (attemptE (hibernate_support E))"
      "keeps stored (require_support (uses_timed_hibernation ?p) support)" for support
      using assms(2) hibernate_support_keeps [OF assms(2)]
      by (auto simp: sole_writer_def keeps_def require_support_def intro!: pres_intros split: sum.splits)
    note r = k [THEN keeps_run]
    have fin: "(seqE (if b then returnE () else bindE (attemptE (cleanup_delay E)) (\<lambda>_. returnE ()))
       (returnE y)) v \<noteq> (Inl e, w')" for b v and y :: SleepPolicyState
      by (auto simp: eff_defs split: prod.splits sum.splits)
    from assms(1) Pair Inr have "bindE (liftE (SleepPolicy_validate ?p)) (\<lambda>_.
      bindE (validate_config E ?p) (\<lambda>_. bindE (idle_running E) (\<lambda>_. bindE (read_plugged E) (\<lambda>plug.
      bindE (attemptE (hibernate_support E)) (\<lambda>support.
      bindE (require_support (uses_timed_hibernation ?p) support) (\<lambda>_.
      bindE (persist_and_apply (apply_idle E) (save_json_atomic E) ?p previous) (\<lambda>_.
      seqE (if uses_timed_hibernation ?p then returnE ()
            else bindE (attemptE (cleanup_delay E)) (\<lambda>_. returnE ()))
      (returnE (SleepPolicyState_default\<lparr>sps_available := True,
        active_profile := profile_name ?p plug, sps_policy := ?p,
        hibernate_available := support_ok support,
        hibernate_ready := (support = Ok None),
        hibernate_error := support_error support\<rparr>)))))))))  w1 = (Inl e, w')"
      by (simp add: set_policy_def bindE_def [of "load_for_update E"] seqE_def Let_def)
    with that Pair Inr s1 show ?thesis
      by (simp only: bindE_eq_Err fin) (metis r)
  qed
qed

section \<open>The idle callback sends only what the profile selects\<close>

lemma quiet_acquire_delay [quiet_intros]: "quiet (acquire_delay acquire profile)"
proof -
  have "quiet (\<lambda>s. case Tracker_retain_lease fd (trk s) of (r, t) \<Rightarrow> (r, s\<lparr>trk := t\<rparr>))"
    for fd and x :: 'a
    by (auto simp: quiet_def preserves_def undisturbed_def sleep_calls_def tracker_defs
        split: prod.splits if_splits)
  then show ?thesis
    unfolding acquire_delay_def by (intro quiet_intros)
qed

lemma quiet_validated_setup [quiet_intros]:
  "quiet validate \<Longrightarrow> quiet setup \<Longrightarrow> quiet (validated_setup validate setup)"
  unfolding validated_setup_def by (intro quiet_intros)

lemma profile_action_parse:
  "Action_parse (profile_action q) =
     Inr (if hibernate_minutes q = 0 then Suspend else SuspendThenHibernate)"
  by (simp add: profile_action_def Action_parse_def)

lemma perform_profile_outcome:
  assumes "quiet validate" "perform_profile L busy acquire q validate s = (r, t)"
  shows "sleep_calls t = sleep_calls s \<or>
    (\<exists>l. \<not> busy \<and> cleared validate l \<and> Tracker_ready_for_new_request (trk s)
       \<and> event_log t = l @ [SleepCalled (if hibernate_minutes q = 0 then ''Suspend''
            else ''SuspendThenHibernate'')]
       \<and> sleep_calls t = sleep_calls s @ [SleepCalled (if hibernate_minutes q = 0 then ''Suspend''
            else ''SuspendThenHibernate'')])"
proof -
  have q: "quiet (validated_setup validate (acquire_delay acquire q))"
    using assms(1) by (intro quiet_intros)
  from q assms(1) assms(2) [unfolded perform_profile_def] show ?thesis
  proof (cases rule: perform_outcome)
    case (sent a l)
    then show ?thesis by (auto simp: profile_action_parse)
  qed (auto simp: undisturbed_def)
qed

lemma idle_profile_Ok_iff:
  "idle_profile p plug m = Inr q \<longleftrightarrow> q = SleepPolicy_profile p plug \<and> sleep_minutes q = m \<and> m \<noteq> 0"
  by (auto simp: idle_profile_def Let_def)

section \<open>Properties\<close>


text \<open>A machine whose world is its policy file; the parser knows one byte string.\<close>

definition file_env :: "SleepPolicy option policy_env" where
  "file_env = \<lparr>read_file = (\<lambda>w. (case w of None \<Rightarrow> NotFound | Some p \<Rightarrow> Bytes ''x'', w)),
     parse_policy = (\<lambda>_. Err (err ''bad json'')), backup_invalid = (\<lambda>_. returnE ()),
     save_json_atomic = (\<lambda>p w. (Inr (), Some p)), base_config = returnE (),
     validate_config = (\<lambda>_. returnE ()), idle_running = returnE (), read_plugged = returnE True,
     set_timeout = (\<lambda>_. returnE ()), active_minutes = returnE 30, verify_episode = returnE (),
     combined_capability = returnE ''yes'', helper_available = returnE True,
     cleanup_delay = returnE ()\<rparr>"

definition tidy_env :: "SleepPolicy option policy_env" where
  "tidy_env = file_env\<lparr>parse_policy := (\<lambda>_. Ok SleepPolicy_default)\<rparr>"

lemma sole_writer_file_env: "sole_writer (\<lambda>w. w) file_env"
  by (auto simp: sole_writer_def keeps_def atomic_save_def file_env_def intro!: pres_intros)

lemma sole_writer_tidy_env: "sole_writer (\<lambda>w. w) tidy_env"
  using sole_writer_file_env by (simp add: sole_writer_def tidy_env_def)

lemmas policy_eval = set_policy_def persist_and_apply_def apply_idle_def load_for_update_def
  load_policy_def hibernate_support_def require_support_def file_env_def tidy_env_def bindE_def
  seqE_def contextE_def map_errE_def attemptE_def catchE_def eff_simps Let_def
  with_stored_critical_def SleepPolicy_validate_def CriticalPolicy_validate_def MAX_MINUTES_def
  SleepPolicy_default_def CriticalPolicy_default_def SleepProfile_default_def
  SleepPolicy_profile_def uses_timed_hibernation_def configurable_def limitation_def ensure_def

definition timed_request :: SleepPolicy where
  "timed_request = SleepPolicy_default\<lparr>battery_profile := \<lparr>sleep_minutes = 15, hibernate_minutes = 60\<rparr>\<rparr>"


text \<open>
  The idle callback acts on the profile it was armed for. If \<open>perform_idle\<close> causes a sleep
  request, then the stored policy, valid and read at that moment, selects for the supply in use a
  profile whose nonzero inactivity delay is the one the callback expected; the request is for suspend,
  or suspend-then-hibernate exactly when that profile has a hibernation delay; and it was sent only
  after a cleared preflight whose final validation found the same profile still selected.
\<close>

theorem idle_acts_on_selected_profile:
  assumes "perform_idle L E busy acquire expected s = (r, t)" "sleep_calls t \<noteq> sleep_calls s"
  shows "\<exists>policy plug l w0 w1 w2 w3. load_policy E w0 = (Inr policy, w1)
    \<and> read_plugged E w2 = (Inr plug, w3) \<and> SleepPolicy_validate policy = Inr ()
    \<and> sleep_minutes (SleepPolicy_profile policy plug) = expected \<and> expected \<noteq> 0
    \<and> cleared (ext (validate_idle_trigger E (SleepPolicy_profile policy plug))) l \<and> event_log t = l @ [SleepCalled
         (if hibernate_minutes (SleepPolicy_profile policy plug) = 0 then ''Suspend''
          else ''SuspendThenHibernate'')]"
proof -
  have step: "\<exists>x u. ext m s' = (Inr x, u) \<and> k x u = (r, t) \<and> sleep_calls u = sleep_calls s
      \<and> (\<exists>w. m (world s') = (Inr x, w))"
    if "bindE (ext m) k s' = (r, t)" "sleep_calls s' = sleep_calls s"
    for m :: "('a, 'b) eff" and k s'
    using that assms(2)
    by (auto simp: bindE_def ext_def sleep_calls_def split: prod.splits sum.splits)
  note run = assms(1) [unfolded perform_idle_def seqE_def]
  from step [OF run refl] obtain u1 where 1: "bindE (ext (verify_episode E)) (\<lambda>_.
      bindE (ext (load_policy E)) (\<lambda>policy. bindE (ext (read_plugged E)) (\<lambda>plug.
      bindE (liftE (idle_profile policy plug expected)) (\<lambda>profile.
      perform_profile L busy acquire profile (ext (validate_idle_trigger E profile)))))) u1 = (r, t)"
    "sleep_calls u1 = sleep_calls s" by blast
  from step [OF 1] obtain u2 where 2: "bindE (ext (load_policy E)) (\<lambda>policy.
      bindE (ext (read_plugged E)) (\<lambda>plug. bindE (liftE (idle_profile policy plug expected)) (\<lambda>profile.
      perform_profile L busy acquire profile (ext (validate_idle_trigger E profile))))) u2 = (r, t)"
    "sleep_calls u2 = sleep_calls s" by blast
  from step [OF 2] obtain policy u3 w1 where 3: "bindE (ext (read_plugged E)) (\<lambda>plug.
      bindE (liftE (idle_profile policy plug expected)) (\<lambda>profile.
      perform_profile L busy acquire profile (ext (validate_idle_trigger E profile)))) u3 = (r, t)"
    "sleep_calls u3 = sleep_calls s" and p: "load_policy E (world u2) = (Inr policy, w1)" by blast
  from step [OF 3] obtain plug u4 w3 where 4: "bindE (liftE (idle_profile policy plug expected)) (\<lambda>profile.
      perform_profile L busy acquire profile (ext (validate_idle_trigger E profile))) u4 = (r, t)"
    "sleep_calls u4 = sleep_calls s" and g: "read_plugged E (world u3) = (Inr plug, w3)" by blast
  from 4 assms(2) obtain q where q: "idle_profile policy plug expected = Inr q"
    "perform_profile L busy acquire q (ext (validate_idle_trigger E q)) u4 = (r, t)"
    by (auto simp: bindE_def eff_simps split: sum.splits)
  from perform_profile_outcome [OF quiet_ext q(2)] assms(2) 4(2) obtain l where
    "cleared (ext (validate_idle_trigger E q)) l" "event_log t = l @ [SleepCalled (if hibernate_minutes q = 0 then ''Suspend''
            else ''SuspendThenHibernate'')]" by auto
  with q(1) p g load_policy_valid [OF p] show ?thesis
    by (auto simp: idle_profile_Ok_iff)
qed

definition steady_env :: "unit policy_env" where
  "steady_env = \<lparr>read_file = (\<lambda>w. (Bytes ''x'', w)), parse_policy = (\<lambda>_. Ok SleepPolicy_default),
     backup_invalid = (\<lambda>_. returnE ()), save_json_atomic = (\<lambda>_. returnE ()), base_config = returnE (),
     validate_config = (\<lambda>_. returnE ()), idle_running = returnE (), read_plugged = returnE True,
     set_timeout = (\<lambda>_. returnE ()), active_minutes = returnE 30, verify_episode = returnE (),
     combined_capability = returnE ''yes'', helper_available = returnE True,
     cleanup_delay = returnE ()\<rparr>"

lemma steady_idle_sends:
  "sleep_calls (snd (perform_idle calm steady_env False (\<lambda>_. returnE 4) 30 idle_sys))
     = [SleepCalled ''Suspend'']"
  by (simp add: perform_idle_def perform_profile_def perform_eval policy_eval steady_env_def
      idle_profile_def validated_setup_def acquire_delay_def profile_action_def
      validate_idle_trigger_def validate_idle_selection_def sleep_calls_def)

theorem idle_acts_on_selected_profile_witness:
  "\<exists>l. event_log (snd (perform_idle calm steady_env False (\<lambda>_. returnE 4) 30 idle_sys))
     = l @ [SleepCalled ''Suspend'']"
proof -
  obtain r t where run: "perform_idle calm steady_env False (\<lambda>_. returnE 4) 30 idle_sys = (r, t)"
    by (cases "perform_idle calm steady_env False (\<lambda>_. returnE 4) 30 idle_sys")
  have t: "sleep_calls t = [SleepCalled ''Suspend'']" using steady_idle_sends run by simp
  then have "sleep_calls t \<noteq> sleep_calls idle_sys" by (simp add: idle_sys_def sleep_calls_def)
  from idle_acts_on_selected_profile [OF run this] obtain l c where
    "event_log t = l @ [SleepCalled c]" by blast
  with t run show ?thesis by (auto simp: sleep_calls_def)
qed

end
