(* ===== verification/Lid.thy ===== *)
theory Lid
  imports Sleep_Policy
begin

text \<open>
  The managed lid action of \<open>sleep_policy/lid.rs\<close>: the close edge, the retry chain with its backoff,
  the controller that owns the lid switch and at most one worker, and the worker itself with its
  trigger confirmation. A turn of the controller takes what it read as one input value; instants are
  milliseconds.
\<close>

section \<open>Edge and retry chain\<close>

record LidEdge =
  le_previous :: "bool option"
  le_eligible :: bool

definition LidEdge_default :: LidEdge where
  "LidEdge_default = \<lparr>le_previous = None, le_eligible = False\<rparr>"

definition LidEdge_observe :: "bool \<Rightarrow> bool \<Rightarrow> LidEdge \<Rightarrow> bool \<times> LidEdge" where
  "LidEdge_observe shut eligible self =
     (eligible \<and> le_eligible self \<and> le_previous self = Some False \<and> shut,
      \<lparr>le_previous = Some shut, le_eligible = eligible\<rparr>)"

record LidRetry =
  lr_policy :: "SleepPolicy option"
  lr_deadline :: "nat option"
  lr_operation :: nat
  lr_attempts :: nat

definition LidRetry_clear :: LidRetry where
  "LidRetry_clear = \<lparr>lr_policy = None, lr_deadline = None, lr_operation = 0, lr_attempts = 0\<rparr>"

definition LidRetry_start :: "SleepPolicy \<Rightarrow> LidRetry" where
  "LidRetry_start policy = LidRetry_clear\<lparr>lr_policy := Some policy\<rparr>"

definition LidRetry_reconcile :: "SleepPolicy \<Rightarrow> bool \<Rightarrow> LidRetry \<Rightarrow> LidRetry" where
  "LidRetry_reconcile policy eligible self =
     (if \<not> eligible \<or> (case lr_policy self of Some previous \<Rightarrow> previous \<noteq> policy | None \<Rightarrow> False)
      then LidRetry_clear else self)"

definition retry_seconds :: "nat \<Rightarrow> nat" where
  "retry_seconds attempts = min (2 * 2 ^ min attempts 4) 30"

definition LidRetry_failed :: "error \<Rightarrow> nat \<Rightarrow> LidRetry \<Rightarrow> bool \<times> LidRetry" where
  "LidRetry_failed error now self =
     (if is_retry_cancelled error then (False, LidRetry_clear)
      else case downcast_preflight error of
        None \<Rightarrow> (False, LidRetry_clear)
      | Some proved \<Rightarrow>
        if lr_policy self = None then (False, self)
        else let attempts = saturating_add_u32 (lr_attempts self) 1 in
          (True, self\<lparr>lr_operation := proved, lr_attempts := attempts,
             lr_deadline := Some (now + 1000 * retry_seconds attempts)\<rparr>))"

definition LidRetry_due :: "nat \<Rightarrow> nat \<Rightarrow> LidRetry \<Rightarrow> bool \<times> LidRetry" where
  "LidRetry_due oper now self =
     (let self = (if lr_deadline self \<noteq> None \<and> oper \<noteq> lr_operation self
                  then LidRetry_clear else self) in
      if (case lr_deadline self of Some d \<Rightarrow> d \<le> now | None \<Rightarrow> False)
      then (True, self\<lparr>lr_deadline := None\<rparr>) else (False, self))"

section \<open>Controller\<close>

record LidState =
  lid_available :: bool
  lid_managed :: bool
  lid_error :: "string option"

datatype join_result = Joined "PowerSleepState option result" | JoinError string

text \<open>The worker set holds at most one action, kept with its policy and operation number.\<close>

record LidController =
  lc_actions :: "(SleepPolicy \<times> nat) option"
  lc_inhibitor :: "nat option"
  lc_edge :: LidEdge
  lc_retry :: LidRetry
  lc_status :: LidState

definition LidController_default :: LidController where
  "LidController_default = \<lparr>lc_actions = None, lc_inhibitor = None, lc_edge = LidEdge_default,
     lc_retry = LidRetry_clear, lc_status = \<lparr>lid_available = False, lid_managed = False, lid_error = None\<rparr>\<rparr>"

definition LidController_completed ::
  "join_result \<Rightarrow> nat \<Rightarrow> LidController \<Rightarrow> PowerSleepState option \<times> LidController" where
  "LidController_completed result now self0 =
     (let self = self0\<lparr>lc_actions := None\<rparr> in
      case result of
        Joined (Inr state) \<Rightarrow>
          (state, self\<lparr>lc_retry := LidRetry_clear, lc_status := (lc_status self)\<lparr>lid_error := None\<rparr>\<rparr>)
      | Joined (Inl error) \<Rightarrow>
          (case LidRetry_failed error now (lc_retry self) of (waiting, retry) \<Rightarrow>
           (None, self\<lparr>lc_retry := retry, lc_status := (lc_status self)\<lparr>lid_error :=
             Some (''Lid action failed'' @ (if waiting then ''; retrying preparation while lid remains closed''
                   else []) @ '': '' @ err_chain error)\<rparr>\<rparr>))
      | JoinError error \<Rightarrow>
          (None, self\<lparr>lc_retry := LidRetry_clear, lc_status := (lc_status self)\<lparr>lid_error :=
             Some (''Lid action worker failed: '' @ error)\<rparr>\<rparr>))"

record lid_input =
  li_policy :: "SleepPolicy result"
  li_active :: "bool result"
  li_inhibit :: "nat result"
  li_closed :: "bool result"
  li_docked :: "bool result"
  li_operation :: nat
  li_now :: nat

definition take_switch :: "bool \<Rightarrow> nat result \<Rightarrow> LidController \<Rightarrow> LidController result" where
  "take_switch managed inhibit self =
     (if managed \<and> lc_inhibitor self = None
      then and_then (with_context ''take ownership of the lid switch'' inhibit)
             (\<lambda>fd. Ok (self\<lparr>lc_inhibitor := Some fd\<rparr>))
      else if \<not> managed then Ok (self\<lparr>lc_inhibitor := None\<rparr>) else Ok self)"

text \<open>The part of a turn that decides on an action, once everything has been read.\<close>

definition LidController_decide ::
  "SleepPolicy \<Rightarrow> bool \<Rightarrow> bool \<Rightarrow> nat \<Rightarrow> nat \<Rightarrow> LidController \<Rightarrow> LidController" where
  "LidController_decide policy shut eligible oper now self0 =
     (case LidEdge_observe shut eligible (lc_edge self0) of (triggered, edge) \<Rightarrow>
      let self = self0\<lparr>lc_edge := edge,
            lc_retry := LidRetry_reconcile policy (shut \<and> eligible) (lc_retry self0)\<rparr> in
      if lc_actions self = None then
        if triggered then
          self\<lparr>lc_retry := LidRetry_start policy, lc_actions := Some (policy, oper)\<rparr>
        else
          (case LidRetry_due oper now (lc_retry self) of (due, retry) \<Rightarrow>
           if due then self\<lparr>lc_retry := retry, lc_actions := Some (policy, lr_operation retry)\<rparr>
           else self\<lparr>lc_retry := retry\<rparr>)
      else self)"

definition LidController_observe :: "lid_input \<Rightarrow> LidController \<Rightarrow> LidController result" where
  "LidController_observe i self =
     and_then (li_policy i) (\<lambda>policy.
     and_then (li_active i) (\<lambda>active.
     let managed = (lid_action policy \<noteq> LidSystem \<and> active) in
     and_then (take_switch managed (li_inhibit i) self) (\<lambda>self.
     and_then (li_closed i) (\<lambda>shut.
     and_then (li_docked i) (\<lambda>docked.
     let self = LidController_decide policy shut (managed \<and> \<not> docked) (li_operation i) (li_now i) self in
     Ok (self\<lparr>lc_status := (lc_status self)\<lparr>lid_managed := managed\<rparr>\<rparr>))))))"

section \<open>Worker\<close>

record 'w lid_env =
  ln_policy :: "'w policy_env"
  ln_policy_lock :: "('w, unit) eff"
  ln_system_bus :: "('w, unit) eff"
  ln_manager :: "('w, unit) eff"
  ln_current_session :: "('w, nat) eff"
  ln_session_active :: "nat \<Rightarrow> ('w, bool) eff"
  ln_session_remote :: "nat \<Rightarrow> ('w, bool) eff"
  ln_session_type :: "nat \<Rightarrow> ('w, string) eff"
  ln_lid_closed :: "('w, bool) eff"
  ln_docked :: "('w, bool) eff"

definition active_local_graphical :: "'w lid_env \<Rightarrow> nat \<Rightarrow> ('w, bool) eff" where
  "active_local_graphical N session =
     bindE (ln_session_active N session) (\<lambda>active.
     bindE (ln_session_remote N session) (\<lambda>remote.
     bindE (ln_session_type N session) (\<lambda>kind.
     returnE (active \<and> \<not> remote \<and> (kind = ''wayland'' \<or> kind = ''x11'')))))"

definition lid_confirm_error :: error where
  "lid_confirm_error =
     cancel_retry (err ''lid reopened, dock connected, or graphical session became inactive'')"

definition confirm_trigger :: "'w lid_env \<Rightarrow> nat \<Rightarrow> ('w, unit) eff" where
  "confirm_trigger N session =
     bindE (active_local_graphical N session) (\<lambda>active.
     if \<not> active then throwE lid_confirm_error
     else bindE (ln_lid_closed N) (\<lambda>shut.
       if \<not> shut then throwE lid_confirm_error
       else bindE (ln_docked N) (\<lambda>docked.
         if docked then throwE lid_confirm_error else returnE ())))"

definition confirm_operation :: "nat \<Rightarrow> ('w sleep_sys, unit) eff" where
  "confirm_operation previous =
     bindE (getE (\<lambda>s. op_id (operation (trk s)))) (\<lambda>op.
     if op \<noteq> saturating_add_u64 previous 1
     then throwE (cancel_retry (err ''another sleep operation superseded this lid close''))
     else returnE ())"

definition validate_lid_selection :: "nat \<Rightarrow> SleepPolicy \<Rightarrow> bool \<Rightarrow> unit result" where
  "validate_lid_selection selected_delay policy plug =
     (if lid_action policy \<noteq> LidProfile
         \<or> hibernate_minutes (SleepPolicy_profile policy plug) \<noteq> selected_delay
      then Err (cancel_retry (err ''lid power profile changed while preparing sleep; close the lid again to use the new profile''))
      else Ok ())"

definition lid_validate :: "'w lid_env \<Rightarrow> nat \<Rightarrow> nat \<Rightarrow> ('w sleep_sys, unit) eff" where
  "lid_validate N session operation_before =
     seqE (confirm_operation operation_before) (ext (confirm_trigger N session))"

definition lid_profile_validate ::
  "'w lid_env \<Rightarrow> nat \<Rightarrow> SleepProfile \<Rightarrow> nat \<Rightarrow> ('w sleep_sys, unit) eff" where
  "lid_profile_validate N session profile operation_before =
     seqE (confirm_operation operation_before)
     (bindE (ext (load_policy (ln_policy N))) (\<lambda>current.
      bindE (ext (read_plugged (ln_policy N))) (\<lambda>plug.
      seqE (liftE (validate_lid_selection (hibernate_minutes profile) current plug))
      (ext (confirm_trigger N session)))))"

definition lid_act ::
  "'w logind \<Rightarrow> 'w lid_env \<Rightarrow> bool \<Rightarrow> (nat \<Rightarrow> ('w, nat) eff) \<Rightarrow> SleepPolicy \<Rightarrow> nat \<Rightarrow> nat
     \<Rightarrow> ('w sleep_sys, PowerSleepState option) eff" where
  "lid_act L N busy acquire policy session operation_before =
     seqE (ext (confirm_trigger N session))
     (case lid_action policy of
        LidSystem \<Rightarrow> returnE None
      | LidIgnore \<Rightarrow> returnE None
      | LidLock \<Rightarrow> bindE (perform L busy ''lock'') (\<lambda>st. returnE (Some st))
      | LidSuspend \<Rightarrow> bindE (perform_with_validation L busy ''suspend'' (returnE ())
            (lid_validate N session operation_before)) (\<lambda>st. returnE (Some st))
      | LidHibernate \<Rightarrow> bindE (perform_with_validation L busy ''hibernate'' (returnE ())
            (lid_validate N session operation_before)) (\<lambda>st. returnE (Some st))
      | LidProfile \<Rightarrow> bindE (ext (read_plugged (ln_policy N))) (\<lambda>plug.
          bindE (perform_profile L busy acquire (SleepPolicy_profile policy plug)
            (lid_profile_validate N session (SleepPolicy_profile policy plug) operation_before))
            (\<lambda>st. returnE (Some st))))"

definition retryable :: "nat \<Rightarrow> ('s, 'a) eff \<Rightarrow> ('s, 'a) eff" where
  "retryable operation_before m = map_errE (\<lambda>e. RetryablePreflight operation_before # e) m"

definition lid_perform ::
  "'w logind \<Rightarrow> 'w lid_env \<Rightarrow> bool \<Rightarrow> (nat \<Rightarrow> ('w, nat) eff) \<Rightarrow> SleepPolicy \<Rightarrow> nat
     \<Rightarrow> ('w sleep_sys, PowerSleepState option) eff" where
  "lid_perform L N busy acquire policy operation_before =
     seqE (retryable operation_before (contextE ''lid policy is busy'' (ext (ln_policy_lock N))))
     (bindE (ext (load_policy (ln_policy N))) (\<lambda>current.
     seqE (ensureE (current = policy) ''lid policy changed before action'')
     (bindE (getE (\<lambda>s. op_id (operation (trk s)))) (\<lambda>op.
     seqE (ensureE (op = operation_before) ''another sleep operation superseded this lid close'')
     (seqE (retryable operation_before (ext (ln_system_bus N)))
     (bindE (retryable operation_before (seqE (ext (ln_manager N)) (ext (ln_current_session N)))) (\<lambda>session.
      lid_act L N busy acquire policy session operation_before)))))))"

section \<open>Edge\<close>

lemma edge_run:
  "snd (run (\<lambda>(fired, e) (c, el). LidEdge_observe c el e) (False, LidEdge_default) (h @ [(c, el)]))
     = \<lparr>le_previous = Some c, le_eligible = el\<rparr>"
  by (cases "run (\<lambda>(fired, e) (c, el). LidEdge_observe c el e) (False, LidEdge_default) h")
    (simp add: LidEdge_observe_def)

section \<open>Worker\<close>

lemma quiet_confirm [quiet_intros]: "quiet (confirm_operation n)"
  unfolding confirm_operation_def by (intro quiet_intros)

lemma quiet_lid_validate [quiet_intros]:
  "quiet (lid_validate N session n)" "quiet (lid_profile_validate N session profile n)"
  unfolding lid_validate_def lid_profile_validate_def by (intro quiet_intros)+

lemma quiet_retryable [quiet_intros]: "quiet m \<Longrightarrow> quiet (retryable n m)"
  unfolding retryable_def by (intro quiet_intros)

lemma confirm_trigger_Ok:
  "confirm_trigger N session w = (Inr u, w') \<Longrightarrow>
     \<exists>v v1. ln_lid_closed N v = (Inr True, v1) \<and> ln_docked N v1 = (Inr False, w')"
  by (auto simp: confirm_trigger_def bindE_eq_Ok eff_simps split: if_splits) blast

section \<open>The controller as a machine\<close>

text \<open>
  Its log: every completed turn with the policy, the lid, eligibility, the operation number and the
  instant; a disconnect, which drops the controller; workers started and how they failed.
\<close>

datatype lid_event =
    Lid_Observed SleepPolicy bool bool nat nat
  | Lid_Disconnected
  | Lid_Spawned SleepPolicy nat
  | Lid_Failed error nat
  | Lid_Ended

record lid_sys =
  ls_controller :: LidController
  ls_log :: "lid_event list"

datatype lid_step = Lid_Turn lid_input | Lid_Join join_result nat

definition lid_reconnect :: LidController where
  "lid_reconnect = LidController_default\<lparr>lc_status := \<lparr>lid_available = True, lid_managed = False, lid_error = None\<rparr>\<rparr>"

definition turn_event :: "lid_input \<Rightarrow> lid_event" where
  "turn_event i = Lid_Observed (projr (li_policy i)) (projr (li_closed i))
     (lid_action (projr (li_policy i)) \<noteq> LidSystem \<and> projr (li_active i) \<and> \<not> projr (li_docked i))
     (li_operation i) (li_now i)"

definition lid_turn :: "lid_input \<Rightarrow> lid_sys \<Rightarrow> lid_sys" where
  "lid_turn i s =
     (case LidController_observe i (ls_controller s) of
        Inl e \<Rightarrow> \<lparr>ls_controller = lid_reconnect, ls_log = ls_log s @ [Lid_Disconnected]\<rparr>
      | Inr c \<Rightarrow> \<lparr>ls_controller = c, ls_log = ls_log s @ [turn_event i]
          @ (case (lc_actions (ls_controller s), lc_actions c) of
               (None, Some (p, op)) \<Rightarrow> [Lid_Spawned p op] | _ \<Rightarrow> [])\<rparr>)"

definition lid_step :: "lid_sys \<Rightarrow> lid_step \<Rightarrow> lid_sys" where
  "lid_step s x =
     (case x of
        Lid_Turn i \<Rightarrow> lid_turn i s
      | Lid_Join result now \<Rightarrow>
          if lc_actions (ls_controller s) = None then s
          else \<lparr>ls_controller = snd (LidController_completed result now (ls_controller s)),
                ls_log = ls_log s @ [case result of Joined (Inl e) \<Rightarrow> Lid_Failed e now | _ \<Rightarrow> Lid_Ended]\<rparr>)"

definition lid_boot :: lid_sys where
  "lid_boot = \<lparr>ls_controller = lid_reconnect, ls_log = []\<rparr>"

text \<open>The turns of a log, and the edge detector's memory of them.\<close>

fun is_turn :: "lid_event \<Rightarrow> bool" where
  "is_turn (Lid_Observed p c el op now) = True"
| "is_turn Lid_Disconnected = True"
| "is_turn _ = False"

definition turns :: "lid_event list \<Rightarrow> lid_event list" where
  "turns l = filter is_turn l"

definition edge_of :: "lid_event list \<Rightarrow> LidEdge" where
  "edge_of l = (if turns l = [] then LidEdge_default else
     case last (turns l) of
       Lid_Observed p c el op now \<Rightarrow> \<lparr>le_previous = Some c, le_eligible = el\<rparr>
     | _ \<Rightarrow> LidEdge_default)"

lemma edge_of_snoc [simp]:
  "edge_of (l @ [Lid_Observed p c el op now]) = \<lparr>le_previous = Some c, le_eligible = el\<rparr>"
  "edge_of (l @ [Lid_Disconnected]) = LidEdge_default"
  "\<not> is_turn ev \<Longrightarrow> edge_of (l @ [ev]) = edge_of l"
  by (simp_all add: edge_of_def turns_def)

lemma edge_of_open:
  "edge_of l = \<lparr>le_previous = Some c, le_eligible = True\<rparr> \<Longrightarrow>
     \<exists>xs p op now. turns l = xs @ [Lid_Observed p c True op now]"
  by (cases "turns l" rule: rev_cases)
    (auto simp: edge_of_def LidEdge_default_def split: lid_event.splits if_splits)

text \<open>A waiting retry stems from a proven preflight failure, with the lid observed shut since.\<close>

definition still_shut :: "SleepPolicy \<Rightarrow> nat \<Rightarrow> lid_event \<Rightarrow> bool" where
  "still_shut p op ev \<longleftrightarrow> (\<exists>now. ev = Lid_Observed p True True op now)"

definition retry_chain :: "lid_event list \<Rightarrow> SleepPolicy \<Rightarrow> nat \<Rightarrow> nat \<Rightarrow> bool" where
  "retry_chain l p op d \<longleftrightarrow> (\<exists>pre e t mid. l = pre @ Lid_Failed e t # mid
     \<and> downcast_preflight e = Some op \<and> \<not> is_retry_cancelled e
     \<and> list_all (still_shut p op) mid \<and> t + 4000 \<le> d)"

definition spawn_ok :: "lid_event list \<Rightarrow> SleepPolicy \<Rightarrow> nat \<Rightarrow> bool" where
  "spawn_ok l p op \<longleftrightarrow> (\<exists>pre now. l = pre @ [Lid_Observed p True True op now]
     \<and> ((\<exists>xs q op' t. turns pre = xs @ [Lid_Observed q False True op' t])
        \<or> (\<exists>d\<le>now. retry_chain pre p op d)))"

definition spawns_ok :: "lid_event list \<Rightarrow> bool" where
  "spawns_ok l \<longleftrightarrow> (\<forall>xs p op ys. l = xs @ Lid_Spawned p op # ys \<longrightarrow> spawn_ok xs p op)"

lemma spawns_ok_snoc:
  "spawns_ok (l @ [ev]) \<longleftrightarrow> spawns_ok l \<and> (case ev of Lid_Spawned p op \<Rightarrow> spawn_ok l p op | _ \<Rightarrow> True)"
proof -
  have key: "l @ [ev] = xs @ Lid_Spawned p op # ys \<longleftrightarrow>
      (ys = [] \<and> xs = l \<and> ev = Lid_Spawned p op) \<or> (\<exists>zs. ys = zs @ [ev] \<and> l = xs @ Lid_Spawned p op # zs)"
    for xs p op ys
    by (cases ys rule: rev_cases) auto
  show ?thesis
    unfolding spawns_ok_def key by (cases ev) (simp_all, blast+)
qed

definition lid_inv :: "lid_sys \<Rightarrow> bool" where
  "lid_inv s \<longleftrightarrow> lc_edge (ls_controller s) = edge_of (ls_log s)
     \<and> (\<forall>d. lr_deadline (lc_retry (ls_controller s)) = Some d \<longrightarrow>
          lc_actions (ls_controller s) = None
          \<and> (\<exists>p. lr_policy (lc_retry (ls_controller s)) = Some p
               \<and> retry_chain (ls_log s) p (lr_operation (lc_retry (ls_controller s))) d))
     \<and> spawns_ok (ls_log s)"

lemma retry_seconds_bounds: "1 \<le> n \<Longrightarrow> 4 \<le> retry_seconds n \<and> retry_seconds n \<le> 30"
proof -
  assume "1 \<le> n"
  then have "(2::nat) ^ 1 \<le> 2 ^ min n 4" by (intro power_increasing) auto
  then show ?thesis by (simp add: retry_seconds_def)
qed

lemma saturating_add_u32_pos: "1 \<le> saturating_add_u32 n 1"
  by (simp add: saturating_add_u32_def U32_MAX_def)

lemma retry_failed_cases:
  assumes "LidRetry_failed e now r = (waiting, r')"
  obtains "lr_deadline r' = lr_deadline r" "lr_policy r' = None"
    | "r' = LidRetry_clear"
    | p op d where "downcast_preflight e = Some op" "\<not> is_retry_cancelled e" "lr_policy r' = Some p"
        "lr_operation r' = op" "lr_deadline r' = Some d" "now + 4000 \<le> d"
proof -
  have "4 \<le> retry_seconds (saturating_add_u32 (lr_attempts r) 1)"
    using retry_seconds_bounds [OF saturating_add_u32_pos] by blast
  with assms that show thesis
    by (auto simp: LidRetry_failed_def Let_def split: if_splits option.splits)
qed

lemma lid_inv_join:
  assumes "lid_inv s" shows "lid_inv (lid_step s (Lid_Join result now))"
proof (cases "lc_actions (ls_controller s) = None")
  case True
  with assms show ?thesis by (simp add: lid_step_def)
next
  case False
  let ?c = "ls_controller s"
  have nd: "lr_deadline (lc_retry ?c) = None" using assms False by (auto simp: lid_inv_def)
  show ?thesis
  proof (cases "\<exists>e. result = Joined (Inl e)")
    case True
    then obtain e where e: "result = Joined (Inl e)" by blast
    obtain waiting r' where f: "LidRetry_failed e now (lc_retry ?c) = (waiting, r')"
      by (cases "LidRetry_failed e now (lc_retry ?c)")
    have chain: "\<exists>p. lr_policy r' = Some p \<and> retry_chain (ls_log s @ [Lid_Failed e now]) p (lr_operation r') d"
      if "lr_deadline r' = Some d" for d
      using f
    proof (cases rule: retry_failed_cases)
      case (3 p op d')
      with that show ?thesis by (auto simp: retry_chain_def intro!: exI [of _ "ls_log s"])
    qed (use that nd in \<open>auto simp: LidRetry_clear_def\<close>)
    with assms False e f show ?thesis
      by (auto simp: lid_inv_def lid_step_def LidController_completed_def spawns_ok_snoc Let_def)
  next
    case no: False
    then have "\<exists>x. ls_log (lid_step s (Lid_Join result now)) = ls_log s @ [Lid_Ended]
        \<and> lc_retry (ls_controller (lid_step s (Lid_Join result now))) = LidRetry_clear
        \<and> lc_edge (ls_controller (lid_step s (Lid_Join result now))) = lc_edge ?c"
      using False by (auto simp: lid_step_def LidController_completed_def Let_def
          split: join_result.splits sum.splits)
    with assms show ?thesis by (auto simp: lid_inv_def LidRetry_clear_def spawns_ok_snoc)
  qed
qed

lemma observe_decides:
  assumes "LidController_observe i c = Inr c'"
  obtains p shut el c0 where "turn_event i = Lid_Observed p shut el (li_operation i) (li_now i)"
    "lc_edge c0 = lc_edge c" "lc_retry c0 = lc_retry c" "lc_actions c0 = lc_actions c"
    "lc_edge c' = lc_edge (LidController_decide p shut el (li_operation i) (li_now i) c0)"
    "lc_retry c' = lc_retry (LidController_decide p shut el (li_operation i) (li_now i) c0)"
    "lc_actions c' = lc_actions (LidController_decide p shut el (li_operation i) (li_now i) c0)"
proof -
  from assms obtain p active c0 shut docked where
    p: "li_policy i = Inr p" "li_active i = Inr active" "li_closed i = Inr shut" "li_docked i = Inr docked"
    and c0: "take_switch (lid_action p \<noteq> LidSystem \<and> active) (li_inhibit i) c = Inr c0"
    and c': "c' = (let self = LidController_decide p shut ((lid_action p \<noteq> LidSystem \<and> active) \<and> \<not> docked)
       (li_operation i) (li_now i) c0 in
       self\<lparr>lc_status := (lc_status self)\<lparr>lid_managed := lid_action p \<noteq> LidSystem \<and> active\<rparr>\<rparr>)"
    by (auto simp: LidController_observe_def and_then_Ok_iff Let_def)
  have "lc_edge c0 = lc_edge c \<and> lc_retry c0 = lc_retry c \<and> lc_actions c0 = lc_actions c"
    using c0 by (auto simp: take_switch_def and_then_Ok_iff split: if_splits)
  with p c' show thesis
    by (intro that [of p shut "(lid_action p \<noteq> LidSystem \<and> active) \<and> \<not> docked" c0])
      (auto simp: turn_event_def Let_def)
qed

lemma reconcile_cases:
  assumes "lr_deadline (LidRetry_reconcile p b r) = Some d" "lr_policy r = Some q"
  shows "b \<and> p = q \<and> LidRetry_reconcile p b r = r"
  using assms by (auto simp: LidRetry_reconcile_def LidRetry_clear_def split: if_splits)

lemma retry_chain_extend:
  "retry_chain l p op d \<Longrightarrow> retry_chain (l @ [Lid_Observed p True True op now]) p op d"
  unfolding retry_chain_def still_shut_def by fastforce

lemma due_cases:
  assumes "LidRetry_due oper now r = (due, r')"
  obtains "due" "lr_deadline r' = None" "lr_operation r' = lr_operation r" "oper = lr_operation r"
      "\<exists>d\<le>now. lr_deadline r = Some d"
    | "\<not> due" "lr_deadline r' = None"
    | d where "\<not> due" "lr_deadline r = Some d" "oper = lr_operation r" "r' = r"
proof (cases "lr_deadline r")
  case None
  with assms that(2) show thesis by (simp add: LidRetry_due_def Let_def)
next
  case (Some d)
  show thesis
  proof (cases "oper = lr_operation r")
    case True
    show thesis
    proof (cases "d \<le> now")
      case le: True
      with assms Some True have "due" "r' = r\<lparr>lr_deadline := None\<rparr>"
        by (simp_all add: LidRetry_due_def Let_def)
      with le Some True that(1) show thesis by simp
    next
      case gt: False
      with assms Some True have "\<not> due" "r' = r"
        by (simp_all add: LidRetry_due_def Let_def)
      with Some True that(3) show thesis by blast
    qed
  next
    case False
    with assms Some have "\<not> due" "lr_deadline r' = None"
      by (auto simp: LidRetry_due_def Let_def LidRetry_clear_def)
    with that(2) show thesis by blast
  qed
qed

lemma lid_inv_turn:
  assumes "lid_inv s" shows "lid_inv (lid_turn i s)"
proof (cases "LidController_observe i (ls_controller s)")
  case (Inl e)
  with assms show ?thesis
    by (auto simp: lid_turn_def lid_inv_def lid_reconnect_def LidController_default_def
        LidRetry_clear_def spawns_ok_snoc)
next
  case (Inr c')
  let ?c = "ls_controller s" and ?op = "li_operation i" and ?now = "li_now i"
  obtain p shut el c0 where t: "turn_event i = Lid_Observed p shut el ?op ?now"
    and c0: "lc_edge c0 = lc_edge ?c" "lc_retry c0 = lc_retry ?c" "lc_actions c0 = lc_actions ?c"
    and c': "lc_edge c' = lc_edge (LidController_decide p shut el ?op ?now c0)"
      "lc_retry c' = lc_retry (LidController_decide p shut el ?op ?now c0)"
      "lc_actions c' = lc_actions (LidController_decide p shut el ?op ?now c0)"
    by (rule observe_decides [OF Inr])
  let ?ev = "Lid_Observed p shut el ?op ?now"
  let ?r = "LidRetry_reconcile p (shut \<and> el) (lc_retry ?c)"
  note inv = assms [unfolded lid_inv_def]
  have chain: "shut \<and> el \<and> lr_policy ?r = Some p \<and> retry_chain (ls_log s) p (lr_operation ?r) d"
    if "lr_deadline ?r = Some d" for d
  proof -
    have "lr_deadline (lc_retry ?c) = Some d"
      using that by (auto simp: LidRetry_reconcile_def LidRetry_clear_def split: if_splits)
    with inv obtain q where "lr_policy (lc_retry ?c) = Some q"
      "retry_chain (ls_log s) q (lr_operation (lc_retry ?c)) d" by auto
    with reconcile_cases [OF that this(1)] show ?thesis by auto
  qed
  have edge: "lc_edge c' = \<lparr>le_previous = Some shut, le_eligible = el\<rparr>"
    using c' by (auto simp: LidController_decide_def LidEdge_observe_def Let_def split: prod.splits)
  show ?thesis
  proof (cases "lc_actions ?c")
    case (Some a)
    then have "lr_deadline (lc_retry ?c) = None" using inv by (cases "lr_deadline (lc_retry ?c)") auto
    then have "lr_deadline (lc_retry c') = None"
      using c' c0 Some by (auto simp: LidController_decide_def LidEdge_observe_def Let_def
          LidRetry_reconcile_def LidRetry_clear_def)
    with Some inv edge t Inr show ?thesis
      by (auto simp: lid_inv_def lid_turn_def spawns_ok_snoc)
  next
    case None
    show ?thesis
    proof (cases "el \<and> le_eligible (lc_edge ?c) \<and> le_previous (lc_edge ?c) = Some False \<and> shut")
      case True
      then have "edge_of (ls_log s) = \<lparr>le_previous = Some False, le_eligible = True\<rparr>"
        using inv by (metis LidEdge.surjective old.unit.exhaust)
      from edge_of_open [OF this] True have "spawn_ok (ls_log s @ [?ev]) p ?op"
        unfolding spawn_ok_def by (intro exI [of _ "ls_log s"] exI [of _ ?now]) simp
      moreover have "lc_actions c' = Some (p, ?op)" "lr_deadline (lc_retry c') = None"
        using c' c0 None True by (auto simp: LidController_decide_def LidEdge_observe_def Let_def
          LidRetry_start_def LidRetry_clear_def)
      ultimately show ?thesis
        using None inv edge t Inr spawns_ok_snoc [of "ls_log s @ [?ev]" "Lid_Spawned p ?op"]
          edge_of_snoc(3) [of "Lid_Spawned p ?op" "ls_log s @ [?ev]"]
        by (simp add: lid_inv_def lid_turn_def spawns_ok_snoc)
    next
      case False
      obtain due r' where d: "LidRetry_due ?op ?now ?r = (due, r')"
        by (cases "LidRetry_due ?op ?now ?r")
      have c'': "lc_retry c' = r'" "lc_actions c' = (if due then Some (p, lr_operation r') else None)"
        using c' c0 None False d
        by (auto simp: LidController_decide_def LidEdge_observe_def Let_def split: if_splits)
      from d show ?thesis
      proof (cases rule: due_cases)
        case 1
        then obtain dl where "dl \<le> ?now" "lr_deadline ?r = Some dl" by blast
        with chain 1 have "spawn_ok (ls_log s @ [?ev]) p (lr_operation r')"
          unfolding spawn_ok_def by auto
        with 1 c'' None inv edge t Inr
          spawns_ok_snoc [of "ls_log s @ [?ev]" "Lid_Spawned p (lr_operation r')"]
          edge_of_snoc(3) [of "Lid_Spawned p (lr_operation r')" "ls_log s @ [?ev]"]
        show ?thesis by (simp add: lid_inv_def lid_turn_def spawns_ok_snoc)
      next
        case 2
        with c'' None inv edge t Inr show ?thesis
          by (simp add: lid_inv_def lid_turn_def spawns_ok_snoc)
      next
        case (3 dl)
        with chain have "shut \<and> el" "lr_policy ?r = Some p"
          "retry_chain (ls_log s @ [?ev]) p (lr_operation ?r) dl"
          by (auto intro: retry_chain_extend)
        with 3 c'' None inv edge t Inr show ?thesis
          by (simp add: lid_inv_def lid_turn_def spawns_ok_snoc)
      qed
    qed
  qed
qed

interpretation lid: machine lid_boot lid_step lid_inv
proof
  show "lid_inv lid_boot"
    by (simp add: lid_inv_def lid_boot_def lid_reconnect_def LidController_default_def edge_of_def
        turns_def LidRetry_clear_def spawns_ok_def)
  show "lid_inv s \<Longrightarrow> True \<Longrightarrow> lid_inv (lid_step s x)" for s x
    by (cases x) (simp_all add: lid_inv_join lid_inv_turn, simp add: lid_step_def lid_inv_turn)
qed

section \<open>What the worker sends\<close>

text \<open>A validation that ends by confirming the trigger.\<close>

definition ends_confirmed :: "'w lid_env \<Rightarrow> nat \<Rightarrow> ('w sleep_sys, unit) eff \<Rightarrow> bool" where
  "ends_confirmed N session validate \<longleftrightarrow> quiet validate
     \<and> (\<forall>u v. validate u = (Inr (), v) \<longrightarrow> (\<exists>w. confirm_trigger N session w = (Inr (), world v)))"

lemma lid_validations_end_confirmed:
  "ends_confirmed N session (lid_validate N session n)"
  "ends_confirmed N session (lid_profile_validate N session q n)"
proof -
  have "\<exists>w. confirm_trigger N session w = (Inr (), world v)"
    if "ext (confirm_trigger N session) u = (Inr (), v)" for u v
    using that by (auto simp: ext_def split: prod.splits)
  then show "ends_confirmed N session (lid_validate N session n)"
    "ends_confirmed N session (lid_profile_validate N session q n)"
    by (auto simp: ends_confirmed_def quiet_lid_validate,
        auto simp: lid_validate_def lid_profile_validate_def seqE_eq_Ok bindE_eq_Ok)
qed

definition lid_sends :: "'w lid_env \<Rightarrow> SleepPolicy \<Rightarrow> string \<Rightarrow> bool" where
  "lid_sends N policy name \<longleftrightarrow>
     (lid_action policy = LidSuspend \<and> name = ''suspend'')
     \<or> (lid_action policy = LidHibernate \<and> name = ''hibernate'')
     \<or> (lid_action policy = LidProfile \<and> (\<exists>plug w w'. read_plugged (ln_policy N) w = (Inr plug, w')
          \<and> name = profile_action (SleepPolicy_profile policy plug)))"

lemma bind_return_Some:
  "bindE m (\<lambda>x. returnE (Some x)) s = (r, t) \<Longrightarrow>
     \<exists>r'. m s = (r', t) \<and> (\<forall>e. r = Inl e \<longrightarrow> r' = Inl e)"
  by (auto simp: bindE_def eff_simps split: prod.splits sum.splits)

lemma lid_act_sends:
  assumes "lid_act L N busy acquire policy session n s = (r, t)" "sleep_calls t \<noteq> sleep_calls s"
  shows "\<exists>name setup validate s1 r'. perform_with_validation L busy name setup validate s1 = (r', t)
    \<and> quiet setup \<and> ends_confirmed N session validate \<and> sleep_calls s1 = sleep_calls s
    \<and> (\<forall>e. r = Inl e \<longrightarrow> r' = Inl e) \<and> lid_sends N policy name"
  using assms(1) [unfolded lid_act_def] quiet_ext assms(2)
proof (cases rule: seq_quiet_sends)
  case (1 x u)
  note run = 1(2) and calls = 1(3)
  have changed: "sleep_calls t \<noteq> sleep_calls u" using calls assms(2) by simp
  show ?thesis
  proof (cases "lid_action policy")
    case LidLock
    with run obtain r' where "perform L busy ''lock'' u = (r', t)"
      by (auto dest!: bind_return_Some)
    then have "perform_with_validation L busy ''lock'' (returnE ()) (returnE ()) u = (r', t)"
      by (simp add: perform_def)
    from sent_cleared [OF quiet_basic(1) quiet_basic(1) this changed] show ?thesis
      by (auto simp: Action_parse_def)
  next
    case LidProfile
    with run have "bindE (ext (read_plugged (ln_policy N))) (\<lambda>plug.
          bindE (perform_profile L busy acquire (SleepPolicy_profile policy plug)
            (lid_profile_validate N session (SleepPolicy_profile policy plug) n))
            (\<lambda>st. returnE (Some st))) u = (r, t)" by simp
    from this quiet_ext changed show ?thesis
    proof (cases rule: bind_quiet_sends)
      case (1 plug u2)
      then obtain w w' where "read_plugged (ln_policy N) w = (Inr plug, w')"
        by (auto simp: ext_def split: prod.splits)
      moreover from bind_return_Some [OF 1(2)] obtain r' where
        "perform_profile L busy acquire (SleepPolicy_profile policy plug)
            (lid_profile_validate N session (SleepPolicy_profile policy plug) n) u2 = (r', t)"
        "\<forall>e. r = Inl e \<longrightarrow> r' = Inl e" by blast
      moreover have "quiet (validated_setup (lid_profile_validate N session q n) (acquire_delay acquire q))" for q
        by (intro quiet_intros)
      ultimately show ?thesis
        using LidProfile 1(3) calls unfolding perform_profile_def
        by (intro exI [of _ "profile_action (SleepPolicy_profile policy plug)"]
            exI [of _ "validated_setup (lid_profile_validate N session (SleepPolicy_profile policy plug) n)
              (acquire_delay acquire (SleepPolicy_profile policy plug))"]
            exI [of _ "lid_profile_validate N session (SleepPolicy_profile policy plug) n"]
            exI [of _ u2] exI [of _ r'])
          (auto simp: lid_sends_def lid_validations_end_confirmed(2))
    qed
  next
    case LidSuspend
    with run obtain r' where "perform_with_validation L busy ''suspend'' (returnE ())
        (lid_validate N session n) u = (r', t)" "\<forall>e. r = Inl e \<longrightarrow> r' = Inl e"
      by (auto dest!: bind_return_Some)
    with LidSuspend calls show ?thesis
      by (intro exI [of _ "''suspend''"] exI [of _ "returnE ()"] exI [of _ "lid_validate N session n"]
          exI [of _ u] exI [of _ r'])
        (simp add: lid_sends_def lid_validations_end_confirmed(1) quiet_basic(1))
  next
    case LidHibernate
    with run obtain r' where "perform_with_validation L busy ''hibernate'' (returnE ())
        (lid_validate N session n) u = (r', t)" "\<forall>e. r = Inl e \<longrightarrow> r' = Inl e"
      by (auto dest!: bind_return_Some)
    with LidHibernate calls show ?thesis
      by (intro exI [of _ "''hibernate''"] exI [of _ "returnE ()"] exI [of _ "lid_validate N session n"]
          exI [of _ u] exI [of _ r'])
        (simp add: lid_sends_def lid_validations_end_confirmed(1) quiet_basic(1))
  qed (use run changed in \<open>auto simp: eff_simps\<close>)
qed

lemma lid_perform_sends:
  assumes "lid_perform L N busy acquire policy n s = (r, t)" "sleep_calls t \<noteq> sleep_calls s"
  shows "\<exists>session s1 w w'. load_policy (ln_policy N) w = (Inr policy, w')
    \<and> sleep_calls s1 = sleep_calls s
    \<and> lid_act L N busy acquire policy session n s1 = (r, t)"
proof -
  let ?k3 = "bindE (retryable n (seqE (ext (ln_manager N)) (ext (ln_current_session N))))
      (\<lambda>session. lid_act L N busy acquire policy session n)"
  let ?k2 = "seqE (retryable n (ext (ln_system_bus N))) ?k3"
  let ?k1 = "\<lambda>current. seqE (ensureE (current = policy) ''lid policy changed before action'')
      (bindE (getE (\<lambda>s. op_id (operation (trk s)))) (\<lambda>op.
       seqE (ensureE (op = n) ''another sleep operation superseded this lid close'') ?k2))"
  have q: "quiet (retryable n (contextE c (ext m)))" "quiet (retryable n (ext m))"
    "quiet (retryable n (seqE (ext m) (ext m')))"
    for c and m :: "('a, unit) eff" and m' :: "('a, nat) eff"
    by (intro quiet_intros)+
  obtain u0 where 0: "bindE (ext (load_policy (ln_policy N))) ?k1 u0 = (r, t)"
    "sleep_calls u0 = sleep_calls s"
    by (rule seq_quiet_sends [OF assms(1) [unfolded lid_perform_def] q(1) assms(2)])
  obtain current u1 where 1: "ext (load_policy (ln_policy N)) u0 = (Inr current, u1)"
    "?k1 current u1 = (r, t)" "sleep_calls u1 = sleep_calls s"
    using 0 assms(2) quiet_ext [of "load_policy (ln_policy N)"]
    by (auto elim!: bind_quiet_sends [of "ext (load_policy (ln_policy N))"])
  from 1 assms(2) have p: "current = policy" and 2: "?k2 u1 = (r, t)"
    by (auto simp: seqE_def bindE_def [of "ensureE _ _"] bindE_def [of "getE _"] eff_simps ensure_def
        split: if_splits)
  obtain u2 where 3: "?k3 u2 = (r, t)" "sleep_calls u2 = sleep_calls s"
    using seq_quiet_sends [OF 2 q(2)] 1(3) assms(2) by metis
  obtain session u3 where "lid_act L N busy acquire policy session n u3 = (r, t)"
    "sleep_calls u3 = sleep_calls s"
    using bind_quiet_sends [OF 3(1) q(3)] 3(2) assms(2) by metis
  moreover obtain w w' where "load_policy (ln_policy N) w = (Inr policy, w')"
    using 1(1) p by (auto simp: ext_def split: prod.splits)
  ultimately show ?thesis by blast
qed

section \<open>Properties\<close>

text \<open>
  C30. A lid worker is started only by a close of the lid or by a justified retry of one. However
  turns, failures, disconnects and completions interleave, the turn that starts a worker saw the lid
  shut and the policy eligible, and either the turn before it saw the lid open and eligible, or it
  continues a chain: the last worker failed with a proof that nothing was dispatched, for the same
  operation number and without a cancellation marker; every turn since saw the lid shut, the same
  policy and no other operation; and at least four seconds have passed.
\<close>

theorem lid_worker_justified:
  assumes "ls_log (run lid_step lid_boot xs) = before @ Lid_Spawned p op # after"
  shows "\<exists>pre now. before = pre @ [Lid_Observed p True True op now]
    \<and> ((\<exists>hist q op' t. filter is_turn pre = hist @ [Lid_Observed q False True op' t])
       \<or> (\<exists>pre' e t mid. pre = pre' @ Lid_Failed e t # mid \<and> downcast_preflight e = Some op
            \<and> \<not> is_retry_cancelled e \<and> t + 4000 \<le> now
            \<and> (\<forall>ev\<in>set mid. \<exists>now'. ev = Lid_Observed p True True op now')))"
proof -
  have "spawn_ok before p op"
    using lid.inv_run [of xs] assms by (auto simp: lid_inv_def spawns_ok_def)
  then obtain pre now where b: "before = pre @ [Lid_Observed p True True op now]" and
    d: "(\<exists>xs q op' t. turns pre = xs @ [Lid_Observed q False True op' t])
        \<or> (\<exists>d\<le>now. retry_chain pre p op d)"
    unfolding spawn_ok_def by blast
  from d show ?thesis
  proof
    assume "\<exists>xs q op' t. turns pre = xs @ [Lid_Observed q False True op' t]"
    then obtain hist q op' t where "filter is_turn pre = hist @ [Lid_Observed q False True op' t]"
      unfolding turns_def by blast
    with b show ?thesis by blast
  next
    assume "\<exists>d\<le>now. retry_chain pre p op d"
    then obtain d pre' e t mid where c: "d \<le> now" "pre = pre' @ Lid_Failed e t # mid"
      "downcast_preflight e = Some op" "\<not> is_retry_cancelled e" "t + 4000 \<le> d"
      "\<forall>ev\<in>set mid. \<exists>now'. ev = Lid_Observed p True True op now'"
      by (auto simp: retry_chain_def still_shut_def list_all_iff)
    from c(1,5) have "t + 4000 \<le> now" by simp
    with b c(2-4,6) show ?thesis
      by - (rule exI [of _ pre], rule exI [of _ now], intro conjI disjI2, simp,
        rule exI [of _ pre'], rule exI [of _ e], rule exI [of _ t], rule exI [of _ mid], simp)
  qed
qed

definition lid_suspend_policy :: SleepPolicy where
  "lid_suspend_policy = SleepPolicy_default\<lparr>lid_action := LidSuspend\<rparr>"

lemma lid_suspend_action [simp]: "lid_action lid_suspend_policy = LidSuspend"
  by (simp add: lid_suspend_policy_def SleepPolicy_default_def)

definition lid_turn_at :: "bool \<Rightarrow> nat \<Rightarrow> lid_step" where
  "lid_turn_at shut now = Lid_Turn \<lparr>li_policy = Inr lid_suspend_policy, li_active = Inr True,
     li_inhibit = Inr 3, li_closed = Inr shut, li_docked = Inr False, li_operation = 7, li_now = now\<rparr>"

definition lid_retry_run :: "lid_step list" where
  "lid_retry_run = [lid_turn_at False 0, lid_turn_at True 1000,
     Lid_Join (Joined (Inl [RetryablePreflight 7, Msg ''slow locker''])) 2000,
     lid_turn_at True 4000, lid_turn_at True 6000]"

lemma lid_retry_run_log:
  "ls_log (run lid_step lid_boot lid_retry_run) =
     [Lid_Observed lid_suspend_policy False True 7 0, Lid_Observed lid_suspend_policy True True 7 1000,
      Lid_Spawned lid_suspend_policy 7, Lid_Failed [RetryablePreflight 7, Msg ''slow locker''] 2000,
      Lid_Observed lid_suspend_policy True True 7 4000, Lid_Observed lid_suspend_policy True True 7 6000]
     @ [Lid_Spawned lid_suspend_policy 7]"
  by (simp add: lid_retry_run_def lid_turn_at_def lid_step_def lid_turn_def LidController_observe_def
      lid_boot_def lid_reconnect_def LidController_default_def LidEdge_default_def LidRetry_clear_def
      LidController_decide_def LidEdge_observe_def LidRetry_reconcile_def LidRetry_start_def
      LidRetry_due_def take_switch_def turn_event_def LidController_completed_def LidRetry_failed_def
      is_retry_cancelled_def retry_seconds_def saturating_add_u32_def U32_MAX_def with_context_def
      Let_def)

theorem lid_worker_justified_witness:
  "\<exists>pre now. [Lid_Observed lid_suspend_policy False True 7 0, Lid_Observed lid_suspend_policy True True 7 1000,
      Lid_Spawned lid_suspend_policy 7, Lid_Failed [RetryablePreflight 7, Msg ''slow locker''] 2000,
      Lid_Observed lid_suspend_policy True True 7 4000, Lid_Observed lid_suspend_policy True True 7 6000]
    = pre @ [Lid_Observed lid_suspend_policy True True 7 now]"
  using lid_worker_justified [of lid_retry_run _ lid_suspend_policy 7 "[]", OF lid_retry_run_log] by blast

text \<open>
  A lid worker sleeps the machine only while the lid is still shut. If it causes a sleep request,
  then the stored policy was the one it was started with, the request is the one that policy selects
  (suspend, hibernate, or what the power profile in use asks for), and the last validation before the
  call, followed only by the session checks, read the lid as closed and then the machine as undocked.
\<close>

theorem lid_request_confirmed:
  fixes N :: "'w lid_env"
  assumes "lid_perform L N busy acquire policy n s = (r, t)" "sleep_calls t \<noteq> sleep_calls s"
  shows "\<exists>(v :: 'w sleep_sys) name a w w1 w2 w3. lid_sends N policy name \<and> Action_parse name = Inr a
    \<and> event_log t = event_log v
        @ [TriggerValidated, ActiveRead True, LockRead True, SleepCalled (Action_method a)]
    \<and> load_policy (ln_policy N) w = (Inr policy, w1)
    \<and> ln_lid_closed N w2 = (Inr True, w3) \<and> ln_docked N w3 = (Inr False, world v)"
proof -
  from lid_perform_sends [OF assms] obtain session s1 w w1 where
    w: "load_policy (ln_policy N) w = (Inr policy, w1)" "sleep_calls s1 = sleep_calls s"
    "lid_act L N busy acquire policy session n s1 = (r, t)" by blast
  from lid_act_sends [OF w(3)] assms(2) w(2) obtain name "setup" validate s2 r' where
    p: "perform_with_validation L busy name setup validate s2 = (r', t)" "quiet setup"
    "ends_confirmed N session validate" "sleep_calls s2 = sleep_calls s" "lid_sends N policy name"
    by auto
  from sent_cleared [OF p(2) _ p(1)] p(3,4) assms(2) obtain a l where
    a: "Action_parse name = Inr a" "cleared validate l" "event_log t = l @ [SleepCalled (Action_method a)]"
    by (auto simp: ends_confirmed_def)
  from a(2) obtain u v where v: "validate u = (Inr (), v)"
    "l = event_log v @ [TriggerValidated, ActiveRead True, LockRead True]"
    by (auto simp: cleared_def)
  from p(3) v(1) obtain x where "confirm_trigger N session x = (Inr (), world v)"
    by (auto simp: ends_confirmed_def)
  from confirm_trigger_Ok [OF this] obtain w2 w3 where
    "ln_lid_closed N w2 = (Inr True, w3)" "ln_docked N w3 = (Inr False, world v)" by blast
  with a(1,3) v(2) w(1) p(5) show ?thesis
    by - (rule exI [of _ v], rule exI [of _ name], rule exI [of _ a], rule exI [of _ w],
      rule exI [of _ w1], rule exI [of _ w2], rule exI [of _ w3], simp)
qed

definition lid_env1 :: "unit lid_env" where
  "lid_env1 = \<lparr>ln_policy = steady_env\<lparr>parse_policy := (\<lambda>_. Ok lid_suspend_policy)\<rparr>,
     ln_policy_lock = returnE (), ln_system_bus = returnE (), ln_manager = returnE (),
     ln_current_session = returnE 2, ln_session_active = (\<lambda>_. returnE True),
     ln_session_remote = (\<lambda>_. returnE False), ln_session_type = (\<lambda>_. returnE ''wayland''),
     ln_lid_closed = returnE True, ln_docked = returnE False\<rparr>"

lemma lid_env1_load: "load_policy (ln_policy lid_env1) w = (Inr lid_suspend_policy, w)"
  by (simp add: load_policy_def lid_env1_def steady_env_def bindE_def seqE_def eff_simps
      lid_suspend_policy_def SleepPolicy_default_def CriticalPolicy_default_def
      SleepProfile_default_def SleepPolicy_validate_def CriticalPolicy_validate_def MAX_MINUTES_def)

lemma lid_env1_confirm: "confirm_trigger lid_env1 n w = (Inr (), w)"
  by (simp add: confirm_trigger_def active_local_graphical_def lid_env1_def bindE_def eff_simps)

lemma lid_env1_pass [simp]:
  "ln_policy_lock lid_env1 = returnE ()" "ln_system_bus lid_env1 = returnE ()"
  "ln_manager lid_env1 = returnE ()" "ln_current_session lid_env1 = returnE 2"
  by (simp_all add: lid_env1_def)

lemmas lid_eval = lid_perform_def lid_act_def perform_eval lid_env1_load lid_env1_confirm
  retryable_def lid_validate_def confirm_operation_def saturating_add_u64_def U64_MAX_def

lemma lid_env1_suspends:
  "sleep_calls (snd (lid_perform calm lid_env1 False (\<lambda>_. returnE 4) lid_suspend_policy 0 idle_sys))
     = [SleepCalled ''Suspend'']"
  by (simp add: lid_eval sleep_calls_def)

theorem lid_request_confirmed_witness:
  "\<exists>name. lid_sends lid_env1 lid_suspend_policy name"
proof -
  obtain r t where run: "lid_perform calm lid_env1 False (\<lambda>_. returnE 4) lid_suspend_policy 0 idle_sys = (r, t)"
    by (cases "lid_perform calm lid_env1 False (\<lambda>_. returnE 4) lid_suspend_policy 0 idle_sys")
  have "sleep_calls t \<noteq> sleep_calls idle_sys"
    using lid_env1_suspends run by (simp add: sleep_calls_def idle_sys_def)
  from lid_request_confirmed [OF run this] show ?thesis by blast
qed

text \<open>
  A request that went out is never replayed by the retry chain: when a lid worker fails after a
  sleep request was sent, the controller that joins it clears the chain, so no later turn can retry.
\<close>

theorem lid_dispatched_not_replayed:
  assumes "lid_perform L N busy acquire policy n s = (Inl e, t)" "sleep_calls t \<noteq> sleep_calls s"
  shows "LidRetry_failed e now retry = (False, LidRetry_clear)
    \<and> lc_retry (snd (LidController_completed (Joined (Inl e)) now c)) = LidRetry_clear"
proof -
  from lid_perform_sends [OF assms] obtain session s1 where
    w: "sleep_calls s1 = sleep_calls s" "lid_act L N busy acquire policy session n s1 = (Inl e, t)"
    by blast
  from lid_act_sends [OF w(2)] assms(2) w(1) obtain name "setup" validate s2 where
    p: "perform_with_validation L busy name setup validate s2 = (Inl e, t)" "quiet setup"
    "quiet validate" "sleep_calls s2 = sleep_calls s"
    by (auto simp: ends_confirmed_def)
  from sent_error_not_retryable [OF p(2,3,1)] p(4) assms(2) have "downcast_preflight e = None" by simp
  then show ?thesis
    by (simp add: LidRetry_failed_def LidController_completed_def Let_def)
qed

theorem lid_dispatched_not_replayed_witness:
  "fst (LidRetry_failed (projl (fst (lid_perform (calm\<lparr>call_sleep := (\<lambda>_ w. (Some (TransportError ''gone''), w))\<rparr>)
     lid_env1 False (\<lambda>_. returnE 4) lid_suspend_policy 0 idle_sys))) 0 (LidRetry_start lid_suspend_policy)) = False"
proof -
  let ?L = "calm\<lparr>call_sleep := (\<lambda>_ w. (Some (TransportError ''gone''), w))\<rparr>"
  let ?p = "lid_perform ?L lid_env1 False (\<lambda>_. returnE 4) lid_suspend_policy 0 idle_sys"
  have "sleep_calls (snd ?p) \<noteq> sleep_calls idle_sys" "\<not> is_ok (fst ?p)"
    by (simp_all add: lid_eval sleep_calls_def ambiguous_error_def)
  then obtain e t where run: "?p = (Inl e, t)" and c: "sleep_calls t \<noteq> sleep_calls idle_sys"
    by (cases ?p; cases "fst ?p") auto
  from lid_dispatched_not_replayed [OF run c, of 0 "LidRetry_start lid_suspend_policy"] run
  show ?thesis by simp
qed

end
