(* ===== verification/Critical_Battery.thy ===== *)
theory Critical_Battery
  imports Lid
begin

text \<open>
  Critical-battery protection of \<open>sleep_policy/critical.rs\<close>: the evidence sample, the countdown
  engine, the durable recovery record, the monitor loop with its cancellation and restart, and the
  validated hibernation request. One turn of the monitor is split at its only suspension point that
  matters, the durable write, so that a cancellation may fall between its two halves.
\<close>

section \<open>Evidence\<close>

record Sample =
  smp_percent :: f64
  smp_on_battery :: bool
  smp_discharging :: bool

definition Sample_critical :: "CriticalPolicy \<Rightarrow> Sample \<Rightarrow> bool" where
  "Sample_critical p s \<longleftrightarrow>
     smp_on_battery s \<and> smp_discharging s \<and> f64_le (smp_percent s) (Fin (of_nat (cp_percent p)))"

definition Sample_recovered :: "CriticalPolicy \<Rightarrow> Sample \<Rightarrow> bool" where
  "Sample_recovered p s \<longleftrightarrow>
     \<not> smp_on_battery s \<or> f64_le (Fin (of_nat (saturating_add_u8 (cp_percent p) 3))) (smp_percent s)"

text \<open>What the sample asks of UPower; an elapsed deadline is one of the failures of a field.\<close>

record 'w upower =
  up_display_device :: "('w, unit) eff"
  up_is_present :: "('w, bool) eff"
  up_percentage :: "('w, f64) eff"
  up_warning_level :: "('w, nat) eff"
  up_state :: "('w, nat) eff"
  up_on_battery :: "('w, bool) eff"

definition critical_sample :: "'w upower \<Rightarrow> ('w, Sample) eff" where
  "critical_sample U =
     seqE (up_display_device U)
     (bindE (up_is_present U) (\<lambda>present.
      seqE (ensureE present ''no aggregate battery present'')
     (bindE (up_percentage U) (\<lambda>percent.
      seqE (ensureE (f64_finite percent \<and> f64_in 0 100 percent) ''invalid battery percentage'')
     (bindE (up_warning_level U) (\<lambda>warning.
      seqE (ensureE (warning < 5)
        ''UPower is already at its emergency-action level; not competing with it'')
     (bindE (up_state U) (\<lambda>state.
      bindE (up_on_battery U) (\<lambda>on_battery.
      returnE \<lparr>smp_percent = percent, smp_on_battery = on_battery,
        smp_discharging = (state = 2)\<rparr>)))))))))"

section \<open>Engine\<close>

record CriticalState =
  cs_phase :: string
  cs_remaining :: nat
  cs_error :: "string option"

definition CriticalState_default :: CriticalState where
  "CriticalState_default = \<lparr>cs_phase = [], cs_remaining = 0, cs_error = None\<rparr>"

record Recovery =
  rec_policy :: CriticalPolicy
  rec_attempted :: bool

definition Recovery_default :: Recovery where
  "Recovery_default = \<lparr>rec_policy = CriticalPolicy_default, rec_attempted = False\<rparr>"

record Engine =
  eng_policy :: "CriticalPolicy option"
  eng_deadline :: "nat option"
  eng_token :: nat
  eng_latched :: bool
  eng_state :: CriticalState

definition Engine_default :: Engine where
  "Engine_default = \<lparr>eng_policy = None, eng_deadline = None, eng_token = 0, eng_latched = False,
     eng_state = CriticalState_default\<rparr>"

definition Engine_stop :: "string \<Rightarrow> string option \<Rightarrow> Engine \<Rightarrow> Engine" where
  "Engine_stop phase error self = self\<lparr>eng_deadline := None, eng_latched := True,
     eng_state := \<lparr>cs_phase = phase, cs_remaining = 0, cs_error = error\<rparr>\<rparr>"

definition Engine_adopt :: "CriticalPolicy \<Rightarrow> Engine \<Rightarrow> Engine" where
  "Engine_adopt policy self =
     (if eng_policy self \<noteq> Some policy
      then self\<lparr>eng_policy := Some policy, eng_deadline := None, eng_latched := False\<rparr> else self)"

text \<open>The countdown: start it with the current token, or continue it, or act when it has run out.\<close>

definition Engine_countdown :: "CriticalPolicy \<Rightarrow> nat \<Rightarrow> nat \<Rightarrow> Engine \<Rightarrow> (bool \<times> bool) \<times> Engine" where
  "Engine_countdown policy now token self =
     (let warning = (eng_deadline self = None);
          self = (if warning then self\<lparr>eng_token := token\<rparr> else self);
          deadline = (case eng_deadline self of Some d \<Rightarrow> d
                      | None \<Rightarrow> saturating_add_u64 now (cp_grace_seconds policy));
          self = self\<lparr>eng_deadline := Some deadline\<rparr>;
          remaining = deadline - now in
      if remaining = 0 then ((False, True), Engine_stop ''acting'' None self)
      else ((warning, False), self\<lparr>eng_state := \<lparr>cs_phase = ''countdown'',
              cs_remaining = remaining mod (U32_MAX + 1), cs_error = None\<rparr>\<rparr>))"

definition Engine_observe ::
  "CriticalPolicy \<Rightarrow> Sample option \<Rightarrow> nat \<Rightarrow> nat \<Rightarrow> Engine \<Rightarrow> (bool \<times> bool) \<times> Engine" where
  "Engine_observe policy sample now token self0 =
     (let self = Engine_adopt policy self0 in
      if \<not> cp_enabled policy then
        ((False, False), self\<lparr>eng_state := CriticalState_default\<lparr>cs_phase := ''disabled''\<rparr>\<rparr>)
      else case sample of
        None \<Rightarrow> ((False, False), self\<lparr>eng_deadline := None,
          eng_state := CriticalState_default\<lparr>cs_phase := ''blocked'',
            cs_error := Some ''Fresh battery evidence unavailable; automatic hibernation cancelled''\<rparr>\<rparr>)
      | Some s \<Rightarrow>
        if Sample_recovered policy s then
          ((False, False), self\<lparr>eng_latched := False, eng_deadline := None,
            eng_state := CriticalState_default\<lparr>cs_phase := ''armed''\<rparr>\<rparr>)
        else
          let self = (if eng_deadline self \<noteq> None \<and> token \<noteq> eng_token self
                      then Engine_stop ''cancelled'' None self else self) in
          if eng_latched self then ((False, False), self)
          else if \<not> Sample_critical policy s then
            ((False, False), self\<lparr>eng_deadline := None,
              eng_state := CriticalState_default\<lparr>cs_phase := ''armed''\<rparr>\<rparr>)
          else Engine_countdown policy now token self)"

definition warning_delivered :: "unit result \<Rightarrow> CriticalPolicy \<Rightarrow> nat \<Rightarrow> Engine \<Rightarrow> Engine" where
  "warning_delivered delivery policy now self =
     (case delivery of
        Inr _ \<Rightarrow> self\<lparr>eng_deadline := Some (saturating_add_u64 now (cp_grace_seconds policy)),
                     eng_state := (eng_state self)\<lparr>cs_remaining := cp_grace_seconds policy\<rparr>\<rparr>
      | Inl e \<Rightarrow> Engine_stop ''blocked''
          (Some (''Cannot deliver critical battery warning: '' @ err_chain e)) self)"

section \<open>One refresh, in its two halves\<close>

text \<open>
  Everything up to the durable write: the policy as parsed from its file and validated by \<open>load\<close>,
  the sample (read only when enabled), the cancellation token, the elapsed seconds before and after
  the warning is delivered. The result is the recovery record to write and the policy to act on.
\<close>

definition loaded_critical :: "SleepPolicy result \<Rightarrow> CriticalPolicy result" where
  "loaded_critical parsed =
     and_then parsed (\<lambda>p. and_then (SleepPolicy_validate p) (\<lambda>_. Ok (critical_battery p)))"

definition read_sample :: "CriticalPolicy \<Rightarrow> Sample result \<Rightarrow> Sample option" where
  "read_sample policy read =
     (if cp_enabled policy then (case read of Inr s \<Rightarrow> Some s | Inl _ \<Rightarrow> None) else None)"

definition refresh_observe ::
  "CriticalPolicy \<Rightarrow> Sample result \<Rightarrow> nat \<Rightarrow> nat \<Rightarrow> unit result \<Rightarrow> nat \<Rightarrow> Engine
     \<Rightarrow> (Recovery \<times> CriticalPolicy option \<times> bool) \<times> Engine" where
  "refresh_observe policy read now token delivery later self =
     (let sample = read_sample policy read;
          sample_error = (if cp_enabled policy
            then (case read of Inl e \<Rightarrow> Some (err_chain e) | Inr _ \<Rightarrow> None) else None) in
      case Engine_observe policy sample now token self of ((warning, fire), self) \<Rightarrow>
      let self = (if warning then warning_delivered delivery policy later self else self);
          self = (case sample_error of Some e \<Rightarrow> self\<lparr>eng_state := (eng_state self)\<lparr>cs_error := Some e\<rparr>\<rparr>
                  | None \<Rightarrow> self) in
      ((\<lparr>rec_policy = policy, rec_attempted = eng_latched self\<rparr>,
        if fire then Some policy else None, warning \<and> is_ok delivery), self))"

text \<open>The durable write; a cancellation since the token was read marks the episode as attempted.\<close>

definition persist_recovery :: "Recovery \<Rightarrow> nat \<Rightarrow> nat \<Rightarrow> Recovery" where
  "persist_recovery recovery token cancellation =
     (if cancellation \<noteq> token then recovery\<lparr>rec_attempted := True\<rparr> else recovery)"

section \<open>Monitor\<close>

text \<open>
  The log records what the monitor saw and did. \<open>Observed\<close> carries the engine's policy before the
  turn, the policy just loaded, the sample, the elapsed seconds and the token.
\<close>

datatype crit_event =
    Observed "CriticalPolicy option" CriticalPolicy "Sample option" nat nat
  | Delivered CriticalPolicy nat nat
  | Spawned CriticalPolicy nat
  | Restarted

record crit_monitor =
  cm_engine :: Engine
  cm_saved :: Recovery
  cm_disk :: Recovery
  cm_cancel :: nat
  cm_cancels :: "nat list"
  cm_pending :: "(Recovery \<times> nat \<times> CriticalPolicy option) option"
  cm_action :: "(CriticalPolicy \<times> nat) option"
  cm_published :: CriticalState
  cm_log :: "crit_event list"

definition cancellation_state :: "string \<Rightarrow> CriticalState result" where
  "cancellation_state phase =
     (if phase \<in> {''countdown'', ''acting''} then
        Ok (CriticalState_default\<lparr>cs_phase := ''cancelled'', cs_error :=
          Some ''Cancellation requested. An already dispatched sleep request cannot be undone.''\<rparr>)
      else Err (err ''no critical battery countdown is pending''))"

definition monitor_start :: "Recovery \<Rightarrow> crit_event list \<Rightarrow> CriticalState \<Rightarrow> crit_monitor" where
  "monitor_start saved events published =
     \<lparr>cm_engine = Engine_default\<lparr>eng_policy := Some (rec_policy saved),
        eng_latched := rec_attempted saved,
        eng_state := CriticalState_default\<lparr>cs_phase :=
          (if rec_attempted saved then ''latched'' else ''disabled'')\<rparr>\<rparr>,
      cm_saved = saved, cm_disk = saved, cm_cancel = 0, cm_cancels = [], cm_pending = None,
      cm_action = None, cm_published = published, cm_log = events\<rparr>"

datatype crit_step =
    Refresh_Observe "SleepPolicy result" "Sample result" nat "unit result" nat
  | Refresh_Persist "unit result"
  | Action_Joined "string option result"
  | Cancel_Begin
  | Cancel_Persist "SleepPolicy result" "unit result"
  | Daemon_Restart

definition publish_critical :: "crit_monitor \<Rightarrow> crit_monitor" where
  "publish_critical m = m\<lparr>cm_published := eng_state (cm_engine m)\<rparr>"

definition finish_refresh :: "CriticalPolicy option \<Rightarrow> crit_monitor \<Rightarrow> crit_monitor" where
  "finish_refresh fire m =
     publish_critical (case fire of
        Some policy \<Rightarrow> if cm_action m = None
          then m\<lparr>cm_action := Some (policy, eng_token (cm_engine m)),
                cm_log := cm_log m @ [Spawned policy (eng_token (cm_engine m))]\<rparr> else m
      | None \<Rightarrow> m)"

definition refresh_failed :: "error \<Rightarrow> crit_monitor \<Rightarrow> crit_monitor" where
  "refresh_failed e m =
     publish_critical (m\<lparr>cm_engine := Engine_stop ''blocked'' (Some (err_chain e)) (cm_engine m)\<rparr>)"

definition observe_turn ::
  "SleepPolicy result \<Rightarrow> Sample result \<Rightarrow> nat \<Rightarrow> unit result \<Rightarrow> nat \<Rightarrow> crit_monitor \<Rightarrow> crit_monitor" where
  "observe_turn parsed read now delivery later m =
     (case loaded_critical parsed of
        Inl e \<Rightarrow> refresh_failed e m
      | Inr policy \<Rightarrow>
        (case refresh_observe policy read now (cm_cancel m) delivery later (cm_engine m) of
           ((recovery, fire, told), e) \<Rightarrow>
           m\<lparr>cm_engine := e, cm_pending := Some (recovery, cm_cancel m, fire),
             cm_log := cm_log m
               @ [Observed (eng_policy (cm_engine m)) policy (read_sample policy read) now (cm_cancel m)]
               @ (if told then [Delivered policy later (cm_cancel m)] else [])\<rparr>))"

definition persist_turn ::
  "Recovery \<Rightarrow> nat \<Rightarrow> CriticalPolicy option \<Rightarrow> unit result \<Rightarrow> crit_monitor \<Rightarrow> crit_monitor" where
  "persist_turn recovery token fire saving m =
     (let m = m\<lparr>cm_pending := None\<rparr> in
      if recovery = cm_saved m then finish_refresh fire m
      else (case saving of
          Inl e \<Rightarrow> refresh_failed (Msg ''Cannot durably record critical battery intent'' # e) m
        | Inr _ \<Rightarrow> let recovery = persist_recovery recovery token (cm_cancel m) in
            finish_refresh fire (m\<lparr>cm_saved := recovery, cm_disk := recovery\<rparr>)))"

definition action_joined :: "string option result \<Rightarrow> crit_monitor \<Rightarrow> crit_monitor" where
  "action_joined result m =
     publish_critical (m\<lparr>cm_action := None, cm_engine :=
       (case result of
          Inr None \<Rightarrow> Engine_stop ''accepted'' None (cm_engine m)
        | Inr (Some e) \<Rightarrow> Engine_stop ''failed'' (Some e) (cm_engine m)
        | Inl _ \<Rightarrow> Engine_stop ''failed'' (Some ''critical battery action worker stopped'') (cm_engine m))\<rparr>)"

text \<open>The two halves of \<open>cancel\<close>: check and invalidate, then load, record and publish.\<close>

definition cancel_begin :: "crit_monitor \<Rightarrow> crit_monitor" where
  "cancel_begin m =
     (case cancellation_state (cs_phase (cm_published m)) of
        Inl _ \<Rightarrow> m
      | Inr _ \<Rightarrow> m\<lparr>cm_cancel := wrapping_add_u64 (cm_cancel m) 1,
                   cm_cancels := cm_cancels m @ [wrapping_add_u64 (cm_cancel m) 1]\<rparr>)"

definition cancel_persist :: "SleepPolicy result \<Rightarrow> unit result \<Rightarrow> crit_monitor \<Rightarrow> crit_monitor" where
  "cancel_persist parsed saving m =
     (case cm_cancels m of
        [] \<Rightarrow> m
      | token # rest \<Rightarrow>
        (case loaded_critical parsed of
           Inl _ \<Rightarrow> m\<lparr>cm_cancels := rest\<rparr>
         | Inr policy \<Rightarrow>
           (case saving of
              Inl _ \<Rightarrow> m\<lparr>cm_cancels := rest\<rparr>
            | Inr _ \<Rightarrow>
              m\<lparr>cm_cancels := rest,
                cm_disk := persist_recovery \<lparr>rec_policy = policy, rec_attempted = True\<rparr> token (cm_cancel m),
                cm_published := CriticalState_default\<lparr>cs_phase := ''cancelled'', cs_error :=
                  Some ''Cancellation requested. An already dispatched sleep request cannot be undone.''\<rparr>\<rparr>)))"

definition monitor_step :: "crit_monitor \<Rightarrow> crit_step \<Rightarrow> crit_monitor" where
  "monitor_step m x =
     (case x of
        Refresh_Observe parsed read now delivery later \<Rightarrow>
          (if cm_pending m = None then observe_turn parsed read now delivery later m else m)
      | Refresh_Persist saving \<Rightarrow>
          (case cm_pending m of None \<Rightarrow> m
           | Some (recovery, token, fire) \<Rightarrow> persist_turn recovery token fire saving m)
      | Action_Joined result \<Rightarrow>
          (if cm_pending m = None \<and> cm_action m \<noteq> None then action_joined result m else m)
      | Cancel_Begin \<Rightarrow> cancel_begin m
      | Cancel_Persist parsed saving \<Rightarrow> cancel_persist parsed saving m
      | Daemon_Restart \<Rightarrow> monitor_start (cm_disk m) (cm_log m @ [Restarted]) CriticalState_default)"

section \<open>The engine\<close>

lemma sample_not_both: "Sample_critical p s \<Longrightarrow> cp_percent p \<le> 252 \<Longrightarrow> \<not> Sample_recovered p s"
  by (cases "smp_percent s")
    (auto simp: Sample_critical_def Sample_recovered_def saturating_add_u8_def U8_MAX_def)

text \<open>The latch of one policy, for the thresholds validation accepts.\<close>

interpretation critical_latch: hysteresis
  "\<lambda>s. cp_percent p \<le> 252 \<and> Sample_critical p s" "Sample_recovered p" for p
  by unfold_locales (auto dest: sample_not_both)

lemma Engine_stop_simps [simp]:
  "eng_deadline (Engine_stop ph er e) = None" "eng_latched (Engine_stop ph er e)"
  "eng_token (Engine_stop ph er e) = eng_token e" "eng_policy (Engine_stop ph er e) = eng_policy e"
  by (simp_all add: Engine_stop_def)

lemma Engine_adopt_simps [simp]:
  "eng_policy (Engine_adopt p e) = Some p" "eng_token (Engine_adopt p e) = eng_token e"
  by (simp_all add: Engine_adopt_def)

lemma Engine_adopt_same [simp]: "eng_policy e = Some p \<Longrightarrow> Engine_adopt p e = e"
  by (simp add: Engine_adopt_def)

text \<open>What releases a latched episode: another policy, or recovered evidence under an enabled one.\<close>

definition releases :: "crit_event \<Rightarrow> bool" where
  "releases ev = (case ev of
      Observed prev policy sample now token \<Rightarrow>
        prev \<noteq> Some policy \<or>
        (cp_enabled policy \<and> (case sample of Some s \<Rightarrow> Sample_recovered policy s | None \<Rightarrow> False))
    | _ \<Rightarrow> False)"

lemma observe_keeps_latch:
  assumes "Engine_observe p sample now token e = ((warning, fire), e')" "eng_latched e"
    and "\<not> releases (Observed (eng_policy e) p sample now token)"
  shows "eng_latched e' \<and> \<not> warning \<and> \<not> fire"
  using assms
  by (auto simp: Engine_observe_def releases_def Let_def split: option.splits if_splits)

text \<open>A countdown runs only under an enabled policy and never once the episode is latched.\<close>

definition eng_ok :: "Engine \<Rightarrow> bool" where
  "eng_ok e \<longleftrightarrow> (eng_deadline e \<noteq> None \<longrightarrow>
     \<not> eng_latched e \<and> (\<exists>p. eng_policy e = Some p \<and> cp_enabled p))"

lemma eng_ok_stop [simp]: "eng_ok (Engine_stop ph er e)"
  by (simp add: eng_ok_def)

lemma countdown_cases:
  assumes "Engine_countdown p now token e = ((warning, fire), e')"
    "eng_deadline e \<noteq> None \<longrightarrow> token = eng_token e"
  obtains
      (warn) "warning" "\<not> fire" "eng_token e' = token" "eng_policy e' = eng_policy e"
        "eng_latched e' = eng_latched e"
    | (counting) d where "\<not> warning" "\<not> fire" "eng_deadline e = Some d" "eng_deadline e' = Some d"
        "eng_token e' = token" "eng_policy e' = eng_policy e" "eng_latched e' = eng_latched e"
    | (fire) "\<not> warning" "fire" "eng_latched e'" "eng_deadline e' = None" "eng_token e' = token"
        "eng_policy e' = eng_policy e"
        "(\<exists>d. eng_deadline e = Some d \<and> d \<le> now) \<or> saturating_add_u64 now (cp_grace_seconds p) \<le> now"
  using assms
  by (cases "eng_deadline e") (auto simp: Engine_countdown_def Let_def split: if_splits)

text \<open>Every way an observation can end.\<close>

lemma observe_cases:
  assumes "Engine_observe p sample now token e = ((warning, fire), e')" "eng_ok e"
  obtains
      (idle) "\<not> warning" "\<not> fire" "eng_deadline e' = None" "eng_policy e' = Some p"
    | (warn) s where "warning" "\<not> fire" "sample = Some s" "Sample_critical p s" "cp_enabled p"
        "eng_token e' = token" "eng_policy e' = Some p" "\<not> eng_latched e'"
    | (counting) s d where "\<not> warning" "\<not> fire" "sample = Some s" "Sample_critical p s" "cp_enabled p"
        "eng_deadline e = Some d" "eng_deadline e' = Some d" "token = eng_token e"
        "eng_token e' = token" "eng_policy e = Some p" "eng_policy e' = Some p" "\<not> eng_latched e'"
    | (fire) s where "\<not> warning" "fire" "sample = Some s" "Sample_critical p s" "cp_enabled p"
        "eng_latched e'" "eng_deadline e' = None" "eng_policy e' = Some p" "eng_token e' = token"
        "(\<exists>d. eng_deadline e = Some d \<and> eng_policy e = Some p \<and> token = eng_token e \<and> d \<le> now)
          \<or> saturating_add_u64 now (cp_grace_seconds p) \<le> now"
proof -
  let ?a = "Engine_adopt p e"
  have ad: "eng_deadline ?a = None \<or> (eng_policy e = Some p \<and> ?a = e)"
    by (simp add: Engine_adopt_def)
  show thesis
  proof (cases "cp_enabled p \<and> sample \<noteq> None \<and> \<not> Sample_recovered p (the sample)
      \<and> \<not> (eng_deadline ?a \<noteq> None \<and> token \<noteq> eng_token ?a) \<and> \<not> eng_latched ?a
      \<and> Sample_critical p (the sample)")
    case True
    then obtain s where s: "sample = Some s" by auto
    with True assms(1) have c: "Engine_countdown p now token ?a = ((warning, fire), e')"
      by (auto simp: Engine_observe_def Let_def split: if_splits)
    from True have "eng_deadline ?a \<noteq> None \<longrightarrow> token = eng_token ?a" by auto
    from c this show thesis
    proof (cases rule: countdown_cases)
      case warn
      with True s that(2) show thesis by simp
    next
      case (counting d)
      with True s ad that(3) show thesis by auto
    next
      case fire
      with True s ad that(4) show thesis by auto
    qed
  next
    case False
    have "eng_deadline e' = None \<and> \<not> warning \<and> \<not> fire \<and> eng_policy e' = Some p"
      using assms(1,2) False ad
      by (auto simp: Engine_observe_def Let_def eng_ok_def split: option.splits if_splits)
    with that(1) show thesis by simp
  qed
qed

lemma refresh_observe_cases:
  assumes "refresh_observe p read now token delivery later e = ((recovery, fire, told), e')" "eng_ok e"
  obtains
      (quiet) "fire = None" "\<not> told" "eng_deadline e' = None" "eng_policy e' = Some p"
    | (warned) s where "fire = None" "told" "read_sample p read = Some s" "Sample_critical p s"
        "cp_enabled p" "eng_deadline e' = Some (saturating_add_u64 later (cp_grace_seconds p))"
        "eng_token e' = token" "eng_policy e' = Some p" "\<not> eng_latched e'"
    | (counting) s d where "fire = None" "\<not> told" "read_sample p read = Some s" "Sample_critical p s"
        "cp_enabled p" "eng_deadline e = Some d" "eng_deadline e' = Some d" "token = eng_token e"
        "eng_token e' = token" "eng_policy e = Some p" "eng_policy e' = Some p" "\<not> eng_latched e'"
    | (fire) s where "fire = Some p" "\<not> told" "read_sample p read = Some s" "Sample_critical p s"
        "eng_latched e'" "eng_deadline e' = None" "eng_policy e' = Some p" "eng_token e' = token"
        "(\<exists>d. eng_deadline e = Some d \<and> eng_policy e = Some p \<and> token = eng_token e \<and> d \<le> now)
          \<or> saturating_add_u64 now (cp_grace_seconds p) \<le> now"
proof -
  obtain warning f e1 where o: "Engine_observe p (read_sample p read) now token e = ((warning, f), e1)"
    by (cases "Engine_observe p (read_sample p read) now token e") auto
  have r: "fire = (if f then Some p else None)" "told = (warning \<and> is_ok delivery)"
    and e': "eng_deadline e' = eng_deadline (if warning then warning_delivered delivery p later e1 else e1)"
      "eng_policy e' = eng_policy (if warning then warning_delivered delivery p later e1 else e1)"
      "eng_token e' = eng_token (if warning then warning_delivered delivery p later e1 else e1)"
      "eng_latched e' = eng_latched (if warning then warning_delivered delivery p later e1 else e1)"
    using assms(1) o
    by (auto simp: refresh_observe_def Let_def split: option.splits sum.splits if_splits)
  from o assms(2) show thesis
  proof (cases rule: observe_cases)
    case idle
    with r e' quiet show thesis by simp
  next
    case (warn s)
    with r e' quiet warned show thesis
      by (cases delivery) (auto simp: warning_delivered_def)
  next
    case (counting s d)
    with r e' that(3) show thesis by simp
  next
    case (fire s)
    with r e' that(4) show thesis by simp
  qed
qed

lemma refresh_observe_recovery:
  "refresh_observe p read now token delivery later e = ((recovery, fire, told), e') \<Longrightarrow>
     recovery = \<lparr>rec_policy = p, rec_attempted = eng_latched e'\<rparr>"
  by (auto simp: refresh_observe_def Let_def split: prod.splits)

lemma refresh_observe_keeps_latch:
  assumes "refresh_observe p read now token delivery later e = ((recovery, fire, told), e')"
    "eng_latched e" "\<not> releases (Observed (eng_policy e) p (read_sample p read) now token)"
  shows "eng_latched e' \<and> fire = None"
proof -
  obtain warning f e1 where o: "Engine_observe p (read_sample p read) now token e = ((warning, f), e1)"
    by (cases "Engine_observe p (read_sample p read) now token e") auto
  from observe_keeps_latch [OF o assms(2,3)] assms(1) o show ?thesis
    by (auto simp: refresh_observe_def Let_def split: option.splits sum.splits if_splits)
qed

section \<open>The monitor's invariant\<close>

text \<open>An observation of an unbroken countdown.\<close>

definition counting :: "CriticalPolicy \<Rightarrow> nat \<Rightarrow> crit_event \<Rightarrow> bool" where
  "counting p k ev \<longleftrightarrow> (\<exists>s now. ev = Observed (Some p) p (Some s) now k \<and> Sample_critical p s)"

definition countdown :: "crit_event list \<Rightarrow> CriticalPolicy \<Rightarrow> nat \<Rightarrow> nat \<Rightarrow> bool" where
  "countdown l p k d \<longleftrightarrow> (\<exists>pre t mid. l = pre @ Delivered p t k # mid \<and> list_all (counting p k) mid
     \<and> d = t + cp_grace_seconds p)"

text \<open>The countdown that justifies a request: the last observation is past the whole grace period.\<close>

definition ran_out :: "crit_event list \<Rightarrow> CriticalPolicy \<Rightarrow> nat \<Rightarrow> bool" where
  "ran_out l p k \<longleftrightarrow> (\<exists>pre t mid s now. l = pre @ Delivered p t k # mid @ [Observed (Some p) p (Some s) now k]
     \<and> list_all (counting p k) mid \<and> Sample_critical p s \<and> t + cp_grace_seconds p \<le> now)"

lemma countdown_extend: "countdown l p k d \<Longrightarrow> counting p k ev \<Longrightarrow> countdown (l @ [ev]) p k d"
  unfolding countdown_def by fastforce

lemma countdown_ran_out:
  "countdown l p k d \<Longrightarrow> d \<le> now \<Longrightarrow> Sample_critical p s \<Longrightarrow>
     ran_out (l @ [Observed (Some p) p (Some s) now k]) p k"
  unfolding countdown_def ran_out_def by fastforce

text \<open>Whether a request was made since the last release.\<close>

fun spent_step :: "bool \<Rightarrow> crit_event \<Rightarrow> bool" where
  "spent_step b (Spawned p k) = True"
| "spent_step b ev = (b \<and> \<not> releases ev)"

definition spent :: "crit_event list \<Rightarrow> bool" where
  "spent l = run spent_step False l"

lemma spent_snoc [simp]: "spent (l @ [ev]) = spent_step (spent l) ev"
  by (simp add: spent_def)

lemma spent_snoc2 [simp]: "spent (l @ [ev, Delivered p t k]) = spent (l @ [ev])"
  using spent_snoc [of "l @ [ev]" "Delivered p t k"] by (simp add: releases_def)

lemma spent_Nil [simp]: "\<not> spent []"
  by (simp add: spent_def)

lemma spent_until_release: "run spent_step True ys \<or> (\<exists>ev\<in>set ys. releases ev)"
proof (induction ys rule: rev_induct)
  case (snoc ev ys)
  then show ?case by (cases ev) auto
qed simp

definition justified :: "crit_event list \<Rightarrow> bool" where
  "justified l \<longleftrightarrow> (\<forall>xs p k ys. l = xs @ Spawned p k # ys \<longrightarrow> ran_out xs p k \<and> \<not> spent xs)"

lemma justified_snoc:
  "justified (l @ [ev]) \<longleftrightarrow> justified l
     \<and> (case ev of Spawned p k \<Rightarrow> ran_out l p k \<and> \<not> spent l | _ \<Rightarrow> True)"
proof -
  have key: "l @ [ev] = xs @ Spawned p k # ys \<longleftrightarrow>
      (ys = [] \<and> xs = l \<and> ev = Spawned p k) \<or> (\<exists>zs. ys = zs @ [ev] \<and> l = xs @ Spawned p k # zs)" for xs p k ys
    by (cases ys rule: rev_cases) auto
  show ?thesis
    unfolding justified_def key by (cases ev) (simp_all, blast+)
qed

lemma justified_snoc2:
  "justified (l @ [ev, Delivered p t k]) \<longleftrightarrow> justified (l @ [ev])"
  using justified_snoc [of "l @ [ev]" "Delivered p t k"] by simp

definition mon_inv :: "crit_monitor \<Rightarrow> bool" where
  "mon_inv m \<longleftrightarrow> eng_ok (cm_engine m)
     \<and> (\<forall>d. eng_deadline (cm_engine m) = Some d \<longrightarrow>
          countdown (cm_log m) (the (eng_policy (cm_engine m))) (eng_token (cm_engine m)) d)
     \<and> (\<forall>recovery token fire. cm_pending m = Some (recovery, token, fire) \<longrightarrow>
          rec_attempted recovery = eng_latched (cm_engine m)
          \<and> (\<forall>p. fire = Some p \<longrightarrow> rec_attempted recovery \<and> \<not> spent (cm_log m)
               \<and> ran_out (cm_log m) p (eng_token (cm_engine m))))
     \<and> (cm_disk m = cm_saved m \<or> rec_attempted (cm_disk m))
     \<and> (spent (cm_log m) \<longrightarrow> eng_latched (cm_engine m) \<and> rec_attempted (cm_disk m))
     \<and> justified (cm_log m)"

definition in_time :: "crit_step \<Rightarrow> bool" where
  "in_time x = (case x of
      Refresh_Observe parsed read now delivery later \<Rightarrow> now + 300 \<le> U64_MAX \<and> later + 300 \<le> U64_MAX
    | _ \<Rightarrow> True)"

lemma loaded_critical_valid:
  "loaded_critical parsed = Inr p \<Longrightarrow> 30 \<le> cp_grace_seconds p \<and> cp_grace_seconds p \<le> 300
     \<and> 1 \<le> cp_percent p \<and> cp_percent p \<le> 20"
  by (auto simp: loaded_critical_def and_then_Ok_iff SleepPolicy_validate_Ok_iff)

lemma mon_inv_frame [simp]:
  "mon_inv (m\<lparr>cm_cancel := c\<rparr>) = mon_inv m"
  "mon_inv (m\<lparr>cm_cancels := cs\<rparr>) = mon_inv m"
  by (simp_all add: mon_inv_def)

lemma mon_inv_cancelled:
  "mon_inv m \<Longrightarrow> rec_attempted d \<Longrightarrow> mon_inv (m\<lparr>cm_cancels := cs, cm_disk := d, cm_published := q\<rparr>)"
  by (cases m) (simp only: crit_monitor.simps mon_inv_def; blast)

lemma mon_inv_failed: "mon_inv m \<Longrightarrow> cm_pending m = None \<Longrightarrow> mon_inv (refresh_failed e m)"
  by (auto simp: mon_inv_def refresh_failed_def publish_critical_def)

lemma mon_inv_observe:
  assumes "mon_inv m" "cm_pending m = None" "now + 300 \<le> U64_MAX" "later + 300 \<le> U64_MAX"
  shows "mon_inv (observe_turn parsed read now delivery later m)"
proof (cases "loaded_critical parsed")
  case (Inl e)
  with mon_inv_failed [OF assms(1,2)] show ?thesis by (simp add: observe_turn_def)
next
  case (Inr p)
  let ?e = "cm_engine m" and ?ev = "Observed (eng_policy (cm_engine m)) p (read_sample p read) now (cm_cancel m)"
  obtain recovery fire told e' where r:
    "refresh_observe p read now (cm_cancel m) delivery later ?e = ((recovery, fire, told), e')"
    by (cases "refresh_observe p read now (cm_cancel m) delivery later ?e") auto
  have turn: "observe_turn parsed read now delivery later m =
      m\<lparr>cm_engine := e', cm_pending := Some (recovery, cm_cancel m, fire),
        cm_log := (cm_log m @ [?ev]) @ (if told then [Delivered p later (cm_cancel m)] else [])\<rparr>"
    using Inr r by (simp add: observe_turn_def)
  note g = loaded_critical_valid [OF Inr]
  have latch: "spent (cm_log m @ [?ev]) \<Longrightarrow> eng_latched e' \<and> fire = None"
    using assms(1) refresh_observe_keeps_latch [OF r] by (auto simp: mon_inv_def)
  from r have ok: "eng_ok ?e" using assms(1) by (simp add: mon_inv_def)
  note rest = assms(1) [unfolded mon_inv_def] refresh_observe_recovery [OF r]
  from r ok show ?thesis
  proof (cases rule: refresh_observe_cases)
    case quiet
    with turn rest latch show ?thesis
      by (auto simp: mon_inv_def justified_snoc eng_ok_def)
  next
    case (warned s)
    then have "countdown ((cm_log m @ [?ev]) @ [Delivered p later (cm_cancel m)]) p (cm_cancel m)
        (later + cp_grace_seconds p)" unfolding countdown_def by fastforce
    with warned turn rest latch g assms(4) show ?thesis
      by (auto simp: mon_inv_def justified_snoc justified_snoc2 eng_ok_def saturating_add_u64_small)
  next
    case (counting s d)
    then have "countdown (cm_log m @ [?ev]) p (eng_token e') d"
      using rest(1) by (intro countdown_extend) (auto simp: counting_def)
    with counting turn rest latch show ?thesis
      by (auto simp: mon_inv_def justified_snoc eng_ok_def)
  next
    case (fire s)
    with g assms(3) have "\<exists>d. eng_deadline ?e = Some d \<and> eng_policy ?e = Some p
        \<and> cm_cancel m = eng_token ?e \<and> d \<le> now"
      by (auto simp: saturating_add_u64_small)
    with fire rest(1) have "ran_out (cm_log m @ [?ev]) p (eng_token e')"
      by (auto intro: countdown_ran_out)
    with fire turn rest latch show ?thesis
      by (auto simp: mon_inv_def justified_snoc eng_ok_def)
  qed
qed

lemma mon_inv_finish:
  assumes "mon_inv m" "cm_pending m = None"
    and "\<forall>p. fire = Some p \<longrightarrow> ran_out (cm_log m) p (eng_token (cm_engine m)) \<and> \<not> spent (cm_log m)
      \<and> eng_latched (cm_engine m) \<and> rec_attempted (cm_disk m)"
  shows "mon_inv (finish_refresh fire m)"
  using assms
  by (auto simp: mon_inv_def finish_refresh_def publish_critical_def justified_snoc eng_ok_def
      split: option.splits)

lemma mon_inv_persist:
  assumes "mon_inv m" "cm_pending m = Some (recovery, token, fire)"
  shows "mon_inv (persist_turn recovery token fire saving m)"
proof -
  let ?m = "m\<lparr>cm_pending := None\<rparr>"
  let ?r = "persist_recovery recovery token (cm_cancel m)"
  from assms have m: "mon_inv ?m" by (simp add: mon_inv_def)
  have p: "rec_attempted recovery = eng_latched (cm_engine m)"
    "\<And>p. fire = Some p \<Longrightarrow> ran_out (cm_log m) p (eng_token (cm_engine m)) \<and> \<not> spent (cm_log m)
      \<and> eng_latched (cm_engine m)"
    and d: "cm_disk m = cm_saved m \<or> rec_attempted (cm_disk m)"
    using assms by (auto simp: mon_inv_def)
  show ?thesis
  proof (cases "recovery = cm_saved m")
    case True
    with p d have "mon_inv (finish_refresh fire ?m)"
      by (intro mon_inv_finish m) auto
    with True show ?thesis by (simp add: persist_turn_def)
  next
    case False
    show ?thesis
    proof (cases saving)
      case (Inl e)
      with False m show ?thesis by (simp add: persist_turn_def mon_inv_failed)
    next
      case (Inr u)
      have "eng_latched (cm_engine m) \<Longrightarrow> rec_attempted ?r"
        using p by (simp add: persist_recovery_def)
      with m p have "mon_inv (?m\<lparr>cm_saved := ?r, cm_disk := ?r\<rparr>)"
        by (auto simp: mon_inv_def)
      with p \<open>eng_latched (cm_engine m) \<Longrightarrow> rec_attempted ?r\<close>
      have "mon_inv (finish_refresh fire (?m\<lparr>cm_saved := ?r, cm_disk := ?r\<rparr>))"
        by (intro mon_inv_finish) auto
      with False Inr show ?thesis by (simp add: persist_turn_def Let_def)
    qed
  qed
qed

lemma mon_inv_step:
  assumes "mon_inv m" "in_time x" shows "mon_inv (monitor_step m x)"
proof (cases x)
  case (Refresh_Observe parsed read now delivery later)
  with assms mon_inv_observe show ?thesis by (simp add: monitor_step_def in_time_def)
next
  case (Refresh_Persist saving)
  with assms(1) mon_inv_persist show ?thesis
    by (auto simp: monitor_step_def split: option.splits)
next
  case (Action_Joined result)
  have "cm_pending m = None \<Longrightarrow> mon_inv (publish_critical (m\<lparr>cm_action := None,
      cm_engine := Engine_stop ph er (cm_engine m)\<rparr>))" for ph er
    using assms(1) by (simp add: mon_inv_def publish_critical_def)
  with assms(1) Action_Joined show ?thesis
    by (simp add: monitor_step_def action_joined_def split: sum.split option.split)
next
  case Cancel_Begin
  with assms(1) show ?thesis
    by (simp add: monitor_step_def cancel_begin_def split: sum.split)
next
  case (Cancel_Persist parsed saving)
  with assms(1) show ?thesis
    by (simp add: monitor_step_def cancel_persist_def persist_recovery_def mon_inv_cancelled
        split: sum.split list.split)
next
  case Daemon_Restart
  with assms(1) show ?thesis
    by (auto simp: monitor_step_def mon_inv_def monitor_start_def Engine_default_def eng_ok_def
        justified_snoc releases_def)
qed

definition monitor_boot :: "Recovery \<Rightarrow> crit_monitor" where
  "monitor_boot saved = monitor_start saved [] CriticalState_default"

lemma mon_inv_boot: "mon_inv (monitor_boot saved)"
  by (simp add: monitor_boot_def monitor_start_def mon_inv_def Engine_default_def eng_ok_def
      justified_def)

interpretation crit: guarded_machine "monitor_boot saved" monitor_step in_time mon_inv for saved
  by unfold_locales (simp_all add: mon_inv_boot mon_inv_step)

section \<open>The validated request\<close>

text \<open>What the request reads besides logind and the policy file.\<close>

record 'w critical_env =
  ce_policy :: "'w policy_env"
  ce_upower :: "'w upower"
  ce_cancellation :: "'w \<Rightarrow> nat"
  ce_user_systemd :: "('w, unit) eff"
  ce_name_has_owner :: "string \<Rightarrow> ('w, bool) eff"
  ce_system_bus :: "('w, unit) eff"
  ce_current_session :: "('w, nat) eff"
  ce_session :: "'w lid_env"
  ce_can_hibernate :: "('w, string) eff"

definition power_managers :: "string list" where
  "power_managers = [''org.kde.Solid.PowerManagement'', ''org.gnome.SettingsDaemon.Power'',
     ''org.xfce.PowerManager'', ''org.mate.PowerManager'']"

definition no_other_power_manager :: "'w critical_env \<Rightarrow> ('w, unit) eff" where
  "no_other_power_manager C =
     seqE (ce_user_systemd C)
     (forE (\<lambda>name. bindE (ce_name_has_owner C name) (\<lambda>owned.
        ensureE (\<not> owned) (''another desktop power manager ('' @ name
          @ '') is active; critical protection is not taken over''))) power_managers)"

definition critical_validate :: "'w critical_env \<Rightarrow> CriticalPolicy \<Rightarrow> nat \<Rightarrow> ('w, unit) eff" where
  "critical_validate C policy token =
     bindE (getE (ce_cancellation C)) (\<lambda>c.
     seqE (ensureE (c = token) ''critical hibernation was cancelled'')
     (bindE (load_policy (ce_policy C)) (\<lambda>stored.
     seqE (ensureE (critical_battery stored = policy) ''critical battery policy changed'')
     (seqE (no_other_power_manager C)
     (seqE (ce_system_bus C)
     (bindE (ce_current_session C) (\<lambda>session.
     bindE (active_local_graphical (ce_session C) session) (\<lambda>alg.
     seqE (ensureE alg ''critical protection requires the active local graphical session'')
     (bindE (critical_sample (ce_upower C)) (\<lambda>s.
     seqE (ensureE (Sample_critical policy s)
       ''battery recovered or AC connected; critical hibernation cancelled'')
     (bindE (getE (ce_cancellation C)) (\<lambda>c.
     ensureE (c = token) ''critical hibernation was cancelled''))))))))))))"

definition critical_perform ::
  "'w logind \<Rightarrow> 'w critical_env \<Rightarrow> bool \<Rightarrow> CriticalPolicy \<Rightarrow> nat \<Rightarrow> ('w sleep_sys, PowerSleepState) eff" where
  "critical_perform L C busy policy token =
     seqE (ext (critical_validate C policy token))
     (perform_with_validation L busy ''hibernate'' (ext (critical_validate C policy token))
       (ext (critical_validate C policy token)))"

definition critical_set_policy ::
  "'w critical_env \<Rightarrow> CriticalPolicy \<Rightarrow> ('w, SleepPolicy) eff" where
  "critical_set_policy C policy =
     seqE (liftE (CriticalPolicy_validate policy))
     (bindE (load_for_update (ce_policy C)) (\<lambda>previous.
     seqE (if cp_enabled policy \<and> \<not> cp_enabled (critical_battery previous) then
             seqE (no_other_power_manager C) (seqE (ce_system_bus C)
             (bindE (ce_can_hibernate C) (\<lambda>capability.
              ensureE (configurable capability)
                (''critical battery protection requires hibernation support: '' @ capability))))
           else returnE ())
     (let p = previous\<lparr>critical_battery := policy\<rparr> in
      seqE (save_json_atomic (ce_policy C) p) (returnE p))))"

lemma critical_validate_Ok:
  assumes "critical_validate C policy token w = (Inr (), w')"
  shows "ce_cancellation C w = token \<and> ce_cancellation C w' = token
    \<and> (\<exists>stored v v'. load_policy (ce_policy C) v = (Inr stored, v') \<and> critical_battery stored = policy)
    \<and> (\<exists>s v v'. critical_sample (ce_upower C) v = (Inr s, v') \<and> Sample_critical policy s)"
  using assms by (auto simp: critical_validate_def bindE_eq_Ok seqE_eq_Ok eff_simps)

lemma critical_sample_range:
  "critical_sample U w = (Inr s, w') \<Longrightarrow> f64_in 0 100 (smp_percent s)"
  by (auto simp: critical_sample_def bindE_eq_Ok seqE_eq_Ok eff_simps)

lemma critical_set_policy_saves:
  assumes "atomic_save stored (save_json_atomic (ce_policy C))"
    "critical_set_policy C policy w = (Inr p, w')"
  shows "critical_battery p = policy \<and> SleepPolicy_validate p = Inr () \<and> stored w' = Some p"
proof -
  from assms(2) obtain previous w1 w2 where v: "CriticalPolicy_validate policy = Inr ()"
    and l: "load_for_update (ce_policy C) w = (Inr previous, w1)"
    and p: "p = previous\<lparr>critical_battery := policy\<rparr>"
    and s: "save_json_atomic (ce_policy C) p w2 = (Inr (), w')"
    by (auto simp: critical_set_policy_def bindE_eq_Ok seqE_eq_Ok eff_simps Let_def
        split del: if_split)
  from atomic_save_run [OF assms(1) s] load_for_update_valid [OF l] v p show ?thesis
    by (auto simp: SleepPolicy_validate_def and_then_Ok_iff simp del: validate_profiles.simps)
qed

section \<open>Properties\<close>

text \<open>
  C2. A critical hibernation is requested only after a whole delivered countdown. However policy
  loads, samples, warning deliveries, durable writes, cancellations and daemon restarts interleave,
  the monitor hands a request to its worker only if a warning for the same policy was delivered, every
  observation since then found that policy unchanged, no cancellation and a critical sample, and the
  last of them came at least the whole grace period after the delivery.
\<close>

theorem critical_request_after_full_grace:
  assumes "list_all in_time xs"
    and "cm_log (run monitor_step (monitor_boot saved) xs) = before @ Spawned p k # after"
  shows "\<exists>pre t mid s now.
      before = pre @ Delivered p t k # mid @ [Observed (Some p) p (Some s) now k]
      \<and> (\<forall>ev\<in>set mid. \<exists>s' now'. ev = Observed (Some p) p (Some s') now' k \<and> Sample_critical p s')
      \<and> Sample_critical p s \<and> t + cp_grace_seconds p \<le> now"
proof -
  have "justified (cm_log (run monitor_step (monitor_boot saved) xs))"
    using crit.inv_guarded [OF assms(1)] by (simp add: mon_inv_def)
  with assms(2) have "ran_out before p k" by (auto simp: justified_def)
  then show ?thesis by (auto simp: ran_out_def counting_def list_all_iff)
qed

definition low_policy :: SleepPolicy where
  "low_policy = SleepPolicy_default\<lparr>critical_battery := CriticalPolicy_default\<lparr>cp_enabled := True\<rparr>\<rparr>"

definition low_sample :: Sample where
  "low_sample = \<lparr>smp_percent = Fin 4, smp_on_battery = True, smp_discharging = True\<rparr>"

definition low_episode :: "crit_step list" where
  "low_episode = [Refresh_Observe (Inr low_policy) (Inr low_sample) 0 (Inr ()) 10, Refresh_Persist (Inr ()),
     Refresh_Observe (Inr low_policy) (Inr low_sample) 69 (Inr ()) 69, Refresh_Persist (Inr ()),
     Refresh_Observe (Inr low_policy) (Inr low_sample) 70 (Inr ()) 70, Refresh_Persist (Inr ())]"

lemmas crit_eval = action_joined_def low_episode_def low_policy_def low_sample_def monitor_step_def observe_turn_def
  loaded_critical_def SleepPolicy_validate_def CriticalPolicy_validate_def MAX_MINUTES_def
  SleepPolicy_default_def CriticalPolicy_default_def SleepProfile_default_def refresh_observe_def
  read_sample_def Engine_observe_def Engine_adopt_def Engine_countdown_def Engine_stop_def
  warning_delivered_def persist_turn_def persist_recovery_def finish_refresh_def refresh_failed_def
  publish_critical_def monitor_boot_def monitor_start_def Engine_default_def Recovery_default_def
  CriticalState_default_def Sample_critical_def Sample_recovered_def saturating_add_u64_def
  saturating_add_u8_def U64_MAX_def U32_MAX_def U8_MAX_def Let_def cancellation_state_def

lemma low_episode_log:
  "cm_log (run monitor_step (monitor_boot Recovery_default) low_episode) =
     [Observed (Some CriticalPolicy_default) (critical_battery low_policy) (Some low_sample) 0 0,
      Delivered (critical_battery low_policy) 10 0,
      Observed (Some (critical_battery low_policy)) (critical_battery low_policy) (Some low_sample) 69 0,
      Observed (Some (critical_battery low_policy)) (critical_battery low_policy) (Some low_sample) 70 0,
      Spawned (critical_battery low_policy) 0]"
  by (simp add: crit_eval)

theorem critical_request_after_full_grace_witness:
  "\<exists>t now. Delivered (critical_battery low_policy) t 0
      \<in> set (cm_log (run monitor_step (monitor_boot Recovery_default) low_episode))
    \<and> t + 60 \<le> now"
proof -
  have time: "list_all in_time low_episode" by (simp add: low_episode_def in_time_def U64_MAX_def)
  obtain bf where split: "cm_log (run monitor_step (monitor_boot Recovery_default) low_episode)
      = bf @ Spawned (critical_battery low_policy) 0 # []"
    unfolding low_episode_log by simp
  have g: "cp_grace_seconds (critical_battery low_policy) = 60"
    by (simp add: low_policy_def CriticalPolicy_default_def)
  from critical_request_after_full_grace [OF time split] obtain pre t mid s now where
    "bf = pre @ Delivered (critical_battery low_policy) t 0 # mid @ [Observed (Some (critical_battery low_policy))
        (critical_battery low_policy) (Some s) now 0]"
    "t + cp_grace_seconds (critical_battery low_policy) \<le> now" by blast
  with split g show ?thesis by auto
qed

text \<open>
  C28. At most one automatic request per low-battery episode, across cancellations, failed writes and
  daemon restarts: between two requests handed to the worker the monitor observed a release, that is
  another policy than the engine's or a recovered sample under an enabled policy.
\<close>

theorem critical_once_per_episode:
  assumes "list_all in_time xs"
    and "cm_log (run monitor_step (monitor_boot saved) xs) =
      before @ Spawned p k # between @ Spawned p' k' # after"
  shows "\<exists>ev\<in>set between. releases ev"
proof -
  have "justified (cm_log (run monitor_step (monitor_boot saved) xs))"
    using crit.inv_guarded [OF assms(1)] by (simp add: mon_inv_def)
  with assms(2) have "\<not> spent (before @ Spawned p k # between)"
    unfolding justified_def by (metis append.assoc append_Cons)
  then have "\<not> run spent_step True between" by (simp add: spent_def run_append)
  with spent_until_release [of between] show ?thesis by blast
qed

definition plugged_sample :: Sample where
  "plugged_sample = low_sample\<lparr>smp_on_battery := False\<rparr>"

definition two_episodes :: "crit_step list" where
  "two_episodes = low_episode @ [Action_Joined (Inr None),
     Refresh_Observe (Inr low_policy) (Inr plugged_sample) 80 (Inr ()) 80, Refresh_Persist (Inr ()),
     Refresh_Observe (Inr low_policy) (Inr low_sample) 90 (Inr ()) 90, Refresh_Persist (Inr ()),
     Refresh_Observe (Inr low_policy) (Inr low_sample) 150 (Inr ()) 150, Refresh_Persist (Inr ())]"

lemma two_episodes_log:
  "\<exists>bf mid. cm_log (run monitor_step (monitor_boot Recovery_default) two_episodes) =
     bf @ Spawned (critical_battery low_policy) 0 # mid @ Spawned (critical_battery low_policy) 0 # []
   \<and> length mid = 4"
  by (rule exI [of _ "take 4 (cm_log (run monitor_step (monitor_boot Recovery_default) two_episodes))"],
      rule exI [of _ "take 4 (drop 5 (cm_log (run monitor_step (monitor_boot Recovery_default) two_episodes)))"])
    (simp add: two_episodes_def plugged_sample_def crit_eval)

theorem critical_once_per_episode_witness:
  "\<exists>ev\<in>set (cm_log (run monitor_step (monitor_boot Recovery_default) two_episodes)). releases ev"
proof -
  have time: "list_all in_time two_episodes"
    by (simp add: two_episodes_def low_episode_def in_time_def U64_MAX_def)
  obtain bf mid where l: "cm_log (run monitor_step (monitor_boot Recovery_default) two_episodes) =
     bf @ Spawned (critical_battery low_policy) 0 # mid @ Spawned (critical_battery low_policy) 0 # []"
    using two_episodes_log by blast
  from critical_once_per_episode [OF time l] l show ?thesis by auto
qed

text \<open>
  A critical hibernation goes through the full validation to the last moment: if the worker causes
  a sleep request, it is for hibernation, and between its last validation and the call there were only
  the checks that the session is active and locked. In that validation the cancellation counter was
  the countdown's token before and after, the stored policy was the countdown's, and a fresh sample
  was critical.
\<close>

theorem critical_request_validated:
  fixes C :: "'w critical_env"
  assumes "critical_perform L C busy policy token s = (r, t)" "sleep_calls t \<noteq> sleep_calls s"
  shows "\<exists>u (v :: 'w sleep_sys). critical_validate C policy token u = (Inr (), world v)
    \<and> event_log t = event_log v
        @ [TriggerValidated, ActiveRead True, LockRead True, SleepCalled ''Hibernate'']
    \<and> ce_cancellation C u = token \<and> ce_cancellation C (world v) = token
    \<and> (\<exists>stored w w'. load_policy (ce_policy C) w = (Inr stored, w') \<and> critical_battery stored = policy)
    \<and> (\<exists>x w w'. critical_sample (ce_upower C) w = (Inr x, w') \<and> Sample_critical policy x)"
proof -
  let ?v = "ext (critical_validate C policy token)"
  have run: "\<exists>s1. sleep_calls s1 = sleep_calls s
      \<and> perform_with_validation L busy ''hibernate'' ?v ?v s1 = (r, t)"
    using assms
    by (auto simp: critical_perform_def seqE_def bindE_def ext_def [of _ s] sleep_calls_def
        intro!: exI [of _ "s\<lparr>world := _\<rparr>"] split: prod.splits sum.splits)
  then obtain s1 where s1: "sleep_calls s1 = sleep_calls s"
    "perform_with_validation L busy ''hibernate'' ?v ?v s1 = (r, t)" by blast
  from quiet_ext quiet_ext s1(2) obtain l where
    "cleared ?v l" "event_log t = l @ [SleepCalled ''Hibernate'']"
  proof (cases rule: perform_outcome)
    case (sent a l)
    with that show thesis by (auto simp: Action_parse_def)
  qed (use assms(2) s1(1) in \<open>auto simp: undisturbed_def\<close>)
  then obtain u v where v: "?v u = (Inr (), v)" and t: "event_log t = event_log v
        @ [TriggerValidated, ActiveRead True, LockRead True, SleepCalled ''Hibernate'']"
    by (auto simp: cleared_def)
  from v have "critical_validate C policy token (world u) = (Inr (), world v)"
    by (auto simp: ext_def split: prod.splits)
  with critical_validate_Ok [OF this] t show ?thesis
    by - (rule exI [of _ "world u"], rule exI [of _ v], simp)
qed

definition low_env :: "unit critical_env" where
  "low_env = \<lparr>ce_policy = steady_env\<lparr>parse_policy := (\<lambda>_. Ok low_policy)\<rparr>,
     ce_upower = \<lparr>up_display_device = returnE (), up_is_present = returnE True,
       up_percentage = returnE (Fin 4), up_warning_level = returnE 3, up_state = returnE 2,
       up_on_battery = returnE True\<rparr>,
     ce_cancellation = (\<lambda>_. 0), ce_user_systemd = returnE (), ce_name_has_owner = (\<lambda>_. returnE False),
     ce_system_bus = returnE (), ce_current_session = returnE 2,
     ce_session = lid_env1, ce_can_hibernate = returnE ''yes''\<rparr>"

lemma low_env_valid: "critical_validate low_env (critical_battery low_policy) 0 w = (Inr (), w)"
  by (simp add: critical_validate_def low_env_def no_other_power_manager_def power_managers_def
      active_local_graphical_def lid_env1_def critical_sample_def load_policy_def steady_env_def bindE_def seqE_def eff_simps low_policy_def
      SleepPolicy_default_def CriticalPolicy_default_def SleepProfile_default_def
      SleepPolicy_validate_def CriticalPolicy_validate_def MAX_MINUTES_def Sample_critical_def
      f64_finite_def f64_in_def)

lemma low_env_hibernates:
  "event_log (snd (critical_perform (calm\<lparr>call_can_hibernate := returnE ''yes''\<rparr>) low_env False
     (critical_battery low_policy) 0 idle_sys)) =
   [PreparingRead False, StateRead False, ActiveRead True, LockRead True, LockRead True, SetupDone,
     StateRead False, ActiveRead True, LockRead True, PreparingRead False, TriggerValidated,
     ActiveRead True, LockRead True, SleepCalled ''Hibernate'']"
  by (simp add: critical_perform_def perform_eval low_env_valid)

theorem critical_request_validated_witness:
  "\<exists>x w w'. critical_sample (ce_upower low_env) w = (Inr x, w') \<and> Sample_critical (critical_battery low_policy) x"
proof -
  let ?L = "calm\<lparr>call_can_hibernate := returnE ''yes''\<rparr>"
  obtain r t where run: "critical_perform ?L low_env False (critical_battery low_policy) 0 idle_sys = (r, t)"
    by (cases "critical_perform ?L low_env False (critical_battery low_policy) 0 idle_sys")
  have "sleep_calls t \<noteq> sleep_calls idle_sys"
    using low_env_hibernates run by (simp add: sleep_calls_def idle_sys_def)
  from critical_request_validated [OF run this] show ?thesis by blast
qed

end
