(* ===== verification/Power_Automation.thy ===== *)
theory Power_Automation
  imports Battery
begin

text \<open>
  Power profiles: reading the profile service (\<open>power.rs\<close>), the manual profile cycle, and the
  battery-level automation of \<open>power/automation.rs\<close>, which holds or switches profiles while the
  battery is low and gives them back. The service, the bus and the state file are the fields of
  \<open>ppd\<close>; each request to the service is logged together with the runtime record durable at that
  moment.
\<close>

section \<open>Service state\<close>

datatype dvalue = VStr string | VBool bool | VOther

type_synonym dict = "string \<rightharpoonup> dvalue"

definition property_string :: "dict \<Rightarrow> string \<Rightarrow> string option" where
  "property_string values key =
     (case values key of Some (VStr s) \<Rightarrow> Some s | _ \<Rightarrow> None)"

definition property_bool :: "dict \<Rightarrow> string \<Rightarrow> bool option" where
  "property_bool values key =
     (case values key of Some (VBool b) \<Rightarrow> Some b | _ \<Rightarrow> None)"

record PowerProfile =
  pp_name :: string
  pp_driver :: string
  pp_platform_driver :: string

record PowerProfileAction =
  pa_name :: string
  pa_description :: string
  pa_enabled :: bool

record PowerProfileHold =
  hold_application_id :: string
  hold_profile :: string
  hold_reason :: string

record BatteryAutomationState =
  ba_level :: string
  ba_status :: string
  ba_profile :: string
  ba_error :: "string option"

definition BatteryAutomationState_default :: BatteryAutomationState where
  "BatteryAutomationState_default = \<lparr>ba_level = [], ba_status = [], ba_profile = [], ba_error = None\<rparr>"

record PowerProfileState =
  pps_available :: bool
  pps_profile :: string
  pps_driver :: string
  pps_profiles :: "PowerProfile list"
  pps_next_manual :: "string option"
  pps_degraded :: string
  pps_version :: string
  pps_battery_aware :: "bool option"
  pps_actions :: "PowerProfileAction list"
  pps_holds :: "PowerProfileHold list"
  pps_automation :: BatteryAutomationState
  pps_error :: "string option"

definition parse_profile :: "dict \<Rightarrow> PowerProfile option" where
  "parse_profile values =
     (case property_string values ''Profile'' of None \<Rightarrow> None
      | Some name \<Rightarrow> Some \<lparr>pp_name = name,
          pp_driver = unwrap_or [] (case property_string values ''Driver'' of
              Some d \<Rightarrow> Some d | None \<Rightarrow> property_string values ''CpuDriver''),
          pp_platform_driver = unwrap_or [] (property_string values ''PlatformDriver'')\<rparr>)"

definition parse_action :: "dict \<Rightarrow> PowerProfileAction option" where
  "parse_action values =
     (case (case property_string values ''Name'' of
              Some n \<Rightarrow> Some n | None \<Rightarrow> property_string values ''Action'') of
        None \<Rightarrow> None
      | Some name \<Rightarrow> Some \<lparr>pa_name = name,
          pa_description = unwrap_or [] (property_string values ''Description''),
          pa_enabled = unwrap_or True (property_bool values ''Enabled'')\<rparr>)"

definition parse_hold :: "dict \<Rightarrow> PowerProfileHold option" where
  "parse_hold values =
     (case property_string values ''ApplicationId'' of None \<Rightarrow> None
      | Some app \<Rightarrow>
        (case property_string values ''Profile'' of None \<Rightarrow> None
         | Some profile \<Rightarrow> Some \<lparr>hold_application_id = app, hold_profile = profile,
             hold_reason = unwrap_or [] (property_string values ''Reason'')\<rparr>))"

definition MANUAL_PROFILES :: "string list" where
  "MANUAL_PROFILES = [''power-saver'', ''balanced'', ''performance'']"

definition advertised :: "PowerProfileState \<Rightarrow> string \<Rightarrow> bool" where
  "advertised st name = list_ex (\<lambda>item. pp_name item = name) (pps_profiles st)"

fun position :: "'a \<Rightarrow> 'a list \<Rightarrow> nat option" where
  "position x [] = None"
| "position x (y # ys) = (if y = x then Some 0 else map_option Suc (position x ys))"

definition next_manual_profile :: "PowerProfileState \<Rightarrow> string option" where
  "next_manual_profile state =
     (let eligible = filter (advertised state) MANUAL_PROFILES in
      if \<not> pps_available state \<or> length eligible < 2 then None
      else case position (pps_profile state) eligible of
        None \<Rightarrow> None
      | Some current \<Rightarrow> Some (eligible ! ((current + 1) mod length eligible)))"

section \<open>Envelope\<close>

record Runtime =
  rt_level :: BatteryLevel
  rt_manual_override :: bool
  rt_balanced_restore :: "string option"

definition Runtime_default :: Runtime where
  "Runtime_default = \<lparr>rt_level = Normal, rt_manual_override = False, rt_balanced_restore = None\<rparr>"

record PowerEnvelope =
  pe_connection :: bool
  pe_owner :: string
  pe_cookie :: "nat option"
  pe_held :: "string option"
  pe_level :: BatteryLevel
  pe_runtime :: Runtime
  pe_saved :: Runtime
  pe_loaded :: bool
  pe_status :: BatteryAutomationState

definition PowerEnvelope_default :: PowerEnvelope where
  "PowerEnvelope_default = \<lparr>pe_connection = False, pe_owner = [], pe_cookie = None, pe_held = None,
     pe_level = Normal, pe_runtime = Runtime_default, pe_saved = Runtime_default, pe_loaded = False,
     pe_status = BatteryAutomationState_default\<rparr>"

record 'w ppd =
  load_runtime :: "('w, Runtime) eff"
  save_runtime :: "Runtime \<Rightarrow> ('w, unit) eff"
  bus_system :: "('w, unit) eff"
  is_bus :: bool
  name_owner :: "('w, string) eff"
  ppd_proxy :: "('w, unit) eff"
  prop_active_profile :: "('w, string) eff"
  prop_profiles :: "('w, dict list) eff"
  prop_actions_info :: "('w, dict list) eff"
  prop_actions :: "('w, string list) eff"
  prop_holds :: "('w, dict list) eff"
  prop_degraded :: "('w, string) eff"
  prop_version :: "('w, string) eff"
  prop_battery_aware :: "('w, bool) eff"
  call_hold :: "string \<Rightarrow> string \<Rightarrow> ('w, nat) eff"
  call_release :: "nat \<Rightarrow> ('w, unit) eff"
  set_active :: "string \<Rightarrow> ('w, unit) eff"

datatype ppd_call = Hold string | Release nat | SetActive string | Restore string | ManualSetActive string

record 'w power_sys =
  pe :: PowerEnvelope
  pw :: 'w
  pcalls :: "(ppd_call \<times> Runtime) list"

definition pext :: "('w, 'a) eff \<Rightarrow> ('w power_sys, 'a) eff" where
  "pext m s = (case m (pw s) of (r, w) \<Rightarrow> (r, s\<lparr>pw := w\<rparr>))"

definition plog :: "ppd_call \<Rightarrow> ('w power_sys, unit) eff" where
  "plog c = modifyE (\<lambda>s. s\<lparr>pcalls := pcalls s @ [(c, pe_saved (pe s))]\<rparr>)"

definition penv :: "(PowerEnvelope \<Rightarrow> PowerEnvelope) \<Rightarrow> ('w power_sys, unit) eff" where
  "penv f = modifyE (\<lambda>s. s\<lparr>pe := f (pe s)\<rparr>)"

definition or_default :: "'a \<Rightarrow> ('s, 'a) eff \<Rightarrow> ('s, 'a) eff" where
  "or_default d m = catchE m (\<lambda>_. returnE d)"

definition read_raw_state :: "'w ppd \<Rightarrow> ('w, PowerProfileState) eff" where
  "read_raw_state P =
     seqE (contextE ''connect to power-profiles-daemon'' (ppd_proxy P))
     (bindE (contextE ''read active power profile'' (prop_active_profile P)) (\<lambda>profile.
     bindE (or_default [] (prop_profiles P)) (\<lambda>raw_profiles.
     let profiles = List.map_filter parse_profile raw_profiles;
         driver = (case find (\<lambda>item. pp_name item = profile) profiles of
                     Some item \<Rightarrow> pp_driver item | None \<Rightarrow> []) in
     bindE (or_default [] (prop_actions_info P)) (\<lambda>raw_action_info.
     let infos = List.map_filter parse_action raw_action_info in
     bindE (if infos = [] then
              bindE (or_default [] (prop_actions P)) (\<lambda>names.
                returnE (map (\<lambda>name. \<lparr>pa_name = name, pa_description = [], pa_enabled = True\<rparr>) names))
            else returnE infos) (\<lambda>actions.
     bindE (or_default [] (prop_holds P)) (\<lambda>raw_holds.
     bindE (or_default [] (prop_degraded P)) (\<lambda>degraded.
     bindE (or_default [] (prop_version P)) (\<lambda>version.
     bindE (attemptE (prop_battery_aware P)) (\<lambda>aware.
     let state = \<lparr>pps_available = True, pps_profile = profile, pps_driver = driver,
           pps_profiles = profiles, pps_next_manual = None, pps_degraded = degraded,
           pps_version = version, pps_battery_aware = (case aware of Inr b \<Rightarrow> Some b | Inl _ \<Rightarrow> None),
           pps_actions = actions, pps_holds = List.map_filter parse_hold raw_holds,
           pps_automation = BatteryAutomationState_default, pps_error = None\<rparr> in
     returnE (state\<lparr>pps_next_manual := next_manual_profile state\<rparr>))))))))))"

definition HOLD_APPLICATION_ID :: string where "HOLD_APPLICATION_ID = ''org.laufan.BarDaemon''"

definition has_own_hold :: "PowerProfileState \<Rightarrow> bool" where
  "has_own_hold state = list_ex (\<lambda>hold. hold_application_id hold = HOLD_APPLICATION_ID) (pps_holds state)"

definition attach :: "'w ppd \<Rightarrow> ('w power_sys, unit) eff" where
  "attach P =
     bindE (getE (\<lambda>s. pe_loaded (pe s))) (\<lambda>loaded.
     seqE (if loaded then returnE ()
           else bindE (pext (load_runtime P)) (\<lambda>runtime.
             penv (\<lambda>e. e\<lparr>pe_runtime := runtime, pe_saved := runtime, pe_level := rt_level runtime,
                         pe_loaded := True\<rparr>)))
     (penv (\<lambda>e. e\<lparr>pe_connection := True, pe_cookie := None, pe_held := None\<rparr>)))"

definition detach :: "('w power_sys, unit) eff" where
  "detach = penv (\<lambda>e. e\<lparr>pe_connection := False, pe_cookie := None, pe_held := None\<rparr>)"

definition envelope_observe :: "BatteryState \<Rightarrow> PowerEnvelope \<Rightarrow> PowerEnvelope" where
  "envelope_observe battery self0 =
     (let self = (if bat_available battery
            then let level = BatteryLevel_observe (pe_level self0) battery in
              self0\<lparr>pe_level := level, pe_runtime := (pe_runtime self0)\<lparr>rt_level := level\<rparr>\<rparr>
            else self0);
          self = (if pe_level self = Normal \<and> bat_available battery
            then self\<lparr>pe_runtime := (pe_runtime self)\<lparr>rt_manual_override := False\<rparr>\<rparr> else self);
          action = BatteryProfileAction_profile (BatteryLevel_action (pe_level self) battery) in
      self\<lparr>pe_status := \<lparr>ba_level = BatteryLevel_as_str (pe_level self),
        ba_status = (if \<not> bat_available battery then ''unavailable''
          else if pe_level self = Normal then ''waiting''
          else if rt_manual_override (pe_runtime self) then ''paused''
          else if action = None then ''keep-current'' else ''active''),
        ba_profile = unwrap_or [] action, ba_error = None\<rparr>\<rparr>)"

definition set_status :: "string \<Rightarrow> ('w power_sys, unit) eff" where
  "set_status st = penv (\<lambda>e. e\<lparr>pe_status := (pe_status e)\<lparr>ba_status := st\<rparr>\<rparr>)"

definition set_restore :: "string option \<Rightarrow> ('w power_sys, unit) eff" where
  "set_restore p = penv (\<lambda>e. e\<lparr>pe_runtime := (pe_runtime e)\<lparr>rt_balanced_restore := p\<rparr>\<rparr>)"

definition set_override :: "bool \<Rightarrow> ('w power_sys, unit) eff" where
  "set_override b = penv (\<lambda>e. e\<lparr>pe_runtime := (pe_runtime e)\<lparr>rt_manual_override := b\<rparr>\<rparr>)"

definition drop_hold :: "('w power_sys, unit) eff" where
  "drop_hold = penv (\<lambda>e. e\<lparr>pe_cookie := None, pe_held := None\<rparr>)"

definition persist :: "'w ppd \<Rightarrow> ('w power_sys, unit) eff" where
  "persist P =
     bindE (getE (\<lambda>s. pe s)) (\<lambda>self.
     if pe_runtime self \<noteq> pe_saved self then
       seqE (pext (save_runtime P (pe_runtime self))) (penv (\<lambda>e. e\<lparr>pe_saved := pe_runtime e\<rparr>))
     else returnE ())"

definition observe_external_selection :: "'w ppd \<Rightarrow> BatteryState \<Rightarrow> ('w power_sys, unit) eff" where
  "observe_external_selection P battery =
     seqE (if is_bus P then
             bindE (pext (name_owner P)) (\<lambda>owner.
             bindE (getE (\<lambda>s. pe_owner (pe s))) (\<lambda>known.
             if known \<noteq> owner then seqE (penv (\<lambda>e. e\<lparr>pe_owner := owner\<rparr>)) drop_hold else returnE ()))
           else returnE ())
     (bindE (pext (read_raw_state P)) (\<lambda>current.
      bindE (getE pe) (\<lambda>self.
      let lost_hold = (pe_cookie self \<noteq> None \<and> \<not> has_own_hold current);
          replaced_balanced = (rt_balanced_restore (pe_runtime self) \<noteq> None
            \<and> pps_profile current \<noteq> ''balanced'' \<and> pps_holds current = []) in
      seqE (if lost_hold then drop_hold else returnE ())
      (seqE (if replaced_balanced then set_restore None else returnE ())
      (if lost_hold \<or> replaced_balanced then
         seqE (set_override (pe_level self \<noteq> Normal))
         (seqE (persist P) (penv (envelope_observe battery)))
       else returnE ())))))"

definition release :: "'w ppd \<Rightarrow> ('w power_sys, unit) eff" where
  "release P =
     bindE (getE (\<lambda>s. pe_cookie (pe s))) (\<lambda>cookie.
     case cookie of
       None \<Rightarrow> returnE ()
     | Some c \<Rightarrow>
         bindE (pext (read_raw_state P)) (\<lambda>current.
         seqE (if has_own_hold current then
                 seqE (pext (ppd_proxy P)) (seqE (plog (Release c))
                   (contextE ''release battery-level power profile'' (pext (call_release P c))))
               else returnE ())
         drop_hold))"

definition restore_balanced :: "'w ppd \<Rightarrow> ('w power_sys, bool) eff" where
  "restore_balanced P =
     bindE (getE (\<lambda>s. rt_balanced_restore (pe_runtime (pe s)))) (\<lambda>restore.
     case restore of
       None \<Rightarrow> returnE True
     | Some previous \<Rightarrow>
         bindE (pext (read_raw_state P)) (\<lambda>current.
         if pps_holds current \<noteq> [] then returnE False
         else
           seqE (if pps_profile current = ''balanced'' \<and> advertised current previous then
                   seqE (pext (ppd_proxy P)) (seqE (plog (Restore previous))
                     (contextE ''restore pre-battery profile'' (pext (set_active P previous))))
                 else returnE ())
           (seqE (set_restore None) (seqE (persist P) (returnE True)))))"

definition apply_balanced :: "'w ppd \<Rightarrow> PowerProfileState \<Rightarrow> ('w power_sys, bool) eff" where
  "apply_balanced P current =
     (if pps_holds current \<noteq> [] then returnE False
      else bindE (getE (\<lambda>s. rt_balanced_restore (pe_runtime (pe s)))) (\<lambda>restore.
        if restore \<noteq> None \<or> pps_profile current = ''balanced'' then returnE True
        else
          seqE (set_restore (Some (pps_profile current)))
          (seqE (catchE (persist P) (\<lambda>e. seqE (set_restore None) (throwE e)))
          (seqE (pext (ppd_proxy P))
          (seqE (plog (SetActive ''balanced''))
          (seqE (catchE (pext (set_active P ''balanced''))
                  (\<lambda>e. seqE (set_restore None) (seqE (persist P)
                        (throwE (Msg ''apply balanced battery profile'' # e)))))
          (returnE True)))))))"

definition apply_profile :: "'w ppd \<Rightarrow> string \<Rightarrow> ('w power_sys, unit) eff" where
  "apply_profile P profile =
     bindE (pext (read_raw_state P)) (\<lambda>current.
     if \<not> advertised current profile then set_status ''unavailable''
     else
       bindE (if profile = ''balanced'' then apply_balanced P current
              else bindE (getE pe) (\<lambda>self.
                if pe_cookie self = None then
                  seqE (pext (ppd_proxy P)) (seqE (plog (Hold profile))
                  (bindE (contextE ''hold battery-level power profile''
                    (pext (call_hold P profile (''Battery level is '' @ BatteryLevel_as_str (pe_level self)))))
                   (\<lambda>cookie. seqE (penv (\<lambda>e. e\<lparr>pe_cookie := Some cookie, pe_held := Some profile\<rparr>))
                      (returnE True))))
                else returnE True)) (\<lambda>applied.
       if \<not> applied then set_status ''blocked''
       else bindE (pext (read_raw_state P)) (\<lambda>now.
         if pps_profile now \<noteq> profile then set_status ''blocked'' else returnE ())))"

definition desired_profile :: "BatteryState \<Rightarrow> PowerEnvelope \<Rightarrow> string option" where
  "desired_profile battery self =
     (if rt_manual_override (pe_runtime self) then None
      else BatteryProfileAction_profile (BatteryLevel_action (pe_level self) battery))"

definition reconcile :: "'w ppd \<Rightarrow> BatteryState \<Rightarrow> ('w power_sys, unit) eff" where
  "reconcile P battery =
     seqE (penv (envelope_observe battery))
     (if \<not> bat_available battery then returnE ()
      else seqE (persist P)
        (bindE (getE (\<lambda>s. pe_connection (pe s))) (\<lambda>connected.
         if \<not> connected then set_status ''unavailable''
         else
           seqE (observe_external_selection P battery)
           (bindE (getE pe) (\<lambda>self.
            let desired = desired_profile battery self in
            seqE (if pe_held self \<noteq> desired then release P else returnE ())
            (bindE (if desired \<noteq> Some ''balanced'' then restore_balanced P else returnE True) (\<lambda>clear.
             if \<not> clear then set_status ''blocked''
             else case desired of Some profile \<Rightarrow> apply_profile P profile | None \<Rightarrow> returnE ())))))))"

definition select_manual :: "'w ppd \<Rightarrow> string \<Rightarrow> BatteryState \<Rightarrow> ('w power_sys, unit) eff" where
  "select_manual P profile battery =
     bindE (getE pe) (\<lambda>self.
     seqE (ensureE (pe_loaded self \<and> pe_connection self) ''battery profile automation is reconnecting'')
     (seqE (ensureE (profile \<in> set MANUAL_PROFILES) (''unsupported power profile: '' @ profile))
     (bindE (pext (read_raw_state P)) (\<lambda>current.
     seqE (ensureE (pps_available current \<and> advertised current profile)
       (''power profile is unavailable: '' @ profile))
     (seqE (penv (envelope_observe battery))
     (bindE (getE pe) (\<lambda>self.
     let was_paused = rt_manual_override (pe_runtime self) in
     seqE (set_override (pe_level self \<noteq> Normal))
     (seqE (catchE (persist P) (\<lambda>e. seqE (set_override was_paused) (throwE e)))
     (seqE (catchE
         (seqE (release P) (seqE (pext (ppd_proxy P)) (seqE (plog (ManualSetActive profile))
           (contextE ''set active power profile'' (pext (set_active P profile))))))
         (\<lambda>e. seqE (set_override was_paused) (seqE (persist P)
           (seqE (catchE (reconcile P battery)
               (\<lambda>r. throwE (err (err_to_string e @ ''; restore battery automation: '' @ err_to_string r))))
            (throwE e)))))
     (seqE (set_restore None)
     (seqE (persist P)
     (penv (envelope_observe battery)))))))))))))"

definition resume :: "'w ppd \<Rightarrow> BatteryState \<Rightarrow> ('w power_sys, unit) eff" where
  "resume P battery =
     bindE (getE pe) (\<lambda>self.
     seqE (ensureE (pe_loaded self \<and> pe_connection self) ''battery profile automation is reconnecting'')
     (seqE (set_override False)
     (seqE (persist P)
     (reconcile P battery))))"

text \<open>The monitor's wrapper: a failed reconciliation is shown in the status.\<close>

definition reconcile_battery_profile :: "'w ppd \<Rightarrow> BatteryState \<Rightarrow> ('w power_sys, unit) eff" where
  "reconcile_battery_profile P battery =
     catchE (reconcile P battery) (\<lambda>e. penv (\<lambda>s. s\<lparr>pe_status := (pe_status s)\<lparr>ba_status := ''error'',
       ba_error := Some (err_to_string e)\<rparr>\<rparr>))"

definition set_profile :: "'w ppd \<Rightarrow> string \<Rightarrow> BatteryState \<Rightarrow> ('w power_sys, PowerProfileState) eff" where
  "set_profile P profile battery =
     seqE (ensureE (profile \<in> set MANUAL_PROFILES) (''unsupported power profile: '' @ profile))
     (seqE (pext (bus_system P))
     (seqE (select_manual P profile battery)
     (bindE (pext (read_raw_state P)) (\<lambda>state.
      bindE (getE (\<lambda>s. pe_status (pe s))) (\<lambda>status. returnE (state\<lparr>pps_automation := status\<rparr>))))))"

section \<open>Invariant\<close>

text \<open>
  What the file offers: it holds what was last saved, and no other request touches it. \<open>reload\<close> is
  the record that loading the file would give.
\<close>

definition keeps_file :: "('w \<Rightarrow> Runtime) \<Rightarrow> ('w, 'a) eff \<Rightarrow> bool" where
  "keeps_file reload m \<longleftrightarrow> (\<forall>w. reload (snd (m w)) = reload w)"

definition durable :: "('w \<Rightarrow> Runtime) \<Rightarrow> 'w ppd \<Rightarrow> bool" where
  "durable reload P \<longleftrightarrow>
     (\<forall>r w. reload (snd (save_runtime P r w)) = (if is_ok (fst (save_runtime P r w)) then r else reload w))
     \<and> (\<forall>w r w'. load_runtime P w = (Inr r, w') \<longrightarrow> r = reload w)
     \<and> keeps_file reload (load_runtime P) \<and> keeps_file reload (bus_system P)
     \<and> keeps_file reload (name_owner P) \<and> keeps_file reload (ppd_proxy P)
     \<and> keeps_file reload (prop_active_profile P) \<and> keeps_file reload (prop_profiles P)
     \<and> keeps_file reload (prop_actions_info P) \<and> keeps_file reload (prop_actions P)
     \<and> keeps_file reload (prop_holds P) \<and> keeps_file reload (prop_degraded P)
     \<and> keeps_file reload (prop_version P) \<and> keeps_file reload (prop_battery_aware P)
     \<and> (\<forall>p why. keeps_file reload (call_hold P p why)) \<and> (\<forall>c. keeps_file reload (call_release P c))
     \<and> (\<forall>p. keeps_file reload (set_active P p))"

definition calls_ok :: "(ppd_call \<times> Runtime) list \<Rightarrow> bool" where
  "calls_ok l \<longleftrightarrow> (\<forall>(c, saved)\<in>set l. \<forall>p. c = SetActive p \<longrightarrow>
     p = ''balanced'' \<and> rt_balanced_restore saved \<noteq> None)"

definition power_inv :: "('w \<Rightarrow> Runtime) \<Rightarrow> 'w power_sys \<Rightarrow> bool" where
  "power_inv reload s \<longleftrightarrow> (pe_cookie (pe s) = None \<longleftrightarrow> pe_held (pe s) = None)
     \<and> pe_held (pe s) \<noteq> Some ''balanced'' \<and> (pe_loaded (pe s) \<longrightarrow> reload (pw s) = pe_saved (pe s))
     \<and> calls_ok (pcalls s)"

lemma keeps_file_run: "keeps_file reload m \<Longrightarrow> m w = (r, w') \<Longrightarrow> reload w' = reload w"
  unfolding keeps_file_def by (drule spec [of _ w]) simp

lemma keeps_file_preserves: "keeps_file reload m \<Longrightarrow> preserves (\<lambda>w. reload w = v) m"
  by (simp add: keeps_file_def preserves_def)

lemma preserves_keeps_file: "(\<And>v. preserves (\<lambda>w. reload w = v) m) \<Longrightarrow> keeps_file reload m"
  by (simp add: keeps_file_def preserves_def)

lemma keeps_file_read_raw_state:
  assumes "durable reload P" shows "keeps_file reload (read_raw_state P)"
proof (rule preserves_keeps_file)
  fix v
  note d = assms [unfolded durable_def, THEN conjunct2, THEN conjunct2]
  show "preserves (\<lambda>w. reload w = v) (read_raw_state P)"
    unfolding read_raw_state_def or_default_def Let_def
    by (intro pres_intros) (use d in \<open>auto intro: keeps_file_preserves\<close>)
qed

lemma power_inv_pext: "keeps_file reload m \<Longrightarrow> preserves (power_inv reload) (pext m)"
  by (auto simp: preserves_def pext_def power_inv_def dest: keeps_file_run split: prod.splits)

lemma power_inv_penv:
  assumes "\<And>e. pe_cookie (f e) = pe_cookie e" "\<And>e. pe_held (f e) = pe_held e"
    "\<And>e. pe_loaded (f e) = pe_loaded e" "\<And>e. pe_saved (f e) = pe_saved e"
  shows "preserves (power_inv reload) (penv f)"
  using assms by (simp add: preserves_def penv_def eff_defs power_inv_def)

lemma power_inv_plog: "(\<And>p. c \<noteq> SetActive p) \<Longrightarrow> preserves (power_inv reload) (plog c)"
  by (auto simp: preserves_def plog_def eff_defs power_inv_def calls_ok_def)

lemma power_inv_updates:
  "preserves (power_inv reload) (set_status st)" "preserves (power_inv reload) (set_restore p)"
  "preserves (power_inv reload) (set_override b)" "preserves (power_inv reload) (penv (envelope_observe battery))"
  unfolding set_status_def set_restore_def set_override_def
  by (rule power_inv_penv; simp add: envelope_observe_def Let_def)+

lemma power_inv_drop: "preserves (power_inv reload) drop_hold"
  by (simp add: preserves_def drop_hold_def penv_def eff_defs power_inv_def)

lemma persist_cases:
  assumes "persist P s = (r, t)" "durable reload P"
  obtains "r = Inr ()" "pe_saved (pe t) = pe_runtime (pe s)" "pe t = (pe s)\<lparr>pe_saved := pe_runtime (pe s)\<rparr>"
      "pcalls t = pcalls s" "reload (pw s) = pe_saved (pe s) \<Longrightarrow> reload (pw t) = pe_saved (pe t)"
    | e where "r = Inl e" "pe t = pe s" "pcalls t = pcalls s" "reload (pw t) = reload (pw s)"
proof (cases "pe_runtime (pe s) = pe_saved (pe s)")
  case True
  with assms(1) have "r = Inr ()" "t = s" by (auto simp: persist_def bindE_def eff_simps)
  with True that(1) show thesis by simp
next
  case False
  obtain x w where w: "save_runtime P (pe_runtime (pe s)) (pw s) = (x, w)"
    by (cases "save_runtime P (pe_runtime (pe s)) (pw s)")
  with assms(2) have "reload w = (if is_ok x then pe_runtime (pe s) else reload (pw s))"
    unfolding durable_def by (metis fst_conv snd_conv)
  with w False assms(1) that show thesis
    by (cases x) (auto simp: persist_def bindE_def seqE_def pext_def penv_def eff_simps)
qed

lemma power_inv_persist: "durable reload P \<Longrightarrow> preserves (power_inv reload) (persist P)"
proof (rule preservesI)
  fix s assume d: "durable reload P" and i: "power_inv reload s"
  obtain r t where "persist P s = (r, t)" by (cases "persist P s")
  from this d show "power_inv reload (snd (persist P s))"
    by (cases rule: persist_cases) (use i \<open>persist P s = (r, t)\<close> in \<open>auto simp: power_inv_def\<close>)
qed

lemma snd_seqE: "snd (seqE m n s) = (case m s of (Inl e, u) \<Rightarrow> u | (Inr x, u) \<Rightarrow> snd (n u))"
  by (auto simp: seqE_def bindE_def split: prod.splits sum.splits)

lemma power_inv_log_balanced:
  assumes "power_inv reload s" "rt_balanced_restore (pe_saved (pe s)) \<noteq> None"
    and "keeps_file reload m" "preserves (power_inv reload) n"
  shows "power_inv reload (snd (seqE (pext m) (seqE (plog (SetActive ''balanced'')) n) s))"
proof -
  obtain r w where m: "m (pw s) = (r, w)" by (cases "m (pw s)")
  with assms(3) have w: "reload w = reload (pw s)" by (rule keeps_file_run)
  let ?u = "s\<lparr>pw := w, pcalls := pcalls s @ [(SetActive ''balanced'', pe_saved (pe s))]\<rparr>"
  have "power_inv reload ?u" "power_inv reload (s\<lparr>pw := w\<rparr>)"
    using assms(1,2) w by (auto simp: power_inv_def calls_ok_def)
  with m preservesD [OF assms(4)] show ?thesis
    by (cases r) (simp_all add: snd_seqE pext_def plog_def eff_simps)
qed

lemma power_inv_apply_balanced:
  assumes d: "durable reload P" shows "preserves (power_inv reload) (apply_balanced P current)"
proof -
  have f: "keeps_file reload (ppd_proxy P)" "keeps_file reload (set_active P p)" for p
    using d by (auto simp: durable_def)
  let ?fin = "seqE (catchE (pext (set_active P ''balanced''))
                  (\<lambda>e. seqE (set_restore None) (seqE (persist P)
                        (throwE (Msg ''apply balanced battery profile'' # e)))))
          (returnE True)"
  have e: "preserves (power_inv reload) ?fin"
    by (intro pres_intros power_inv_pext f power_inv_updates power_inv_persist d)
  let ?q = "Some (pps_profile current)"
  let ?body = "seqE (set_restore ?q)
     (seqE (catchE (persist P) (\<lambda>e. seqE (set_restore None) (throwE e)))
       (seqE (pext (ppd_proxy P)) (seqE (plog (SetActive ''balanced'')) ?fin)))"
  have "preserves (power_inv reload) ?body"
  proof (rule preservesI)
    fix s assume i: "power_inv reload s"
    obtain s1 where s: "set_restore ?q s = (Inr (), s1)" "power_inv reload s1"
      "rt_balanced_restore (pe_runtime (pe s1)) = ?q"
      using preservesD [OF power_inv_updates(2) i, of ?q] by (simp add: set_restore_def penv_def eff_simps)
    obtain r t where t: "persist P s1 = (r, t)" by (cases "persist P s1")
    have it: "power_inv reload t" using preservesD [OF power_inv_persist [OF d] s(2)] t by simp
    from t d show "power_inv reload (snd (?body s))"
    proof (cases rule: persist_cases)
      case 1
      with power_inv_log_balanced [OF it _ f(1) e] s(3) have
        "power_inv reload (snd (seqE (pext (ppd_proxy P)) (seqE (plog (SetActive ''balanced'')) ?fin) t))"
        by simp
      with 1 s(1) t show ?thesis by (simp add: snd_seqE catchE_def)
    next
      case (2 e)
      obtain t1 where "set_restore None t = (Inr (), t1)" "power_inv reload t1"
        using preservesD [OF power_inv_updates(2) it, of None]
        by (simp add: set_restore_def penv_def eff_simps)
      with 2 s(1) t show ?thesis
        by (simp add: snd_seqE catchE_def) (simp add: seqE_def bindE_def eff_simps)
    qed
  qed
  then show ?thesis
    unfolding apply_balanced_def
    by (intro preserves_if preserves_returnE preserves_bindE preserves_getE)
qed

lemma power_inv_apply_profile:
  assumes d: "durable reload P" shows "preserves (power_inv reload) (apply_profile P profile)"
proof -
  have f: "keeps_file reload (ppd_proxy P)" "keeps_file reload (call_hold P p why)" for p why
    using d by (auto simp: durable_def)
  have h: "preserves (power_inv reload) (penv (\<lambda>e. e\<lparr>pe_cookie := Some c, pe_held := Some profile\<rparr>))"
    if "profile \<noteq> ''balanced''" for c
    using that by (simp add: preserves_def penv_def eff_defs power_inv_def)
  show ?thesis
    unfolding apply_profile_def
    by (intro pres_intros power_inv_pext keeps_file_read_raw_state d f power_inv_updates
        power_inv_apply_balanced power_inv_plog h) simp_all
qed

lemma power_inv_release:
  assumes d: "durable reload P" shows "preserves (power_inv reload) (release P)"
proof -
  have f: "keeps_file reload (ppd_proxy P)" "keeps_file reload (call_release P c)" for c
    using d by (auto simp: durable_def)
  have "preserves (power_inv reload) (case cookie of None \<Rightarrow> returnE ()
     | Some c \<Rightarrow> bindE (pext (read_raw_state P)) (\<lambda>current.
         seqE (if has_own_hold current then
                 seqE (pext (ppd_proxy P)) (seqE (plog (Release c))
                   (contextE ''release battery-level power profile'' (pext (call_release P c))))
               else returnE ()) drop_hold))" for cookie
    by (cases cookie) (auto intro!: pres_intros power_inv_pext keeps_file_read_raw_state d f
        power_inv_plog power_inv_drop)
  then show ?thesis unfolding release_def by (intro pres_intros)
qed

lemma power_inv_restore:
  assumes d: "durable reload P" shows "preserves (power_inv reload) (restore_balanced P)"
proof -
  have f: "keeps_file reload (ppd_proxy P)" "keeps_file reload (set_active P p)" for p
    using d by (auto simp: durable_def)
  have "preserves (power_inv reload) (case restore of None \<Rightarrow> returnE True
     | Some previous \<Rightarrow> bindE (pext (read_raw_state P)) (\<lambda>current.
         if pps_holds current \<noteq> [] then returnE False
         else seqE (if pps_profile current = ''balanced'' \<and> advertised current previous then
                   seqE (pext (ppd_proxy P)) (seqE (plog (Restore previous))
                     (contextE ''restore pre-battery profile'' (pext (set_active P previous))))
                 else returnE ())
           (seqE (set_restore None) (seqE (persist P) (returnE True)))))" for restore
    by (cases restore) (auto intro!: pres_intros power_inv_pext keeps_file_read_raw_state d f
        power_inv_plog power_inv_updates power_inv_persist)
  then show ?thesis unfolding restore_balanced_def by (intro pres_intros)
qed

lemma power_inv_external:
  assumes d: "durable reload P" shows "preserves (power_inv reload) (observe_external_selection P battery)"
proof -
  have f: "keeps_file reload (name_owner P)" using d by (simp add: durable_def)
  have o: "preserves (power_inv reload) (penv (\<lambda>e. e\<lparr>pe_owner := owner\<rparr>))" for owner
    by (rule power_inv_penv) simp_all
  show ?thesis
    unfolding observe_external_selection_def Let_def
    by (intro pres_intros power_inv_pext keeps_file_read_raw_state d f o power_inv_updates
        power_inv_drop power_inv_persist)
qed

lemmas power_inv_parts = power_inv_pext power_inv_updates power_inv_drop power_inv_persist
  power_inv_apply_profile power_inv_release power_inv_restore power_inv_external power_inv_plog
  keeps_file_read_raw_state

lemma power_inv_reconcile:
  assumes d: "durable reload P" shows "preserves (power_inv reload) (reconcile P battery)"
proof -
  have "preserves (power_inv reload) (case desired of Some profile \<Rightarrow> apply_profile P profile | None \<Rightarrow> returnE ())"
    for desired
    by (cases desired) (auto intro: pres_intros power_inv_parts d)
  then show ?thesis
    unfolding reconcile_def Let_def by (intro pres_intros power_inv_parts d)
qed

lemma power_inv_select_manual:
  assumes d: "durable reload P" shows "preserves (power_inv reload) (select_manual P profile battery)"
proof -
  have f: "keeps_file reload (ppd_proxy P)" "keeps_file reload (set_active P p)" for p
    using d by (auto simp: durable_def)
  show ?thesis
    unfolding select_manual_def Let_def
    by (intro pres_intros power_inv_parts power_inv_reconcile d f) simp_all
qed

section \<open>Operations in any order\<close>

datatype power_op =
    Attach | Detach | Reconcile BatteryState | SelectManual string BatteryState | Resume BatteryState
  | Restart_Daemon

definition power_step :: "'w ppd \<Rightarrow> 'w power_sys \<Rightarrow> power_op \<Rightarrow> 'w power_sys" where
  "power_step P s x =
     (case x of
        Attach \<Rightarrow> snd (attach P s)
      | Detach \<Rightarrow> snd (detach s)
      | Reconcile battery \<Rightarrow> snd (reconcile_battery_profile P battery s)
      | SelectManual profile battery \<Rightarrow> snd (set_profile P profile battery s)
      | Resume battery \<Rightarrow> snd (resume P battery s)
      | Restart_Daemon \<Rightarrow> s\<lparr>pe := PowerEnvelope_default\<rparr>)"

definition power_boot :: "'w \<Rightarrow> 'w power_sys" where
  "power_boot w = \<lparr>pe = PowerEnvelope_default, pw = w, pcalls = []\<rparr>"

lemma power_inv_attach:
  assumes d: "durable reload P" shows "preserves (power_inv reload) (attach P)"
proof -
  have "preserves (power_inv reload) (bindE (pext (load_runtime P)) (\<lambda>runtime.
      penv (\<lambda>e. e\<lparr>pe_runtime := runtime, pe_saved := runtime, pe_level := rt_level runtime,
                         pe_loaded := True\<rparr>)))"
  proof (rule preservesI)
    fix s assume i: "power_inv reload s"
    obtain r w where l: "load_runtime P (pw s) = (r, w)" by (cases "load_runtime P (pw s)")
    from d have "keeps_file reload (load_runtime P)" by (simp add: durable_def)
    from keeps_file_run [OF this l] have w: "reload w = reload (pw s)" .
    from d l have r: "r = Inr x \<Longrightarrow> x = reload (pw s)" for x by (auto simp: durable_def)
    show "power_inv reload (snd (bindE (pext (load_runtime P)) (\<lambda>runtime.
      penv (\<lambda>e. e\<lparr>pe_runtime := runtime, pe_saved := runtime, pe_level := rt_level runtime,
                         pe_loaded := True\<rparr>)) s))"
      using i l w r by (cases r) (auto simp: bindE_def pext_def penv_def eff_simps power_inv_def)
  qed
  moreover have "preserves (power_inv reload) (penv (\<lambda>e. e\<lparr>pe_connection := True, pe_cookie := None, pe_held := None\<rparr>))"
    by (simp add: preserves_def penv_def eff_defs power_inv_def)
  ultimately show ?thesis
    unfolding attach_def
    by (rule preserves_bindE [OF preserves_getE preserves_seqE [OF preserves_if [OF preserves_returnE]]])
qed

lemma power_inv_step:
  assumes d: "durable reload P" and i: "power_inv reload s" shows "power_inv reload (power_step P s x)"
proof -
  have e: "preserves (power_inv reload) (penv (\<lambda>s. s\<lparr>pe_status := (pe_status s)\<lparr>ba_status := ''error'',
       ba_error := Some m\<rparr>\<rparr>))" for m
    by (rule power_inv_penv) simp_all
  have b: "keeps_file reload (bus_system P)" using d by (simp add: durable_def)
  have "preserves (power_inv reload) (reconcile_battery_profile P battery)"
    "preserves (power_inv reload) (set_profile P profile battery)"
    "preserves (power_inv reload) (resume P battery)" for profile battery
    unfolding reconcile_battery_profile_def set_profile_def resume_def
    by (intro pres_intros power_inv_parts power_inv_reconcile power_inv_select_manual e d b)+
  with power_inv_attach [OF d] i show ?thesis
    by (cases x) (auto simp: power_step_def preserves_def detach_def penv_def eff_defs power_inv_def
        PowerEnvelope_default_def)
qed

lemma level_observe_stable [simp]:
  "BatteryLevel_observe (BatteryLevel_observe l b) b = BatteryLevel_observe l b"
  by (auto simp: BatteryLevel_observe_def Let_def)

section \<open>A paused automation\<close>

fun automatic :: "ppd_call \<Rightarrow> bool" where
  "automatic (Hold p) = True"
| "automatic (SetActive p) = True"
| "automatic _ = False"

definition paused :: "BatteryState \<Rightarrow> ppd_call list \<Rightarrow> 'w power_sys \<Rightarrow> bool" where
  "paused battery base s \<longleftrightarrow> rt_manual_override (pe_runtime (pe s)) \<and> pe_level (pe s) \<noteq> Normal
     \<and> BatteryLevel_observe (pe_level (pe s)) battery \<noteq> Normal
     \<and> filter automatic (map fst (pcalls s)) = base"

lemma paused_pext: "preserves (paused battery base) (pext m)"
  by (auto simp: preserves_def pext_def paused_def split: prod.splits)

lemma paused_penv:
  assumes "\<And>e. rt_manual_override (pe_runtime e) \<Longrightarrow> rt_manual_override (pe_runtime (f e))"
    "\<And>e. pe_level (f e) = pe_level e"
  shows "preserves (paused battery base) (penv f)"
  using assms by (simp add: preserves_def penv_def eff_defs paused_def)

lemma paused_updates:
  "preserves (paused battery base) (set_status st)" "preserves (paused battery base) (set_restore p)"
  "preserves (paused battery base) (set_override True)" "preserves (paused battery base) drop_hold"
  "preserves (paused battery base) (penv (\<lambda>e. e\<lparr>pe_owner := owner\<rparr>))"
  "preserves (paused battery base) (penv (\<lambda>e. e\<lparr>pe_saved := pe_runtime e\<rparr>))"
  unfolding set_status_def set_restore_def set_override_def drop_hold_def
  by (rule paused_penv; simp)+

lemma paused_observe: "preserves (paused battery base) (penv (envelope_observe battery))"
  by (auto simp: preserves_def penv_def eff_defs paused_def envelope_observe_def Let_def)

lemma paused_plog: "\<not> automatic c \<Longrightarrow> preserves (paused battery base) (plog c)"
  by (simp add: preserves_def plog_def eff_defs paused_def)

lemma paused_persist: "preserves (paused battery base) (persist P)"
  unfolding persist_def by (intro pres_intros paused_pext paused_updates)

lemma paused_external: "preserves (paused battery base) (observe_external_selection P battery)"
proof -
  let ?k = "\<lambda>current self.
      seqE (if pe_cookie self \<noteq> None \<and> \<not> has_own_hold current then drop_hold else returnE ())
      (seqE (if rt_balanced_restore (pe_runtime self) \<noteq> None
            \<and> pps_profile current \<noteq> ''balanced'' \<and> pps_holds current = [] then set_restore None else returnE ())
      (if pe_cookie self \<noteq> None \<and> \<not> has_own_hold current \<or> rt_balanced_restore (pe_runtime self) \<noteq> None
            \<and> pps_profile current \<noteq> ''balanced'' \<and> pps_holds current = [] then
         seqE (set_override (pe_level self \<noteq> Normal))
         (seqE (persist P) (penv (envelope_observe battery)))
       else returnE ()))"
  have "preserves (paused battery base) (bindE (getE pe) (?k current))" for current
  proof (rule preserves_get)
    fix s :: "'a power_sys" assume "paused battery base s"
    then have "pe_level (pe s) \<noteq> Normal" by (simp add: paused_def)
    then have "preserves (paused battery base) (set_override (pe_level (pe s) \<noteq> Normal) :: ('a power_sys, unit) eff)"
      using paused_updates(3) by simp
    then show "preserves (paused battery base) (?k current (pe s))"
      by (intro pres_intros paused_updates(1,2,4-6) paused_persist paused_observe)
  qed
  note rest = preserves_bindE [OF paused_pext this]
  have "preserves (paused battery base) (if is_bus P then
             bindE (pext (name_owner P)) (\<lambda>owner.
             bindE (getE (\<lambda>s. pe_owner (pe s))) (\<lambda>known.
             if known \<noteq> owner then seqE (penv (\<lambda>e. e\<lparr>pe_owner := owner\<rparr>)) drop_hold else returnE ()))
           else returnE ())"
    by (intro pres_intros paused_pext paused_updates)
  from preserves_seqE [OF this rest] show ?thesis
    unfolding observe_external_selection_def Let_def .
qed

lemma paused_release: "preserves (paused battery base) (release P)"
proof -
  have "preserves (paused battery base) (case cookie of None \<Rightarrow> returnE ()
     | Some c \<Rightarrow> bindE (pext (read_raw_state P)) (\<lambda>current.
         seqE (if has_own_hold current then
                 seqE (pext (ppd_proxy P)) (seqE (plog (Release c))
                   (contextE ''release battery-level power profile'' (pext (call_release P c))))
               else returnE ()) drop_hold))" for cookie
    by (cases cookie) (auto intro!: pres_intros paused_pext paused_plog paused_updates)
  then show ?thesis unfolding release_def by (intro pres_intros)
qed

lemma paused_restore: "preserves (paused battery base) (restore_balanced P)"
proof -
  have "preserves (paused battery base) (case restore of None \<Rightarrow> returnE True
     | Some previous \<Rightarrow> bindE (pext (read_raw_state P)) (\<lambda>current.
         if pps_holds current \<noteq> [] then returnE False
         else seqE (if pps_profile current = ''balanced'' \<and> advertised current previous then
                   seqE (pext (ppd_proxy P)) (seqE (plog (Restore previous))
                     (contextE ''restore pre-battery profile'' (pext (set_active P previous))))
                 else returnE ())
           (seqE (set_restore None) (seqE (persist P) (returnE True)))))" for restore
    by (cases restore) (auto intro!: pres_intros paused_pext paused_plog paused_updates paused_persist)
  then show ?thesis unfolding restore_balanced_def by (intro pres_intros)
qed

lemma paused_reconcile: "preserves (paused battery base) (reconcile P battery)"
proof -
  let ?k = "\<lambda>self. let desired = desired_profile battery self in
            seqE (if pe_held self \<noteq> desired then release P else returnE ())
            (bindE (if desired \<noteq> Some ''balanced'' then restore_balanced P else returnE True) (\<lambda>clear.
             if \<not> clear then set_status ''blocked''
             else case desired of Some profile \<Rightarrow> apply_profile P profile | None \<Rightarrow> returnE ()))"
  have k: "preserves (paused battery base) (bindE (getE pe) ?k)"
  proof (rule preserves_get)
    fix s :: "'a power_sys" assume "paused battery base s"
    then have "desired_profile battery (pe s) = None" by (simp add: paused_def desired_profile_def)
    then show "preserves (paused battery base) (?k (pe s))"
      by (simp add: Let_def cong: if_cong split del: if_split)
        (intro pres_intros paused_release paused_restore paused_updates)
  qed
  show ?thesis
    unfolding reconcile_def
    by (intro preserves_seqE preserves_if preserves_returnE paused_observe paused_persist
        preserves_bindE [OF preserves_getE] paused_updates paused_external k)
qed

lemma penv_seq: "seqE (penv f) n s = n (s\<lparr>pe := f (pe s)\<rparr>)"
  by (simp add: seqE_def bindE_def penv_def eff_simps)

lemma envelope_observe_idem [simp]:
  "envelope_observe battery (envelope_observe battery e) = envelope_observe battery e"
  using level_observe_stable [of "pe_level e" battery]
  by (cases "bat_available battery"; cases "BatteryLevel_observe (pe_level e) battery = Normal";
      cases "pe_level e = Normal") (simp_all add: envelope_observe_def Let_def)

lemma release_Ok:
  assumes "release P s = (Inr (), t)"
  shows "pe_cookie (pe t) = None \<and> pe_runtime (pe t) = pe_runtime (pe s) \<and> pe_saved (pe t) = pe_saved (pe s)
    \<and> pe_level (pe t) = pe_level (pe s) \<and> pe_loaded (pe t) = pe_loaded (pe s)"
proof (cases "pe_cookie (pe s)")
  case None
  with assms show ?thesis by (auto simp: release_def bindE_def eff_simps)
next
  case (Some c)
  with assms show ?thesis
    by (auto simp: release_def bindE_eq_Ok seqE_eq_Ok eff_simps drop_hold_def penv_def plog_def pext_def
        split: if_splits prod.splits)
qed

lemma pext_Ok: "pext m s = (Inr x, t) \<Longrightarrow> pe t = pe s \<and> pcalls t = pcalls s"
  by (auto simp: pext_def split: prod.splits)

lemma catch_throw:
  assumes "catchE m (\<lambda>e. seqE a (throwE e)) s = (Inr x, t)"
  shows "m s = (Inr x, t)"
  using assms by (auto simp: catchE_def seqE_def bindE_def throwE_def split: prod.splits sum.splits)

lemma catch_throws:
  assumes "catchE m (\<lambda>e. seqE (a e) (seqE b (seqE (c e) (throwE (f e))))) s = (Inr x, t)"
  shows "m s = (Inr x, t)"
  using assms by (auto simp: catchE_def seqE_def bindE_def throwE_def split: prod.splits sum.splits)

lemma select_manual_Ok:
  assumes "select_manual P profile battery s = (Inr (), t)"
  shows "\<exists>current s1 s3 s4 s5 s6. pext (read_raw_state P) s = (Inr current, s1)
    \<and> profile \<in> set MANUAL_PROFILES \<and> pe_loaded (pe s)
    \<and> s3 = s1\<lparr>pe := (envelope_observe battery (pe s1))\<lparr>pe_runtime := (pe_runtime (envelope_observe battery (pe s1)))
        \<lparr>rt_manual_override := pe_level (envelope_observe battery (pe s1)) \<noteq> Normal\<rparr>\<rparr>\<rparr>
    \<and> persist P s3 = (Inr (), s4)
    \<and> seqE (release P) (seqE (pext (ppd_proxy P)) (seqE (plog (ManualSetActive profile))
           (contextE ''set active power profile'' (pext (set_active P profile))))) s4 = (Inr (), s5)
    \<and> persist P (s5\<lparr>pe := (pe s5)\<lparr>pe_runtime := (pe_runtime (pe s5))\<lparr>rt_balanced_restore := None\<rparr>\<rparr>\<rparr>)
        = (Inr (), s6)
    \<and> t = s6\<lparr>pe := envelope_observe battery (pe s6)\<rparr>"
  using assms unfolding select_manual_def Let_def
  by (auto simp: bindE_eq_Ok seqE_eq_Ok eff_simps penv_def set_override_def set_restore_def
      dest!: catch_throws catch_throw)

lemma envelope_observe_fields [simp]:
  "pe_level (envelope_observe b e) = (if bat_available b then BatteryLevel_observe (pe_level e) b else pe_level e)"
  "pe_cookie (envelope_observe b e) = pe_cookie e" "pe_held (envelope_observe b e) = pe_held e"
  "pe_saved (envelope_observe b e) = pe_saved e" "pe_loaded (envelope_observe b e) = pe_loaded e"
  by (simp_all add: envelope_observe_def Let_def)

section \<open>Properties\<close>


text \<open>A service whose world is its active profile and the daemon's state file.\<close>

definition plain_ppd :: "(string \<times> Runtime) ppd" where
  "plain_ppd = \<lparr>load_runtime = (\<lambda>w. (Inr (snd w), w)), save_runtime = (\<lambda>r w. (Inr (), (fst w, r))),
     bus_system = returnE (), is_bus = False, name_owner = returnE [], ppd_proxy = returnE (),
     prop_active_profile = (\<lambda>w. (Inr (fst w), w)),
     prop_profiles = returnE [[''Profile'' \<mapsto> VStr ''power-saver''], [''Profile'' \<mapsto> VStr ''balanced''],
       [''Profile'' \<mapsto> VStr ''performance'']],
     prop_actions_info = returnE [], prop_actions = returnE [], prop_holds = returnE [],
     prop_degraded = returnE [], prop_version = returnE [], prop_battery_aware = returnE False,
     call_hold = (\<lambda>p why. returnE 1), call_release = (\<lambda>_. returnE ()),
     set_active = (\<lambda>p w. (Inr (), (p, snd w)))\<rparr>"

lemma durable_plain: "durable snd plain_ppd"
  by (simp add: durable_def plain_ppd_def keeps_file_def eff_defs)

definition low_battery :: BatteryState where
  "low_battery = BatteryState_default\<lparr>bat_available := True, percentage := 20, plugged := False,
     bat_policy := BatteryPolicyState_default\<lparr>warning_profile := Balanced\<rparr>\<rparr>"

lemma plain_raw:
  "read_raw_state plain_ppd w = (Inr \<lparr>pps_available = True, pps_profile = fst w, pps_driver = [],
     pps_profiles = map (\<lambda>n. \<lparr>pp_name = n, pp_driver = [], pp_platform_driver = []\<rparr>) MANUAL_PROFILES,
     pps_next_manual = next_manual_profile \<lparr>pps_available = True, pps_profile = fst w, pps_driver = [],
       pps_profiles = map (\<lambda>n. \<lparr>pp_name = n, pp_driver = [], pp_platform_driver = []\<rparr>) MANUAL_PROFILES,
       pps_next_manual = None, pps_degraded = [], pps_version = [], pps_battery_aware = Some False,
       pps_actions = [], pps_holds = [], pps_automation = BatteryAutomationState_default, pps_error = None\<rparr>,
     pps_degraded = [], pps_version = [], pps_battery_aware = Some False,
     pps_actions = [], pps_holds = [], pps_automation = BatteryAutomationState_default, pps_error = None\<rparr>, w)"
  by (simp add: read_raw_state_def plain_ppd_def bindE_def seqE_def contextE_def map_errE_def
      or_default_def catchE_def attemptE_def eff_simps Let_def parse_profile_def property_string_def
      unwrap_or_def MANUAL_PROFILES_def map_filter_def)

lemmas power_eval = power_step_def attach_def reconcile_battery_profile_def reconcile_def
  observe_external_selection_def release_def restore_balanced_def apply_profile_def apply_balanced_def
  persist_def desired_profile_def envelope_observe_def set_restore_def set_override_def set_status_def
  drop_hold_def pext_def penv_def plog_def bindE_def seqE_def contextE_def map_errE_def catchE_def
  eff_simps Let_def plain_raw power_boot_def PowerEnvelope_default_def Runtime_default_def
  BatteryAutomationState_default_def BatteryLevel_observe_def BatteryPolicyState_default_def
  recovered_def unwrap_or_def advertised_def MANUAL_PROFILES_def has_own_hold_def

lemma plain_simps [simp]:
  "load_runtime plain_ppd w = (Inr (snd w), w)" "save_runtime plain_ppd r w = (Inr (), (fst w, r))"
  "is_bus plain_ppd = False" "ppd_proxy plain_ppd w = (Inr (), w)"
  "set_active plain_ppd p w = (Inr (), (p, snd w))" "bus_system plain_ppd w = (Inr (), w)"
  "call_release plain_ppd c w = (Inr (), w)" "call_hold plain_ppd p y w = (Inr 1, w)"
  by (simp_all add: plain_ppd_def eff_simps)


text \<open>
  A paused automation changes no profile. While a manual selection overrides the automation and
  the observed battery level is still low or critical, a reconciliation, whatever the service answers,
  requests no hold and no switch to balanced, and the override stays.
\<close>

theorem paused_automation_is_inert:
  assumes "rt_manual_override (pe_runtime (pe s))" "bat_available battery"
    and "BatteryLevel_observe (pe_level (pe s)) battery \<noteq> Normal"
    and "reconcile P battery s = (r, t)"
  shows "filter automatic (map fst (pcalls t)) = filter automatic (map fst (pcalls s))
    \<and> rt_manual_override (pe_runtime (pe t))"
proof -
  let ?base = "filter automatic (map fst (pcalls s))"
  let ?s = "snd (penv (envelope_observe battery) s)"
  have p: "paused battery ?base ?s"
    using assms(1-3) by (simp add: paused_def penv_def eff_defs envelope_observe_def Let_def)
  have "reconcile P battery ?s = reconcile P battery s"
    by (simp add: reconcile_def penv_seq) (simp add: penv_def eff_simps)
  with preservesD [OF paused_reconcile p, of P] assms(4) show ?thesis
    by (simp add: paused_def)
qed

theorem paused_automation_is_inert_witness:
  "rt_manual_override (pe_runtime (pe (snd (reconcile plain_ppd low_battery
     (power_boot (''performance'', Runtime_default)\<lparr>pe := PowerEnvelope_default\<lparr>pe_connection := True,
        pe_runtime := Runtime_default\<lparr>rt_manual_override := True\<rparr>\<rparr>\<rparr>)))))"
proof -
  let ?s = "power_boot (''performance'', Runtime_default)\<lparr>pe := PowerEnvelope_default\<lparr>pe_connection := True,
        pe_runtime := Runtime_default\<lparr>rt_manual_override := True\<rparr>\<rparr>\<rparr>"
  obtain r t where run: "reconcile plain_ppd low_battery ?s = (r, t)"
    by (cases "reconcile plain_ppd low_battery ?s")
  have "rt_manual_override (pe_runtime (pe ?s))" "bat_available low_battery"
    "BatteryLevel_observe (pe_level (pe ?s)) low_battery \<noteq> Normal"
    by (simp_all add: low_battery_def PowerEnvelope_default_def BatteryLevel_observe_def
        BatteryPolicyState_default_def recovered_def)
  from paused_automation_is_inert [OF this run] run show ?thesis by simp
qed

text \<open>
  A manual profile selection that succeeds is durable and final: the profile is a supported one
  the service advertised, the pause was in the record on disk before the service was asked to switch,
  no hold of the automation remains, and the record left on disk has the pause exactly while the
  battery level is not normal and no profile to restore.
\<close>

theorem manual_selection_final:
  assumes "durable reload P" "power_inv reload s" "select_manual P profile battery s = (Inr (), t)"
  shows "profile \<in> set MANUAL_PROFILES \<and> pe_cookie (pe t) = None \<and> pe_held (pe t) = None
    \<and> rt_balanced_restore (reload (pw t)) = None
    \<and> (\<exists>saved. (ManualSetActive profile, saved) \<in> set (pcalls t)
         \<and> rt_manual_override saved = rt_manual_override (reload (pw t)))
    \<and> (bat_available battery \<longrightarrow> rt_manual_override (reload (pw t)) = (pe_level (pe t) \<noteq> Normal))"
proof -
  let ?obs = "envelope_observe battery"
  from assms(3) obtain current s1 s3 s4 s5 s6 where
    1: "pext (read_raw_state P) s = (Inr current, s1)" and pr: "profile \<in> set MANUAL_PROFILES"
    and ld: "pe_loaded (pe s)"
    and 3: "s3 = s1\<lparr>pe := (?obs (pe s1))\<lparr>pe_runtime := (pe_runtime (?obs (pe s1)))
        \<lparr>rt_manual_override := pe_level (?obs (pe s1)) \<noteq> Normal\<rparr>\<rparr>\<rparr>"
    and 4: "persist P s3 = (Inr (), s4)"
    and 5: "seqE (release P) (seqE (pext (ppd_proxy P)) (seqE (plog (ManualSetActive profile))
           (contextE ''set active power profile'' (pext (set_active P profile))))) s4 = (Inr (), s5)"
    and 6: "persist P (s5\<lparr>pe := (pe s5)\<lparr>pe_runtime := (pe_runtime (pe s5))\<lparr>rt_balanced_restore := None\<rparr>\<rparr>\<rparr>)
        = (Inr (), s6)"
    and t: "t = s6\<lparr>pe := ?obs (pe s6)\<rparr>"
    using select_manual_Ok [OF assms(3)] by blast
  note i1 = pext_Ok [OF 1]
  from 4 assms(1) have s4: "pe_saved (pe s4) = pe_runtime (pe s3)" "pe_runtime (pe s4) = pe_runtime (pe s3)"
    "pe_level (pe s4) = pe_level (pe s3)"
    by (cases rule: persist_cases; simp)+
  from 5 obtain u where rel: "release P s4 = (Inr (), u)"
    and s5: "pe s5 = pe u" "pcalls s5 = pcalls u @ [(ManualSetActive profile, pe_saved (pe u))]"
    by (auto simp: seqE_eq_Ok plog_def eff_simps dest!: pext_Ok)
  note rel = release_Ok [OF rel]
  from 6 assms(1) have s6: "pe s6 = (pe s5)\<lparr>pe_runtime := (pe_runtime (pe s5))\<lparr>rt_balanced_restore := None\<rparr>,
      pe_saved := (pe_runtime (pe s5))\<lparr>rt_balanced_restore := None\<rparr>\<rparr>" "pcalls s6 = pcalls s5"
    by (cases rule: persist_cases; simp)+
  have inv: "power_inv reload t"
    using preservesD [OF power_inv_select_manual [OF assms(1)] assms(2), of profile battery] assms(3) by simp
  have "pe_loaded (pe s4)"
    using 4 assms(1) by (cases rule: persist_cases) (use ld i1 3 in simp_all)
  then have "pe_loaded (pe t)" using t s6 s5 rel by simp
  with inv have disk: "reload (pw t) = pe_saved (pe t)" by (simp add: power_inv_def)
  have "pe_saved (pe t) = (pe_runtime (pe s3))\<lparr>rt_balanced_restore := None\<rparr>"
    using t s6 s5 rel s4 by simp
  moreover have "pe_cookie (pe t) = None" using t s6 s5 rel by simp
  moreover have "bat_available battery \<Longrightarrow> pe_level (pe t) = pe_level (?obs (pe s1))"
    using t s6 s5 rel s4 3 by simp
  moreover have "(ManualSetActive profile, pe_runtime (pe s3)) \<in> set (pcalls t)"
    using t s6 s5 rel s4 by simp
  moreover have "rt_manual_override (pe_runtime (pe s3)) = (pe_level (?obs (pe s1)) \<noteq> Normal)"
    using 3 by simp
  moreover have "pe_held (pe t) = None" using inv \<open>pe_cookie (pe t) = None\<close> by (simp add: power_inv_def)
  ultimately show ?thesis
    using disk pr by auto
qed

theorem manual_selection_final_witness:
  "rt_balanced_restore (snd (pw (snd (select_manual plain_ppd ''performance'' low_battery
     (run (power_step plain_ppd) (power_boot (''power-saver'', Runtime_default)) [Attach, Reconcile low_battery])))))
     = None"
proof -
  let ?s = "run (power_step plain_ppd) (power_boot (''power-saver'', Runtime_default)) [Attach, Reconcile low_battery]"
  have b: "power_inv snd (power_boot (''power-saver'', Runtime_default))"
    by (simp add: power_inv_def power_boot_def PowerEnvelope_default_def calls_ok_def)
  have i: "power_inv snd ?s"
    using power_inv_step [OF durable_plain power_inv_step [OF durable_plain b]] by simp
  obtain r t where run: "select_manual plain_ppd ''performance'' low_battery ?s = (r, t)"
    by (cases "select_manual plain_ppd ''performance'' low_battery ?s")
  have "is_ok (fst (select_manual plain_ppd ''performance'' low_battery ?s))"
    by (simp add: select_manual_def power_eval low_battery_def)
  with run have "select_manual plain_ppd ''performance'' low_battery ?s = (Inr (), t)" by (cases r) simp_all
  from manual_selection_final [OF durable_plain i this] run show ?thesis by simp
qed

end
