(* ===== verification/Display_Planner.thy ===== *)
theory Display_Planner
  imports Prelude "HOL-Library.Multiset"
begin

text \<open>
  Automatic docking: outputs, the settle planner of \<open>display_policy/planner.rs\<close>, the reconciliation of
  \<open>display_policy.rs\<close> that carries a plan out, and the observed transition of
  \<open>display_policy/transition.rs\<close>. Instants are milliseconds; a difference of instants is zero when the
  later one is not later. A sorted list of signatures is its multiset. The compositor, the session and
  the store's sleep fields are the fields of \<open>backend\<close>.
\<close>

section \<open>Outputs\<close>

record Output =
  out_id :: int
  out_name :: string
  out_description :: string
  out_width :: nat
  out_height :: nat
  out_disabled :: bool
  out_focused :: bool
  out_scale :: f64
  out_refresh_rate :: f64
  out_x :: int
  out_y :: int
  out_transform :: nat
  available_modes :: "string list"
  mirror_of :: string

definition show_int :: "int \<Rightarrow> string" where
  "show_int n = (if n < 0 then ''-'' @ show_nat (nat (- n)) else show_nat (nat n))"

definition internal :: "Output \<Rightarrow> bool" where
  "internal self = list_ex (\<lambda>p. starts_with p (out_name self)) [''eDP-'', ''LVDS-'', ''DSI-'']"

definition external :: "Output \<Rightarrow> bool" where
  "external self = list_ex (\<lambda>p. starts_with p (out_name self)) [''DP-'', ''HDMI-A-'']"

definition active :: "Output \<Rightarrow> bool" where
  "active self \<longleftrightarrow> \<not> out_disabled self \<and> out_width self > 0 \<and> out_height self > 0"

definition mirrored :: "Output \<Rightarrow> bool" where
  "mirrored self \<longleftrightarrow> mirror_of self \<noteq> [] \<and> mirror_of self \<noteq> ''none'' \<and> mirror_of self \<noteq> ''-1''"

definition mirror_source :: "Output list \<Rightarrow> Output \<Rightarrow> Output option" where
  "mirror_source outputs self =
     (if mirrored self
      then find (\<lambda>o'. out_name o' = mirror_of self \<or> show_int (out_id o') = mirror_of self) outputs
      else None)"

definition has_active_mirrors :: "Output list \<Rightarrow> Output \<Rightarrow> bool" where
  "has_active_mirrors outputs self =
     list_ex (\<lambda>output. active output
       \<and> (case mirror_source outputs output of Some source \<Rightarrow> out_name source = out_name self | None \<Rightarrow> False))
       outputs"

definition usable :: "Output \<Rightarrow> bool" where
  "usable self \<longleftrightarrow> active self \<and> \<not> mirrored self"

datatype Rule = RuleDisable | RuleEnable f64

definition Output_command :: "bool \<Rightarrow> Output \<Rightarrow> (string \<times> Rule) result" where
  "Output_command disable self =
     (if \<not> internal self \<or> \<not> list_all (\<lambda>c. ascii_alnum c \<or> c = CHR ''-'') (out_name self)
      then Err (err ''invalid internal connector name'')
      else if disable then Ok (out_name self, RuleDisable)
      else if \<not> f64_finite (out_scale self) \<or> \<not> f64_in (1 / 4) 8 (out_scale self)
      then Err (err ''invalid internal display scale'')
      else Ok (out_name self, RuleEnable (out_scale self)))"

section \<open>Planner\<close>

type_synonym Signature = "string \<times> int \<times> nat \<times> nat \<times> f64 \<times> f64"

definition Signature_of :: "Output \<Rightarrow> Signature" where
  "Signature_of self = (out_name self, out_id self, out_width self, out_height self, out_scale self,
     out_refresh_rate self)"

definition external_signature :: "Output list \<Rightarrow> Signature multiset" where
  "external_signature outputs =
     mset (map Signature_of (filter (\<lambda>o'. external o' \<and> usable o') outputs))"

definition SETTLE :: nat where "SETTLE = 5000"
definition MAX_OBSERVATION_GAP :: nat where "MAX_OBSERVATION_GAP = 6000"

record Plan =
  disable_internal :: bool
  plan_targets :: "Output list"
  plan_status :: string
  plan_external :: "Signature multiset"
  plan_internal :: "Output list"

definition Plan_observed :: "Plan \<Rightarrow> Output list \<Rightarrow> bool" where
  "Plan_observed self current \<longleftrightarrow>
     external_signature current = plan_external self
     \<and> length (filter internal current) = length (plan_internal self)
     \<and> list_all (\<lambda>previous. list_ex (\<lambda>o'. out_name o' = out_name previous \<and> out_id o' = out_id previous
          \<and> (if disable_internal self then out_disabled o' else active o')) current) (plan_internal self)
     \<and> (plan_internal self = [] \<or> list_ex usable current)"

definition Plan_validate_disable :: "Plan \<Rightarrow> Output \<Rightarrow> Output list \<Rightarrow> unit result" where
  "Plan_validate_disable self target current =
     (if external_signature current \<noteq> plan_external self
         \<or> \<not> list_ex (\<lambda>o'. out_name o' = out_name target \<and> out_id o' = out_id target) current
         \<or> has_active_mirrors current target
      then Err (err ''display topology changed before disabling the laptop screen; keeping the fallback'')
      else Ok ())"

record Planner =
  candidate :: "(Signature multiset \<times> nat) option"
  last_observation :: "nat option"

definition Planner_reset :: Planner where
  "Planner_reset = \<lparr>candidate = None, last_observation = None\<rparr>"

text \<open>The settle decision of a plan, and the planner it leaves.\<close>

definition Planner_decide ::
  "bool \<Rightarrow> Signature multiset \<Rightarrow> nat \<Rightarrow> Planner \<Rightarrow> (bool \<times> string) \<times> Planner" where
  "Planner_decide prefer_external ext now self =
     (if \<not> prefer_external then ((False, ''all-displays''), self\<lparr>candidate := None\<rparr>)
      else if ext = {#} then ((False, ''internal''), self\<lparr>candidate := None\<rparr>)
      else
        let (previous, since) = (case candidate self of Some c \<Rightarrow> c | None \<Rightarrow> (ext, now));
            since = (if previous \<noteq> ext then now else since) in
        (if now - since \<ge> SETTLE then (True, ''external'') else (False, ''settling''),
         self\<lparr>candidate := Some (ext, since)\<rparr>))"

definition target_of :: "bool \<Rightarrow> Output list \<Rightarrow> Output \<Rightarrow> bool" where
  "target_of disable outputs o' \<longleftrightarrow> internal o' \<and>
     (if disable then usable o' \<and> \<not> has_active_mirrors outputs o'
      else \<not> active o' \<or> (mirrored o' \<and> \<not> list_ex usable outputs))"

definition Planner_plan :: "bool \<Rightarrow> Output list \<Rightarrow> nat \<Rightarrow> Planner \<Rightarrow> Plan \<times> Planner" where
  "Planner_plan prefer_external outputs now self0 =
     (let self = (if (case last_observation self0 of Some p \<Rightarrow> now - p > MAX_OBSERVATION_GAP | None \<Rightarrow> False)
                  then Planner_reset else self0);
          self = self\<lparr>last_observation := Some now\<rparr>;
          ext = external_signature outputs in
      case Planner_decide prefer_external ext now self of ((disable, status), self) \<Rightarrow>
      (\<lparr>disable_internal = disable, plan_targets = filter (target_of disable outputs) outputs,
        plan_status = status, plan_external = ext, plan_internal = filter internal outputs\<rparr>, self))"

section \<open>Reconciliation\<close>

record 'w backend =
  be_eligible :: "('w, unit) eff"
  be_outputs :: "('w, Output list) eff"
  be_apply :: "Output \<Rightarrow> bool \<Rightarrow> ('w, unit) eff"
  be_preparing :: "'w \<Rightarrow> bool"
  be_generation :: "'w \<Rightarrow> nat"

datatype display_event = Snapshot "Output list" | Applied Output bool

record 'w display_sys =
  dplanner :: Planner
  dworld :: 'w
  dlog :: "display_event list"

definition dext :: "('w, 'a) eff \<Rightarrow> ('w display_sys, 'a) eff" where
  "dext m s = (case m (dworld s) of (r, w) \<Rightarrow> (r, s\<lparr>dworld := w\<rparr>))"

definition read_outputs :: "'w backend \<Rightarrow> ('w display_sys, Output list) eff" where
  "read_outputs B = bindE (dext (be_outputs B)) (\<lambda>outputs.
     seqE (modifyE (\<lambda>s. s\<lparr>dlog := dlog s @ [Snapshot outputs]\<rparr>)) (returnE outputs))"

definition apply_output :: "'w backend \<Rightarrow> Output \<Rightarrow> bool \<Rightarrow> ('w display_sys, unit) eff" where
  "apply_output B target disable =
     seqE (modifyE (\<lambda>s. s\<lparr>dlog := dlog s @ [Applied target disable]\<rparr>)) (dext (be_apply B target disable))"

definition sleep_interrupted :: "'w backend \<Rightarrow> nat \<Rightarrow> 'w display_sys \<Rightarrow> bool" where
  "sleep_interrupted B generation s \<longleftrightarrow>
     be_preparing B (dworld s) \<or> be_generation B (dworld s) \<noteq> generation"

record Reconciled =
  rc_status :: string
  rc_outputs :: "Output list option"

definition apply_target :: "'w backend \<Rightarrow> Plan \<Rightarrow> nat \<Rightarrow> Output \<Rightarrow> ('w display_sys, unit) eff" where
  "apply_target B plan generation target =
     seqE (if disable_internal plan then
             seqE (dext (be_eligible B)) (bindE (read_outputs B) (\<lambda>current.
               liftE (Plan_validate_disable plan target current)))
           else returnE ())
     (bindE (getE (sleep_interrupted B generation)) (\<lambda>interrupted.
      if interrupted then throwE (err ''sleep transition interrupted display reconciliation'')
      else apply_output B target (disable_internal plan)))"

definition set_planner :: "Planner \<Rightarrow> ('w display_sys, unit) eff" where
  "set_planner p = modifyE (\<lambda>s. s\<lparr>dplanner := p\<rparr>)"

definition display_reconcile ::
  "'w backend \<Rightarrow> bool \<Rightarrow> bool \<Rightarrow> nat \<Rightarrow> ('w display_sys, Reconciled) eff" where
  "display_reconcile B prefer_external preserve_enablement now =
     bindE (getE (\<lambda>s. (be_preparing B (dworld s), be_generation B (dworld s)))) (\<lambda>(preparing, generation).
     if preparing then
       seqE (set_planner Planner_reset) (returnE \<lparr>rc_status = ''sleeping'', rc_outputs = None\<rparr>)
     else
       seqE (dext (be_eligible B))
       (bindE (read_outputs B) (\<lambda>outputs.
        if preserve_enablement \<and> list_ex usable outputs then
          seqE (set_planner Planner_reset) (returnE \<lparr>rc_status = ''layout'', rc_outputs = Some outputs\<rparr>)
        else
          bindE (getE (\<lambda>s. Planner_plan prefer_external outputs now (dplanner s))) (\<lambda>(plan, planner).
          seqE (set_planner planner)
          (seqE (forE (apply_target B plan generation) (plan_targets plan))
          (bindE (read_outputs B) (\<lambda>observed.
           bindE (getE (sleep_interrupted B generation)) (\<lambda>interrupted.
           if interrupted then throwE (err ''sleep transition interrupted display reconciliation'')
           else returnE \<lparr>rc_status = (if Plan_observed plan observed then plan_status plan else ''pending''),
                  rc_outputs = Some observed\<rparr>))))))))"

section \<open>Transition\<close>

datatype DockingState = Applying | Settled | Failed

definition APPLY_TIMEOUT :: nat where "APPLY_TIMEOUT = 20000"

text \<open>The fields of the published display state that the transition reads and writes.\<close>

record docking =
  dk_state :: DockingState
  dk_status :: string
  dk_error :: "string option"
  dk_manual_enablement :: bool
  dk_trial :: bool

definition Transition_fail :: "string \<Rightarrow> docking \<Rightarrow> nat option \<times> docking" where
  "Transition_fail message state =
     (None, state\<lparr>dk_state := Failed, dk_status := ''error'', dk_error := Some message\<rparr>)"

definition Transition_update ::
  "nat option \<Rightarrow> docking \<Rightarrow> string result \<Rightarrow> nat \<Rightarrow> nat option \<times> docking" where
  "Transition_update started state0 res now =
     (let state = (if dk_manual_enablement state0 \<and> \<not> dk_trial state0
                   then state0\<lparr>dk_state := Settled\<rparr> else state0) in
      case res of
        Inl e \<Rightarrow> Transition_fail (err_chain e) state
      | Inr status \<Rightarrow>
        if dk_state state = Failed then (None, state)
        else
          let state = state\<lparr>dk_status := status, dk_error := None\<rparr> in
          if status = ''sleeping'' then (None, state)
          else if \<not> dk_manual_enablement state \<and> \<not> dk_trial state
              \<and> status \<in> {''pending'', ''settling'', ''layout-preview''} then
            let s = (case started of Some s \<Rightarrow> s | None \<Rightarrow> now) in
            if now - s \<ge> APPLY_TIMEOUT then
              Transition_fail ''Docking change was not observed within 20 seconds. Save the docking preference again to retry, or preview a manual layout.'' state
            else (Some s, state\<lparr>dk_state := Applying\<rparr>)
          else (None, state\<lparr>dk_state := Settled\<rparr>))"

section \<open>The settle history\<close>

text \<open>Operations on a planner: an observation, or a reset after sleep, failure or a manual layout.\<close>

datatype planner_op = Observe_Outputs bool "Output list" nat | Reset_Planner

definition planner_step :: "Planner \<Rightarrow> planner_op \<Rightarrow> Planner" where
  "planner_step p x = (case x of
      Observe_Outputs prefer outputs now \<Rightarrow> snd (Planner_plan prefer outputs now p)
    | Reset_Planner \<Rightarrow> Planner_reset)"

text \<open>A run of observations of the same externals with no gap longer than the allowed one.\<close>

fun op_time :: "planner_op \<Rightarrow> nat" where
  "op_time (Observe_Outputs prefer outputs now) = now"
| "op_time Reset_Planner = 0"

fun op_sees :: "Signature multiset \<Rightarrow> planner_op \<Rightarrow> bool" where
  "op_sees ext (Observe_Outputs prefer outputs now) \<longleftrightarrow> prefer \<and> external_signature outputs = ext"
| "op_sees ext Reset_Planner \<longleftrightarrow> False"

fun no_gap :: "planner_op list \<Rightarrow> bool" where
  "no_gap (x # y # ys) \<longleftrightarrow> op_time y - op_time x \<le> MAX_OBSERVATION_GAP \<and> no_gap (y # ys)"
| "no_gap _ = True"

definition steady :: "planner_op list \<Rightarrow> Signature multiset \<Rightarrow> nat \<Rightarrow> nat \<Rightarrow> bool" where
  "steady seg ext since now \<longleftrightarrow> seg \<noteq> [] \<and> list_all (op_sees ext) seg \<and> no_gap seg \<and> ext \<noteq> {#}
     \<and> op_time (hd seg) = since \<and> op_time (last seg) = now"

definition planner_inv :: "planner_op list \<Rightarrow> Planner \<Rightarrow> bool" where
  "planner_inv hist p \<longleftrightarrow> (\<forall>ext since. candidate p = Some (ext, since) \<longrightarrow>
     (\<exists>pre seg now. hist = pre @ seg \<and> last_observation p = Some now \<and> steady seg ext since now))"

lemma no_gap_snoc:
  "no_gap (xs @ [y]) \<longleftrightarrow> no_gap xs \<and> (xs = [] \<or> op_time y - op_time (last xs) \<le> MAX_OBSERVATION_GAP)"
  by (induction xs rule: no_gap.induct) auto

lemma steady_extend:
  assumes "steady seg ext since t" "op_sees ext x" "op_time x = now" "now - t \<le> MAX_OBSERVATION_GAP"
  shows "steady (seg @ [x]) ext since now"
  using assms by (auto simp: steady_def no_gap_snoc)

lemma steady_start: "op_sees ext x \<Longrightarrow> op_time x = now \<Longrightarrow> ext \<noteq> {#} \<Longrightarrow> steady [x] ext now now"
  by (simp add: steady_def)

text \<open>One observation: the plan disables only after a steady run, and the run is remembered.\<close>

lemma planner_observe:
  assumes inv: "planner_inv hist p" and run: "Planner_plan prefer outputs now p = (plan, p')"
  shows "planner_inv (hist @ [Observe_Outputs prefer outputs now]) p'"
    and "disable_internal plan \<Longrightarrow> \<exists>pre seg since.
      hist @ [Observe_Outputs prefer outputs now] = pre @ seg
      \<and> steady seg (external_signature outputs) since now \<and> SETTLE \<le> now - since"
proof -
  let ?x = "Observe_Outputs prefer outputs now" and ?ext = "external_signature outputs"
  let ?gap = "case last_observation p of Some t \<Rightarrow> now - t > MAX_OBSERVATION_GAP | None \<Rightarrow> False"
  let ?p = "(if ?gap then Planner_reset else p)\<lparr>last_observation := Some now\<rparr>"
  obtain disable status q where d: "Planner_decide prefer ?ext now ?p = ((disable, status), q)"
    by (cases "Planner_decide prefer ?ext now ?p") auto
  have p': "p' = q" "disable_internal plan = disable"
    using run d by (auto simp: Planner_plan_def Let_def)
  have idle: "planner_inv h q" "\<not> disable" if "\<not> prefer \<or> ?ext = {#}" for h
    using d that by (auto simp: Planner_decide_def planner_inv_def split: if_splits)
  have main: "(\<exists>pre seg since. hist @ [?x] = pre @ seg \<and> steady seg ?ext since now
      \<and> candidate q = Some (?ext, since) \<and> last_observation q = Some now
      \<and> (disable \<longrightarrow> SETTLE \<le> now - since))" if pe: "prefer" "?ext \<noteq> {#}"
  proof -
    have x: "op_sees ?ext ?x" "op_time ?x = now" using pe by simp_all
    show ?thesis
    proof (cases "\<not> ?gap \<and> (\<exists>since. candidate p = Some (?ext, since))")
      case True
      then obtain since where c: "candidate p = Some (?ext, since)" by blast
      with inv obtain pre seg t where h: "hist = pre @ seg" "last_observation p = Some t"
        "steady seg ?ext since t" by (auto simp: planner_inv_def)
      with True have "now - t \<le> MAX_OBSERVATION_GAP" by simp
      from steady_extend [OF h(3) x this] h True c d pe show ?thesis
        by (intro exI [of _ pre] exI [of _ "seg @ [?x]"] exI [of _ since])
          (auto simp: Planner_decide_def split: if_splits)
    next
      case False
      have "candidate q = Some (?ext, now) \<and> last_observation q = Some now \<and> (disable \<longrightarrow> SETTLE \<le> now - now)"
        using False d pe
        by (auto simp: Planner_decide_def Planner_reset_def Let_def split: if_splits option.splits prod.splits)
      with steady_start [OF x pe(2)] show ?thesis
        by (intro exI [of _ hist] exI [of _ "[?x]"] exI [of _ now]) auto
    qed
  qed
  show "planner_inv (hist @ [?x]) p'"
  proof (cases "prefer \<and> ?ext \<noteq> {#}")
    case True
    with main obtain pre seg since where "hist @ [?x] = pre @ seg" "steady seg ?ext since now"
      "candidate q = Some (?ext, since)" "last_observation q = Some now" by blast
    then show ?thesis unfolding planner_inv_def p'(1) by auto
  next
    case False
    with idle(1) p' show ?thesis by auto
  qed
  show "\<exists>pre seg since. hist @ [?x] = pre @ seg \<and> steady seg ?ext since now \<and> SETTLE \<le> now - since"
    if "disable_internal plan"
    using that idle(2) main p' by (cases "prefer \<and> ?ext \<noteq> {#}") blast+
qed

lemma planner_step_simps [simp]:
  "planner_step p (Observe_Outputs b outputs now) = snd (Planner_plan b outputs now p)"
  "planner_step p Reset_Planner = Planner_reset"
  by (simp_all add: planner_step_def)

lemma planner_inv_run: "planner_inv hist (run planner_step Planner_reset hist)"
proof (induction hist rule: rev_induct)
  case Nil
  show ?case by (simp add: planner_inv_def Planner_reset_def)
next
  case (snoc x hist)
  show ?case
  proof (cases x)
    case (Observe_Outputs b outputs now)
    with planner_observe(1) [OF snoc, of b outputs now] show ?thesis
      by (cases "Planner_plan b outputs now (run planner_step Planner_reset hist)")
        simp
  qed (simp add: planner_inv_def Planner_reset_def)
qed

section \<open>What reconciliation applies\<close>

lemma internal_not_external: "internal o' \<Longrightarrow> \<not> external o'"
  by (cases "out_name o'"; cases "tl (out_name o')")
    (auto simp: internal_def external_def starts_with_def)

text \<open>A disable request is safe in the snapshot read just before it.\<close>

definition safe_disable :: "Output \<Rightarrow> Output list \<Rightarrow> bool" where
  "safe_disable target current \<longleftrightarrow>
     (\<exists>o'\<in>set current. external o' \<and> usable o' \<and> out_name o' \<noteq> out_name target)
     \<and> (\<exists>o'\<in>set current. out_name o' = out_name target \<and> out_id o' = out_id target)
     \<and> \<not> has_active_mirrors current target"

definition log_safe :: "display_event list \<Rightarrow> bool" where
  "log_safe l \<longleftrightarrow> (\<forall>xs target ys. l = xs @ Applied target True # ys \<longrightarrow>
     internal target \<and> (\<exists>pre current. xs = pre @ [Snapshot current] \<and> safe_disable target current))"

lemma log_safe_snoc:
  "log_safe (l @ [ev]) \<longleftrightarrow> log_safe l \<and> (case ev of
      Applied target disable \<Rightarrow> disable \<longrightarrow> internal target
        \<and> (\<exists>pre current. l = pre @ [Snapshot current] \<and> safe_disable target current)
    | _ \<Rightarrow> True)"
proof -
  have key: "l @ [ev] = xs @ Applied target True # ys \<longleftrightarrow>
      (ys = [] \<and> xs = l \<and> ev = Applied target True) \<or> (\<exists>zs. ys = zs @ [ev] \<and> l = xs @ Applied target True # zs)"
    for xs target ys
    by (cases ys rule: rev_cases) auto
  show ?thesis
    unfolding log_safe_def key by (cases ev) (simp_all, blast+)
qed

definition dinv :: "'w display_sys \<Rightarrow> bool" where
  "dinv s \<longleftrightarrow> log_safe (dlog s)"

lemma dinv_dext: "preserves dinv (dext m)"
  by (auto simp: preserves_def dext_def dinv_def split: prod.splits)

lemma dinv_read: "preserves dinv (read_outputs B)"
  unfolding read_outputs_def
  by (intro pres_intros dinv_dext) (simp add: dinv_def log_safe_snoc)

lemma external_signature_nonempty:
  "external_signature outputs \<noteq> {#} \<Longrightarrow> \<exists>o'\<in>set outputs. external o' \<and> usable o'"
  by (auto simp: external_signature_def filter_empty_conv)

lemma validate_disable_safe:
  assumes "Plan_validate_disable plan target current = Inr ()" "internal target" "plan_external plan \<noteq> {#}"
  shows "safe_disable target current"
proof -
  from assms have e: "external_signature current = plan_external plan"
    "list_ex (\<lambda>o'. out_name o' = out_name target \<and> out_id o' = out_id target) current"
    "\<not> has_active_mirrors current target"
    by (auto simp: Plan_validate_disable_def split: if_splits)
  with external_signature_nonempty [of current] assms(3) obtain o' where
    o: "o' \<in> set current" "external o'" "usable o'" by auto
  have "out_name o' \<noteq> out_name target"
    using internal_not_external [OF assms(2)] o(2) by (auto simp: external_def)
  with o e show ?thesis by (auto simp: safe_disable_def list_ex_iff)
qed

lemma dinv_apply_target:
  assumes "disable_internal plan \<Longrightarrow> internal target \<and> plan_external plan \<noteq> {#}"
  shows "preserves dinv (apply_target B plan generation target)"
proof (rule preservesI)
  fix s :: "'a display_sys" assume i: "dinv s"
  let ?tail = "bindE (getE (sleep_interrupted B generation)) (\<lambda>interrupted.
      if interrupted then throwE (err ''sleep transition interrupted display reconciliation'')
      else apply_output B target (disable_internal plan))"
  show "dinv (snd (apply_target B plan generation target s))"
  proof (cases "disable_internal plan")
    case False
    have "preserves dinv (apply_output B target False)"
      unfolding apply_output_def by (intro pres_intros dinv_dext) (simp add: dinv_def log_safe_snoc)
    then have "preserves dinv ?tail" using False by (intro pres_intros) simp
    from preservesD [OF this i] False show ?thesis
      by (simp add: apply_target_def seqE_def bindE_def [of "returnE ()"] eff_simps)
  next
    case True
    have check: "preserves dinv (seqE (dext (be_eligible B)) (bindE (read_outputs B) (\<lambda>current.
               liftE (Plan_validate_disable plan target current))))" (is "preserves dinv ?check")
      by (intro pres_intros dinv_dext dinv_read)
    obtain r u where c: "?check s = (r, u)" by (cases "?check s")
    have iu: "dinv u" using preservesD [OF check i] c by simp
    show ?thesis
    proof (cases r)
      case (Inl e)
      with c iu True show ?thesis by (simp add: apply_target_def seqE_def bindE_def)
    next
      case (Inr x)
      with c obtain pre current where "dlog u = pre @ [Snapshot current]"
        "Plan_validate_disable plan target current = Inr ()"
        by (auto simp: seqE_eq_Ok bindE_eq_Ok read_outputs_def eff_simps)
      with validate_disable_safe [of plan target current] assms True iu
        log_safe_snoc [of "dlog u" "Applied target True"] have
        safe: "dinv (u\<lparr>dlog := dlog u @ [Applied target True]\<rparr>)"
        by (auto simp: dinv_def)
      have "snd (apply_target B plan generation target s) = snd (?tail u)"
        using c Inr True by (simp add: apply_target_def seqE_def bindE_def)
      moreover have "dinv (snd (?tail u))"
        using iu preservesD [OF dinv_dext safe, of "be_apply B target True"] True
        by (simp add: bindE_def apply_output_def seqE_def eff_simps)
      ultimately show ?thesis by simp
    qed
  qed
qed

lemma preserves_forE_set: "(\<And>x. x \<in> set xs \<Longrightarrow> preserves I (f x)) \<Longrightarrow> preserves I (forE f xs)"
  by (induction xs) (simp_all add: pres_intros)

lemma plan_disable_needs_external:
  assumes "Planner_plan b outputs now p = (plan, p')" "disable_internal plan"
  shows "plan_external plan \<noteq> {#} \<and> (\<forall>t\<in>set (plan_targets plan). internal t)"
  using assms by (auto simp: Planner_plan_def Planner_decide_def Let_def target_of_def
      split: if_splits prod.splits)

lemma dinv_reconcile: "preserves dinv (display_reconcile B b keep now)"
proof -
  have pl: "preserves dinv (set_planner p)" for p
    by (simp add: preserves_def set_planner_def eff_defs dinv_def)
  have targets: "preserves dinv (bindE (getE (\<lambda>s. Planner_plan b outputs now (dplanner s))) (\<lambda>(plan, planner).
          seqE (set_planner planner)
          (seqE (forE (apply_target B plan generation) (plan_targets plan))
          (bindE (read_outputs B) (\<lambda>observed.
           bindE (getE (sleep_interrupted B generation)) (\<lambda>interrupted.
           if interrupted then throwE (err ''sleep transition interrupted display reconciliation'')
           else returnE \<lparr>rc_status = (if Plan_observed plan observed then plan_status plan else ''pending''),
                  rc_outputs = Some observed\<rparr>))))))" for outputs generation
  proof (rule preserves_get, clarsimp split: prod.split)
    fix s :: "'a display_sys" and plan planner
    assume run: "Planner_plan b outputs now (dplanner s) = (plan, planner)"
    show "preserves dinv (seqE (set_planner planner)
          (seqE (forE (apply_target B plan generation) (plan_targets plan))
          (bindE (read_outputs B) (\<lambda>observed.
           bindE (getE (sleep_interrupted B generation)) (\<lambda>interrupted.
           if interrupted then throwE (err ''sleep transition interrupted display reconciliation'')
           else returnE \<lparr>rc_status = (if Plan_observed plan observed then plan_status plan else ''pending''),
                  rc_outputs = Some observed\<rparr>)))))"
      using plan_disable_needs_external [OF run]
      by (intro preserves_seqE pl preserves_forE_set dinv_apply_target preserves_bindE dinv_read
          preserves_getE preserves_if preserves_throwE preserves_returnE) auto
  qed
  show ?thesis
    unfolding display_reconcile_def
    by (intro preserves_bindE preserves_getE)
      (auto intro!: preserves_if preserves_seqE preserves_returnE pl dinv_dext preserves_bindE dinv_read targets)
qed

section \<open>The observed transition\<close>

definition transition_step ::
  "nat option \<times> docking \<Rightarrow> string result \<times> nat \<Rightarrow> nat option \<times> docking" where
  "transition_step sd x = Transition_update (fst sd) (snd sd) (fst x) (snd x)"

definition waiting :: "string result \<times> nat \<Rightarrow> bool" where
  "waiting x \<longleftrightarrow> fst x \<in> {Inr ''pending'', Inr ''settling'', Inr ''layout-preview''}"

definition applying_since :: "nat option \<times> docking \<Rightarrow> nat \<Rightarrow> nat \<Rightarrow> bool" where
  "applying_since sd since now \<longleftrightarrow> \<not> dk_manual_enablement (snd sd) \<and> \<not> dk_trial (snd sd)
     \<and> (dk_state (snd sd) = Failed
        \<or> (fst sd = Some since \<and> dk_state (snd sd) = Applying \<and> now - since < APPLY_TIMEOUT))"

lemma applying_step:
  assumes "applying_since sd since t" "waiting (res, now)"
  shows "applying_since (transition_step sd (res, now)) since now"
  using assms
  by (cases "dk_state (snd sd) = Failed"; cases "APPLY_TIMEOUT \<le> now - since") (auto simp: applying_since_def waiting_def transition_step_def Transition_update_def
      Transition_fail_def Let_def)

lemma applying_first:
  assumes "\<not> dk_manual_enablement d" "\<not> dk_trial d" "waiting (res, now)"
  shows "applying_since (transition_step (None, d) (res, now)) now now"
  using assms
  by (cases "dk_state d = Failed") (auto simp: applying_since_def waiting_def transition_step_def Transition_update_def
      Transition_fail_def Let_def APPLY_TIMEOUT_def)

lemma applying_run:
  "applying_since sd since t \<Longrightarrow> list_all waiting xs \<Longrightarrow>
     applying_since (run transition_step sd xs) since (if xs = [] then t else snd (last xs))"
proof (induction xs rule: rev_induct)
  case (snoc x xs)
  then show ?case by (cases x) (auto intro: applying_step)
qed simp

section \<open>Properties\<close>

text \<open>
  The laptop screen is given up only for a settled dock. Over any sequence of observations and
  planner resets, a plan that disables internal outputs ends a run of observations, without a reset,
  each of which saw the same non-empty set of usable external outputs under a policy that prefers them,
  no two neighbours more than six seconds apart, the first at least five seconds before the plan.
\<close>

theorem dock_settles_before_disable:
  assumes "Planner_plan b outputs now (run planner_step Planner_reset hist) = (plan, p')"
    and "disable_internal plan"
  shows "\<exists>pre seg. hist @ [Observe_Outputs b outputs now] = pre @ seg \<and> seg \<noteq> []
    \<and> (\<forall>x\<in>set seg. \<exists>outs t. x = Observe_Outputs True outs t
         \<and> external_signature outs = external_signature outputs)
    \<and> no_gap seg \<and> external_signature outputs \<noteq> {#} \<and> 5000 \<le> now - op_time (hd seg)"
proof -
  from planner_observe(2) [OF planner_inv_run assms] obtain pre seg since where
    s: "hist @ [Observe_Outputs b outputs now] = pre @ seg"
    "steady seg (external_signature outputs) since now" "SETTLE \<le> now - since" by blast
  have "\<exists>outs t. x = Observe_Outputs True outs t \<and> external_signature outs = external_signature outputs"
    if "op_sees (external_signature outputs) x" for x
    using that by (cases x) auto
  with s show ?thesis
    by (intro exI [of _ pre] exI [of _ seg]) (auto simp: steady_def list_all_iff SETTLE_def)
qed

definition screen :: "string \<Rightarrow> int \<Rightarrow> bool \<Rightarrow> Output" where
  "screen name n off = \<lparr>out_id = n, out_name = name, out_description = [], out_width = 1920, out_height = 1080,
     out_disabled = off, out_focused = False, out_scale = Fin 1, out_refresh_rate = Fin 60, out_x = 0,
     out_y = 0, out_transform = 0, available_modes = [], mirror_of = []\<rparr>"

definition docked_pair :: "Output list" where
  "docked_pair = [screen ''eDP-1'' 0 False, screen ''DP-2'' 1 False]"

definition docked_hist :: "planner_op list" where
  "docked_hist = [Observe_Outputs True docked_pair 0, Observe_Outputs True docked_pair 3000]"

lemma docked_outputs:
  "internal (screen ''eDP-1'' n off)" "\<not> external (screen ''eDP-1'' n off)"
  "external (screen ''DP-2'' n off)" "\<not> internal (screen ''DP-2'' n off)"
  "usable (screen name n False)" "\<not> mirrored (screen name n off)" "active (screen name n False)"
  by (simp_all add: screen_def internal_def external_def usable_def active_def mirrored_def starts_with_def)

lemma docked_signature: "external_signature docked_pair = {#(''DP-2'', 1, 1920, 1080, Fin 1, Fin 60)#}"
  by (simp add: external_signature_def docked_pair_def docked_outputs)
    (simp add: Signature_of_def screen_def)

lemma docked_disables:
  "disable_internal (fst (Planner_plan True docked_pair 6000 (run planner_step Planner_reset docked_hist)))"
  by (simp add: docked_hist_def Planner_plan_def Planner_decide_def Planner_reset_def docked_signature
      SETTLE_def MAX_OBSERVATION_GAP_def Let_def)

theorem dock_settles_before_disable_witness:
  "\<exists>pre seg. docked_hist @ [Observe_Outputs True docked_pair 6000] = pre @ seg \<and> seg \<noteq> [] \<and> no_gap seg"
proof -
  obtain plan p' where run: "Planner_plan True docked_pair 6000 (run planner_step Planner_reset docked_hist) = (plan, p')"
    by (cases "Planner_plan True docked_pair 6000 (run planner_step Planner_reset docked_hist)")
  from dock_settles_before_disable [OF run] docked_disables run show ?thesis by auto
qed

text \<open>
  C32. Reconciliation never takes the last screen away. Whatever the compositor answers, every disable
  request it sends is for an internal output and follows directly on a fresh reading of the outputs in
  which another, external output is usable, the target is still the same output, and no active output
  mirrors it.
\<close>

theorem disable_leaves_external_screen:
  assumes "dlog s = []" "display_reconcile B prefer_ext keep now s = (r, t)"
    and "dlog t = before @ Applied target True # after"
  shows "internal target \<and> (\<exists>pre current. before = pre @ [Snapshot current]
    \<and> (\<exists>o'\<in>set current. external o' \<and> usable o' \<and> out_name o' \<noteq> out_name target)
    \<and> (\<exists>o'\<in>set current. out_name o' = out_name target \<and> out_id o' = out_id target)
    \<and> \<not> has_active_mirrors current target)"
proof -
  have "dinv s" using assms(1) by (simp add: dinv_def log_safe_def)
  from preservesD [OF dinv_reconcile this, of B prefer_ext keep now] assms(2) have "log_safe (dlog t)"
    by (simp add: dinv_def)
  with assms(3) show ?thesis by (auto simp: log_safe_def safe_disable_def)
qed

definition steady_backend :: "unit backend" where
  "steady_backend = \<lparr>be_eligible = returnE (), be_outputs = returnE docked_pair, be_apply = (\<lambda>_ _. returnE ()),
     be_preparing = (\<lambda>_. False), be_generation = (\<lambda>_. 0)\<rparr>"

definition settled_sys :: "unit display_sys" where
  "settled_sys = \<lparr>dplanner = \<lparr>candidate = Some ({#(''DP-2'', 1, 1920, 1080, Fin 1, Fin 60)#}, 0),
     last_observation = Some 3000\<rparr>, dworld = (), dlog = []\<rparr>"

lemma docked_targets: "filter (target_of True docked_pair) docked_pair = [screen ''eDP-1'' 0 False]"
  by (simp add: target_of_def docked_pair_def docked_outputs has_active_mirrors_def mirror_source_def)

lemma docked_valid:
  "Plan_validate_disable \<lparr>disable_internal = d, plan_targets = ts, plan_status = st,
     plan_external = {#(''DP-2'', 1, 1920, 1080, Fin 1, Fin 60)#}, plan_internal = is\<rparr>
     (screen ''eDP-1'' 0 False) docked_pair = Inr ()"
  by (simp add: Plan_validate_disable_def docked_signature)
    (simp add: docked_pair_def has_active_mirrors_def mirror_source_def docked_outputs)

lemma settled_disables:
  "dlog (snd (display_reconcile steady_backend True False 6000 settled_sys)) =
     [Snapshot docked_pair, Snapshot docked_pair] @ Applied (screen ''eDP-1'' 0 False) True
       # [Snapshot docked_pair]"
  by (simp add: display_reconcile_def steady_backend_def settled_sys_def bindE_def seqE_def eff_simps
      dext_def read_outputs_def Planner_plan_def Planner_decide_def docked_signature SETTLE_def
      MAX_OBSERVATION_GAP_def Let_def set_planner_def docked_targets apply_target_def docked_valid
      sleep_interrupted_def apply_output_def)

theorem disable_leaves_external_screen_witness:
  "internal (screen ''eDP-1'' 0 False)
   \<and> (\<exists>o'\<in>set docked_pair. external o' \<and> usable o' \<and> out_name o' \<noteq> out_name (screen ''eDP-1'' 0 False))"
proof -
  obtain r t where run: "display_reconcile steady_backend True False 6000 settled_sys = (r, t)"
    by (cases "display_reconcile steady_backend True False 6000 settled_sys")
  have l: "dlog t = [Snapshot docked_pair, Snapshot docked_pair] @ Applied (screen ''eDP-1'' 0 False) True
       # [Snapshot docked_pair]"
    using settled_disables run by simp
  have "dlog settled_sys = []" by (simp add: settled_sys_def)
  from disable_leaves_external_screen [OF this run l] show ?thesis by auto
qed

text \<open>
  The laptop screen comes back. When no usable external output is seen, or the policy does not
  prefer external outputs, the plan disables nothing, and it enables every internal output that is not
  active; when no output at all is usable, it enables every internal output.
\<close>

theorem undocked_restores_internal:
  assumes "\<not> prefer_ext \<or> (\<forall>o'\<in>set outputs. \<not> (external o' \<and> usable o'))"
    and "Planner_plan prefer_ext outputs now p = (plan, p')"
  shows "\<not> disable_internal plan
    \<and> (\<forall>o'\<in>set outputs. internal o' \<and> \<not> active o' \<longrightarrow> o' \<in> set (plan_targets plan))
    \<and> (list_all (\<lambda>o'. \<not> usable o') outputs \<longrightarrow>
         (\<forall>o'\<in>set outputs. internal o' \<longrightarrow> o' \<in> set (plan_targets plan)))"
proof -
  have "\<not> prefer_ext \<or> external_signature outputs = {#}"
    using assms(1) external_signature_nonempty [of outputs] by auto
  then have "disable_internal plan = False \<and> plan_targets plan = filter (target_of False outputs) outputs"
    using assms(2) by (auto simp: Planner_plan_def Planner_decide_def Let_def split: if_splits)
  then show ?thesis
    by (auto simp: target_of_def usable_def list_all_iff list_ex_iff)
qed

theorem undocked_restores_internal_witness:
  "screen ''eDP-1'' 0 True \<in> set (plan_targets (fst (Planner_plan True [screen ''eDP-1'' 0 True] 9000
     \<lparr>candidate = None, last_observation = None\<rparr>)))"
proof -
  let ?p = "\<lparr>candidate = None, last_observation = None\<rparr>"
  obtain plan p' where run: "Planner_plan True [screen ''eDP-1'' 0 True] 9000 ?p = (plan, p')"
    by (cases "Planner_plan True [screen ''eDP-1'' 0 True] 9000 ?p")
  have "\<not> True \<or> (\<forall>o'\<in>set [screen ''eDP-1'' 0 True]. \<not> (external o' \<and> usable o'))"
    by (simp add: docked_outputs)
  from undocked_restores_internal [OF this run] run show ?thesis
    by (simp add: docked_outputs active_def) (simp add: screen_def)
qed

text \<open>
  C39. A docking change does not stay in progress. If, from an update on, only unfinished statuses are
  reported and no manual layout or trial intervenes, then at the first update twenty seconds or more
  after the first one the docking state is failed, and at every earlier one it is applying or failed.
\<close>

theorem docking_change_bounded:
  assumes "\<not> dk_manual_enablement d" "\<not> dk_trial d" "list_all waiting ((res, t0) # xs)"
    and "run transition_step (None, d) ((res, t0) # xs) = (started, d')"
  shows "dk_state d' = Failed
    \<or> (dk_state d' = Applying \<and> snd (last ((res, t0) # xs)) - t0 < 20000)"
proof -
  have "applying_since (run transition_step (transition_step (None, d) (res, t0)) xs) t0
      (if xs = [] then t0 else snd (last xs))"
    using assms(1-3) by (intro applying_run applying_first) simp_all
  with assms(4) show ?thesis
    by (auto simp: applying_since_def APPLY_TIMEOUT_def split: if_splits)
qed

theorem docking_change_bounded_witness:
  "dk_state (snd (run transition_step (None, \<lparr>dk_state = Settled, dk_status = [], dk_error = None,
      dk_manual_enablement = False, dk_trial = False\<rparr>)
     [(Inr ''settling'', 1000), (Inr ''pending'', 9000), (Inr ''pending'', 21000)])) = Failed"
proof -
  let ?d = "\<lparr>dk_state = Settled, dk_status = [], dk_error = None, dk_manual_enablement = False, dk_trial = False\<rparr>"
  let ?xs = "[(Inr ''pending'', 9000), (Inr ''pending'', 21000)] :: (string result \<times> nat) list"
  obtain st d' where run: "run transition_step (None, ?d) ((Inr ''settling'', 1000) # ?xs) = (st, d')"
    by (cases "run transition_step (None, ?d) ((Inr ''settling'', 1000) # ?xs)")
  have "list_all waiting ((Inr ''settling'', 1000) # ?xs)" by (simp add: waiting_def)
  from docking_change_bounded [OF _ _ this run] run show ?thesis by simp
qed

end
