(* ===== verification/Display_Layout.thy ===== *)
theory Display_Layout
  imports Display_Planner "HOL-Library.List_Lexorder" "HOL-Library.Char_ord"
begin

text \<open>
  Saved display layouts and time-limited previews: \<open>display_policy/layout.rs\<close> with the arrangement check
  of \<open>layout/draft.rs\<close> and the current mode of \<open>layout/outputs.rs\<close>. Decimal numbers are read exactly. The
  compositor, the layout file, the clocks, the fresh preview identifier and the keyed hash of a baseline
  are the fields of \<open>layout_env\<close>; wall-clock times are seconds, instants milliseconds.
\<close>

section \<open>Modes\<close>

fun split_once :: "char \<Rightarrow> string \<Rightarrow> (string \<times> string) option" where
  "split_once c [] = None"
| "split_once c (x # xs) =
     (if x = c then Some ([], xs)
      else case split_once c xs of None \<Rightarrow> None | Some (a, b) \<Rightarrow> Some (x # a, b))"

definition strip_suffix :: "string \<Rightarrow> string \<Rightarrow> string" where
  "strip_suffix suffix s =
     (if starts_with (rev suffix) (rev s) then take (length s - length suffix) s else s)"

definition digits_value :: "string \<Rightarrow> nat" where
  "digits_value s = foldl (\<lambda>n c. 10 * n + (of_char c - 48)) 0 s"

definition parse_u32 :: "string \<Rightarrow> nat option" where
  "parse_u32 s = (if s \<noteq> [] \<and> list_all ascii_digit s \<and> digits_value s \<le> U32_MAX
                  then Some (digits_value s) else None)"

text \<open>A decimal with at most one point and at least one digit.\<close>

definition parse_decimal :: "string \<Rightarrow> rat option" where
  "parse_decimal s =
     (case split_once CHR ''.'' s of
        None \<Rightarrow> if s \<noteq> [] \<and> list_all ascii_digit s then Some (of_nat (digits_value s)) else None
      | Some (a, b) \<Rightarrow>
          if a @ b \<noteq> [] \<and> list_all ascii_digit (a @ b)
          then Some (of_nat (digits_value (a @ b)) / 10 ^ length b) else None)"

definition mode :: "string \<Rightarrow> (nat \<times> nat \<times> rat) option" where
  "mode value0 =
     (let value = strip_suffix ''Hz'' value0 in
      if length value > 40 \<or> \<not> list_all (\<lambda>c. ascii_digit c \<or> c \<in> set ''x@.'') value then None
      else case split_once CHR ''@'' value of
        None \<Rightarrow> None
      | Some (dims, refresh) \<Rightarrow>
        (case split_once CHR ''x'' dims of
           None \<Rightarrow> None
         | Some (width, height) \<Rightarrow>
           (case (parse_u32 width, parse_u32 height, parse_decimal refresh) of
              (Some w, Some h, Some r) \<Rightarrow>
                if 1 \<le> w \<and> w \<le> 16384 \<and> 1 \<le> h \<and> h \<le> 16384 \<and> 1 \<le> r \<and> r \<le> 1000
                then Some (w, h, r) else None
            | _ \<Rightarrow> None)))"

definition same_mode :: "string \<Rightarrow> string \<Rightarrow> bool" where
  "same_mode left right =
     (case (mode left, mode right) of
        (Some (w, h, r), Some (ww, hh, rr)) \<Rightarrow> w = ww \<and> h = hh \<and> \<bar>r - rr\<bar> < 1 / 10
      | _ \<Rightarrow> False)"

text \<open>Two decimals, rounded to even on a tie, as formatting with precision two does.\<close>

definition round_half_even :: "rat \<Rightarrow> int" where
  "round_half_even q =
     (let f = \<lfloor>q\<rfloor>; d = q - of_int f in
      if d < 1 / 2 then f else if d > 1 / 2 then f + 1 else if even f then f else f + 1)"

definition show_fixed2_nat :: "nat \<Rightarrow> string" where
  "show_fixed2_nat n = show_nat (n div 100) @ ''.'' @
     [char_of (48 + n mod 100 div 10), char_of (48 + n mod 10)]"

fun show_fixed2 :: "f64 \<Rightarrow> string" where
  "show_fixed2 (Fin q) =
     (if q < 0 then ''-'' @ show_fixed2_nat (nat (round_half_even (- q * 100)))
      else show_fixed2_nat (nat (round_half_even (q * 100))))"
| "show_fixed2 NegZero = ''-0.00''"
| "show_fixed2 PosInf = ''inf''"
| "show_fixed2 NegInf = ''-inf''"
| "show_fixed2 NaN = ''NaN''"

definition observed_mode :: "Output \<Rightarrow> string" where
  "observed_mode output =
     show_nat (out_width output) @ ''x'' @ show_nat (out_height output) @ ''@''
       @ show_fixed2 (out_refresh_rate output)"

fun min_by_snd :: "(string \<times> rat) list \<Rightarrow> (string \<times> rat) option" where
  "min_by_snd [] = None"
| "min_by_snd (x # xs) =
     (case min_by_snd xs of None \<Rightarrow> Some x | Some y \<Rightarrow> if snd y < snd x then Some y else Some x)"

definition current_mode :: "Output \<Rightarrow> string" where
  "current_mode output =
     (let closest = min_by_snd (List.map_filter (\<lambda>mid.
            case (mode mid, f64_val (out_refresh_rate output)) of
              (Some (w, h, rate), Some seen) \<Rightarrow>
                let difference = \<bar>rate - seen\<bar> in
                if w = out_width output \<and> h = out_height output \<and> difference < 1 / 10
                then Some (mid, difference) else None
            | _ \<Rightarrow> None) (available_modes output)) in
      case closest of
        Some (mid, _) \<Rightarrow> mid
      | None \<Rightarrow>
        if mode (observed_mode output) \<noteq> None then observed_mode output
        else if out_disabled output
        then (case find (\<lambda>mid. mode mid \<noteq> None) (available_modes output) of Some mid \<Rightarrow> mid | None \<Rightarrow> [])
        else [])"

section \<open>Settings and layouts\<close>

record Setting =
  st_name :: string
  st_mode :: string
  st_x :: int
  st_y :: int
  st_scale :: f64
  st_transform :: nat
  st_enabled :: bool
  st_mirror_of :: string

definition connector :: "string \<Rightarrow> bool" where
  "connector value \<longleftrightarrow>
     list_ex (\<lambda>p. starts_with p value \<and> length value > length p)
       [''eDP-'', ''LVDS-'', ''DSI-'', ''DP-'', ''HDMI-A-'']
     \<and> length value \<le> 64 \<and> list_all (\<lambda>c. ascii_alnum c \<or> c = CHR ''-'') value"

definition Setting_validate :: "Setting \<Rightarrow> unit result" where
  "Setting_validate self =
     and_then (ensure (connector (st_name self)) ''Invalid display connector'') (\<lambda>_.
     and_then (ensure (mode (st_mode self) \<noteq> None) ''Invalid display mode'') (\<lambda>_.
     and_then (ensure (\<bar>st_x self\<bar> \<le> 32768 \<and> \<bar>st_y self\<bar> \<le> 32768) ''Display position is out of bounds'') (\<lambda>_.
     and_then (ensure (f64_finite (st_scale self) \<and> f64_in (1 / 2) 4 (st_scale self))
       ''Display scale must be between 0.5 and 4'') (\<lambda>_.
     and_then (ensure (st_transform self \<le> 7) ''Invalid display rotation'') (\<lambda>_.
     ensure (st_mirror_of self = [] \<or> (connector (st_mirror_of self) \<and> st_mirror_of self \<noteq> st_name self))
       ''Invalid mirror source'')))))"

definition Setting_matches :: "Output list \<Rightarrow> Output \<Rightarrow> Setting \<Rightarrow> bool" where
  "Setting_matches outputs output self =
     (let mirror_matches = (if st_mirror_of self = [] then \<not> mirrored output
            else case mirror_source outputs output of
              Some source \<Rightarrow> out_name source = st_mirror_of self \<and> usable source | None \<Rightarrow> False) in
      st_enabled self \<noteq> out_disabled output
      \<and> (\<not> st_enabled self
         \<or> (mirror_matches \<and> same_mode (st_mode self) (observed_mode output)
            \<and> (st_mirror_of self \<noteq> [] \<or> (st_x self = out_x output \<and> st_y self = out_y output))
            \<and> f64_eq (st_scale self) (out_scale output) \<and> st_transform self = out_transform output)))"

definition Setting_observed :: "Output list \<Rightarrow> Output \<Rightarrow> Setting" where
  "Setting_observed outputs output =
     \<lparr>st_name = out_name output, st_mode = current_mode output, st_x = out_x output, st_y = out_y output,
      st_scale = out_scale output, st_transform = out_transform output, st_enabled = (\<not> out_disabled output),
      st_mirror_of = (if \<not> out_disabled output \<and> mirrored output
        then (case mirror_source outputs output of Some source \<Rightarrow> out_name source | None \<Rightarrow> mirror_of output)
        else [])\<rparr>"

type_synonym Layout = "Setting list"

definition independent :: "Setting \<Rightarrow> bool" where
  "independent s \<longleftrightarrow> st_enabled s \<and> st_mirror_of s = []"

definition find_output :: "string \<Rightarrow> Output list \<Rightarrow> Output option" where
  "find_output name outputs = find (\<lambda>o'. out_name o' = name) outputs"

fun validate_settings :: "Layout \<Rightarrow> Output list \<Rightarrow> string list \<Rightarrow> Setting list \<Rightarrow> string list result" where
  "validate_settings all outputs seen [] = Ok seen"
| "validate_settings all outputs seen (s # ss) =
     and_then (Setting_validate s) (\<lambda>_.
     and_then (ensure (st_name s \<notin> set seen) ''Duplicate display connector'') (\<lambda>_.
     and_then (ok_or ''Display disconnected; refresh the layout'' (find_output (st_name s) outputs)) (\<lambda>output.
     and_then (if st_enabled s then
         and_then (if st_mirror_of s \<noteq> [] then
             ensure (list_ex (\<lambda>source. st_name source = st_mirror_of s \<and> independent source) all)
               ''Mirror source must be an enabled independent display (no chains or cycles)''
           else Ok ()) (\<lambda>_.
         ensure (list_ex (same_mode (st_mode s)) (available_modes output)
             \<or> same_mode (st_mode s) (observed_mode output)) ''Mode is not advertised by this display'')
       else Ok ()) (\<lambda>_.
     validate_settings all outputs (st_name s # seen) ss))))"

definition Layout_validate :: "Layout \<Rightarrow> Output list \<Rightarrow> bool \<Rightarrow> unit result" where
  "Layout_validate self outputs whole =
     and_then (ensure (self \<noteq> [] \<and> length self \<le> 16) ''Choose between one and sixteen outputs'') (\<lambda>_.
     and_then (validate_settings self outputs [] self) (\<lambda>seen.
     and_then (ensure (list_ex independent self) ''Cannot disable every display'') (\<lambda>_.
     if whole then
       ensure (list_all (\<lambda>o'. connector (out_name o') \<longrightarrow> out_name o' \<in> set seen) outputs)
         ''Display topology changed; refresh the layout''
     else Ok ())))"

definition Layout_observed :: "Output list \<Rightarrow> Layout" where
  "Layout_observed outputs =
     map (Setting_observed outputs) (filter (\<lambda>o'. connector (out_name o')) outputs)"

definition Layout_connected :: "Output list \<Rightarrow> Layout \<Rightarrow> Layout" where
  "Layout_connected outputs self =
     map (\<lambda>s. if st_mirror_of s \<noteq> [] \<and> \<not> list_ex (\<lambda>o'. out_name o' = st_mirror_of s) outputs
              then s\<lparr>st_mirror_of := []\<rparr> else s)
       (filter (\<lambda>s. list_ex (\<lambda>o'. out_name o' = st_name s) outputs) self)"

section \<open>Arrangement\<close>

text \<open>Rounding half away from zero, as \<open>f64::round\<close> does on the non-negative quotient.\<close>

definition round_half_up :: "rat \<Rightarrow> int" where
  "round_half_up q = \<lfloor>q + 1 / 2\<rfloor>"

definition I64_MAX :: int where "I64_MAX = 9223372036854775807"

definition rect :: "Setting \<Rightarrow> (int \<times> int \<times> int \<times> int) result" where
  "rect setting =
     and_then (ok_or ''Invalid display mode'' (mode (st_mode setting))) (\<lambda>(w, h, _).
     let (w, h) = (if st_transform setting mod 2 = 1 then (h, w) else (w, h));
         side = (\<lambda>n. case st_scale setting of
            Fin scale \<Rightarrow> if scale = 0 then I64_MAX else min (max (round_half_up (of_nat n / scale)) 1) I64_MAX
          | _ \<Rightarrow> 1) in
     Ok (st_x setting, st_y setting, side w, side h))"

definition overlap :: "int \<times> int \<times> int \<times> int \<Rightarrow> int \<times> int \<times> int \<times> int \<Rightarrow> bool" where
  "overlap a b = (case (a, b) of ((ax, ay, aw, ah), (bx, by, bw, bh)) \<Rightarrow>
     ax < bx + bw \<and> bx < ax + aw \<and> ay < by + bh \<and> by < ay + ah)"

definition rect_ok :: "Setting \<Rightarrow> (int \<times> int \<times> int \<times> int) option" where
  "rect_ok s = (case rect s of Inr r \<Rightarrow> Some r | Inl _ \<Rightarrow> None)"

definition unchanged_rect :: "Layout \<Rightarrow> Setting \<Rightarrow> bool" where
  "unchanged_rect previous current =
     (case find (\<lambda>old. st_name old = st_name current) (filter independent previous) of
        Some old \<Rightarrow> rect_ok old = rect_ok current | None \<Rightarrow> False)"

definition check_pair :: "Layout \<Rightarrow> Setting \<Rightarrow> Setting \<Rightarrow> unit result" where
  "check_pair previous a b =
     and_then (rect a) (\<lambda>ra. and_then (rect b) (\<lambda>rb.
       if overlap ra rb then
         ensure (unchanged_rect previous a \<and> unchanged_rect previous b)
           (st_name a @ '' overlaps '' @ st_name b @ '' - arrange displays before previewing'')
       else Ok ()))"

fun check_all :: "(Setting \<Rightarrow> unit result) \<Rightarrow> Setting list \<Rightarrow> unit result" where
  "check_all f [] = Ok ()"
| "check_all f (b # bs) = and_then (f b) (\<lambda>_. check_all f bs)"

fun check_pairs :: "Layout \<Rightarrow> Setting list \<Rightarrow> unit result" where
  "check_pairs previous [] = Ok ()"
| "check_pairs previous (a # as) =
     and_then (check_all (check_pair previous a) as) (\<lambda>_. check_pairs previous as)"

definition validate_arrangement :: "Layout \<Rightarrow> Layout \<Rightarrow> unit result" where
  "validate_arrangement next previous = check_pairs previous (filter independent next)"

section \<open>Documents and previews\<close>

record Trial =
  tr_id :: string
  expires_at :: nat
  tr_proposed :: Layout
  tr_previous :: Layout

record Document =
  manual_enablement :: bool
  saved_layout :: Layout
  doc_trial :: "Trial option"

definition Document_default :: Document where
  "Document_default = \<lparr>manual_enablement = False, saved_layout = [], doc_trial = None\<rparr>"

definition internal_enablement :: "Output list \<Rightarrow> Setting \<Rightarrow> Setting" where
  "internal_enablement outputs s =
     (case find (\<lambda>o'. out_name o' = st_name s \<and> internal o') outputs of
        Some output \<Rightarrow> s\<lparr>st_enabled := (\<not> out_disabled output)\<rparr> | None \<Rightarrow> s)"

definition detach_disabled :: "Layout \<Rightarrow> Layout" where
  "detach_disabled present =
     (let disabled = map st_name (filter (\<lambda>s. \<not> st_enabled s) present) in
      map (\<lambda>s. if st_mirror_of s \<in> set disabled then s\<lparr>st_mirror_of := []\<rparr> else s) present)"

definition Document_restoration :: "Output list \<Rightarrow> Document \<Rightarrow> Layout" where
  "Document_restoration outputs self =
     (let present = Layout_connected outputs (saved_layout self) in
      if manual_enablement self then present
      else detach_disabled (map (internal_enablement outputs) present))"

record LayoutRuntime =
  rt_trial :: "string option"
  rt_deadline :: "nat option"
  rt_topology :: "(string \<times> int) multiset"
  rt_since :: "nat option"
  rt_applied :: bool
  rt_error :: "string option"
  rt_resume :: nat

definition LayoutRuntime_default :: LayoutRuntime where
  "LayoutRuntime_default = \<lparr>rt_trial = None, rt_deadline = None, rt_topology = {#}, rt_since = None,
     rt_applied = False, rt_error = None, rt_resume = 0\<rparr>"

definition topology :: "Output list \<Rightarrow> (string \<times> int) multiset" where
  "topology outputs = mset (map (\<lambda>o'. (out_name o', out_id o')) outputs)"

definition PREVIEW_SECONDS :: nat where "PREVIEW_SECONDS = 20"

datatype Layout_rule = Layout_Disable | Layout_Enable string int int f64 nat string

definition Setting_command :: "Setting \<Rightarrow> (string \<times> Layout_rule) result" where
  "Setting_command self =
     and_then (Setting_validate self) (\<lambda>_.
     Ok (st_name self,
         if st_enabled self
         then Layout_Enable (st_mode self) (st_x self) (st_y self) (st_scale self) (st_transform self) (st_mirror_of self)
         else Layout_Disable))"

type_synonym fingerprint = "int \<times> string \<times> string \<times> Setting \<times> string list"

record 'w layout_env =
  le_eligible :: "('w, unit) eff"
  le_outputs :: "('w, Output list) eff"
  le_execute :: "string \<times> Layout_rule \<Rightarrow> ('w, unit) eff"
  le_preparing :: "'w \<Rightarrow> bool"
  le_generation :: "'w \<Rightarrow> nat"
  le_docking :: "'w \<Rightarrow> DockingState"
  le_prefer_external :: "'w \<Rightarrow> bool"
  le_readable :: "('w, unit) eff"
  le_write :: "Document \<Rightarrow> 'w \<Rightarrow> (unit result \<times> bool) \<times> 'w"
  le_now :: "('w, nat) eff"
  le_instant :: "('w, nat) eff"
  le_fresh :: "('w, string) eff"
  le_hash :: "bool \<Rightarrow> fingerprint list \<Rightarrow> string"

datatype layout_event = Seen "Output list" | Configured Setting | Stored Document

record 'w layout_sys =
  ly_runtime :: LayoutRuntime
  ly_disk :: Document
  ly_world :: 'w
  ly_log :: "layout_event list"

definition lext :: "('w, 'a) eff \<Rightarrow> ('w layout_sys, 'a) eff" where
  "lext m s = (case m (ly_world s) of (r, w) \<Rightarrow> (r, s\<lparr>ly_world := w\<rparr>))"

definition lnote :: "layout_event \<Rightarrow> ('w layout_sys, unit) eff" where
  "lnote x = modifyE (\<lambda>s. s\<lparr>ly_log := ly_log s @ [x]\<rparr>)"

definition see_outputs :: "'w layout_env \<Rightarrow> ('w layout_sys, Output list) eff" where
  "see_outputs E = bindE (lext (le_outputs E)) (\<lambda>outputs. seqE (lnote (Seen outputs)) (returnE outputs))"

definition configure :: "'w layout_env \<Rightarrow> Setting \<Rightarrow> ('w layout_sys, unit) eff" where
  "configure E setting =
     bindE (liftE (Setting_command setting)) (\<lambda>cmd.
     seqE (lnote (Configured setting)) (lext (le_execute E cmd)))"

text \<open>The layout file: read back as stored, replaced atomically; a failed write may still have replaced it.\<close>

definition load_layout :: "'w layout_env \<Rightarrow> ('w layout_sys, Document) eff" where
  "load_layout E = seqE (lext (le_readable E)) (getE ly_disk)"

definition save_layout :: "'w layout_env \<Rightarrow> Document \<Rightarrow> ('w layout_sys, unit) eff" where
  "save_layout E doc s =
     (case le_write E doc (ly_world s) of ((r, replaced), w) \<Rightarrow>
       (r, if is_ok r \<or> replaced
           then s\<lparr>ly_world := w, ly_disk := doc, ly_log := ly_log s @ [Stored doc]\<rparr>
           else s\<lparr>ly_world := w\<rparr>))"

definition set_runtime :: "(LayoutRuntime \<Rightarrow> LayoutRuntime) \<Rightarrow> ('w layout_sys, unit) eff" where
  "set_runtime f = modifyE (\<lambda>s. s\<lparr>ly_runtime := f (ly_runtime s)\<rparr>)"

definition layout_interrupted :: "'w layout_env \<Rightarrow> nat \<Rightarrow> 'w layout_sys \<Rightarrow> bool" where
  "layout_interrupted E generation s \<longleftrightarrow>
     le_preparing E (ly_world s) \<or> le_generation E (ly_world s) \<noteq> generation"

definition ensure_policy_change_allowed :: "'w layout_env \<Rightarrow> ('w layout_sys, unit) eff" where
  "ensure_policy_change_allowed E = bindE (load_layout E) (\<lambda>doc.
     ensureE (doc_trial doc = None) ''Confirm or revert the display layout before changing docking policy'')"

definition use_docking_policy :: "'w layout_env \<Rightarrow> ('w layout_sys, Document) eff" where
  "use_docking_policy E = bindE (load_layout E) (\<lambda>doc.
     if manual_enablement doc then
       let doc = doc\<lparr>manual_enablement := False\<rparr> in seqE (save_layout E doc) (returnE doc)
     else returnE doc)"

section \<open>Applying a layout\<close>

definition has_mirrors_named :: "Output list \<Rightarrow> string \<Rightarrow> bool" where
  "has_mirrors_named outputs name =
     list_ex (\<lambda>o'. active o' \<and> (case mirror_source outputs o' of
        Some source \<Rightarrow> out_name source = name | None \<Rightarrow> False)) outputs"

definition setting_guard :: "Output list \<Rightarrow> Setting \<Rightarrow> unit result" where
  "setting_guard outputs setting =
     and_then (if \<not> st_enabled setting \<or> st_mirror_of setting \<noteq> [] then
         ensure (\<not> has_mirrors_named outputs (st_name setting)) ''Detach mirrors before changing their source''
       else Ok ()) (\<lambda>_.
     and_then (if st_enabled setting \<and> st_mirror_of setting \<noteq> [] then
         ensure (list_ex (\<lambda>o'. out_name o' = st_mirror_of setting \<and> usable o') outputs)
           ''Mirror source is not usable; keeping the current display''
       else Ok ()) (\<lambda>_.
     if \<not> st_enabled setting then
       ensure (list_ex (\<lambda>o'. out_name o' \<noteq> st_name setting \<and> usable o') outputs)
         ''No replacement display is usable; keeping fallback''
     else Ok ()))"

definition apply_setting :: "'w layout_env \<Rightarrow> nat \<Rightarrow> Setting \<Rightarrow> ('w layout_sys, unit) eff" where
  "apply_setting E generation setting =
     seqE (lext (le_eligible E))
     (bindE (getE (layout_interrupted E generation)) (\<lambda>interrupted.
      seqE (ensureE (\<not> interrupted) ''Sleep interrupted display changes'')
      (bindE (see_outputs E) (\<lambda>outputs.
       case find_output (st_name setting) outputs of
         None \<Rightarrow> returnE ()
       | Some output \<Rightarrow>
         if Setting_matches outputs output setting then returnE ()
         else seqE (liftE (setting_guard outputs setting)) (configure E setting)))))"

definition must_detach :: "Output list \<Rightarrow> Layout \<Rightarrow> Output \<Rightarrow> bool" where
  "must_detach current layout output =
     (active output \<and> mirrored output \<and>
      (case find (\<lambda>s. st_name s = out_name output) layout of
         None \<Rightarrow> False
       | Some setting \<Rightarrow> \<not> st_enabled setting
           \<or> map_option out_name (mirror_source current output) \<noteq> Some (st_mirror_of setting)))"

definition setting_rank :: "Setting \<Rightarrow> nat" where
  "setting_rank s = (if \<not> st_enabled s then 2 else if st_mirror_of s \<noteq> [] then 1 else 0)"

definition apply_layout :: "'w layout_env \<Rightarrow> Layout \<Rightarrow> ('w layout_sys, unit) eff" where
  "apply_layout E layout =
     bindE (getE (\<lambda>s. le_generation E (ly_world s))) (\<lambda>generation.
     bindE (see_outputs E) (\<lambda>current.
     seqE (forE (\<lambda>output. apply_setting E generation ((Setting_observed current output)\<lparr>st_mirror_of := []\<rparr>))
             (filter (must_detach current layout) current))
          (forE (apply_setting E generation) (sort_key setting_rank layout))))"

section \<open>Previews\<close>

definition baseline :: "'w layout_env \<Rightarrow> Output list \<Rightarrow> bool \<Rightarrow> string" where
  "baseline E outputs prefer_external =
     le_hash E prefer_external
       (map (\<lambda>o'. (out_id o', out_name o', out_description o', Setting_observed outputs o',
              sort (available_modes o')))
         (sort_key out_name (filter (\<lambda>o'. connector (out_name o')) outputs)))"

definition preview :: "'w layout_env \<Rightarrow> string \<Rightarrow> Layout \<Rightarrow> ('w layout_sys, Document) eff" where
  "preview E drafted proposed =
     seqE (lext (le_eligible E))
     (bindE (getE (\<lambda>s. (le_docking E (ly_world s), le_preparing E (ly_world s)))) (\<lambda>(docking, preparing).
      seqE (ensureE (docking \<noteq> Applying)
        ''Wait for the docking change to finish before changing display settings'')
      (seqE (ensureE (\<not> preparing) ''Cannot preview displays during sleep preparation'')
      (bindE (load_layout E) (\<lambda>doc.
       seqE (ensureE (doc_trial doc = None) ''Confirm or revert the previous layout first'')
       (bindE (see_outputs E) (\<lambda>outputs.
        bindE (getE (\<lambda>s. le_prefer_external E (ly_world s))) (\<lambda>policy.
        seqE (ensureE (drafted = baseline E outputs policy) ''Display baseline is stale; reload the layout'')
        (seqE (liftE (Layout_validate proposed outputs True))
        (let previous = Layout_observed outputs in
         seqE (liftE (Layout_validate previous outputs True))
         (seqE (liftE (validate_arrangement proposed previous))
         (bindE (lext (le_fresh E)) (\<lambda>tid.
          bindE (lext (le_now E)) (\<lambda>now.
          let doc = doc\<lparr>doc_trial := Some \<lparr>tr_id = tid, expires_at = now + PREVIEW_SECONDS,
                tr_proposed = proposed, tr_previous = previous\<rparr>\<rparr> in
          seqE (save_layout E doc)
          (bindE (lext (le_instant E)) (\<lambda>instant.
           bindE (getE (\<lambda>s. le_generation E (ly_world s))) (\<lambda>resume.
           seqE (set_runtime (\<lambda>rt. rt\<lparr>rt_trial := Some tid,
                   rt_deadline := Some (instant + 1000 * PREVIEW_SECONDS),
                   rt_topology := topology outputs, rt_applied := True, rt_error := None,
                   rt_resume := resume\<rparr>))
           (seqE (catchE (apply_layout E proposed)
                   (\<lambda>e. seqE (set_runtime (\<lambda>rt. rt\<lparr>rt_trial := None\<rparr>)) (throwE e)))
           (returnE doc)))))))))))))))))))"

definition layout_applied :: "Output list \<Rightarrow> Layout \<Rightarrow> bool" where
  "layout_applied outputs layout =
     list_all (\<lambda>s. case find_output (st_name s) outputs of
        Some o' \<Rightarrow> Setting_matches outputs o' s | None \<Rightarrow> False) layout"

definition changes_enablement :: "Trial \<Rightarrow> bool" where
  "changes_enablement trial =
     list_ex (\<lambda>setting. list_ex (\<lambda>previous. st_name previous = st_name setting
        \<and> (st_enabled previous \<noteq> st_enabled setting \<or> st_mirror_of previous \<noteq> st_mirror_of setting))
        (tr_previous trial)) (tr_proposed trial)"

definition revert_trial :: "'w layout_env \<Rightarrow> Trial \<Rightarrow> ('w layout_sys, unit) eff" where
  "revert_trial E trial = bindE (see_outputs E) (\<lambda>outputs.
     apply_layout E (Layout_connected outputs (tr_previous trial)))"

text \<open>The checks of a confirmation, and the document it stores.\<close>

definition confirm_trial :: "'w layout_env \<Rightarrow> string \<Rightarrow> Document \<Rightarrow> Trial \<Rightarrow> ('w layout_sys, Document) eff" where
  "confirm_trial E tid doc trial =
     bindE (lext (le_now E)) (\<lambda>now. bindE (lext (le_instant E)) (\<lambda>instant.
     bindE (getE ly_runtime) (\<lambda>rt.
     seqE (ensureE (rt_trial rt = Some tid \<and> now < expires_at trial
             \<and> (case rt_deadline rt of Some deadline \<Rightarrow> instant < deadline | None \<Rightarrow> False))
           ''Layout confirmation expired'')
     (bindE (getE (layout_interrupted E (rt_resume rt))) (\<lambda>interrupted.
      seqE (ensureE (\<not> interrupted) ''Sleep interrupted the preview'')
      (bindE (see_outputs E) (\<lambda>outputs.
       seqE (ensureE (topology outputs = rt_topology rt) ''Display topology changed during the preview'')
       (seqE (liftE (Layout_validate (tr_proposed trial) outputs True))
       (seqE (ensureE (layout_applied outputs (tr_proposed trial))
               ''Compositor has not applied the requested layout'')
       (returnE (doc\<lparr>manual_enablement := (manual_enablement doc \<or> changes_enablement trial),
                     saved_layout := tr_proposed trial\<rparr>)))))))))))"

definition finish :: "'w layout_env \<Rightarrow> string \<Rightarrow> bool \<Rightarrow> ('w layout_sys, Document) eff" where
  "finish E tid confirm =
     bindE (load_layout E) (\<lambda>doc0.
     bindE (liftE (ok_or ''No layout preview is pending'' (doc_trial doc0))) (\<lambda>trial.
     let doc = doc0\<lparr>doc_trial := None\<rparr> in
     seqE (ensureE (tr_id trial = tid) ''This layout preview is stale'')
     (seqE (lext (le_eligible E))
     (bindE (if confirm then confirm_trial E tid doc trial
             else seqE (revert_trial E trial) (returnE doc)) (\<lambda>doc.
      seqE (save_layout E doc)
      (seqE (set_runtime (\<lambda>rt. rt\<lparr>rt_trial := None, rt_applied := True, rt_error := None\<rparr>))
      (returnE doc)))))))"

text \<open>
  A saved layout gets one attempt per stable topology and resume. A failed attempt stays the error of
  later ticks.
\<close>

definition saved_error :: "error \<Rightarrow> string" where
  "saved_error e = ''Saved layout was not applied: '' @ err_chain e
     @ ''. Preview a corrected layout to retry.''"

definition apply_saved ::
  "'w layout_env \<Rightarrow> Document \<Rightarrow> Output list \<Rightarrow> nat \<Rightarrow> ('w layout_sys, bool) eff" where
  "apply_saved E doc outputs instant =
     bindE (getE ly_runtime) (\<lambda>self.
     let try = \<not> rt_applied self \<and> saved_layout doc \<noteq> [];
         settling = (case rt_since self of Some since \<Rightarrow> instant - since < 5000 | None \<Rightarrow> False) in
     if try \<and> settling then returnE True
     else
       seqE (if try then
               let present = Document_restoration outputs doc in
               seqE (set_runtime (\<lambda>rt. rt\<lparr>rt_applied := True\<rparr>))
               (if list_ex st_enabled present then
                  bindE (attemptE (seqE (liftE (Layout_validate present outputs False)) (apply_layout E present))) (\<lambda>res.
                  set_runtime (\<lambda>rt. rt\<lparr>rt_error := (case res of Inl e \<Rightarrow> Some (saved_error e) | Inr _ \<Rightarrow> None)\<rparr>))
                else returnE ())
             else returnE ())
       (bindE (getE (\<lambda>s. rt_error (ly_runtime s))) (\<lambda>failed.
        case failed of Some e \<Rightarrow> throwE (err e) | None \<Rightarrow> returnE False)))"

definition trial_current :: "'w layout_env \<Rightarrow> Trial \<Rightarrow> nat \<Rightarrow> nat \<Rightarrow> nat \<Rightarrow> ('w layout_sys, bool) eff" where
  "trial_current E trial generation now instant =
     bindE (getE ly_runtime) (\<lambda>rt.
     if rt_trial rt = Some (tr_id trial) \<and> now < expires_at trial
        \<and> (case rt_deadline rt of Some deadline \<Rightarrow> instant < deadline | None \<Rightarrow> False)
        \<and> rt_resume rt = generation
     then bindE (see_outputs E) (\<lambda>outputs. returnE (topology outputs = rt_topology rt))
     else returnE False)"

definition observe_topology :: "Output list \<Rightarrow> nat \<Rightarrow> nat \<Rightarrow> LayoutRuntime \<Rightarrow> LayoutRuntime" where
  "observe_topology outputs generation instant rt =
     (if topology outputs \<noteq> rt_topology rt \<or> rt_resume rt \<noteq> generation
      then rt\<lparr>rt_topology := topology outputs, rt_resume := generation, rt_since := Some instant,
              rt_applied := False, rt_error := None\<rparr>
      else rt)"

definition tick :: "'w layout_env \<Rightarrow> nat \<Rightarrow> nat \<Rightarrow> ('w layout_sys, Document \<times> bool) eff" where
  "tick E now instant =
     bindE (load_layout E) (\<lambda>doc.
     bindE (getE (\<lambda>s. (le_preparing E (ly_world s), le_generation E (ly_world s)))) (\<lambda>(preparing, generation).
     if preparing then seqE (set_runtime (\<lambda>rt. rt\<lparr>rt_trial := None\<rparr>)) (returnE (doc, True))
     else case doc_trial doc of
       Some trial \<Rightarrow>
         bindE (trial_current E trial generation now instant) (\<lambda>current.
         if current then returnE (doc, True)
         else
           seqE (revert_trial E trial)
           (let doc = doc\<lparr>doc_trial := None\<rparr> in
            seqE (save_layout E doc)
            (seqE (set_runtime (\<lambda>rt. rt\<lparr>rt_trial := None, rt_applied := True\<rparr>))
            (returnE (doc, False)))))
     | None \<Rightarrow>
         bindE (see_outputs E) (\<lambda>outputs.
         seqE (set_runtime (observe_topology outputs generation instant))
         (bindE (apply_saved E doc outputs instant) (\<lambda>paused. returnE (doc, paused))))))"

definition saved_internal :: "'w layout_env \<Rightarrow> string \<Rightarrow> ('w layout_sys, Setting option) eff" where
  "saved_internal E name = bindE (load_layout E) (\<lambda>doc.
     returnE (map_option (\<lambda>s. s\<lparr>st_enabled := True, st_mirror_of := []\<rparr>)
       (find (\<lambda>s. st_name s = name) (saved_layout doc))))"

section \<open>What every configuration is guarded by\<close>

datatype layout_op = Do_Preview string Layout | Do_Finish string bool | Do_Tick nat nat | Do_Docking_Policy | Do_Restart

fun layout_step :: "'w layout_env \<Rightarrow> 'w layout_sys \<Rightarrow> layout_op \<Rightarrow> 'w layout_sys" where
  "layout_step E s (Do_Preview drafted proposed) = snd (preview E drafted proposed s)"
| "layout_step E s (Do_Finish tid confirm) = snd (finish E tid confirm s)"
| "layout_step E s (Do_Tick now instant) = snd (tick E now instant s)"
| "layout_step E s Do_Docking_Policy = snd (use_docking_policy E s)"
| "layout_step E s Do_Restart = s\<lparr>ly_runtime := LayoutRuntime_default\<rparr>"

definition layout_start :: "'w \<Rightarrow> Document \<Rightarrow> 'w layout_sys" where
  "layout_start w doc = \<lparr>ly_runtime = LayoutRuntime_default, ly_disk = doc, ly_world = w, ly_log = []\<rparr>"

definition guarded_log :: "layout_event list \<Rightarrow> bool" where
  "guarded_log es = (\<forall>pre s post. es = pre @ Configured s # post \<longrightarrow>
     (\<exists>outputs. pre \<noteq> [] \<and> last pre = Seen outputs \<and> setting_guard outputs s = Inr ()))"

abbreviation guarded :: "'w layout_sys \<Rightarrow> bool" where
  "guarded s \<equiv> guarded_log (ly_log s)"

lemma guarded_Nil [simp]: "guarded_log []"
  by (simp add: guarded_log_def)

lemma guarded_snoc:
  "guarded_log (es @ [e]) \<longleftrightarrow> guarded_log es \<and> (\<forall>s. e = Configured s \<longrightarrow>
     (\<exists>outputs. es \<noteq> [] \<and> last es = Seen outputs \<and> setting_guard outputs s = Inr ()))"
  (is "?l \<longleftrightarrow> ?r")
proof
  assume l: ?l
  have "guarded_log es"
    unfolding guarded_log_def
  proof (intro allI impI)
    fix pre s post
    assume "es = pre @ Configured s # post"
    then have "es @ [e] = pre @ Configured s # (post @ [e])" by simp
    with l show "\<exists>outputs. pre \<noteq> [] \<and> last pre = Seen outputs \<and> setting_guard outputs s = Inr ()"
      unfolding guarded_log_def by blast
  qed
  with l show ?r unfolding guarded_log_def by blast
next
  assume r: ?r
  show ?l
    unfolding guarded_log_def
  proof (intro allI impI)
    fix pre s post
    assume "es @ [e] = pre @ Configured s # post"
    with r show "\<exists>outputs. pre \<noteq> [] \<and> last pre = Seen outputs \<and> setting_guard outputs s = Inr ()"
      unfolding guarded_log_def by (cases post rule: rev_cases) auto
  qed
qed

lemma lext_keeps [pres_intros]: "(\<And>s w. I s \<Longrightarrow> I (s\<lparr>ly_world := w\<rparr>)) \<Longrightarrow> preserves I (lext m)"
  by (auto simp: preserves_def lext_def split: prod.splits)

lemma lnote_keeps [pres_intros]:
  "(\<And>s. I s \<Longrightarrow> I (s\<lparr>ly_log := ly_log s @ [x]\<rparr>)) \<Longrightarrow> preserves I (lnote x)"
  by (simp add: lnote_def preserves_modifyE)

lemma set_runtime_keeps [pres_intros]:
  "(\<And>s. I s \<Longrightarrow> I (s\<lparr>ly_runtime := f (ly_runtime s)\<rparr>)) \<Longrightarrow> preserves I (set_runtime f)"
  by (simp add: set_runtime_def preserves_modifyE)

lemma save_layout_keeps [pres_intros]:
  assumes "\<And>s w. I s \<Longrightarrow> I (s\<lparr>ly_world := w\<rparr>)"
    and "\<And>s w. I s \<Longrightarrow> I (s\<lparr>ly_world := w, ly_disk := doc, ly_log := ly_log s @ [Stored doc]\<rparr>)"
  shows "preserves I (save_layout E doc)"
  using assms by (auto simp: preserves_def save_layout_def split: prod.splits)

lemma load_layout_keeps [pres_intros]:
  "(\<And>s w. I s \<Longrightarrow> I (s\<lparr>ly_world := w\<rparr>)) \<Longrightarrow> preserves I (load_layout E)"
  by (simp add: load_layout_def pres_intros)

lemma see_outputs_keeps [pres_intros]:
  assumes "\<And>s w. I s \<Longrightarrow> I (s\<lparr>ly_world := w\<rparr>)"
    and "\<And>s x. I s \<Longrightarrow> I (s\<lparr>ly_log := ly_log s @ [Seen x]\<rparr>)"
  shows "preserves I (see_outputs E)"
  unfolding see_outputs_def by (intro pres_intros pres_cases assms)

text \<open>Reading the outputs leaves the observation as the newest event.\<close>

lemma see_outputs_wp [wp_intros]:
  assumes "\<And>w outputs. Q outputs (s\<lparr>ly_world := w, ly_log := ly_log s @ [Seen outputs]\<rparr>)"
    and "\<And>w. R (s\<lparr>ly_world := w\<rparr>)"
  shows "wp (see_outputs E) Q R s"
  unfolding see_outputs_def lnote_def lext_def
  by (intro wp_intros, auto simp: wp_def eff_defs assms split: prod.splits sum.splits)

lemma lext_wp [wp_intros]:
  assumes "\<And>x w. m (ly_world s) = (Inr x, w) \<Longrightarrow> Q x (s\<lparr>ly_world := w\<rparr>)" and "\<And>w. R (s\<lparr>ly_world := w\<rparr>)"
  shows "wp (lext m) Q R s"
  by (auto simp: wp_def lext_def assms split: prod.splits sum.splits)

lemma configure_wp [wp_intros]:
  assumes "\<And>x w. Q x (s\<lparr>ly_log := ly_log s @ [Configured setting], ly_world := w\<rparr>)"
    and "\<And>w. R (s\<lparr>ly_log := ly_log s @ [Configured setting], ly_world := w\<rparr>)" and "R s"
  shows "wp (configure E setting) Q R s"
  unfolding configure_def lnote_def using assms by (intro wp_intros) (simp_all add: eff_defs)

text \<open>
  A predicate kept by steps of the world, by observations, and by a guarded configuration right after
  its observation is kept by a whole application of a layout.
\<close>

lemma apply_setting_keeps:
  assumes w: "\<And>s w. I s \<Longrightarrow> I (s\<lparr>ly_world := w\<rparr>)"
    and seen: "\<And>s x. I s \<Longrightarrow> I (s\<lparr>ly_log := ly_log s @ [Seen x]\<rparr>)"
    and conf: "\<And>s x c. I s \<Longrightarrow> setting_guard x c = Inr () \<Longrightarrow>
      I (s\<lparr>ly_log := ly_log s @ [Seen x, Configured c]\<rparr>)"
  shows "preserves I (apply_setting E g setting)"
proof (rule preservesI)
  fix s
  assume s: "I s"
  have obs: "I (s\<lparr>ly_world := v, ly_log := ly_log s @ [Seen x]\<rparr>)" for v x
    using seen [OF w [OF s]] by simp
  have cfg: "I (s\<lparr>ly_log := ly_log s @ [Seen x, Configured c], ly_world := v\<rparr>)"
    if "setting_guard x c = Inr ()" for v x c
    using w [OF conf [OF s that]] by simp
  have "wp (apply_setting E g setting) (\<lambda>_. I) I s"
    unfolding apply_setting_def by (intro wp_intros) (simp_all add: s w obs cfg)
  then show "I (snd (apply_setting E g setting s))" by (rule wp_snd) simp_all
qed

lemma apply_layout_keeps:
  assumes "\<And>s w. I s \<Longrightarrow> I (s\<lparr>ly_world := w\<rparr>)"
    and "\<And>s x. I s \<Longrightarrow> I (s\<lparr>ly_log := ly_log s @ [Seen x]\<rparr>)"
    and "\<And>s x c. I s \<Longrightarrow> setting_guard x c = Inr () \<Longrightarrow>
      I (s\<lparr>ly_log := ly_log s @ [Seen x, Configured c]\<rparr>)"
  shows "preserves I (apply_layout E layout)" and "preserves I (revert_trial E trial)"
  unfolding apply_layout_def revert_trial_def
  by (intro pres_intros pres_cases apply_setting_keeps assms; assumption)+

lemma guarded_seen: "guarded_log es \<Longrightarrow> guarded_log (es @ [Seen x])"
  and guarded_stored: "guarded_log es \<Longrightarrow> guarded_log (es @ [Stored doc])"
  by (simp_all add: guarded_snoc)

lemma guarded_configured:
  "guarded_log es \<Longrightarrow> setting_guard x c = Inr () \<Longrightarrow> guarded_log (es @ [Seen x, Configured c])"
  using guarded_snoc [of "es @ [Seen x]" "Configured c"] guarded_seen by simp

lemma apply_layout_guarded [pres_intros]:
  "preserves guarded (apply_layout E layout)" "preserves guarded (revert_trial E trial)"
  by (rule apply_layout_keeps; simp add: guarded_seen guarded_configured)+

lemma preview_guarded: "preserves guarded (preview E drafted proposed)"
  unfolding preview_def by (intro pres_intros pres_cases) (simp_all add: guarded_seen guarded_stored)

lemma finish_guarded: "preserves guarded (finish E tid confirm)"
  unfolding finish_def confirm_trial_def by (intro pres_intros pres_cases) (simp_all add: guarded_seen guarded_stored)

lemma tick_guarded: "preserves guarded (tick E now instant)"
  unfolding tick_def trial_current_def apply_saved_def
  by (intro pres_intros pres_cases) (simp_all add: guarded_seen guarded_stored)

lemma use_docking_policy_guarded: "preserves guarded (use_docking_policy E)"
  unfolding use_docking_policy_def by (intro pres_intros pres_cases) (simp_all add: guarded_seen guarded_stored)

lemmas layout_ops_guarded = preview_guarded finish_guarded tick_guarded use_docking_policy_guarded

interpretation layout: machine "layout_start w doc" "layout_step E" guarded
proof
  show "guarded (layout_start w doc)" by (simp add: layout_start_def)
  show "guarded (layout_step E s x)" if "guarded s" for s x
    using that layout_ops_guarded [THEN preservesD] by (cases x) simp_all
qed

text \<open>
  In every sequence of previews, confirmations, reverts, monitor ticks, policy changes and daemon
  restarts, a display setting is sent to the compositor only directly after an observation of the
  outputs in which: another display is usable, if the setting turns its display off; the mirror source
  is usable, if it mirrors; and no active display mirrors the one that is turned off or becomes a
  mirror.
\<close>

theorem layout_changes_keep_a_screen:
  assumes "ly_log (run (layout_step E) (layout_start w doc) ops) = pre @ Configured s # post"
  shows "\<exists>outputs. pre \<noteq> [] \<and> last pre = Seen outputs
    \<and> (\<not> st_enabled s \<longrightarrow> (\<exists>o'\<in>set outputs. out_name o' \<noteq> st_name s \<and> usable o'))
    \<and> (st_enabled s \<and> st_mirror_of s \<noteq> [] \<longrightarrow>
         (\<exists>o'\<in>set outputs. out_name o' = st_mirror_of s \<and> usable o'))
    \<and> (\<not> st_enabled s \<or> st_mirror_of s \<noteq> [] \<longrightarrow> \<not> has_mirrors_named outputs (st_name s))"
proof -
  have "guarded_log (pre @ Configured s # post)"
    using layout.inv_run [of E w doc ops] assms by simp
  then obtain outputs where "pre \<noteq> []" "last pre = Seen outputs" "setting_guard outputs s = Inr ()"
    unfolding guarded_log_def by blast
  then show ?thesis
    by (intro exI [of _ outputs])
      (auto simp: setting_guard_def and_then_Ok_iff list_ex_iff split: if_splits)
qed

section \<open>Previews are recoverable\<close>

lemma load_layout_wp [wp_intros]:
  assumes "\<And>w. Q (ly_disk s) (s\<lparr>ly_world := w\<rparr>)" and "\<And>w. R (s\<lparr>ly_world := w\<rparr>)"
  shows "wp (load_layout E) Q R s"
  unfolding load_layout_def using assms by (intro wp_intros) simp_all

lemma save_layout_wp [wp_intros]:
  assumes "\<And>w. Q () (s\<lparr>ly_world := w, ly_disk := doc, ly_log := ly_log s @ [Stored doc]\<rparr>)"
    and "\<And>w. R (s\<lparr>ly_world := w, ly_disk := doc, ly_log := ly_log s @ [Stored doc]\<rparr>)"
    and "\<And>w. R (s\<lparr>ly_world := w\<rparr>)"
  shows "wp (save_layout E doc) Q R s"
  using assms by (auto simp: wp_def save_layout_def split: prod.splits sum.splits)

lemma set_runtime_wp [wp_intros]:
  "Q () (s\<lparr>ly_runtime := f (ly_runtime s)\<rparr>) \<Longrightarrow> wp (set_runtime f) Q R s"
  unfolding set_runtime_def by (rule wp_modifyE)

text \<open>Applying a layout stores nothing and leaves the runtime alone.\<close>

fun storing :: "layout_event \<Rightarrow> bool" where
  "storing (Stored doc) = True"
| "storing x = False"

definition unstored :: "'w layout_sys \<Rightarrow> 'w layout_sys \<Rightarrow> bool" where
  "unstored s t \<longleftrightarrow> ly_disk t = ly_disk s \<and> ly_runtime t = ly_runtime s
     \<and> (\<exists>es. ly_log t = ly_log s @ es \<and> list_all (Not \<circ> storing) es)"

lemma unstored_refl [simp]: "unstored s s"
  by (auto simp: unstored_def intro: exI [of _ "[]"])

lemma unstored_snoc:
  "unstored s t \<Longrightarrow> list_all (Not \<circ> storing) es \<Longrightarrow> unstored s (t\<lparr>ly_log := ly_log t @ es\<rparr>)"
  unfolding unstored_def by (metis (no_types, lifting) append.assoc layout_sys.select_convs layout_sys.surjective
      layout_sys.update_convs(4) list_all_append)

lemma unstored_world: "unstored s t \<Longrightarrow> unstored s (t\<lparr>ly_world := w\<rparr>)"
  by (simp add: unstored_def)

lemma apply_layout_unstored:
  "preserves (unstored s) (apply_layout E layout)" "preserves (unstored s) (revert_trial E trial)"
  by (rule apply_layout_keeps; simp add: unstored_world unstored_snoc)+

lemma apply_layout_wp [wp_intros]:
  assumes "\<And>t. apply_layout E layout s = (Inr (), t) \<Longrightarrow> unstored s t \<Longrightarrow> Q () t"
    and "\<And>t. unstored s t \<Longrightarrow> R t"
  shows "wp (apply_layout E layout) Q R s"
  using apply_layout_unstored(1) [of s] by (rule wp_preserved) (use assms in auto)

definition recoverable :: "Layout \<Rightarrow> 'w layout_sys \<Rightarrow> 'w layout_sys \<Rightarrow> bool" where
  "recoverable proposed s t \<longleftrightarrow> (\<exists>outputs doc trial post.
     ly_log t = ly_log s @ [Seen outputs, Stored doc] @ post \<and> list_all (Not \<circ> storing) post
     \<and> ly_disk t = doc \<and> doc_trial doc = Some trial
     \<and> tr_proposed trial = proposed \<and> tr_previous trial = Layout_observed outputs
     \<and> Layout_validate proposed outputs True = Inr ()
     \<and> Layout_validate (Layout_observed outputs) outputs True = Inr ()
     \<and> validate_arrangement proposed (Layout_observed outputs) = Inr ())"

definition untouched :: "'w layout_sys \<Rightarrow> 'w layout_sys \<Rightarrow> bool" where
  "untouched s t \<longleftrightarrow> (\<exists>es. ly_log t = ly_log s @ es \<and> (\<forall>c. Configured c \<notin> set es))"

lemma untouchedI: "ly_log t = ly_log s @ es \<Longrightarrow> (\<And>c. Configured c \<notin> set es) \<Longrightarrow> untouched s t"
  by (auto simp: untouched_def)

lemma recoverable_later:
  assumes "recoverable proposed s t" and u: "unstored t u"
  shows "recoverable proposed s u"
proof -
  from assms(1) obtain outputs doc trial post where t: "ly_log t = ly_log s @ [Seen outputs, Stored doc] @ post"
    "list_all (Not \<circ> storing) post" "ly_disk t = doc" and rest: "doc_trial doc = Some trial"
    "tr_proposed trial = proposed" "tr_previous trial = Layout_observed outputs"
    "Layout_validate proposed outputs True = Inr ()"
    "Layout_validate (Layout_observed outputs) outputs True = Inr ()"
    "validate_arrangement proposed (Layout_observed outputs) = Inr ()"
    unfolding recoverable_def by blast
  from u obtain es where es: "ly_disk u = ly_disk t" "ly_log u = ly_log t @ es" "list_all (Not \<circ> storing) es"
    unfolding unstored_def by blast
  show ?thesis
    unfolding recoverable_def using t rest es
    by (intro exI [of _ outputs] exI [of _ doc] exI [of _ trial] exI [of _ "post @ es"] conjI) simp_all
qed

lemma recoverable_applied:
  assumes "unstored u t" "Layout_validate proposed outputs True = Inr ()"
    "Layout_validate (Layout_observed outputs) outputs True = Inr ()"
    "validate_arrangement proposed (Layout_observed outputs) = Inr ()"
    "ly_log u = ly_log s @ [Seen outputs, Stored (ly_disk u)]"
    "\<exists>trial. doc_trial (ly_disk u) = Some trial \<and> tr_proposed trial = proposed
      \<and> tr_previous trial = Layout_observed outputs"
  shows "recoverable proposed s t"
proof (rule recoverable_later [OF _ assms(1)])
  from assms(6) obtain trial where "doc_trial (ly_disk u) = Some trial" "tr_proposed trial = proposed"
    "tr_previous trial = Layout_observed outputs" by blast
  with assms(2-5) show "recoverable proposed s u"
    unfolding recoverable_def
    by (intro exI [of _ outputs] exI [of _ "ly_disk u"] exI [of _ trial] exI [of _ "[]"]) simp
qed

lemma recoverable_runtime [simp]: "recoverable proposed s (t\<lparr>ly_runtime := r\<rparr>) = recoverable proposed s t"
  by (simp add: recoverable_def)

lemma preview_wp: "wp (preview E drafted proposed) (\<lambda>_ t. recoverable proposed s t)
    (\<lambda>t. untouched s t \<or> recoverable proposed s t) s"
  unfolding preview_def
  apply (intro wp_intros allI)
  apply (simp_all add: untouched_def)
  subgoal by (rule recoverable_applied, assumption+) simp_all
  subgoal by (rule disjI2, rule recoverable_applied, assumption+) simp_all
  done

lemma use_docking_policy_trial:
  "preserves (\<lambda>s. doc_trial (ly_disk s) = v) (use_docking_policy E)"
proof (rule preservesI)
  fix s :: "'a layout_sys"
  assume "doc_trial (ly_disk s) = v"
  then have "wp (use_docking_policy E) (\<lambda>_ t. doc_trial (ly_disk t) = v) (\<lambda>t. doc_trial (ly_disk t) = v) s"
    unfolding use_docking_policy_def by (intro wp_intros) simp_all
  then show "doc_trial (ly_disk (snd (use_docking_policy E s))) = v" by (rule wp_snd)
qed

text \<open>How a pending preview may end.\<close>

definition confirmed :: "'w layout_env \<Rightarrow> Trial \<Rightarrow> 'w layout_sys \<Rightarrow> 'w layout_sys \<Rightarrow> bool" where
  "confirmed E trial s t \<longleftrightarrow> rt_trial (ly_runtime s) = Some (tr_id trial)
     \<and> saved_layout (ly_disk t) = tr_proposed trial
     \<and> (\<exists>v w now. le_now E v = (Inr now, w) \<and> now < expires_at trial)
     \<and> (\<exists>v w now deadline. le_instant E v = (Inr now, w) \<and> rt_deadline (ly_runtime s) = Some deadline \<and> now < deadline)
     \<and> (\<exists>v. \<not> le_preparing E v \<and> le_generation E v = rt_resume (ly_runtime s))
     \<and> (\<exists>outputs. Seen outputs \<in> set (drop (length (ly_log s)) (ly_log t))
          \<and> topology outputs = rt_topology (ly_runtime s)
          \<and> Layout_validate (tr_proposed trial) outputs True = Inr ()
          \<and> layout_applied outputs (tr_proposed trial))"

definition reverted :: "'w layout_env \<Rightarrow> Trial \<Rightarrow> bool" where
  "reverted E trial \<longleftrightarrow> (\<exists>u v outputs. last (ly_log u) = Seen outputs
     \<and> apply_layout E (Layout_connected outputs (tr_previous trial)) u = (Inr (), v))"

lemma revert_trial_wp [wp_intros]:
  assumes "\<And>t. reverted E trial \<Longrightarrow> unstored s t \<Longrightarrow> Q () t" and "\<And>t. unstored s t \<Longrightarrow> R t"
  shows "wp (revert_trial E trial) Q R s"
proof (rule wp_preserved [OF apply_layout_unstored(2) [of s]])
  fix x t
  assume r: "revert_trial E trial s = (Inr x, t)" and u: "unstored s t"
  have "wp (revert_trial E trial) (\<lambda>_ _. reverted E trial) (\<lambda>_. True) s"
    unfolding revert_trial_def
    by (intro wp_intros; simp add: reverted_def)
      (metis last_snoc layout_sys.select_convs(4) layout_sys.surjective layout_sys.update_convs(4))
  from wp_Ok [OF this r] assms(1) u show "Q x t" by simp
qed (use assms in auto)

abbreviation trial_kept :: "Trial \<Rightarrow> 'w layout_sys \<Rightarrow> bool" where
  "trial_kept trial t \<equiv> doc_trial (ly_disk t) = Some trial"

lemma unstored_disk: "unstored s t \<Longrightarrow> ly_disk t = ly_disk s"
  by (simp add: unstored_def)

lemma finish_revert_wp:
  assumes "trial_kept trial s"
  shows "wp (finish E tid False) (\<lambda>_ t. reverted E trial) (\<lambda>t. trial_kept trial t \<or> reverted E trial) s"
  unfolding finish_def using assms
  by (intro wp_intros; simp add: unstored_disk; fail)

lemma confirmedI:
  assumes "le_now E v1 = (Inr now, w1)" "le_instant E v2 = (Inr instant, w2)"
    "rt_trial (ly_runtime s) = Some tid \<and> now < expires_at trial
      \<and> (case rt_deadline (ly_runtime s) of None \<Rightarrow> False | Some deadline \<Rightarrow> instant < deadline)"
    "\<not> layout_interrupted E (rt_resume (ly_runtime s)) u"
    "topology outputs = rt_topology (ly_runtime s)" "Layout_validate (tr_proposed trial) outputs True = Inr ()"
    "layout_applied outputs (tr_proposed trial)"
    "saved_layout (ly_disk t) = tr_proposed trial" "ly_log t = ly_log s @ [Seen outputs, Stored doc]"
    "tr_id trial = tid"
  shows "confirmed E trial s t"
proof -
  from assms(3) obtain deadline where "rt_deadline (ly_runtime s) = Some deadline" "instant < deadline"
    by (cases "rt_deadline (ly_runtime s)") auto
  moreover from assms(4) have "\<exists>v. \<not> le_preparing E v \<and> le_generation E v = rt_resume (ly_runtime s)"
    by (auto simp: layout_interrupted_def)
  moreover have "Seen outputs \<in> set (drop (length (ly_log s)) (ly_log t))" using assms(9) by simp
  ultimately show ?thesis
    unfolding confirmed_def using assms(1,2,3,5-8,10) by blast
qed

lemma finish_confirm_wp:
  assumes "trial_kept trial s"
  shows "wp (finish E tid True) (\<lambda>_ t. tid = tr_id trial \<and> confirmed E trial s t)
     (\<lambda>t. trial_kept trial t \<or> (tid = tr_id trial \<and> confirmed E trial s t)) s"
  unfolding finish_def confirm_trial_def using assms
  apply (intro wp_intros)
  apply simp_all
  by (rule confirmedI; (assumption | simp))+

lemma tick_wp:
  assumes "trial_kept trial s"
  shows "wp (tick E now instant)
     (\<lambda>(doc, paused) t. if paused then trial_kept trial t \<and> doc_trial doc = Some trial
        else reverted E trial \<and> doc_trial doc = None \<and> ly_disk t = doc)
     (\<lambda>t. trial_kept trial t \<or> reverted E trial) s"
  unfolding tick_def trial_current_def using assms
  by (intro wp_intros; simp add: unstored_disk; fail)

lemma preview_keeps_trial:
  assumes "trial_kept trial s"
  shows "wp (preview E drafted proposed) (\<lambda>_ t. trial_kept trial t) (trial_kept trial) s"
  unfolding preview_def using assms by (intro wp_intros; simp; fail)


text \<open>
  A preview reconfigures a display only after it has stored, durably, a preview with the layout that
  was observed before it: whenever one of its settings is sent, the file has the proposal and the previous
  layout, both complete and valid for the observed outputs and not newly overlapping, and keeps them when
  the preview returns or fails.
\<close>

theorem preview_is_recoverable:
  assumes run: "preview E drafted proposed s = (res, t)"
    and sent: "Configured c \<in> set (drop (length (ly_log s)) (ly_log t))"
  shows "\<exists>outputs trial post.
    ly_log t = ly_log s @ [Seen outputs, Stored (ly_disk t)] @ post \<and> doc_trial (ly_disk t) = Some trial
    \<and> tr_proposed trial = proposed \<and> tr_previous trial = Layout_observed outputs
    \<and> Layout_validate proposed outputs True = Inr ()
    \<and> Layout_validate (Layout_observed outputs) outputs True = Inr ()
    \<and> validate_arrangement proposed (Layout_observed outputs) = Inr ()"
proof -
  have "untouched s t \<or> recoverable proposed s t"
    using wp_snd [OF preview_wp [of E drafted proposed s], of "\<lambda>t. untouched s t \<or> recoverable proposed s t"]
      run by simp
  moreover from sent have "\<not> untouched s t" by (auto simp: untouched_def)
  ultimately show ?thesis unfolding recoverable_def by blast
qed

text \<open>
  The monitor ends a preview that is no longer current. If a tick returns while the session is not
  preparing to sleep, a preview that is unknown to this process, past either deadline or started before the
  last resume has been reverted to its previous layout and is gone from the file; if the tick fails, the
  preview is still there for the next one unless the revert was already carried out.
\<close>

theorem stale_preview_reverted:
  assumes trial: "doc_trial (ly_disk s) = Some trial"
    and awake: "\<And>w. \<not> le_preparing E w"
    and stale: "rt_trial (ly_runtime s) \<noteq> Some (tr_id trial) \<or> expires_at trial \<le> now
      \<or> (case rt_deadline (ly_runtime s) of Some deadline \<Rightarrow> deadline \<le> instant | None \<Rightarrow> True)
      \<or> (\<forall>w. le_generation E w \<noteq> rt_resume (ly_runtime s))"
    and run: "tick E now instant s = (res, t)"
  shows "case res of Inr (doc, paused) \<Rightarrow> \<not> paused \<and> reverted E trial \<and> doc_trial doc = None \<and> ly_disk t = doc
         | Inl _ \<Rightarrow> doc_trial (ly_disk t) = Some trial \<or> reverted E trial"
proof -
  have "wp (tick E now instant)
     (\<lambda>(doc, paused) t. \<not> paused \<and> reverted E trial \<and> doc_trial doc = None \<and> ly_disk t = doc)
     (\<lambda>t. trial_kept trial t \<or> reverted E trial) s"
    unfolding tick_def trial_current_def using trial awake stale
    by (intro wp_intros; simp add: unstored_disk split: option.splits; metis?; fail)
  from wp_Ok [OF this] wp_Err [OF this] run show ?thesis by (cases res) auto
qed

section \<open>What validation guarantees\<close>

definition setting_valid :: "Layout \<Rightarrow> Output list \<Rightarrow> Setting \<Rightarrow> bool" where
  "setting_valid layout outputs s \<longleftrightarrow> Setting_validate s = Inr ()
     \<and> (\<exists>output. find_output (st_name s) outputs = Some output \<and> (st_enabled s \<longrightarrow>
         (st_mirror_of s \<noteq> [] \<longrightarrow> (\<exists>source\<in>set layout. st_name source = st_mirror_of s \<and> independent source))
         \<and> ((\<exists>m\<in>set (available_modes output). same_mode (st_mode s) m)
            \<or> same_mode (st_mode s) (observed_mode output))))"

lemma validate_settings_sound:
  "validate_settings layout outputs seen ss = Inr seen' \<Longrightarrow>
     list_all (setting_valid layout outputs) ss \<and> distinct (map st_name ss)
     \<and> set (map st_name ss) \<inter> set seen = {} \<and> set seen' = set seen \<union> set (map st_name ss)"
proof (induction ss arbitrary: seen)
  case (Cons s ss)
  from Cons.prems have v: "st_name s \<notin> set seen" "setting_valid layout outputs s"
    and rest: "validate_settings layout outputs (st_name s # seen) ss = Inr seen'"
    by (auto simp: and_then_Ok_iff setting_valid_def list_ex_iff split: if_splits)
  from Cons.IH [OF rest] v show ?case by auto
qed simp

text \<open>
  A layout that passes validation has between one and sixteen settings for distinct connected outputs,
  each with a connector name, mode, position, scale and rotation in range; every enabled setting uses a mode
  its output advertises or shows; every enabled mirror names an enabled setting of the layout that is not
  itself a mirror, so there are no chains or cycles; at least one display stays enabled and independent;
  and a complete layout covers every supported output.
\<close>

theorem layout_validation_sound:
  assumes "Layout_validate layout outputs whole = Inr ()"
  shows "1 \<le> length layout \<and> length layout \<le> 16 \<and> distinct (map st_name layout)
    \<and> (\<forall>s\<in>set layout. setting_valid layout outputs s) \<and> (\<exists>s\<in>set layout. independent s)
    \<and> (whole \<longrightarrow> (\<forall>o'\<in>set outputs. connector (out_name o') \<longrightarrow> out_name o' \<in> set (map st_name layout)))"
proof -
  from assms obtain seen where v: "layout \<noteq> []" "length layout \<le> 16"
    "validate_settings layout outputs [] layout = Inr seen" "list_ex independent layout"
    "whole \<longrightarrow> list_all (\<lambda>o'. connector (out_name o') \<longrightarrow> out_name o' \<in> set seen) outputs"
    by (auto simp: Layout_validate_def and_then_Ok_iff split: if_splits)
  from validate_settings_sound [OF v(3)] v(1,2,4,5) show ?thesis
    by (auto simp: list_all_iff list_ex_iff Suc_le_eq)
qed

lemma check_all_Ok: "check_all f bs = Inr () \<Longrightarrow> b \<in> set bs \<Longrightarrow> f b = Inr ()"
  by (induction bs) (auto simp: and_then_Ok_iff)

lemma check_pairs_Ok:
  "check_pairs previous as = Inr () \<Longrightarrow> i < j \<Longrightarrow> j < length as \<Longrightarrow> check_pair previous (as ! i) (as ! j) = Inr ()"
proof (induction as arbitrary: i j)
  case (Cons a as)
  then obtain k where j: "j = Suc k" by (cases j) auto
  with Cons.prems show ?case
    by (cases i) (auto simp: and_then_Ok_iff dest!: check_all_Ok [where b = "as ! k"] intro: Cons.IH)
qed simp

text \<open>
  In an arrangement that passes the check, two independent displays overlap only where both had the
  very same rectangle before: an overlap is never introduced or moved by a preview.
\<close>

theorem arrangement_adds_no_overlap:
  assumes "validate_arrangement next previous = Inr ()"
    and "i < j" "j < length (filter independent next)"
    and "a = filter independent next ! i" "b = filter independent next ! j"
    and "rect a = Inr ra" "rect b = Inr rb" "overlap ra rb"
  shows "\<exists>olda\<in>set previous. \<exists>oldb\<in>set previous. independent olda \<and> independent oldb
    \<and> st_name olda = st_name a \<and> st_name oldb = st_name b \<and> rect olda = Inr ra \<and> rect oldb = Inr rb"
proof -
  have "check_pair previous a b = Inr ()"
    using check_pairs_Ok [of previous "filter independent next" i j] assms
    by (simp add: validate_arrangement_def)
  then have u: "unchanged_rect previous a" "unchanged_rect previous b"
    using assms(6-8) by (auto simp: check_pair_def)
  have old: "\<exists>old\<in>set previous. independent old \<and> st_name old = st_name c \<and> rect old = Inr rc"
    if c: "unchanged_rect previous c" "rect c = Inr rc" for c rc
  proof -
    from c obtain old where f: "find (\<lambda>old. st_name old = st_name c) (filter independent previous) = Some old"
      and r: "rect_ok old = rect_ok c"
      by (auto simp: unchanged_rect_def split: option.splits)
    from r c(2) have "rect old = Inr rc" by (cases "rect old") (simp_all add: rect_ok_def)
    with find_Some_mem [OF f] show ?thesis by auto
  qed
  from old [OF u(1) assms(6)] old [OF u(2) assms(7)] show ?thesis by blast
qed

section \<open>Examples\<close>

definition example_output :: "string \<Rightarrow> int \<Rightarrow> int \<Rightarrow> Output" where
  "example_output name n x = \<lparr>out_id = n, out_name = name, out_description = [], out_width = 1, out_height = 1,
     out_disabled = False, out_focused = False, out_scale = Fin 1, out_refresh_rate = Fin 1, out_x = x, out_y = 0,
     out_transform = 0, available_modes = [''1x1@1''], mirror_of = []\<rparr>"

definition example_setting :: "string \<Rightarrow> int \<Rightarrow> bool \<Rightarrow> Setting" where
  "example_setting name x enabled = \<lparr>st_name = name, st_mode = ''1x1@1'', st_x = x, st_y = 0, st_scale = Fin 1,
     st_transform = 0, st_enabled = enabled, st_mirror_of = []\<rparr>"

definition example_execute :: "string \<times> Layout_rule \<Rightarrow> Output list \<Rightarrow> Output list" where
  "example_execute cmd = map (\<lambda>o'. if out_name o' = fst cmd then (case snd cmd of
       Layout_Disable \<Rightarrow> o'\<lparr>out_disabled := True\<rparr>
     | Layout_Enable m x y sc tr mi \<Rightarrow> o'\<lparr>out_disabled := False, out_x := x, out_y := y\<rparr>) else o')"

definition example_env :: "Output list layout_env" where
  "example_env = \<lparr>le_eligible = returnE (), le_outputs = getE (\<lambda>w. w), le_execute = (\<lambda>cmd. modifyE (example_execute cmd)),
     le_preparing = (\<lambda>_. False), le_generation = (\<lambda>_. 0), le_docking = (\<lambda>_. Settled),
     le_prefer_external = (\<lambda>_. True), le_readable = returnE (), le_write = (\<lambda>_ w. ((Inr (), True), w)),
     le_now = returnE 0, le_instant = returnE 0, le_fresh = returnE ''1'', le_hash = (\<lambda>_ _. ''b'')\<rparr>"

definition example_trial :: "Layout \<Rightarrow> Layout \<Rightarrow> Document" where
  "example_trial proposed previous = \<lparr>manual_enablement = False, saved_layout = [],
     doc_trial = Some \<lparr>tr_id = ''1'', expires_at = 20, tr_proposed = proposed, tr_previous = previous\<rparr>\<rparr>"

lemmas example_defs = example_output_def example_setting_def example_execute_def example_env_def example_trial_def

lemmas layout_eval = Let_def eff_defs finish_def confirm_trial_def tick_def trial_current_def preview_def revert_trial_def apply_layout_def apply_setting_def
  see_outputs_def lext_def lnote_def configure_def load_layout_def save_layout_def set_runtime_def
  layout_interrupted_def find_output_def Setting_matches_def Setting_command_def Setting_validate_def
  setting_guard_def must_detach_def setting_rank_def has_mirrors_named_def Layout_connected_def
  mirror_source_def mirrored_def active_def usable_def ok_or_def is_ok_def ensure_def

lemma example_connectors: "connector ''eDP-1''" "connector ''DP-1''"
  by (simp_all add: connector_def starts_with_def ascii_alnum_def)

lemma example_mode: "mode ''1x1@1'' = Some (1, 1, 1)"
  by (simp add: mode_def strip_suffix_def starts_with_def ascii_digit_def parse_u32_def digits_value_def
      parse_decimal_def U32_MAX_def)

lemma example_observed: "observed_mode (example_output name n x) = ''1x1@1.00''"
  by (simp add: observed_mode_def example_output_def show_fixed2_nat_def round_half_even_def show_nat.simps char_of_def bit_0)

lemma example_observed_mode: "mode ''1x1@1.00'' = Some (1, 1, 1)"
  by (simp add: mode_def strip_suffix_def starts_with_def ascii_digit_def parse_u32_def digits_value_def
      parse_decimal_def U32_MAX_def)

lemma example_current: "current_mode (example_output name n x) = ''1x1@1''"
  by (simp add: current_mode_def example_output_def example_mode List.map_filter_simps)

lemmas example_simps = example_connectors example_mode example_observed_mode example_defs

lemma example_same [simp]: "same_mode ''1x1@1'' ''1x1@1.00''" "same_mode ''1x1@1'' ''1x1@1''"
  by (simp_all add: same_mode_def example_mode example_observed_mode)

lemma example_revert:
  "ly_log (layout_step example_env (layout_start [example_output ''eDP-1'' 0 0, example_output ''DP-1'' 1 5]
       (example_trial [] [example_setting ''eDP-1'' 0 False])) (Do_Finish ''1'' False)) =
   [Seen [example_output ''eDP-1'' 0 0, example_output ''DP-1'' 1 5], Seen [example_output ''eDP-1'' 0 0, example_output ''DP-1'' 1 5],
    Seen [example_output ''eDP-1'' 0 0, example_output ''DP-1'' 1 5]] @ Configured (example_setting ''eDP-1'' 0 False) #
    [Stored (example_trial [] [example_setting ''eDP-1'' 0 False]\<lparr>doc_trial := None\<rparr>)]"
  by (simp add: layout_eval layout_start_def example_simps f64_finite_def f64_in_def)

theorem layout_changes_keep_a_screen_witness:
  "\<exists>outputs o'. Seen outputs \<in> set (ly_log (layout_step example_env
       (layout_start [example_output ''eDP-1'' 0 0, example_output ''DP-1'' 1 5]
         (example_trial [] [example_setting ''eDP-1'' 0 False])) (Do_Finish ''1'' False)))
     \<and> o' \<in> set outputs \<and> out_name o' \<noteq> ''eDP-1'' \<and> usable o'"
proof -
  let ?o = "[example_output ''eDP-1'' 0 0, example_output ''DP-1'' 1 5]"
  have "ly_log (run (layout_step example_env) (layout_start ?o (example_trial [] [example_setting ''eDP-1'' 0 False]))
      [Do_Finish ''1'' False]) = [Seen ?o, Seen ?o, Seen ?o] @ Configured (example_setting ''eDP-1'' 0 False) #
    [Stored (example_trial [] [example_setting ''eDP-1'' 0 False]\<lparr>doc_trial := None\<rparr>)]"
    using example_revert by simp
  from layout_changes_keep_a_screen [OF this] show ?thesis
    unfolding example_revert by (auto simp: example_setting_def)
qed

lemma example_finish:
  "finish example_env ''1'' False (layout_start [example_output ''eDP-1'' 0 0]
     (example_trial [] [example_setting ''eDP-1'' 0 True])) =
   (Inr (example_trial [] [example_setting ''eDP-1'' 0 True]\<lparr>doc_trial := None\<rparr>),
    (layout_start [example_output ''eDP-1'' 0 0] (example_trial [] [example_setting ''eDP-1'' 0 True]\<lparr>doc_trial := None\<rparr>))
      \<lparr>ly_runtime := LayoutRuntime_default\<lparr>rt_applied := True\<rparr>,
       ly_log := [Seen [example_output ''eDP-1'' 0 0], Seen [example_output ''eDP-1'' 0 0],
         Seen [example_output ''eDP-1'' 0 0], Stored (example_trial [] [example_setting ''eDP-1'' 0 True]\<lparr>doc_trial := None\<rparr>)]\<rparr>)"
  by (simp add: layout_eval layout_start_def LayoutRuntime_default_def example_simps f64_finite_def f64_in_def
      f64_eq_def observed_mode_def show_fixed2_nat_def round_half_even_def show_nat.simps char_of_def bit_0)

abbreviation example_pending :: "Output list layout_sys" where
  "example_pending \<equiv> layout_start [example_output ''eDP-1'' 0 0] (example_trial [] [example_setting ''eDP-1'' 0 True])"

abbreviation the_trial :: Trial where
  "the_trial \<equiv> \<lparr>tr_id = ''1'', expires_at = 20, tr_proposed = [], tr_previous = [example_setting ''eDP-1'' 0 True]\<rparr>"


lemma example_tick:
  "tick example_env 0 0 example_pending =
   (Inr (example_trial [] [example_setting ''eDP-1'' 0 True]\<lparr>doc_trial := None\<rparr>, False),
    (layout_start [example_output ''eDP-1'' 0 0] (example_trial [] [example_setting ''eDP-1'' 0 True]\<lparr>doc_trial := None\<rparr>))
      \<lparr>ly_runtime := LayoutRuntime_default\<lparr>rt_applied := True\<rparr>,
       ly_log := [Seen [example_output ''eDP-1'' 0 0], Seen [example_output ''eDP-1'' 0 0],
         Seen [example_output ''eDP-1'' 0 0], Stored (example_trial [] [example_setting ''eDP-1'' 0 True]\<lparr>doc_trial := None\<rparr>)]\<rparr>)"
  by (simp add: layout_eval layout_start_def LayoutRuntime_default_def example_simps f64_finite_def f64_in_def
      f64_eq_def observed_mode_def show_fixed2_nat_def round_half_even_def show_nat.simps char_of_def bit_0)

theorem stale_preview_reverted_witness:
  "rt_trial (ly_runtime example_pending) = None \<and> reverted example_env the_trial"
proof -
  have kept: "doc_trial (ly_disk example_pending) = Some the_trial"
    by (simp add: layout_start_def example_trial_def)
  have none: "rt_trial (ly_runtime example_pending) = None"
    by (simp add: layout_start_def LayoutRuntime_default_def)
  have awake: "\<not> le_preparing example_env w" for w by (simp add: example_env_def)
  have "rt_trial (ly_runtime example_pending) \<noteq> Some (tr_id the_trial) \<or> expires_at the_trial \<le> 0
      \<or> (case rt_deadline (ly_runtime example_pending) of Some deadline \<Rightarrow> deadline \<le> 0 | None \<Rightarrow> True)
      \<or> (\<forall>w. le_generation example_env w \<noteq> rt_resume (ly_runtime example_pending))"
    using none by simp
  from stale_preview_reverted [OF kept awake this example_tick] none show ?thesis by simp
qed

lemma example_observed_layout:
  "Layout_observed [example_output ''eDP-1'' 0 0] = [example_setting ''eDP-1'' 0 True]"
  using example_current [of "''eDP-1''" 0 0]
  by (simp add: Layout_observed_def Setting_observed_def example_simps mirrored_def)

lemma example_valid:
  "Layout_validate [example_setting ''eDP-1'' x True] [example_output ''eDP-1'' 0 0] True =
     (if \<bar>x\<bar> \<le> 32768 then Inr () else Inl (err ''Display position is out of bounds''))"
  using example_observed [of "''eDP-1''" 0 0]
  by (simp add: Layout_validate_def Setting_validate_def find_output_def example_simps independent_def
      f64_finite_def f64_in_def ok_or_def)

lemma example_arranged: "validate_arrangement [example_setting ''eDP-1'' x True] previous = Inr ()"
  by (simp add: validate_arrangement_def independent_def example_setting_def)

lemma example_preview:
  "\<exists>res t. preview example_env ''b'' [example_setting ''eDP-1'' 5 True]
     (layout_start [example_output ''eDP-1'' 0 0] Document_default) = (res, t)
     \<and> Configured (example_setting ''eDP-1'' 5 True) \<in>
       set (drop (length (ly_log (layout_start [example_output ''eDP-1'' 0 0] Document_default))) (ly_log t))"
  by (simp add: layout_eval baseline_def layout_start_def Document_default_def LayoutRuntime_default_def
      Layout_validate_def Layout_observed_def Setting_observed_def validate_arrangement_def independent_def
      current_mode_def List.map_filter_simps
      example_simps f64_finite_def f64_in_def f64_eq_def)

theorem preview_is_recoverable_witness:
  "\<exists>res t trial. preview example_env ''b'' [example_setting ''eDP-1'' 5 True]
     (layout_start [example_output ''eDP-1'' 0 0] Document_default) = (res, t)
     \<and> doc_trial (ly_disk t) = Some trial \<and> tr_proposed trial = [example_setting ''eDP-1'' 5 True]"
proof -
  from example_preview obtain res t where
    run: "preview example_env ''b'' [example_setting ''eDP-1'' 5 True]
       (layout_start [example_output ''eDP-1'' 0 0] Document_default) = (res, t)"
    and sent: "Configured (example_setting ''eDP-1'' 5 True) \<in>
       set (drop (length (ly_log (layout_start [example_output ''eDP-1'' 0 0] Document_default))) (ly_log t))"
    by blast
  from preview_is_recoverable [OF run sent] run show ?thesis by blast
qed

theorem layout_validation_sound_witness:
  "setting_valid [example_setting ''eDP-1'' 5 True] [example_output ''eDP-1'' 0 0] (example_setting ''eDP-1'' 5 True)
   \<and> independent (example_setting ''eDP-1'' 5 True)"
  using layout_validation_sound [of "[example_setting ''eDP-1'' 5 True]" "[example_output ''eDP-1'' 0 0]" True]
  by (simp add: example_valid)

lemma example_rect: "rect (example_setting name x True) = Inr (x, 0, 1, 1)"
  by (simp add: rect_def example_setting_def example_mode ok_or_def round_half_up_def I64_MAX_def floor_eq_iff)

theorem arrangement_adds_no_overlap_witness:
  "\<exists>old\<in>{example_setting ''eDP-1'' 0 True, example_setting ''DP-1'' 0 True}. st_name old = ''DP-1''
     \<and> rect old = Inr (0, 0, 1, 1)"
proof -
  let ?l = "[example_setting ''eDP-1'' 0 True, example_setting ''DP-1'' 0 True]"
  have f: "filter independent ?l = ?l" by (simp add: independent_def example_setting_def)
  have "validate_arrangement ?l ?l = Inr ()"
    by (simp add: validate_arrangement_def check_pair_def example_rect overlap_def unchanged_rect_def rect_ok_def
        independent_def example_setting_def [of "''eDP-1''"] example_setting_def [of "''DP-1''"]
        example_rect [unfolded example_setting_def])
  then have "\<exists>olda\<in>set ?l. \<exists>oldb\<in>set ?l. independent olda \<and> independent oldb
      \<and> st_name olda = st_name (?l ! 0) \<and> st_name oldb = st_name (?l ! 1)
      \<and> rect olda = Inr (0, 0, 1, 1) \<and> rect oldb = Inr (0, 0, 1, 1)"
    by (rule arrangement_adds_no_overlap [where i = 0 and j = 1])
      (simp_all only: f, simp_all add: example_rect overlap_def)
  moreover have "st_name (?l ! 1) = ''DP-1''" by (simp add: example_setting_def)
  ultimately show ?thesis by fastforce
qed

end
