(* ===== verification/Ordered_Map.thy ===== *)
theory Ordered_Map
  imports Prelude "HOL-Library.List_Lexorder" "HOL-Library.Char_ord"
begin

text \<open>
  Ordered maps: the \<open>BTreeMap\<close>s of the program as association lists with ascending keys, so that
  iteration order is the order of the list. The contract of a map is a locale; the association lists
  provide it under the abstraction to partial functions.
\<close>

type_synonym ('k, 'v) omap = "('k \<times> 'v) list"

fun om_insert :: "'k::linorder \<Rightarrow> 'v \<Rightarrow> ('k, 'v) omap \<Rightarrow> ('k, 'v) omap" where
  "om_insert k v [] = [(k, v)]"
| "om_insert k v ((k', v') # m) =
     (if k < k' then (k, v) # (k', v') # m
      else if k = k' then (k, v) # m
      else (k', v') # om_insert k v m)"

definition om_remove :: "'k \<Rightarrow> ('k, 'v) omap \<Rightarrow> ('k, 'v) omap" where
  "om_remove k m = filter (\<lambda>p. fst p \<noteq> k) m"

abbreviation om_get :: "('k, 'v) omap \<Rightarrow> 'k \<Rightarrow> 'v option" where
  "om_get \<equiv> map_of"

abbreviation om_keys :: "('k, 'v) omap \<Rightarrow> 'k list" where
  "om_keys m \<equiv> map fst m"

abbreviation om_values :: "('k, 'v) omap \<Rightarrow> 'v list" where
  "om_values m \<equiv> map snd m"

definition om_map :: "('v \<Rightarrow> 'v) \<Rightarrow> ('k, 'v) omap \<Rightarrow> ('k, 'v) omap" where
  "om_map f m = map (\<lambda>(k, v). (k, f v)) m"

definition om_has :: "'k \<Rightarrow> ('k, 'v) omap \<Rightarrow> bool" where
  "om_has k m \<longleftrightarrow> k \<in> set (om_keys m)"

definition om_ok :: "('k::linorder, 'v) omap \<Rightarrow> bool" where
  "om_ok m \<longleftrightarrow> sorted_wrt (<) (om_keys m)"

lemma om_ok_Nil [simp]: "om_ok []"
  by (simp add: om_ok_def)

lemma om_ok_Cons: "om_ok ((k, v) # m) \<longleftrightarrow> (\<forall>k'\<in>fst ` set m. k < k') \<and> om_ok m"
  by (simp add: om_ok_def)

lemma om_ok_distinct: "om_ok m \<Longrightarrow> distinct (om_keys m)"
  by (simp add: om_ok_def strict_sorted_iff)

lemma om_keys_insert [simp]: "fst ` set (om_insert k v m) = insert k (fst ` set m)"
  by (induction k v m rule: om_insert.induct) auto

lemma om_ok_insert [simp]: "om_ok m \<Longrightarrow> om_ok (om_insert k v m)"
  by (induction k v m rule: om_insert.induct) (auto simp: om_ok_Cons simp del: ball_simps(9), force)

lemma om_get_insert [simp]:
  "om_ok m \<Longrightarrow> om_get (om_insert k v m) j = (if j = k then Some v else om_get m j)"
  by (induction k v m rule: om_insert.induct) (auto simp: om_ok_Cons split: if_splits)

lemma om_get_remove [simp]: "om_get (om_remove k m) j = (if j = k then None else om_get m j)"
  by (induction m) (auto simp: om_remove_def)

lemma om_ok_remove [simp]: "om_ok m \<Longrightarrow> om_ok (om_remove k m)"
  by (induction m) (auto simp: om_remove_def om_ok_Cons)

lemma om_keys_remove [simp]: "fst ` set (om_remove k m) = fst ` set m - {k}"
  by (auto simp: om_remove_def)

lemma om_keys_map [simp]: "om_keys (om_map f m) = om_keys m"
  by (auto simp: om_map_def)

lemma om_fst_map [simp]: "fst ` set (om_map f m) = fst ` set m"
  by (force simp: om_map_def)

lemma om_ok_map [simp]: "om_ok (om_map f m) = om_ok m"
  by (simp add: om_ok_def)

lemma om_get_map [simp]: "om_get (om_map f m) k = map_option f (om_get m k)"
  by (induction m) (auto simp: om_map_def)

lemma om_values_map [simp]: "om_values (om_map f m) = map f (om_values m)"
  by (auto simp: om_map_def)

lemma om_has_get: "om_has k m \<longleftrightarrow> om_get m k \<noteq> None"
  by (auto simp: om_has_def map_of_eq_None_iff image_iff)

lemma om_get_mem: "om_ok m \<Longrightarrow> (k, v) \<in> set m \<longleftrightarrow> om_get m k = Some v"
  by (auto simp: om_ok_distinct map_of_is_SomeI dest: map_of_SomeD)

lemma length_om_keys: "om_ok m \<Longrightarrow> length m = card (set (om_keys m))"
  by (metis distinct_card length_map om_ok_distinct)

lemma length_om_insert:
  "om_ok m \<Longrightarrow> length (om_insert k v m) = (if om_has k m then length m else Suc (length m))"
  by (simp add: length_om_keys om_has_def card_insert_if)

lemma length_om_remove:
  "om_ok m \<Longrightarrow> length (om_remove k m) = (if om_has k m then length m - 1 else length m)"
  by (simp add: length_om_keys om_has_def)

lemma length_om_remove_le: "length (om_remove k m) \<le> length m"
  by (simp add: om_remove_def)

text \<open>The contract of a finite map, and what follows from it alone.\<close>

locale keyed_store =
  fixes abs :: "'m \<Rightarrow> 'k \<Rightarrow> 'v option"
    and ok :: "'m \<Rightarrow> bool"
    and empty_store :: 'm
    and put :: "'k \<Rightarrow> 'v \<Rightarrow> 'm \<Rightarrow> 'm"
    and del :: "'k \<Rightarrow> 'm \<Rightarrow> 'm"
  assumes ok_empty: "ok empty_store" and abs_empty: "abs empty_store = Map.empty"
    and ok_put: "ok m \<Longrightarrow> ok (put k v m)" and abs_put: "ok m \<Longrightarrow> abs (put k v m) = (abs m)(k \<mapsto> v)"
    and ok_del: "ok m \<Longrightarrow> ok (del k m)" and abs_del: "ok m \<Longrightarrow> abs (del k m) = (abs m)(k := None)"
begin

lemma abs_del_all: "ok m \<Longrightarrow> ok (fold del ks m) \<and> abs (fold del ks m) = abs m |` (- set ks)"
proof (induction ks arbitrary: m)
  case (Cons k ks)
  from Cons.IH [OF ok_del [OF Cons.prems]] show ?case
    by (auto simp: abs_del [OF Cons.prems] restrict_map_def fun_eq_iff)
qed (simp add: restrict_map_def)

lemma put_put: "ok m \<Longrightarrow> abs (put k v (put k u m)) = abs (put k v m)"
  by (simp add: abs_put ok_put)

lemma del_put: "ok m \<Longrightarrow> abs m k = None \<Longrightarrow> abs (del k (put k v m)) = abs m"
  by (auto simp: abs_put ok_put abs_del)

end

interpretation om: keyed_store om_get om_ok "[]" om_insert om_remove
  by unfold_locales (auto simp: fun_eq_iff)

end
