(* ===== verification/Notification_Context.thy ===== *)
theory Notification_Context
  imports Prelude
begin

text \<open>
  What can be offered for the text of a notification: a link, a meeting, a telephone number or a code
  (\<open>activity/notifications/context_actions.rs\<close>). Parsing a URL and finding the matches of the two regular
  expressions are the fields of \<open>cenv\<close>; handing a target to another program is not modelled beyond the check
  on the application's name.
\<close>

section \<open>Targets\<close>

record ContextAction =
  ca_key :: string
  ca_label :: string
  ca_icon :: string

datatype Target = Code string | Number string | Link string | Join string | Focus string

fun Target_metadata :: "Target \<Rightarrow> string \<times> string \<times> string" where
  "Target_metadata (Code _) = (''copy-code'', ''Copy code'', ''content_copy'')"
| "Target_metadata (Number _) = (''copy-number'', ''Copy number'', ''content_copy'')"
| "Target_metadata (Link _) = (''open-link'', ''Open link'', ''open_in_new'')"
| "Target_metadata (Join _) = (''join'', ''Join'', ''videocam'')"
| "Target_metadata (Focus _) = (''focus'', ''Open application'', ''open_in_new'')"

definition Target_key :: "Target \<Rightarrow> string" where
  "Target_key self = fst (Target_metadata self)"

definition Target_descriptor :: "Target \<Rightarrow> ContextAction" where
  "Target_descriptor self = (case Target_metadata self of (key, label, icon) \<Rightarrow>
     \<lparr>ca_key = key, ca_label = label, ca_icon = icon\<rparr>)"

section \<open>Extraction\<close>

record url =
  url_text :: string
  url_scheme :: string
  url_host :: "string option"
  url_path :: string
  url_username :: string
  url_password :: "string option"

record cenv =
  parse_url :: "string \<Rightarrow> url option"
  phone_matches :: "string \<Rightarrow> string list"
  code_matches :: "string \<Rightarrow> string list"

fun contains_str :: "string \<Rightarrow> string \<Rightarrow> bool" where
  "contains_str p [] = (p = [])"
| "contains_str p (c # s) = (starts_with p (c # s) \<or> contains_str p s)"

definition ends_with :: "string \<Rightarrow> string \<Rightarrow> bool" where
  "ends_with p s = starts_with (rev p) (rev s)"

definition trim_end_matches :: "char list \<Rightarrow> string \<Rightarrow> string" where
  "trim_end_matches cs s = rev (dropWhile (\<lambda>c. c \<in> set cs) (rev s))"

text \<open>Repeated identical values count once; a second distinct one makes the choice ambiguous.\<close>

definition unique :: "'a list \<Rightarrow> 'a option" where
  "unique values = (case values of [] \<Rightarrow> None
     | first # rest \<Rightarrow> if list_all (\<lambda>v. v = first) rest then Some first else None)"

definition word_breaks :: "string list" where
  "word_breaks = ws_strings @ [''<'', ''>'', [char_of (34::nat)], [char_of (39::nat)]]"

text \<open>The pieces of a text between white space, angle brackets and quotes; empty pieces included.\<close>

function split_words :: "string \<Rightarrow> string list" where
  "split_words [] = [[]]"
| "split_words (c # s) =
     (case find (\<lambda>p. starts_with p (c # s)) word_breaks of
        Some p \<Rightarrow> [] # split_words (drop (max 1 (length p)) (c # s))
      | None \<Rightarrow> (case split_words s of [] \<Rightarrow> [[c]] | w # ws \<Rightarrow> (c # w) # ws))"
  by pat_completeness auto
termination by (relation "measure length") auto

declare split_words.simps [simp del]

definition link :: "('a) cenv_scheme \<Rightarrow> string \<Rightarrow> url option" where
  "link E word =
     (let candidate = trim_end_matches ''.,;!)]'' word in
      if length candidate > 4096 \<or> (\<not> starts_with ''https://'' candidate \<and> \<not> starts_with ''http://'' candidate) then None
      else case parse_url E candidate of
        None \<Rightarrow> None
      | Some u \<Rightarrow> if url_host u \<noteq> None \<and> url_username u = [] \<and> url_password u = None then Some u else None)"

definition meeting :: "url \<Rightarrow> bool" where
  "meeting u =
     (if url_scheme u \<noteq> ''https'' then False
      else let host = (case url_host u of Some h \<Rightarrow> h | None \<Rightarrow> []) in
        if host \<in> {''meet.google.com'', ''meet.jit.si''} then length (url_path u) > 1
        else if host \<in> {''teams.microsoft.com'', ''teams.live.com''} then starts_with ''/l/meetup-join/'' (url_path u)
        else if host = ''zoom.us'' \<or> ends_with ''.zoom.us'' host
        then starts_with ''/j/'' (url_path u) \<or> starts_with ''/my/'' (url_path u)
        else False)"

definition code_context :: "string \<Rightarrow> bool" where
  "code_context lower = list_ex (\<lambda>s. contains_str s lower)
     [''verification code'', ''login code'', ''security code'', ''authentication code'', ''one-time'', ''one time'',
      ''passcode'', ''otp'']"

definition clipboard :: "('a) cenv_scheme \<Rightarrow> string \<Rightarrow> Target option" where
  "clipboard E content =
     (let lower = map ascii_lower content in
      if \<not> code_context lower then
        map_option Number (unique (filter (\<lambda>s. 8 \<le> length (filter ascii_digit s) \<and> length (filter ascii_digit s) \<le> 15)
          (phone_matches E content)))
      else if contains_str ''https://'' lower \<or> contains_str ''http://'' lower then None
      else map_option Code (unique (code_matches E content)))"

definition links :: "('a) cenv_scheme \<Rightarrow> string \<Rightarrow> url list" where
  "links E content = List.map_filter (link E) (split_words content)"

definition extract_targets :: "('a) cenv_scheme \<Rightarrow> string \<Rightarrow> string \<Rightarrow> Target list" where
  "extract_targets E summ bod =
     (let content = summ @ [char_of (10::nat)] @ bod in
      (case unique (links E content) of
         Some u \<Rightarrow> [if meeting u then Join (url_text u) else Link (url_text u)] | None \<Rightarrow> [])
      @ (case clipboard E content of Some t \<Rightarrow> [t] | None \<Rightarrow> []))"

text \<open>The identity check before an application is asked to come to the front.\<close>

definition trusted_desktop :: "string \<Rightarrow> bool" where
  "trusted_desktop desktop \<longleftrightarrow> desktop \<noteq> [] \<and> length desktop \<le> 1024
     \<and> \<not> list_ex (\<lambda>c. c = CHR ''/'' \<or> c = CHR 0x5C) desktop
     \<and> \<not> list_ex (\<lambda>c. (of_char c :: nat) < 32 \<or> (of_char c :: nat) = 127) desktop
     \<and> \<not> list_ex (\<lambda>n. contains_str [char_of (194::nat), char_of n] desktop) [128..<160]"

section \<open>What is offered\<close>

lemma unique_Some: "unique xs = Some x \<Longrightarrow> x \<in> set xs \<and> (\<forall>y\<in>set xs. y = x)"
  by (auto simp: unique_def list_all_iff split: list.splits if_splits)

lemma split_words_nonempty [simp]: "split_words s \<noteq> []"
  by (induction s rule: split_words.induct) (auto simp: split_words.simps split: option.splits list.splits)

lemma links_mem: "u \<in> set (links E content) \<Longrightarrow> \<exists>w\<in>set (split_words content). link E w = Some u"
  by (auto simp: links_def List.map_filter_def)

lemma link_Some:
  "link E w = Some u \<Longrightarrow> \<exists>c. c = trim_end_matches ''.,;!)]'' w \<and> length c \<le> 4096 \<and> parse_url E c = Some u
    \<and> (starts_with ''https://'' c \<or> starts_with ''http://'' c)
    \<and> url_host u \<noteq> None \<and> url_username u = [] \<and> url_password u = None"
  by (auto simp: link_def Let_def split: if_splits option.splits)

definition meeting_hosts :: "string list" where
  "meeting_hosts = [''meet.google.com'', ''meet.jit.si'', ''teams.microsoft.com'', ''teams.live.com'', ''zoom.us'']"

lemma meeting_host:
  "meeting u \<Longrightarrow> url_scheme u = ''https'' \<and> (\<exists>h. url_host u = Some h \<and> (h \<in> set meeting_hosts \<or> ends_with ''.zoom.us'' h))"
  by (auto simp: meeting_def meeting_hosts_def Let_def ends_with_def starts_with_def split: if_splits option.splits)

lemma extract_targets_cases:
  fixes E :: "('a) cenv_scheme"
  assumes t: "t \<in> set (extract_targets E summ bod)" and content: "content = summ @ [char_of (10::nat)] @ bod"
  shows "length (extract_targets E summ bod) \<le> 2 \<and> distinct (map Target_key (extract_targets E summ bod))
    \<and> (case t of
         Link s \<Rightarrow> (\<exists>w\<in>set (split_words content). \<exists>u. link E w = Some u \<and> url_text u = s \<and> url_host u \<noteq> None
            \<and> url_username u = [] \<and> url_password u = None \<and> (\<forall>v\<in>set (links E content). v = u))
       | Join s \<Rightarrow> (\<exists>w\<in>set (split_words content). \<exists>u. link E w = Some u \<and> url_text u = s \<and> url_scheme u = ''https''
            \<and> url_username u = [] \<and> url_password u = None \<and> (\<forall>v\<in>set (links E content). v = u)
            \<and> (\<exists>h. url_host u = Some h \<and> (h \<in> set meeting_hosts \<or> ends_with ''.zoom.us'' h)))
       | Number s \<Rightarrow> \<not> code_context (map ascii_lower content) \<and> s \<in> set (phone_matches E content)
            \<and> 8 \<le> length (filter ascii_digit s) \<and> length (filter ascii_digit s) \<le> 15
       | Code s \<Rightarrow> code_context (map ascii_lower content) \<and> (\<forall>m\<in>set (code_matches E content). m = s)
            \<and> \<not> contains_str ''https://'' (map ascii_lower content) \<and> \<not> contains_str ''http://'' (map ascii_lower content)
       | Focus s \<Rightarrow> False)"
proof -
  have parts: "extract_targets E summ bod =
      (case unique (links E content) of Some u \<Rightarrow> [if meeting u then Join (url_text u) else Link (url_text u)] | None \<Rightarrow> [])
      @ (case clipboard E content of Some t \<Rightarrow> [t] | None \<Rightarrow> [])"
    by (simp add: extract_targets_def content Let_def)
  have linked: "\<exists>w\<in>set (split_words content). link E w = Some u \<and> url_host u \<noteq> None \<and> url_username u = []
      \<and> url_password u = None \<and> (\<forall>v\<in>set (links E content). v = u)" if "unique (links E content) = Some u" for u
    using links_mem [of u E content] link_Some [of E _ u] unique_Some [OF that] by blast
  have boarded: "\<exists>s. (t = Number s \<and> \<not> code_context (map ascii_lower content) \<and> s \<in> set (phone_matches E content)
        \<and> 8 \<le> length (filter ascii_digit s) \<and> length (filter ascii_digit s) \<le> 15)
      \<or> (t = Code s \<and> code_context (map ascii_lower content) \<and> (\<forall>m\<in>set (code_matches E content). m = s)
        \<and> \<not> contains_str ''https://'' (map ascii_lower content) \<and> \<not> contains_str ''http://'' (map ascii_lower content))"
    if "clipboard E content = Some t" for t
    using that by (auto simp: clipboard_def Let_def split: if_splits dest!: unique_Some)
  have basics: "length (extract_targets E summ bod) \<le> 2 \<and> distinct (map Target_key (extract_targets E summ bod))"
    unfolding parts using boarded by (auto simp: Target_key_def split: option.splits)
  from t parts consider (web) u where "unique (links E content) = Some u"
      "t = (if meeting u then Join (url_text u) else Link (url_text u))"
    | (copied) "clipboard E content = Some t"
    by (auto split: option.splits)
  then show ?thesis
  proof cases
    case (web u)
    with basics linked [OF web(1)] meeting_host [of u] show ?thesis by (auto split: if_splits)
  next
    case copied
    with basics boarded [OF copied] show ?thesis by (auto split: Target.splits)
  qed
qed


definition example_web :: cenv where
  "example_web = \<lparr>parse_url = (\<lambda>s. if s = ''http://b'' then Some \<lparr>url_text = s, url_scheme = ''http'',
       url_host = Some ''b'', url_path = ''/'', url_username = [], url_password = None\<rparr> else None),
     phone_matches = (\<lambda>_. []), code_matches = (\<lambda>_. [])\<rparr>"

lemma word_breaks_literal: "word_breaks =
     [[CHR 0x09], [CHR 0x0A], [CHR 0x0B], [CHR 0x0C], [CHR 0x0D], [CHR 0x20], [CHR 0xC2, CHR 0x85], [CHR 0xC2,
     CHR 0xA0], [CHR 0xE1, CHR 0x9A, CHR 0x80], [CHR 0xE2, CHR 0x80, CHR 0x80], [CHR 0xE2, CHR 0x80, CHR
     0x81], [CHR 0xE2, CHR 0x80, CHR 0x82], [CHR 0xE2, CHR 0x80, CHR 0x83], [CHR 0xE2, CHR 0x80, CHR
     0x84], [CHR 0xE2, CHR 0x80, CHR 0x85], [CHR 0xE2, CHR 0x80, CHR 0x86], [CHR 0xE2, CHR 0x80, CHR
     0x87], [CHR 0xE2, CHR 0x80, CHR 0x88], [CHR 0xE2, CHR 0x80, CHR 0x89], [CHR 0xE2, CHR 0x80, CHR
     0x8A], [CHR 0xE2, CHR 0x80, CHR 0xA8], [CHR 0xE2, CHR 0x80, CHR 0xA9], [CHR 0xE2, CHR 0x80, CHR
     0xAF], [CHR 0xE2, CHR 0x81, CHR 0x9F], [CHR 0xE3, CHR 0x80, CHR 0x80], [CHR 0x3C], [CHR 0x3E], [CHR
     0x22], [CHR 0x27]]"
  by (simp add: word_breaks_def ws_strings_def ws_seqs_def char_of_def bit_0)

lemma example_words: "split_words (''a'' @ [CHR 0x0A] @ ''http://b'') = [''a'', ''http://b'']"
  by (simp add: split_words.simps word_breaks_literal starts_with_def)

lemma example_extract: "extract_targets example_web ''a'' ''http://b'' = [Link ''http://b'']"
proof -
  have nl: "[char_of (10::nat)] = [CHR 0x0A]" by (simp add: char_of_def bit_0)
  have "link example_web ''a'' = None" by (simp add: link_def trim_end_matches_def starts_with_def)
  moreover have "link example_web ''http://b'' = Some \<lparr>url_text = ''http://b'', url_scheme = ''http'',
       url_host = Some ''b'', url_path = ''/'', url_username = [], url_password = None\<rparr>"
    by (simp add: link_def trim_end_matches_def starts_with_def example_web_def)
  ultimately show ?thesis
    by (simp only: extract_targets_def Let_def nl links_def example_words)
      (simp add: List.map_filter_def unique_def meeting_def clipboard_def Let_def example_web_def)
qed


end
