(* ===== verification/Notification_Model.thy ===== *)
theory Notification_Model
  imports Ordered_Map Notification_Context
begin

text \<open>
  The records of the notification service and their own operations: \<open>activity/notifications/model.rs\<close>,
  \<open>identity.rs\<close>, \<open>policy.rs\<close>, \<open>settings.rs\<close> and \<open>sharing.rs\<close>. Times are Unix milliseconds. Icon lookup in
  the desktop registry and the length of a serialised notification are the fields of \<open>nenv\<close>, beside those of
  the text extraction.
\<close>

section \<open>Records\<close>

record NotificationAction =
  na_key :: string
  na_label :: string

record NotificationHints =
  urgency :: nat
  category :: string
  desktop_entry :: string
  image_path :: string
  sound_name :: string
  sound_file :: string
  resident :: bool
  transient :: bool
  suppress_sound :: bool
  image_data_present :: bool

record IncomingNotification =
  in_app_name :: string
  in_app_icon :: string
  in_summary :: string
  in_body :: string
  in_actions :: "NotificationAction list"
  in_hints :: NotificationHints
  expire_timeout :: int

record nenv = cenv +
  icon_of :: "string \<Rightarrow> string \<Rightarrow> string"
  payload_len :: "IncomingNotification \<Rightarrow> nat"

record ActiveNotification =
  nid :: nat
  identity_icon :: string
  context_actions :: "ContextAction list"
  interaction_blocked :: bool
  app_name :: string
  app_icon :: string
  summary :: string
  body :: string
  actions :: "NotificationAction list"
  hints :: NotificationHints
  created_unix_ms :: nat
  updated_unix_ms :: nat
  expires_unix_ms :: "nat option"
  toast_visible :: bool
  dnd_bypass :: bool
  toast_expires_unix_ms :: "nat option"
  group_key :: string
  source_monitor :: string
  snoozed_until_unix_ms :: "nat option"

datatype NotificationSignal =
  Closed nat nat | ActionInvoked nat string | ActivationToken nat string | Replied nat string

definition EXPIRED :: nat where "EXPIRED = 1"
definition DISMISSED :: nat where "DISMISSED = 2"
definition CLOSED_BY_CALL :: nat where "CLOSED_BY_CALL = 3"
definition UNDEFINED :: nat where "UNDEFINED = 4"

record Position =
  ps_created :: nat
  ps_id :: nat

section \<open>Deadlines\<close>

text \<open>A due one-shot deadline is consumed; an absent or future one stays.\<close>

definition take_due :: "nat option \<Rightarrow> nat \<Rightarrow> bool \<times> nat option" where
  "take_due deadline now = (case deadline of
     Some until \<Rightarrow> if until \<le> now then (True, None) else (False, Some until) | None \<Rightarrow> (False, None))"

text \<open>Whether the flag expired, and the flag and the deadline it leaves.\<close>

definition expire_flag :: "bool \<Rightarrow> nat option \<Rightarrow> nat \<Rightarrow> bool \<times> bool \<times> nat option" where
  "expire_flag enabled deadline now =
     (case take_due deadline now of (expired, deadline) \<Rightarrow> (expired, enabled \<and> \<not> expired, deadline))"

definition option_min :: "nat option \<Rightarrow> nat option \<Rightarrow> nat option" where
  "option_min a b = (case (a, b) of (Some x, Some y) \<Rightarrow> Some (min x y) | (None, b) \<Rightarrow> b | (a, None) \<Rightarrow> a)"

definition next_deadline :: "ActiveNotification \<Rightarrow> nat option" where
  "next_deadline self = (case snoozed_until_unix_ms self of
     Some until \<Rightarrow> Some until
   | None \<Rightarrow> option_min (expires_unix_ms self) (toast_expires_unix_ms self))"

text \<open>Whether the notification woke from a snooze, and whether its protocol lifetime is over.\<close>

definition advance :: "nat \<Rightarrow> ActiveNotification \<Rightarrow> (bool \<times> bool) \<times> ActiveNotification" where
  "advance now self =
     (case take_due (snoozed_until_unix_ms self) now of (woke, snoozed) \<Rightarrow>
      let self = self\<lparr>snoozed_until_unix_ms := snoozed\<rparr> in
      if snoozed \<noteq> None then ((False, False), self)
      else case take_due (toast_expires_unix_ms self) now of (due, toast) \<Rightarrow>
        let self = self\<lparr>toast_expires_unix_ms := toast, toast_visible := (toast_visible self \<and> \<not> due)\<rparr> in
        ((woke, case expires_unix_ms self of Some until \<Rightarrow> until \<le> now | None \<Rightarrow> False), self))"

section \<open>Identity\<close>

definition identity_app_key :: "string \<Rightarrow> string \<Rightarrow> nat \<Rightarrow> nat \<Rightarrow> string" where
  "identity_app_key desktop name n created =
     (if length desktop > 1024 then ''unknown:'' @ show_nat created @ '':'' @ show_nat n
      else if trim desktop \<noteq> [] then ''desktop:'' @ trim desktop
      else if length name > 1024 \<or> trim name = [] then ''unknown:'' @ show_nat created @ '':'' @ show_nat n
      else ''named:'' @ trim name)"

definition app_key :: "ActiveNotification \<Rightarrow> string" where
  "app_key self = identity_app_key (desktop_entry (hints self)) (app_name self) (nid self) (created_unix_ms self)"

section \<open>Arrival and replacement\<close>

definition effective_timeout_ms :: "int \<Rightarrow> nat \<Rightarrow> nat option" where
  "effective_timeout_ms requested urg =
     (if requested = 0 then None else if requested > 0 then Some (nat requested)
      else if urg \<ge> 2 then None else Some 5000)"

definition from_incoming :: "nenv \<Rightarrow> nat \<Rightarrow> IncomingNotification \<Rightarrow> nat \<Rightarrow> ActiveNotification" where
  "from_incoming E n incoming now =
     (let toast_timeout = effective_timeout_ms (expire_timeout incoming) (urgency (in_hints incoming));
          timeout = (if expire_timeout incoming < 0 \<and> \<not> transient (in_hints incoming) then None else toast_timeout) in
      \<lparr>nid = n,
       identity_icon = icon_of E (desktop_entry (in_hints incoming)) (in_app_name incoming),
       context_actions = map Target_descriptor (extract_targets E (in_summary incoming) (in_body incoming)),
       interaction_blocked = False,
       app_name = in_app_name incoming, app_icon = in_app_icon incoming,
       summary = in_summary incoming, body = in_body incoming, actions = in_actions incoming,
       hints = in_hints incoming, created_unix_ms = now, updated_unix_ms = now,
       expires_unix_ms = map_option (saturating_add_u64 now) timeout,
       toast_visible = True, dnd_bypass = False,
       toast_expires_unix_ms = map_option (saturating_add_u64 now) toast_timeout,
       group_key = (if desktop_entry (in_hints incoming) \<noteq> [] then desktop_entry (in_hints incoming)
                    else if in_app_name incoming \<noteq> [] then in_app_name incoming else ''unknown''),
       source_monitor = [], snoozed_until_unix_ms = None\<rparr>)"

definition replace_from :: "nenv \<Rightarrow> IncomingNotification \<Rightarrow> nat \<Rightarrow> ActiveNotification \<Rightarrow> ActiveNotification" where
  "replace_from E incoming now self =
     (let updated = max now (saturating_add_u64 (updated_unix_ms self) 1) in
      (from_incoming E (nid self) incoming updated)
        \<lparr>created_unix_ms := created_unix_ms self, source_monitor := source_monitor self\<rparr>)"

section \<open>Ingress policy\<close>

definition NAME_BYTES :: nat where "NAME_BYTES = 1024"
definition PATH_BYTES :: nat where "PATH_BYTES = 4096"
definition CATEGORY_BYTES :: nat where "CATEGORY_BYTES = 256"
definition PAYLOAD_BYTES :: nat where "PAYLOAD_BYTES = 131072"

definition bounded_text :: "string \<Rightarrow> string \<Rightarrow> nat \<Rightarrow> unit result" where
  "bounded_text field value maximum =
     ensure (length value \<le> maximum)
       (''notification '' @ field @ '' exceeds '' @ show_nat maximum @ ''-byte size limit'')"

fun all_bounded :: "(string \<times> string \<times> nat) list \<Rightarrow> unit result" where
  "all_bounded [] = Ok ()"
| "all_bounded ((field, value, maximum) # rest) = and_then (bounded_text field value maximum) (\<lambda>_. all_bounded rest)"

record NotificationPolicy =
  maximum_active :: nat
  maximum_summary_bytes :: nat
  maximum_body_bytes :: nat
  maximum_actions :: nat

definition NotificationPolicy_default :: NotificationPolicy where
  "NotificationPolicy_default = \<lparr>maximum_active = 200, maximum_summary_bytes = 4096,
     maximum_body_bytes = 65536, maximum_actions = 64\<rparr>"

definition NotificationPolicy_validate :: "nenv \<Rightarrow> IncomingNotification \<Rightarrow> NotificationPolicy \<Rightarrow> unit result" where
  "NotificationPolicy_validate E n self =
     and_then (ensure (length (in_summary n) \<le> maximum_summary_bytes self)
       ''notification summary exceeds configured size limit'') (\<lambda>_.
     and_then (ensure (length (in_body n) \<le> maximum_body_bytes self)
       ''notification body exceeds configured size limit'') (\<lambda>_.
     and_then (ensure (length (in_actions n) \<le> maximum_actions self) ''notification has too many actions'') (\<lambda>_.
     and_then (all_bounded
       [(''app_name'', in_app_name n, NAME_BYTES), (''app_icon'', in_app_icon n, PATH_BYTES),
        (''category'', category (in_hints n), CATEGORY_BYTES),
        (''desktop_entry'', desktop_entry (in_hints n), NAME_BYTES),
        (''image_path'', image_path (in_hints n), PATH_BYTES),
        (''sound_name'', sound_name (in_hints n), NAME_BYTES),
        (''sound_file'', sound_file (in_hints n), PATH_BYTES)]) (\<lambda>_.
     and_then (all_bounded (concat (map (\<lambda>a. [(''action key'', na_key a, NAME_BYTES),
        (''action label'', na_label a, PATH_BYTES)]) (in_actions n)))) (\<lambda>_.
     and_then (ensure (\<not> list_ex (\<lambda>a. na_key a = []) (in_actions n))
       ''notification action key cannot be empty'') (\<lambda>_.
     ensure (payload_len E n \<le> PAYLOAD_BYTES)
       (''notification exceeds total '' @ show_nat PAYLOAD_BYTES @ ''-byte payload limit'')))))))"

record AppPolicy =
  silent :: bool
  until_unix_ms :: "nat option"
  group_similar :: bool
  bypass_dnd :: bool

definition AppPolicy_default :: AppPolicy where
  "AppPolicy_default = \<lparr>silent = False, until_unix_ms = None, group_similar = True, bypass_dnd = False\<rparr>"

definition AppPolicy_expire :: "nat \<Rightarrow> AppPolicy \<Rightarrow> bool \<times> AppPolicy" where
  "AppPolicy_expire now self = (case expire_flag (silent self) (until_unix_ms self) now of
     (expired, enabled, deadline) \<Rightarrow> (expired, self\<lparr>silent := enabled, until_unix_ms := deadline\<rparr>))"

definition silenced :: "nat \<Rightarrow> AppPolicy \<Rightarrow> bool" where
  "silenced now self \<longleftrightarrow> silent self \<and> (case until_unix_ms self of Some until \<Rightarrow> until > now | None \<Rightarrow> True)"

definition AppPolicy_validate :: "nat \<Rightarrow> AppPolicy \<Rightarrow> unit result" where
  "AppPolicy_validate now self =
     ensure (case until_unix_ms self of
        Some until \<Rightarrow> now < until \<and> until \<le> saturating_add_u64 now (7 * 86400000) | None \<Rightarrow> True)
       ''quiet period must end within the next seven days''"

section \<open>Settings\<close>

record Settings =
  countdown :: bool
  code_expiry_seconds :: nat
  history_days :: nat

definition Settings_default :: Settings where
  "Settings_default = \<lparr>countdown = True, code_expiry_seconds = 0, history_days = 30\<rparr>"

record SettingsPatch =
  p_countdown :: "bool option"
  p_code_expiry_seconds :: "nat option"
  p_history_days :: "nat option"

definition Settings_validate :: "Settings \<Rightarrow> unit result" where
  "Settings_validate self =
     and_then (ensure (1 \<le> history_days self \<and> history_days self \<le> 30) ''History retention must be 1-30 days'') (\<lambda>_.
     ensure (code_expiry_seconds self = 0 \<or> (10 \<le> code_expiry_seconds self \<and> code_expiry_seconds self \<le> 300))
       ''Code expiry must be Never or 10-300 seconds'')"

definition Settings_patched :: "SettingsPatch \<Rightarrow> Settings \<Rightarrow> Settings result" where
  "Settings_patched patch self =
     (let new = \<lparr>countdown = unwrap_or (countdown self) (p_countdown patch),
            code_expiry_seconds = unwrap_or (code_expiry_seconds self) (p_code_expiry_seconds patch),
            history_days = unwrap_or (history_days self) (p_history_days patch)\<rparr> in
      and_then (Settings_validate new) (\<lambda>_. Ok new))"

section \<open>Screen sharing\<close>

record Sharing =
  sh_available :: bool
  sh_active :: bool
  sh_prompt :: bool
  sh_generation :: nat
  sh_until :: "nat option"
  until_sharing_ends :: bool

definition Sharing_default :: Sharing where
  "Sharing_default = \<lparr>sh_available = False, sh_active = False, sh_prompt = False, sh_generation = 0,
     sh_until = None, until_sharing_ends = False\<rparr>"

definition suppressed :: "nat \<Rightarrow> Sharing \<Rightarrow> bool" where
  "suppressed now self \<longleftrightarrow> sh_prompt self \<or> (sh_active self \<and> until_sharing_ends self)
     \<or> (case sh_until self of Some until \<Rightarrow> until > now | None \<Rightarrow> False)"

definition Sharing_observe :: "bool option \<Rightarrow> Sharing \<Rightarrow> Sharing" where
  "Sharing_observe observed self0 =
     (let self = self0\<lparr>sh_available := (observed \<noteq> None)\<rparr> in
      case observed of
        None \<Rightarrow> self
      | Some act \<Rightarrow>
        (if act \<and> \<not> sh_active self then
           self\<lparr>sh_generation := wrapping_add_u64 (sh_generation self) 1, sh_prompt := True,
                until_sharing_ends := True, sh_active := act\<rparr>
         else if \<not> act then self\<lparr>sh_prompt := False, until_sharing_ends := False, sh_active := act\<rparr>
         else self\<lparr>sh_active := act\<rparr>))"

definition Sharing_snooze :: "nat \<Rightarrow> nat \<Rightarrow> nat \<Rightarrow> Sharing \<Rightarrow> Sharing result" where
  "Sharing_snooze generation minutes now self =
     and_then (ensure (sh_active self \<and> sh_generation self = generation) ''Screen-sharing session changed'') (\<lambda>_.
     and_then (ensure (minutes \<in> {0, 15, 60}) ''Choose 15 minutes, 1 hour or until sharing ends'') (\<lambda>_.
     Ok (self\<lparr>sh_prompt := False, until_sharing_ends := (minutes = 0),
              sh_until := (if minutes > 0 then Some (saturating_add_u64 now (minutes * 60000)) else None)\<rparr>)))"

definition Sharing_expire :: "nat \<Rightarrow> Sharing \<Rightarrow> Sharing" where
  "Sharing_expire now self = self\<lparr>sh_until := snd (take_due (sh_until self) now)\<rparr>"

definition screen_node :: "string \<Rightarrow> string \<Rightarrow> string \<Rightarrow> bool" where
  "screen_node node_class role name \<longleftrightarrow> node_class = ''Video/Source'' \<and>
     (eq_ignore_ascii_case role ''screen''
      \<or> list_ex (\<lambda>p. name = p \<or> starts_with (p @ ''-'') name)
          [''xdg-desktop-portal-hyprland'', ''xdg-desktop-portal-wlr''])"

section \<open>Basic facts\<close>

lemma take_due_simps:
  "fst (take_due d now) \<longleftrightarrow> (\<exists>u. d = Some u \<and> u \<le> now)"
  "snd (take_due d now) = (case d of Some u \<Rightarrow> if u \<le> now then None else Some u | None \<Rightarrow> None)"
  by (auto simp: take_due_def split: option.splits)

lemma from_incoming_simps [simp]:
  "nid (from_incoming E n i now) = n" "created_unix_ms (from_incoming E n i now) = now"
  "updated_unix_ms (from_incoming E n i now) = now" "source_monitor (from_incoming E n i now) = []"
  by (simp_all add: from_incoming_def Let_def)

lemma replace_from_simps [simp]:
  "nid (replace_from E i now n) = nid n" "created_unix_ms (replace_from E i now n) = created_unix_ms n"
  "source_monitor (replace_from E i now n) = source_monitor n"
  "updated_unix_ms (replace_from E i now n) = max now (saturating_add_u64 (updated_unix_ms n) 1)"
  by (simp_all add: replace_from_def Let_def)

lemma advance_fields [simp]:
  "nid (snd (advance now n)) = nid n" "created_unix_ms (snd (advance now n)) = created_unix_ms n"
  by (auto simp: advance_def Let_def split: prod.splits)

lemma Settings_patched_valid: "Settings_patched patch s = Inr t \<Longrightarrow> Settings_validate t = Inr ()"
  by (auto simp: Settings_patched_def and_then_Ok_iff Let_def)

end
