(* ===== verification/Notification_Decks.thy ===== *)
theory Notification_Decks
  imports Notification_Model "HOL-Library.Product_Lexorder" "HOL-Library.Sublist" "HOL-Library.Multiset"
begin

text \<open>
  Toast decks: which popups are shown, on which monitor and in which order, and the reading leases that
  freeze a monitor while its popups are read (\<open>activity/notifications/decks.rs\<close>).
\<close>

section \<open>Decks\<close>

definition LEASE_MS :: nat where "LEASE_MS = 3000"

record ToastDeck =
  dk_monitor :: string
  dk_key :: string
  dk_records :: "ActiveNotification list"

record Decks =
  leases :: "(string, nat \<times> nat) omap"
  published :: "ToastDeck list"

definition Decks_default :: Decks where
  "Decks_default = \<lparr>leases = [], published = []\<rparr>"

type_synonym active_map = "(nat, ActiveNotification) omap"

definition reading :: "string \<Rightarrow> Decks \<Rightarrow> bool" where
  "reading monitor self = om_has monitor (leases self)"

fun option_Min :: "nat list \<Rightarrow> nat option" where
  "option_Min [] = None"
| "option_Min (x # xs) = option_min (Some x) (option_Min xs)"

definition Decks_deadline :: "Decks \<Rightarrow> nat option" where
  "Decks_deadline self = option_Min (map snd (om_values (leases self)))"

text \<open>Ending a lease gives the popups of the monitor the time back that the reading took.\<close>

definition extend_toast :: "string \<Rightarrow> nat \<Rightarrow> nat \<Rightarrow> ActiveNotification \<Rightarrow> ActiveNotification" where
  "extend_toast monitor started now n =
     (if source_monitor n = monitor
      then n\<lparr>toast_expires_unix_ms := map_option (\<lambda>deadline.
             saturating_add_u64 deadline (now - max started (updated_unix_ms n))) (toast_expires_unix_ms n)\<rparr>
      else n)"

definition set_reading :: "string \<Rightarrow> bool \<Rightarrow> nat \<Rightarrow> Decks \<times> active_map \<Rightarrow> Decks \<times> active_map" where
  "set_reading monitor read now st = (case st of (self, active) \<Rightarrow>
     if read then
       let started = (case om_get (leases self) monitor of Some (started, _) \<Rightarrow> started | None \<Rightarrow> now) in
       (self\<lparr>leases := om_insert monitor (started, saturating_add_u64 now LEASE_MS) (leases self)\<rparr>, active)
     else case om_get (leases self) monitor of
       None \<Rightarrow> (self, active)
     | Some (started, _) \<Rightarrow>
         (self\<lparr>leases := om_remove monitor (leases self)\<rparr>, om_map (extend_toast monitor started now) active))"

definition Decks_expire :: "nat \<Rightarrow> Decks \<times> active_map \<Rightarrow> Decks \<times> active_map" where
  "Decks_expire now st =
     (let expired = map fst (filter (\<lambda>(_, (_, deadline)). deadline \<le> now) (leases (fst st))) in
      fold (\<lambda>monitor. set_reading monitor False now) expired st)"

section \<open>Projection\<close>

definition eligible :: "bool \<Rightarrow> ActiveNotification \<Rightarrow> bool" where
  "eligible dnd n \<longleftrightarrow> toast_visible n \<and> (\<not> dnd \<or> dnd_bypass n)"

text \<open>What becomes of a record on a frozen deck: dropped, refreshed, or kept inert when it was replaced.\<close>

definition frozen_record ::
  "ActiveNotification list \<Rightarrow> bool \<Rightarrow> string \<Rightarrow> ActiveNotification \<Rightarrow> ActiveNotification option" where
  "frozen_record records dnd monitor old =
     (case find (\<lambda>n. nid n = nid old \<and> source_monitor n = monitor \<and> created_unix_ms n = created_unix_ms old)
        (filter (eligible dnd) records) of
        None \<Rightarrow> None
      | Some current \<Rightarrow> if updated_unix_ms current = updated_unix_ms old then Some current
                        else Some (old\<lparr>interaction_blocked := True\<rparr>))"

definition frozen_deck :: "ActiveNotification list \<Rightarrow> bool \<Rightarrow> ToastDeck \<Rightarrow> ToastDeck" where
  "frozen_deck records dnd deck =
     deck\<lparr>dk_records := List.map_filter (frozen_record records dnd (dk_monitor deck)) (dk_records deck)\<rparr>"

fun push_record :: "ActiveNotification \<Rightarrow> ToastDeck list \<Rightarrow> ToastDeck list" where
  "push_record n [] = []"
| "push_record n (d # ds) =
     (if dk_monitor d = source_monitor n \<and> dk_key d = app_key n
      then d\<lparr>dk_records := dk_records d @ [n]\<rparr> # ds else d # push_record n ds)"

definition place :: "ActiveNotification \<Rightarrow> ToastDeck list \<Rightarrow> ToastDeck list" where
  "place n ds =
     (if list_ex (\<lambda>d. dk_monitor d = source_monitor n \<and> dk_key d = app_key n) ds then push_record n ds
      else if length (filter (\<lambda>d. dk_monitor d = source_monitor n) ds) < 3
      then ds @ [\<lparr>dk_monitor = source_monitor n, dk_key = app_key n, dk_records = [n]\<rparr>]
      else ds)"

definition newest_first :: "ActiveNotification \<Rightarrow> int \<times> int" where
  "newest_first n = (- int (created_unix_ms n), - int (nid n))"

definition project :: "ActiveNotification list \<Rightarrow> bool \<Rightarrow> Decks \<Rightarrow> ToastDeck list \<times> Decks" where
  "project records dnd self =
     (let kept = filter (\<lambda>d. dk_records d \<noteq> [])
            (map (frozen_deck records dnd) (filter (\<lambda>d. reading (dk_monitor d) self) (published self)));
          ordered = sort_key newest_first
            (filter (\<lambda>n. \<not> reading (source_monitor n) self) (filter (eligible dnd) records));
          new = fold place ordered kept in
      (new, self\<lparr>published := new\<rparr>))"

section \<open>The shape of what is shown\<close>

definition shown :: "ToastDeck list \<Rightarrow> ActiveNotification list" where
  "shown ds = concat (map dk_records ds)"

lemma shown_simps [simp]:
  "shown [] = []" "shown (d # ds) = dk_records d @ shown ds" "shown (ds @ es) = shown ds @ shown es"
  by (simp_all add: shown_def)

definition on_monitor :: "string \<Rightarrow> ToastDeck list \<Rightarrow> ToastDeck list" where
  "on_monitor m ds = filter (\<lambda>d. dk_monitor d = m) ds"

definition decks_ok :: "ToastDeck list \<Rightarrow> bool" where
  "decks_ok ds \<longleftrightarrow> (\<forall>m. length (on_monitor m ds) \<le> 3)
     \<and> distinct (map (\<lambda>d. (dk_monitor d, dk_key d)) ds)
     \<and> (\<forall>d\<in>set ds. dk_records d \<noteq> [] \<and> (\<forall>r\<in>set (dk_records d). source_monitor r = dk_monitor d))
     \<and> distinct (map nid (shown ds))"

lemma decks_ok_Nil [simp]: "decks_ok []"
  by (simp add: decks_ok_def on_monitor_def)

lemma push_record_frame [simp]:
  "map (\<lambda>d. (dk_monitor d, dk_key d)) (push_record n ds) = map (\<lambda>d. (dk_monitor d, dk_key d)) ds"
  "length (on_monitor m (push_record n ds)) = length (on_monitor m ds)"
  by (induction ds) (auto simp: on_monitor_def)

lemma push_record_shown:
  "list_ex (\<lambda>d. dk_monitor d = source_monitor n \<and> dk_key d = app_key n) ds \<Longrightarrow>
   mset (shown (push_record n ds)) = add_mset n (mset (shown ds))"
  by (induction ds) auto

lemma push_record_mem:
  "d \<in> set (push_record n ds) \<Longrightarrow> d \<in> set ds \<or>
     (\<exists>d0\<in>set ds. dk_monitor d0 = source_monitor n \<and> d = d0\<lparr>dk_records := dk_records d0 @ [n]\<rparr>)"
  by (induction ds) (auto split: if_splits)

lemma place_shown:
  "mset (shown (place n ds)) = add_mset n (mset (shown ds)) \<or> place n ds = ds"
  by (auto simp: place_def push_record_shown)

lemma distinct_nid_add:
  "mset (shown ds') = add_mset n (mset (shown ds)) \<Longrightarrow>
   distinct (map nid (shown ds')) \<longleftrightarrow> nid n \<notin> nid ` set (shown ds) \<and> distinct (map nid (shown ds))"
proof -
  assume m: "mset (shown ds') = add_mset n (mset (shown ds))"
  then have "mset (map nid (shown ds')) = mset (map nid (n # shown ds))" by simp
  then have "distinct (map nid (shown ds')) = distinct (map nid (n # shown ds))"
    by (rule mset_eq_imp_distinct_iff)
  then show ?thesis by simp
qed

lemma place_ok:
  assumes ok: "decks_ok ds" and new: "nid n \<notin> nid ` set (shown ds)"
  shows "decks_ok (place n ds)"
proof -
  consider (push) "list_ex (\<lambda>d. dk_monitor d = source_monitor n \<and> dk_key d = app_key n) ds"
    | (add) "\<not> list_ex (\<lambda>d. dk_monitor d = source_monitor n \<and> dk_key d = app_key n) ds"
        "length (on_monitor (source_monitor n) ds) < 3"
    | (full) "place n ds = ds"
    unfolding place_def on_monitor_def by argo
  then show ?thesis
  proof cases
    case push
    with push_record_shown [OF push] ok new show ?thesis
      by (auto simp: decks_ok_def place_def distinct_nid_add dest!: push_record_mem)
  next
    case add
    have p: "place n ds = ds @ [\<lparr>dk_monitor = source_monitor n, dk_key = app_key n, dk_records = [n]\<rparr>]"
      unfolding place_def using add by (simp only: on_monitor_def if_False if_True)
    have "(source_monitor n, app_key n) \<notin> (\<lambda>d. (dk_monitor d, dk_key d)) ` set ds"
      using add(1) by (auto simp: list_ex_iff)
    moreover have "length (on_monitor m (place n ds)) \<le> 3" for m
      using ok add(2) unfolding decks_ok_def p by (cases "m = source_monitor n") (auto simp: on_monitor_def)
    ultimately show ?thesis
      using ok new unfolding decks_ok_def p by simp
  next
    case full
    with ok show ?thesis by simp
  qed
qed

lemma place_mono: "set (shown ds) \<subseteq> set (shown (place n ds))"
  and place_sub: "set (shown (place n ds)) \<subseteq> insert n (set (shown ds))"
  using place_shown [of n ds] by (metis order_refl set_mset_add_mset_insert set_mset_mset subset_insertI)+

lemma place_count: "length (on_monitor m ds) \<le> length (on_monitor m (place n ds))"
  by (auto simp: place_def on_monitor_def [symmetric]) (simp_all add: on_monitor_def)

lemma place_places: "n \<in> set (shown (place n ds)) \<or> length (on_monitor (source_monitor n) (place n ds)) \<ge> 3"
proof (cases "list_ex (\<lambda>d. dk_monitor d = source_monitor n \<and> dk_key d = app_key n) ds")
  case True
  from push_record_shown [OF True] True show ?thesis
    by (metis place_def set_mset_add_mset_insert set_mset_mset insertI1)
qed (auto simp: place_def on_monitor_def)

lemma disjoint_insertI: "A \<subseteq> insert a B \<Longrightarrow> a \<notin> N \<Longrightarrow> N \<inter> B = {} \<Longrightarrow> N \<inter> A = {}"
  by auto

lemma fold_place:
  "decks_ok ds \<Longrightarrow> distinct (map nid ns) \<Longrightarrow> nid ` set ns \<inter> nid ` set (shown ds) = {} \<Longrightarrow>
   decks_ok (fold place ns ds) \<and> set (shown ds) \<subseteq> set (shown (fold place ns ds))
   \<and> set (shown (fold place ns ds)) \<subseteq> set (shown ds) \<union> set ns
   \<and> (\<forall>m. length (on_monitor m ds) \<le> length (on_monitor m (fold place ns ds)))
   \<and> (\<forall>n\<in>set ns. n \<in> set (shown (fold place ns ds))
       \<or> 3 \<le> length (on_monitor (source_monitor n) (fold place ns ds)))"
proof (induction ns arbitrary: ds)
  case (Cons n ns)
  have ok: "decks_ok (place n ds)" using Cons.prems by (intro place_ok) auto
  have fresh: "nid ` set ns \<inter> nid ` set (shown (place n ds)) = {}"
  proof -
    have "nid ` set (shown (place n ds)) \<subseteq> insert (nid n) (nid ` set (shown ds))"
      using image_mono [OF place_sub [of n ds], of nid] by (simp only: image_insert)
    moreover have "nid n \<notin> nid ` set ns" "nid ` set ns \<inter> nid ` set (shown ds) = {}"
      using Cons.prems(2,3) by auto
    ultimately show ?thesis by (rule disjoint_insertI)
  qed
  have dist: "distinct (map nid ns)" using Cons.prems by simp
  let ?r = "fold place ns (place n ds)"
  from Cons.IH [OF ok dist fresh] have IH: "decks_ok ?r" "set (shown (place n ds)) \<subseteq> set (shown ?r)"
    "set (shown ?r) \<subseteq> set (shown (place n ds)) \<union> set ns"
    "\<And>m. length (on_monitor m (place n ds)) \<le> length (on_monitor m ?r)"
    "\<And>x. x \<in> set ns \<Longrightarrow> x \<in> set (shown ?r) \<or> 3 \<le> length (on_monitor (source_monitor x) ?r)"
    by simp_all
  have here: "n \<in> set (shown ?r) \<or> 3 \<le> length (on_monitor (source_monitor n) ?r)"
    using place_places [of n ds] IH(2) IH(4) [of "source_monitor n"] by (meson order_trans subsetD)
  have count: "length (on_monitor m ds) \<le> length (on_monitor m ?r)" for m
    using place_count [of m ds n] IH(4) [of m] by (rule order_trans)
  have sub: "set (shown ds) \<subseteq> set (shown ?r)" "set (shown ?r) \<subseteq> set (shown ds) \<union> set (n # ns)"
    using place_mono [of ds n] IH(2) place_sub [of n ds] IH(3) by auto
  show ?case using IH(1,5) here count sub by simp
qed simp

section \<open>Frozen decks\<close>

lemma frozen_recordD:
  assumes "frozen_record records dnd m old = Some r"
  shows "nid r = nid old" "source_monitor old = m \<Longrightarrow> source_monitor r = m"
    "\<exists>current\<in>set records. eligible dnd current \<and> nid current = nid old \<and> source_monitor current = m
       \<and> created_unix_ms current = created_unix_ms old \<and> (r = current \<or> r = old\<lparr>interaction_blocked := True\<rparr>)"
proof -
  from assms obtain current where f: "find (\<lambda>n. nid n = nid old \<and> source_monitor n = m
        \<and> created_unix_ms n = created_unix_ms old) (filter (eligible dnd) records) = Some current"
    and r: "r = current \<or> r = old\<lparr>interaction_blocked := True\<rparr>"
    by (auto simp: frozen_record_def split: option.splits if_splits)
  have c: "current \<in> set records \<and> eligible dnd current \<and> nid current = nid old \<and> source_monitor current = m
      \<and> created_unix_ms current = created_unix_ms old"
    using find_Some_mem [OF f] by auto
  with r show "nid r = nid old" "source_monitor old = m \<Longrightarrow> source_monitor r = m" by auto
  from c r show "\<exists>current\<in>set records. eligible dnd current \<and> nid current = nid old \<and> source_monitor current = m
       \<and> created_unix_ms current = created_unix_ms old \<and> (r = current \<or> r = old\<lparr>interaction_blocked := True\<rparr>)"
    by blast
qed

lemma frozen_deck_mem:
  "r \<in> set (dk_records (frozen_deck records dnd d)) \<Longrightarrow>
     \<exists>old\<in>set (dk_records d). frozen_record records dnd (dk_monitor d) old = Some r"
  by (auto simp: frozen_deck_def List.map_filter_def)

lemma map_filter_subseq:
  "(\<And>x y. f x = Some y \<Longrightarrow> g y = g x) \<Longrightarrow> subseq (map g (List.map_filter f xs)) (map g xs)"
  by (induction xs) (auto simp: List.map_filter_simps split: option.splits)

lemma frozen_deck_subseq: "subseq (map nid (dk_records (frozen_deck records dnd d))) (map nid (dk_records d))"
  unfolding frozen_deck_def by (simp, rule map_filter_subseq) (rule frozen_recordD(1))

definition kept_decks :: "ActiveNotification list \<Rightarrow> bool \<Rightarrow> Decks \<Rightarrow> ToastDeck list" where
  "kept_decks records dnd self = filter (\<lambda>d. dk_records d \<noteq> [])
     (map (frozen_deck records dnd) (filter (\<lambda>d. reading (dk_monitor d) self) (published self)))"

lemma frozen_deck_frame [simp]:
  "dk_monitor (frozen_deck records dnd d) = dk_monitor d" "dk_key (frozen_deck records dnd d) = dk_key d"
  by (simp_all add: frozen_deck_def)

lemma subseq_distinct: "subseq xs ys \<Longrightarrow> distinct ys \<Longrightarrow> distinct xs"
  by (auto simp: subseq_conv_nths intro: distinct_nthsI)

lemma shown_thin:
  assumes "\<And>d. subseq (map nid (dk_records (f d))) (map nid (dk_records d))"
  shows "subseq (map nid (shown (filter P (map f (filter Q ds))))) (map nid (shown ds))"
  using assms by (induction ds) (auto intro: list_emb_append_mono subseq_drop_many)

lemma kept_subseq:
  "subseq (map nid (shown (on_monitor m (kept_decks records dnd self)))) (map nid (shown (on_monitor m (published self))))"
proof -
  have "on_monitor m (filter P (map (frozen_deck records dnd) (filter Q ds))) =
      filter P (map (frozen_deck records dnd) (filter Q (on_monitor m ds)))" for P Q ds
    by (induction ds) (simp_all add: on_monitor_def)
  then have "on_monitor m (kept_decks records dnd self) = filter (\<lambda>d. dk_records d \<noteq> [])
      (map (frozen_deck records dnd) (filter (\<lambda>d. reading (dk_monitor d) self) (on_monitor m (published self))))"
    by (simp add: kept_decks_def)
  then show ?thesis by (simp add: shown_thin frozen_deck_subseq)
qed

lemma thin_ok:
  assumes ok: "decks_ok ds"
  shows "decks_ok (filter (\<lambda>d. dk_records d \<noteq> []) (map (frozen_deck records dnd) (filter P ds)))" (is "decks_ok ?ds")
  unfolding decks_ok_def
proof (intro conjI allI ballI)
  show "length (on_monitor m ?ds) \<le> 3" for m
  proof -
    have "length (on_monitor m ?ds) \<le> length (on_monitor m ds)"
      by (induction ds) (auto simp: on_monitor_def)
    also have "\<dots> \<le> 3" using ok by (simp add: decks_ok_def)
    finally show ?thesis .
  qed
  have "map (\<lambda>d. (dk_monitor d, dk_key d)) ?ds =
      map (\<lambda>d. (dk_monitor d, dk_key d)) (filter (\<lambda>d. P d \<and> dk_records (frozen_deck records dnd d) \<noteq> []) ds)"
    by (induction ds) auto
  then show "distinct (map (\<lambda>d. (dk_monitor d, dk_key d)) ?ds)"
    using ok by (simp add: decks_ok_def distinct_map_filter)
  show "dk_records d \<noteq> []" if "d \<in> set ?ds" for d using that by auto
  show "source_monitor r = dk_monitor d" if "d \<in> set ?ds" "r \<in> set (dk_records d)" for d r
  proof -
    from that(1) obtain d0 where d0: "d0 \<in> set ds" "d = frozen_deck records dnd d0" by auto
    from frozen_deck_mem that(2) d0(2) obtain old where
      old: "old \<in> set (dk_records d0)" "frozen_record records dnd (dk_monitor d0) old = Some r" by blast
    from ok d0(1) old(1) have "source_monitor old = dk_monitor d0" by (simp add: decks_ok_def)
    from frozen_recordD(2) [OF old(2) this] d0(2) show ?thesis by simp
  qed
  have "subseq (map nid (shown ?ds)) (map nid (shown ds))"
    by (rule shown_thin) (rule frozen_deck_subseq)
  then show "distinct (map nid (shown ?ds))"
    using ok subseq_distinct by (auto simp: decks_ok_def)
qed

lemma kept_ok: "decks_ok (published self) \<Longrightarrow> decks_ok (kept_decks records dnd self)"
  unfolding kept_decks_def by (rule thin_ok)

lemma kept_mem:
  assumes ok: "decks_ok (published self)" and r: "r \<in> set (shown (kept_decks records dnd self))"
  shows "\<exists>current\<in>set records. eligible dnd current \<and> nid current = nid r \<and> reading (source_monitor current) self
    \<and> created_unix_ms current = created_unix_ms r \<and> (r = current \<or> interaction_blocked r)"
proof -
  from r obtain d where d: "d \<in> set (published self)" "reading (dk_monitor d) self"
    "r \<in> set (dk_records (frozen_deck records dnd d))"
    by (auto simp: shown_def kept_decks_def)
  from frozen_deck_mem [OF d(3)] obtain old where
    "old \<in> set (dk_records d)" "frozen_record records dnd (dk_monitor d) old = Some r" by blast
  with frozen_recordD [OF this(2)] d(2) show ?thesis by (elim bexE conjE) auto
qed

lemma place_elsewhere: "source_monitor n \<noteq> m \<Longrightarrow> on_monitor m (place n ds) = on_monitor m ds"
proof -
  assume m: "source_monitor n \<noteq> m"
  have "on_monitor m (push_record n ds) = on_monitor m ds"
    using m by (induction ds) (auto simp: on_monitor_def)
  with m show ?thesis by (simp add: place_def) (simp add: on_monitor_def)
qed

lemma fold_place_elsewhere:
  "\<forall>n\<in>set ns. source_monitor n \<noteq> m \<Longrightarrow> on_monitor m (fold place ns ds) = on_monitor m ds"
  by (induction ns arbitrary: ds) (simp_all add: place_elsewhere)

definition arrivals :: "ActiveNotification list \<Rightarrow> bool \<Rightarrow> Decks \<Rightarrow> ActiveNotification list" where
  "arrivals records dnd self = sort_key newest_first
     (filter (\<lambda>n. \<not> reading (source_monitor n) self) (filter (eligible dnd) records))"

lemma project_alt:
  "project records dnd self = (let new = fold place (arrivals records dnd self) (kept_decks records dnd self) in
     (new, self\<lparr>published := new\<rparr>))"
  by (simp add: project_def arrivals_def kept_decks_def)

lemma arrivals_mem [simp]:
  "n \<in> set (arrivals records dnd self) \<longleftrightarrow> n \<in> set records \<and> eligible dnd n \<and> \<not> reading (source_monitor n) self"
  by (auto simp: arrivals_def)

lemma arrivals_distinct: "distinct (map nid records) \<Longrightarrow> distinct (map nid (arrivals records dnd self))"
  by (simp add: arrivals_def distinct_map distinct_sort inj_on_def)

lemma distinct_nid_eq: "distinct (map nid records) \<Longrightarrow> a \<in> set records \<Longrightarrow> b \<in> set records \<Longrightarrow> nid a = nid b \<Longrightarrow> a = b"
  by (simp add: distinct_map inj_on_def)

lemma project_placed:
  assumes ok: "decks_ok (published self)" and dist: "distinct (map nid records)"
    and new: "project records dnd self = (ds, self')"
  shows "ds = fold place (arrivals records dnd self) (kept_decks records dnd self)"
    and "self' = self\<lparr>published := ds\<rparr>" and "decks_ok ds"
    and "set (shown ds) \<subseteq> set (shown (kept_decks records dnd self)) \<union> set (arrivals records dnd self)"
    and "n \<in> set (arrivals records dnd self) \<Longrightarrow>
      n \<in> set (shown ds) \<or> 3 \<le> length (on_monitor (source_monitor n) ds)"
proof -
  show ds: "ds = fold place (arrivals records dnd self) (kept_decks records dnd self)"
    and "self' = self\<lparr>published := ds\<rparr>"
    using new by (auto simp: project_alt Let_def)
  have "nid a \<noteq> nid r" if "a \<in> set (arrivals records dnd self)" "r \<in> set (shown (kept_decks records dnd self))" for a r
  proof
    assume eq: "nid a = nid r"
    from kept_mem [OF ok that(2)] obtain c where "c \<in> set records" "nid c = nid r" "reading (source_monitor c) self"
      by blast
    with that(1) eq distinct_nid_eq [OF dist, of a c] show False by simp
  qed
  then have "nid ` set (arrivals records dnd self) \<inter> nid ` set (shown (kept_decks records dnd self)) = {}"
    by (auto simp del: arrivals_mem)
  note f = fold_place [OF kept_ok [OF ok] arrivals_distinct [OF dist] this]
  from f ds show "decks_ok ds"
    "set (shown ds) \<subseteq> set (shown (kept_decks records dnd self)) \<union> set (arrivals records dnd self)"
    "n \<in> set (arrivals records dnd self) \<Longrightarrow>
      n \<in> set (shown ds) \<or> 3 \<le> length (on_monitor (source_monitor n) ds)"
    by simp_all
qed

text \<open>
  What the toast decks show. Each monitor has at most three decks, one per application, none empty, with
  every popup on its own monitor and shown once. A popup is an eligible notification as it is now, or, on a
  monitor that is being read, the inert old card of a notification that was replaced meanwhile. An eligible
  notification on a monitor that is not being read is missing only when three decks fill the monitor; and on
  a monitor being read nothing is added or reordered.
\<close>

theorem toast_decks_shown:
  assumes ok: "decks_ok (published self)" and dist: "distinct (map nid records)"
    and new: "project records dnd self = (ds, self')"
  shows "decks_ok ds \<and> published self' = ds
    \<and> (\<forall>r\<in>set (shown ds). \<exists>n\<in>set records. eligible dnd n \<and> nid n = nid r
         \<and> (r = n \<or> (interaction_blocked r \<and> reading (source_monitor n) self)))
    \<and> (\<forall>n\<in>set records. eligible dnd n \<and> \<not> reading (source_monitor n) self \<longrightarrow>
         n \<in> set (shown ds) \<or> length (on_monitor (source_monitor n) ds) = 3)
    \<and> (\<forall>m. reading m self \<longrightarrow>
         subseq (map nid (shown (on_monitor m ds))) (map nid (shown (on_monitor m (published self)))))"
proof (intro conjI ballI allI impI)
  note p = project_placed [OF ok dist new]
  show "decks_ok ds" by (rule p(3))
  show "published self' = ds" by (simp add: p(2))
  show "\<exists>n\<in>set records. eligible dnd n \<and> nid n = nid r
      \<and> (r = n \<or> (interaction_blocked r \<and> reading (source_monitor n) self))" if "r \<in> set (shown ds)" for r
    using subsetD [OF p(4) that] kept_mem [OF ok, of r records dnd] by (auto 0 3)
  show "n \<in> set (shown ds) \<or> length (on_monitor (source_monitor n) ds) = 3"
    if "n \<in> set records" "eligible dnd n \<and> \<not> reading (source_monitor n) self" for n
    using p(5) [of n] p(3) that by (auto simp: decks_ok_def intro: le_antisym)
  show "subseq (map nid (shown (on_monitor m ds))) (map nid (shown (on_monitor m (published self))))"
    if "reading m self" for m
  proof -
    have "\<forall>n\<in>set (arrivals records dnd self). source_monitor n \<noteq> m" using that by auto
    from fold_place_elsewhere [OF this] kept_subseq [of m records dnd self] show ?thesis by (simp add: p(1))
  qed
qed

definition toast_example :: "nat \<Rightarrow> ActiveNotification" where
  "toast_example n = (from_incoming \<lparr>parse_url = (\<lambda>_. None), phone_matches = (\<lambda>_. []),
       code_matches = (\<lambda>_. []), icon_of = (\<lambda>_ _. []), payload_len = (\<lambda>_. 0)\<rparr> n
     \<lparr>in_app_name = ''app'', in_app_icon = [], in_summary = [], in_body = [], in_actions = [],
      in_hints = \<lparr>urgency = 0, category = [], desktop_entry = [], image_path = [], sound_name = [], sound_file = [],
        resident = False, transient = False, suppress_sound = False, image_data_present = False\<rparr>,
      expire_timeout = 0\<rparr> n)\<lparr>source_monitor := ''DP-1''\<rparr>"

theorem toast_decks_shown_witness:
  "decks_ok (fst (project [toast_example 1, toast_example 2] False Decks_default))
   \<and> toast_example 1 \<in> set (shown (fst (project [toast_example 1, toast_example 2] False Decks_default)))"
proof -
  let ?p = "project [toast_example 1, toast_example 2] False Decks_default"
  have m: "source_monitor (toast_example n) = ''DP-1''" "nid (toast_example n) = n" "eligible False (toast_example n)" for n
    by (simp_all add: toast_example_def eligible_def from_incoming_def Let_def)
  have k: "app_key (toast_example n) = app_key (toast_example 1)" for n
    by (simp add: app_key_def toast_example_def from_incoming_def Let_def identity_app_key_def trim_def
        ws_strings_def ws_seqs_def starts_with_def char_of_def bit_0)
  have ns: "newest_first (toast_example (Suc 0)) = (- 1, - 1)" "newest_first (toast_example 2) = (- 2, - 2)"
    by (simp_all add: newest_first_def toast_example_def)
  have "fst ?p = [\<lparr>dk_monitor = ''DP-1'', dk_key = app_key (toast_example 1),
      dk_records = [toast_example 2, toast_example 1]\<rparr>]"
    by (simp add: project_def Decks_default_def reading_def om_has_def Let_def m ns place_def k [of 2])
  moreover have "decks_ok (fst ?p)"
    using toast_decks_shown [of Decks_default "[toast_example 1, toast_example 2]" False "fst ?p" "snd ?p"]
    by (simp add: Decks_default_def m)
  ultimately show ?thesis by simp
qed

end
