(* ===== verification/Notification_Engine.thy ===== *)
theory Notification_Engine
  imports Notification_Decks
begin

text \<open>
  The notification engine of \<open>activity/notifications/engine.rs\<close>. Every mutation runs under the engine's
  mutation lock, so an operation is one step on the engine's state. The signals it emits and the writes it
  queues for the store are logged in order. What a call reads from outside (clocks, the workspace state, the
  answers of the store and of the update service) is its \<open>ncall\<close>; the clock is read once for the operation
  and once for the publication that ends it.
\<close>

section \<open>State\<close>

record EngineData =
  ed_active :: active_map
  update_targets :: "(nat, string) omap"
  ed_dnd :: bool
  ed_dnd_until :: "nat option"
  history_revision :: nat
  app_policies :: "(string, AppPolicy) omap"
  delete_tickets :: "(string, nat \<times> Position list) omap"
  ed_decks :: Decks
  ed_settings :: Settings
  next_prune_ms :: nat
  retention_error :: "string option"
  ed_sharing :: Sharing

datatype Write = W_Save ActiveNotification | W_Close nat nat nat | W_Clear nat nat | W_Dnd bool "nat option"

record NotificationState =
  ns_count :: nat
  ns_dnd :: bool
  ns_dnd_until :: "nat option"
  ns_text :: string
  ns_tooltip :: string
  ns_class_name :: string
  ns_history_revision :: nat
  ns_settings :: Settings
  ns_sharing :: Sharing
  ns_app_policies :: "(string, AppPolicy) omap"
  ns_error :: "string option"

record NotificationActiveState =
  na_revision :: nat
  na_notifications :: "ActiveNotification list"
  na_toast_decks :: "ToastDeck list"

record engine =
  en_data :: EngineData
  en_next_id :: nat
  en_signals :: "NotificationSignal list"
  en_writes :: "Write list"
  en_state :: "(NotificationState \<times> NotificationActiveState) option"

record nconf =
  nc_env :: nenv
  nc_persistent :: bool
  nc_valid_run_id :: "string \<Rightarrow> bool"

record ncall =
  cl_now :: nat
  cl_published :: nat
  cl_permit :: bool
  cl_reserve :: "unit result"
  cl_store :: "unit result"
  cl_once :: "bool result"
  cl_targets :: "Position list result"
  cl_pruned :: "nat result"
  cl_token :: "string result"
  cl_open :: "unit result"
  cl_monitors :: "string list"
  cl_focused :: "string option"

section \<open>Data operations\<close>

definition bump :: "EngineData \<Rightarrow> EngineData" where
  "bump d = d\<lparr>history_revision := wrapping_add_u64 (history_revision d) 1\<rparr>"

definition EngineData_remove :: "nat \<Rightarrow> EngineData \<Rightarrow> ActiveNotification option \<times> EngineData" where
  "EngineData_remove n self =
     (om_get (ed_active self) n,
      self\<lparr>update_targets := om_remove n (update_targets self), ed_active := om_remove n (ed_active self)\<rparr>)"

fun min_by :: "('a \<Rightarrow> 'b::linorder) \<Rightarrow> 'a list \<Rightarrow> 'a option" where
  "min_by f [] = None"
| "min_by f (x # xs) = (case min_by f xs of None \<Rightarrow> Some x | Some y \<Rightarrow> if f y < f x then Some y else Some x)"

definition oldest :: "active_map \<Rightarrow> nat option" where
  "oldest active = map_option nid (min_by (\<lambda>n. (created_unix_ms n, nid n)) (om_values active))"

text \<open>Silence and screen sharing hide a new popup from the start.\<close>

definition quieted :: "EngineData \<Rightarrow> nat \<Rightarrow> ActiveNotification \<Rightarrow> ActiveNotification" where
  "quieted d now stored =
     (if (case om_get (app_policies d) (app_key stored) of Some p \<Rightarrow> silenced now p | None \<Rightarrow> False)
         \<or> suppressed now (ed_sharing d)
      then stored\<lparr>toast_visible := False\<rparr> else stored)"

definition evict :: "nat \<Rightarrow> EngineData \<Rightarrow> nat option \<times> EngineData" where
  "evict maximum self =
     (if length (ed_active self) \<ge> maximum then
        (case oldest (ed_active self) of
           Some old \<Rightarrow> (Some old, snd (EngineData_remove old self)) | None \<Rightarrow> (None, self))
      else (None, self))"

definition upsert ::
  "nenv \<Rightarrow> nat \<Rightarrow> IncomingNotification \<Rightarrow> string \<Rightarrow> nat \<Rightarrow> nat \<Rightarrow> EngineData
   \<Rightarrow> (ActiveNotification \<times> nat option) \<times> EngineData" where
  "upsert E n incoming monitor now maximum self0 =
     (case EngineData_remove n self0 of (found, removed) \<Rightarrow>
      case (case found of
              Some existing \<Rightarrow> (replace_from E incoming now existing, None, removed)
            | None \<Rightarrow> (case evict maximum removed of (evicted, d) \<Rightarrow> (from_incoming E n incoming now, evicted, d))) of
        (stored, evicted, self) \<Rightarrow>
      let stored = (if source_monitor stored = [] then stored\<lparr>source_monitor := monitor\<rparr> else stored);
          stored = quieted self now stored;
          self = self\<lparr>ed_active := om_insert n stored (ed_active self)\<rparr> in
      ((stored, evicted), bump self))"

definition expire_policy :: "nat \<Rightarrow> AppPolicy \<Rightarrow> bool \<times> AppPolicy" where
  "expire_policy now p = (if silent p then AppPolicy_expire now p else (False, p))"

text \<open>Reading holds back the popup deadline of a notification, never its protocol lifetime.\<close>

definition advance_held :: "bool \<Rightarrow> nat \<Rightarrow> ActiveNotification \<Rightarrow> (bool \<times> bool) \<times> ActiveNotification" where
  "advance_held held now n =
     (if held then
        (case advance now (n\<lparr>toast_expires_unix_ms := None\<rparr>) of (r, n') \<Rightarrow>
           (r, n'\<lparr>toast_expires_unix_ms := toast_expires_unix_ms n\<rparr>))
      else advance now n)"

record ExpiryBatch =
  expired_ids :: "nat list"
  changed :: "ActiveNotification list"
  dnd_expired :: bool

definition EngineData_expire :: "nat \<Rightarrow> EngineData \<Rightarrow> ExpiryBatch \<times> EngineData" where
  "EngineData_expire now self =
     (case Decks_expire now (ed_decks self, ed_active self) of (decks, active) \<Rightarrow>
      let policies = map (\<lambda>(k, p). (k, expire_policy now p)) (app_policies self);
          quiet_ended = length (filter (\<lambda>(k, e, p). e) policies);
          advanced = map (\<lambda>(k, n). (k, advance_held (reading (source_monitor n) decks) now n)) active;
          expired = map (\<lambda>(k, r, n). nid n) (filter (\<lambda>(k, (woke, over), n). over) advanced);
          woken = map (\<lambda>(k, r, n). n) (filter (\<lambda>(k, (woke, over), n). woke) advanced);
          (dnd_over, dnd, dnd_until) =
            (if ed_dnd self then expire_flag (ed_dnd self) (ed_dnd_until self) now
             else (False, ed_dnd self, ed_dnd_until self)) in
      (\<lparr>expired_ids = expired, changed = woken, dnd_expired = dnd_over\<rparr>,
       self\<lparr>ed_decks := decks, ed_sharing := Sharing_expire now (ed_sharing self),
            app_policies := map (\<lambda>(k, e, p). (k, p)) policies,
            ed_active := map (\<lambda>(k, r, n). (k, n)) advanced,
            ed_dnd := dnd, ed_dnd_until := dnd_until,
            history_revision := wrapping_add_u64 (history_revision self)
              (quiet_ended + (if woken = [] then 0 else 1))\<rparr>))"

section \<open>Identifiers\<close>

definition wrapping_add_u32 :: "nat \<Rightarrow> nat \<Rightarrow> nat" where
  "wrapping_add_u32 a b = (a + b) mod (U32_MAX + 1)"

fun allocate :: "nat \<Rightarrow> nat \<Rightarrow> active_map \<Rightarrow> nat option \<times> nat" where
  "allocate 0 next_id active = (None, next_id)"
| "allocate (Suc k) next_id active =
     (let next_id = wrapping_add_u32 next_id 1; n = max next_id 1 in
      if \<not> om_has n active then (Some n, next_id) else allocate k next_id active)"

declare allocate.simps [simp del]

definition on_data :: "(EngineData \<Rightarrow> EngineData) \<Rightarrow> engine \<Rightarrow> engine" where
  "on_data f e = e\<lparr>en_data := f (en_data e)\<rparr>"

definition allocate_id :: "(engine, nat) eff" where
  "allocate_id e =
     (case allocate U32_MAX (en_next_id e) (ed_active (en_data e)) of
        (Some n, next_id) \<Rightarrow> (Ok n, e\<lparr>en_next_id := next_id\<rparr>)
      | (None, next_id) \<Rightarrow> (Err (err ''notification ID space is exhausted''), e\<lparr>en_next_id := next_id\<rparr>))"

section \<open>Publication\<close>

definition emit :: "NotificationSignal \<Rightarrow> engine \<Rightarrow> engine" where
  "emit signal e = e\<lparr>en_signals := en_signals e @ [signal]\<rparr>"

definition queue_write :: "nconf \<Rightarrow> Write \<Rightarrow> engine \<Rightarrow> engine" where
  "queue_write N w e = (if nc_persistent N then e\<lparr>en_writes := en_writes e @ [w]\<rparr> else e)"

definition fallback_monitor :: "ncall \<Rightarrow> string" where
  "fallback_monitor C =
     (case cl_focused C of
        Some name \<Rightarrow> if name \<in> set (cl_monitors C) then name
                     else (case cl_monitors C of m # _ \<Rightarrow> m | [] \<Rightarrow> [])
      | None \<Rightarrow> (case cl_monitors C of m # _ \<Rightarrow> m | [] \<Rightarrow> []))"

definition routed :: "ncall \<Rightarrow> ActiveNotification \<Rightarrow> ActiveNotification" where
  "routed C n = (if source_monitor n \<in> set (cl_monitors C) then n else n\<lparr>source_monitor := fallback_monitor C\<rparr>)"

definition presented :: "EngineData \<Rightarrow> nat \<Rightarrow> ActiveNotification \<Rightarrow> ActiveNotification" where
  "presented d now item0 =
     (let item = (case om_get (app_policies d) (app_key item0) of
            None \<Rightarrow> item0
          | Some policy \<Rightarrow>
              let item = item0\<lparr>dnd_bypass := bypass_dnd policy\<rparr> in
              if silenced now policy
              then item\<lparr>toast_visible := False, hints := (hints item)\<lparr>suppress_sound := True\<rparr>\<rparr> else item) in
      if suppressed now (ed_sharing d) then item\<lparr>toast_visible := False\<rparr> else item)"

definition visible_notifications :: "EngineData \<Rightarrow> nat \<Rightarrow> ActiveNotification list" where
  "visible_notifications d now =
     map (presented d now) (filter (\<lambda>n. snoozed_until_unix_ms n = None) (om_values (ed_active d)))"

definition summary_of :: "EngineData \<Rightarrow> ActiveNotification list \<Rightarrow> NotificationState" where
  "summary_of d visible =
     (let count = min (length visible) U32_MAX;
          noun = (if count = 1 then ''Notification'' else ''Notifications'') in
      \<lparr>ns_count = count, ns_dnd = ed_dnd d, ns_dnd_until = ed_dnd_until d, ns_text = show_nat count,
       ns_tooltip = show_nat count @ '' '' @ noun,
       ns_class_name = (if ed_dnd d then ''dnd-notification'' else ''notification''),
       ns_history_revision = history_revision d, ns_settings = ed_settings d, ns_sharing = ed_sharing d,
       ns_app_policies = app_policies d, ns_error = retention_error d\<rparr>)"

definition publish_summary :: "ncall \<Rightarrow> engine \<Rightarrow> engine" where
  "publish_summary C e =
     (let d = (en_data e)\<lparr>ed_active := om_map (routed C) (ed_active (en_data e))\<rparr>;
          visible = visible_notifications d (cl_published C) in
      case project visible (ed_dnd d) (ed_decks d) of (toast_decks, decks) \<Rightarrow>
        let d = d\<lparr>ed_decks := decks\<rparr> in
        e\<lparr>en_data := d,
          en_state := Some (summary_of d visible,
            \<lparr>na_revision = history_revision d, na_notifications = visible, na_toast_decks = toast_decks\<rparr>)\<rparr>)"

definition reserve_persistence :: "nconf \<Rightarrow> ncall \<Rightarrow> (engine, unit) eff" where
  "reserve_persistence N C = liftE (if nc_persistent N then cl_reserve C else Ok ())"

section \<open>Arrival\<close>

definition choose_id :: "nat \<Rightarrow> (engine, nat) eff" where
  "choose_id replaces_id =
     bindE (getE (\<lambda>e. om_has replaces_id (ed_active (en_data e)))) (\<lambda>present.
     if replaces_id \<noteq> 0 \<and> present then returnE replaces_id else allocate_id)"

definition admit :: "nconf \<Rightarrow> ncall \<Rightarrow> IncomingNotification \<Rightarrow> nat \<Rightarrow> (engine, nat) eff" where
  "admit N C incoming n =
     bindE (getE (\<lambda>e. upsert (nc_env N) n incoming (unwrap_or [] (cl_focused C)) (cl_now C)
                (maximum_active NotificationPolicy_default) (en_data e))) (\<lambda>((stored, evicted), d).
     seqE (modifyE (\<lambda>e. queue_write N (W_Save stored) (e\<lparr>en_data := d\<rparr>)))
     (seqE (modifyE (\<lambda>e. case evicted of None \<Rightarrow> e
              | Some old \<Rightarrow> queue_write N (W_Close old (cl_now C) UNDEFINED) (emit (Closed old UNDEFINED) e)))
     (seqE (modifyE (publish_summary C))
     (returnE n))))"

definition notify :: "nconf \<Rightarrow> ncall \<Rightarrow> nat \<Rightarrow> IncomingNotification \<Rightarrow> (engine, nat) eff" where
  "notify N C replaces_id incoming =
     seqE (ensureE (cl_permit C) ''notification ingress is full'')
     (seqE (liftE (NotificationPolicy_validate (nc_env N) incoming NotificationPolicy_default))
     (seqE (reserve_persistence N C)
     (bindE (choose_id replaces_id) (admit N C incoming))))"

text \<open>Closing under the lock; whether the notification was there.\<close>

definition close_locked :: "nconf \<Rightarrow> ncall \<Rightarrow> nat \<Rightarrow> nat \<Rightarrow> engine \<Rightarrow> bool \<times> engine" where
  "close_locked N C n reason e =
     (case EngineData_remove n (en_data e) of (found, d) \<Rightarrow>
      if found = None then (False, e\<lparr>en_data := d\<rparr>)
      else (True, emit (Closed n reason) (queue_write N (W_Close n (cl_now C) reason) (e\<lparr>en_data := bump d\<rparr>))))"

definition make_room :: "nconf \<Rightarrow> ncall \<Rightarrow> (engine, unit) eff" where
  "make_room N C =
     bindE (getE (\<lambda>e. ed_active (en_data e))) (\<lambda>active.
     if length active \<ge> maximum_active NotificationPolicy_default then
       (case oldest active of
          None \<Rightarrow> returnE ()
        | Some old \<Rightarrow> seqE (reserve_persistence N C) (modifyE (\<lambda>e. snd (close_locked N C old UNDEFINED e))))
     else returnE ())"

definition insert_update :: "nat \<Rightarrow> ActiveNotification \<Rightarrow> string \<Rightarrow> EngineData \<Rightarrow> EngineData" where
  "insert_update n stored run_id d =
     (bump (d\<lparr>ed_active := om_insert n stored (ed_active d)\<rparr>))\<lparr>update_targets := om_insert n run_id (update_targets d)\<rparr>"

definition notify_update_once ::
  "nconf \<Rightarrow> ncall \<Rightarrow> string \<Rightarrow> string \<Rightarrow> IncomingNotification \<Rightarrow> (engine, unit) eff" where
  "notify_update_once N C key run_id incoming =
     seqE (ensureE (length key \<le> 1024 \<and> (run_id = [] \<or> nc_valid_run_id N run_id)) ''Invalid update notification identity'')
     (seqE (liftE (NotificationPolicy_validate (nc_env N) incoming NotificationPolicy_default))
     (seqE (ensureE (nc_persistent N) ''Update notifications require persistent storage'')
     (bindE allocate_id (\<lambda>n.
      bindE (getE (\<lambda>e. quieted (en_data e) (cl_now C)
               ((from_incoming (nc_env N) n incoming (cl_now C))\<lparr>source_monitor := unwrap_or [] (cl_focused C)\<rparr>))) (\<lambda>stored.
      bindE (liftE (cl_once C)) (\<lambda>first.
      if \<not> first then returnE ()
      else
        seqE (make_room N C)
        (seqE (modifyE (on_data (insert_update n stored run_id)))
        (modifyE (publish_summary C)))))))))"

section \<open>Sharing, settings and policies\<close>

definition hide_toast :: "ActiveNotification \<Rightarrow> ActiveNotification" where
  "hide_toast n = n\<lparr>toast_visible := False, toast_expires_unix_ms := None\<rparr>"

definition observe_sharing :: "ncall \<Rightarrow> bool option \<Rightarrow> engine \<Rightarrow> engine" where
  "observe_sharing C observation e =
     publish_summary C (on_data (\<lambda>d0.
       let d = d0\<lparr>ed_sharing := Sharing_observe observation (ed_sharing d0)\<rparr> in
       if suppressed (cl_now C) (ed_sharing d) then d\<lparr>ed_active := om_map hide_toast (ed_active d)\<rparr> else d) e)"

definition snooze_sharing :: "ncall \<Rightarrow> nat \<Rightarrow> nat \<Rightarrow> (engine, unit) eff" where
  "snooze_sharing C generation minutes =
     bindE (getE (\<lambda>e. Sharing_snooze generation minutes (cl_now C) (ed_sharing (en_data e)))) (\<lambda>r.
     bindE (liftE r) (\<lambda>sharing.
     seqE (modifyE (on_data (\<lambda>d. d\<lparr>ed_sharing := sharing\<rparr>))) (modifyE (publish_summary C))))"

definition set_settings :: "nconf \<Rightarrow> ncall \<Rightarrow> SettingsPatch \<Rightarrow> (engine, unit) eff" where
  "set_settings N C patch =
     bindE (getE (\<lambda>e. Settings_patched patch (ed_settings (en_data e)))) (\<lambda>r.
     bindE (liftE r) (\<lambda>settings.
     seqE (liftE (if nc_persistent N then cl_store C else Ok ()))
     (seqE (modifyE (on_data (\<lambda>d. bump (d\<lparr>ed_settings := settings\<rparr>)))) (modifyE (publish_summary C)))))"

definition valid_app_key :: "string \<Rightarrow> bool" where
  "valid_app_key key \<longleftrightarrow> key \<noteq> [] \<and> length key \<le> 1100
     \<and> list_ex (\<lambda>p. starts_with p key) [''desktop:'', ''named:'', ''unknown:'']"

definition set_app_policy :: "nconf \<Rightarrow> ncall \<Rightarrow> string \<Rightarrow> AppPolicy \<Rightarrow> (engine, unit) eff" where
  "set_app_policy N C key policy =
     seqE (ensureE (valid_app_key key) ''invalid notification app key'')
     (seqE (liftE (AppPolicy_validate (cl_now C) policy))
     (bindE (getE (\<lambda>e. app_policies (en_data e))) (\<lambda>policies.
      seqE (ensureE (om_has key policies \<or> length policies < 256) ''Application policy limit reached'')
      (seqE (liftE (if nc_persistent N then cl_store C else Ok ()))
      (seqE (modifyE (on_data (\<lambda>d. bump (d\<lparr>
          ed_active := (if silenced (cl_now C) policy
             then om_map (\<lambda>n. if app_key n = key then hide_toast n else n) (ed_active d) else ed_active d),
          app_policies := om_insert key policy (app_policies d)\<rparr>))))
      (modifyE (publish_summary C)))))))"

section \<open>Deletion\<close>

definition position_key :: "Position \<Rightarrow> nat \<times> nat" where
  "position_key p = (ps_created p, ps_id p)"

fun dedup_by :: "('a \<Rightarrow> 'b) \<Rightarrow> 'a list \<Rightarrow> 'a list" where
  "dedup_by f (x # y # ys) = (if f x = f y then dedup_by f (x # ys) else x # dedup_by f (y # ys))"
| "dedup_by f xs = xs"

definition delete_records :: "ncall \<Rightarrow> string option \<Rightarrow> Position option \<Rightarrow> Position list \<Rightarrow> EngineData \<Rightarrow> Position list" where
  "delete_records C key selected stored d =
     dedup_by position_key (sort_key position_key (stored @
       map (\<lambda>n. \<lparr>ps_created = created_unix_ms n, ps_id = nid n\<rparr>)
         (filter (\<lambda>n. (case key of None \<Rightarrow> True | Some k \<Rightarrow> k = app_key n)
            \<and> (case selected of None \<Rightarrow> True | Some p \<Rightarrow> ps_id p = nid n \<and> ps_created p = created_unix_ms n))
          (om_values (ed_active d)))))"

definition prepare_delete ::
  "nconf \<Rightarrow> ncall \<Rightarrow> string option \<Rightarrow> Position option \<Rightarrow> (engine, string \<times> nat \<times> nat) eff" where
  "prepare_delete N C key selected =
     seqE (ensureE ((case key of None \<Rightarrow> True | Some k \<Rightarrow> k \<noteq> [] \<and> length k \<le> 4096)
       \<and> (case selected of None \<Rightarrow> True | Some p \<Rightarrow> ps_id p > 0 \<and> ps_created p > 0)) ''Invalid delete scope'')
     (bindE (liftE (if nc_persistent N then cl_targets C else Ok [])) (\<lambda>stored.
      bindE (getE (\<lambda>e. delete_records C key selected stored (en_data e))) (\<lambda>records.
      seqE (ensureE (records \<noteq> []) ''No notifications to delete'')
      (bindE (liftE (cl_token C)) (\<lambda>token.
       seqE (modifyE (on_data (\<lambda>d. d\<lparr>delete_tickets :=
               filter (\<lambda>(_, (expires, _)). expires > cl_now C) (delete_tickets d)\<rparr>)))
       (bindE (getE (\<lambda>e. length (delete_tickets (en_data e)))) (\<lambda>pending.
        seqE (ensureE (pending < 8) ''Too many pending delete confirmations'')
        (seqE (modifyE (on_data (\<lambda>d. d\<lparr>delete_tickets :=
                 om_insert token (cl_now C + 60000, records) (delete_tickets d)\<rparr>)))
        (returnE (token, length records, cl_now C + 60000))))))))))"

definition cancel_delete :: "string \<Rightarrow> engine \<Rightarrow> engine" where
  "cancel_delete token = on_data (\<lambda>d. d\<lparr>delete_tickets := om_remove token (delete_tickets d)\<rparr>)"

definition delete_position :: "Position \<Rightarrow> engine \<Rightarrow> engine" where
  "delete_position p e =
     (case om_get (ed_active (en_data e)) (ps_id p) of
        Some n \<Rightarrow> if created_unix_ms n = ps_created p
                   then emit (Closed (ps_id p) DISMISSED) (on_data (\<lambda>d. snd (EngineData_remove (ps_id p) d)) e)
                   else e
      | None \<Rightarrow> e)"

definition delete_confirmed :: "nconf \<Rightarrow> ncall \<Rightarrow> string \<Rightarrow> (engine, nat) eff" where
  "delete_confirmed N C token =
     bindE (getE (\<lambda>e. om_get (delete_tickets (en_data e)) token)) (\<lambda>ticket.
     seqE (modifyE (cancel_delete token))
     (bindE (liftE (ok_or ''Delete confirmation expired; request a new confirmation'' ticket)) (\<lambda>(expires, positions).
      seqE (ensureE (expires > cl_now C) ''Delete confirmation expired; request a new confirmation'')
      (seqE (liftE (if nc_persistent N then cl_store C else Ok ()))
      (seqE (modifyE (fold delete_position positions))
      (seqE (modifyE (on_data bump))
      (seqE (modifyE (publish_summary C))
      (returnE (length positions)))))))))"

section \<open>Closing, silence and snooze\<close>

definition close :: "nconf \<Rightarrow> ncall \<Rightarrow> nat \<Rightarrow> nat \<Rightarrow> (engine, bool) eff" where
  "close N C n reason =
     seqE (reserve_persistence N C)
     (bindE (getE (close_locked N C n reason)) (\<lambda>(removed, e').
      seqE (modifyE (\<lambda>_. if removed then publish_summary C e' else e')) (returnE removed)))"

definition dismiss :: "nconf \<Rightarrow> ncall \<Rightarrow> nat \<Rightarrow> (engine, bool) eff" where
  "dismiss N C n = close N C n DISMISSED"

definition clear_all :: "nconf \<Rightarrow> ncall \<Rightarrow> (engine, nat) eff" where
  "clear_all N C =
     seqE (reserve_persistence N C)
     (bindE (getE (\<lambda>e. om_keys (ed_active (en_data e)))) (\<lambda>ids.
      seqE (modifyE (\<lambda>e.
        let e = on_data (\<lambda>d. let d = d\<lparr>ed_active := [], update_targets := []\<rparr> in if ids = [] then d else bump d) e in
        if ids = [] then e
        else publish_summary C (fold (\<lambda>n. emit (Closed n DISMISSED)) ids
               (queue_write N (W_Clear (cl_now C) DISMISSED) e))))
      (returnE (length ids))))"

definition set_dnd_locked :: "nconf \<Rightarrow> ncall \<Rightarrow> bool \<Rightarrow> nat option \<Rightarrow> engine \<Rightarrow> engine" where
  "set_dnd_locked N C enabled until_ms e =
     (let until = (if enabled then until_ms else None); d = en_data e;
          e' = e\<lparr>en_data := d\<lparr>ed_dnd := enabled, ed_dnd_until := until\<rparr>\<rparr> in
      if ed_dnd d \<noteq> enabled \<or> ed_dnd_until d \<noteq> until
      then publish_summary C (queue_write N (W_Dnd enabled until) e') else e')"

definition set_dnd :: "nconf \<Rightarrow> ncall \<Rightarrow> bool \<Rightarrow> nat option \<Rightarrow> (engine, unit) eff" where
  "set_dnd N C enabled until = seqE (reserve_persistence N C) (modifyE (set_dnd_locked N C enabled until))"

definition toggle_dnd :: "nconf \<Rightarrow> ncall \<Rightarrow> (engine, bool) eff" where
  "toggle_dnd N C = seqE (reserve_persistence N C)
     (bindE (getE (\<lambda>e. \<not> ed_dnd (en_data e))) (\<lambda>enabled.
      seqE (modifyE (set_dnd_locked N C enabled None)) (returnE enabled)))"

definition snoozed :: "nat \<Rightarrow> nat \<Rightarrow> ActiveNotification \<Rightarrow> ActiveNotification" where
  "snoozed until now n =
     n\<lparr>snoozed_until_unix_ms := Some until, updated_unix_ms := now, toast_visible := True,
       toast_expires_unix_ms := Some (saturating_add_u64 until 5000),
       expires_unix_ms := (if expires_unix_ms n \<noteq> None then Some (saturating_add_u64 until 5000) else None)\<rparr>"

definition snooze :: "nconf \<Rightarrow> ncall \<Rightarrow> nat \<Rightarrow> nat \<Rightarrow> (engine, bool) eff" where
  "snooze N C n until =
     seqE (reserve_persistence N C)
     (bindE (getE (\<lambda>e. om_get (ed_active (en_data e)) n)) (\<lambda>found.
      if until \<le> cl_now C then returnE False
      else case found of
        None \<Rightarrow> returnE False
      | Some x \<Rightarrow>
          seqE (modifyE (\<lambda>e. publish_summary C (queue_write N (W_Save (snoozed until (cl_now C) x))
                 (on_data (\<lambda>d. bump (d\<lparr>ed_active := om_insert n (snoozed until (cl_now C) x) (ed_active d)\<rparr>)) e))))
          (returnE True)))"

definition close_each :: "nconf \<Rightarrow> ncall \<Rightarrow> nat \<Rightarrow> nat list \<Rightarrow> engine \<Rightarrow> engine" where
  "close_each N C reason ids = fold (\<lambda>n e. snd (close_locked N C n reason e)) ids"

definition clear_group :: "nconf \<Rightarrow> ncall \<Rightarrow> string \<Rightarrow> (engine, nat) eff" where
  "clear_group N C key =
     seqE (reserve_persistence N C)
     (bindE (getE (\<lambda>e. map nid (filter (\<lambda>n. group_key n = key) (om_values (ed_active (en_data e)))))) (\<lambda>ids.
      seqE (modifyE (\<lambda>e. let e = close_each N C DISMISSED ids e in if ids = [] then e else publish_summary C e))
      (returnE (length ids))))"

section \<open>Replies and actions\<close>

definition reply :: "nat \<Rightarrow> string \<Rightarrow> engine \<Rightarrow> bool \<times> engine" where
  "reply n message e =
     (if trim message = [] \<or> length message > 4096 then (False, e)
      else case om_get (ed_active (en_data e)) n of
        None \<Rightarrow> (False, e)
      | Some x \<Rightarrow> if list_ex (\<lambda>a. na_key a = ''inline-reply'') (actions x)
                  then (True, emit (Replied n message) e) else (False, e))"

definition invoke_action :: "nconf \<Rightarrow> ncall \<Rightarrow> nat \<Rightarrow> string \<Rightarrow> string option \<Rightarrow> (engine, bool) eff" where
  "invoke_action N C n key token =
     seqE (reserve_persistence N C)
     (bindE (getE (\<lambda>e. (om_get (ed_active (en_data e)) n, om_get (update_targets (en_data e)) n))) (\<lambda>(found, target).
      case found of
        None \<Rightarrow> returnE False
      | Some x \<Rightarrow>
        if \<not> list_ex (\<lambda>a. na_key a = key) (actions x) then returnE False
        else
          seqE (if key = ''default'' \<and> target \<noteq> None then liftE (cl_open C) else returnE ())
          (seqE (modifyE (\<lambda>e. case token of None \<Rightarrow> e | Some t \<Rightarrow> emit (ActivationToken n t) e))
          (seqE (modifyE (emit (ActionInvoked n key)))
          (seqE (modifyE (\<lambda>e. if resident (hints x) then e else publish_summary C (snd (close_locked N C n DISMISSED e))))
          (returnE True))))))"

definition context_target :: "nconf \<Rightarrow> ncall \<Rightarrow> nat \<Rightarrow> nat \<Rightarrow> nat \<Rightarrow> string \<Rightarrow> engine \<Rightarrow> (Target \<times> nat) result" where
  "context_target N C n created updated key e =
     (let d = en_data e in
      case om_get (ed_active d) n of
        None \<Rightarrow> Err (err ''Notification changed or expired'')
      | Some x \<Rightarrow>
        if created_unix_ms x = created \<and> updated_unix_ms x = updated
           \<and> (case expires_unix_ms x of None \<Rightarrow> True | Some until \<Rightarrow> until > cl_now C)
        then and_then (if key = ''focus'' then Ok (Focus (desktop_entry (hints x)))
               else ok_or ''Notification action unavailable''
                 (find (\<lambda>t. Target_key t = key) (extract_targets (nc_env N) (summary x) (body x)))) (\<lambda>target.
             Ok (target, code_expiry_seconds (ed_settings d)))
        else Err (err ''Notification changed or expired''))"

definition set_reading_lease :: "ncall \<Rightarrow> string \<Rightarrow> bool \<Rightarrow> (engine, unit) eff" where
  "set_reading_lease C monitor read =
     seqE (ensureE (monitor \<noteq> [] \<and> length monitor \<le> 256) ''Invalid toast monitor'')
     (seqE (ensureE (monitor \<in> set (cl_monitors C)) ''Toast monitor unavailable'')
     (seqE (modifyE (on_data (\<lambda>d. case set_reading monitor read (cl_now C) (ed_decks d, ed_active d) of
              (decks, active) \<Rightarrow> d\<lparr>ed_decks := decks, ed_active := active\<rparr>)))
     (modifyE (publish_summary C))))"

section \<open>Expiry\<close>

definition prune :: "nconf \<Rightarrow> ncall \<Rightarrow> EngineData \<Rightarrow> EngineData" where
  "prune N C d0 =
     (if next_prune_ms d0 \<le> cl_now C then
        let d = d0\<lparr>next_prune_ms := saturating_add_u64 (cl_now C) 60000\<rparr> in
        case (if nc_persistent N then cl_pruned C else Ok 0) of
          Inr removed \<Rightarrow> let d = d\<lparr>retention_error := None\<rparr> in if removed > 0 then bump d else d
        | Inl e \<Rightarrow> d\<lparr>retention_error := Some (''Notification retention failed: '' @ err_to_string e)\<rparr>
      else d0)"

definition expire_due :: "nconf \<Rightarrow> ncall \<Rightarrow> engine \<Rightarrow> engine" where
  "expire_due N C e =
     (if nc_persistent N \<and> \<not> is_ok (cl_reserve C) then e
      else
        case EngineData_expire (cl_now C) (prune N C (en_data e)) of (batch, d) \<Rightarrow>
        let e = e\<lparr>en_data := d\<rparr>;
            e = fold (\<lambda>n. queue_write N (W_Save n)) (changed batch) e;
            e = (if dnd_expired batch then queue_write N (W_Dnd False None) e else e) in
        publish_summary C (close_each N C EXPIRED (expired_ids batch) e))"

definition next_expiry :: "EngineData \<Rightarrow> nat option" where
  "next_expiry d =
     option_Min (List.map_filter (\<lambda>n. if reading (source_monitor n) (ed_decks d)
          then (case snoozed_until_unix_ms n of Some u \<Rightarrow> Some u | None \<Rightarrow> expires_unix_ms n)
          else next_deadline n) (om_values (ed_active d))
       @ (case Decks_deadline (ed_decks d) of Some u \<Rightarrow> [u] | None \<Rightarrow> [])
       @ (case sh_until (ed_sharing d) of Some u \<Rightarrow> [u] | None \<Rightarrow> [])
       @ [next_prune_ms d]
       @ (case ed_dnd_until d of Some u \<Rightarrow> [u] | None \<Rightarrow> [])
       @ List.map_filter until_unix_ms (filter silent (om_values (app_policies d))))"

definition next_expiry_delay :: "nat \<Rightarrow> EngineData \<Rightarrow> nat option" where
  "next_expiry_delay now d = map_option (\<lambda>u. u - now) (next_expiry d)"

section \<open>Start\<close>

definition engine_fresh ::
  "nat \<Rightarrow> nat \<Rightarrow> bool \<Rightarrow> nat option \<Rightarrow> (string, AppPolicy) omap \<Rightarrow> Settings \<Rightarrow> engine" where
  "engine_fresh now last_id dnd until policies settings =
     \<lparr>en_data = \<lparr>ed_active = [], update_targets = [], ed_dnd = dnd, ed_dnd_until = until, history_revision = 0,
        app_policies = om_map (\<lambda>p. snd (AppPolicy_expire now p)) policies, delete_tickets = [],
        ed_decks = Decks_default, ed_settings = settings, next_prune_ms = saturating_add_u64 now 60000,
        retention_error = None, ed_sharing = Sharing_default\<rparr>,
      en_next_id = last_id, en_signals = [], en_writes = [], en_state = None\<rparr>"

definition engine_build ::
  "nconf \<Rightarrow> ncall \<Rightarrow> nat \<Rightarrow> bool \<Rightarrow> nat option \<Rightarrow> (string, AppPolicy) omap \<Rightarrow> Settings \<Rightarrow> engine result" where
  "engine_build N C last_id dnd0 until0 policies settings =
     (case expire_flag dnd0 until0 (cl_now C) of (dnd_over, dnd, until) \<Rightarrow>
      let e = engine_fresh (cl_now C) last_id dnd until (if nc_persistent N then policies else [])
            (if nc_persistent N then settings else Settings_default) in
      if dnd_over \<and> nc_persistent N
      then and_then (cl_reserve C) (\<lambda>_. Ok (publish_summary C (queue_write N (W_Dnd False None) e)))
      else Ok (publish_summary C e))"

end
