(* ===== verification/Notification_Invariant.thy ===== *)
theory Notification_Invariant
  imports Notification_Engine
begin

text \<open>
  What holds in every state of the notification engine, and that every operation keeps it: bounds on the
  tables, identifiers, the lifetime of update routes, and the shape of the published decks.
\<close>

section \<open>Identifiers\<close>

lemma allocate_Some:
  "allocate k nxt a = (Some n, nxt') \<Longrightarrow> \<not> om_has n a \<and> n = max nxt' 1 \<and> nxt' \<le> U32_MAX"
proof (induction k nxt a rule: allocate.induct)
  case (2 k nxt a)
  have "wrapping_add_u32 nxt 1 \<le> U32_MAX" by (simp add: wrapping_add_u32_def U32_MAX_def)
  with 2 show ?case by (auto simp: allocate.simps Let_def split: if_splits)
qed (simp add: allocate.simps)

lemma allocate_None:
  "allocate k nxt a = (None, nxt') \<Longrightarrow> i < k \<Longrightarrow> om_has (max ((nxt + Suc i) mod (U32_MAX + 1)) 1) a"
proof (induction k nxt a arbitrary: i rule: allocate.induct)
  case (2 k nxt a)
  let ?n = "wrapping_add_u32 nxt 1"
  from "2.prems"(1) have head: "om_has (max ?n 1) a" and rest: "allocate k ?n a = (None, nxt')"
    by (auto simp: allocate.simps Let_def split: if_splits)
  show ?case
  proof (cases i)
    case 0
    with head show ?thesis by (simp add: wrapping_add_u32_def)
  next
    case (Suc j)
    have "(?n + Suc j) mod (U32_MAX + 1) = (nxt + Suc (Suc j)) mod (U32_MAX + 1)"
      using mod_add_left_eq [of "nxt + 1" "U32_MAX + 1" "Suc j"] by (simp add: wrapping_add_u32_def add_ac)
    with "2.IH" [OF refl refl _ rest, of j] head "2.prems"(2) Suc show ?thesis by simp
  qed
qed (simp add: allocate.simps)

lemma mod_shift_inj: "m > 0 \<Longrightarrow> inj_on (\<lambda>i::nat. (a + i) mod m) {..<m}"
proof (rule inj_onI)
  fix i j :: nat
  assume "m > 0" "i \<in> {..<m}" "j \<in> {..<m}" "(a + i) mod m = (a + j) mod m"
  then show "i = j"
  proof (induction i j rule: linorder_wlog)
    case (le i j)
    from le have "m dvd (a + j) - (a + i)" by (metis add_le_cancel_left mod_eq_dvd_iff_nat)
    with le show ?case by (auto dest: dvd_imp_le)
  qed auto
qed

lemma allocate_total:
  assumes "om_ok a" "length a \<le> 200"
  shows "\<exists>n nxt'. allocate U32_MAX nxt a = (Some n, nxt')"
proof (rule ccontr)
  assume none: "\<not> ?thesis"
  then obtain nxt' where "allocate U32_MAX nxt a = (None, nxt')"
    by (cases "allocate U32_MAX nxt a") (metis option.exhaust)
  from allocate_None [OF this] have taken: "max ((Suc nxt + i) mod (U32_MAX + 1)) 1 \<in> fst ` set a" if "i < U32_MAX" for i
    using that by (simp add: om_has_def)
  let ?S = "(\<lambda>i. (Suc nxt + i) mod (U32_MAX + 1)) ` {..<202}"
  have inj: "inj_on (\<lambda>i. (Suc nxt + i) mod (U32_MAX + 1)) {..<202}"
    by (rule inj_on_subset [OF mod_shift_inj]) (auto simp: U32_MAX_def)
  have "?S - {0} \<subseteq> fst ` set a"
  proof
    fix x
    assume x: "x \<in> ?S - {0}"
    then obtain i where "i < 202" "x = (Suc nxt + i) mod (U32_MAX + 1)" by auto
    with taken [of i] have "max x 1 \<in> fst ` set a" by (simp add: U32_MAX_def)
    moreover from x have "max x 1 = x" by simp
    ultimately show "x \<in> fst ` set a" by simp
  qed
  then have "card (?S - {0}) \<le> card (fst ` set a)" by (rule card_mono [rotated]) simp
  moreover have "card ?S = 202" using card_image [OF inj] by simp
  then have "201 \<le> card (?S - {0})" using card_Diff1_le [of ?S 0] by (simp add: card_Diff_singleton_if split: if_splits)
  moreover have "card (fst ` set a) = length a" using length_om_keys [OF assms(1)] by simp
  ultimately show False using assms(2) by linarith
qed

lemma allocate_id_fresh:
  assumes "om_ok (ed_active (en_data e))" "length (ed_active (en_data e)) \<le> 200"
  shows "\<exists>n nxt'. allocate_id e = (Inr n, e\<lparr>en_next_id := nxt'\<rparr>) \<and> \<not> om_has n (ed_active (en_data e))
    \<and> 0 < n \<and> n \<le> U32_MAX \<and> nxt' \<le> U32_MAX"
proof -
  from allocate_total [OF assms, of "en_next_id e"] obtain n nxt' where
    a: "allocate U32_MAX (en_next_id e) (ed_active (en_data e)) = (Some n, nxt')" by blast
  from allocate_Some [OF a] have "\<not> om_has n (ed_active (en_data e))" "n = max nxt' 1" "nxt' \<le> U32_MAX" by blast+
  with a show ?thesis by (auto simp: allocate_id_def max_def U32_MAX_def)
qed

section \<open>The tables\<close>

definition active_ok :: "active_map \<Rightarrow> bool" where
  "active_ok a \<longleftrightarrow> om_ok a \<and> (\<forall>(k, n)\<in>set a. nid n = k \<and> 0 < k \<and> k \<le> U32_MAX)
     \<and> length a \<le> maximum_active NotificationPolicy_default"

definition data_ok :: "EngineData \<Rightarrow> bool" where
  "data_ok d \<longleftrightarrow> active_ok (ed_active d)
     \<and> om_ok (update_targets d) \<and> fst ` set (update_targets d) \<subseteq> fst ` set (ed_active d)
     \<and> om_ok (app_policies d) \<and> length (app_policies d) \<le> 256
     \<and> om_ok (delete_tickets d) \<and> length (delete_tickets d) \<le> 8
     \<and> Settings_validate (ed_settings d) = Inr ()
     \<and> om_ok (leases (ed_decks d)) \<and> decks_ok (published (ed_decks d)) \<and> history_revision d \<le> U64_MAX"

definition engine_ok :: "engine \<Rightarrow> bool" where
  "engine_ok e \<longleftrightarrow> data_ok (en_data e) \<and> en_next_id e \<le> U32_MAX"

lemma active_ok_nid: "active_ok a \<Longrightarrow> map nid (om_values a) = om_keys a"
  by (induction a) (auto simp: active_ok_def om_ok_Cons)

lemma active_ok_distinct: "active_ok a \<Longrightarrow> distinct (map nid (om_values a))"
  by (simp only: active_ok_nid) (simp add: active_ok_def om_ok_distinct)

lemma active_ok_map: "(\<And>n. nid (f n) = nid n) \<Longrightarrow> active_ok (om_map f a) = active_ok a"
  unfolding active_ok_def by (auto simp: om_map_def [of f a] om_ok_def comp_def case_prod_beta)

lemma active_ok_remove: "active_ok a \<Longrightarrow> active_ok (om_remove k a)"
  using length_om_remove_le [of k a] by (auto simp: active_ok_def) (auto simp: om_remove_def)

lemma om_insert_mem: "(j, w) \<in> set (om_insert k v m) \<Longrightarrow> (j, w) = (k, v) \<or> (j, w) \<in> set m"
  by (induction k v m rule: om_insert.induct) (auto split: if_splits)

lemma active_ok_insert:
  assumes "active_ok a" "nid n = k" "0 < k" "k \<le> U32_MAX" "om_has k a \<or> length a < maximum_active NotificationPolicy_default"
  shows "active_ok (om_insert k n a)"
  using assms by (auto simp: active_ok_def length_om_insert dest!: om_insert_mem)

lemma active_ok_get: "active_ok a \<Longrightarrow> om_get a k = Some n \<Longrightarrow> nid n = k \<and> 0 < k \<and> k \<le> U32_MAX"
  by (auto simp: active_ok_def dest!: map_of_SomeD)

section \<open>Data operations keep it\<close>

lemma data_ok_active: "data_ok d \<Longrightarrow> active_ok (ed_active d)"
  by (simp add: data_ok_def)

lemma data_ok_bump [simp]: "data_ok d \<Longrightarrow> data_ok (bump d)"
  by (simp add: data_ok_def bump_def wrapping_add_u64_def U64_MAX_def)

lemma data_ok_remove: "data_ok d \<Longrightarrow> data_ok (snd (EngineData_remove n d))"
  by (auto simp: data_ok_def EngineData_remove_def active_ok_remove)

lemma data_ok_map:
  assumes "\<And>n. nid (f n) = nid n"
  shows "data_ok (d\<lparr>ed_active := om_map f (ed_active d)\<rparr>) = data_ok d"
  using om_fst_map [of f "ed_active d"] by (simp add: data_ok_def active_ok_map [OF assms])

lemma data_ok_insert:
  assumes "data_ok d" "nid x = n" "0 < n" "n \<le> U32_MAX"
    "om_has n (ed_active d) \<or> length (ed_active d) < maximum_active NotificationPolicy_default"
  shows "data_ok (d\<lparr>ed_active := om_insert n x (ed_active d)\<rparr>)"
  using assms by (auto simp: data_ok_def active_ok_insert)

lemma min_by_mem: "min_by f xs = Some x \<Longrightarrow> x \<in> set xs \<and> (\<forall>y\<in>set xs. f x \<le> f y)"
proof (induction xs arbitrary: x)
  case (Cons a xs)
  show ?case
  proof (cases "min_by f xs")
    case None
    with Cons.prems show ?thesis by (cases xs) (auto split: option.splits if_splits)
  next
    case (Some y)
    from Cons.IH [OF this] Cons.prems Some show ?thesis by (auto split: if_splits)
  qed
qed simp

lemma min_by_None [simp]: "min_by f xs = None \<longleftrightarrow> xs = []"
  by (induction xs) (auto split: option.splits)

lemma oldest_mem: "active_ok a \<Longrightarrow> oldest a = Some n \<Longrightarrow> om_has n a"
  by (auto simp: oldest_def om_has_def active_ok_def dest!: min_by_mem) force

lemma oldest_None [simp]: "oldest a = None \<longleftrightarrow> a = []"
  by (simp add: oldest_def)

lemma evict_cases:
  assumes ok: "data_ok d" and e: "evict (maximum_active NotificationPolicy_default) d = (ev, d')"
  obtains (none) "ev = None" "d' = d" "length (ed_active d) < maximum_active NotificationPolicy_default"
  | (old) n where "ev = Some n" "oldest (ed_active d) = Some n" "om_has n (ed_active d)"
      "d' = snd (EngineData_remove n d)" "length (ed_active d') < maximum_active NotificationPolicy_default"
      "length (ed_active d) = maximum_active NotificationPolicy_default"
proof (cases "length (ed_active d) < maximum_active NotificationPolicy_default")
  case True
  with e show thesis by (intro none) (auto simp: evict_def)
next
  case False
  with ok have len: "length (ed_active d) = maximum_active NotificationPolicy_default"
    by (simp add: data_ok_def active_ok_def)
  then have "ed_active d \<noteq> []" by (auto simp: NotificationPolicy_default_def)
  then obtain n where n: "oldest (ed_active d) = Some n" by (cases "oldest (ed_active d)") auto
  from oldest_mem [OF data_ok_active [OF ok] n] have has: "om_has n (ed_active d)" .
  with len ok have "length (om_remove n (ed_active d)) < maximum_active NotificationPolicy_default"
    by (simp add: length_om_remove data_ok_def active_ok_def NotificationPolicy_default_def)
  with e n has len show thesis
    by (intro old) (auto simp: evict_def EngineData_remove_def)
qed

lemma quieted_fields [simp]:
  "nid (quieted d now n) = nid n" "created_unix_ms (quieted d now n) = created_unix_ms n"
  "updated_unix_ms (quieted d now n) = updated_unix_ms n" "source_monitor (quieted d now n) = source_monitor n"
  by (simp_all add: quieted_def)

text \<open>What an insertion stores and what it displaces.\<close>

lemma upsert_cases:
  assumes ok: "data_ok d" and n: "0 < n" "n \<le> U32_MAX"
    and u: "upsert E n incoming monitor now (maximum_active NotificationPolicy_default) d = ((stored, ev), d')"
  shows "data_ok d'" "nid stored = n"
    "om_get (ed_active d') = (om_get (case ev of None \<Rightarrow> ed_active d | Some old \<Rightarrow> om_remove old (ed_active d)))(n \<mapsto> stored)"
    "case om_get (ed_active d) n of
       Some x \<Rightarrow> ev = None \<and> created_unix_ms stored = created_unix_ms x
         \<and> updated_unix_ms stored = max now (saturating_add_u64 (updated_unix_ms x) 1)
     | None \<Rightarrow> created_unix_ms stored = now \<and> (case ev of
         None \<Rightarrow> length (ed_active d) < maximum_active NotificationPolicy_default
       | Some old \<Rightarrow> oldest (ed_active d) = Some old \<and> om_has old (ed_active d)
           \<and> length (ed_active d) = maximum_active NotificationPolicy_default)"
proof -
  let ?rem = "snd (EngineData_remove n d)"
  have rem: "data_ok ?rem" by (rule data_ok_remove [OF ok])
  have act: "om_ok (ed_active d)" using ok by (simp add: data_ok_def active_ok_def)
  have "data_ok d' \<and> nid stored = n
    \<and> om_get (ed_active d') = (om_get (case ev of None \<Rightarrow> ed_active d | Some old \<Rightarrow> om_remove old (ed_active d)))(n \<mapsto> stored)
    \<and> (case om_get (ed_active d) n of
       Some x \<Rightarrow> ev = None \<and> created_unix_ms stored = created_unix_ms x
         \<and> updated_unix_ms stored = max now (saturating_add_u64 (updated_unix_ms x) 1)
     | None \<Rightarrow> created_unix_ms stored = now \<and> (case ev of
         None \<Rightarrow> length (ed_active d) < maximum_active NotificationPolicy_default
       | Some old \<Rightarrow> oldest (ed_active d) = Some old \<and> om_has old (ed_active d)
           \<and> length (ed_active d) = maximum_active NotificationPolicy_default))"
  proof (cases "om_get (ed_active d) n")
    case (Some x)
    let ?s0 = "replace_from E incoming now x"
    let ?s = "quieted ?rem now (if source_monitor ?s0 = [] then ?s0\<lparr>source_monitor := monitor\<rparr> else ?s0)"
    have x: "nid x = n" using active_ok_get [OF data_ok_active [OF ok] Some] by simp
    have res: "stored = ?s" "ev = None" "d' = bump (?rem\<lparr>ed_active := om_insert n ?s (ed_active ?rem)\<rparr>)"
      using u Some by (auto simp: upsert_def EngineData_remove_def Let_def)
    have nid: "nid ?s = n" by (simp add: x)
    have "om_has n (ed_active d)" using Some by (simp add: om_has_get)
    then have "length (ed_active ?rem) < maximum_active NotificationPolicy_default"
      using ok act by (cases "ed_active d")
        (auto simp: EngineData_remove_def length_om_remove data_ok_def active_ok_def om_has_def)
    with data_ok_insert [OF rem nid n] have "data_ok d'" unfolding res by simp
    moreover have "om_get (ed_active d') = (om_get (ed_active d))(n \<mapsto> stored)"
      using act unfolding res by (auto simp: bump_def EngineData_remove_def fun_eq_iff)
    ultimately show ?thesis using Some nid res by simp
  next
    case None
    have same: "om_remove n (ed_active d) = ed_active d"
      using None by (auto simp: om_remove_def filter_id_conv map_of_eq_None_iff)
    have rem': "ed_active ?rem = ed_active d" by (simp add: EngineData_remove_def same)
    obtain ev0 dd where ev: "evict (maximum_active NotificationPolicy_default) ?rem = (ev0, dd)"
      by (cases "evict (maximum_active NotificationPolicy_default) ?rem")
    let ?s0 = "from_incoming E n incoming now"
    let ?s = "quieted dd now (if source_monitor ?s0 = [] then ?s0\<lparr>source_monitor := monitor\<rparr> else ?s0)"
    have res: "stored = ?s" "ev = ev0" "d' = bump (dd\<lparr>ed_active := om_insert n ?s (ed_active dd)\<rparr>)"
      using u None ev by (auto simp: upsert_def EngineData_remove_def Let_def)
    have nid: "nid ?s = n" by simp
    from rem ev show ?thesis
    proof (cases rule: evict_cases)
      case none
      have "data_ok d'" unfolding res using data_ok_insert [OF rem nid n] none rem' by simp
      moreover have "om_get (ed_active d') = (om_get (ed_active d))(n \<mapsto> stored)"
        using act rem' none unfolding res by (auto simp: bump_def fun_eq_iff)
      ultimately show ?thesis using None none rem' res by simp
    next
      case (old m)
      have dd: "data_ok dd" using data_ok_remove [OF rem] old(4) by simp
      have "ed_active dd = om_remove m (ed_active d)" using old(4) rem' by (simp add: EngineData_remove_def)
      then have "om_get (ed_active d') = (om_get (om_remove m (ed_active d)))(n \<mapsto> stored)"
        using act unfolding res by (auto simp: bump_def fun_eq_iff)
      moreover have "data_ok d'" unfolding res using data_ok_insert [OF dd nid n] old(5) by simp
      ultimately show ?thesis using None old rem' res by simp
    qed
  qed
  then show "data_ok d'" "nid stored = n"
    "om_get (ed_active d') = (om_get (case ev of None \<Rightarrow> ed_active d | Some old \<Rightarrow> om_remove old (ed_active d)))(n \<mapsto> stored)"
    "case om_get (ed_active d) n of
       Some x \<Rightarrow> ev = None \<and> created_unix_ms stored = created_unix_ms x
         \<and> updated_unix_ms stored = max now (saturating_add_u64 (updated_unix_ms x) 1)
     | None \<Rightarrow> created_unix_ms stored = now \<and> (case ev of
         None \<Rightarrow> length (ed_active d) < maximum_active NotificationPolicy_default
       | Some old \<Rightarrow> oldest (ed_active d) = Some old \<and> om_has old (ed_active d)
           \<and> length (ed_active d) = maximum_active NotificationPolicy_default)"
    by blast+
qed

lemma advance_held_nid [simp]: "nid (snd (advance_held held now n)) = nid n"
  by (simp add: advance_held_def case_prod_beta)

text \<open>Leases that end give time back to popups; nothing else of the active notifications changes.\<close>

definition lease_step :: "Decks \<times> active_map \<Rightarrow> Decks \<times> active_map \<Rightarrow> bool" where
  "lease_step s t \<longleftrightarrow> published (fst t) = published (fst s) \<and> (om_ok (leases (fst s)) \<longrightarrow> om_ok (leases (fst t)))
     \<and> (\<exists>f. snd t = om_map f (snd s) \<and> (\<forall>n. nid (f n) = nid n \<and> expires_unix_ms (f n) = expires_unix_ms n
          \<and> snoozed_until_unix_ms (f n) = snoozed_until_unix_ms n))"

lemma lease_step_refl: "lease_step s s"
  unfolding lease_step_def by (auto intro: exI [of _ "\<lambda>n. n"] simp: om_map_def)

lemma om_map_om_map: "om_map f (om_map g m) = om_map (f \<circ> g) m"
  by (auto simp: om_map_def)

lemma lease_step_trans: "lease_step s t \<Longrightarrow> lease_step t u \<Longrightarrow> lease_step s u"
  unfolding lease_step_def
  by (elim conjE exE, intro conjI) (simp_all, metis (no_types, lifting) comp_apply om_map_om_map)

lemma set_reading_step: "lease_step s (set_reading m r now s)"
proof -
  have "om_map (\<lambda>n. n) (snd s) = snd s" by (simp add: om_map_def)
  moreover have "nid (extend_toast m st now n) = nid n \<and> expires_unix_ms (extend_toast m st now n) = expires_unix_ms n
      \<and> snoozed_until_unix_ms (extend_toast m st now n) = snoozed_until_unix_ms n" for st n
    by (simp add: extend_toast_def)
  ultimately show ?thesis
    unfolding lease_step_def set_reading_def
    by (cases s) (auto simp: Let_def split: option.splits intro: exI [of _ "\<lambda>n. n"])
qed

lemma Decks_expire_step: "lease_step s (Decks_expire now s)"
proof -
  have "lease_step s (fold (\<lambda>m. set_reading m False now) ms s)" for ms
  proof (induction ms arbitrary: s)
    case (Cons m ms)
    show ?case using lease_step_trans [OF set_reading_step Cons.IH] by simp
  qed (simp add: lease_step_refl)
  then show ?thesis by (simp add: Decks_expire_def Let_def)
qed

lemma data_ok_leases:
  assumes ok: "data_ok d" and st: "lease_step (ed_decks d, ed_active d) (decks, active)"
  shows "data_ok (d\<lparr>ed_decks := decks, ed_active := active\<rparr>)"
proof -
  from st obtain f where f: "active = om_map f (ed_active d)" "\<And>n. nid (f n) = nid n"
    and d: "published decks = published (ed_decks d)" "om_ok (leases (ed_decks d)) \<longrightarrow> om_ok (leases decks)"
    by (auto simp: lease_step_def)
  from data_ok_map [OF f(2), of d] ok d show ?thesis unfolding f(1) by (simp add: data_ok_def)
qed

lemma EngineData_expire_alt:
  assumes "Decks_expire now (ed_decks d, ed_active d) = (decks, active)"
  shows "ed_active (snd (EngineData_expire now d)) =
      om_map (\<lambda>n. snd (advance_held (reading (source_monitor n) decks) now n)) active"
    and "expired_ids (fst (EngineData_expire now d)) =
      map nid (filter (\<lambda>n. snd (fst (advance_held (reading (source_monitor n) decks) now n))) (om_values active))"
    and "app_policies (snd (EngineData_expire now d)) = om_map (\<lambda>p. snd (expire_policy now p)) (app_policies d)"
  using assms
  by (auto simp: EngineData_expire_def Let_def om_map_def filter_map comp_def case_prod_beta split: prod.splits)

lemma wrapping_add_u64_le: "wrapping_add_u64 a b \<le> U64_MAX"
  by (simp add: wrapping_add_u64_def U64_MAX_def)

lemma EngineData_expire_frame:
  "update_targets (snd (EngineData_expire now d)) = update_targets d"
  "delete_tickets (snd (EngineData_expire now d)) = delete_tickets d"
  "ed_settings (snd (EngineData_expire now d)) = ed_settings d"
  "ed_decks (snd (EngineData_expire now d)) = fst (Decks_expire now (ed_decks d, ed_active d))"
  "history_revision (snd (EngineData_expire now d)) \<le> U64_MAX"
  by (simp_all add: EngineData_expire_def Let_def wrapping_add_u64_le split: prod.split)

lemma data_ok_expire:
  assumes ok: "data_ok d"
  shows "data_ok (snd (EngineData_expire now d))"
proof -
  obtain decks active where x: "Decks_expire now (ed_decks d, ed_active d) = (decks, active)"
    by (cases "Decks_expire now (ed_decks d, ed_active d)")
  have "data_ok (d\<lparr>ed_decks := decks, ed_active := active\<rparr>)"
    using data_ok_leases [OF ok] Decks_expire_step [of "(ed_decks d, ed_active d)" now] x by simp
  then show ?thesis
    unfolding data_ok_def EngineData_expire_frame EngineData_expire_alt [OF x] x
    using EngineData_expire_frame(5) [of now d] by (simp add: active_ok_map) (simp add: om_map_def)
qed

section \<open>Engine operations keep it\<close>

lemma routed_nid [simp]: "nid (routed C n) = nid n"
  by (simp add: routed_def)

lemma presented_nid [simp]: "nid (presented d now n) = nid n"
  by (simp add: presented_def Let_def split: option.splits)

lemma visible_distinct: "active_ok (ed_active d) \<Longrightarrow> distinct (map nid (visible_notifications d now))"
proof -
  assume a: "active_ok (ed_active d)"
  have "map nid (visible_notifications d now) =
      map nid (filter (\<lambda>n. snoozed_until_unix_ms n = None) (om_values (ed_active d)))"
    by (simp add: visible_notifications_def)
  then show ?thesis using distinct_map_filter [OF active_ok_distinct [OF a]] by simp
qed

lemma publish_summary_ok: "engine_ok e \<Longrightarrow> engine_ok (publish_summary C e)"
proof -
  assume ok: "engine_ok e"
  let ?d = "(en_data e)\<lparr>ed_active := om_map (routed C) (ed_active (en_data e))\<rparr>"
  have d: "data_ok ?d" using ok data_ok_map [of "routed C" "en_data e"] by (simp add: engine_ok_def)
  let ?v = "visible_notifications ?d (cl_published C)"
  obtain ds decks where p: "project ?v (ed_dnd ?d) (ed_decks ?d) = (ds, decks)"
    by (cases "project ?v (ed_dnd ?d) (ed_decks ?d)")
  have "decks_ok (published (ed_decks ?d))" "distinct (map nid ?v)"
    using d visible_distinct [of ?d] by (simp_all add: data_ok_def)
  note q = project_placed [OF this p]
  have "data_ok (?d\<lparr>ed_decks := decks\<rparr>)" using d q(2,3) by (simp add: data_ok_def)
  with ok p show ?thesis by (simp add: publish_summary_def Let_def engine_ok_def)
qed

lemma engine_ok_frame [simp]:
  "engine_ok (emit x e) = engine_ok e" "engine_ok (queue_write N w e) = engine_ok e"
  "engine_ok (e\<lparr>en_signals := ss\<rparr>) = engine_ok e" "engine_ok (e\<lparr>en_writes := ws\<rparr>) = engine_ok e"
  by (simp_all add: engine_ok_def emit_def queue_write_def)

lemma engine_ok_data: "engine_ok e \<Longrightarrow> data_ok d \<Longrightarrow> engine_ok (e\<lparr>en_data := d\<rparr>)"
  by (simp add: engine_ok_def)

lemma engine_ok_on_data: "engine_ok e \<Longrightarrow> data_ok (f (en_data e)) \<Longrightarrow> engine_ok (on_data f e)"
  by (simp add: engine_ok_def on_data_def)

lemma close_locked_ok: "engine_ok e \<Longrightarrow> engine_ok (snd (close_locked N C n reason e))"
  using data_ok_remove [of "en_data e" n]
  by (auto simp: close_locked_def engine_ok_def split: prod.splits)
    (auto simp: emit_def queue_write_def)

lemma close_each_ok: "engine_ok e \<Longrightarrow> engine_ok (close_each N C reason ids e)"
  unfolding close_each_def by (induction ids arbitrary: e) (simp_all add: close_locked_ok)

lemma allocate_id_wp:
  assumes "engine_ok e"
    and "\<And>n nxt. \<not> om_has n (ed_active (en_data e)) \<Longrightarrow> 0 < n \<Longrightarrow> n \<le> U32_MAX \<Longrightarrow> nxt \<le> U32_MAX \<Longrightarrow>
      Q n (e\<lparr>en_next_id := nxt\<rparr>)"
  shows "wp allocate_id Q R e"
proof -
  have "om_ok (ed_active (en_data e))" "length (ed_active (en_data e)) \<le> 200"
    using assms(1) by (simp_all add: engine_ok_def data_ok_def active_ok_def NotificationPolicy_default_def)
  from allocate_id_fresh [OF this] obtain n nxt where
    "allocate_id e = (Inr n, e\<lparr>en_next_id := nxt\<rparr>)" "\<not> om_has n (ed_active (en_data e))" "0 < n" "n \<le> U32_MAX"
    "nxt \<le> U32_MAX" by blast
  with assms(2) show ?thesis by (simp add: wp_def)
qed

lemma engine_ok_next: "engine_ok e \<Longrightarrow> nxt \<le> U32_MAX \<Longrightarrow> engine_ok (e\<lparr>en_next_id := nxt\<rparr>)"
  by (simp add: engine_ok_def)

lemma engine_ok_has: "engine_ok e \<Longrightarrow> om_has n (ed_active (en_data e)) \<Longrightarrow> 0 < n \<and> n \<le> U32_MAX"
  by (auto simp: engine_ok_def om_has_get dest!: data_ok_active active_ok_get)

abbreviation keeps_ok :: "(engine, 'a) eff \<Rightarrow> engine \<Rightarrow> bool" where
  "keeps_ok m e \<equiv> wp m (\<lambda>_. engine_ok) engine_ok e"

lemma reserve_persistence_wp [wp_intros]: "Q () e \<Longrightarrow> R e \<Longrightarrow> wp (reserve_persistence N C) Q R e"
  unfolding reserve_persistence_def by (rule wp_liftE) simp_all

lemma publish_wp [wp_intros]: "(engine_ok e \<Longrightarrow> Q () (publish_summary C e)) \<Longrightarrow> engine_ok e \<Longrightarrow> wp (modifyE (publish_summary C)) Q R e"
  by (rule wp_modifyE) simp

lemma upsert_engine_ok:
  assumes "engine_ok e" "0 < n" "n \<le> U32_MAX"
    "upsert E n i m now (maximum_active NotificationPolicy_default) (en_data e) = ((stored, ev), d)"
  shows "engine_ok (e\<lparr>en_data := d\<rparr>)"
  using upsert_cases(1) [OF _ assms(2-4)] assms(1) by (simp add: engine_ok_def)

lemma evicted_ok: "engine_ok e \<Longrightarrow> engine_ok (case ev of None \<Rightarrow> e | Some old \<Rightarrow> queue_write N (w old) (emit (s old) e))"
  by (simp split: option.splits)

lemma choose_id_wp:
  assumes "engine_ok e"
    and "r \<noteq> 0 \<Longrightarrow> om_has r (ed_active (en_data e)) \<Longrightarrow> r \<le> U32_MAX \<Longrightarrow> Q r e"
    and "\<And>n nxt. \<not> om_has n (ed_active (en_data e)) \<Longrightarrow> r = 0 \<or> \<not> om_has r (ed_active (en_data e)) \<Longrightarrow>
      0 < n \<Longrightarrow> n \<le> U32_MAX \<Longrightarrow> nxt \<le> U32_MAX \<Longrightarrow> Q n (e\<lparr>en_next_id := nxt\<rparr>)"
  shows "wp (choose_id r) Q R e"
  unfolding choose_id_def using assms engine_ok_has [OF assms(1), of r]
  by (intro wp_intros allocate_id_wp) auto

lemma admit_run:
  assumes "engine_ok e" "0 < n" "n \<le> U32_MAX"
  obtains stored ev d where
    "upsert (nc_env N) n incoming (unwrap_or [] (cl_focused C)) (cl_now C)
       (maximum_active NotificationPolicy_default) (en_data e) = ((stored, ev), d)"
    "admit N C incoming n e = (Inr n, publish_summary C (case ev of None \<Rightarrow> queue_write N (W_Save stored) (e\<lparr>en_data := d\<rparr>)
       | Some old \<Rightarrow> queue_write N (W_Close old (cl_now C) UNDEFINED)
           (emit (Closed old UNDEFINED) (queue_write N (W_Save stored) (e\<lparr>en_data := d\<rparr>)))))"
    "engine_ok (e\<lparr>en_data := d\<rparr>)"
proof -
  obtain stored ev d where u: "upsert (nc_env N) n incoming (unwrap_or [] (cl_focused C)) (cl_now C)
       (maximum_active NotificationPolicy_default) (en_data e) = ((stored, ev), d)"
    by (metis prod.exhaust)
  show thesis
    by (rule that [OF u _ upsert_engine_ok [OF assms u]]) (simp add: admit_def u eff_defs split: option.splits)
qed

lemma admit_ok: "engine_ok e \<Longrightarrow> 0 < n \<Longrightarrow> n \<le> U32_MAX \<Longrightarrow> keeps_ok (admit N C incoming n) e"
proof -
  assume a: "engine_ok e" "0 < n" "n \<le> U32_MAX"
  from a show ?thesis
    by (rule admit_run [where N = N and C = C and incoming = incoming])
      (simp add: wp_def publish_summary_ok split: option.splits)
qed

lemma notify_ok: "engine_ok e \<Longrightarrow> keeps_ok (notify N C r incoming) e"
  unfolding notify_def
  by (intro wp_intros choose_id_wp admit_ok) (auto intro: engine_ok_next)

lemma close_locked_active:
  "ed_active (en_data (snd (close_locked N C n reason e))) = om_remove n (ed_active (en_data e))"
  by (simp add: close_locked_def EngineData_remove_def emit_def queue_write_def bump_def)

lemma make_room_wp:
  assumes ok: "engine_ok e"
    and "length (ed_active (en_data e)) < maximum_active NotificationPolicy_default \<Longrightarrow> Q () e"
    and "\<And>old. oldest (ed_active (en_data e)) = Some old \<Longrightarrow> om_has old (ed_active (en_data e)) \<Longrightarrow>
      engine_ok (snd (close_locked N C old UNDEFINED e)) \<Longrightarrow>
      length (ed_active (en_data (snd (close_locked N C old UNDEFINED e)))) < maximum_active NotificationPolicy_default \<Longrightarrow>
      Q () (snd (close_locked N C old UNDEFINED e))"
    and "R e"
  shows "wp (make_room N C) Q R e"
proof (cases "length (ed_active (en_data e)) < maximum_active NotificationPolicy_default")
  case True
  with assms(2) show ?thesis unfolding make_room_def by (intro wp_intros) simp_all
next
  case False
  let ?a = "ed_active (en_data e)"
  have a: "active_ok ?a" using ok by (simp add: engine_ok_def data_ok_def)
  from False obtain old where old: "oldest ?a = Some old"
    by (cases "oldest ?a") (auto simp: NotificationPolicy_default_def)
  from oldest_mem [OF a old] have has: "om_has old ?a" .
  have "length (om_remove old ?a) < maximum_active NotificationPolicy_default"
    using has a by (auto simp: length_om_remove active_ok_def NotificationPolicy_default_def)
  with assms(3) [OF old has close_locked_ok [OF ok]] assms(4) old False show ?thesis
    unfolding make_room_def by (intro wp_intros) (simp_all add: close_locked_active)
qed

lemma insert_update_ok:
  assumes "engine_ok e" "nid stored = n" "0 < n" "n \<le> U32_MAX"
    "length (ed_active (en_data e)) < maximum_active NotificationPolicy_default"
  shows "engine_ok (on_data (insert_update n stored r) e)"
proof (rule engine_ok_on_data [OF assms(1)])
  have "data_ok ((en_data e)\<lparr>ed_active := om_insert n stored (ed_active (en_data e))\<rparr>)"
    using assms by (intro data_ok_insert) (auto simp: engine_ok_def)
  then have "data_ok (bump ((en_data e)\<lparr>ed_active := om_insert n stored (ed_active (en_data e))\<rparr>))" by simp
  with assms(1) show "data_ok (insert_update n stored r (en_data e))"
    by (auto simp: insert_update_def data_ok_def bump_def engine_ok_def)
qed

lemma update_once_ok: "engine_ok e \<Longrightarrow> keeps_ok (notify_update_once N C key r incoming) e"
  unfolding notify_update_once_def
  by (intro wp_intros allocate_id_wp make_room_wp)
    (simp_all add: engine_ok_next publish_summary_ok insert_update_ok)

lemma data_ok_field_updates:
  "data_ok d \<Longrightarrow> data_ok (d\<lparr>ed_sharing := x\<rparr>)" "data_ok d \<Longrightarrow> data_ok (d\<lparr>ed_dnd := b, ed_dnd_until := u\<rparr>)"
  "data_ok d \<Longrightarrow> Settings_validate st = Inr () \<Longrightarrow> data_ok (d\<lparr>ed_settings := st\<rparr>)"
  "data_ok d \<Longrightarrow> data_ok (d\<lparr>delete_tickets := om_remove token (delete_tickets d)\<rparr>)"
  "data_ok d \<Longrightarrow> data_ok (d\<lparr>next_prune_ms := t\<rparr>)" "data_ok d \<Longrightarrow> data_ok (d\<lparr>retention_error := r\<rparr>)"
  using length_om_remove_le [of token "delete_tickets d"] by (auto simp: data_ok_def)

lemma hide_toast_nid [simp]: "nid (hide_toast n) = nid n"
  by (simp add: hide_toast_def)

lemma observe_sharing_ok: "engine_ok e \<Longrightarrow> engine_ok (observe_sharing C x e)"
  unfolding observe_sharing_def
  by (intro publish_summary_ok engine_ok_on_data)
    (auto simp: Let_def engine_ok_def data_ok_field_updates data_ok_map [OF hide_toast_nid, of "_\<lparr>ed_sharing := _\<rparr>", simplified])

lemma snooze_sharing_ok: "engine_ok e \<Longrightarrow> keeps_ok (snooze_sharing C g m) e"
  unfolding snooze_sharing_def
  by (intro wp_intros) (simp_all add: publish_summary_ok engine_ok_on_data data_ok_field_updates engine_ok_def [of e])

lemma engine_ok_dataD: "engine_ok e \<Longrightarrow> data_ok (en_data e)"
  by (simp add: engine_ok_def)

lemmas engine_ok_intros = publish_summary_ok engine_ok_on_data engine_ok_dataD data_ok_field_updates data_ok_bump

lemma set_settings_ok: "engine_ok e \<Longrightarrow> keeps_ok (set_settings N C patch) e"
  unfolding set_settings_def
  by (intro wp_intros) (auto intro!: engine_ok_intros dest: Settings_patched_valid)

lemma policy_data_ok:
  assumes "data_ok d" "om_has key (app_policies d) \<or> length (app_policies d) < 256"
  shows "data_ok (d\<lparr>ed_active := (if q then om_map (\<lambda>n. if P n then hide_toast n else n) (ed_active d) else ed_active d),
      app_policies := om_insert key policy (app_policies d)\<rparr>)"
proof -
  have "data_ok (d\<lparr>ed_active := om_map (\<lambda>n. if P n then hide_toast n else n) (ed_active d)\<rparr>)"
    using assms(1) by (subst data_ok_map) simp_all
  with assms show ?thesis by (auto simp: data_ok_def length_om_insert)
qed

lemma set_app_policy_ok: "engine_ok e \<Longrightarrow> keeps_ok (set_app_policy N C key policy) e"
  unfolding set_app_policy_def
  by (intro wp_intros) (auto intro!: engine_ok_intros policy_data_ok)

lemma om_ok_filter: "om_ok m \<Longrightarrow> om_ok (filter P m)"
  by (induction m) (auto simp: om_ok_Cons)

lemma tickets_filter_ok: "data_ok d \<Longrightarrow> data_ok (d\<lparr>delete_tickets := filter P (delete_tickets d)\<rparr>)"
  by (auto simp: data_ok_def om_ok_filter intro: order_trans [OF length_filter_le])

lemma tickets_insert_ok:
  "data_ok d \<Longrightarrow> length (delete_tickets d) < 8 \<Longrightarrow> data_ok (d\<lparr>delete_tickets := om_insert t v (delete_tickets d)\<rparr>)"
  by (auto simp: data_ok_def length_om_insert)

lemma prepare_delete_ok: "engine_ok e \<Longrightarrow> keeps_ok (prepare_delete N C key selected) e"
  unfolding prepare_delete_def
  by (intro wp_intros) (auto intro!: engine_ok_intros tickets_filter_ok tickets_insert_ok)

lemma cancel_delete_ok: "engine_ok e \<Longrightarrow> engine_ok (cancel_delete token e)"
  unfolding cancel_delete_def by (intro engine_ok_intros)

lemma delete_position_ok: "engine_ok e \<Longrightarrow> engine_ok (delete_position p e)"
  unfolding delete_position_def by (auto split: option.splits intro!: engine_ok_on_data data_ok_remove engine_ok_dataD)

lemma delete_positions_ok: "engine_ok e \<Longrightarrow> engine_ok (fold delete_position ps e)"
  by (induction ps arbitrary: e) (simp_all add: delete_position_ok)

lemma delete_confirmed_ok: "engine_ok e \<Longrightarrow> keeps_ok (delete_confirmed N C token) e"
  unfolding delete_confirmed_def
  by (intro wp_intros) (auto intro!: engine_ok_intros delete_positions_ok cancel_delete_ok)

lemma close_ok: "engine_ok e \<Longrightarrow> keeps_ok (close N C n reason) e"
  unfolding close_def
  using close_locked_ok [of e N C n reason] by (intro wp_intros) (auto intro: publish_summary_ok)

lemma emits_ok: "engine_ok (fold (\<lambda>n. emit (f n)) ns e) = engine_ok e"
  by (induction ns arbitrary: e) simp_all

lemma clear_all_ok: "engine_ok e \<Longrightarrow> keeps_ok (clear_all N C) e"
proof -
  assume ok: "engine_ok e"
  have "data_ok ((en_data e)\<lparr>ed_active := [], update_targets := []\<rparr>)"
    using ok by (simp add: engine_ok_def data_ok_def active_ok_def)
  with ok show ?thesis
    unfolding clear_all_def
    by (intro wp_intros) (auto simp: Let_def emits_ok intro!: publish_summary_ok engine_ok_on_data)
qed

lemma set_dnd_locked_ok: "engine_ok e \<Longrightarrow> engine_ok (set_dnd_locked N C b u e)"
  unfolding set_dnd_locked_def
  by (auto simp: Let_def intro!: publish_summary_ok engine_ok_data data_ok_field_updates engine_ok_dataD)

lemma set_dnd_ok: "engine_ok e \<Longrightarrow> keeps_ok (set_dnd N C b u) e"
  and toggle_dnd_ok: "engine_ok e \<Longrightarrow> keeps_ok (toggle_dnd N C) e"
  unfolding set_dnd_def toggle_dnd_def by (intro wp_intros; simp add: set_dnd_locked_ok)+

lemma snooze_ok: "engine_ok e \<Longrightarrow> keeps_ok (snooze N C n u) e"
proof -
  assume ok: "engine_ok e"
  have "data_ok ((en_data e)\<lparr>ed_active := om_insert n (snoozed u t x) (ed_active (en_data e))\<rparr>)"
    if "om_get (ed_active (en_data e)) n = Some x" for t x
    using that ok active_ok_get [OF _ that]
    by (intro data_ok_insert) (auto simp: snoozed_def om_has_get engine_ok_def data_ok_def)
  with ok show ?thesis
    unfolding snooze_def by (intro wp_intros) (auto intro!: publish_summary_ok engine_ok_on_data)
qed

lemma clear_group_ok: "engine_ok e \<Longrightarrow> keeps_ok (clear_group N C key) e"
  unfolding clear_group_def by (intro wp_intros) (auto simp: Let_def intro!: publish_summary_ok close_each_ok)

lemma reply_ok: "engine_ok e \<Longrightarrow> engine_ok (snd (reply n message e))"
  by (simp add: reply_def split: option.splits)

lemma invoke_action_ok: "engine_ok e \<Longrightarrow> keeps_ok (invoke_action N C n key token) e"
  unfolding invoke_action_def
  by (intro wp_intros) (auto intro!: publish_summary_ok close_locked_ok split: option.splits)

lemma set_reading_lease_ok: "engine_ok e \<Longrightarrow> keeps_ok (set_reading_lease C m r) e"
proof -
  assume ok: "engine_ok e"
  have "data_ok ((en_data e)\<lparr>ed_decks := decks, ed_active := active\<rparr>)"
    if "set_reading m r t (ed_decks (en_data e), ed_active (en_data e)) = (decks, active)" for t decks active
    using data_ok_leases [OF engine_ok_dataD [OF ok]] set_reading_step [of "(ed_decks (en_data e), ed_active (en_data e))" m r t]
    by (simp add: that)
  with ok show ?thesis
    unfolding set_reading_lease_def
    by (intro wp_intros) (auto split: prod.splits intro!: publish_summary_ok engine_ok_on_data)
qed

lemma prune_ok: "data_ok d \<Longrightarrow> data_ok (prune N C d)"
  by (auto simp: prune_def Let_def data_ok_field_updates split: sum.splits)

lemma writes_ok: "engine_ok (fold (\<lambda>n. queue_write N (w n)) ns e) = engine_ok e"
  by (induction ns arbitrary: e) simp_all

lemma expire_due_ok: "engine_ok e \<Longrightarrow> engine_ok (expire_due N C e)"
proof -
  assume ok: "engine_ok e"
  have "data_ok (snd (EngineData_expire (cl_now C) (prune N C (en_data e))))"
    by (intro data_ok_expire prune_ok engine_ok_dataD ok)
  with ok show ?thesis
    unfolding expire_due_def
    by (auto simp: Let_def writes_ok split: prod.splits intro!: publish_summary_ok close_each_ok engine_ok_data)
qed

section \<open>Reachable engines\<close>

datatype nop =
  Op_Notify ncall nat IncomingNotification | Op_Update ncall string string IncomingNotification
| Op_Sharing ncall "bool option" | Op_Snooze_Sharing ncall nat nat | Op_Settings ncall SettingsPatch
| Op_Policy ncall string AppPolicy | Op_Prepare_Delete ncall "string option" "Position option"
| Op_Cancel_Delete string | Op_Delete ncall string | Op_Close ncall nat nat | Op_Clear ncall
| Op_Dnd ncall bool "nat option" | Op_Toggle_Dnd ncall | Op_Snooze ncall nat nat | Op_Clear_Group ncall string
| Op_Reply nat string | Op_Invoke ncall nat string "string option" | Op_Reading ncall string bool
| Op_Routes ncall | Op_Expire ncall

fun engine_step :: "nconf \<Rightarrow> engine \<Rightarrow> nop \<Rightarrow> engine" where
  "engine_step N e (Op_Notify C r i) = snd (notify N C r i e)"
| "engine_step N e (Op_Update C key r i) = snd (notify_update_once N C key r i e)"
| "engine_step N e (Op_Sharing C x) = observe_sharing C x e"
| "engine_step N e (Op_Snooze_Sharing C g m) = snd (snooze_sharing C g m e)"
| "engine_step N e (Op_Settings C patch) = snd (set_settings N C patch e)"
| "engine_step N e (Op_Policy C key p) = snd (set_app_policy N C key p e)"
| "engine_step N e (Op_Prepare_Delete C key sel) = snd (prepare_delete N C key sel e)"
| "engine_step N e (Op_Cancel_Delete token) = cancel_delete token e"
| "engine_step N e (Op_Delete C token) = snd (delete_confirmed N C token e)"
| "engine_step N e (Op_Close C n reason) = snd (close N C n reason e)"
| "engine_step N e (Op_Clear C) = snd (clear_all N C e)"
| "engine_step N e (Op_Dnd C b u) = snd (set_dnd N C b u e)"
| "engine_step N e (Op_Toggle_Dnd C) = snd (toggle_dnd N C e)"
| "engine_step N e (Op_Snooze C n u) = snd (snooze N C n u e)"
| "engine_step N e (Op_Clear_Group C key) = snd (clear_group N C key e)"
| "engine_step N e (Op_Reply n message) = snd (reply n message e)"
| "engine_step N e (Op_Invoke C n key token) = snd (invoke_action N C n key token e)"
| "engine_step N e (Op_Reading C m r) = snd (set_reading_lease C m r e)"
| "engine_step N e (Op_Routes C) = publish_summary C e"
| "engine_step N e (Op_Expire C) = expire_due N C e"

lemma keeps_ok_snd: "keeps_ok m e \<Longrightarrow> engine_ok (snd (m e))"
  by (rule wp_snd)

lemmas keeps_ok_ops = notify_ok update_once_ok snooze_sharing_ok set_settings_ok set_app_policy_ok prepare_delete_ok
  delete_confirmed_ok close_ok clear_all_ok set_dnd_ok toggle_dnd_ok snooze_ok clear_group_ok invoke_action_ok
  set_reading_lease_ok

lemma engine_step_ok: "engine_ok e \<Longrightarrow> engine_ok (engine_step N e x)"
  by (cases x) (simp_all add: keeps_ok_ops [THEN keeps_ok_snd] observe_sharing_ok cancel_delete_ok reply_ok
      publish_summary_ok expire_due_ok)

lemma engine_fresh_ok:
  assumes "last_id \<le> U32_MAX" "om_ok policies" "length policies \<le> 256" "Settings_validate settings = Inr ()"
  shows "engine_ok (engine_fresh now last_id dnd until policies settings)"
  using assms by (simp add: engine_ok_def data_ok_def engine_fresh_def active_ok_def Decks_default_def)
    (simp add: om_map_def)

lemma Settings_default_valid: "Settings_validate Settings_default = Inr ()"
  by (simp add: Settings_validate_def Settings_default_def)

lemma engine_build_ok:
  assumes "engine_build N C last_id dnd until policies settings = Inr e" "last_id \<le> U32_MAX" "om_ok policies"
    "length policies \<le> 256" "Settings_validate settings = Inr ()"
  shows "engine_ok e"
  using assms
  by (auto simp: engine_build_def Let_def and_then_Ok_iff Settings_default_valid split: prod.splits if_splits
      intro!: publish_summary_ok engine_fresh_ok)

interpretation notifications: machine "engine_fresh now 0 False None [] Settings_default" "engine_step N" engine_ok
proof
  show "engine_ok (engine_fresh now 0 False None [] Settings_default)"
    by (rule engine_fresh_ok) (simp_all add: Settings_default_valid)
  show "engine_ok (engine_step N s x)" if "engine_ok s" for s x
    using that by (rule engine_step_ok)
qed

end
