(* ===== verification/Notification_Theorems.thy ===== *)
theory Notification_Theorems
  imports Notification_Invariant
begin

text \<open>
  What the notification engine guarantees: bounded tables, identifiers, exactly one announcement per removed
  notification, expiry, confirmed deletion, and silence while the screen is shared.
\<close>

section \<open>Announcing removals\<close>

abbreviation ids :: "engine \<Rightarrow> nat set" where
  "ids e \<equiv> fst ` set (ed_active (en_data e))"

fun closed_id :: "NotificationSignal \<Rightarrow> nat option" where
  "closed_id (Closed n reason) = Some n"
| "closed_id _ = None"

definition closed_ids :: "NotificationSignal list \<Rightarrow> nat list" where
  "closed_ids = List.map_filter closed_id"

lemma closed_ids_simps [simp]:
  "closed_ids [] = []" "closed_ids (xs @ ys) = closed_ids xs @ closed_ids ys"
  "closed_ids (Closed n r # xs) = n # closed_ids xs" "closed_ids (ActionInvoked n k # xs) = closed_ids xs"
  "closed_ids (ActivationToken n t # xs) = closed_ids xs" "closed_ids (Replied n t # xs) = closed_ids xs"
  by (simp_all add: closed_ids_def List.map_filter_def)

definition announces :: "engine \<Rightarrow> engine \<Rightarrow> bool" where
  "announces e e' \<longleftrightarrow> (\<exists>new. en_signals e' = en_signals e @ new \<and> distinct (closed_ids new)
     \<and> set (closed_ids new) = ids e - ids e')"

definition shrinks :: "engine \<Rightarrow> engine \<Rightarrow> bool" where
  "shrinks e e' \<longleftrightarrow> ids e' \<subseteq> ids e \<and> announces e e'"

lemma shrinks_announced: "shrinks e e' \<Longrightarrow> announces e e'"
  by (simp add: shrinks_def)

lemma shrinks_refl [simp]: "shrinks e e"
  by (simp add: shrinks_def announces_def)

lemma shrinksI:
  "ids e' \<subseteq> ids e \<Longrightarrow> en_signals e' = en_signals e @ new \<Longrightarrow> distinct (closed_ids new) \<Longrightarrow>
   set (closed_ids new) = ids e - ids e' \<Longrightarrow> shrinks e e'"
  by (auto simp: shrinks_def announces_def)

lemma shrinks_trans: "shrinks e e1 \<Longrightarrow> shrinks e1 e2 \<Longrightarrow> shrinks e e2"
proof -
  assume a: "shrinks e e1" and b: "shrinks e1 e2"
  from a obtain n1 where n1: "ids e1 \<subseteq> ids e" "en_signals e1 = en_signals e @ n1" "distinct (closed_ids n1)"
    "set (closed_ids n1) = ids e - ids e1" unfolding shrinks_def announces_def by blast
  from b obtain n2 where n2: "ids e2 \<subseteq> ids e1" "en_signals e2 = en_signals e1 @ n2" "distinct (closed_ids n2)"
    "set (closed_ids n2) = ids e1 - ids e2" unfolding shrinks_def announces_def by blast
  show ?thesis
  proof (rule shrinksI)
    show "ids e2 \<subseteq> ids e" using n1(1) n2(1) by (rule order_trans [rotated])
    show "en_signals e2 = en_signals e @ (n1 @ n2)" using n1(2) n2(2) by simp
    have "(ids e - ids e1) \<inter> (ids e1 - ids e2) = {}" by (simp only: disjoint_iff Diff_iff) simp
    then show "distinct (closed_ids (n1 @ n2))" using n1(3,4) n2(3,4) by simp
    show "set (closed_ids (n1 @ n2)) = ids e - ids e2"
      unfolding closed_ids_simps set_append n1(4) n2(4) using n1(1) n2(1) by (simp only: set_eq_iff Diff_iff Un_iff subset_iff) blast
  qed
qed

lemma same_ids_shrinks: "ids e' = ids e \<Longrightarrow> en_signals e' = en_signals e @ new \<Longrightarrow> closed_ids new = [] \<Longrightarrow> shrinks e e'"
  by (rule shrinksI) simp_all

text \<open>An insertion after a shrinking phase: nothing inserted was just removed.\<close>

lemma announced_insert:
  assumes "shrinks e e1" "en_signals e2 = en_signals e1" "ids e2 = insert n (ids e1)" "n \<in> ids e1 \<or> n \<notin> ids e"
  shows "announces e e2"
proof -
  from assms(1) obtain new where new: "ids e1 \<subseteq> ids e" "en_signals e1 = en_signals e @ new"
    "distinct (closed_ids new)" "set (closed_ids new) = ids e - ids e1" unfolding shrinks_def announces_def by blast
  have "ids e - ids e1 = ids e - ids e2"
    unfolding assms(3) using assms(4) by (simp only: set_eq_iff Diff_iff insert_iff) blast
  with new assms(2) show ?thesis unfolding announces_def by (intro exI [of _ new]) simp
qed

lemma publish_ids [simp]: "fst ` set (ed_active (en_data (publish_summary C e))) = ids e"
  and publish_signals [simp]: "en_signals (publish_summary C e) = en_signals e"
  by (simp_all add: publish_summary_def Let_def split: prod.splits)

lemma frame_simps [simp]:
  "en_data (emit x e) = en_data e" "en_data (queue_write N w e) = en_data e"
  "en_signals (queue_write N w e) = en_signals e" "en_signals (emit x e) = en_signals e @ [x]"
  "en_signals (on_data f e) = en_signals e" "en_data (on_data f e) = f (en_data e)"
  "ed_active (bump d) = ed_active d"
  by (simp_all add: emit_def queue_write_def on_data_def bump_def)

lemma publish_shrinks: "shrinks e t \<Longrightarrow> shrinks e (publish_summary C t)"
  by (rule shrinks_trans [OF _ same_ids_shrinks [where new = "[]"]]) simp_all

lemma close_locked_shrinks: "shrinks t (snd (close_locked N C n reason t))"
proof (cases "om_get (ed_active (en_data t)) n")
  case None
  then have "om_remove n (ed_active (en_data t)) = ed_active (en_data t)"
    by (auto simp: om_remove_def filter_id_conv map_of_eq_None_iff)
  with None show ?thesis
    by (intro same_ids_shrinks [where new = "[]"]) (simp_all add: close_locked_def EngineData_remove_def)
next
  case (Some x)
  then have "n \<in> ids t" by (metis map_of_eq_None_iff option.distinct(1) set_map)
  with Some show ?thesis
    by (intro shrinksI [where new = "[Closed n reason]"])
      (auto simp: close_locked_def EngineData_remove_def simp del: set_map)
qed

lemma close_each_shrinks: "shrinks t (close_each N C reason ns t)"
  unfolding close_each_def
proof (induction ns arbitrary: t)
  case (Cons n ns)
  from shrinks_trans [OF close_locked_shrinks Cons.IH] show ?case by simp
qed simp

lemma delete_position_shrinks: "shrinks t (delete_position p t)"
proof (cases "\<exists>x. om_get (ed_active (en_data t)) (ps_id p) = Some x \<and> created_unix_ms x = ps_created p")
  case True
  then obtain x where x: "om_get (ed_active (en_data t)) (ps_id p) = Some x" "created_unix_ms x = ps_created p" by blast
  then have "ps_id p \<in> ids t" by (metis map_of_eq_None_iff option.distinct(1) set_map)
  with x show ?thesis
    by (intro shrinksI [where new = "[Closed (ps_id p) DISMISSED]"])
      (auto simp: delete_position_def EngineData_remove_def simp del: set_map)
next
  case False
  then have "delete_position p t = t" by (auto simp: delete_position_def split: option.splits)
  then show ?thesis by simp
qed

lemma delete_positions_shrinks: "shrinks t (fold delete_position ps t)"
proof (induction ps arbitrary: t)
  case (Cons p ps)
  from shrinks_trans [OF delete_position_shrinks Cons.IH] show ?case by simp
qed simp

lemma shrinks_on_data: "shrinks e t \<Longrightarrow> fst ` set (ed_active (f (en_data t))) = ids t \<Longrightarrow> shrinks e (on_data f t)"
  by (rule shrinks_trans [OF _ same_ids_shrinks [where new = "[]"]]) simp_all

lemma shrinks_queue: "shrinks e t \<Longrightarrow> shrinks e (queue_write N w t)"
  by (rule shrinks_trans [OF _ same_ids_shrinks [where new = "[]"]]) simp_all

lemma shrinks_emit: "shrinks e t \<Longrightarrow> closed_id x = None \<Longrightarrow> shrinks e (emit x t)"
  by (rule shrinks_trans [OF _ same_ids_shrinks [where new = "[x]"]]) (simp_all add: closed_ids_def List.map_filter_def)

abbreviation shrinking :: "(engine, 'a) eff \<Rightarrow> engine \<Rightarrow> bool" where
  "shrinking m e \<equiv> wp m (\<lambda>_. shrinks e) (shrinks e) e"

lemmas shrink_intros = publish_shrinks shrinks_on_data shrinks_queue shrinks_emit shrinks_refl

lemma set_reading_ids:
  "set_reading m r now (decks, active) = (decks', active') \<Longrightarrow> fst ` set active' = fst ` set active"
  using set_reading_step [of "(decks, active)" m r now] unfolding lease_step_def by (elim conjE exE) simp

lemma plain_ops_shrink:
  "shrinking (snooze_sharing C g m) e" "shrinking (set_settings N C patch) e" "shrinking (set_app_policy N C key policy) e"
  "shrinking (prepare_delete N C app sel) e" "shrinking (set_reading_lease C mon r) e"
  subgoal unfolding snooze_sharing_def by (intro wp_intros wp_modifyE) (simp_all add: shrink_intros)
  subgoal unfolding set_settings_def by (intro wp_intros wp_modifyE) (simp_all add: shrink_intros)
  subgoal unfolding set_app_policy_def by (intro wp_intros wp_modifyE) (simp_all add: shrink_intros)
  subgoal unfolding prepare_delete_def by (intro wp_intros) (simp_all add: shrink_intros)
  subgoal unfolding set_reading_lease_def
    by (intro wp_intros wp_modifyE) (simp_all add: shrink_intros set_reading_ids split: prod.splits)
  done

lemma cancel_delete_shrinks: "shrinks e (cancel_delete token e)"
  by (simp add: cancel_delete_def shrink_intros)

lemma observe_sharing_shrinks: "shrinks e (observe_sharing C x e)"
  by (simp add: observe_sharing_def shrink_intros Let_def)

lemma shrinks_then: "shrinks e t \<Longrightarrow> shrinks t u \<Longrightarrow> shrinks e u"
  by (rule shrinks_trans)

lemma closing_ops_shrink:
  "shrinking (delete_confirmed N C token) e" "shrinking (close N C n reason) e" "shrinking (clear_group N C key) e"
  "shrinking (invoke_action N C n akey tok) e" "shrinking (set_dnd N C b u) e" "shrinking (toggle_dnd N C) e"
  subgoal unfolding delete_confirmed_def
    by (intro wp_intros wp_modifyE)
      (simp_all add: shrink_intros shrinks_trans [OF cancel_delete_shrinks delete_positions_shrinks] cancel_delete_shrinks)
  subgoal unfolding close_def using close_locked_shrinks [of e N C n reason]
    by (intro wp_intros) (auto intro: publish_shrinks)
  subgoal unfolding clear_group_def by (intro wp_intros) (simp_all add: Let_def publish_shrinks close_each_shrinks)
  subgoal unfolding invoke_action_def
    by (intro wp_intros; (simp add: shrink_intros split: option.splits; fail)?;
        simp split: option.splits; intro conjI impI allI publish_shrinks shrinks_trans [OF _ close_locked_shrinks];
        simp add: shrink_intros)
  subgoal unfolding set_dnd_def set_dnd_locked_def
    by (intro wp_intros) (simp_all add: Let_def shrink_intros same_ids_shrinks [where new = "[]"])
  subgoal unfolding toggle_dnd_def set_dnd_locked_def
    by (intro wp_intros) (simp_all add: Let_def shrink_intros same_ids_shrinks [where new = "[]"])
  done

lemma emits_closed:
  "en_signals (fold (\<lambda>n. emit (Closed n r)) ns e) = en_signals e @ map (\<lambda>n. Closed n r) ns"
  "en_data (fold (\<lambda>n. emit (Closed n r)) ns e) = en_data e"
  by (induction ns arbitrary: e) simp_all

lemma closed_ids_map: "closed_ids (map (\<lambda>n. Closed n r) ns) = ns"
  by (induction ns) simp_all

lemma clear_all_shrinks:
  assumes "engine_ok e"
  shows "shrinking (clear_all N C) e"
proof -
  let ?ids = "om_keys (ed_active (en_data e))"
  let ?e0 = "on_data (\<lambda>d. d\<lparr>ed_active := [], update_targets := []\<rparr>) e"
  let ?e1 = "on_data (\<lambda>d. bump (d\<lparr>ed_active := [], update_targets := []\<rparr>)) e"
  let ?e2 = "fold (\<lambda>n. emit (Closed n DISMISSED)) ?ids (queue_write N (W_Clear (cl_now C) DISMISSED) ?e1)"
  have "distinct ?ids" using assms by (simp add: engine_ok_def data_ok_def active_ok_def om_ok_distinct)
  then have "shrinks e ?e2"
    by (intro shrinksI [where new = "map (\<lambda>n. Closed n DISMISSED) ?ids"]) (auto simp: emits_closed closed_ids_map Let_def simp del: map_map)
  moreover have "shrinks e ?e0" if "?ids = []"
    using that by (intro same_ids_shrinks [where new = "[]"]) (simp_all add: Let_def)
  ultimately show ?thesis
    unfolding clear_all_def by (intro wp_intros) (simp_all add: publish_shrinks Let_def del: fold_simps)
qed

lemma get_ids: "om_get (ed_active (en_data e)) n = Some x \<Longrightarrow> n \<in> ids e"
  by (metis map_of_eq_None_iff option.distinct(1) set_map)

lemma snooze_shrinks: "shrinking (snooze N C n u) e"
proof -
  have "insert n (ids e) = ids e" if "om_get (ed_active (en_data e)) n = Some x" for x
    using get_ids [OF that] by (rule insert_absorb)
  then show ?thesis unfolding snooze_def by (intro wp_intros) (simp_all add: shrink_intros)
qed

lemma reply_shrinks: "shrinks e (snd (reply n message e))"
  by (simp add: reply_def shrink_intros split: option.splits)

lemma writes_frame [simp]:
  "en_signals (fold (\<lambda>n. queue_write N (w n)) ns e) = en_signals e"
  "en_data (fold (\<lambda>n. queue_write N (w n)) ns e) = en_data e"
  by (induction ns arbitrary: e) simp_all

lemma prune_active [simp]: "ed_active (prune N C d) = ed_active d"
  by (simp add: prune_def Let_def split: sum.splits)

lemma expire_ids: "fst ` set (ed_active (snd (EngineData_expire now d))) = fst ` set (ed_active d)"
proof -
  obtain decks active where x: "Decks_expire now (ed_decks d, ed_active d) = (decks, active)"
    by (cases "Decks_expire now (ed_decks d, ed_active d)")
  have "lease_step (ed_decks d, ed_active d) (decks, active)"
    using Decks_expire_step [of "(ed_decks d, ed_active d)" now] x by simp
  then obtain f where "active = om_map f (ed_active d)" by (auto simp: lease_step_def)
  then show ?thesis by (simp add: EngineData_expire_alt(1) [OF x])
qed

lemma expire_due_shrinks: "shrinks e (expire_due N C e)"
proof -
  obtain batch d where x: "EngineData_expire (cl_now C) (prune N C (en_data e)) = (batch, d)"
    by (cases "EngineData_expire (cl_now C) (prune N C (en_data e))")
  have d: "fst ` set (ed_active d) = ids e" using expire_ids [of "cl_now C" "prune N C (en_data e)"] x by simp
  let ?e1 = "fold (\<lambda>n. queue_write N (W_Save n)) (changed batch) (e\<lparr>en_data := d\<rparr>)"
  let ?e2 = "if dnd_expired batch then queue_write N (W_Dnd False None) ?e1 else ?e1"
  have "shrinks e ?e2" using d by (intro same_ids_shrinks [where new = "[]"]) simp_all
  then have "shrinks e (publish_summary C (close_each N C EXPIRED (expired_ids batch) ?e2))"
    by (rule publish_shrinks [OF shrinks_trans [OF _ close_each_shrinks]])
  then show ?thesis by (simp add: expire_due_def x Let_def)
qed

lemma admit_announced:
  assumes ok: "engine_ok e" and n: "0 < n" "n \<le> U32_MAX"
  shows "announces e (snd (admit N C incoming n e))"
proof -
  from admit_run [OF ok n, of N incoming C] obtain stored ev d where
    u: "upsert (nc_env N) n incoming (unwrap_or [] (cl_focused C)) (cl_now C)
       (maximum_active NotificationPolicy_default) (en_data e) = ((stored, ev), d)"
    and a: "admit N C incoming n e = (Inr n, publish_summary C (case ev of None \<Rightarrow> queue_write N (W_Save stored) (e\<lparr>en_data := d\<rparr>)
       | Some old \<Rightarrow> queue_write N (W_Close old (cl_now C) UNDEFINED)
           (emit (Closed old UNDEFINED) (queue_write N (W_Save stored) (e\<lparr>en_data := d\<rparr>)))))" .
  have d: "data_ok (en_data e)" using ok by (rule engine_ok_dataD)
  note c = upsert_cases(3,4) [OF d n u]
  have keys: "fst ` set (ed_active d') = dom (om_get (ed_active d'))" for d' by (simp add: dom_map_of_conv_image_fst)
  show ?thesis
  proof (cases ev)
    case None
    with c(1) have "fst ` set (ed_active d) = insert n (ids e)" by (simp add: keys)
    with a None show ?thesis
      unfolding announces_def by (intro exI [of _ "[]"]) auto
  next
    case (Some old)
    with c(2) have old: "om_get (ed_active (en_data e)) n = None" "om_has old (ed_active (en_data e))"
      by (auto split: option.splits)
    then have ne: "old \<noteq> n" "old \<in> ids e" by (auto simp: om_has_get) (simp add: dom_map_of_conv_image_fst [symmetric] domI)
    from c(1) Some have "fst ` set (ed_active d) = insert n (ids e - {old})"
      by (simp add: keys dom_def) auto
    with a Some ne show ?thesis
      unfolding announces_def by (intro exI [of _ "[Closed old UNDEFINED]"]) auto
  qed
qed

lemma announced_refl [simp]: "announces e e"
  by (simp add: announces_def)

lemma announced_next [simp]: "announces (e\<lparr>en_next_id := nxt\<rparr>) t = announces e t" "announces e (t\<lparr>en_next_id := nxt\<rparr>) = announces e t"
  by (simp_all add: announces_def)

lemma admit_announced_wp: "engine_ok e \<Longrightarrow> 0 < n \<Longrightarrow> n \<le> U32_MAX \<Longrightarrow> wp (admit N C incoming n) (\<lambda>_. announces e) (announces e) e"
  using admit_announced [of e n N C incoming] by (auto simp: wp_def split: sum.splits prod.splits)

lemma notify_announced: "engine_ok e \<Longrightarrow> wp (notify N C r incoming) (\<lambda>_. announces e) (announces e) e"
proof -
  assume ok: "engine_ok e"
  have "wp (admit N C incoming n) (\<lambda>_. announces e) (announces e) (e\<lparr>en_next_id := nxt\<rparr>)"
    if "0 < n" "n \<le> U32_MAX" "nxt \<le> U32_MAX" for n nxt
    by (rule wp_mono [OF admit_announced_wp [OF engine_ok_next [OF ok that(3)] that(1,2)]]) simp_all
  with ok show ?thesis
    unfolding notify_def by (intro wp_intros choose_id_wp) (simp_all add: admit_announced_wp)
qed

lemma shrinks_next [simp]: "shrinks e (e\<lparr>en_next_id := nxt\<rparr>)"
  by (simp add: shrinks_def)

lemma insert_update_announced:
  assumes "shrinks e t" "\<not> om_has n (ed_active (en_data e))"
  shows "announces e (publish_summary C (on_data (insert_update n stored r) t))"
  using assms(2) by (intro announced_insert [OF assms(1), of _ n]) (simp_all add: insert_update_def om_has_def)

lemma update_once_announced: "engine_ok e \<Longrightarrow> wp (notify_update_once N C key r incoming) (\<lambda>_. announces e) (announces e) e"
  unfolding notify_update_once_def
  by (intro wp_intros wp_modifyE allocate_id_wp make_room_wp)
    (simp_all add: engine_ok_next insert_update_announced shrinks_trans [OF shrinks_next close_locked_shrinks])

lemma shrinking_announced: "shrinking m e \<Longrightarrow> announces e (snd (m e))"
  by (erule wp_snd) (simp_all add: shrinks_announced)

lemma announced_snd: "wp m (\<lambda>_. announces e) (announces e) e \<Longrightarrow> announces e (snd (m e))"
  by (rule wp_snd)

lemmas announced_ops = shrinks_announced shrinking_announced [OF plain_ops_shrink(1)] shrinking_announced [OF plain_ops_shrink(2)]
  shrinking_announced [OF plain_ops_shrink(3)] shrinking_announced [OF plain_ops_shrink(4)]
  shrinking_announced [OF plain_ops_shrink(5)] closing_ops_shrink [THEN shrinking_announced]
  snooze_shrinks [THEN shrinking_announced] clear_all_shrinks [THEN shrinking_announced]
  notify_announced [THEN announced_snd] update_once_announced [THEN announced_snd]

lemma engine_step_announced: "engine_ok e \<Longrightarrow> announces e (engine_step N e x)"
  by (cases x) (simp_all add: announced_ops cancel_delete_shrinks observe_sharing_shrinks reply_shrinks
      expire_due_shrinks publish_shrinks)

section \<open>Reachable engines\<close>

text \<open>
  The engine is built from what the store holds and then takes operations one at a time, under its lock. The
  store has ordered tables of at most 256 policies, 32-bit identifiers and validated settings.
\<close>

inductive reachable :: "nconf \<Rightarrow> engine \<Rightarrow> bool" for N where
  built: "engine_build N C last_id dnd until policies settings = Inr e \<Longrightarrow> last_id \<le> U32_MAX \<Longrightarrow> om_ok policies \<Longrightarrow>
    length policies \<le> 256 \<Longrightarrow> Settings_validate settings = Inr () \<Longrightarrow> reachable N e"
| stepped: "reachable N e \<Longrightarrow> reachable N (engine_step N e x)"

lemma reachable_ok: "reachable N e \<Longrightarrow> engine_ok e"
  by (induction rule: reachable.induct) (auto intro: engine_build_ok notifications.inv_step)

lemma reachable_run: "reachable N e \<Longrightarrow> reachable N (run (engine_step N) e xs)"
  by (induction xs arbitrary: e) (auto intro: reachable.stepped)

text \<open>A concrete engine without a store, and calls on it at a given time.\<close>

definition example_conf :: nconf where
  "example_conf = \<lparr>nc_env = \<lparr>parse_url = (\<lambda>_. None), phone_matches = (\<lambda>_. []),
       code_matches = (\<lambda>_. []), icon_of = (\<lambda>_ _. []), payload_len = (\<lambda>_. 0)\<rparr>,
     nc_persistent = False, nc_valid_run_id = (\<lambda>_. True)\<rparr>"

definition example_call :: "nat \<Rightarrow> ncall" where
  "example_call t = \<lparr>cl_now = t, cl_published = t, cl_permit = True, cl_reserve = Ok (), cl_store = Ok (), cl_once = Ok True,
     cl_targets = Ok [], cl_pruned = Ok 0, cl_token = Ok ''token'', cl_open = Ok (), cl_monitors = [''DP-1''],
     cl_focused = Some ''DP-1''\<rparr>"

definition example_incoming :: "int \<Rightarrow> IncomingNotification" where
  "example_incoming timeout = \<lparr>in_app_name = ''app'', in_app_icon = [], in_summary = ''hello'', in_body = [], in_actions = [],
      in_hints = \<lparr>urgency = 0, category = [], desktop_entry = [], image_path = [], sound_name = [], sound_file = [],
        resident = False, transient = False, suppress_sound = False, image_data_present = False\<rparr>,
      expire_timeout = timeout\<rparr>"

definition example_engine :: engine where
  "example_engine = publish_summary (example_call 1) (engine_fresh 1 0 False None [] Settings_default)"

lemma example_reachable: "reachable example_conf example_engine"
proof (rule reachable.built)
  show "engine_build example_conf (example_call 1) 0 False None [] Settings_default = Inr example_engine"
    by (simp add: engine_build_def expire_flag_def take_due_def example_conf_def example_engine_def example_call_def)
qed (simp_all add: Settings_default_valid)

lemma example_active: "ed_active (en_data example_engine) = []"
  by (simp add: example_engine_def publish_summary_def engine_fresh_def Let_def om_map_def split: prod.splits)

lemma example_incoming_valid: "NotificationPolicy_validate (nc_env example_conf) (example_incoming t) NotificationPolicy_default = Inr ()"
  by (simp add: NotificationPolicy_validate_def example_conf_def example_incoming_def NotificationPolicy_default_def
      bounded_text_def NAME_BYTES_def PATH_BYTES_def CATEGORY_BYTES_def PAYLOAD_BYTES_def)

section \<open>Bounds, identifiers and announcements\<close>

text \<open>
  C33. The tables of the notification engine stay bounded and consistent. In every reachable engine at most 200
  notifications are active, keyed by distinct non-zero 32-bit identifiers that are the notifications' own; an
  update route belongs to an active notification; there are at most 256 application policies and 8 pending
  delete confirmations; the settings are valid ones; and the published popup decks are well formed.
\<close>

theorem notification_tables_bounded:
  assumes "reachable N e"
  shows "length (ed_active (en_data e)) \<le> 200 \<and> distinct (om_keys (ed_active (en_data e)))
    \<and> (\<forall>(k, n)\<in>set (ed_active (en_data e)). nid n = k \<and> 0 < k \<and> k \<le> U32_MAX)
    \<and> fst ` set (update_targets (en_data e)) \<subseteq> fst ` set (ed_active (en_data e))
    \<and> length (app_policies (en_data e)) \<le> 256 \<and> length (delete_tickets (en_data e)) \<le> 8
    \<and> Settings_validate (ed_settings (en_data e)) = Inr ()
    \<and> decks_ok (published (ed_decks (en_data e))) \<and> en_next_id e \<le> U32_MAX"
  using reachable_ok [OF assms]
  by (simp add: engine_ok_def data_ok_def active_ok_def om_ok_distinct NotificationPolicy_default_def)

theorem notification_tables_bounded_witness:
  "length (ed_active (en_data (engine_step example_conf example_engine (Op_Notify (example_call 5) 0 (example_incoming 0))))) \<le> 200"
  using notification_tables_bounded [OF reachable.stepped [OF example_reachable]] by blast

lemma publish_get: "om_get (ed_active (en_data (publish_summary C e))) n = map_option (routed C) (om_get (ed_active (en_data e)) n)"
  by (simp add: publish_summary_def Let_def split: prod.splits)

lemma routed_fields [simp]:
  "created_unix_ms (routed C n) = created_unix_ms n" "updated_unix_ms (routed C n) = updated_unix_ms n"
  "summary (routed C n) = summary n" "body (routed C n) = body n" "expires_unix_ms (routed C n) = expires_unix_ms n"
  by (simp_all add: routed_def)

lemma quieted_text [simp]: "summary (quieted d now n) = summary n" "body (quieted d now n) = body n"
  by (simp_all add: quieted_def)

lemma upsert_text:
  "upsert E n incoming monitor now m d = ((stored, ev), d') \<Longrightarrow> summary stored = in_summary incoming \<and> body stored = in_body incoming"
  by (auto simp: upsert_def Let_def from_incoming_def replace_from_def split: prod.splits option.splits if_splits)

text \<open>What admitting a notification under an identifier leaves in the engine.\<close>

lemma admit_result:
  assumes ok: "engine_ok e" and n: "0 < n" "n \<le> U32_MAX"
  shows "\<exists>e' y. admit N C incoming n e = (Inr n, e') \<and> om_get (ed_active (en_data e')) n = Some y
    \<and> summary y = in_summary incoming \<and> body y = in_body incoming
    \<and> (case om_get (ed_active (en_data e)) n of
         Some x \<Rightarrow> ids e' = ids e \<and> created_unix_ms y = created_unix_ms x
           \<and> updated_unix_ms y = max (cl_now C) (saturating_add_u64 (updated_unix_ms x) 1)
       | None \<Rightarrow> created_unix_ms y = cl_now C
           \<and> (if length (ed_active (en_data e)) < maximum_active NotificationPolicy_default then ids e' = insert n (ids e)
              else \<exists>old. oldest (ed_active (en_data e)) = Some old \<and> ids e' = insert n (ids e - {old})
                \<and> en_signals e' = en_signals e @ [Closed old UNDEFINED]))"
proof -
  from admit_run [OF ok n, of N incoming C] obtain stored ev d where
    u: "upsert (nc_env N) n incoming (unwrap_or [] (cl_focused C)) (cl_now C)
       (maximum_active NotificationPolicy_default) (en_data e) = ((stored, ev), d)"
    and a: "admit N C incoming n e = (Inr n, publish_summary C (case ev of None \<Rightarrow> queue_write N (W_Save stored) (e\<lparr>en_data := d\<rparr>)
       | Some old \<Rightarrow> queue_write N (W_Close old (cl_now C) UNDEFINED)
           (emit (Closed old UNDEFINED) (queue_write N (W_Save stored) (e\<lparr>en_data := d\<rparr>)))))" .
  note c = upsert_cases(3,4) [OF engine_ok_dataD [OF ok] n u]
  let ?e' = "snd (admit N C incoming n e)"
  have get: "om_get (ed_active (en_data ?e')) n = Some (routed C stored)"
    using a c(1) by (simp add: publish_get split: option.splits)
  have sig: "en_signals ?e' = en_signals e @ (case ev of None \<Rightarrow> [] | Some old \<Rightarrow> [Closed old UNDEFINED])"
    using a by (simp split: option.splits)
  have "fst ` set (ed_active d) = dom (om_get (ed_active d))" by (simp add: dom_map_of_conv_image_fst)
  then have keys: "ids ?e' = insert n (case ev of None \<Rightarrow> ids e | Some old \<Rightarrow> ids e - {old})"
    using a c(1) by (auto simp: dom_map_of_conv_image_fst split: option.splits)
  have "admit N C incoming n e = (Inr n, ?e')" using a by simp
  moreover have "n \<in> ids e" if "om_get (ed_active (en_data e)) n = Some x" for x using that by (rule get_ids)
  ultimately show ?thesis
    using get sig keys c(2) upsert_text [OF u]
    by (intro exI [of _ ?e'] exI [of _ "routed C stored"]) (auto split: option.splits simp: insert_absorb)
qed

lemma choose_id_run:
  assumes ok: "engine_ok e"
  shows "\<exists>n nxt. choose_id r e = (Inr n, e\<lparr>en_next_id := nxt\<rparr>) \<and> 0 < n \<and> n \<le> U32_MAX \<and> nxt \<le> U32_MAX
    \<and> (if om_has r (ed_active (en_data e)) then n = r else \<not> om_has n (ed_active (en_data e)))"
proof (cases "om_has r (ed_active (en_data e))")
  case True
  with engine_ok_has [OF ok True] ok show ?thesis
    by (intro exI [of _ r] exI [of _ "en_next_id e"]) (simp add: choose_id_def eff_defs engine_ok_def)
next
  case False
  have "om_ok (ed_active (en_data e))" "length (ed_active (en_data e)) \<le> 200"
    using ok by (simp_all add: engine_ok_def data_ok_def active_ok_def NotificationPolicy_default_def)
  from allocate_id_fresh [OF this] False show ?thesis by (auto simp: choose_id_def eff_defs)
qed

text \<open>
  C29. An admitted notification is always delivered. With an ingress permit, a payload within the policy and room
  in the store's queue, \<open>notify\<close> returns an identifier, non-zero and of 32 bits, under which the notification
  is then active with the text it came with. Replacing an active notification reuses its identifier and keeps
  its creation time, with a later update time; otherwise the identifier is one no active notification has, and
  nothing is displaced unless 200 are active already, when exactly the oldest is closed and announced.
\<close>

theorem notify_delivers:
  assumes "reachable N e" and permit: "cl_permit C"
    and valid: "NotificationPolicy_validate (nc_env N) incoming NotificationPolicy_default = Inr ()"
    and room: "nc_persistent N \<Longrightarrow> cl_reserve C = Inr ()"
  shows "\<exists>n e' y. notify N C r incoming e = (Inr n, e') \<and> 0 < n \<and> n \<le> U32_MAX
    \<and> om_get (ed_active (en_data e')) n = Some y \<and> summary y = in_summary incoming \<and> body y = in_body incoming
    \<and> (case om_get (ed_active (en_data e)) r of
         Some x \<Rightarrow> n = r \<and> ids e' = ids e \<and> created_unix_ms y = created_unix_ms x
           \<and> updated_unix_ms y = max (cl_now C) (saturating_add_u64 (updated_unix_ms x) 1)
       | None \<Rightarrow> n \<notin> ids e \<and> created_unix_ms y = cl_now C
           \<and> (if length (ed_active (en_data e)) < maximum_active NotificationPolicy_default then ids e' = insert n (ids e)
              else \<exists>old. oldest (ed_active (en_data e)) = Some old \<and> ids e' = insert n (ids e - {old})
                \<and> en_signals e' = en_signals e @ [Closed old UNDEFINED]))"
proof -
  have ok: "engine_ok e" by (rule reachable_ok [OF assms(1)])
  from choose_id_run [OF ok, of r] obtain n nxt where c: "choose_id r e = (Inr n, e\<lparr>en_next_id := nxt\<rparr>)"
    and n: "0 < n" "n \<le> U32_MAX" "nxt \<le> U32_MAX"
      "if om_has r (ed_active (en_data e)) then n = r else \<not> om_has n (ed_active (en_data e))" by blast
  have run: "notify N C r incoming e = admit N C incoming n (e\<lparr>en_next_id := nxt\<rparr>)"
    using permit valid room c by (simp add: notify_def reserve_persistence_def eff_defs)
  have mem: "n \<in> ids e \<longleftrightarrow> om_get (ed_active (en_data e)) n \<noteq> None" by (simp add: map_of_eq_None_iff)
  note a = admit_result [OF engine_ok_next [OF ok n(3)] n(1,2), of N C incoming, simplified run [symmetric], simplified]
  show ?thesis
  proof (cases "om_get (ed_active (en_data e)) r")
    case None
    then have "om_get (ed_active (en_data e)) n = None" using n(4) by (simp add: om_has_get)
    with a None mem n(1,2) show ?thesis by (intro exI [of _ n]) (simp cong: if_cong split del: if_split)
  next
    case (Some x)
    then have "n = r" using n(4) by (simp add: om_has_get)
    with a Some n(1,2) show ?thesis by (intro exI [of _ n]) simp
  qed
qed

theorem notify_delivers_witness:
  "\<exists>n e' y. notify example_conf (example_call 5) 0 (example_incoming 0) example_engine = (Inr n, e')
     \<and> om_get (ed_active (en_data e')) n = Some y \<and> summary y = ''hello'' \<and> created_unix_ms y = 5 \<and> ids e' = {n}"
  using notify_delivers [OF example_reachable _ example_incoming_valid, of "example_call 5" 0 0]
  by (simp add: example_active example_call_def example_incoming_def NotificationPolicy_default_def) blast

text \<open>
  C3. Every removal is announced, once. Whatever operation the engine takes, the \<open>NotificationClosed\<close> signals
  it emits are for exactly the notifications that were active before and no longer are, one for each: none
  vanishes silently, none is announced twice, and none that is still active is announced.
\<close>

theorem removed_iff_announced:
  assumes "reachable N e"
  shows "\<exists>new. en_signals (engine_step N e x) = en_signals e @ new \<and> distinct (closed_ids new)
    \<and> set (closed_ids new) = ids e - ids (engine_step N e x)"
  using engine_step_announced [OF reachable_ok [OF assms]] by (simp add: announces_def)

theorem removed_iff_announced_witness:
  "\<exists>new. en_signals (engine_step example_conf example_engine (Op_Clear (example_call 9))) = en_signals example_engine @ new
     \<and> distinct (closed_ids new) \<and> set (closed_ids new) = {}"
  using removed_iff_announced [OF example_reachable, of "Op_Clear (example_call 9)"] by (simp add: example_active)

section \<open>Screen sharing\<close>

definition no_popups :: "engine \<Rightarrow> bool" where
  "no_popups e \<longleftrightarrow> (case en_state e of None \<Rightarrow> True
     | Some (_, a) \<Rightarrow> na_toast_decks a = [] \<and> list_all (\<lambda>n. \<not> toast_visible n) (na_notifications a))"

definition asked :: "EngineData \<Rightarrow> bool" where
  "asked d \<longleftrightarrow> sh_prompt (ed_sharing d) \<and> sh_active (ed_sharing d)"

text \<open>The sharing prompt is open and nothing is shown.\<close>

definition quiet_sharing :: "engine \<Rightarrow> bool" where
  "quiet_sharing e \<longleftrightarrow> asked (en_data e) \<and> no_popups e"

lemma project_nothing: "\<forall>n\<in>set records. \<not> toast_visible n \<Longrightarrow> fst (project records dnd self) = []"
proof -
  assume hidden: "\<forall>n\<in>set records. \<not> toast_visible n"
  then have none: "filter (eligible dnd) records = []" by (auto simp: filter_empty_conv eligible_def)
  have "frozen_record records dnd m = (\<lambda>_. None)" for m
    unfolding frozen_record_def none by simp
  then have "frozen_deck records dnd d = d\<lparr>dk_records := []\<rparr>" for d
    by (simp add: frozen_deck_def List.map_filter_def)
  then show ?thesis by (simp add: project_def none Let_def filter_empty_conv)
qed

lemma publish_quiet: "asked (en_data e) \<Longrightarrow> quiet_sharing (publish_summary C e)"
proof -
  assume a: "asked (en_data e)"
  let ?d = "(en_data e)\<lparr>ed_active := om_map (routed C) (ed_active (en_data e))\<rparr>"
  let ?v = "visible_notifications ?d (cl_published C)"
  have "suppressed (cl_published C) (ed_sharing ?d)" using a by (simp add: asked_def suppressed_def)
  then have v: "\<forall>n\<in>set ?v. \<not> toast_visible n" by (auto simp: visible_notifications_def presented_def Let_def)
  then have "fst (project ?v (ed_dnd ?d) (ed_decks ?d)) = []" by (rule project_nothing)
  with v a show ?thesis
    by (auto simp: publish_summary_def quiet_sharing_def no_popups_def asked_def Let_def list_all_iff split: prod.splits)
qed

lemma quiet_asked: "quiet_sharing e \<Longrightarrow> asked (en_data e)"
  by (simp add: quiet_sharing_def)

lemma quiet_frame:
  "quiet_sharing (emit x e) = quiet_sharing e" "quiet_sharing (queue_write N w e) = quiet_sharing e"
  "quiet_sharing (e\<lparr>en_next_id := i\<rparr>) = quiet_sharing e"
  by (simp_all add: quiet_sharing_def no_popups_def emit_def queue_write_def)

lemma quiet_data: "quiet_sharing e \<Longrightarrow> ed_sharing d = ed_sharing (en_data e) \<Longrightarrow> quiet_sharing (e\<lparr>en_data := d\<rparr>)"
  by (simp add: quiet_sharing_def no_popups_def asked_def)

lemma quiet_on_data: "quiet_sharing e \<Longrightarrow> ed_sharing (f (en_data e)) = ed_sharing (en_data e) \<Longrightarrow> quiet_sharing (on_data f e)"
  unfolding on_data_def by (rule quiet_data)

lemma quiet_publish: "quiet_sharing e \<Longrightarrow> quiet_sharing (publish_summary C e)"
  by (rule publish_quiet [OF quiet_asked])

lemma sharing_frame [simp]:
  "ed_sharing (bump d) = ed_sharing d" "ed_sharing (snd (EngineData_remove n d)) = ed_sharing d"
  "ed_sharing (insert_update n stored r d) = ed_sharing d" "ed_sharing (prune N C d) = ed_sharing d"
  by (simp_all add: bump_def EngineData_remove_def insert_update_def prune_def Let_def split: sum.splits)

lemma quiet_close_locked: "quiet_sharing e \<Longrightarrow> quiet_sharing (snd (close_locked N C n reason e))"
  by (auto simp: close_locked_def EngineData_remove_def quiet_frame intro!: quiet_data)

lemma quiet_close_each: "quiet_sharing e \<Longrightarrow> quiet_sharing (close_each N C reason ns e)"
  unfolding close_each_def by (induction ns arbitrary: e) (simp_all add: quiet_close_locked)

lemma quiet_cancel: "quiet_sharing e \<Longrightarrow> quiet_sharing (cancel_delete token e)"
  unfolding cancel_delete_def by (rule quiet_on_data) simp_all

lemma quiet_delete: "quiet_sharing e \<Longrightarrow> quiet_sharing (fold delete_position ps e)"
proof (induction ps arbitrary: e)
  case (Cons p ps)
  have "quiet_sharing (delete_position p e)"
    using Cons.prems by (auto simp: delete_position_def quiet_frame intro!: quiet_on_data split: option.splits)
  with Cons.IH show ?case by simp
qed simp

lemma quiet_emits: "quiet_sharing (fold (\<lambda>n. emit (f n)) ns e) = quiet_sharing e"
  "quiet_sharing (fold (\<lambda>n. queue_write N (w n)) ns e) = quiet_sharing e"
  by (induction ns arbitrary: e) (simp_all add: quiet_frame)

lemma upsert_sharing: "upsert E n i m now k d = ((stored, ev), d') \<Longrightarrow> ed_sharing d' = ed_sharing d"
  by (auto simp: upsert_def EngineData_remove_def evict_def Let_def split: prod.splits option.splits if_splits)

abbreviation stays_quiet :: "(engine, 'a) eff \<Rightarrow> engine \<Rightarrow> bool" where
  "stays_quiet m e \<equiv> wp m (\<lambda>_. quiet_sharing) quiet_sharing e"

lemmas quiet_rules = quiet_frame quiet_publish quiet_on_data quiet_data quiet_close_locked quiet_close_each quiet_cancel
  quiet_delete quiet_emits

lemma quiet_admit: "quiet_sharing e \<Longrightarrow> stays_quiet (admit N C incoming n) e"
  by (auto simp: admit_def wp_def eff_defs quiet_rules dest!: upsert_sharing split: prod.splits option.splits)

lemma quiet_notify:
  assumes "engine_ok e" "quiet_sharing e"
  shows "stays_quiet (notify N C r incoming) e"
  unfolding notify_def
  by (intro wp_intros choose_id_wp assms(1) quiet_admit) (simp_all add: assms quiet_rules)

lemma quiet_update:
  assumes "engine_ok e" "quiet_sharing e"
  shows "stays_quiet (notify_update_once N C key r incoming) e"
  unfolding notify_update_once_def
  by (intro wp_intros wp_modifyE allocate_id_wp make_room_wp) (simp_all add: assms quiet_rules engine_ok_next)

lemma set_reading_sharing:
  "ed_sharing (case set_reading m r t (ed_decks d, ed_active d) of (decks, active) \<Rightarrow> d\<lparr>ed_decks := decks, ed_active := active\<rparr>)
   = ed_sharing d"
  by (simp split: prod.splits)

lemma quiet_plain_ops:
  assumes "quiet_sharing e"
  shows "stays_quiet (set_settings N C patch) e" "stays_quiet (set_app_policy N C key policy) e"
    "stays_quiet (prepare_delete N C app sel) e" "stays_quiet (set_reading_lease C mon r) e"
    "stays_quiet (delete_confirmed N C token) e" "stays_quiet (clear_group N C gkey) e"
    "stays_quiet (snooze N C n u) e" "stays_quiet (invoke_action N C n akey tok) e"
  subgoal unfolding set_settings_def by (intro wp_intros wp_modifyE) (simp_all add: assms quiet_rules)
  subgoal unfolding set_app_policy_def by (intro wp_intros wp_modifyE) (simp_all add: assms quiet_rules)
  subgoal unfolding prepare_delete_def by (intro wp_intros) (simp_all add: assms quiet_rules)
  subgoal unfolding set_reading_lease_def by (intro wp_intros wp_modifyE) (simp_all add: assms quiet_rules set_reading_sharing)
  subgoal unfolding delete_confirmed_def by (intro wp_intros wp_modifyE) (simp_all add: assms quiet_rules)
  subgoal unfolding clear_group_def by (intro wp_intros) (simp_all add: assms quiet_rules Let_def)
  subgoal unfolding snooze_def by (intro wp_intros) (simp_all add: assms quiet_rules)
  subgoal unfolding invoke_action_def by (intro wp_intros) (simp_all add: assms quiet_rules split: option.splits)
  done

lemma quiet_dnd: "quiet_sharing e \<Longrightarrow> quiet_sharing (set_dnd_locked N C b u e)"
  by (simp add: set_dnd_locked_def Let_def quiet_rules)

lemma quiet_closing_ops:
  assumes "quiet_sharing e"
  shows "stays_quiet (close N C n reason) e" "stays_quiet (clear_all N C) e" "stays_quiet (set_dnd N C b u) e"
    "stays_quiet (toggle_dnd N C) e"
  subgoal unfolding close_def using quiet_close_locked [OF assms, of N C n reason]
    by (intro wp_intros) (auto simp: assms intro: quiet_publish)
  subgoal unfolding clear_all_def by (intro wp_intros) (simp_all add: assms quiet_rules Let_def)
  subgoal unfolding set_dnd_def by (intro wp_intros) (simp_all add: assms quiet_dnd)
  subgoal unfolding toggle_dnd_def by (intro wp_intros) (simp_all add: assms quiet_dnd)
  done

lemma expire_asked: "asked (snd (EngineData_expire now d)) = asked d"
  by (simp add: asked_def EngineData_expire_def Let_def Sharing_expire_def split: prod.splits)

lemma quiet_expire: "quiet_sharing e \<Longrightarrow> quiet_sharing (expire_due N C e)"
proof -
  assume q: "quiet_sharing e"
  obtain batch d where x: "EngineData_expire (cl_now C) (prune N C (en_data e)) = (batch, d)"
    by (cases "EngineData_expire (cl_now C) (prune N C (en_data e))")
  have "asked d" using expire_asked [of "cl_now C" "prune N C (en_data e)"] q x by (simp add: quiet_sharing_def asked_def)
  with q have "quiet_sharing (e\<lparr>en_data := d\<rparr>)" by (simp add: quiet_sharing_def no_popups_def)
  then show ?thesis using q by (simp add: expire_due_def x Let_def quiet_rules)
qed

lemma quiet_reply: "quiet_sharing e \<Longrightarrow> quiet_sharing (snd (reply n message e))"
  by (simp add: reply_def quiet_frame split: option.splits)

fun keeps_sharing :: "nop \<Rightarrow> bool" where
  "keeps_sharing (Op_Sharing C observation) = (observation \<noteq> Some False)"
| "keeps_sharing (Op_Snooze_Sharing C g m) = False"
| "keeps_sharing _ = True"

lemma observe_asked: "x \<noteq> Some False \<Longrightarrow> asked (en_data e) \<Longrightarrow> quiet_sharing (observe_sharing C x e)"
  unfolding observe_sharing_def
  by (rule publish_quiet) (auto simp: asked_def Sharing_observe_def Let_def split: option.splits)

lemmas quiet_ops = quiet_plain_ops quiet_closing_ops quiet_notify quiet_update

lemma engine_step_quiet:
  "engine_ok e \<Longrightarrow> quiet_sharing e \<Longrightarrow> keeps_sharing x \<Longrightarrow> quiet_sharing (engine_step N e x)"
  by (cases x) (simp_all add: quiet_ops [THEN wp_snd] quiet_publish quiet_expire quiet_reply quiet_cancel
      observe_asked quiet_asked)

lemma observe_start: "\<not> sh_active (ed_sharing (en_data e)) \<Longrightarrow> quiet_sharing (observe_sharing C (Some True) e)"
  unfolding observe_sharing_def
  by (rule publish_quiet) (auto simp: asked_def Sharing_observe_def Let_def)

interpretation sharing: guarded_machine "observe_sharing C (Some True) (engine_fresh now 0 False None [] Settings_default)"
  "engine_step N" keeps_sharing "\<lambda>e. engine_ok e \<and> quiet_sharing e"
proof
  have "engine_ok (engine_fresh now 0 False None [] Settings_default)"
    by (rule engine_fresh_ok) (simp_all add: Settings_default_valid)
  then show "engine_ok (observe_sharing C (Some True) (engine_fresh now 0 False None [] Settings_default))
      \<and> quiet_sharing (observe_sharing C (Some True) (engine_fresh now 0 False None [] Settings_default))"
    by (auto intro: observe_sharing_ok observe_start simp: engine_fresh_def Sharing_default_def)
  show "engine_ok (engine_step N s x) \<and> quiet_sharing (engine_step N s x)"
    if "engine_ok s \<and> quiet_sharing s" "keeps_sharing x" for s x
    using that by (simp add: engine_step_ok engine_step_quiet)
qed

text \<open>
  C31. Starting to share the screen silences popups at once, and until someone decides otherwise. From the
  moment the start of screen sharing is observed, whatever operations follow (arrivals, replacements, policy
  changes, expiries, observations that sharing goes on or could not be told), no popup is on any published
  deck and no published notification is marked for a popup, until the user answers the sharing prompt or
  sharing is observed to have ended.
\<close>

theorem screen_sharing_silences:
  assumes "reachable N e" "\<not> sh_active (ed_sharing (en_data e))" "list_all keeps_sharing xs"
  shows "no_popups (run (engine_step N) (observe_sharing C (Some True) e) xs)"
proof -
  have "engine_ok (observe_sharing C (Some True) e) \<and> quiet_sharing (observe_sharing C (Some True) e)"
    using assms by (simp add: observe_sharing_ok reachable_ok observe_start)
  from sharing.inv_guarded_from [OF this assms(3)] show ?thesis by (simp add: quiet_sharing_def)
qed

theorem screen_sharing_silences_witness:
  "no_popups (run (engine_step example_conf) (observe_sharing (example_call 2) (Some True) example_engine)
     [Op_Notify (example_call 3) 0 (example_incoming 0), Op_Sharing (example_call 4) None, Op_Expire (example_call 5)])"
proof (rule screen_sharing_silences [OF example_reachable])
  show "\<not> sh_active (ed_sharing (en_data example_engine))"
    by (simp add: example_engine_def publish_summary_def engine_fresh_def Sharing_default_def Let_def split: prod.splits)
qed simp

section \<open>Expiry\<close>

text \<open>Whether the protocol lifetime of a notification is over: snoozed notifications wait for their wake-up.\<close>

definition lapsed :: "nat \<Rightarrow> ActiveNotification \<Rightarrow> bool" where
  "lapsed now n \<longleftrightarrow> (case snoozed_until_unix_ms n of Some u \<Rightarrow> u \<le> now | None \<Rightarrow> True)
     \<and> (case expires_unix_ms n of Some u \<Rightarrow> u \<le> now | None \<Rightarrow> False)"

lemma advance_held_lapsed: "snd (fst (advance_held held now n)) = lapsed now n"
  by (auto simp: advance_held_def advance_def lapsed_def take_due_def Let_def split: option.splits prod.splits)

lemma close_each_ids: "ids (close_each N C reason ns e) = ids e - set ns"
proof (induction ns arbitrary: e)
  case (Cons n ns)
  have "ids (snd (close_locked N C n reason e)) = ids e - {n}" by (simp add: close_locked_active)
  with Cons [of "snd (close_locked N C n reason e)"] show ?case by (auto simp: close_each_def)
qed (simp add: close_each_def)

lemma close_each_signals:
  "distinct ns \<Longrightarrow> set ns \<subseteq> ids e \<Longrightarrow> en_signals (close_each N C reason ns e) = en_signals e @ map (\<lambda>n. Closed n reason) ns"
proof (induction ns arbitrary: e)
  case (Cons n ns)
  let ?e = "snd (close_locked N C n reason e)"
  have "om_get (ed_active (en_data e)) n \<noteq> None" using Cons.prems(2) by (simp add: map_of_eq_None_iff)
  then have "en_signals ?e = en_signals e @ [Closed n reason]" by (auto simp: close_locked_def EngineData_remove_def)
  moreover have "ids ?e = ids e - {n}" by (simp add: close_locked_active)
  then have "set ns \<subseteq> ids ?e" using Cons.prems by (simp only: subset_iff Diff_iff) auto
  with Cons have "en_signals (close_each N C reason ns ?e) = en_signals ?e @ map (\<lambda>n. Closed n reason) ns" by simp
  ultimately show ?case by (simp add: close_each_def)
qed (simp add: close_each_def)

lemma expired_ids_lapsed:
  "expired_ids (fst (EngineData_expire now d)) = map nid (filter (lapsed now) (om_values (ed_active d)))"
proof -
  obtain decks active where x: "Decks_expire now (ed_decks d, ed_active d) = (decks, active)"
    by (cases "Decks_expire now (ed_decks d, ed_active d)")
  have "lease_step (ed_decks d, ed_active d) (decks, active)"
    using Decks_expire_step [of "(ed_decks d, ed_active d)" now] x by simp
  then obtain f where f: "active = om_map f (ed_active d)" "\<And>n. nid (f n) = nid n" "\<And>n. lapsed now (f n) = lapsed now n"
    by (auto simp: lease_step_def lapsed_def)
  show ?thesis by (simp add: EngineData_expire_alt(2) [OF x] advance_held_lapsed f filter_map comp_def)
qed

text \<open>
  C37. Expiry closes exactly what has lapsed. When the engine's timer runs, the notifications whose lifetime is
  over (those snoozed past that moment excepted, however their popups are being read) are closed, each with
  one \<open>NotificationClosed\<close> signal with the reason \<open>EXPIRED\<close> and in the order of their identifiers; every
  other notification stays active, and no other signal is emitted.
\<close>

theorem expiry_closes_the_lapsed:
  assumes "reachable N e" and room: "nc_persistent N \<Longrightarrow> cl_reserve C = Inr ()"
  shows "let gone = map nid (filter (lapsed (cl_now C)) (om_values (ed_active (en_data e)))) in
    en_signals (expire_due N C e) = en_signals e @ map (\<lambda>n. Closed n EXPIRED) gone
    \<and> ids (expire_due N C e) = ids e - set gone \<and> sorted gone"
proof -
  let ?now = "cl_now C"
  let ?gone = "map nid (filter (lapsed ?now) (om_values (ed_active (en_data e))))"
  obtain batch d where x: "EngineData_expire ?now (prune N C (en_data e)) = (batch, d)"
    by (cases "EngineData_expire ?now (prune N C (en_data e))")
  have gone: "expired_ids batch = ?gone" using expired_ids_lapsed [of ?now "prune N C (en_data e)"] x by simp
  let ?e1 = "fold (\<lambda>n. queue_write N (W_Save n)) (changed batch) (e\<lparr>en_data := d\<rparr>)"
  let ?e2 = "if dnd_expired batch then queue_write N (W_Dnd False None) ?e1 else ?e1"
  have frame: "en_signals ?e2 = en_signals e" "ids ?e2 = ids e"
    using expire_ids [of ?now "prune N C (en_data e)"] x by simp_all
  have ok: "active_ok (ed_active (en_data e))" using reachable_ok [OF assms(1)] by (simp add: engine_ok_def data_ok_def)
  have srt: "sorted_wrt (<) (map nid (om_values (ed_active (en_data e))))"
    unfolding active_ok_nid [OF ok] using ok by (simp add: active_ok_def om_ok_def)
  then have srt': "sorted_wrt (<) ?gone" by (simp add: sorted_wrt_map sorted_wrt_filter)
  then have dist: "distinct ?gone" by (simp add: strict_sorted_iff)
  have sub: "set ?gone \<subseteq> ids e" using active_ok_nid [OF ok] by (auto simp: image_iff active_ok_def)
  have "expire_due N C e = publish_summary C (close_each N C EXPIRED ?gone ?e2)"
    using room by (auto simp: expire_due_def x Let_def gone)
  moreover have "en_signals (close_each N C EXPIRED ?gone ?e2) = en_signals e @ map (\<lambda>n. Closed n EXPIRED) ?gone"
    using close_each_signals [OF dist, of ?e2] sub frame by simp
  moreover have "ids (close_each N C EXPIRED ?gone ?e2) = ids e - set ?gone" by (simp only: close_each_ids frame)
  ultimately show ?thesis using srt' by (simp only: Let_def publish_ids publish_signals strict_sorted_iff simp_thms)
qed

theorem expiry_closes_the_lapsed_witness:
  "en_signals (expire_due example_conf (example_call 9) example_engine) = en_signals example_engine"
  using expiry_closes_the_lapsed [OF example_reachable, of "example_call 9"]
  by (simp add: example_active example_call_def)

lemma option_Min_le: "x \<in> set xs \<Longrightarrow> \<exists>t. option_Min xs = Some t \<and> t \<le> x"
proof (induction xs)
  case (Cons y ys)
  then show ?case by (auto simp: option_min_def split: option.splits intro: min.coboundedI1 min.coboundedI2)
qed simp

lemma map_filter_mem: "x \<in> set xs \<Longrightarrow> f x = Some y \<Longrightarrow> y \<in> set (List.map_filter f xs)"
  by (force simp: List.map_filter_def)

lemma option_Min_list: "xs \<noteq> [] \<Longrightarrow> \<exists>t. option_Min xs = Some t \<and> (\<forall>x\<in>set xs. t \<le> x)"
  using option_Min_le [of _ xs] by (cases xs) (fastforce, metis list.set_intros(1) option.inject)

lemma Decks_deadline_le: "(started, u) \<in> set (om_values (leases s)) \<Longrightarrow> \<exists>t. Decks_deadline s = Some t \<and> t \<le> u"
  unfolding Decks_deadline_def by (rule option_Min_le) force

text \<open>The moment an expiry pass has to look at a notification, whatever its popup does.\<close>

definition wake :: "ActiveNotification \<Rightarrow> nat option" where
  "wake n = (case snoozed_until_unix_ms n of Some u \<Rightarrow> Some u | None \<Rightarrow> expires_unix_ms n)"

lemma next_deadline_le:
  "wake n = Some u \<Longrightarrow> \<exists>t. next_deadline n = Some t \<and> t \<le> u"
  "snoozed_until_unix_ms n = None \<Longrightarrow> toast_expires_unix_ms n = Some u \<Longrightarrow> \<exists>t. next_deadline n = Some t \<and> t \<le> u"
  by (auto simp: wake_def next_deadline_def option_min_def split: option.splits)

text \<open>
  C38. The timer is never late. \<open>next_expiry\<close> always names a time, and no deadline of the engine lies before it:
  not the end or the wake-up of any notification, not the end of a popup on a monitor that is not being read,
  not a reading lease, do not disturb, a sharing snooze, the silence of an application, or the next pruning.
\<close>

theorem timer_before_every_deadline:
  "\<exists>t. next_expiry d = Some t \<and> t \<le> next_prune_ms d
    \<and> list_all (\<lambda>n. case wake n of Some u \<Rightarrow> t \<le> u | None \<Rightarrow> True) (om_values (ed_active d))
    \<and> list_all (\<lambda>n. case toast_expires_unix_ms n of Some u \<Rightarrow> t \<le> u | None \<Rightarrow> True)
         (filter (\<lambda>n. \<not> reading (source_monitor n) (ed_decks d) \<and> snoozed_until_unix_ms n = None) (om_values (ed_active d)))
    \<and> list_all (\<lambda>(started, u). t \<le> u) (om_values (leases (ed_decks d)))
    \<and> (case ed_dnd_until d of Some u \<Rightarrow> t \<le> u | None \<Rightarrow> True)
    \<and> (case sh_until (ed_sharing d) of Some u \<Rightarrow> t \<le> u | None \<Rightarrow> True)
    \<and> list_all (\<lambda>p. case until_unix_ms p of Some u \<Rightarrow> t \<le> u | None \<Rightarrow> True)
         (filter silent (om_values (app_policies d)))"
proof -
  let ?due = "\<lambda>n. if reading (source_monitor n) (ed_decks d) then wake n else next_deadline n"
  let ?xs = "List.map_filter ?due (om_values (ed_active d))
       @ (case Decks_deadline (ed_decks d) of Some u \<Rightarrow> [u] | None \<Rightarrow> [])
       @ (case sh_until (ed_sharing d) of Some u \<Rightarrow> [u] | None \<Rightarrow> [])
       @ [next_prune_ms d]
       @ (case ed_dnd_until d of Some u \<Rightarrow> [u] | None \<Rightarrow> [])
       @ List.map_filter until_unix_ms (filter silent (om_values (app_policies d)))"
  have "next_expiry d = option_Min ?xs" by (simp only: next_expiry_def wake_def)
  with option_Min_list [of ?xs] obtain t where t: "next_expiry d = Some t" and le: "\<And>x. x \<in> set ?xs \<Longrightarrow> t \<le> x"
    by auto
  have due: "t \<le> u" if "n \<in> set (om_values (ed_active d))" "?due n = Some v" "v \<le> u" for n u v
    using le [of v] map_filter_mem [of n _ ?due, OF that(1,2)] that(3) by simp
  show ?thesis
  proof (intro exI conjI)
    show "next_expiry d = Some t" by (rule t)
    show "t \<le> next_prune_ms d" by (rule le) simp
    have "t \<le> u" if "n \<in> set (om_values (ed_active d))" "wake n = Some u" for n u
      using due [of n _ u] next_deadline_le(1) [OF that(2)] that by (cases "reading (source_monitor n) (ed_decks d)") auto
    then show "list_all (\<lambda>n. case wake n of Some u \<Rightarrow> t \<le> u | None \<Rightarrow> True) (om_values (ed_active d))"
      unfolding list_all_iff by (intro ballI) (simp split: option.split)
    have "t \<le> u" if "n \<in> set (om_values (ed_active d))" "\<not> reading (source_monitor n) (ed_decks d)"
      "snoozed_until_unix_ms n = None" "toast_expires_unix_ms n = Some u" for n u
      using due [of n _ u] next_deadline_le(2) [OF that(3,4)] that by auto
    then show "list_all (\<lambda>n. case toast_expires_unix_ms n of Some u \<Rightarrow> t \<le> u | None \<Rightarrow> True)
       (filter (\<lambda>n. \<not> reading (source_monitor n) (ed_decks d) \<and> snoozed_until_unix_ms n = None) (om_values (ed_active d)))"
      unfolding list_all_iff by (intro ballI) (simp split: option.split, blast)
    have "t \<le> u" if lease: "(started, u) \<in> set (om_values (leases (ed_decks d)))" for started u
    proof -
      from Decks_deadline_le [OF lease] obtain v where "Decks_deadline (ed_decks d) = Some v" "v \<le> u" by blast
      with le [of v] show ?thesis by simp
    qed
    then show "list_all (\<lambda>(started, u). t \<le> u) (om_values (leases (ed_decks d)))"
      unfolding list_all_iff by (intro ballI) (simp only: split_paired_all prod.case)
    have "t \<le> u" if "p \<in> set (om_values (app_policies d))" "silent p" "until_unix_ms p = Some u" for p u
      using le [of u] map_filter_mem [of p "filter silent (om_values (app_policies d))" until_unix_ms u] that by simp
    then show "list_all (\<lambda>p. case until_unix_ms p of Some u \<Rightarrow> t \<le> u | None \<Rightarrow> True) (filter silent (om_values (app_policies d)))"
      unfolding list_all_iff by (intro ballI) (simp split: option.split, blast)
  qed (use le in \<open>simp_all split: option.split\<close>)
qed

section \<open>Confirmed deletion\<close>

definition targeted :: "Position list \<Rightarrow> ActiveNotification \<Rightarrow> bool" where
  "targeted ps n \<longleftrightarrow> list_ex (\<lambda>p. ps_id p = nid n \<and> ps_created p = created_unix_ms n) ps"

lemma active_nid: "engine_ok e \<Longrightarrow> om_get (ed_active (en_data e)) k = Some n \<Longrightarrow> nid n = k"
  by (auto simp: engine_ok_def data_ok_def dest: active_ok_get)

lemma delete_positions_get:
  "engine_ok e \<Longrightarrow> om_get (ed_active (en_data (fold delete_position ps e))) k =
     (case om_get (ed_active (en_data e)) k of Some n \<Rightarrow> if targeted ps n then None else Some n | None \<Rightarrow> None)"
proof (induction ps arbitrary: e)
  case (Cons p ps)
  have "om_get (ed_active (en_data (delete_position p e))) k =
     (case om_get (ed_active (en_data e)) k of Some n \<Rightarrow> if targeted [p] n then None else Some n | None \<Rightarrow> None)"
    using active_nid [OF Cons.prems, of k]
    by (auto simp: delete_position_def targeted_def EngineData_remove_def split: option.splits)
  with Cons.IH [OF delete_position_ok [OF Cons.prems, of p]] show ?case
    by (auto simp: targeted_def split: option.splits)
qed (simp add: targeted_def split: option.splits)

lemma delete_positions_frame:
  "delete_tickets (en_data (fold delete_position ps e)) = delete_tickets (en_data e)"
proof (induction ps arbitrary: e)
  case (Cons p ps)
  then show ?case by (simp add: delete_position_def EngineData_remove_def split: option.splits)
qed simp

lemma publish_tickets [simp]: "delete_tickets (en_data (publish_summary C e)) = delete_tickets (en_data e)"
  by (simp add: publish_summary_def Let_def split: prod.splits)

text \<open>
  Deletion does what was confirmed and nothing else. A confirmation succeeds only with a token that was
  handed out and has not expired; it deletes exactly the active notifications whose identifier and creation
  time were both recorded when the token was made (so not one that meanwhile reused an identifier), and leaves
  the others as they were but for the monitor they are routed to. A confirmation that fails removes nothing and
  announces nothing. Either way the token is spent.
\<close>

theorem deletion_as_confirmed:
  assumes "reachable N e"
  shows "case delete_confirmed N C token e of (r, e') \<Rightarrow>
    om_get (delete_tickets (en_data e')) token = None
    \<and> (case r of
         Inr k \<Rightarrow> (\<exists>expires ps. om_get (delete_tickets (en_data e)) token = Some (expires, ps)
           \<and> cl_now C < expires \<and> k = length ps
           \<and> (\<forall>i. om_get (ed_active (en_data e')) i =
               (case om_get (ed_active (en_data e)) i of
                  Some n \<Rightarrow> if targeted ps n then None else Some (routed C n) | None \<Rightarrow> None)))
       | Inl _ \<Rightarrow> ed_active (en_data e') = ed_active (en_data e) \<and> en_signals e' = en_signals e)"
proof -
  let ?e0 = "cancel_delete token e"
  have ok: "engine_ok ?e0" by (rule cancel_delete_ok [OF reachable_ok [OF assms]])
  have c: "ed_active (en_data ?e0) = ed_active (en_data e)" "en_signals ?e0 = en_signals e"
    "om_get (delete_tickets (en_data ?e0)) token = None"
    by (simp_all add: cancel_delete_def)
  let ?e1 = "\<lambda>ps. publish_summary C (on_data bump (fold delete_position ps ?e0))"
  have tk: "om_get (delete_tickets (en_data (?e1 ps))) token = None" for ps
    using c(3) by (simp add: bump_def delete_positions_frame)
  have get: "om_get (ed_active (en_data (?e1 ps))) i =
      (case om_get (ed_active (en_data e)) i of Some n \<Rightarrow> if targeted ps n then None else Some (routed C n) | None \<Rightarrow> None)" for ps i
    using delete_positions_get [OF ok, of ps i] c(1) by (simp add: publish_get split: option.splits)
  show ?thesis
  proof (cases "om_get (delete_tickets (en_data e)) token")
    case None
    then show ?thesis using c by (simp add: delete_confirmed_def eff_defs ok_or_def)
  next
    case (Some t)
    obtain expires ps where t: "t = (expires, ps)" by (cases t)
    show ?thesis
    proof (cases "cl_now C < expires \<and> is_ok (if nc_persistent N then cl_store C else Ok ())")
      case True
      then have "delete_confirmed N C token e = (Inr (length ps), ?e1 ps)"
        using Some t by (auto simp: delete_confirmed_def eff_defs ok_or_def is_ok_def split: sum.splits if_splits)
      with Some t True tk get show ?thesis by simp
    next
      case False
      then have "\<exists>er. delete_confirmed N C token e = (Inl er, ?e0)"
        using Some t
        by (cases "if nc_persistent N then cl_store C else Ok ()"; cases "cl_now C < expires")
          (simp_all add: delete_confirmed_def eff_defs ok_or_def)
      with c show ?thesis by auto
    qed
  qed
qed

theorem deletion_as_confirmed_witness:
  "fst (delete_confirmed example_conf (example_call 5) ''token'' example_engine) =
     Inl (err ''Delete confirmation expired; request a new confirmation'')
   \<and> ed_active (en_data (snd (delete_confirmed example_conf (example_call 5) ''token'' example_engine))) = []"
proof -
  have none: "om_get (delete_tickets (en_data example_engine)) ''token'' = None"
    by (simp add: example_engine_def engine_fresh_def)
  then have "fst (delete_confirmed example_conf (example_call 5) ''token'' example_engine) =
     Inl (err ''Delete confirmation expired; request a new confirmation'')"
    by (simp add: delete_confirmed_def eff_defs ok_or_def)
  with deletion_as_confirmed [OF example_reachable, of "''token''" "example_call 5"] show ?thesis
    by (auto simp: example_active split: prod.splits)
qed

end
