(* ===== verification/Notification_Refinement.thy ===== *)
theory Notification_Refinement
  imports Notification_Theorems
begin

text \<open>
  The notification engine refines a small specification: a finite map from identifiers to texts, which clients
  can follow from the identifiers they are given and the signals they receive.
\<close>

section \<open>The contents\<close>

definition text_of :: "ActiveNotification \<Rightarrow> string \<times> string \<times> string" where
  "text_of n = (app_name n, summary n, body n)"

definition texts :: "active_map \<Rightarrow> nat \<rightharpoonup> string \<times> string \<times> string" where
  "texts active = map_option text_of \<circ> om_get active"

definition contents :: "engine \<Rightarrow> nat \<rightharpoonup> string \<times> string \<times> string" where
  "contents e = texts (ed_active (en_data e))"

definition sent_text :: "IncomingNotification \<Rightarrow> string \<times> string \<times> string" where
  "sent_text i = (in_app_name i, in_summary i, in_body i)"

text \<open>Nothing new, and what remains is as it was.\<close>

definition fades :: "engine \<Rightarrow> engine \<Rightarrow> bool" where
  "fades e e' \<longleftrightarrow> (\<forall>i. contents e' i = None \<or> contents e' i = contents e i)"

lemma dom_contents: "dom (contents e) = ids e"
  by (auto simp: contents_def texts_def dom_def dom_map_of_conv_image_fst [symmetric] domIff)

lemma fades_refl [simp]: "fades e e"
  by (simp add: fades_def)

lemma fades_trans: "fades e t \<Longrightarrow> fades t u \<Longrightarrow> fades e u"
  unfolding fades_def by metis

lemma fades_same: "contents t = contents u \<Longrightarrow> fades e u \<Longrightarrow> fades e t"
  by (simp add: fades_def)

lemma texts_simps [simp]:
  "texts (om_remove n a) = (texts a)(n := None)" "texts [] = Map.empty"
  "om_ok a \<Longrightarrow> texts (om_insert n x a) = (texts a)(n \<mapsto> text_of x)"
  by (auto simp: texts_def fun_eq_iff)

lemma texts_map: "(\<And>n. text_of (f n) = text_of n) \<Longrightarrow> texts (om_map f a) = texts a"
  by (auto simp: texts_def fun_eq_iff option.map_comp comp_def)

lemma text_of_simps [simp]:
  "text_of (routed C n) = text_of n" "text_of (hide_toast n) = text_of n" "text_of (snoozed u t n) = text_of n"
  "text_of (snd (advance_held h t n)) = text_of n" "text_of (extend_toast m s t n) = text_of n"
  by (auto simp: text_of_def routed_def hide_toast_def snoozed_def extend_toast_def advance_held_def advance_def Let_def
      split: prod.splits)

lemma contents_frame [simp]:
  "contents (emit x e) = contents e" "contents (queue_write N w e) = contents e" "contents (e\<lparr>en_next_id := i\<rparr>) = contents e"
  "contents (e\<lparr>en_data := d\<rparr>) = texts (ed_active d)" "contents (on_data f e) = texts (ed_active (f (en_data e)))"
  by (simp_all add: contents_def)

lemma contents_publish [simp]: "contents (publish_summary C e) = contents e"
  by (simp add: contents_def publish_summary_def Let_def texts_map split: prod.splits)

lemma active_frame [simp]: "ed_active (snd (EngineData_remove n d)) = om_remove n (ed_active d)"
  by (simp add: EngineData_remove_def)

lemma contents_close_locked: "contents (snd (close_locked N C n reason e)) = (contents e)(n := None)"
  by (simp add: contents_def close_locked_active)

lemma fades_drop: "fades e t \<Longrightarrow> contents u = (contents t)(n := None) \<Longrightarrow> fades e u"
  by (auto simp: fades_def)

lemma fades_close_locked: "fades e t \<Longrightarrow> fades e (snd (close_locked N C n reason t))"
  by (erule fades_drop [OF _ contents_close_locked])

lemma fades_close_each: "fades e t \<Longrightarrow> fades e (close_each N C reason ns t)"
  unfolding close_each_def by (induction ns arbitrary: t) (simp_all add: fades_close_locked)

lemma fades_delete: "fades e t \<Longrightarrow> fades e (fold delete_position ps t)"
proof (induction ps arbitrary: t)
  case (Cons p ps)
  have "contents (delete_position p t) = contents t \<or> contents (delete_position p t) = (contents t)(ps_id p := None)"
    by (auto simp: delete_position_def contents_def split: option.splits)
  with Cons.prems have "fades e (delete_position p t)" by (auto intro: fades_same fades_drop)
  with Cons.IH show ?case by simp
qed simp

lemma fades_iff: "fades e t \<longleftrightarrow> fades e u" if "contents t = contents u"
  using that by (simp add: fades_def)

lemma fades_frame [simp]:
  "fades e (emit x t) = fades e t" "fades e (queue_write N w t) = fades e t" "fades e (publish_summary C t) = fades e t"
  "fades e (t\<lparr>en_next_id := i\<rparr>) = fades e t"
  by (simp_all add: fades_def)

lemma fades_on_data: "fades e t \<Longrightarrow> texts (ed_active (f (en_data t))) = contents t \<Longrightarrow> fades e (on_data f t)"
  by (simp add: fades_def)

lemma bump_active [simp]: "ed_active (bump d) = ed_active d"
  by (simp add: bump_def)

section \<open>Operations that add nothing\<close>

abbreviation fading :: "(engine, 'a) eff \<Rightarrow> engine \<Rightarrow> bool" where
  "fading m e \<equiv> wp m (\<lambda>_. fades e) (fades e) e"

lemma contents_texts: "texts (ed_active (en_data e)) = contents e"
  by (simp add: contents_def)

lemma fades_on_data_refl [simp]: "texts (ed_active (f (en_data e))) = contents e \<Longrightarrow> fades e (on_data f e)"
  by (rule fades_on_data) simp_all

lemma set_reading_texts: "set_reading m r now (decks, active) = (decks', active') \<Longrightarrow> texts active' = texts active"
  by (auto simp: set_reading_def Let_def texts_map split: option.splits if_splits)

lemma cancel_fades [simp]: "fades e (cancel_delete token e)"
  by (simp add: cancel_delete_def contents_def)

lemma plain_ops_fade:
  "fading (snooze_sharing C g m) e" "fading (set_settings N C patch) e" "fading (set_app_policy N C key policy) e"
  "fading (prepare_delete N C app sel) e" "fading (set_reading_lease C mon r) e" "fading (delete_confirmed N C token) e"
  "fading (clear_group N C gkey) e" "fading (set_dnd N C b u) e" "fading (toggle_dnd N C) e"
  subgoal unfolding snooze_sharing_def by (intro wp_intros wp_modifyE) (simp_all add: contents_texts)
  subgoal unfolding set_settings_def by (intro wp_intros wp_modifyE) (simp_all add: contents_texts)
  subgoal unfolding set_app_policy_def by (intro wp_intros wp_modifyE) (simp_all add: contents_texts texts_map)
  subgoal unfolding prepare_delete_def by (intro wp_intros) (simp_all add: fades_def contents_texts)
  subgoal unfolding set_reading_lease_def
    by (intro wp_intros wp_modifyE) (simp_all add: set_reading_texts contents_texts split: prod.splits)
  subgoal unfolding delete_confirmed_def
    by (intro wp_intros wp_modifyE) (simp_all add: fades_delete fades_on_data contents_texts)
  subgoal unfolding clear_group_def by (intro wp_intros) (simp_all add: Let_def fades_close_each)
  subgoal unfolding set_dnd_def set_dnd_locked_def by (intro wp_intros) (simp_all add: Let_def fades_def contents_texts)
  subgoal unfolding toggle_dnd_def set_dnd_locked_def by (intro wp_intros) (simp_all add: Let_def fades_def contents_texts)
  done

lemma emits_contents: "contents (fold (\<lambda>n. emit (Closed n r)) ns e) = contents e"
  by (simp only: contents_def emits_closed)

lemma closing_ops_fade:
  assumes ok: "engine_ok e"
  shows "fading (close N C n reason) e" "fading (clear_all N C) e" "fading (snooze N C n u) e" "fading (invoke_action N C n akey tok) e"
  subgoal unfolding close_def using fades_close_locked [of e e N C n reason]
    by (intro wp_intros) (auto split: if_splits)
  subgoal unfolding clear_all_def
    by (intro wp_intros) (simp_all add: Let_def fades_def emits_contents del: fold_simps)
  subgoal
  proof -
    have "contents e n = Some (text_of x)" if "om_get (ed_active (en_data e)) n = Some x" for x
      using that by (simp add: contents_def texts_def)
    moreover have "om_ok (ed_active (en_data e))" using ok by (simp add: engine_ok_def data_ok_def active_ok_def)
    ultimately show ?thesis
      unfolding snooze_def by (intro wp_intros) (auto simp: contents_texts fun_upd_idem)
  qed
  subgoal unfolding invoke_action_def
    by (intro wp_intros) (simp_all add: fades_close_locked split: option.splits)
  done

lemma observe_fades: "fades e (observe_sharing C x e)"
  by (simp add: observe_sharing_def Let_def texts_map contents_texts)

lemma reply_fades: "fades e (snd (reply n message e))"
  by (simp add: reply_def split: option.splits)

lemma expire_texts: "texts (ed_active (snd (EngineData_expire now d))) = texts (ed_active d)"
proof -
  obtain decks active where x: "Decks_expire now (ed_decks d, ed_active d) = (decks, active)"
    by (cases "Decks_expire now (ed_decks d, ed_active d)")
  have "texts (snd (fold (\<lambda>m. set_reading m False now) ms s)) = texts (snd s)" for ms s
  proof (induction ms arbitrary: s)
    case (Cons m ms)
    have "texts (snd (set_reading m False now s)) = texts (snd s)"
      using set_reading_texts [of m False now "fst s" "snd s"] by (cases "set_reading m False now s") auto
    with Cons show ?case by simp
  qed simp
  then have "texts active = texts (ed_active d)"
    using x by (simp add: Decks_expire_def Let_def) (metis snd_conv)
  then show ?thesis by (simp add: EngineData_expire_alt(1) [OF x] texts_map)
qed

lemma writes_contents: "contents (fold (\<lambda>n. queue_write N (w n)) ns e) = contents e"
  by (simp only: contents_def writes_frame)

lemma expire_fades: "fades e (expire_due N C e)"
proof -
  obtain batch d where x: "EngineData_expire (cl_now C) (prune N C (en_data e)) = (batch, d)"
    by (cases "EngineData_expire (cl_now C) (prune N C (en_data e))")
  have "texts (ed_active d) = contents e"
    using expire_texts [of "cl_now C" "prune N C (en_data e)"] x by (simp add: contents_def)
  then have "fades e (close_each N C EXPIRED ns (if b then queue_write N (W_Dnd False None)
      (fold (\<lambda>n. queue_write N (W_Save n)) ws (e\<lparr>en_data := d\<rparr>)) else fold (\<lambda>n. queue_write N (W_Save n)) ws (e\<lparr>en_data := d\<rparr>)))" for ns ws b
    by (intro fades_close_each) (simp add: fades_def writes_contents)
  then show ?thesis by (simp add: expire_due_def x Let_def)
qed

section \<open>Operations that add\<close>

lemma sent_simps [simp]:
  "text_of (quieted d now n) = text_of n" "text_of (n\<lparr>source_monitor := m\<rparr>) = text_of n"
  "text_of (from_incoming E k i now) = sent_text i" "text_of (replace_from E i now n) = sent_text i"
  by (simp_all add: quieted_def text_of_def sent_text_def from_incoming_def replace_from_def Let_def)

lemma upsert_sent: "upsert E n i monitor now m d = ((stored, ev), d') \<Longrightarrow> text_of stored = sent_text i"
  unfolding upsert_def Let_def by (simp split: prod.splits option.splits if_splits) fastforce+

definition gains :: "engine \<Rightarrow> nat \<Rightarrow> IncomingNotification \<Rightarrow> engine \<Rightarrow> bool" where
  "gains e n i t \<longleftrightarrow> (\<exists>u. fades e u \<and> contents t = (contents u)(n \<mapsto> sent_text i))"

lemma gainsI: "contents t = (contents u)(n \<mapsto> sent_text i) \<Longrightarrow> fades e u \<Longrightarrow> gains e n i t"
  unfolding gains_def by blast

lemma admit_gains:
  assumes ok: "engine_ok e" and n: "0 < n" "n \<le> U32_MAX"
  shows "gains e n incoming (snd (admit N C incoming n e))" "fst (admit N C incoming n e) = Inr n"
proof -
  from admit_run [OF ok n, of N incoming C] obtain stored ev d where
    u: "upsert (nc_env N) n incoming (unwrap_or [] (cl_focused C)) (cl_now C)
       (maximum_active NotificationPolicy_default) (en_data e) = ((stored, ev), d)"
    and a: "admit N C incoming n e = (Inr n, publish_summary C (case ev of None \<Rightarrow> queue_write N (W_Save stored) (e\<lparr>en_data := d\<rparr>)
       | Some old \<Rightarrow> queue_write N (W_Close old (cl_now C) UNDEFINED)
           (emit (Closed old UNDEFINED) (queue_write N (W_Save stored) (e\<lparr>en_data := d\<rparr>)))))" .
  let ?rest = "case ev of None \<Rightarrow> ed_active (en_data e) | Some old \<Rightarrow> om_remove old (ed_active (en_data e))"
  have "texts (ed_active d) = (texts ?rest)(n \<mapsto> sent_text incoming)"
    using upsert_cases(3) [OF engine_ok_dataD [OF ok] n u] upsert_sent [OF u] by (auto simp: texts_def fun_eq_iff)
  then have "contents (snd (admit N C incoming n e)) = (contents (e\<lparr>en_data := (en_data e)\<lparr>ed_active := ?rest\<rparr>\<rparr>))(n \<mapsto> sent_text incoming)"
    using a by (simp split: option.splits)
  moreover have "fades e (e\<lparr>en_data := (en_data e)\<lparr>ed_active := ?rest\<rparr>\<rparr>)"
    by (auto simp: fades_def contents_texts split: option.splits)
  ultimately show "gains e n incoming (snd (admit N C incoming n e))" by (rule gainsI)
  show "fst (admit N C incoming n e) = Inr n" using a by simp
qed

lemma notify_gains:
  assumes ok: "engine_ok e"
  shows "case notify N C r incoming e of (Inr n, t) \<Rightarrow> gains e n incoming t | (Inl _, t) \<Rightarrow> t = e"
proof (cases "cl_permit C \<and> NotificationPolicy_validate (nc_env N) incoming NotificationPolicy_default = Inr ()
    \<and> is_ok (if nc_persistent N then cl_reserve C else Ok ())")
  case True
  from choose_id_run [OF ok, of r] obtain n nxt where c: "choose_id r e = (Inr n, e\<lparr>en_next_id := nxt\<rparr>)"
    and n: "0 < n" "n \<le> U32_MAX" "nxt \<le> U32_MAX" by blast
  have run: "notify N C r incoming e = admit N C incoming n (e\<lparr>en_next_id := nxt\<rparr>)"
    using True c by (auto simp: notify_def reserve_persistence_def eff_defs is_ok_def split: sum.splits if_splits)
  from admit_gains [where incoming = incoming and N = N and C = C, OF engine_ok_next [OF ok n(3)] n(1,2)]
  have "gains e n incoming (snd (notify N C r incoming e))" "fst (notify N C r incoming e) = Inr n"
    unfolding run by (simp_all add: gains_def fades_def)
  then show ?thesis by (cases "notify N C r incoming e") simp
next
  case False
  then show ?thesis
    by (auto simp: notify_def reserve_persistence_def eff_defs is_ok_def split: sum.splits if_splits)
qed

definition gains_once :: "engine \<Rightarrow> IncomingNotification \<Rightarrow> engine \<Rightarrow> bool" where
  "gains_once e i t \<longleftrightarrow> fades e t \<or> (\<exists>n. n \<notin> ids e \<and> gains e n i t)"

lemma gains_once_fades: "fades e t \<Longrightarrow> gains_once e i t"
  by (simp add: gains_once_def)

lemma gains_once_insert:
  assumes "engine_ok t" "fades e t" "\<not> om_has n (ed_active (en_data e))" "text_of x = sent_text i"
  shows "gains_once e i (publish_summary C (on_data (insert_update n x r) t))"
proof -
  have "om_ok (ed_active (en_data t))" using assms(1) by (simp add: engine_ok_def data_ok_def active_ok_def)
  then have "contents (publish_summary C (on_data (insert_update n x r) t)) = (contents t)(n \<mapsto> sent_text i)"
    by (simp add: insert_update_def assms(4) contents_texts)
  then have "gains e n i (publish_summary C (on_data (insert_update n x r) t))" using assms(2) by (rule gainsI)
  with assms(3) show ?thesis by (auto simp: gains_once_def om_has_def)
qed

lemma update_gains:
  "engine_ok e \<Longrightarrow> wp (notify_update_once N C key r incoming) (\<lambda>_. gains_once e incoming) (gains_once e incoming) e"
  unfolding notify_update_once_def
  by (intro wp_intros wp_modifyE allocate_id_wp make_room_wp)
    (simp_all add: engine_ok_next gains_once_insert gains_once_fades fades_close_locked)

section \<open>The refinement\<close>

lemma contents_None: "contents e i = None \<longleftrightarrow> i \<notin> ids e"
  using dom_contents [of e] by (metis domIff)

lemma follow_signals:
  assumes new: "set (closed_ids new) = ids e - ids t" and f: "fades e t"
  shows "contents t = contents e |` (- set (closed_ids new))"
proof
  fix i
  have "i \<in> set (closed_ids new) \<longleftrightarrow> contents e i \<noteq> None \<and> contents t i = None"
    by (simp only: new contents_None Diff_iff not_not)
  moreover have "contents t i = None \<or> contents t i = contents e i" using f by (simp only: fades_def)
  ultimately show "contents t i = (contents e |` (- set (closed_ids new))) i"
    by (cases "contents e i"; cases "contents t i") (simp_all add: restrict_map_def del: set_map)
qed

lemma follow_gain:
  assumes new: "set (closed_ids new) = ids e - ids t" and "gains e n i t"
  shows "contents t = (contents e |` (- set (closed_ids new))) ++ [n \<mapsto> sent_text i]"
proof
  fix j
  from assms(2) obtain u where u: "fades e u" "contents t = (contents u)(n \<mapsto> sent_text i)" by (auto simp: gains_def)
  have "j \<in> set (closed_ids new) \<longleftrightarrow> contents e j \<noteq> None \<and> contents t j = None"
    by (simp only: new contents_None Diff_iff not_not)
  moreover have "contents u j = None \<or> contents u j = contents e j" using u(1) by (simp only: fades_def)
  ultimately show "contents t j = ((contents e |` (- set (closed_ids new))) ++ [n \<mapsto> sent_text i]) j"
    by (cases "contents e j"; cases "contents u j") (simp_all add: u(2) restrict_map_def del: set_map)
qed

lemmas fading_ops = plain_ops_fade [THEN wp_snd] closing_ops_fade [THEN wp_snd]

fun adds :: "nop \<Rightarrow> bool" where
  "adds (Op_Notify _ _ _) = True"
| "adds (Op_Update _ _ _ _) = True"
| "adds _ = False"

lemma other_ops_fade: "engine_ok e \<Longrightarrow> \<not> adds x \<Longrightarrow> fades e (engine_step N e x)"
  by (cases x) (simp_all add: fading_ops observe_fades reply_fades expire_fades)

text \<open>
  C5. The engine refines a finite map of texts that its clients can follow. After any operation in a reachable
  engine, what is active is what was active before without the notifications that were announced as closed,
  each remaining one with the text it had; an admitted notification is added, or replaced, under the identifier
  its sender is given, with the text it sent; an update outcome is added at most once and under an identifier
  that was free; a refused notification and every other operation add nothing.
\<close>

theorem contents_follow_the_signals:
  assumes "reachable N e"
  shows "\<exists>new added. en_signals (engine_step N e x) = en_signals e @ new
    \<and> contents (engine_step N e x) = (contents e |` (- set (closed_ids new))) ++ added
    \<and> (case x of
         Op_Notify C r i \<Rightarrow> added = (case fst (notify N C r i e) of Inr n \<Rightarrow> [n \<mapsto> sent_text i] | Inl _ \<Rightarrow> Map.empty)
       | Op_Update C key r i \<Rightarrow> added = Map.empty \<or> (\<exists>n. n \<notin> ids e \<and> added = [n \<mapsto> sent_text i])
       | _ \<Rightarrow> added = Map.empty)"
proof -
  have ok: "engine_ok e" by (rule reachable_ok [OF assms])
  from engine_step_announced [OF ok, of N x] obtain new where
    new: "en_signals (engine_step N e x) = en_signals e @ new" "set (closed_ids new) = ids e - ids (engine_step N e x)"
    by (auto simp: announces_def)
  note same = follow_signals [OF new(2)] and more = follow_gain [OF new(2)]
  show ?thesis
  proof (cases x)
    case (Op_Notify C r i)
    with notify_gains [OF ok, where N = N and C = C and r = r and incoming = i] same more new(1) show ?thesis
      by (intro exI [of _ new]) (auto split: prod.splits sum.splits)
  next
    case (Op_Update C key r i)
    have "gains_once e i (engine_step N e x)"
      using wp_snd [OF update_gains [OF ok, where N = N and C = C and key = key and r = r and incoming = i]] Op_Update by simp
    then consider "fades e (engine_step N e x)" | n where "n \<notin> ids e" "gains e n i (engine_step N e x)"
      by (auto simp: gains_once_def simp del: set_map)
    then show ?thesis
    proof cases
      case 1
      from same [OF 1] new(1) Op_Update show ?thesis by (intro exI [of _ new] exI [of _ Map.empty]) simp
    next
      case 2
      from more [OF 2(2)] 2(1) new(1) Op_Update show ?thesis
        by (intro exI [of _ new] exI [of _ "[n \<mapsto> sent_text i]"]) auto
    qed
  qed (use other_ops_fade [OF ok, of x N] same new(1) in \<open>auto intro!: exI [of _ new]\<close>)
qed

theorem contents_follow_the_signals_witness:
  "\<exists>new added. contents (engine_step example_conf example_engine (Op_Notify (example_call 5) 0 (example_incoming 0))) =
     (contents example_engine |` (- set (closed_ids new))) ++ added"
  using contents_follow_the_signals [OF example_reachable, of "Op_Notify (example_call 5) 0 (example_incoming 0)"] by blast

end
