(* ===== verification/Notification_History.thy ===== *)
theory Notification_History
  imports Notification_Engine
begin

text \<open>
  Reading notification history in pages: \<open>activity/notifications/history.rs\<close>, the row selection of
  \<open>storage_rows.rs\<close> and \<open>storage.rs\<close>, and the query of \<open>engine.rs\<close>. The stored table is a list of rows as they
  are read back. Lower-casing Unicode text and the JSON encoder and decoder are the fields of \<open>henv\<close>.
\<close>

section \<open>Data\<close>

definition SCOPE_LIMIT :: nat where "SCOPE_LIMIT = 5000"
definition MAX_PAGE :: nat where "MAX_PAGE = 100"
definition PAGE_BYTES :: nat where "PAGE_BYTES = 524288"
definition CURSOR_TTL_MS :: nat where "CURSOR_TTL_MS = 120000"
definition I64_LIMIT :: nat where "I64_LIMIT = 9223372036854775807"

record HistoryQuery =
  hq_query :: string
  hq_cursor :: "string option"
  hq_anchor :: "Position option"
  hq_limit :: nat

definition Position_invalid :: "Position \<Rightarrow> bool" where
  "Position_invalid self \<longleftrightarrow> ps_id self = 0 \<or> ps_created self > I64_LIMIT"

definition Position_contains :: "ActiveNotification \<Rightarrow> Position \<Rightarrow> bool" where
  "Position_contains n self \<longleftrightarrow> (created_unix_ms n, nid n) < (ps_created self, ps_id self)"

record Cursor =
  cu_epoch :: string
  cu_revision :: string
  cu_query :: string
  cu_before :: Position
  cu_expires :: nat

record CatalogRecord =
  history_id :: "int option"
  cr_notification :: ActiveNotification
  cr_closed_unix_ms :: "nat option"
  cr_close_reason :: "nat option"

definition CatalogRecord_from :: "ActiveNotification \<Rightarrow> CatalogRecord" where
  "CatalogRecord_from n = \<lparr>history_id = None, cr_notification = n, cr_closed_unix_ms = None, cr_close_reason = None\<rparr>"

record HistoryPage =
  hp_epoch :: string
  hp_revision :: string
  hp_query :: string
  hp_records :: "CatalogRecord list"
  next_cursor :: "string option"
  hp_scope_limit :: nat
  anchor_reached :: bool

datatype HistoryError = Invalid | Stale | Busy | Unavailable error

fun HistoryError_code :: "HistoryError \<Rightarrow> string" where
  "HistoryError_code Invalid = ''history-query-invalid''"
| "HistoryError_code Stale = ''history-cursor-stale''"
| "HistoryError_code Busy = ''history-busy''"
| "HistoryError_code (Unavailable _) = ''history-unavailable''"

fun HistoryError_message :: "HistoryError \<Rightarrow> string" where
  "HistoryError_message Invalid = ''Invalid notification query, page size or cursor''"
| "HistoryError_message Stale = ''Notification history changed or cursor expired; refresh the query''"
| "HistoryError_message Busy = ''Notification history is busy; retry the read''"
| "HistoryError_message (Unavailable e) = err_to_string e"

record henv =
  lowercase :: "string \<Rightarrow> string"
  record_len :: "CatalogRecord \<Rightarrow> nat result"
  notification_len :: "ActiveNotification \<Rightarrow> nat result"
  encode_cursor :: "Cursor \<Rightarrow> string result"
  decode_cursor :: "string \<Rightarrow> Cursor option"

type_synonym 'a hresult = "HistoryError + 'a"

definition hbind :: "'a hresult \<Rightarrow> ('a \<Rightarrow> 'b hresult) \<Rightarrow> 'b hresult" where
  "hbind r k = (case r of Inl e \<Rightarrow> Inl e | Inr x \<Rightarrow> k x)"

definition unavailable :: "'a result \<Rightarrow> 'a hresult" where
  "unavailable r = (case r of Inl e \<Rightarrow> Inl (Unavailable e) | Inr x \<Rightarrow> Inr x)"

section \<open>Queries and cursors\<close>

definition normalize_search :: "henv \<Rightarrow> string \<Rightarrow> string hresult" where
  "normalize_search H query =
     (if length query > 1024 then Inl Invalid
      else let query = lowercase H (trim query) in
        if length query > 1024 then Inl Invalid else Inr query)"

definition HistoryQuery_normalize :: "henv \<Rightarrow> HistoryQuery \<Rightarrow> HistoryQuery hresult" where
  "HistoryQuery_normalize H self =
     (if \<not> (1 \<le> hq_limit self \<and> hq_limit self \<le> MAX_PAGE)
         \<or> (case hq_anchor self of Some a \<Rightarrow> Position_invalid a | None \<Rightarrow> False) then Inl Invalid
      else hbind (normalize_search H (hq_query self)) (\<lambda>query. Inr (self\<lparr>hq_query := query\<rparr>)))"

definition HistoryQuery_position :: "henv \<Rightarrow> string \<Rightarrow> nat \<Rightarrow> nat \<Rightarrow> HistoryQuery \<Rightarrow> Position option hresult" where
  "HistoryQuery_position H epoch revision now self =
     (case hq_cursor self of
        None \<Rightarrow> Inr None
      | Some token \<Rightarrow>
        if length token > 8192 then Inl Invalid
        else case decode_cursor H token of
          None \<Rightarrow> Inl Invalid
        | Some cursor \<Rightarrow>
          if cu_epoch cursor \<noteq> epoch \<or> cu_revision cursor \<noteq> show_nat revision \<or> cu_query cursor \<noteq> hq_query self
             \<or> cu_expires cursor \<le> now \<or> cu_expires cursor > saturating_add_u64 now CURSOR_TTL_MS
          then Inl Stale
          else if Position_invalid (cu_before cursor) then Inl Invalid
          else Inr (Some (cu_before cursor)))"

definition search_text :: "henv \<Rightarrow> ActiveNotification \<Rightarrow> string" where
  "search_text H n = lowercase H (app_name n @ '' '' @ summary n @ '' '' @ body n)"

section \<open>Pages\<close>

text \<open>Newest first, by creation time and then identifier.\<close>

definition recency :: "CatalogRecord \<Rightarrow> int \<times> int" where
  "recency r = newest_first (cr_notification r)"

definition settled :: "CatalogRecord \<Rightarrow> CatalogRecord" where
  "settled r = r\<lparr>cr_notification := (cr_notification r)\<lparr>toast_visible := False, toast_expires_unix_ms := None\<rparr>\<rparr>"

fun fill :: "henv \<Rightarrow> nat \<Rightarrow> CatalogRecord list \<Rightarrow> CatalogRecord list \<Rightarrow> nat \<Rightarrow> (CatalogRecord list \<times> bool) hresult" where
  "fill H limit [] records bytes = Inr (records, False)"
| "fill H limit (r # rest) records bytes =
     hbind (unavailable (record_len H r)) (\<lambda>sz.
       if length records = limit \<or> bytes + sz > PAGE_BYTES then
         (if records = [] then Inl (Unavailable (err ''Notification exceeds history page byte limit''))
          else Inr (records, True))
       else fill H limit rest (records @ [r]) (bytes + sz))"

definition cursor_at :: "string \<Rightarrow> nat \<Rightarrow> string \<Rightarrow> nat \<Rightarrow> CatalogRecord \<Rightarrow> Cursor" where
  "cursor_at epoch revision query now r =
     \<lparr>cu_epoch = epoch, cu_revision = show_nat revision, cu_query = query,
      cu_before = \<lparr>ps_created = created_unix_ms (cr_notification r), ps_id = nid (cr_notification r)\<rparr>,
      cu_expires = saturating_add_u64 now CURSOR_TTL_MS\<rparr>"

definition page ::
  "henv \<Rightarrow> CatalogRecord list \<Rightarrow> ActiveNotification list \<Rightarrow> HistoryQuery \<Rightarrow> Position option \<Rightarrow> string \<Rightarrow> nat \<Rightarrow> nat
   \<Rightarrow> HistoryPage hresult" where
  "page H persisted active query before epoch revision now =
     (let merged = persisted @ map CatalogRecord_from (filter (\<lambda>n.
            (case before of None \<Rightarrow> True | Some p \<Rightarrow> Position_contains n p) \<and> contains_str (hq_query query) (search_text H n)) active);
          ordered = map settled (sort_key recency merged) in
      hbind (fill H (hq_limit query) ordered [] 0) (\<lambda>(records, more).
      hbind (if more then map_sum id Some (unavailable (encode_cursor H (cursor_at epoch revision (hq_query query) now (last records))))
             else Inr None) (\<lambda>cursor.
      Inr \<lparr>hp_epoch = epoch, hp_revision = show_nat revision, hp_query = hq_query query, hp_records = records,
           next_cursor = cursor, hp_scope_limit = SCOPE_LIMIT,
           anchor_reached = (\<not> more \<or> (case hq_anchor query of None \<Rightarrow> True
             | Some a \<Rightarrow> records \<noteq> [] \<and> (created_unix_ms (cr_notification (last records)), nid (cr_notification (last records)))
                 \<le> (ps_created a, ps_id a)))\<rparr>)))"

section \<open>Stored rows\<close>

definition row_position :: "CatalogRecord \<Rightarrow> nat \<times> nat" where
  "row_position r = (created_unix_ms (cr_notification r), nid (cr_notification r))"

definition scope_rows :: "CatalogRecord list \<Rightarrow> CatalogRecord list" where
  "scope_rows table = take SCOPE_LIMIT (sort_key (\<lambda>r. - unwrap_or 0 (history_id r)) table)"

definition row_matches :: "henv \<Rightarrow> string \<Rightarrow> Position option \<Rightarrow> CatalogRecord \<Rightarrow> bool" where
  "row_matches H query before r \<longleftrightarrow> (case before of None \<Rightarrow> True | Some p \<Rightarrow> Position_contains (cr_notification r) p)
     \<and> (query = [] \<or> contains_str query (search_text H (cr_notification r)))"

text \<open>The rows of \<open>history_ids\<close>: the statement's limit leaves room for every excluded row.\<close>

definition history_ids ::
  "henv \<Rightarrow> string \<Rightarrow> Position option \<Rightarrow> nat \<Rightarrow> (nat \<times> nat) list \<Rightarrow> CatalogRecord list \<Rightarrow> CatalogRecord list" where
  "history_ids H query before limit excluded table =
     take (limit + 1) (filter (\<lambda>r. row_position r \<notin> set excluded)
       (take (limit + 1 + length excluded) (sort_key recency (filter (row_matches H query before) (scope_rows table)))))"

definition records_of :: "henv \<Rightarrow> CatalogRecord list \<Rightarrow> CatalogRecord list result" where
  "records_of H rows =
     (if list_all (\<lambda>r. case notification_len H (cr_notification r) of Inr n \<Rightarrow> n \<le> PAGE_BYTES | Inl _ \<Rightarrow> False) rows
      then Ok rows else Err (err ''Notification exceeds history page byte limit''))"

fun take_bytes :: "henv \<Rightarrow> CatalogRecord list \<Rightarrow> nat \<Rightarrow> (CatalogRecord list \<times> nat \<times> bool) result" where
  "take_bytes H [] bytes = Ok ([], bytes, False)"
| "take_bytes H (r # rs) bytes =
     and_then (record_len H r) (\<lambda>n.
       if bytes + n > PAGE_BYTES then Ok ([r], bytes + n, True)
       else and_then (take_bytes H rs (bytes + n)) (\<lambda>(out, b, stop). Ok (r # out, b, stop)))"

fun hydrate :: "henv \<Rightarrow> CatalogRecord list list \<Rightarrow> nat \<Rightarrow> CatalogRecord list result" where
  "hydrate H [] bytes = Ok []"
| "hydrate H (chunk # rest) bytes =
     and_then (records_of H chunk) (\<lambda>rows. and_then (take_bytes H rows bytes) (\<lambda>(out, b, stop).
       if stop then Ok out else and_then (hydrate H rest b) (\<lambda>more. Ok (out @ more))))"

function chunks :: "nat \<Rightarrow> 'a list \<Rightarrow> 'a list list" where
  "chunks n [] = []"
| "chunks n (x # xs) = take (max 1 n) (x # xs) # chunks n (drop (max 1 n) (x # xs))"
  by pat_completeness auto
termination by (relation "measure (length \<circ> snd)") auto

definition store_query ::
  "henv \<Rightarrow> string \<Rightarrow> Position option \<Rightarrow> nat \<Rightarrow> (nat \<times> nat) list \<Rightarrow> CatalogRecord list \<Rightarrow> CatalogRecord list result" where
  "store_query H query before limit excluded table =
     and_then (ensure (1 \<le> limit \<and> limit \<le> MAX_PAGE) ''invalid notification page limit'') (\<lambda>_.
       hydrate H (chunks 8 (history_ids H query before limit excluded table)) 0)"

section \<open>The engine's query\<close>

definition catalog_snapshot :: "EngineData \<Rightarrow> nat \<times> ActiveNotification list" where
  "catalog_snapshot d = (history_revision d, filter (\<lambda>n. snoozed_until_unix_ms n = None) (om_values (ed_active d)))"

text \<open>\<open>reader\<close> is whether a reader slot was free, \<open>store\<close> the table when the engine has one.\<close>

definition query_history ::
  "henv \<Rightarrow> string \<Rightarrow> bool \<Rightarrow> CatalogRecord list result option \<Rightarrow> nat \<Rightarrow> EngineData \<Rightarrow> HistoryQuery \<Rightarrow> HistoryPage hresult" where
  "query_history H epoch reader store now d query0 =
     hbind (HistoryQuery_normalize H query0) (\<lambda>query.
     if \<not> reader then Inl Busy
     else case catalog_snapshot d of (revision, active) \<Rightarrow>
       hbind (HistoryQuery_position H epoch revision now query) (\<lambda>before.
       hbind (case store of
                Some table \<Rightarrow> unavailable (and_then table (store_query H (hq_query query) before (hq_limit query)
                  (map (\<lambda>n. (created_unix_ms n, nid n)) active)))
              | None \<Rightarrow> Inr []) (\<lambda>persisted.
       page H persisted active query before epoch revision now)))"

section \<open>Filling a page\<close>

lemma hbind_Inr: "hbind r k = Inr y \<longleftrightarrow> (\<exists>x. r = Inr x \<and> k x = Inr y)"
  by (cases r) (auto simp: hbind_def)

lemma hbind_simps [simp]: "hbind (Inr x) k = k x" "hbind (Inl e) k = Inl e"
  by (simp_all add: hbind_def)

lemma unavailable_simps [simp]: "unavailable (Inr x) = Inr x" "unavailable (Inl e) = Inl (Unavailable e)"
  by (simp_all add: unavailable_def)

lemma unavailable_Inr [simp]: "unavailable r = Inr x \<longleftrightarrow> r = Inr x"
  by (cases r) simp_all

definition row_size :: "henv \<Rightarrow> CatalogRecord \<Rightarrow> nat" where
  "row_size H r = (case record_len H r of Inr n \<Rightarrow> n | Inl _ \<Rightarrow> 0)"

definition total_size :: "henv \<Rightarrow> CatalogRecord list \<Rightarrow> nat" where
  "total_size H rs = sum_list (map (row_size H) rs)"

lemma total_size_simps [simp]:
  "total_size H [] = 0" "total_size H (r # rs) = row_size H r + total_size H rs"
  "total_size H (rs @ ss) = total_size H rs + total_size H ss"
  by (simp_all add: total_size_def)

lemma fill_prefix:
  "fill H limit xs records b = Inr (out, left) \<Longrightarrow>
   \<exists>ys zs. xs = ys @ zs \<and> out = records @ ys \<and> (left \<longleftrightarrow> zs \<noteq> []) \<and> (left \<longrightarrow> out \<noteq> [])"
proof (induction xs arbitrary: records b)
  case (Cons r xs)
  from Cons.prems obtain sz where sz: "record_len H r = Inr sz" by (auto simp: hbind_Inr)
  show ?case
  proof (cases "length records = limit \<or> b + sz > PAGE_BYTES")
    case True
    with Cons.prems sz show ?thesis by (auto simp: Cons_eq_append_conv split: if_splits intro: exI [of _ "r # xs"])
  next
    case False
    with Cons.prems sz have "fill H limit xs (records @ [r]) (b + sz) = Inr (out, left)" by simp
    from Cons.IH [OF this] obtain ys zs where "xs = ys @ zs" "out = records @ r # ys" "left \<longleftrightarrow> zs \<noteq> []" "left \<longrightarrow> out \<noteq> []"
      by auto
    then show ?thesis by (intro exI [of _ "r # ys"] exI [of _ zs]) simp
  qed
qed simp

text \<open>Rows after the point where the page must end do not matter.\<close>

lemma fill_stops:
  "length records \<le> limit \<Longrightarrow> b \<le> PAGE_BYTES \<Longrightarrow>
   limit < length records + length xs \<or> PAGE_BYTES < b + total_size H xs \<Longrightarrow>
   fill H limit (xs @ ys) records b = fill H limit xs records b"
proof (induction xs arbitrary: records b)
  case (Cons r xs)
  show ?case
  proof (cases "record_len H r")
    case (Inr sz)
    show ?thesis
    proof (cases "length records = limit \<or> b + sz > PAGE_BYTES")
      case False
      have "fill H limit (xs @ ys) (records @ [r]) (b + sz) = fill H limit xs (records @ [r]) (b + sz)"
        using Cons.prems False Inr by (intro Cons.IH) (auto simp: row_size_def)
      with False Inr show ?thesis by simp
    qed (use Inr in simp)
  qed simp
qed simp

section \<open>Reading the store\<close>

lemma take_filter_take:
  "length (filter (\<lambda>x. \<not> P x) xs) \<le> m \<Longrightarrow> take n (filter P (take (n + m) xs)) = take n (filter P xs)"
proof (induction xs arbitrary: n m)
  case (Cons x xs)
  show ?case
  proof (cases "P x")
    case True
    with Cons show ?thesis by (cases n) simp_all
  next
    case False
    with Cons obtain k where "m = Suc k" by (cases m) auto
    with Cons.IH [of k n] Cons.prems False show ?thesis by simp
  qed
qed simp

lemma excluded_few:
  assumes "distinct (map f xs)"
  shows "length (filter (\<lambda>x. f x \<in> set ex) xs) \<le> length ex"
proof -
  have "length (filter (\<lambda>x. f x \<in> set ex) xs) = card (f ` set (filter (\<lambda>x. f x \<in> set ex) xs))"
    using distinct_card [OF distinct_map_filter [OF assms, of "\<lambda>x. f x \<in> set ex"]] by simp
  also have "\<dots> \<le> card (set ex)" by (intro card_mono) auto
  finally show ?thesis using card_length [of ex] by linarith
qed

lemma take_bytes_prefix:
  "take_bytes H xs b = Inr (out, b', stop) \<Longrightarrow>
   \<exists>rest. xs = out @ rest \<and> b' = b + total_size H out \<and> (stop \<longrightarrow> PAGE_BYTES < b') \<and> (\<not> stop \<longrightarrow> rest = [])"
proof (induction xs arbitrary: b out)
  case (Cons r xs)
  from Cons.prems obtain n where n: "record_len H r = Inr n" by (auto simp: and_then_Ok_iff)
  show ?case
  proof (cases "b + n > PAGE_BYTES")
    case True
    with Cons.prems n show ?thesis by (auto simp: row_size_def)
  next
    case False
    with Cons.prems n obtain o1 where o1: "take_bytes H xs (b + n) = Inr (o1, b', stop)" "out = r # o1"
      by (auto simp: and_then_Ok_iff)
    from Cons.IH [OF o1(1)] o1(2) n show ?thesis by (auto simp: row_size_def)
  qed
qed simp

lemma hydrate_prefix:
  "hydrate H cs b = Inr out \<Longrightarrow> \<exists>rest. concat cs = out @ rest \<and> (rest = [] \<or> PAGE_BYTES < b + total_size H out)"
proof (induction cs arbitrary: b out)
  case (Cons c cs)
  from Cons.prems obtain o1 b1 stop where t: "take_bytes H c b = Inr (o1, b1, stop)"
    and cont: "(if stop then Inr o1 else and_then (hydrate H cs b1) (\<lambda>rows. Inr (o1 @ rows))) = Inr out"
    by (auto simp: and_then_Ok_iff records_of_def split: if_splits prod.splits)
  from take_bytes_prefix [OF t] obtain r1 where r1: "c = o1 @ r1" "b1 = b + total_size H o1"
    "stop \<longrightarrow> PAGE_BYTES < b1" "\<not> stop \<longrightarrow> r1 = []" by blast
  show ?case
  proof (cases stop)
    case True
    with cont r1 show ?thesis by auto
  next
    case False
    with cont obtain o2 where o2: "hydrate H cs b1 = Inr o2" "out = o1 @ o2" by (auto simp: and_then_Ok_iff)
    from Cons.IH [OF o2(1)] o2(2) r1 False show ?thesis by auto
  qed
qed simp

lemma concat_chunks [simp]: "concat (chunks n xs) = xs"
  by (induction n xs rule: chunks.induct) (simp_all add: append_take_drop_id)

lemma chunk_mem: "c \<in> set (chunks n xs) \<Longrightarrow> x \<in> set c \<Longrightarrow> x \<in> set xs"
proof -
  assume "c \<in> set (chunks n xs)" "x \<in> set c"
  then have "x \<in> set (concat (chunks n xs))" by (auto simp del: concat_chunks)
  then show ?thesis by (simp only: concat_chunks)
qed

section \<open>Ordered rows\<close>

abbreviation rising :: "('a \<Rightarrow> 'b::linorder) \<Rightarrow> 'a list \<Rightarrow> bool" where
  "rising k \<equiv> sorted_wrt (\<lambda>a b. k a < k b)"

lemma rising_sort: "distinct (map k xs) \<Longrightarrow> rising k (sort_key k xs)"
proof -
  assume "distinct (map k xs)"
  then have "distinct (map k (sort_key k xs))" by (simp add: distinct_map)
  then have "sorted_wrt (<) (map k (sort_key k xs))" by (simp add: strict_sorted_iff del: distinct_map)
  then show ?thesis by (simp add: sorted_wrt_map)
qed

lemma rising_distinct: "rising k xs \<Longrightarrow> distinct (map k xs)"
proof -
  assume "rising k xs"
  then have "sorted_wrt (<) (map k xs)" by (simp add: sorted_wrt_map)
  then show ?thesis by (simp only: strict_sorted_iff)
qed

lemma rising_inj: "rising k xs \<Longrightarrow> inj_on k (set xs)"
  using rising_distinct [of k xs] by (simp add: distinct_map)

lemma rising_unique: "rising k xs \<Longrightarrow> rising k ys \<Longrightarrow> set xs = set ys \<Longrightarrow> xs = ys"
proof -
  assume a: "rising k xs" "rising k ys" "set xs = set ys"
  then have "map k xs = map k ys"
    by (intro strict_sorted_equal) (simp_all add: sorted_wrt_map)
  moreover have "inj_on k (set xs \<union> set ys)" using rising_inj [OF a(1)] a(3) by simp
  ultimately show ?thesis by (simp add: inj_on_map_eq_map)
qed

lemma rising_split: "rising k xs \<Longrightarrow> xs = filter (\<lambda>x. k x \<le> c) xs @ filter (\<lambda>x. \<not> k x \<le> c) xs"
proof (induction xs)
  case (Cons x xs)
  then show ?case
  proof (cases "k x \<le> c")
    case False
    with Cons.prems have none: "filter (\<lambda>y. k y \<le> c) xs = []" by (auto simp: filter_empty_conv)
    with Cons False show ?thesis by simp
  qed simp
qed simp

lemma rising_filter: "rising k xs \<Longrightarrow> rising k (filter P xs)"
  by (rule sorted_wrt_filter)

lemma merge_prefix:
  assumes dist: "distinct (map k (P @ S @ A))" and up: "rising k (P @ S)" and ne: "P \<noteq> []"
  shows "\<exists>X Y Z. sort_key k (P @ S @ A) = X @ Y \<and> sort_key k (P @ A) = X @ Z \<and> set P \<subseteq> set X"
proof -
  let ?m = "k (last P)"
  let ?full = "sort_key k (P @ S @ A)" and ?part = "sort_key k (P @ A)"
  have full: "rising k ?full" by (rule rising_sort [OF dist])
  have part: "rising k ?part" by (rule rising_sort) (use dist in auto)
  have P: "k x \<le> ?m" if "x \<in> set P" for x
  proof (cases "x = last P")
    case False
    have "P = butlast P @ [last P]" using ne by simp
    with up have "rising k (butlast P @ [last P])" by (metis sorted_wrt_append)
    moreover from that False ne have "x \<in> set (butlast P)" by (metis append_butlast_last_id in_set_butlastD in_set_conv_decomp_last
          append_Cons list.set_intros(1) rotate1.simps(2) set_ConsD set_rotate1)
    ultimately have "k x < ?m" by (simp add: sorted_wrt_append)
    then show ?thesis by simp
  qed simp
  have S: "\<not> k x \<le> ?m" if "x \<in> set S" for x
    using up that last_in_set [OF ne] by (auto simp: sorted_wrt_append not_le)
  have "filter (\<lambda>x. k x \<le> ?m) ?full = filter (\<lambda>x. k x \<le> ?m) ?part"
    by (rule rising_unique [OF rising_filter [OF full] rising_filter [OF part]]) (use S in auto)
  with rising_split [OF full, of ?m] have "?full = filter (\<lambda>x. k x \<le> ?m) ?part @ filter (\<lambda>x. \<not> k x \<le> ?m) ?full"
    by simp
  moreover note rising_split [OF part, of ?m]
  moreover have "set P \<subseteq> set (filter (\<lambda>x. k x \<le> ?m) ?part)" using P by auto
  ultimately show ?thesis by blast
qed

lemma total_size_subset:
  assumes "distinct xs" "distinct ys" "set xs \<subseteq> set ys"
  shows "total_size H xs \<le> total_size H ys" "length xs \<le> length ys"
proof -
  show "total_size H xs \<le> total_size H ys"
    unfolding total_size_def sum_list_distinct_conv_sum_set [OF assms(1)] sum_list_distinct_conv_sum_set [OF assms(2)]
    by (rule sum_mono2) (use assms in auto)
  show "length xs \<le> length ys"
    using card_mono [OF _ assms(3)] distinct_card [OF assms(1)] distinct_card [OF assms(2)] by simp
qed

section \<open>The catalog\<close>

text \<open>All that a search can find: stored rows in scope that are not live, and the live ones; newest first.\<close>

definition stored_rows :: "CatalogRecord list \<Rightarrow> ActiveNotification list \<Rightarrow> CatalogRecord list" where
  "stored_rows table active =
     filter (\<lambda>r. row_position r \<notin> set (map (\<lambda>n. (created_unix_ms n, nid n)) active)) (scope_rows table)"

definition found_rows :: "henv \<Rightarrow> CatalogRecord list \<Rightarrow> ActiveNotification list \<Rightarrow> string \<Rightarrow> Position option \<Rightarrow> CatalogRecord list" where
  "found_rows H table active query before =
     filter (row_matches H query before) (stored_rows table active @ map CatalogRecord_from active)"

definition catalog :: "henv \<Rightarrow> CatalogRecord list \<Rightarrow> ActiveNotification list \<Rightarrow> string \<Rightarrow> Position option \<Rightarrow> CatalogRecord list" where
  "catalog H table active query before = map settled (sort_key recency (found_rows H table active query before))"

definition table_ok :: "CatalogRecord list \<Rightarrow> ActiveNotification list \<Rightarrow> bool" where
  "table_ok table active \<longleftrightarrow> distinct (map row_position table) \<and> list_all (\<lambda>r. settled r = r) table
     \<and> distinct (map (\<lambda>n. (created_unix_ms n, nid n)) active)"

lemma row_settled [simp]:
  "recency (settled r) = recency r" "row_position (settled r) = row_position r"
  "Position_contains (cr_notification (settled r)) p = Position_contains (cr_notification r) p"
  by (simp_all add: settled_def recency_def newest_first_def row_position_def Position_contains_def)

lemma row_position_from [simp]: "row_position (CatalogRecord_from n) = (created_unix_ms n, nid n)"
  by (simp add: row_position_def CatalogRecord_from_def)

lemma recency_position: "recency r = (- int (fst (row_position r)), - int (snd (row_position r)))"
  by (simp add: recency_def newest_first_def row_position_def)

lemma recency_less: "recency r < recency s \<longleftrightarrow> row_position s < row_position r"
  by (auto simp: recency_position row_position_def)

lemma distinct_recency: "distinct (map recency rs) = distinct (map row_position rs)"
proof -
  have "inj (\<lambda>(c, i). (- int c, - int i))" by (auto simp: inj_on_def)
  moreover have "map recency rs = map (\<lambda>(c, i). (- int c, - int i)) (map row_position rs)"
    by (simp add: recency_position case_prod_beta)
  ultimately show ?thesis by (metis distinct_map inj_on_subset subset_UNIV)
qed

lemma scope_distinct: "distinct (map row_position table) \<Longrightarrow> distinct (map row_position (scope_rows table))"
proof -
  let ?s = "sort_key (\<lambda>r. - unwrap_or 0 (history_id r)) table"
  assume "distinct (map row_position table)"
  then have "distinct (map row_position ?s)" by (simp add: distinct_map)
  then show ?thesis unfolding scope_rows_def by (simp add: take_map [symmetric] distinct_take)
qed

lemma scope_subset: "set (scope_rows table) \<subseteq> set table"
  unfolding scope_rows_def by (metis set_sort set_take_subset)

lemma found_distinct: "table_ok table active \<Longrightarrow> distinct (map row_position (found_rows H table active q before))"
proof -
  assume ok: "table_ok table active"
  have "distinct (map row_position (stored_rows table active @ map CatalogRecord_from active))"
    using ok distinct_map_filter [OF scope_distinct [of table]]
    by (auto simp: table_ok_def stored_rows_def comp_def image_iff)
  then show ?thesis unfolding found_rows_def by (rule distinct_map_filter)
qed

lemma contains_empty [simp]: "contains_str [] s"
  by (cases s) (simp_all add: starts_with_def)

lemma row_matches_from:
  "row_matches H q before (CatalogRecord_from n) \<longleftrightarrow>
     (case before of None \<Rightarrow> True | Some p \<Rightarrow> Position_contains n p) \<and> contains_str q (search_text H n)"
  by (cases "q = []"; cases before) (simp_all add: row_matches_def CatalogRecord_from_def)

lemma history_ids_rows:
  assumes "table_ok table active"
  shows "history_ids H q before limit (map (\<lambda>n. (created_unix_ms n, nid n)) active) table =
    take (limit + 1) (sort_key recency (filter (row_matches H q before) (stored_rows table active)))"
proof -
  let ?ex = "map (\<lambda>n. (created_unix_ms n, nid n)) active"
  let ?hits = "filter (row_matches H q before) (scope_rows table)"
  let ?P = "\<lambda>r. row_position r \<notin> set ?ex"
  have "distinct (map row_position ?hits)"
    using assms scope_distinct by (auto simp: table_ok_def intro: distinct_map_filter)
  then have "distinct (map row_position (sort_key recency ?hits))" by (simp add: distinct_map)
  from excluded_few [OF this, of ?ex] have "length (filter (\<lambda>r. \<not> ?P r) (sort_key recency ?hits)) \<le> length ?ex" by simp
  from take_filter_take [OF this, of "limit + 1"] show ?thesis
    by (simp add: history_ids_def filter_sort stored_rows_def conj_commute)
qed

lemma fill_catalog:
  assumes ok: "table_ok table active"
    and P: "P @ S = sort_key recency (filter (row_matches H q before) (stored_rows table active))"
    and enough: "S = [] \<or> limit < length P \<or> PAGE_BYTES < total_size H P"
  shows "fill H limit (map settled (sort_key recency (P @ filter (row_matches H q before) (map CatalogRecord_from active)))) [] 0
    = fill H limit (catalog H table active q before) [] 0"
proof -
  let ?A = "filter (row_matches H q before) (map CatalogRecord_from active)"
  let ?stored = "filter (row_matches H q before) (stored_rows table active)"
  have found: "found_rows H table active q before = ?stored @ ?A" by (simp add: found_rows_def)
  have dist: "distinct (map recency (?stored @ ?A))" 
    unfolding distinct_recency found [symmetric] by (rule found_distinct [OF ok])
  have sets: "set (P @ S) = set ?stored" by (simp only: P set_sort)
  have "distinct (map recency (P @ S))" unfolding P using dist by (simp add: distinct_map)
  with dist sets have dist': "distinct (map recency (P @ S @ A))" if "A = ?A" for A
    using that by (simp only: append_assoc [symmetric] map_append distinct_append set_map set_append) blast
  have same: "sort_key recency (found_rows H table active q before) = sort_key recency (P @ S @ ?A)"
    unfolding found
    by (rule rising_unique [OF rising_sort [OF dist] rising_sort [OF dist' [OF refl]]]) (use sets in auto)
  show ?thesis
  proof (cases "S = []")
    case True
    with same show ?thesis by (simp add: catalog_def)
  next
    case False
    with enough have ne: "P \<noteq> []" by auto
    have "rising recency (P @ S)" unfolding P using dist by (intro rising_sort) simp
    from merge_prefix [OF dist' [OF refl] this ne] obtain X Y Z where
      x: "sort_key recency (P @ S @ ?A) = X @ Y" "sort_key recency (P @ ?A) = X @ Z" "set P \<subseteq> set X" by blast
    have "rising recency (X @ Y)" using rising_sort [OF dist' [OF refl]] x(1) by simp
    then have dX: "distinct (map recency (map settled X))"
      using rising_distinct [of recency X] by (simp add: sorted_wrt_append comp_def)
    have "set P \<subseteq> set table" using sets scope_subset by (auto simp: stored_rows_def)
    then have "map settled P = P" using ok by (intro map_idI) (auto simp: table_ok_def list_all_iff)
    moreover have "set (map settled P) \<subseteq> set (map settled X)" using x(3) by auto
    ultimately have sub: "set P \<subseteq> set (map settled X)" by simp
    have "distinct P" using dist' [OF refl] by (auto simp: distinct_map)
    moreover have "distinct (map settled X)" using dX by (simp only: distinct_map)
    ultimately have le: "total_size H P \<le> total_size H (map settled X)" "length P \<le> length (map settled X)"
      using total_size_subset [of P "map settled X"] sub by blast+
    from enough False le have stop: "limit < length ([] :: CatalogRecord list) + length (map settled X) \<or> PAGE_BYTES < 0 + total_size H (map settled X)"
      by auto
    have "fill H limit (map settled X @ ys) [] 0 = fill H limit (map settled X) [] 0" for ys
      by (rule fill_stops [OF _ _ stop]) simp_all
    then show ?thesis by (simp add: catalog_def same x)
  qed
qed

text \<open>The position of a row as the cursor keeps it.\<close>

definition row_cursor :: "CatalogRecord \<Rightarrow> Position" where
  "row_cursor r = \<lparr>ps_created = created_unix_ms (cr_notification r), ps_id = nid (cr_notification r)\<rparr>"

lemma before_row: "Position_contains (cr_notification r) (row_cursor s) \<longleftrightarrow> recency s < recency r"
  by (simp add: Position_contains_def row_cursor_def recency_less row_position_def)

lemma catalog_before:
  "catalog H table active q (Some p) = filter (\<lambda>r. Position_contains (cr_notification r) p) (catalog H table active q None)"
proof -
  have "row_matches H q (Some p) = (\<lambda>r. row_matches H q None r \<and> Position_contains (cr_notification r) p)"
    by (auto simp: row_matches_def)
  then show ?thesis
    by (simp add: catalog_def found_rows_def filter_sort filter_map comp_def conj_commute filter_filter [symmetric] del: filter_filter)
      (simp add: conj_commute)
qed

lemma catalog_rising: "table_ok table active \<Longrightarrow> rising recency (catalog H table active q before)"
proof -
  assume "table_ok table active"
  from found_distinct [OF this] have "distinct (map recency (found_rows H table active q before))"
    by (simp only: distinct_recency)
  from rising_sort [OF this] show ?thesis by (simp add: catalog_def sorted_wrt_map)
qed

lemma rising_after: "rising k (xs @ ys) \<Longrightarrow> xs \<noteq> [] \<Longrightarrow> filter (\<lambda>r. k (last xs) < k r) (xs @ ys) = ys"
proof -
  assume up: "rising k (xs @ ys)" and ne: "xs \<noteq> []"
  then obtain zs z where xs: "xs = zs @ [z]" by (metis append_butlast_last_id)
  with up show ?thesis by (auto simp: sorted_wrt_append filter_empty_conv filter_id_conv)
qed

lemma catalog_after:
  assumes ok: "table_ok table active" and cat: "catalog H table active q before = xs @ ys" and ne: "xs \<noteq> []"
  shows "catalog H table active q (Some (row_cursor (last xs))) = ys"
proof -
  let ?all = "catalog H table active q None"
  have after: "filter (\<lambda>r. recency (last xs) < recency r) (xs @ ys) = ys"
    using rising_after [of recency xs ys] catalog_rising [OF ok, of H q before] cat ne by simp
  have "filter (\<lambda>r. recency (last xs) < recency r) ?all = filter (\<lambda>r. recency (last xs) < recency r) (xs @ ys)"
  proof (cases before)
    case None
    with cat show ?thesis by simp
  next
    case (Some b)
    with cat have xy: "xs @ ys = filter (\<lambda>r. Position_contains (cr_notification r) b) ?all" by (simp add: catalog_before)
    have "last xs \<in> set (xs @ ys)" using ne by simp
    then have "Position_contains (cr_notification (last xs)) b" unfolding xy by simp
    then have "Position_contains (cr_notification r) b" if "recency (last xs) < recency r" for r
      using that by (auto simp: Position_contains_def recency_less row_position_def)
    then show ?thesis unfolding xy by (simp add: conj_absorb) (metis (no_types, lifting))
  qed
  with after show ?thesis by (simp add: catalog_before before_row)
qed

lemma store_query_prefix:
  assumes ok: "table_ok table active"
    and s: "store_query H q before limit (map (\<lambda>n. (created_unix_ms n, nid n)) active) table = Inr P"
  shows "\<exists>S. P @ S = sort_key recency (filter (row_matches H q before) (stored_rows table active))
    \<and> (S = [] \<or> limit < length P \<or> PAGE_BYTES < total_size H P)"
proof -
  let ?S = "sort_key recency (filter (row_matches H q before) (stored_rows table active))"
  from s have "hydrate H (chunks 8 (take (limit + 1) ?S)) 0 = Inr P"
    by (auto simp: store_query_def and_then_Ok_iff history_ids_rows [OF ok])
  from hydrate_prefix [OF this] obtain rest where r: "take (limit + 1) ?S = P @ rest"
    "rest = [] \<or> PAGE_BYTES < total_size H P" by auto
  have "?S = P @ (rest @ drop (limit + 1) ?S)" using r(1) append_take_drop_id [of "limit + 1" ?S] by simp
  moreover have "rest @ drop (limit + 1) ?S = [] \<or> limit < length P" if "rest = []"
    using r(1) that by (cases "length ?S \<le> limit + 1") (auto dest: arg_cong [where f = length])
  ultimately show ?thesis using r(2) by metis
qed

section \<open>Walking through the history\<close>

lemma page_step:
  assumes fill: "fill H (hq_limit query) (catalog H table active (hq_query query) before) [] 0 =
      fill H (hq_limit query) (map settled (sort_key recency (P @ filter (row_matches H (hq_query query) before)
        (map CatalogRecord_from active)))) [] 0"
    and pg: "page H P active query before epoch revision now = Inr pg"
  shows "\<exists>rest. catalog H table active (hq_query query) before = hp_records pg @ rest
    \<and> (if rest = [] then next_cursor pg = None
       else hp_records pg \<noteq> [] \<and> (\<exists>tok. next_cursor pg = Some tok
         \<and> encode_cursor H (cursor_at epoch revision (hq_query query) now (last (hp_records pg))) = Inr tok))"
proof -
  have A: "map CatalogRecord_from (filter (\<lambda>n. (case before of None \<Rightarrow> True | Some p \<Rightarrow> Position_contains n p)
      \<and> contains_str (hq_query query) (search_text H n)) active) =
      filter (row_matches H (hq_query query) before) (map CatalogRecord_from active)"
    by (simp add: filter_map comp_def row_matches_from)
  from pg obtain recs left where f: "fill H (hq_limit query) (catalog H table active (hq_query query) before) [] 0 = Inr (recs, left)"
    and r: "hp_records pg = recs"
      "if left then (\<exists>tok. encode_cursor H (cursor_at epoch revision (hq_query query) now (last recs)) = Inr tok \<and> next_cursor pg = Some tok)
       else next_cursor pg = None"
    unfolding page_def A fill by (auto simp: Let_def hbind_Inr unavailable_def split: if_splits sum.splits)
  from fill_prefix [OF f] r show ?thesis by (auto split: if_splits)
qed

lemma fill_total:
  "\<forall>r\<in>set xs. \<exists>n\<le>PAGE_BYTES. record_len H r = Inr n \<Longrightarrow> (records = [] \<Longrightarrow> b = 0 \<and> 0 < limit) \<Longrightarrow>
   \<exists>out. fill H limit xs records b = Inr out"
proof (induction xs arbitrary: records b)
  case (Cons r xs)
  from Cons.prems(1) obtain n where n: "record_len H r = Inr n" "n \<le> PAGE_BYTES" by auto
  have "\<exists>out. fill H limit xs (records @ [r]) (b + n) = Inr out" by (rule Cons.IH) (use Cons.prems(1) in auto)
  with n Cons.prems(2) show ?case by auto
qed (auto intro: exI [of _ False])

lemma take_bytes_total:
  "\<forall>r\<in>set xs. \<exists>n. record_len H r = Inr n \<Longrightarrow> \<exists>out b' stop. take_bytes H xs b = Inr (out, b', stop)"
proof (induction xs arbitrary: b)
  case (Cons r xs)
  then obtain n where n: "record_len H r = Inr n" by auto
  from Cons obtain out b' stop where "take_bytes H xs (b + n) = Inr (out, b', stop)" by (metis list.set_intros(2))
  with n show ?case by auto
qed (auto intro: exI [of _ False])

lemma hydrate_total:
  "\<forall>c\<in>set cs. \<forall>r\<in>set c. (\<exists>n. record_len H r = Inr n) \<and> (\<exists>n\<le>PAGE_BYTES. notification_len H (cr_notification r) = Inr n) \<Longrightarrow>
   \<exists>out. hydrate H cs b = Inr out"
proof (induction cs arbitrary: b)
  case (Cons c cs)
  have "records_of H c = Inr c" using Cons.prems by (force simp: records_of_def list_all_iff)
  moreover obtain out b' stop where "take_bytes H c b = Inr (out, b', stop)"
    using take_bytes_total [of c H b] Cons.prems by auto
  moreover obtain out2 where "hydrate H cs b' = Inr out2" using Cons.IH [of b'] Cons.prems by auto
  ultimately show ?case by auto
qed simp

definition history_readable ::
  "henv \<Rightarrow> string \<Rightarrow> nat \<Rightarrow> string \<Rightarrow> CatalogRecord list \<Rightarrow> ActiveNotification list \<Rightarrow> (nat \<Rightarrow> nat) \<Rightarrow> bool" where
  "history_readable H epoch revision q table active clock \<longleftrightarrow> table_ok table active
     \<and> (\<forall>r\<in>set (scope_rows table). \<exists>n\<le>PAGE_BYTES. notification_len H (cr_notification r) = Inr n)
     \<and> (\<forall>r\<in>set (catalog H table active q None). (\<exists>n\<le>PAGE_BYTES. record_len H r = Inr n)
          \<and> \<not> Position_invalid (row_cursor r)
          \<and> (\<forall>i. \<exists>tok. encode_cursor H (cursor_at epoch revision q (clock i) r) = Inr tok \<and> length tok \<le> 8192
               \<and> decode_cursor H tok = Some (cursor_at epoch revision q (clock i) r)))
     \<and> (\<forall>i. clock i \<le> clock (Suc i) \<and> clock (Suc i) < saturating_add_u64 (clock i) CURSOR_TTL_MS)"

lemma catalog_subset: "set (catalog H table active q before) \<subseteq> set (catalog H table active q None)"
  by (cases before) (auto simp: catalog_before)

lemma stored_in_catalog:
  assumes "table_ok table active" "r \<in> set (stored_rows table active)" "row_matches H q before r"
  shows "r \<in> set (catalog H table active q before)"
proof -
  have "settled r = r" using assms(1,2) scope_subset by (auto simp: table_ok_def stored_rows_def list_all_iff)
  moreover have "r \<in> set (found_rows H table active q before)" using assms(2,3) by (simp add: found_rows_def)
  ultimately show ?thesis by (force simp: catalog_def)
qed

definition stored_table :: "CatalogRecord list result option \<Rightarrow> CatalogRecord list \<Rightarrow> bool" where
  "stored_table store table \<longleftrightarrow> store = Some (Inr table) \<or> (store = None \<and> table = [])"

lemma readable_row:
  assumes "history_readable H epoch revision q table active clock" "r \<in> set (catalog H table active q before)"
  shows "\<exists>n\<le>PAGE_BYTES. record_len H r = Inr n" "\<not> Position_invalid (row_cursor r)"
    "\<exists>tok. encode_cursor H (cursor_at epoch revision q (clock i) r) = Inr tok \<and> length tok \<le> 8192
       \<and> decode_cursor H tok = Some (cursor_at epoch revision q (clock i) r)"
proof -
  have "r \<in> set (catalog H table active q None)" using assms(2) catalog_subset by blast
  with assms(1) show "\<exists>n\<le>PAGE_BYTES. record_len H r = Inr n" "\<not> Position_invalid (row_cursor r)"
    "\<exists>tok. encode_cursor H (cursor_at epoch revision q (clock i) r) = Inr tok \<and> length tok \<le> 8192
       \<and> decode_cursor H tok = Some (cursor_at epoch revision q (clock i) r)"
    unfolding history_readable_def by blast+
qed

lemma readable_clock:
  assumes "history_readable H epoch revision q table active clock"
  shows "clock i \<le> clock (Suc i)" "clock (Suc i) < saturating_add_u64 (clock i) CURSOR_TTL_MS"
  using assms unfolding history_readable_def by blast+

lemma store_read:
  assumes read: "history_readable H epoch revision q table active clock" and store: "stored_table store table"
    and lim: "1 \<le> limit" "limit \<le> MAX_PAGE"
  shows "\<exists>P S. (case store of Some table \<Rightarrow> unavailable (and_then table (store_query H q before limit
        (map (\<lambda>n. (created_unix_ms n, nid n)) active))) | None \<Rightarrow> Inr []) = Inr P
    \<and> P @ S = sort_key recency (filter (row_matches H q before) (stored_rows table active))
    \<and> (S = [] \<or> limit < length P \<or> PAGE_BYTES < total_size H P)"
proof (cases store)
  case None
  with store show ?thesis by (auto simp: stored_table_def stored_rows_def scope_rows_def)
next
  case (Some t)
  with store have t: "store = Some (Inr table)" by (simp add: stored_table_def)
  from read have ok: "table_ok table active" by (simp add: history_readable_def)
  let ?ids = "history_ids H q before limit (map (\<lambda>n. (created_unix_ms n, nid n)) active) table"
  have ids: "r \<in> set (stored_rows table active) \<and> row_matches H q before r" if "r \<in> set ?ids" for r
    using that set_take_subset unfolding history_ids_rows [OF ok] by fastforce
  have "(\<exists>n. record_len H r = Inr n) \<and> (\<exists>n\<le>PAGE_BYTES. notification_len H (cr_notification r) = Inr n)" if "r \<in> set ?ids" for r
  proof
    from ids [OF that] have "r \<in> set (catalog H table active q before)" using stored_in_catalog [OF ok] by blast
    from readable_row(1) [OF read this] show "\<exists>n. record_len H r = Inr n" by blast
    from ids [OF that] have "r \<in> set (scope_rows table)" by (simp add: stored_rows_def)
    with read show "\<exists>n\<le>PAGE_BYTES. notification_len H (cr_notification r) = Inr n" by (simp add: history_readable_def)
  qed
  moreover have "r \<in> set ?ids" if "c \<in> set (chunks 8 ?ids)" "r \<in> set c" for c r
    using that by (rule chunk_mem)
  ultimately have "\<exists>out. hydrate H (chunks 8 ?ids) 0 = Inr out" by (intro hydrate_total) blast
  then obtain P where "store_query H q before limit (map (\<lambda>n. (created_unix_ms n, nid n)) active) table = Inr P"
    using lim by (auto simp: store_query_def)
  with store_query_prefix [OF ok this] t show ?thesis by auto
qed

lemma page_total:
  assumes fill: "fill H (hq_limit query) xs [] 0 =
      fill H (hq_limit query) (map settled (sort_key recency (P @ filter (row_matches H (hq_query query) before)
        (map CatalogRecord_from active)))) [] 0"
    and lim: "1 \<le> hq_limit query" and fits: "\<And>r. r \<in> set xs \<Longrightarrow> \<exists>n\<le>PAGE_BYTES. record_len H r = Inr n"
    and enc: "\<And>r. r \<in> set xs \<Longrightarrow> \<exists>tok. encode_cursor H (cursor_at epoch revision (hq_query query) now r) = Inr tok"
  shows "\<exists>pg. page H P active query before epoch revision now = Inr pg"
proof -
  have A: "map CatalogRecord_from (filter (\<lambda>n. (case before of None \<Rightarrow> True | Some p \<Rightarrow> Position_contains n p)
      \<and> contains_str (hq_query query) (search_text H n)) active) =
      filter (row_matches H (hq_query query) before) (map CatalogRecord_from active)"
    by (simp add: filter_map comp_def row_matches_from)
  from fill_total [of xs H "[]" 0 "hq_limit query"] fits lim obtain recs left where
    f: "fill H (hq_limit query) xs [] 0 = Inr (recs, left)" by (metis One_nat_def less_eq_Suc_le surj_pair)
  from fill_prefix [OF f] have "left \<Longrightarrow> recs \<noteq> [] \<and> set recs \<subseteq> set xs" by auto
  then have "left \<Longrightarrow> last recs \<in> set xs" by (meson last_in_set subsetD)
  with enc [of "last recs"] obtain tok where
    "left \<Longrightarrow> encode_cursor H (cursor_at epoch revision (hq_query query) now (last recs)) = Inr tok" by blast
  with f show ?thesis unfolding page_def A Let_def fill [symmetric] by (cases left) simp_all
qed

text \<open>One request, at any position, succeeds and returns the next stretch of the catalog.\<close>

lemma query_history_step:
  assumes read: "history_readable H epoch revision (hq_query query) table active clock"
    and snap: "catalog_snapshot d = (revision, active)" and store: "stored_table store table"
    and q: "HistoryQuery_normalize H query0 = Inr query" "HistoryQuery_position H epoch revision (clock i) query = Inr before"
  shows "\<exists>pg rest. query_history H epoch True store (clock i) d query0 = Inr pg
    \<and> catalog H table active (hq_query query) before = hp_records pg @ rest
    \<and> (if rest = [] then next_cursor pg = None
       else hp_records pg \<noteq> [] \<and> (\<exists>tok. next_cursor pg = Some tok \<and> length tok \<le> 8192
         \<and> decode_cursor H tok = Some (cursor_at epoch revision (hq_query query) (clock i) (last (hp_records pg)))))"
proof -
  let ?q = "hq_query query"
  from read have ok: "table_ok table active" by (simp add: history_readable_def)
  have lim: "1 \<le> hq_limit query" "hq_limit query \<le> MAX_PAGE"
    using q(1) by (auto simp: HistoryQuery_normalize_def hbind_Inr split: if_splits)
  from store_read [OF read store lim, of before] obtain P S where
    P: "(case store of Some table \<Rightarrow> unavailable (and_then table (store_query H ?q before (hq_limit query)
        (map (\<lambda>n. (created_unix_ms n, nid n)) active))) | None \<Rightarrow> Inr []) = Inr P"
    and S: "P @ S = sort_key recency (filter (row_matches H ?q before) (stored_rows table active))"
      "S = [] \<or> hq_limit query < length P \<or> PAGE_BYTES < total_size H P" by blast
  note fill = fill_catalog [OF ok S, symmetric]
  have run: "query_history H epoch True store (clock i) d query0 = page H P active query before epoch revision (clock i)"
    using q snap P by (simp add: query_history_def)
  obtain pg where pg: "page H P active query before epoch revision (clock i) = Inr pg"
    using page_total [OF fill lim(1)] readable_row(1) [OF read] readable_row(3) [OF read] by meson
  from page_step [OF fill pg] obtain rest where r: "catalog H table active ?q before = hp_records pg @ rest"
    "if rest = [] then next_cursor pg = None else hp_records pg \<noteq> [] \<and> (\<exists>tok. next_cursor pg = Some tok
       \<and> encode_cursor H (cursor_at epoch revision ?q (clock i) (last (hp_records pg))) = Inr tok)" by blast
  have "length tok \<le> 8192 \<and> decode_cursor H tok = Some (cursor_at epoch revision ?q (clock i) (last (hp_records pg)))"
    if "hp_records pg \<noteq> []" "encode_cursor H (cursor_at epoch revision ?q (clock i) (last (hp_records pg))) = Inr tok" for tok
  proof -
    have "last (hp_records pg) \<in> set (catalog H table active ?q before)" using r(1) that(1) by simp
    from readable_row(3) [OF read this, of i] that(2) show ?thesis by auto
  qed
  with run pg r show ?thesis by (intro exI [of _ pg] exI [of _ rest]) (auto split: if_splits)
qed

lemma cursor_accepted:
  assumes "length tok \<le> 8192" "decode_cursor H tok = Some (cursor_at epoch revision (hq_query query) t r)"
    "hq_cursor query = Some tok" "t \<le> now" "now < saturating_add_u64 t CURSOR_TTL_MS" "\<not> Position_invalid (row_cursor r)"
  shows "HistoryQuery_position H epoch revision now query = Inr (Some (row_cursor r))"
  using assms saturating_add_u64_mono [OF assms(4), of CURSOR_TTL_MS]
  by (simp add: HistoryQuery_position_def cursor_at_def row_cursor_def)

lemma normalize_cursor:
  "HistoryQuery_normalize H query0 = Inr query \<Longrightarrow>
   HistoryQuery_normalize H (query0\<lparr>hq_cursor := c\<rparr>) = Inr (query\<lparr>hq_cursor := c\<rparr>)"
  by (auto simp: HistoryQuery_normalize_def hbind_Inr split: if_splits option.splits)

text \<open>A client that follows the cursors until there is none; the i-th request is made at time \<open>clock i\<close>.\<close>

fun walk ::
  "henv \<Rightarrow> string \<Rightarrow> CatalogRecord list result option \<Rightarrow> EngineData \<Rightarrow> (nat \<Rightarrow> nat) \<Rightarrow> nat \<Rightarrow> nat \<Rightarrow> HistoryQuery
   \<Rightarrow> CatalogRecord list hresult option" where
  "walk H epoch store d clock 0 i query = None"
| "walk H epoch store d clock (Suc fuel) i query =
     (case query_history H epoch True store (clock i) d query of
        Inl e \<Rightarrow> Some (Inl e)
      | Inr pg \<Rightarrow> (case next_cursor pg of
          None \<Rightarrow> Some (Inr (hp_records pg))
        | Some tok \<Rightarrow> map_option (map_sum id ((@) (hp_records pg)))
            (walk H epoch store d clock fuel (Suc i) (query\<lparr>hq_cursor := Some tok\<rparr>))))"

lemma walk_from:
  assumes read: "history_readable H epoch revision (hq_query query) table active clock"
    and snap: "catalog_snapshot d = (revision, active)" and store: "stored_table store table"
  shows "HistoryQuery_normalize H query0 = Inr query \<Longrightarrow>
    HistoryQuery_position H epoch revision (clock i) query = Inr before \<Longrightarrow>
    length (catalog H table active (hq_query query) before) < fuel \<Longrightarrow>
    walk H epoch store d clock fuel i query0 = Some (Inr (catalog H table active (hq_query query) before))"
  using read
proof (induction fuel arbitrary: i query0 query before)
  case (Suc fuel)
  note q = Suc.prems(1,2) and read = Suc.prems(4)
  let ?q = "hq_query query"
  from query_history_step [OF read snap store q] obtain pg rest where
    pg: "query_history H epoch True store (clock i) d query0 = Inr pg"
    and cat: "catalog H table active ?q before = hp_records pg @ rest"
    and cur: "if rest = [] then next_cursor pg = None
       else hp_records pg \<noteq> [] \<and> (\<exists>tok. next_cursor pg = Some tok \<and> length tok \<le> 8192
         \<and> decode_cursor H tok = Some (cursor_at epoch revision ?q (clock i) (last (hp_records pg))))" by blast
  show ?case
  proof (cases "rest = []")
    case True
    with pg cat cur show ?thesis by simp
  next
    case False
    with cur obtain tok where ne: "hp_records pg \<noteq> []" and tok: "next_cursor pg = Some tok" "length tok \<le> 8192"
      "decode_cursor H tok = Some (cursor_at epoch revision ?q (clock i) (last (hp_records pg)))" by auto
    let ?query = "query\<lparr>hq_cursor := Some tok\<rparr>" and ?p = "row_cursor (last (hp_records pg))"
    have last: "last (hp_records pg) \<in> set (catalog H table active ?q before)" using cat ne by simp
    have pos: "HistoryQuery_position H epoch revision (clock (Suc i)) ?query = Inr (Some ?p)"
      by (rule cursor_accepted [OF tok(2) _ _ readable_clock [OF read] readable_row(2) [OF read last]]) (simp_all add: tok(3))
    have "table_ok table active" using read by (simp add: history_readable_def)
    from catalog_after [OF this cat ne] have after: "catalog H table active ?q (Some ?p) = rest" .
    have "length rest < fuel" using cat ne Suc.prems(3) by (cases "hp_records pg") auto
    with Suc.IH [OF normalize_cursor [OF q(1)] pos] after read
    have "walk H epoch store d clock fuel (Suc i) (query0\<lparr>hq_cursor := Some tok\<rparr>) = Some (Inr rest)" by simp
    with pg tok cat show ?thesis by simp
  qed
qed simp

text \<open>
  C8. Reading the history page by page is reading the whole catalog. A client that follows the cursors at one
  revision, each within its lifetime, needs at most one request more than there are records and then has every
  record that matches the search: the stored ones in scope that are not live and the live ones, newest first,
  none missing, none twice. This holds whatever the page limit, wherever the byte budget of a page or of the
  store's read cuts in, and however many live rows the store has to skip, provided every record fits a page by
  itself and the JSON encoder reads back the cursors it writes.
\<close>

theorem history_walk_complete:
  assumes "history_readable H epoch revision (hq_query query) table active clock"
    and "catalog_snapshot d = (revision, active)" and "stored_table store table"
    and "HistoryQuery_normalize H query0 = Inr query" and "hq_cursor query0 = None"
    and "length (catalog H table active (hq_query query) None) < fuel"
  shows "walk H epoch store d clock fuel 0 query0 = Some (Inr (catalog H table active (hq_query query) None))"
proof -
  have "hq_cursor query = None" using assms(4,5) by (auto simp: HistoryQuery_normalize_def hbind_Inr split: if_splits)
  then have "HistoryQuery_position H epoch revision (clock 0) query = Inr None" by (simp add: HistoryQuery_position_def)
  from walk_from [OF assms(1-4) this assms(6)] show ?thesis .
qed

text \<open>Two stored rows, read one at a time.\<close>

definition example_row :: "nat \<Rightarrow> CatalogRecord" where
  "example_row n = settled \<lparr>history_id = Some (int n), cr_notification = toast_example n,
     cr_closed_unix_ms = Some 9, cr_close_reason = Some DISMISSED\<rparr>"

definition example_json :: henv where
  "example_json = \<lparr>lowercase = (\<lambda>s. s), record_len = (\<lambda>_. Ok 100), notification_len = (\<lambda>_. Ok 90),
     encode_cursor = (\<lambda>c. Ok (if ps_id (cu_before c) = 1 then ''a'' else ''b'')),
     decode_cursor = (\<lambda>s. Some (cursor_at ''e'' 0 [] 5 (example_row (if s = ''a'' then 1 else 2))))\<rparr>"

definition example_query :: HistoryQuery where
  "example_query = \<lparr>hq_query = [], hq_cursor = None, hq_anchor = None, hq_limit = 1\<rparr>"

lemma example_row_facts:
  "row_position (example_row n) = (n, n)" "recency (example_row n) = (- int n, - int n)" "settled (example_row n) = example_row n"
  "row_cursor (example_row n) = \<lparr>ps_created = n, ps_id = n\<rparr>"
  "history_id (example_row n) = Some (int n)" "row_matches H [] None (example_row n)"
  by (simp_all add: example_row_def settled_def row_position_def recency_def newest_first_def toast_example_def
      row_cursor_def row_matches_def)

lemma example_catalog: "catalog H [example_row 1, example_row 2] [] [] None = [example_row 2, example_row 1]"
  by (simp add: catalog_def found_rows_def stored_rows_def scope_rows_def SCOPE_LIMIT_def example_row_facts)

lemma example_readable:
  "history_readable example_json ''e'' 0 [] [example_row 1, example_row 2] [] (\<lambda>_. 5)"
proof -
  have "table_ok [example_row 1, example_row 2] []" by (simp add: table_ok_def example_row_facts)
  moreover have "ps_id (cu_before (cursor_at ''e'' 0 [] 5 (example_row n))) = n" for n
    using example_row_facts(4) [of n] by (simp add: cursor_at_def row_cursor_def)
  ultimately show ?thesis
    unfolding history_readable_def example_catalog
    by (simp add: example_json_def PAGE_BYTES_def Position_invalid_def I64_LIMIT_def example_row_facts
        saturating_add_u64_def U64_MAX_def CURSOR_TTL_MS_def)
qed

lemma example_normalized: "HistoryQuery_normalize example_json example_query = Inr example_query"
  by (simp add: HistoryQuery_normalize_def normalize_search_def example_query_def example_json_def MAX_PAGE_def trim_def)

theorem history_walk_complete_witness:
  "walk example_json ''e'' (Some (Inr [example_row 1, example_row 2]))
     (en_data (engine_fresh 0 0 False None [] Settings_default)) (\<lambda>_. 5) 3 0 example_query =
   Some (Inr [example_row 2, example_row 1])"
proof -
  have q: "hq_query example_query = []" by (simp add: example_query_def)
  have "walk example_json ''e'' (Some (Inr [example_row 1, example_row 2]))
     (en_data (engine_fresh 0 0 False None [] Settings_default)) (\<lambda>_. 5) 3 0 example_query =
   Some (Inr (catalog example_json [example_row 1, example_row 2] [] (hq_query example_query) None))"
  proof (rule history_walk_complete [where revision = 0])
    show "history_readable example_json ''e'' 0 (hq_query example_query) [example_row 1, example_row 2] [] (\<lambda>_. 5)"
      unfolding q by (rule example_readable)
    show "length (catalog example_json [example_row 1, example_row 2] [] (hq_query example_query) None) < 3"
      unfolding q example_catalog by simp
    show "HistoryQuery_normalize example_json example_query = Inr example_query" by (rule example_normalized)
  qed (simp_all add: stored_table_def catalog_snapshot_def engine_fresh_def example_query_def)
  then show ?thesis unfolding q example_catalog .
qed

lemma show_nat_nonempty [simp]: "show_nat n \<noteq> []"
  by (simp add: show_nat.simps [of n])

lemma show_nat_inj: "show_nat m = show_nat n \<Longrightarrow> m = n"
proof (induction m arbitrary: n rule: less_induct)
  case (less m)
  have digit: "j = k" if "char_of (48 + j :: nat) = (char_of (48 + k :: nat) :: char)" "j < 10" "k < 10" for j k
    using arg_cong [OF that(1), of "of_char :: char \<Rightarrow> nat"] that(2,3) by simp
  show ?case
  proof (cases "m < 10 \<or> n < 10")
    case True
    with less.prems digit [of m n] show ?thesis
      by (cases "m < 10"; cases "n < 10") (simp_all add: show_nat.simps [of m] show_nat.simps [of n] Cons_eq_append_conv append_eq_Cons_conv)
  next
    case False
    with less.prems have "show_nat (m div 10) = show_nat (n div 10)" "m mod 10 = n mod 10"
      using digit [of "m mod 10" "n mod 10"] by (simp_all add: show_nat.simps [of m] show_nat.simps [of n])
    with less.IH [of "m div 10" "n div 10"] False show ?thesis by (metis div_less_dividend div_mod_decomp not_less
          one_less_numeral_iff semiring_norm(76) zero_less_iff_neq_zero less_numeral_extra(1) zero_less_numeral)
  qed
qed

text \<open>
  A cursor is good for exactly the history it was made for. A cursor read back by the JSON decoder as it
  was written is accepted if and only if the daemon, the revision and the search are the ones it was made for
  and it is used before it expires; it then stands for the position of the last record of its page. In every
  other case the request is refused as stale, never answered from the wrong place.
\<close>

theorem cursor_roundtrip:
  assumes "encode_cursor H (cursor_at epoch revision q made r) = Inr tok" and "length tok \<le> 8192"
    and "decode_cursor H tok = Some (cursor_at epoch revision q made r)"
    and "\<not> Position_invalid (row_cursor r)" and "hq_cursor query = Some tok" and "made \<le> now"
  shows "HistoryQuery_position H epoch' revision' now query =
    (if epoch' = epoch \<and> revision' = revision \<and> hq_query query = q \<and> now < saturating_add_u64 made CURSOR_TTL_MS
     then Inr (Some (row_cursor r)) else Inl Stale)"
  using assms saturating_add_u64_mono [OF assms(6), of CURSOR_TTL_MS]
  by (auto simp: HistoryQuery_position_def cursor_at_def row_cursor_def dest: show_nat_inj)

theorem cursor_roundtrip_witness:
  "HistoryQuery_position example_json ''e'' 0 6 (example_query\<lparr>hq_cursor := Some ''b''\<rparr>) = Inr (Some \<lparr>ps_created = 2, ps_id = 2\<rparr>)
   \<and> HistoryQuery_position example_json ''e'' 1 6 (example_query\<lparr>hq_cursor := Some ''b''\<rparr>) = Inl Stale"
proof -
  have e: "encode_cursor example_json (cursor_at ''e'' 0 [] 5 (example_row 2)) = Inr ''b''"
    using example_row_facts(4) [of 2] by (simp add: example_json_def cursor_at_def row_cursor_def)
  have d: "decode_cursor example_json ''b'' = Some (cursor_at ''e'' 0 [] 5 (example_row 2))" by (simp add: example_json_def)
  have v: "\<not> Position_invalid (row_cursor (example_row 2))" by (simp add: example_row_facts Position_invalid_def I64_LIMIT_def)
  from cursor_roundtrip [OF e _ d v, of "example_query\<lparr>hq_cursor := Some ''b''\<rparr>" 6] show ?thesis
    by (simp add: example_row_facts example_query_def saturating_add_u64_def U64_MAX_def CURSOR_TTL_MS_def)
qed

end
