(* ===== verification/Notification_Center.thy ===== *)
theory Notification_Center
  imports Notification_History
begin

text \<open>
  The notification center: \<open>activity/notifications/center.rs\<close> (applications and the rows of one),
  \<open>activity/notifications/timeline.rs\<close> (date buckets and stacks of repeats) and the query that serves them in
  \<open>engine.rs\<close>, \<open>storage.rs\<close> and \<open>persistence.rs\<close>. The calendar library, the JSON encoder and Unicode lower-casing
  are parameters.
\<close>

section \<open>Characters of a UTF-8 string\<close>

definition continuation :: "char \<Rightarrow> bool" where
  "continuation c \<longleftrightarrow> of_char c div (64::nat) = 2"

definition chars_count :: "string \<Rightarrow> nat" where
  "chars_count s = length (filter (\<lambda>c. \<not> continuation c) s)"

fun clip :: "nat \<Rightarrow> string \<Rightarrow> string" where
  "clip limit [] = []"
| "clip limit (c # s) =
     (if continuation c then c # clip limit s
      else case limit of 0 \<Rightarrow> [] | Suc k \<Rightarrow> c # clip k s)"

section \<open>Queries\<close>

definition INDEX_SIZE :: nat where "INDEX_SIZE = 5"
definition APP_PAGE_SIZE :: nat where "APP_PAGE_SIZE = 50"
definition WINDOW :: nat where "WINDOW = 20"
definition STACK_LIMIT :: nat where "STACK_LIMIT = 50"

record CenterQuery =
  cq_view :: string
  cq_query :: string
  cq_offset :: nat
  cq_epoch :: "string option"
  cq_revision :: "string option"
  app_anchor :: "string option"
  cq_app_key :: "string option"
  cq_page :: nat
  page_anchor :: "Position option"
  cq_selected :: "Position option"
  cq_group_key :: "string option"
  cq_date :: "string option"
  period_groups :: bool
  cq_period_day :: "string option"
  timeline_anchor :: "string option"
  group_similar :: bool

definition over :: "nat \<Rightarrow> string option \<Rightarrow> bool" where
  "over limit s = (case s of Some s \<Rightarrow> length s > limit | None \<Rightarrow> False)"

definition CenterQuery_normalize :: "henv \<Rightarrow> CenterQuery \<Rightarrow> CenterQuery hresult" where
  "CenterQuery_normalize H self =
     (if cq_view self \<notin> {''apps'', ''app'', ''timeline''}
         \<or> cq_offset self > 5200
         \<or> over 10 (cq_date self) \<or> over 10 (cq_period_day self)
         \<or> period_groups self \<and> (case cq_date self of
             Some s \<Rightarrow> s \<notin> {''today'', ''week'', ''month'', ''older''} | None \<Rightarrow> False)
         \<or> over 64 (timeline_anchor self)
         \<or> cq_page self = 0 \<or> cq_page self > 1040
         \<or> over 4096 (cq_app_key self) \<or> over 4096 (app_anchor self) \<or> over 4096 (cq_group_key self)
         \<or> (case cq_selected self of Some p \<Rightarrow> ps_id p = 0 \<or> ps_created p = 0 | None \<Rightarrow> False) then Inl Invalid
      else if (case page_anchor self of Some p \<Rightarrow> Position_invalid p | None \<Rightarrow> False) then Inl Invalid
      else hbind (normalize_search H (cq_query self)) (\<lambda>query. Inr (self\<lparr>cq_query := query\<rparr>)))"

definition validate_revision :: "CenterQuery \<Rightarrow> string \<Rightarrow> nat \<Rightarrow> unit hresult" where
  "validate_revision self epoch revision =
     (if cq_offset self > 0 \<and> (cq_epoch self \<noteq> Some epoch \<or> cq_revision self \<noteq> Some (show_nat revision))
      then Inl Stale else Inr ())"

section \<open>Previews\<close>

record PreviewHints =
  ph_desktop_entry :: string
  ph_image_path :: string

type_synonym RepeatKey = "string \<times> string \<times> string \<times> nat"

record Preview =
  pv_id :: nat
  pv_created :: nat
  pv_app_key :: string
  pv_app_name :: string
  pv_app_icon :: string
  pv_identity_icon :: string
  pv_hints :: PreviewHints
  pv_summary :: string
  pv_body :: string
  pv_closed :: "nat option"
  pv_snoozed :: "nat option"
  pv_history_id :: "int option"
  pv_matches :: bool
  pv_group_key :: string
  pv_repeat_key :: "RepeatKey option"

definition repeat_key :: "string \<Rightarrow> string \<Rightarrow> string \<Rightarrow> nat \<Rightarrow> bool \<Rightarrow> RepeatKey option" where
  "repeat_key summ bod cat urg action_free =
     (if action_free \<and> chars_count summ < 160 \<and> chars_count bod < 240 \<and> chars_count cat \<le> 256
      then Some (summ, bod, cat, urg) else None)"

definition Preview_from_active :: "henv \<Rightarrow> nenv \<Rightarrow> ActiveNotification \<Rightarrow> string \<Rightarrow> Preview" where
  "Preview_from_active H E n query =
     (let fallback_icon = (if identity_icon n = [] then Some (icon_of E (desktop_entry (hints n)) (app_name n)) else None) in
      \<lparr>pv_id = nid n, pv_created = created_unix_ms n, pv_app_key = app_key n,
       pv_app_name = clip 128 (app_name n), pv_app_icon = clip 512 (app_icon n),
       pv_identity_icon = clip 1024 (unwrap_or (identity_icon n) fallback_icon),
       pv_hints = \<lparr>ph_desktop_entry = clip 1024 (desktop_entry (hints n)), ph_image_path = clip 512 (image_path (hints n))\<rparr>,
       pv_summary = clip 160 (summary n), pv_body = clip 240 (body n),
       pv_closed = None, pv_snoozed = snoozed_until_unix_ms n, pv_history_id = None,
       pv_matches = contains_str query (search_text H n),
       pv_group_key = clip 4097 (group_key n),
       pv_repeat_key = repeat_key (summary n) (body n) (category (hints n)) (urgency (hints n)) (actions n = [])\<rparr>)"

definition preview_position :: "Preview \<Rightarrow> nat \<times> nat" where
  "preview_position self = (pv_created self, pv_id self)"

definition preview_recency :: "Preview \<Rightarrow> int \<times> int" where
  "preview_recency p = (- int (pv_created p), - int (pv_id p))"

definition at_position :: "Position option \<Rightarrow> Preview \<Rightarrow> bool" where
  "at_position s p = (case s of Some s \<Rightarrow> preview_position p = (ps_created s, ps_id s) | None \<Rightarrow> False)"

section \<open>Windows\<close>

text \<open>The offset where the next window starts, or none, and whether an anchor lies before it.\<close>

definition next_offset_of :: "nat \<Rightarrow> nat \<Rightarrow> nat \<Rightarrow> nat option" where
  "next_offset_of win offset full = (let end' = min (offset + win) full in if end' < full then Some end' else None)"

fun position_of :: "('a \<Rightarrow> bool) \<Rightarrow> 'a list \<Rightarrow> nat option" where
  "position_of P [] = None"
| "position_of P (x # xs) = (if P x then Some 0 else map_option Suc (position_of P xs))"

definition reached :: "('a \<Rightarrow> string) \<Rightarrow> string option \<Rightarrow> 'a list \<Rightarrow> nat \<Rightarrow> bool" where
  "reached key anchor items end' =
     (case anchor of None \<Rightarrow> True
      | Some k \<Rightarrow> (case position_of (\<lambda>x. key x = k) items of None \<Rightarrow> True | Some index \<Rightarrow> index < end'))"

section \<open>Applications\<close>

record AppGroup =
  gr_count :: nat
  gr_total_count :: nat
  gr_latest :: "Preview option"

record AppSummary =
  as_key :: string
  as_count :: nat
  as_total_count :: nat
  as_latest :: Preview

record AppsPage =
  ap_epoch :: string
  ap_revision :: string
  ap_query :: string
  ap_apps :: "AppSummary list"
  total_apps :: nat
  ap_offset :: nat
  ap_next_offset :: "nat option"
  ap_anchor_reached :: bool

definition AppGroup_default :: AppGroup where
  "AppGroup_default = \<lparr>gr_count = 0, gr_total_count = 0, gr_latest = None\<rparr>"

definition count_row :: "Preview \<Rightarrow> AppGroup \<Rightarrow> AppGroup" where
  "count_row row g0 =
     (let g = g0\<lparr>gr_total_count := gr_total_count g0 + 1\<rparr> in
      if pv_matches row then g\<lparr>gr_count := gr_count g + 1,
        gr_latest := Some (unwrap_or row (gr_latest g))\<rparr> else g)"

definition group_row :: "Preview \<Rightarrow> (string, AppGroup) omap \<Rightarrow> (string, AppGroup) omap" where
  "group_row row groups =
     om_insert (pv_app_key row) (count_row row (unwrap_or AppGroup_default (om_get groups (pv_app_key row)))) groups"

definition summary_entry :: "string \<times> AppGroup \<Rightarrow> AppSummary option" where
  "summary_entry kg = (case kg of (key, g) \<Rightarrow>
     map_option (\<lambda>latest. \<lparr>as_key = key, as_count = gr_count g, as_total_count = gr_total_count g, as_latest = latest\<rparr>)
       (gr_latest g))"

definition app_summaries :: "Preview list \<Rightarrow> AppSummary list" where
  "app_summaries rows =
     sort_key (\<lambda>a. preview_recency (as_latest a)) (List.map_filter summary_entry (fold group_row rows []))"

definition apps_page :: "Preview list \<Rightarrow> CenterQuery \<Rightarrow> string \<Rightarrow> nat \<Rightarrow> AppsPage" where
  "apps_page rows query epoch revision =
     (let apps = app_summaries rows; full = length apps; end' = min (cq_offset query + APP_PAGE_SIZE) full in
      \<lparr>ap_epoch = epoch, ap_revision = show_nat revision, ap_query = cq_query query,
       ap_apps = take APP_PAGE_SIZE (drop (cq_offset query) apps), total_apps = full, ap_offset = cq_offset query,
       ap_next_offset = next_offset_of APP_PAGE_SIZE (cq_offset query) full,
       ap_anchor_reached = reached as_key (app_anchor query) apps end'\<rparr>)"

section \<open>Timeline\<close>

text \<open>
  Days are counted from a fixed day. \<open>local_day\<close> is the local day of a time in milliseconds where it is unique,
  \<open>day_text\<close> how a day is written, \<open>from_monday\<close> its distance from Monday, \<open>year_month\<close> its year and month,
  \<open>first_day\<close> the earliest day the library has.
\<close>

record calendar =
  local_day :: "nat \<Rightarrow> int option"
  day_text :: "int \<Rightarrow> string"
  from_monday :: "int \<Rightarrow> nat"
  year_month :: "int \<Rightarrow> int \<times> nat"
  first_day :: int

record DateBucket =
  bk_key :: string
  bk_count :: nat

record TimelineEntry =
  te_key :: string
  te_preview :: Preview
  te_members :: "Position list"

record Timeline =
  tl_epoch :: string
  tl_revision :: string
  tl_query :: string
  tl_app_key :: string
  tl_dates :: "DateBucket list"
  tl_period_day :: string
  tl_recent :: "Preview list option"
  tl_date :: string
  tl_count :: nat
  tl_total_rows :: nat
  tl_offset :: nat
  tl_next_offset :: "nat option"
  tl_anchor_reached :: bool
  tl_entries :: "TimelineEntry list"

definition local_date :: "calendar \<Rightarrow> nat \<Rightarrow> int option" where
  "local_date K created = local_day K (min created I64_LIMIT)"

definition date_str :: "calendar \<Rightarrow> nat \<Rightarrow> string" where
  "date_str K created = unwrap_or [] (map_option (day_text K) (local_date K created))"

definition PERIODS :: "string list" where
  "PERIODS = [''today'', ''week'', ''month'', ''older'']"

definition period :: "calendar \<Rightarrow> nat \<Rightarrow> int \<Rightarrow> string" where
  "period K created today =
     (case local_date K created of None \<Rightarrow> ''older''
      | Some day \<Rightarrow>
        let back = today - int (from_monday K today);
            week = (if back < first_day K then today else back) in
        if day \<ge> today then ''today''
        else if day \<ge> week then ''week''
        else if year_month K day = year_month K today then ''month''
        else ''older'')"

type_synonym stack_state = "TimelineEntry list \<times> (string \<times> RepeatKey \<rightharpoonup> nat)"

definition row_place :: "Preview \<Rightarrow> Position" where
  "row_place row = \<lparr>ps_created = pv_created row, ps_id = pv_id row\<rparr>"

definition entry_key :: "Preview \<Rightarrow> string" where
  "entry_key row = show_nat (pv_id row) @ '':'' @ show_nat (pv_created row)"

definition stack_row :: "calendar \<Rightarrow> bool \<Rightarrow> Preview \<Rightarrow> stack_state \<Rightarrow> stack_state" where
  "stack_row K similar row st =
     (case st of (entries, stacks) \<Rightarrow>
      let fresh = (\<lambda>row. \<lparr>te_key = entry_key row, te_preview = row, te_members = [row_place row]\<rparr>) in
      case (if similar then pv_repeat_key row else None) of
        None \<Rightarrow> (entries @ [fresh row], stacks)
      | Some k \<Rightarrow>
        let key = (date_str K (pv_created row), k);
            bare = row\<lparr>pv_repeat_key := None\<rparr>;
            anew = (entries @ [fresh bare], stacks(key \<mapsto> length entries)) in
        case stacks key of
          Some index \<Rightarrow>
            if length (te_members (entries ! index)) < STACK_LIMIT
            then (entries[index := (entries ! index)\<lparr>te_members := te_members (entries ! index) @ [row_place row]\<rparr>], stacks)
            else anew
        | None \<Rightarrow> anew)"

definition stack :: "calendar \<Rightarrow> Preview list \<Rightarrow> bool \<Rightarrow> TimelineEntry list" where
  "stack K rows similar = fst (fold (stack_row K similar) rows ([], Map.empty))"

definition bucket_row :: "(Preview \<Rightarrow> string) \<Rightarrow> Preview \<Rightarrow> (string, Preview list) omap \<Rightarrow> (string, Preview list) omap" where
  "bucket_row key row buckets = om_insert (key row) (unwrap_or [] (om_get buckets (key row)) @ [row]) buckets"

definition bucket_key :: "calendar \<Rightarrow> CenterQuery \<Rightarrow> int \<Rightarrow> Preview \<Rightarrow> string" where
  "bucket_key K query today row = (if period_groups query then period K (pv_created row) today else date_str K (pv_created row))"

definition timeline_dates :: "bool \<Rightarrow> (string, Preview list) omap \<Rightarrow> DateBucket list" where
  "timeline_dates periods buckets =
     (if periods then map (\<lambda>k. \<lparr>bk_key = k, bk_count = (case om_get buckets k of None \<Rightarrow> 0 | Some rows \<Rightarrow> length rows)\<rparr>) PERIODS
      else map (\<lambda>(k, rows). \<lparr>bk_key = k, bk_count = length rows\<rparr>) (rev buckets))"

definition timeline_selected :: "CenterQuery \<Rightarrow> (string, Preview list) omap \<Rightarrow> DateBucket list \<Rightarrow> string" where
  "timeline_selected query buckets dates =
     (if period_groups query then unwrap_or [] (cq_date query)
      else case cq_date query of
        Some d \<Rightarrow> if om_has d buckets then d else (case dates of [] \<Rightarrow> [] | b # _ \<Rightarrow> bk_key b)
      | None \<Rightarrow> (case dates of [] \<Rightarrow> [] | b # _ \<Rightarrow> bk_key b))"

definition timeline_project_at ::
  "calendar \<Rightarrow> Preview list \<Rightarrow> CenterQuery \<Rightarrow> string \<Rightarrow> nat \<Rightarrow> int \<Rightarrow> Timeline hresult" where
  "timeline_project_at K rows query epoch revision today =
     (let period_day = (if period_groups query then day_text K today else []) in
      if period_groups query \<and> cq_offset query > 0 \<and> cq_period_day query \<noteq> Some period_day then Inl Stale
      else
        let recent = (if period_groups query then Some (take 3 rows) else None);
            rest = (if period_groups query then drop 3 rows else rows);
            buckets = fold (bucket_row (bucket_key K query today)) rest [];
            dates = timeline_dates (period_groups query) buckets;
            chosen = timeline_selected query buckets dates;
            kept = unwrap_or [] (om_get buckets chosen);
            entries = stack K kept (group_similar query);
            full = length entries;
            end' = min (cq_offset query + WINDOW) full in
        Inr \<lparr>tl_epoch = epoch, tl_revision = show_nat revision, tl_query = cq_query query,
             tl_app_key = unwrap_or [] (cq_app_key query), tl_dates = dates, tl_period_day = period_day,
             tl_recent = recent, tl_date = chosen, tl_count = length kept, tl_total_rows = full,
             tl_offset = cq_offset query, tl_next_offset = next_offset_of WINDOW (cq_offset query) full,
             tl_anchor_reached = reached te_key (timeline_anchor query) entries end',
             tl_entries = take WINDOW (drop (cq_offset query) entries)\<rparr>)"

section \<open>Pages\<close>

record AppPage =
  pg_epoch :: string
  pg_revision :: string
  pg_query :: string
  pg_app_key :: string
  pg_count :: nat
  pg_total_count :: nat
  pg_page :: nat
  pg_pages :: nat
  pg_overview :: "Preview list"
  pg_entries :: "Preview list"
  pg_selected :: "CatalogRecord option"

datatype CenterPage = TimelinePage Timeline | Apps AppsPage | App AppPage

text \<open>\<open>page_len\<close> is the length of a page as JSON.\<close>

record centerenv =
  ce_history :: henv
  ce_notification :: nenv
  ce_calendar :: calendar
  page_len :: "CenterPage \<Rightarrow> nat result"

definition checked :: "centerenv \<Rightarrow> CenterPage \<Rightarrow> CenterPage hresult" where
  "checked Z p =
     hbind (unavailable (page_len Z p)) (\<lambda>n.
       if n > PAGE_BYTES then Inl (Unavailable (err ''Notification center page exceeds byte limit'')) else Inr p)"

definition center_app_key :: "Preview list \<Rightarrow> CenterQuery \<Rightarrow> string" where
  "center_app_key rows query =
     (case cq_app_key query of Some k \<Rightarrow> k
      | None \<Rightarrow> (case find (\<lambda>p. at_position (cq_selected query) p \<or> cq_group_key query = Some (pv_group_key p)) rows of
          Some p \<Rightarrow> pv_app_key p | None \<Rightarrow> []))"

definition page_index :: "CenterQuery \<Rightarrow> Preview list \<Rightarrow> nat \<Rightarrow> nat" where
  "page_index query rows pages =
     min (case page_anchor query of
            None \<Rightarrow> cq_page query
          | Some a \<Rightarrow> (case position_of (at_position (Some a)) rows of
              None \<Rightarrow> cq_page query | Some index \<Rightarrow> index div INDEX_SIZE + 1)) pages"

definition center_project_at ::
  "centerenv \<Rightarrow> Preview list \<Rightarrow> CenterQuery \<Rightarrow> string \<Rightarrow> nat \<Rightarrow> int \<Rightarrow> (Preview \<Rightarrow> CatalogRecord result) \<Rightarrow> CenterPage hresult" where
  "center_project_at Z rows0 query epoch revision today lookup =
     hbind (validate_revision query epoch revision) (\<lambda>_.
       let rows = sort_key preview_recency rows0 in
       if cq_view query = ''apps'' then checked Z (Apps (apps_page rows query epoch revision))
       else
         let key = center_app_key rows query;
             own = filter (\<lambda>p. pv_app_key p = key) rows;
             total_count = length own;
             found = filter pv_matches own in
         if cq_view query = ''timeline'' then
           hbind (timeline_project_at (ce_calendar Z) found query epoch revision today) (\<lambda>t. checked Z (TimelinePage t))
         else
           let count = length found;
               pages = max 1 ((count + (INDEX_SIZE - 1)) div INDEX_SIZE);
               page = page_index query found pages in
           hbind (case find (at_position (cq_selected query)) found of
                    None \<Rightarrow> Inr None | Some p \<Rightarrow> unavailable (map_sum id Some (lookup p))) (\<lambda>selected.
           checked Z (App \<lparr>pg_epoch = epoch, pg_revision = show_nat revision, pg_query = cq_query query, pg_app_key = key,
             pg_count = count, pg_total_count = total_count, pg_page = page, pg_pages = pages,
             pg_overview = take 3 found, pg_entries = take INDEX_SIZE (drop ((page - 1) * INDEX_SIZE) found),
             pg_selected = selected\<rparr>)))"

section \<open>The stored previews and the engine's query\<close>

text \<open>
  A preview is stored when a notification is saved, and read back with the row. Only the rows in scope are
  candidates, newest insertion first.
\<close>

definition stored_preview :: "centerenv \<Rightarrow> string \<Rightarrow> CatalogRecord \<Rightarrow> Preview" where
  "stored_preview Z query r =
     (let n = cr_notification r; p = Preview_from_active (ce_history Z) (ce_notification Z) n [] in
      p\<lparr>pv_closed := cr_closed_unix_ms r, pv_history_id := Some (unwrap_or 0 (history_id r)),
        pv_matches := query = [] \<or> contains_str query (search_text (ce_history Z) n),
        pv_repeat_key := map_option (\<lambda>(_, _, c, u). (pv_summary p, pv_body p, c, u)) (pv_repeat_key p)\<rparr>)"

definition read_candidates :: "centerenv \<Rightarrow> string \<Rightarrow> CatalogRecord list \<Rightarrow> Preview list" where
  "read_candidates Z query table = map (stored_preview Z query) (scope_rows table)"

definition active_at :: "ActiveNotification list \<Rightarrow> Preview \<Rightarrow> ActiveNotification option" where
  "active_at active p = find (\<lambda>n. nid n = pv_id p \<and> created_unix_ms n = pv_created p) active"

definition center_rows :: "centerenv \<Rightarrow> string \<Rightarrow> CatalogRecord list \<Rightarrow> ActiveNotification list \<Rightarrow> Preview list" where
  "center_rows Z query table active =
     filter (\<lambda>p. active_at active p = None) (read_candidates Z query table)
       @ map (\<lambda>n. Preview_from_active (ce_history Z) (ce_notification Z) n query) active"

definition stored_record :: "centerenv \<Rightarrow> CatalogRecord list \<Rightarrow> int \<Rightarrow> CatalogRecord result" where
  "stored_record Z table h =
     (case find (\<lambda>r. history_id r = Some h) table of
        None \<Rightarrow> Err (err ''notification no longer retained'')
      | Some r \<Rightarrow> and_then (records_of (ce_history Z) [r]) (\<lambda>rs. Ok (hd rs)))"

definition center_detail ::
  "centerenv \<Rightarrow> CatalogRecord list \<Rightarrow> ActiveNotification list \<Rightarrow> CenterQuery \<Rightarrow> Preview list \<Rightarrow> CatalogRecord option result" where
  "center_detail Z table active query previews =
     (case (if cq_view query = ''app'' then
              find (\<lambda>p. pv_matches p \<and> at_position (cq_selected query) p
                \<and> (case cq_app_key query of None \<Rightarrow> True | Some k \<Rightarrow> k = pv_app_key p)) previews
            else None) of
        None \<Rightarrow> Ok None
      | Some p \<Rightarrow> (case active_at active p of
          Some n \<Rightarrow> Ok (Some (CatalogRecord_from n))
        | None \<Rightarrow> and_then (ok_or ''missing selected history identity'' (pv_history_id p)) (\<lambda>h.
            and_then (stored_record Z table h) (\<lambda>r. Ok (Some r)))))"

definition store_center ::
  "centerenv \<Rightarrow> CatalogRecord list \<Rightarrow> CenterQuery \<Rightarrow> ActiveNotification list \<Rightarrow> string \<Rightarrow> nat \<Rightarrow> int \<Rightarrow> CenterPage hresult" where
  "store_center Z table query active epoch revision today =
     hbind (validate_revision query epoch revision) (\<lambda>_.
       let previews = center_rows Z (cq_query query) table active in
       hbind (unavailable (center_detail Z table active query previews)) (\<lambda>detail.
       center_project_at Z previews query epoch revision today
         (\<lambda>_. ok_or ''notification no longer retained'' detail)))"

text \<open>
  \<open>read i\<close> is what the \<open>i\<close>-th attempt finds, \<open>cancelled i\<close> whether the reader is gone before it; only transient
  errors are retried, once per delay.
\<close>

fun retry_reads :: "(error \<Rightarrow> bool) \<Rightarrow> (nat \<Rightarrow> bool) \<Rightarrow> (nat \<Rightarrow> 'a result) \<Rightarrow> nat list \<Rightarrow> nat \<Rightarrow> 'a result" where
  "retry_reads transient_error cancelled read delays i =
     (if cancelled i then Err (err ''Notification history read cancelled'')
      else case read i of
        Inr v \<Rightarrow> Ok v
      | Inl e \<Rightarrow> if transient_error e then (case delays of [] \<Rightarrow> Err e
          | _ # rest \<Rightarrow> retry_reads transient_error cancelled read rest (i + 1)) else Err e)"

definition recover_center_read ::
  "(nat \<Rightarrow> unit result) \<Rightarrow> (error \<Rightarrow> bool) \<Rightarrow> (nat \<Rightarrow> bool) \<Rightarrow> (nat \<Rightarrow> 'a result) \<Rightarrow> 'a result" where
  "recover_center_read busy_timeout transient_error cancelled read =
     and_then (busy_timeout 50) (\<lambda>_.
       let result = retry_reads transient_error cancelled read [50, 100] 0; restored = busy_timeout 5000 in
       and_then result (\<lambda>v. and_then restored (\<lambda>_. Ok v)))"

definition query_center_admitted ::
  "centerenv \<Rightarrow> string \<Rightarrow> CatalogRecord list result option \<Rightarrow> int \<Rightarrow> EngineData \<Rightarrow> CenterQuery \<Rightarrow> CenterPage hresult" where
  "query_center_admitted Z epoch store today d query =
     (case catalog_snapshot d of (revision, active) \<Rightarrow>
      hbind (validate_revision query epoch revision) (\<lambda>_.
      case store of
        Some table \<Rightarrow> hbind (unavailable table) (\<lambda>table. store_center Z table query active epoch revision today)
      | None \<Rightarrow> center_project_at Z (map (\<lambda>n. Preview_from_active (ce_history Z) (ce_notification Z) n (cq_query query)) active)
          query epoch revision today
          (\<lambda>p. ok_or ''Notification unavailable'' (map_option CatalogRecord_from (active_at active p)))))"

text \<open>\<open>admitted\<close> is whether a reader slot was free before the deadline, \<open>timely\<close> whether the read ended before it.\<close>

definition query_center ::
  "centerenv \<Rightarrow> string \<Rightarrow> bool \<Rightarrow> bool \<Rightarrow> CatalogRecord list result option \<Rightarrow> int \<Rightarrow> EngineData \<Rightarrow> CenterQuery \<Rightarrow> CenterPage hresult" where
  "query_center Z epoch admitted timely store today d query0 =
     hbind (CenterQuery_normalize (ce_history Z) query0) (\<lambda>query.
     if \<not> admitted then Inl Busy
     else if \<not> timely then Inl (Unavailable (err ''Notification history read timed out; refresh to try again''))
     else query_center_admitted Z epoch store today d query)"

end
