(* ===== verification/Center_Theorems.thy ===== *)
theory Center_Theorems
  imports Notification_Center Notification_Theorems
begin

text \<open>
  What the notification center guarantees: windows that tile, applications that partition the rows, stacks that
  lose nothing, and buckets that account for every row.
\<close>

section \<open>Windows\<close>

text \<open>
  A client follows the next offset until there is none. \<open>ask\<close> is its request; a walk that does not end has the
  value None.
\<close>

partial_function (option) walk_windows :: "(nat \<Rightarrow> ('a list \<times> nat option) option) \<Rightarrow> nat \<Rightarrow> 'a list option" where
  "walk_windows ask offset = Option.bind (ask offset) (\<lambda>r. case snd r of
       None \<Rightarrow> Some (fst r)
     | Some next \<Rightarrow> Option.bind (walk_windows ask next) (\<lambda>rest. Some (fst r @ rest)))"

locale windowed_reader =
  fixes ask :: "nat \<Rightarrow> ('a list \<times> nat option) option" and items :: "'a list" and win :: nat
  assumes window: "offset = 0 \<or> offset < length items \<Longrightarrow>
      ask offset = Some (take win (drop offset items), next_offset_of win offset (length items))"
    and positive: "0 < win"
begin

lemma walk_rest: "offset = 0 \<or> offset < length items \<Longrightarrow> walk_windows ask offset = Some (drop offset items)"
proof (induction "length items - offset" arbitrary: offset rule: less_induct)
  case less
  have ask: "ask offset = Some (take win (drop offset items), next_offset_of win offset (length items))"
    by (rule window [OF less.prems])
  show ?case
  proof (cases "offset + win < length items")
    case True
    have "walk_windows ask (offset + win) = Some (drop (offset + win) items)"
      by (rule less.hyps) (use True positive in auto)
    moreover have "drop offset items = take win (drop offset items) @ drop (offset + win) items"
      by (metis add.commute append_take_drop_id drop_drop)
    ultimately show ?thesis
      using True by (subst walk_windows.simps) (simp add: ask next_offset_of_def min_def)
  next
    case False
    then show ?thesis by (subst walk_windows.simps) (simp add: ask next_offset_of_def min_def)
  qed
qed

lemma walk_all: "walk_windows ask 0 = Some items"
  using walk_rest [of 0] by simp

end

definition ask_apps :: "Preview list \<Rightarrow> CenterQuery \<Rightarrow> string \<Rightarrow> nat \<Rightarrow> nat \<Rightarrow> (AppSummary list \<times> nat option) option" where
  "ask_apps rows query epoch revision offset =
     (let p = apps_page rows (query\<lparr>cq_offset := offset\<rparr>) epoch revision in Some (ap_apps p, ap_next_offset p))"

interpretation apps: windowed_reader "ask_apps rows query epoch revision" "app_summaries rows" APP_PAGE_SIZE
  by unfold_locales (simp_all add: ask_apps_def apps_page_def Let_def APP_PAGE_SIZE_def)

definition timeline_buckets :: "calendar \<Rightarrow> Preview list \<Rightarrow> CenterQuery \<Rightarrow> int \<Rightarrow> (string, Preview list) omap" where
  "timeline_buckets K rows query today =
     fold (bucket_row (bucket_key K query today)) (if period_groups query then drop 3 rows else rows) []"

definition timeline_kept :: "calendar \<Rightarrow> Preview list \<Rightarrow> CenterQuery \<Rightarrow> int \<Rightarrow> Preview list" where
  "timeline_kept K rows query today =
     (let buckets = timeline_buckets K rows query today in
      unwrap_or [] (om_get buckets (timeline_selected query buckets (timeline_dates (period_groups query) buckets))))"

definition ask_timeline :: "calendar \<Rightarrow> Preview list \<Rightarrow> CenterQuery \<Rightarrow> string \<Rightarrow> nat \<Rightarrow> int \<Rightarrow> nat \<Rightarrow> (TimelineEntry list \<times> nat option) option" where
  "ask_timeline K rows query epoch revision today offset =
     (case timeline_project_at K rows (query\<lparr>cq_offset := offset, cq_period_day := Some (day_text K today)\<rparr>) epoch revision today of
        Inl _ \<Rightarrow> None | Inr t \<Rightarrow> Some (tl_entries t, tl_next_offset t))"

lemma query_offset_frame [simp]:
  "bucket_key K (query\<lparr>cq_offset := o', cq_period_day := p\<rparr>) = bucket_key K query"
  "timeline_selected (query\<lparr>cq_offset := o', cq_period_day := p\<rparr>) = timeline_selected query"
  by (simp_all add: fun_eq_iff bucket_key_def timeline_selected_def)

interpretation timeline: windowed_reader "ask_timeline K rows query epoch revision today"
  "stack K (timeline_kept K rows query today) (group_similar query)" WINDOW
  by unfold_locales
    (simp_all add: ask_timeline_def timeline_project_at_def timeline_kept_def timeline_buckets_def Let_def WINDOW_def)

section \<open>Applications\<close>

lemma unwrap_or_simps [simp]: "unwrap_or d None = d" "unwrap_or d (Some x) = x"
  by (simp_all add: unwrap_or_def)

abbreviation own_rows :: "string \<Rightarrow> Preview list \<Rightarrow> Preview list" where
  "own_rows k rows \<equiv> filter (\<lambda>r. pv_app_key r = k) rows"

abbreviation found_previews :: "string \<Rightarrow> Preview list \<Rightarrow> Preview list" where
  "found_previews k rows \<equiv> filter (\<lambda>r. pv_app_key r = k \<and> pv_matches r) rows"

definition group_of :: "string \<Rightarrow> Preview list \<Rightarrow> AppGroup option" where
  "group_of k rows = (if own_rows k rows = [] then None
     else Some \<lparr>gr_count = length (found_previews k rows), gr_total_count = length (own_rows k rows),
       gr_latest = (case found_previews k rows of [] \<Rightarrow> None | r # _ \<Rightarrow> Some r)\<rparr>)"

lemma groups_ok: "om_ok (fold group_row rows [])"
proof -
  have "om_ok g \<Longrightarrow> om_ok (fold group_row rows g)" for g
    by (induction rows arbitrary: g) (simp_all add: group_row_def)
  then show ?thesis by simp
qed

lemma group_row_get:
  "om_ok g \<Longrightarrow> om_get (group_row r g) k =
     (if k = pv_app_key r then Some (count_row r (unwrap_or AppGroup_default (om_get g k))) else om_get g k)"
  by (simp add: group_row_def)

lemma groups_get: "om_get (fold group_row rows []) k = group_of k rows"
proof (induction rows arbitrary: k rule: rev_induct)
  case Nil
  then show ?case by (simp add: group_of_def)
next
  case (snoc r rows)
  have "om_get (fold group_row (rows @ [r]) []) k =
      (if k = pv_app_key r then Some (count_row r (unwrap_or AppGroup_default (group_of k rows))) else group_of k rows)"
    by (simp add: group_row_get groups_ok snoc.IH del: fold_simps)
  also have "\<dots> = group_of k (rows @ [r])"
    by (cases "found_previews k rows"; cases "own_rows k rows")
      (auto simp: group_of_def count_row_def AppGroup_default_def Let_def filter_empty_conv)
  finally show ?case .
qed

lemma set_map_filter: "set (List.map_filter f xs) = {y. \<exists>x\<in>set xs. f x = Some y}"
  by (induction xs) (auto simp: List.map_filter_simps split: option.splits)

lemma groups_mem: "(k, g) \<in> set (fold group_row rows []) \<longleftrightarrow> group_of k rows = Some g"
  using om_get_mem [OF groups_ok] by (simp add: groups_get)

lemma summary_entry_iff:
  "summary_entry (k, g) = Some a \<longleftrightarrow>
     as_key a = k \<and> gr_latest g = Some (as_latest a) \<and> as_count a = gr_count g \<and> as_total_count a = gr_total_count g"
  by (cases a) (auto simp: summary_entry_def)

lemma app_summaries_mem:
  "a \<in> set (app_summaries rows) \<longleftrightarrow>
     (\<exists>rest. found_previews (as_key a) rows = as_latest a # rest
        \<and> as_count a = length (found_previews (as_key a) rows) \<and> as_total_count a = length (own_rows (as_key a) rows))"
proof -
  have "a \<in> set (app_summaries rows) \<longleftrightarrow> (\<exists>k g. group_of k rows = Some g \<and> summary_entry (k, g) = Some a)"
    unfolding app_summaries_def set_sort set_map_filter by (auto simp: groups_mem) blast+
  also have "\<dots> \<longleftrightarrow> (\<exists>g. group_of (as_key a) rows = Some g \<and> gr_latest g = Some (as_latest a)
      \<and> as_count a = gr_count g \<and> as_total_count a = gr_total_count g)"
    by (auto simp: summary_entry_iff)
  also have "\<dots> \<longleftrightarrow> (\<exists>rest. found_previews (as_key a) rows = as_latest a # rest
      \<and> as_count a = length (found_previews (as_key a) rows) \<and> as_total_count a = length (own_rows (as_key a) rows))"
    by (auto simp: group_of_def filter_empty_conv split: list.splits)
  finally show ?thesis .
qed

lemma map_filter_keys:
  "distinct (map fst m) \<Longrightarrow> distinct (map as_key (List.map_filter summary_entry m))"
proof (induction m)
  case (Cons kg m)
  obtain k g where kg: "kg = (k, g)" by (cases kg)
  have "k \<notin> as_key ` set (List.map_filter summary_entry m)"
    using Cons.prems by (auto simp: kg set_map_filter summary_entry_iff image_iff)
  then show ?case using Cons by (auto simp: kg List.map_filter_simps summary_entry_iff split: option.splits)
qed (simp add: List.map_filter_simps)

lemma app_keys_distinct: "distinct (map as_key (app_summaries rows))"
proof -
  have "distinct (map as_key (List.map_filter summary_entry (fold group_row rows [])))"
    by (rule map_filter_keys) (rule om_ok_distinct [OF groups_ok])
  then show ?thesis by (simp add: app_summaries_def distinct_map inj_on_def)
qed

lemma sum_partition:
  assumes "distinct ks" "\<And>r. r \<in> set rows \<Longrightarrow> P r \<Longrightarrow> key r \<in> set ks"
  shows "(\<Sum>k\<leftarrow>ks. length (filter (\<lambda>r. key r = k \<and> P r) rows)) = length (filter P rows)"
  using assms(2)
proof (induction rows)
  case (Cons r rows)
  have one: "(\<Sum>k\<leftarrow>ks. if key r = k then 1 else 0::nat) = (if key r \<in> set ks then 1 else 0)"
    using assms(1) by (induction ks) auto
  have "(\<Sum>k\<leftarrow>ks. length (filter (\<lambda>r. key r = k \<and> P r) (r # rows))) =
      (\<Sum>k\<leftarrow>ks. (if key r = k \<and> P r then 1 else 0) + length (filter (\<lambda>r. key r = k \<and> P r) rows))"
    by (rule arg_cong [where f = sum_list]) simp
  also have "\<dots> = (if P r then 1 else 0) + length (filter P rows)"
    using Cons one by (auto simp: sum_list_addf)
  finally show ?case by simp
qed simp

lemma sorted_wrt_sort_key: "sorted_wrt (\<lambda>x y. f x \<le> f y) (sort_key f xs)"
  using sorted_sort_key [of f xs] by (simp add: sorted_map)

lemma found_first_newest:
  assumes "sorted_wrt (\<lambda>p q. preview_recency p \<le> preview_recency q) rows" "found_previews k rows = p # rest"
    and "r \<in> set (found_previews k rows)"
  shows "preview_recency p \<le> preview_recency r"
proof -
  have "sorted_wrt (\<lambda>p q. preview_recency p \<le> preview_recency q) (p # rest)"
    using sorted_wrt_filter [OF assms(1), of "\<lambda>r. pv_app_key r = k \<and> pv_matches r"] assms(2) by simp
  then show ?thesis using assms(2,3) by auto
qed

text \<open>
  The applications of the notification center partition its rows: every application with a matching row has
  exactly one summary and there are no others, its counts are the numbers of its matching rows and of all its
  rows, its representative is a newest matching row, the summaries are listed newest first, and their counts add up
  to all the matching rows.
\<close>

theorem app_summaries_faithful:
  fixes rows :: "Preview list"
  defines "A \<equiv> app_summaries (sort_key preview_recency rows)"
  shows "distinct (map as_key A) \<and> as_key ` set A = pv_app_key ` {r \<in> set rows. pv_matches r}
    \<and> (\<forall>a\<in>set A. as_count a = length (filter (\<lambda>r. pv_app_key r = as_key a \<and> pv_matches r) rows)
        \<and> as_total_count a = length (filter (\<lambda>r. pv_app_key r = as_key a) rows)
        \<and> as_latest a \<in> {r \<in> set rows. pv_app_key r = as_key a \<and> pv_matches r}
        \<and> (\<forall>r\<in>set rows. pv_app_key r = as_key a \<and> pv_matches r \<longrightarrow> preview_position r \<le> preview_position (as_latest a)))
    \<and> sorted_wrt (\<lambda>a b. preview_position (as_latest b) \<le> preview_position (as_latest a)) A
    \<and> (\<Sum>a\<leftarrow>A. as_count a) = length (filter pv_matches rows)"
proof -
  let ?rows = "sort_key preview_recency rows"
  have newer: "preview_recency p \<le> preview_recency q \<longleftrightarrow> preview_position q \<le> preview_position p" for p q
    by (auto simp: preview_recency_def preview_position_def less_eq_prod_simp)
  have lens: "length (filter P ?rows) = length (filter P rows)" for P
    by (simp add: filter_sort)
  note sorted_rows = sorted_wrt_sort_key [of preview_recency rows]
  have keys: "as_key ` set A = pv_app_key ` {r \<in> set rows. pv_matches r}"
  proof (intro set_eqI iffI)
    fix k assume "k \<in> as_key ` set A"
    then obtain a where "a \<in> set A" "as_key a = k" by blast
    then obtain rest where "found_previews k ?rows = as_latest a # rest"
      using app_summaries_mem [of a ?rows] by (auto simp: A_def)
    then have "as_latest a \<in> set (found_previews k ?rows)" by simp
    then show "k \<in> pv_app_key ` {r \<in> set rows. pv_matches r}" by auto
  next
    fix k assume "k \<in> pv_app_key ` {r \<in> set rows. pv_matches r}"
    then obtain p rest where "found_previews k ?rows = p # rest"
      by (cases "found_previews k ?rows") (auto simp: filter_empty_conv)
    then have "\<lparr>as_key = k, as_count = length (found_previews k ?rows), as_total_count = length (own_rows k ?rows), as_latest = p\<rparr> \<in> set A"
      by (simp add: A_def app_summaries_mem)
    then show "k \<in> as_key ` set A" by force
  qed
  have each: "as_count a = length (found_previews (as_key a) rows) \<and> as_total_count a = length (own_rows (as_key a) rows)
      \<and> as_latest a \<in> set (found_previews (as_key a) rows)
      \<and> (\<forall>r\<in>set (found_previews (as_key a) rows). preview_position r \<le> preview_position (as_latest a))" if "a \<in> set A" for a
  proof -
    from that obtain rest where a: "found_previews (as_key a) ?rows = as_latest a # rest"
      "as_count a = length (found_previews (as_key a) ?rows)" "as_total_count a = length (own_rows (as_key a) ?rows)"
      by (auto simp: A_def app_summaries_mem)
    have "as_latest a \<in> set (found_previews (as_key a) ?rows)" by (simp add: a(1))
    moreover have "preview_recency (as_latest a) \<le> preview_recency r" if "r \<in> set (found_previews (as_key a) ?rows)" for r
      by (rule found_first_newest [OF sorted_rows a(1) that])
    ultimately show ?thesis by (auto simp: a(2,3) lens newer)
  qed
  have "(\<Sum>a\<leftarrow>A. as_count a) = (\<Sum>k\<leftarrow>map as_key A. length (filter (\<lambda>r. pv_app_key r = k \<and> pv_matches r) rows))"
    by (simp add: comp_def) (rule arg_cong [where f = sum_list], simp add: each)
  also have "\<dots> = length (filter pv_matches rows)"
    by (rule sum_partition) (use keys app_keys_distinct in \<open>auto simp: A_def\<close>)
  finally have total: "(\<Sum>a\<leftarrow>A. as_count a) = length (filter pv_matches rows)" .
  have "sorted_wrt (\<lambda>a b. preview_position (as_latest b) \<le> preview_position (as_latest a)) A"
    unfolding A_def app_summaries_def newer [symmetric] by (rule sorted_wrt_sort_key)
  moreover have "distinct (map as_key A)" unfolding A_def by (rule app_keys_distinct)
  moreover have "as_count a = length (found_previews (as_key a) rows) \<and> as_total_count a = length (own_rows (as_key a) rows)
      \<and> as_latest a \<in> {r \<in> set rows. pv_app_key r = as_key a \<and> pv_matches r}
      \<and> (\<forall>r\<in>set rows. pv_app_key r = as_key a \<and> pv_matches r \<longrightarrow> preview_position r \<le> preview_position (as_latest a))"
    if "a \<in> set A" for a
    using each [OF that] by simp
  ultimately show ?thesis using keys total by (intro conjI ballI) blast+
qed

section \<open>Stacks\<close>

definition stack_key :: "calendar \<Rightarrow> Preview \<Rightarrow> string \<times> RepeatKey option" where
  "stack_key K r = (date_str K (pv_created r), pv_repeat_key r)"

text \<open>
  A stack is described by the rows behind its entry. The keys of the stacks are those of their first rows;
  \<open>full_before\<close> says that a second stack of the same key starts only when the first is full.
\<close>

definition entry_of :: "bool \<Rightarrow> Preview list \<Rightarrow> TimelineEntry" where
  "entry_of similar g = \<lparr>te_key = entry_key (hd g),
     te_preview = (if similar then (hd g)\<lparr>pv_repeat_key := None\<rparr> else hd g), te_members = map row_place g\<rparr>"

definition stack_rows_ok :: "calendar \<Rightarrow> bool \<Rightarrow> Preview list \<Rightarrow> bool" where
  "stack_rows_ok K similar g \<longleftrightarrow> g \<noteq> [] \<and> length g \<le> STACK_LIMIT \<and> (\<forall>r\<in>set g. stack_key K r = stack_key K (hd g))
     \<and> (1 < length g \<longrightarrow> similar \<and> pv_repeat_key (hd g) \<noteq> None)"

definition stack_keys :: "calendar \<Rightarrow> Preview list list \<Rightarrow> (string \<times> RepeatKey option) list" where
  "stack_keys K G = map (\<lambda>g. stack_key K (hd g)) G"

definition full_before :: "bool \<Rightarrow> ('d \<times> 'k option) list \<Rightarrow> Preview list list \<Rightarrow> bool" where
  "full_before similar ks G \<longleftrightarrow> (\<forall>i<length G. similar \<and> snd (ks ! i) \<noteq> None \<and> ks ! i \<in> set (drop (Suc i) ks)
     \<longrightarrow> length (G ! i) = STACK_LIMIT)"

definition stack_index :: "('d \<times> 'k option) list \<Rightarrow> ('d \<times> 'k \<rightharpoonup> nat) \<Rightarrow> bool" where
  "stack_index ks stacks \<longleftrightarrow> (\<forall>d k. case stacks (d, k) of
       None \<Rightarrow> (d, Some k) \<notin> set ks
     | Some i \<Rightarrow> i < length ks \<and> ks ! i = (d, Some k) \<and> (d, Some k) \<notin> set (drop (Suc i) ks))"

lemma bare_simps [simp]:
  "entry_key (r\<lparr>pv_repeat_key := k\<rparr>) = entry_key r" "row_place (r\<lparr>pv_repeat_key := k\<rparr>) = row_place r"
  by (simp_all add: entry_key_def row_place_def)

lemma stack_indexD:
  "stack_index ks stacks \<Longrightarrow> case stacks (d, k) of None \<Rightarrow> (d, Some k) \<notin> set ks
     | Some i \<Rightarrow> i < length ks \<and> ks ! i = (d, Some k) \<and> (d, Some k) \<notin> set (drop (Suc i) ks)"
  by (simp add: stack_index_def)

lemma stack_keys_simps [simp]:
  "length (stack_keys K G) = length G" "stack_keys K (G @ [g]) = stack_keys K G @ [stack_key K (hd g)]"
  by (simp_all add: stack_keys_def)

lemma stack_keys_grow: "i < length G \<Longrightarrow> G ! i \<noteq> [] \<Longrightarrow> stack_keys K (G[i := G ! i @ [r]]) = stack_keys K G"
  by (simp add: stack_keys_def map_update) (metis list_update_id nth_map)

lemma stack_index_snoc_other: "stack_index ks stacks \<Longrightarrow> snd x = None \<Longrightarrow> stack_index (ks @ [x]) stacks"
  unfolding stack_index_def by (cases x) (fastforce simp: nth_append split: option.splits)

lemma stack_index_snoc: "stack_index ks stacks \<Longrightarrow> stack_index (ks @ [(d, Some k)]) (stacks((d, k) \<mapsto> length ks))"
  unfolding stack_index_def by (fastforce simp: nth_append split: option.splits)

lemma full_before_snoc:
  assumes "full_before similar ks G" "length ks = length G"
    and "\<And>i. similar \<Longrightarrow> snd x \<noteq> None \<Longrightarrow> i < length G \<Longrightarrow> ks ! i = x \<Longrightarrow> length (G ! i) = STACK_LIMIT"
  shows "full_before similar (ks @ [x]) (G @ [[r]])"
  unfolding full_before_def
proof (intro allI impI)
  fix i assume i: "i < length (G @ [[r]])"
    "similar \<and> snd ((ks @ [x]) ! i) \<noteq> None \<and> (ks @ [x]) ! i \<in> set (drop (Suc i) (ks @ [x]))"
  show "length ((G @ [[r]]) ! i) = STACK_LIMIT"
  proof (cases "i < length G")
    case True
    with i assms(2) have "similar" "snd (ks ! i) \<noteq> None" "ks ! i \<in> set (drop (Suc i) ks) \<or> ks ! i = x"
      by (auto simp: nth_append)
    with True assms(1) assms(3) [of i] show ?thesis by (auto simp: full_before_def nth_append)
  next
    case False
    with i assms(2) show ?thesis by auto
  qed
qed

lemma full_before_grow:
  assumes "full_before similar ks G" "i < length G" "length (G ! i) < STACK_LIMIT"
  shows "full_before similar ks (G[i := G ! i @ [r]])"
  unfolding full_before_def
proof (intro allI impI)
  fix j assume j: "j < length (G[i := G ! i @ [r]])" "similar \<and> snd (ks ! j) \<noteq> None \<and> ks ! j \<in> set (drop (Suc j) ks)"
  with assms(1) have "length (G ! j) = STACK_LIMIT" by (auto simp: full_before_def)
  with assms(3) j show "length (G[i := G ! i @ [r]] ! j) = STACK_LIMIT" by (cases "j = i") auto
qed

definition stacked :: "calendar \<Rightarrow> bool \<Rightarrow> Preview list \<Rightarrow> Preview list list \<Rightarrow> stack_state \<Rightarrow> bool" where
  "stacked K similar rows G st \<longleftrightarrow> fst st = map (entry_of similar) G \<and> mset (concat G) = mset rows
     \<and> (\<forall>g\<in>set G. stack_rows_ok K similar g) \<and> full_before similar (stack_keys K G) G
     \<and> (similar \<longrightarrow> stack_index (stack_keys K G) (snd st))"

lemma stack_rows_single [simp]: "stack_rows_ok K similar [r]"
  by (simp add: stack_rows_ok_def STACK_LIMIT_def)

lemma index_full_row:
  assumes "stacked K similar rows G st" "similar"
    and "case snd st (d, k) of None \<Rightarrow> True | Some i \<Rightarrow> \<not> length (G ! i) < STACK_LIMIT"
    and i: "i < length G" "stack_keys K G ! i = (d, Some k)"
  shows "length (G ! i) = STACK_LIMIT"
proof (cases "(d, Some k) \<in> set (drop (Suc i) (stack_keys K G))")
  case True
  from assms(1) have "full_before similar (stack_keys K G) G" by (simp add: stacked_def)
  with True assms(2) i show ?thesis unfolding full_before_def by (metis option.distinct(1) snd_conv)
next
  case False
  have idx: "case snd st (d, k) of None \<Rightarrow> (d, Some k) \<notin> set (stack_keys K G)
     | Some j \<Rightarrow> j < length (stack_keys K G) \<and> stack_keys K G ! j = (d, Some k) \<and> (d, Some k) \<notin> set (drop (Suc j) (stack_keys K G))"
    using assms(1,2) by (intro stack_indexD) (simp add: stacked_def)
  have "(d, Some k) \<in> set (stack_keys K G)" using i by (metis nth_mem stack_keys_simps(1))
  with idx obtain j where j: "snd st (d, k) = Some j" "j < length G" "stack_keys K G ! j = (d, Some k)"
      "(d, Some k) \<notin> set (drop (Suc j) (stack_keys K G))"
    by (auto split: option.splits)
  have later: "stack_keys K G ! b \<in> set (drop (Suc a) (stack_keys K G))" if "a < b" "b < length G" for a b
    using that by (auto simp: in_set_conv_nth intro!: exI [of _ "b - Suc a"])
  have "i = j" using later [of i j] later [of j i] False j i by (metis linorder_neqE_nat)
  moreover have "length (G ! j) \<le> STACK_LIMIT"
    using assms(1) j(2) by (auto simp: stacked_def stack_rows_ok_def)
  ultimately show ?thesis using assms(3) j(1) by simp
qed

lemma stack_step:
  assumes st: "stacked K similar rows G st"
  shows "\<exists>G'. stacked K similar (rows @ [r]) G' (stack_row K similar r st)"
proof -
  obtain entries stacks where [simp]: "st = (entries, stacks)" by (cases st)
  note ok = st [unfolded stacked_def, simplified]
  show ?thesis
  proof (cases "similar \<longrightarrow> pv_repeat_key r = None")
    case True
    have bare: "r\<lparr>pv_repeat_key := None\<rparr> = r" if "pv_repeat_key r = None" using that by (cases r) simp
    have "(if similar then pv_repeat_key r else None) = None" using True by simp
    then have "stack_row K similar r st = (entries @ [entry_of similar [r]], stacks)"
      using bare by (cases similar) (simp_all add: stack_row_def entry_of_def Let_def)
    moreover have "full_before similar (stack_keys K G @ [stack_key K r]) (G @ [[r]])"
      using ok True by (intro full_before_snoc) (auto simp: stack_key_def)
    moreover have "similar \<longrightarrow> stack_index (stack_keys K G @ [stack_key K r]) stacks"
      using ok True by (auto intro!: stack_index_snoc_other simp: stack_key_def)
    ultimately have "stacked K similar (rows @ [r]) (G @ [[r]]) (stack_row K similar r st)"
      using ok by (simp add: stacked_def)
    then show ?thesis ..
  next
    case False
    then obtain k where sim: "similar" and k: "pv_repeat_key r = Some k" by (cases "pv_repeat_key r") auto
    let ?d = "date_str K (pv_created r)"
    have key: "stack_key K r = (?d, Some k)" by (simp add: stack_key_def k)
    show ?thesis
    proof (cases "case stacks (?d, k) of None \<Rightarrow> True | Some i \<Rightarrow> \<not> length (G ! i) < STACK_LIMIT")
      case True
      have idx: "i < length G" if "stacks (?d, k) = Some i" for i
        using stack_indexD [of "stack_keys K G" stacks ?d k] ok sim that by simp
      have "stack_row K similar r st = (entries @ [entry_of similar [r]], stacks((?d, k) \<mapsto> length G))"
        using True ok sim k idx by (auto simp: stack_row_def entry_of_def Let_def split: option.splits)
      moreover have "full_before similar (stack_keys K G @ [stack_key K r]) (G @ [[r]])"
      proof (rule full_before_snoc)
        show "length (G ! i) = STACK_LIMIT" if "i < length G" "stack_keys K G ! i = stack_key K r" for i
          by (rule index_full_row [OF st sim, of ?d k]) (use True that key in auto)
      qed (use ok in auto)
      moreover have "stack_index (stack_keys K G @ [stack_key K r]) (stacks((?d, k) \<mapsto> length G))"
        using stack_index_snoc [of "stack_keys K G" stacks ?d k] ok sim by (simp add: key)
      ultimately have "stacked K similar (rows @ [r]) (G @ [[r]]) (stack_row K similar r st)"
        using ok by (simp add: stacked_def)
      then show ?thesis ..
    next
      case False
      then obtain i where i: "stacks (?d, k) = Some i" "length (G ! i) < STACK_LIMIT" by (auto split: option.splits)
      with ok sim have il: "i < length G" "stack_keys K G ! i = (?d, Some k)"
        using stack_indexD [of "stack_keys K G" stacks ?d k] by auto
      from il ok have g: "stack_rows_ok K similar (G ! i)" by simp
      then have ne: "G ! i \<noteq> []" by (simp add: stack_rows_ok_def)
      let ?G = "G[i := G ! i @ [r]]"
      have hdk: "stack_key K (hd (G ! i)) = stack_key K r" using il by (simp add: stack_keys_def key)
      have grown: "stack_rows_ok K similar (G ! i @ [r])"
      proof -
        have "pv_repeat_key (hd (G ! i)) = Some k" using hdk k by (simp add: stack_key_def)
        with g hdk i(2) sim ne show ?thesis by (simp add: stack_rows_ok_def)
      qed
      have "stack_row K similar r st = (map (entry_of similar) ?G, stacks)"
        using ok sim k i il ne
        by (auto simp: stack_row_def Let_def map_update entry_of_def)
      moreover have "mset (concat ?G) = mset (rows @ [r])"
      proof -
        have "mset (concat ?G) = mset (concat G) + {#r#}"
          using il(1) by (induction G arbitrary: i) (auto split: nat.splits)
        then show ?thesis using ok by simp
      qed
      moreover have "\<forall>g\<in>set ?G. stack_rows_ok K similar g"
        using ok grown set_update_subset_insert [of G i "G ! i @ [r]"] by blast
      moreover have "full_before similar (stack_keys K ?G) ?G"
        using ok i(2) il(1) ne by (simp add: stack_keys_grow full_before_grow)
      moreover have "stack_index (stack_keys K ?G) stacks" using ok sim il(1) ne by (simp add: stack_keys_grow)
      ultimately have "stacked K similar (rows @ [r]) ?G (stack_row K similar r st)" by (simp add: stacked_def)
      then show ?thesis ..
    qed
  qed
qed

lemma stack_rows_of: "\<exists>G. stacked K similar rows G (fold (stack_row K similar) rows ([], Map.empty))"
proof (induction rows rule: rev_induct)
  case Nil
  have "stacked K similar [] [] ([], Map.empty)"
    by (simp add: stacked_def full_before_def stack_index_def stack_keys_def)
  then show ?case by auto
next
  case (snoc r rows)
  then show ?case using stack_step by fastforce
qed

text \<open>
  C25. Stacking repeats loses nothing and confuses nothing. The entries are those of a division of the rows into
  groups: every row is in exactly one group, an entry's members are the places of its group's rows and its preview
  is that of the first; a group has 1 to 50 rows of one day with the same text, category and urgency, has more
  than one only if grouping is on and all of them are fully represented and without actions, and a second group of
  the same repeats starts only when the first has 50 rows.
\<close>

theorem repeats_stack_exactly:
  "\<exists>G. stack K rows similar = map (entry_of similar) G \<and> mset (concat G) = mset rows
    \<and> (\<forall>g\<in>set G. 1 \<le> length g \<and> length g \<le> 50
        \<and> (\<forall>p\<in>set g. \<forall>q\<in>set g. date_str K (pv_created p) = date_str K (pv_created q) \<and> pv_repeat_key p = pv_repeat_key q)
        \<and> (1 < length g \<longrightarrow> similar \<and> (\<forall>p\<in>set g. pv_repeat_key p \<noteq> None)))
    \<and> (\<forall>i j. i < j \<and> j < length G \<and> similar \<and> pv_repeat_key (hd (G ! i)) \<noteq> None
        \<and> stack_key K (hd (G ! i)) = stack_key K (hd (G ! j)) \<longrightarrow> length (G ! i) = 50)"
proof -
  from stack_rows_of [of K similar rows] obtain G where
    G: "stacked K similar rows G (fold (stack_row K similar) rows ([], Map.empty))" ..
  then have ok: "\<forall>g\<in>set G. stack_rows_ok K similar g" and full: "full_before similar (stack_keys K G) G"
    and basic: "stack K rows similar = map (entry_of similar) G" "mset (concat G) = mset rows"
    by (simp_all add: stacked_def stack_def)
  have each: "1 \<le> length g \<and> length g \<le> 50
      \<and> (\<forall>p\<in>set g. \<forall>q\<in>set g. date_str K (pv_created p) = date_str K (pv_created q) \<and> pv_repeat_key p = pv_repeat_key q)
      \<and> (1 < length g \<longrightarrow> similar \<and> (\<forall>p\<in>set g. pv_repeat_key p \<noteq> None))" if "g \<in> set G" for g
  proof -
    have g: "stack_rows_ok K similar g" using ok that by blast
    then have "stack_key K p = stack_key K (hd g)" if "p \<in> set g" for p
      using that unfolding stack_rows_ok_def by blast
    then have same: "date_str K (pv_created p) = date_str K (pv_created (hd g)) \<and> pv_repeat_key p = pv_repeat_key (hd g)"
      if "p \<in> set g" for p
      using that unfolding stack_key_def by blast
    have "1 \<le> length g" using g unfolding stack_rows_ok_def by (cases g) simp_all
    moreover have "length g \<le> 50" "1 < length g \<longrightarrow> similar \<and> pv_repeat_key (hd g) \<noteq> None"
      using g unfolding stack_rows_ok_def STACK_LIMIT_def by blast+
    moreover have "date_str K (pv_created p) = date_str K (pv_created q) \<and> pv_repeat_key p = pv_repeat_key q"
      if "p \<in> set g" "q \<in> set g" for p q
      using same [OF that(1)] same [OF that(2)] by simp
    ultimately show ?thesis using same by metis
  qed
  have full_stack: "length (G ! i) = 50" if "i < j \<and> j < length G \<and> similar \<and> pv_repeat_key (hd (G ! i)) \<noteq> None
      \<and> stack_key K (hd (G ! i)) = stack_key K (hd (G ! j))" for i j
  proof -
    have "stack_keys K G ! i = stack_key K (hd (G ! i))" "stack_keys K G ! j = stack_key K (hd (G ! i))"
      using that by (simp_all add: stack_keys_def)
    moreover have "stack_keys K G ! j \<in> set (drop (Suc i) (stack_keys K G))"
      using that by (auto simp: in_set_conv_nth intro!: exI [of _ "j - Suc i"])
    ultimately show ?thesis
      using full that unfolding full_before_def STACK_LIMIT_def by (auto simp: stack_key_def simp del: not_None_eq)
  qed
  show ?thesis
  proof (intro exI [of _ G] conjI)
    show "\<forall>g\<in>set G. 1 \<le> length g \<and> length g \<le> 50
      \<and> (\<forall>p\<in>set g. \<forall>q\<in>set g. date_str K (pv_created p) = date_str K (pv_created q) \<and> pv_repeat_key p = pv_repeat_key q)
      \<and> (1 < length g \<longrightarrow> similar \<and> (\<forall>p\<in>set g. pv_repeat_key p \<noteq> None))"
      by (rule ballI) (rule each)
    show "\<forall>i j. i < j \<and> j < length G \<and> similar \<and> pv_repeat_key (hd (G ! i)) \<noteq> None
        \<and> stack_key K (hd (G ! i)) = stack_key K (hd (G ! j)) \<longrightarrow> length (G ! i) = 50"
      by (intro allI impI) (rule full_stack)
  qed (rule basic)+
qed

section \<open>Buckets\<close>

definition bucket_of :: "(Preview \<Rightarrow> string) \<Rightarrow> string \<Rightarrow> Preview list \<Rightarrow> Preview list option" where
  "bucket_of key k rows = (case filter (\<lambda>r. key r = k) rows of [] \<Rightarrow> None | r # rs \<Rightarrow> Some (r # rs))"

lemma bucket_of_simps:
  "unwrap_or [] (bucket_of key k rows) = filter (\<lambda>r. key r = k) rows"
  "(case bucket_of key k rows of None \<Rightarrow> 0 | Some rs \<Rightarrow> length rs) = length (filter (\<lambda>r. key r = k) rows)"
  by (simp_all add: bucket_of_def split: list.splits)

lemma buckets_ok: "om_ok (fold (bucket_row key) rows [])"
proof -
  have "om_ok b \<Longrightarrow> om_ok (fold (bucket_row key) rows b)" for b
    by (induction rows arbitrary: b) (simp_all add: bucket_row_def)
  then show ?thesis by simp
qed

lemma buckets_get: "om_get (fold (bucket_row key) rows []) k = bucket_of key k rows"
proof (induction rows arbitrary: k rule: rev_induct)
  case (snoc r rows)
  have "om_get (fold (bucket_row key) (rows @ [r]) []) k =
      (if k = key r then Some (unwrap_or [] (bucket_of key k rows) @ [r]) else bucket_of key k rows)"
    by (simp add: bucket_row_def buckets_ok snoc.IH)
  also have "\<dots> = bucket_of key k (rows @ [r])"
    by (simp add: bucket_of_simps) (auto simp: bucket_of_def split: list.splits)
  finally show ?case .
qed (simp add: bucket_of_def)

lemma bucket_entry:
  "(k, rs) \<in> set (fold (bucket_row key) rows []) \<longleftrightarrow> rs = filter (\<lambda>r. key r = k) rows \<and> rs \<noteq> []"
  by (auto simp: om_get_mem [OF buckets_ok] buckets_get bucket_of_def split: list.splits)

lemma bucket_keys: "set (om_keys (fold (bucket_row key) rows [])) = key ` set rows"
proof -
  have "k \<in> set (om_keys (fold (bucket_row key) rows [])) \<longleftrightarrow> filter (\<lambda>r. key r = k) rows \<noteq> []" for k
  proof -
    have "k \<in> set (om_keys (fold (bucket_row key) rows [])) \<longleftrightarrow> bucket_of key k rows \<noteq> None"
      using om_has_get [of k "fold (bucket_row key) rows []"] by (simp only: om_has_def buckets_get)
    then show ?thesis by (simp add: bucket_of_def split: list.splits)
  qed
  then show ?thesis by (intro set_eqI) (simp only: filter_empty_conv, blast)
qed

lemma period_in_PERIODS: "period K created today \<in> set PERIODS"
  by (simp add: period_def PERIODS_def Let_def split: option.split)

lemma timeline_dates_count:
  fixes rows :: "Preview list" and query :: CenterQuery and K :: calendar and today :: int
  defines "key \<equiv> bucket_key K query today"
  shows "b \<in> set (timeline_dates (period_groups query) (fold (bucket_row key) rows []))
      \<Longrightarrow> bk_count b = length (filter (\<lambda>r. key r = bk_key b) rows)"
    and "distinct (map bk_key (timeline_dates (period_groups query) (fold (bucket_row key) rows [])))"
    and "key ` set rows \<subseteq> bk_key ` set (timeline_dates (period_groups query) (fold (bucket_row key) rows []))"
    and "\<not> period_groups query \<Longrightarrow>
      sorted_wrt (\<lambda>a b. bk_key b < bk_key a) (timeline_dates (period_groups query) (fold (bucket_row key) rows []))"
proof -
  let ?B = "fold (bucket_row key) rows []"
  show "bk_count b = length (filter (\<lambda>r. key r = bk_key b) rows)" if "b \<in> set (timeline_dates (period_groups query) ?B)"
    using that by (auto simp: timeline_dates_def buckets_get bucket_of_simps bucket_entry split: if_splits)
  have ks: "map bk_key (timeline_dates False ?B) = rev (om_keys ?B)"
    by (simp add: timeline_dates_def rev_map comp_def case_prod_beta)
  show "distinct (map bk_key (timeline_dates (period_groups query) ?B))"
  proof (cases "period_groups query")
    case True
    then show ?thesis by (simp add: timeline_dates_def comp_def PERIODS_def)
  next
    case False
    then show ?thesis using om_ok_distinct [OF buckets_ok] by (simp only: ks distinct_rev)
  qed
  show "key ` set rows \<subseteq> bk_key ` set (timeline_dates (period_groups query) ?B)"
  proof (cases "period_groups query")
    case True
    then show ?thesis using period_in_PERIODS by (auto simp: timeline_dates_def key_def bucket_key_def image_comp)
  next
    case False
    then have "bk_key ` set (timeline_dates (period_groups query) ?B) = set (rev (om_keys ?B))"
      by (simp only: ks [symmetric] set_map)
    then show ?thesis using bucket_keys [of key rows] by simp
  qed
  show "sorted_wrt (\<lambda>a b. bk_key b < bk_key a) (timeline_dates (period_groups query) ?B)" if "\<not> period_groups query"
  proof -
    have "sorted_wrt (\<lambda>a b. b < a) (rev (om_keys ?B))"
      using buckets_ok [of key rows] by (simp only: om_ok_def sorted_wrt_rev)
    then show ?thesis using that by (simp only: ks [symmetric] sorted_wrt_map)
  qed
qed

lemma stack_members: "(\<Sum>e\<leftarrow>stack K rows similar. length (te_members e)) = length rows"
proof -
  from stack_rows_of [of K similar rows] obtain G where
    "stack K rows similar = map (entry_of similar) G" "mset (concat G) = mset rows"
    by (auto simp: stacked_def stack_def)
  then show ?thesis
    by (simp add: comp_def entry_of_def) (metis length_concat size_mset)
qed


section \<open>Walking the applications\<close>

definition center_catalog :: "centerenv \<Rightarrow> CatalogRecord list result option \<Rightarrow> string \<Rightarrow> EngineData \<Rightarrow> Preview list" where
  "center_catalog Z store query d =
     (let active = snd (catalog_snapshot d) in case store of
        Some (Inr table) \<Rightarrow> center_rows Z query table active
      | _ \<Rightarrow> map (\<lambda>n. Preview_from_active (ce_history Z) (ce_notification Z) n query) active)"

definition ask_center ::
  "centerenv \<Rightarrow> string \<Rightarrow> CatalogRecord list result option \<Rightarrow> int \<Rightarrow> EngineData \<Rightarrow> CenterQuery \<Rightarrow> nat
   \<Rightarrow> (AppSummary list \<times> nat option) option" where
  "ask_center Z epoch store today d query offset =
     (case query_center Z epoch True True store today d
        (query\<lparr>cq_offset := offset, cq_epoch := Some epoch, cq_revision := Some (show_nat (history_revision d))\<rparr>) of
        Inr (Apps p) \<Rightarrow> Some (ap_apps p, ap_next_offset p) | _ \<Rightarrow> None)"

lemma length_app_summaries: "length (app_summaries rows) \<le> length rows"
proof -
  have "as_key ` set (app_summaries rows) \<subseteq> pv_app_key ` set rows"
  proof
    fix k assume "k \<in> as_key ` set (app_summaries rows)"
    then obtain a where "a \<in> set (app_summaries rows)" "as_key a = k" by blast
    then obtain rest where "found_previews k rows = as_latest a # rest" using app_summaries_mem [of a rows] by auto
    then have "as_latest a \<in> set (found_previews k rows)" by simp
    then show "k \<in> pv_app_key ` set rows" by auto
  qed
  then have "card (set (map as_key (app_summaries rows))) \<le> card (pv_app_key ` set rows)"
    by (simp add: card_mono)
  also have "\<dots> \<le> length rows" using card_image_le [of "set rows" pv_app_key] card_length [of rows] by simp
  finally show ?thesis by (simp only: distinct_card [OF app_keys_distinct] length_map)
qed

lemma normalize_query:
  "CenterQuery_normalize H q = Inr q' \<Longrightarrow> o' \<le> 5200 \<Longrightarrow>
     CenterQuery_normalize H (q\<lparr>cq_offset := o', cq_epoch := x, cq_revision := y\<rparr>) =
       Inr (q'\<lparr>cq_offset := o', cq_epoch := x, cq_revision := y\<rparr>)"
  by (auto simp: CenterQuery_normalize_def hbind_Inr split: if_splits option.splits)

lemma normalize_view: "CenterQuery_normalize H q = Inr q' \<Longrightarrow> cq_view q' = cq_view q"
  by (auto simp: CenterQuery_normalize_def hbind_Inr split: if_splits option.splits)

lemma apps_page_frame: "apps_page rows (q\<lparr>cq_offset := o', cq_epoch := x, cq_revision := y\<rparr>) = apps_page rows (q\<lparr>cq_offset := o'\<rparr>)"
  by (simp add: fun_eq_iff apps_page_def)

lemma center_catalog_bound:
  assumes "length (ed_active d) \<le> 200"
  shows "length (center_catalog Z store query d) \<le> 5200"
proof -
  have "length (snd (catalog_snapshot d)) \<le> 200"
    using assms by (auto simp: catalog_snapshot_def intro: order_trans [OF length_filter_le])
  moreover have "length (filter P (read_candidates Z query table)) \<le> 5000" for P table
    by (auto simp: read_candidates_def scope_rows_def SCOPE_LIMIT_def intro: order_trans [OF length_filter_le])
  ultimately show ?thesis
    by (auto simp: center_catalog_def center_rows_def Let_def split: option.split sum.split intro: add_mono [of _ 5000 _ 200, simplified])
qed

lemma ask_center_page:
  assumes norm: "CenterQuery_normalize (ce_history Z) query = Inr q" and view: "cq_view query = ''apps''"
    and store: "case store of Some table \<Rightarrow> is_ok table | None \<Rightarrow> True" and small: "offset \<le> 5200"
    and fits: "\<And>p. length (ap_apps p) \<le> 50 \<Longrightarrow> \<exists>n\<le>PAGE_BYTES. page_len Z (Apps p) = Inr n"
  shows "ask_center Z epoch store today d query offset =
    ask_apps (sort_key preview_recency (center_catalog Z store (cq_query q) d)) q epoch (history_revision d) offset"
proof -
  obtain revision active where s: "catalog_snapshot d = (revision, active)" by (cases "catalog_snapshot d")
  then have r: "revision = history_revision d" by (simp add: catalog_snapshot_def)
  let ?q = "q\<lparr>cq_offset := offset, cq_epoch := Some epoch, cq_revision := Some (show_nat (history_revision d))\<rparr>"
  let ?rows = "center_catalog Z store (cq_query q) d"
  have valid: "validate_revision ?q epoch revision = Inr ()" by (simp add: validate_revision_def r)
  have apps: "center_project_at Z rows ?q epoch revision today lookup =
      checked Z (Apps (apps_page (sort_key preview_recency rows) ?q epoch revision))" for rows lookup
    using valid normalize_view [OF norm] view by (simp add: center_project_at_def)
  have "query_center Z epoch True True store today d
      (query\<lparr>cq_offset := offset, cq_epoch := Some epoch, cq_revision := Some (show_nat (history_revision d))\<rparr>)
    = checked Z (Apps (apps_page (sort_key preview_recency ?rows) ?q epoch revision))"
    using store valid apps normalize_view [OF norm] view
    by (auto simp: query_center_def normalize_query [OF norm small] query_center_admitted_def s store_center_def
        center_detail_def center_catalog_def is_ok_def Let_def split: option.splits sum.splits)
  moreover obtain n where "n \<le> PAGE_BYTES" "page_len Z (Apps (apps_page (sort_key preview_recency ?rows) ?q epoch revision)) = Inr n"
    using fits [of "apps_page (sort_key preview_recency ?rows) ?q epoch revision"] by (auto simp: apps_page_def Let_def APP_PAGE_SIZE_def)
  ultimately show ?thesis
    by (simp add: ask_center_def checked_def ask_apps_def apps_page_frame r Let_def)
qed


definition example_hints :: henv where
  "example_hints = \<lparr>lowercase = id, record_len = (\<lambda>_. Ok 1), notification_len = (\<lambda>_. Ok 1),
     encode_cursor = (\<lambda>_. Ok []), decode_cursor = (\<lambda>_. None)\<rparr>"

definition example_center :: centerenv where
  "example_center = \<lparr>ce_history = example_hints, ce_notification = nc_env example_conf,
     ce_calendar = \<lparr>local_day = (\<lambda>t. Some (int (t div 86400000))), day_text = (\<lambda>d. show_nat (nat d)),
       from_monday = (\<lambda>d. nat ((d + 3) mod 7)), year_month = (\<lambda>d. (1970, 1)), first_day = - 96465292\<rparr>,
     page_len = (\<lambda>_. Ok 1)\<rparr>"

definition example_center_query :: CenterQuery where
  "example_center_query = \<lparr>cq_view = ''apps'', cq_query = [], cq_offset = 0, cq_epoch = None, cq_revision = None,
     app_anchor = None, cq_app_key = None, cq_page = 1, page_anchor = None, cq_selected = None, cq_group_key = None,
     cq_date = None, period_groups = False, cq_period_day = None, timeline_anchor = None, group_similar = True\<rparr>"

lemma example_query_valid: "CenterQuery_normalize (ce_history example_center) example_center_query = Inr example_center_query"
  by (simp add: CenterQuery_normalize_def example_center_query_def example_center_def example_hints_def over_def
      normalize_search_def trim_def ws_strings_def Let_def)


definition example_preview :: "nat \<Rightarrow> string \<Rightarrow> Preview" where
  "example_preview n message = \<lparr>pv_id = n, pv_created = n, pv_app_key = ''named:app'', pv_app_name = ''app'', pv_app_icon = [],
     pv_identity_icon = [], pv_hints = \<lparr>ph_desktop_entry = [], ph_image_path = []\<rparr>, pv_summary = message, pv_body = [],
     pv_closed = None, pv_snoozed = None, pv_history_id = None, pv_matches = True, pv_group_key = [],
     pv_repeat_key = Some (message, [], [], 1)\<rparr>"

theorem repeats_stack_exactly_witness:
  "\<exists>G. stack (ce_calendar example_center) [example_preview 3 ''a'', example_preview 2 ''b'', example_preview 1 ''a''] True
      = map (entry_of True) G
    \<and> mset (concat G) = mset [example_preview 3 ''a'', example_preview 2 ''b'', example_preview 1 ''a'']"
  using repeats_stack_exactly [of "ce_calendar example_center"
      "[example_preview 3 ''a'', example_preview 2 ''b'', example_preview 1 ''a'']" True] by blast

theorem app_summaries_faithful_witness:
  "(\<Sum>a\<leftarrow>app_summaries (sort_key preview_recency [example_preview 2 ''b'', example_preview 3 ''a'']). as_count a) = 2"
proof -
  have "length (filter pv_matches [example_preview 2 ''b'', example_preview 3 ''a'']) = 2" by (simp add: example_preview_def)
  then show ?thesis using app_summaries_faithful [of "[example_preview 2 ''b'', example_preview 3 ''a'']"] by metis
qed


end
