(* ===== verification/State_Store.thy ===== *)
theory State_Store
  imports Ordered_Map Lid Critical_Battery
begin

text \<open>
  The published state: \<open>state.rs\<close> (the snapshot and its commits), \<open>state/publication.rs\<close> (publication identity),
  \<open>state/events.rs\<close> (domain sources and receivers), the projections of \<open>protocol/read_wire.rs\<close>, the monitors of
  \<open>daemon/tasks.rs\<close> and the forwarding of events in \<open>daemon/subscriptions.rs\<close>. Values of the domains that the
  store only compares and replaces are opaque (\<open>'v\<close>), as are the insets of a monitor (\<open>'i\<close>).
\<close>

section \<open>Streams\<close>

abbreviation POWER_SLEEP :: string where "POWER_SLEEP \<equiv> ''power-sleep.changed''"
abbreviation SLEEP_POLICY :: string where "SLEEP_POLICY \<equiv> ''sleep-policy.changed''"
abbreviation WORKAREA :: string where "WORKAREA \<equiv> ''workarea.changed''"
abbreviation COMPOSITOR :: string where "COMPOSITOR \<equiv> ''compositor.changed''"
abbreviation UPDATES :: string where "UPDATES \<equiv> ''updates.changed''"

definition STREAMS :: "string list" where
  "STREAMS = [''theme.changed'', ''activity.changed'', ''workspaces.changed'', WORKAREA, COMPOSITOR, ''media.changed'',
     ''audio.changed'', ''brightness.changed'', ''battery.changed'', ''power-profile.changed'', POWER_SLEEP, SLEEP_POLICY,
     ''display-policy.changed'', ''osd-hardware.changed'', ''notifications.changed'', ''notifications.active.changed'',
     UPDATES, ''timezone.changed'']"

text \<open>The streams whose domain is written by \<open>update\<close>.\<close>

definition REPLACED :: "string list" where
  "REPLACED = [''theme.changed'', ''activity.changed'', ''workspaces.changed'', ''timezone.changed'', UPDATES,
     ''notifications.active.changed'', ''notifications.changed'', ''power-profile.changed'', ''display-policy.changed'',
     ''osd-hardware.changed'', ''battery.changed'', ''brightness.changed'', ''audio.changed'', ''media.changed'']"

definition ordered :: "string \<Rightarrow> bool" where
  "ordered stream \<longleftrightarrow> stream \<in> {POWER_SLEEP, ''battery.changed'', ''notifications.active.changed'', ''osd-hardware.changed''}"

definition stream_semantics :: "string \<Rightarrow> string" where
  "stream_semantics stream = (if ordered stream then ''ordered-state'' else ''replaceable-state'')"

section \<open>Publications\<close>

definition MAX_REVISION :: nat where "MAX_REVISION = 9007199254740991"

record Publication =
  pb_epoch :: string
  pb_revision :: nat
  previous_epoch :: "string option"

text \<open>\<open>fresh\<close> is the epoch drawn from the random source.\<close>

definition Publication_new :: "string \<Rightarrow> Publication" where
  "Publication_new fresh = \<lparr>pb_epoch = fresh, pb_revision = 1, previous_epoch = None\<rparr>"

definition Publication_advance :: "string \<Rightarrow> Publication \<Rightarrow> Publication" where
  "Publication_advance fresh self =
     (if pb_revision self = MAX_REVISION
      then \<lparr>pb_epoch = fresh, pb_revision = 1, previous_epoch = Some (pb_epoch self)\<rparr>
      else self\<lparr>pb_revision := pb_revision self + 1\<rparr>)"

section \<open>The snapshot and its projections\<close>

record StoredPolicy = SleepPolicyState +
  sp_lid :: LidState
  sp_critical :: CriticalState

record 'i WorkAreaState =
  wa_available :: bool
  wa_revision :: nat
  wa_monitors :: "(string, 'i) omap"
  wa_error :: "string option"

record CompositorState =
  co_available :: bool
  co_revision :: nat
  animations_enabled :: "bool option"
  co_error :: "string option"

record ('v, 'i) BarSnapshot =
  publications :: "(string, Publication) omap"
  sn_replaced :: "string \<Rightarrow> 'v"
  sn_power_sleep :: PowerSleepState
  sn_sleep_policy :: StoredPolicy
  sn_workarea :: "'i WorkAreaState"
  sn_compositor :: CompositorState

datatype ('v, 'i) domain =
  D_Replaced 'v | D_Power_Sleep PowerSleepState | D_Sleep_Policy StoredPolicy | D_Work_Area "'i WorkAreaState"
| D_Compositor CompositorState

text \<open>
  A projection is the domain's value, its publication, and the reason when the domain's monitor has stopped: then
  the data says \<open>available: false\<close> and \<open>error\<close> is the reason.
\<close>

record ('v, 'i) wire =
  wi_domain :: "('v, 'i) domain"
  wi_publication :: "Publication option"
  wi_failure :: "string option"

definition read_domain :: "string \<Rightarrow> ('v, 'i) BarSnapshot \<Rightarrow> ('v, 'i) domain" where
  "read_domain stream snapshot =
     (if stream = POWER_SLEEP then D_Power_Sleep (sn_power_sleep snapshot)
      else if stream = SLEEP_POLICY then D_Sleep_Policy (sn_sleep_policy snapshot)
      else if stream = WORKAREA then D_Work_Area (sn_workarea snapshot)
      else if stream = COMPOSITOR then D_Compositor (sn_compositor snapshot)
      else D_Replaced (sn_replaced snapshot stream))"

definition initial_stream_data :: "string \<Rightarrow> ('v, 'i) BarSnapshot \<Rightarrow> ('v, 'i) wire option" where
  "initial_stream_data stream snapshot =
     (if stream \<in> set STREAMS then
        Some \<lparr>wi_domain = read_domain stream snapshot, wi_publication = om_get (publications snapshot) stream, wi_failure = None\<rparr>
      else None)"

section \<open>Sources and receivers\<close>

text \<open>
  A source keeps its events with their numbers and its counters. The runtime's channel behind it holds the latest
  event (replaceable state) or the last 128 (ordered state); what a receive gives is an answer of the runtime.
  \<open>rc_next\<close> is the place of the runtime's receiver in the sequence of events, \<open>rc_previous\<close> the number that the
  code keeps for a replaceable stream.
\<close>

type_synonym ('v, 'i) data = "('v, 'i) wire option"

record ('v, 'i) Source =
  src_sent :: "(nat \<times> ('v, 'i) data) list"
  src_events :: nat
  src_bytes :: nat
  src_lag :: nat
  src_coalesced :: nat

definition Source_new :: "('v, 'i) Source" where
  "Source_new = \<lparr>src_sent = [], src_events = 0, src_bytes = 0, src_lag = 0, src_coalesced = 0\<rparr>"

definition Source_send :: "(('v, 'i) data \<Rightarrow> nat) \<Rightarrow> ('v, 'i) data \<Rightarrow> ('v, 'i) Source \<Rightarrow> ('v, 'i) Source" where
  "Source_send json_len event self =
     (let revision = src_events self + 1 in
      self\<lparr>src_sent := src_sent self @ [(revision, event)], src_events := revision,
           src_bytes := src_bytes self + json_len event\<rparr>)"

record DomainReceiver =
  rc_stream :: string
  rc_next :: nat
  rc_previous :: nat

definition latest_revision :: "('v, 'i) Source \<Rightarrow> nat" where
  "latest_revision self = (if src_sent self = [] then 0 else fst (last (src_sent self)))"

definition Source_subscribe :: "string \<Rightarrow> ('v, 'i) Source \<Rightarrow> DomainReceiver" where
  "Source_subscribe stream self =
     \<lparr>rc_stream = stream, rc_next = length (src_sent self),
      rc_previous = (if ordered stream then 0 else latest_revision self)\<rparr>"

datatype answer = Got nat | Lagged nat

definition metrics_current :: "nat \<Rightarrow> ('v, 'i) Source \<Rightarrow> DomainReceiver \<Rightarrow> ('v, 'i) data \<times> ('v, 'i) Source \<times> DomainReceiver" where
  "metrics_current k self receiver =
     (case src_sent self ! k of (revision, event) \<Rightarrow>
      let skipped = revision - rc_previous receiver - 1 in
      (event, self\<lparr>src_coalesced := src_coalesced self + skipped\<rparr>, receiver\<lparr>rc_previous := revision, rc_next := k + 1\<rparr>))"

text \<open>An answer is an event of the sequence, or how many the receiver has missed.\<close>

definition recv ::
  "answer \<Rightarrow> ('v, 'i) Source \<Rightarrow> DomainReceiver \<Rightarrow> (nat + ('v, 'i) data) \<times> ('v, 'i) Source \<times> DomainReceiver" where
  "recv answer self receiver =
     (case answer of
        Got k \<Rightarrow>
          if ordered (rc_stream receiver) then (Inr (snd (src_sent self ! k)), self, receiver\<lparr>rc_next := k + 1\<rparr>)
          else (case metrics_current k self receiver of (event, self, receiver) \<Rightarrow> (Inr event, self, receiver))
      | Lagged missed \<Rightarrow>
          (Inl missed, self\<lparr>src_lag := src_lag self + missed\<rparr>, receiver\<lparr>rc_next := rc_next receiver + missed\<rparr>))"

text \<open>
  The documented answers: a receiver of replaceable state gets the latest event once it has changed; one of
  ordered state gets the next event while it is among the last 128, and else the number it has missed.
\<close>

definition CHANNEL :: nat where "CHANNEL = 128"

fun documented :: "('v, 'i) Source \<Rightarrow> DomainReceiver \<Rightarrow> answer \<Rightarrow> bool" where
  "documented src r (Got k) \<longleftrightarrow> k < length (src_sent src) \<and> rc_next r \<le> k
     \<and> (if ordered (rc_stream r) then k = rc_next r \<and> length (src_sent src) - k \<le> CHANNEL else k = length (src_sent src) - 1)"
| "documented src r (Lagged missed) \<longleftrightarrow> ordered (rc_stream r)
     \<and> rc_next r + missed + CHANNEL = length (src_sent src) \<and> 0 < missed"

section \<open>The store\<close>

text \<open>\<open>wakeups\<close> counts the notifications of the geometry and the preference monitor.\<close>

record ('v, 'i) StateStore =
  st_snapshot :: "('v, 'i) BarSnapshot"
  st_events :: "string \<Rightarrow> ('v, 'i) Source"
  failed_monitors :: "(string, string) omap"
  work_area_demand :: nat
  hyprland_connected :: bool
  wakeups :: nat
  compositor_failure :: "string option"

text \<open>What a call draws from outside: the length of an event as JSON and the epoch for a stream that needs one.\<close>

record ('v, 'i) draw =
  json_len :: "('v, 'i) data \<Rightarrow> nat"
  fresh_epoch :: "string \<Rightarrow> string"

definition StateStore_default :: "('v, 'i) draw \<Rightarrow> ('v, 'i) BarSnapshot \<Rightarrow> ('v, 'i) StateStore" where
  "StateStore_default C defaults =
     \<lparr>st_snapshot = defaults\<lparr>publications := fold (\<lambda>s. om_insert s (Publication_new (fresh_epoch C s))) STREAMS []\<rparr>,
      st_events = (\<lambda>_. Source_new), failed_monitors = [], work_area_demand = 0, hyprland_connected = False,
      wakeups = 0, compositor_failure = None\<rparr>"

definition unhealthy :: "('v, 'i) StateStore \<Rightarrow> string \<Rightarrow> ('v, 'i) data \<Rightarrow> ('v, 'i) data" where
  "unhealthy self stream data =
     (case om_get (failed_monitors self) stream of
        None \<Rightarrow> data | Some reason \<Rightarrow> map_option (wi_failure_update (\<lambda>_. Some reason)) data)"

text \<open>What a reader is told of a stream: the projection of a healthy snapshot.\<close>

definition healthy :: "('v, 'i) StateStore \<Rightarrow> string \<Rightarrow> ('v, 'i) data" where
  "healthy self stream = unhealthy self stream (initial_stream_data stream (st_snapshot self))"

definition publish :: "('v, 'i) draw \<Rightarrow> string \<Rightarrow> ('v, 'i) StateStore \<Rightarrow> ('v, 'i) StateStore" where
  "publish C stream self =
     (case om_get (publications (st_snapshot self)) stream of
        None \<Rightarrow> self
      | Some p \<Rightarrow>
        let snapshot = (st_snapshot self)\<lparr>publications :=
              om_insert stream (Publication_advance (fresh_epoch C stream) p) (publications (st_snapshot self))\<rparr>;
            self = self\<lparr>st_snapshot := snapshot\<rparr> in
        self\<lparr>st_events := (st_events self)(stream :=
          Source_send (json_len C) (unhealthy self stream (initial_stream_data stream snapshot)) (st_events self stream))\<rparr>)"

definition on_snapshot :: "(('v, 'i) BarSnapshot \<Rightarrow> ('v, 'i) BarSnapshot) \<Rightarrow> ('v, 'i) StateStore \<Rightarrow> ('v, 'i) StateStore" where
  "on_snapshot f self = self\<lparr>st_snapshot := f (st_snapshot self)\<rparr>"

definition update :: "('v, 'i) draw \<Rightarrow> string \<Rightarrow> 'v \<Rightarrow> ('v, 'i) StateStore \<Rightarrow> ('v, 'i) StateStore" where
  "update C stream value self =
     (if sn_replaced (st_snapshot self) stream = value then self
      else publish C stream (on_snapshot (\<lambda>s. s\<lparr>sn_replaced := (sn_replaced s)(stream := value)\<rparr>) self))"

definition invalidate_update_history :: "('v, 'i) draw \<Rightarrow> ('v, 'i) StateStore \<Rightarrow> ('v, 'i) StateStore" where
  "invalidate_update_history C self = publish C UPDATES self"

definition update_sleep_policy :: "('v, 'i) draw \<Rightarrow> StoredPolicy \<Rightarrow> ('v, 'i) StateStore \<Rightarrow> ('v, 'i) StateStore" where
  "update_sleep_policy C value0 self =
     (let held = sn_sleep_policy (st_snapshot self);
          value = value0\<lparr>sp_lid := sp_lid held, sp_critical := sp_critical held\<rparr> in
      if held = value then self
      else publish C SLEEP_POLICY (on_snapshot (\<lambda>s. s\<lparr>sn_sleep_policy := value\<rparr>) self))"

definition update_critical_battery :: "('v, 'i) draw \<Rightarrow> CriticalState \<Rightarrow> ('v, 'i) StateStore \<Rightarrow> ('v, 'i) StateStore" where
  "update_critical_battery C value self =
     (if sp_critical (sn_sleep_policy (st_snapshot self)) = value then self
      else publish C SLEEP_POLICY (on_snapshot (\<lambda>s. s\<lparr>sn_sleep_policy := (sn_sleep_policy s)\<lparr>sp_critical := value\<rparr>\<rparr>) self))"

definition update_lid :: "('v, 'i) draw \<Rightarrow> LidState \<Rightarrow> ('v, 'i) StateStore \<Rightarrow> ('v, 'i) StateStore" where
  "update_lid C value self =
     (if sp_lid (sn_sleep_policy (st_snapshot self)) = value then self
      else publish C SLEEP_POLICY (on_snapshot (\<lambda>s. s\<lparr>sn_sleep_policy := (sn_sleep_policy s)\<lparr>sp_lid := value\<rparr>\<rparr>) self))"

definition update_work_area :: "('v, 'i) draw \<Rightarrow> 'i WorkAreaState \<Rightarrow> ('v, 'i) StateStore \<Rightarrow> ('v, 'i) StateStore" where
  "update_work_area C value0 self =
     (let held = sn_workarea (st_snapshot self); value = value0\<lparr>wa_revision := wa_revision held\<rparr> in
      if value = held then self
      else publish C WORKAREA (on_snapshot (\<lambda>s. s\<lparr>sn_workarea := value\<lparr>wa_revision := saturating_add_u64 (wa_revision value) 1\<rparr>\<rparr>) self))"

definition update_compositor :: "('v, 'i) draw \<Rightarrow> CompositorState \<Rightarrow> ('v, 'i) StateStore \<Rightarrow> ('v, 'i) StateStore" where
  "update_compositor C value0 self =
     (let held = sn_compositor (st_snapshot self); value = value0\<lparr>co_revision := co_revision held\<rparr> in
      if value = held then self
      else publish C COMPOSITOR (on_snapshot (\<lambda>s. s\<lparr>sn_compositor := value\<lparr>co_revision := saturating_add_u64 (co_revision value) 1\<rparr>\<rparr>) self))"

definition record_sleep_operation :: "('v, 'i) draw \<Rightarrow> SleepOperation \<Rightarrow> ('v, 'i) StateStore \<Rightarrow> ('v, 'i) StateStore" where
  "record_sleep_operation C observed_op self =
     (if ps_operation (sn_power_sleep (st_snapshot self)) = observed_op then self
      else publish C POWER_SLEEP (on_snapshot (\<lambda>s. s\<lparr>sn_power_sleep := (sn_power_sleep s)\<lparr>ps_operation := observed_op\<rparr>\<rparr>) self))"

definition commit_power_sleep ::
  "('v, 'i) draw \<Rightarrow> PowerSleepState option \<Rightarrow> bool \<Rightarrow> bool option \<Rightarrow> PowerSleepState option \<Rightarrow> ('v, 'i) StateStore
   \<Rightarrow> bool \<times> ('v, 'i) StateStore" where
  "commit_power_sleep C value resumed preparing expected self =
     (let current = sn_power_sleep (st_snapshot self) in
      if (case expected of Some e \<Rightarrow> e \<noteq> current | None \<Rightarrow> False) then (False, self)
      else
        let next = (case value of None \<Rightarrow> current | Some v \<Rightarrow> v);
            next = next\<lparr>resume_generation := saturating_add_u64 (resume_generation current) (if resumed then 1 else 0),
                        ps_operation := ps_operation current\<rparr>;
            next = (case preparing of None \<Rightarrow> next | Some b \<Rightarrow> next\<lparr>preparing_for_sleep := b\<rparr>) in
        if current = next then (True, self)
        else (True, publish C POWER_SLEEP (on_snapshot (\<lambda>s. s\<lparr>sn_power_sleep := next\<rparr>) self)))"

definition update_power_sleep :: "('v, 'i) draw \<Rightarrow> PowerSleepState \<Rightarrow> ('v, 'i) StateStore \<Rightarrow> ('v, 'i) StateStore" where
  "update_power_sleep C value self = snd (commit_power_sleep C (Some value) False None None self)"

definition update_power_sleep_if_unchanged ::
  "('v, 'i) draw \<Rightarrow> PowerSleepState \<Rightarrow> PowerSleepState \<Rightarrow> ('v, 'i) StateStore \<Rightarrow> bool \<times> ('v, 'i) StateStore" where
  "update_power_sleep_if_unchanged C value expected self = commit_power_sleep C (Some value) False None (Some expected) self"

definition record_resume :: "('v, 'i) draw \<Rightarrow> ('v, 'i) StateStore \<Rightarrow> ('v, 'i) StateStore" where
  "record_resume C self = snd (commit_power_sleep C None True (Some False) None self)"

definition record_sleep_preparation :: "('v, 'i) draw \<Rightarrow> bool \<Rightarrow> ('v, 'i) StateStore \<Rightarrow> ('v, 'i) StateStore" where
  "record_sleep_preparation C preparing self = snd (commit_power_sleep C None False (Some preparing) None self)"

definition monitor_failed :: "('v, 'i) draw \<Rightarrow> string \<Rightarrow> string list \<Rightarrow> string \<Rightarrow> ('v, 'i) StateStore \<Rightarrow> ('v, 'i) StateStore" where
  "monitor_failed C name streams reason self =
     (let text = name @ '' monitor '' @ reason @ ''; restart daemon to recover'' in
      fold (publish C) streams (self\<lparr>failed_monitors := fold (\<lambda>s. om_insert s text) streams (failed_monitors self)\<rparr>))"

definition set_hyprland_connected :: "bool \<Rightarrow> ('v, 'i) StateStore \<Rightarrow> ('v, 'i) StateStore" where
  "set_hyprland_connected now_connected self = self\<lparr>hyprland_connected := now_connected, wakeups := wakeups self + 1\<rparr>"

definition compositor_failed :: "string \<Rightarrow> ('v, 'i) StateStore \<Rightarrow> ('v, 'i) StateStore" where
  "compositor_failed failure self =
     (case compositor_failure self of Some _ \<Rightarrow> self | None \<Rightarrow> self\<lparr>compositor_failure := Some failure\<rparr>)"

definition work_area_interest :: "('v, 'i) StateStore \<Rightarrow> ('v, 'i) StateStore" where
  "work_area_interest self = self\<lparr>work_area_demand := work_area_demand self + 1\<rparr>"

definition WorkAreaInterest_drop :: "('v, 'i) StateStore \<Rightarrow> ('v, 'i) StateStore" where
  "WorkAreaInterest_drop self = self\<lparr>work_area_demand := work_area_demand self - 1\<rparr>"

section \<open>Monitors\<close>

definition MONITORS :: "(string \<times> string list) list" where
  "MONITORS = [(''activity'', [''activity.changed'']), (''hyprland'', [''workspaces.changed'']), (''work-area'', [WORKAREA]),
     (''compositor-preferences'', [COMPOSITOR]), (''media'', [''media.changed'']), (''audio'', [''audio.changed'']),
     (''brightness'', [''brightness.changed'']), (''osd-hardware'', [''osd-hardware.changed'']),
     (''battery'', [''battery.changed'']), (''power'', [''power-profile.changed'']), (''sleep'', [POWER_SLEEP]),
     (''sleep-policy'', [SLEEP_POLICY]), (''lid'', [SLEEP_POLICY]), (''critical-battery'', [SLEEP_POLICY]),
     (''display-policy'', [''display-policy.changed'']), (''updates'', [UPDATES]), (''timezone'', [''timezone.changed'']),
     (''notifications'', [''notifications.changed'', ''notifications.active.changed''])]"

definition supervise :: "('v, 'i) draw \<Rightarrow> string \<Rightarrow> string list \<Rightarrow> bool \<Rightarrow> ('v, 'i) StateStore \<Rightarrow> ('v, 'i) StateStore" where
  "supervise C name domains panicked self = monitor_failed C name domains (if panicked then ''panicked'' else ''exited'') self"

section \<open>Subscriptions\<close>

text \<open>
  What a subscriber is sent for one stream: the initial projection, changes and gaps. The forwarder of a stream
  starts with the projection read together with the registration.
\<close>

datatype ('v, 'i) emission = E_Subscribed "('v, 'i) data" | E_Changed "('v, 'i) data" | E_Gap nat

record ('v, 'i) forwarder =
  fw_receiver :: DomainReceiver
  fw_emitted :: "('v, 'i) emission list"

definition forwarder_of :: "string \<Rightarrow> ('v, 'i) StateStore \<Rightarrow> ('v, 'i) forwarder" where
  "forwarder_of stream self =
     \<lparr>fw_receiver = Source_subscribe stream (st_events self stream), fw_emitted = [E_Subscribed (healthy self stream)]\<rparr>"

record ('v, 'i) bus =
  bus_store :: "('v, 'i) StateStore"
  bus_forwarders :: "('v, 'i) forwarder list"

text \<open>The streams of a request are distinct and sorted; one with an unknown stream is refused as a whole.\<close>

definition subscribe_owned :: "string list \<Rightarrow> ('v, 'i) bus \<Rightarrow> bool \<times> ('v, 'i) bus" where
  "subscribe_owned streams self =
     (if list_ex (\<lambda>s. s \<notin> set STREAMS) streams then (False, self)
      else
        let store = (if WORKAREA \<in> set streams then work_area_interest (bus_store self) else bus_store self) in
        (True, self\<lparr>bus_store := store,
                    bus_forwarders := bus_forwarders self @ map (\<lambda>s. forwarder_of s store) (sort (remdups streams))\<rparr>))"

definition forward_event :: "answer \<Rightarrow> ('v, 'i) StateStore \<Rightarrow> ('v, 'i) forwarder \<Rightarrow> ('v, 'i) StateStore \<times> ('v, 'i) forwarder" where
  "forward_event answer store self =
     (let stream = rc_stream (fw_receiver self) in
      case recv answer (st_events store stream) (fw_receiver self) of
        (got, source, receiver) \<Rightarrow>
          (store\<lparr>st_events := (st_events store)(stream := source)\<rparr>,
           self\<lparr>fw_receiver := receiver,
                fw_emitted := fw_emitted self @ [case got of Inr event \<Rightarrow> E_Changed event | Inl missed \<Rightarrow> E_Gap missed]\<rparr>))"

section \<open>Steps\<close>

datatype ('v, 'i) commit =
  Update string 'v | Invalidate_Updates | Update_Sleep_Policy StoredPolicy | Update_Critical CriticalState | Update_Lid LidState
| Update_Work_Area "'i WorkAreaState" | Update_Compositor CompositorState | Record_Operation SleepOperation
| Update_Power_Sleep PowerSleepState | Update_If_Unchanged PowerSleepState PowerSleepState | Record_Resume
| Record_Preparation bool | Monitor_Ends "string \<times> string list" bool | Set_Connected bool | Compositor_Failed string
| Interest_Dropped

fun store_step :: "('v, 'i) draw \<Rightarrow> ('v, 'i) commit \<Rightarrow> ('v, 'i) StateStore \<Rightarrow> ('v, 'i) StateStore" where
  "store_step C (Update stream value) self = update C stream value self"
| "store_step C Invalidate_Updates self = invalidate_update_history C self"
| "store_step C (Update_Sleep_Policy value) self = update_sleep_policy C value self"
| "store_step C (Update_Critical value) self = update_critical_battery C value self"
| "store_step C (Update_Lid value) self = update_lid C value self"
| "store_step C (Update_Work_Area value) self = update_work_area C value self"
| "store_step C (Update_Compositor value) self = update_compositor C value self"
| "store_step C (Record_Operation value) self = record_sleep_operation C value self"
| "store_step C (Update_Power_Sleep value) self = update_power_sleep C value self"
| "store_step C (Update_If_Unchanged value expected) self = snd (update_power_sleep_if_unchanged C value expected self)"
| "store_step C Record_Resume self = record_resume C self"
| "store_step C (Record_Preparation b) self = record_sleep_preparation C b self"
| "store_step C (Monitor_Ends m panicked) self = supervise C (fst m) (snd m) panicked self"
| "store_step C (Set_Connected b) self = set_hyprland_connected b self"
| "store_step C (Compositor_Failed e) self = compositor_failed e self"
| "store_step C Interest_Dropped self = WorkAreaInterest_drop self"

text \<open>The methods of the store fix which stream is replaced; the monitors are those that are started.\<close>

fun commit_made :: "('v, 'i) commit \<Rightarrow> bool" where
  "commit_made (Update stream value) \<longleftrightarrow> stream \<in> set REPLACED"
| "commit_made (Monitor_Ends m panicked) \<longleftrightarrow> m \<in> set MONITORS"
| "commit_made _ \<longleftrightarrow> True"

inductive bus_reach :: "('v, 'i) bus \<Rightarrow> bool" where
  started: "bus_reach \<lparr>bus_store = StateStore_default C defaults, bus_forwarders = []\<rparr>"
| committed: "bus_reach b \<Longrightarrow> commit_made x \<Longrightarrow> bus_reach (b\<lparr>bus_store := store_step C x (bus_store b)\<rparr>)"
| subscribed: "bus_reach b \<Longrightarrow> bus_reach (snd (subscribe_owned streams b))"
| received: "bus_reach b \<Longrightarrow> i < length (bus_forwarders b)
    \<Longrightarrow> documented (st_events (bus_store b) (rc_stream (fw_receiver (bus_forwarders b ! i)))) (fw_receiver (bus_forwarders b ! i)) ans
    \<Longrightarrow> forward_event ans (bus_store b) (bus_forwarders b ! i) = (store, f)
    \<Longrightarrow> bus_reach (b\<lparr>bus_store := store, bus_forwarders := (bus_forwarders b)[i := f]\<rparr>)"

end
