(* ===== verification/Store_Theorems.thy ===== *)
theory Store_Theorems
  imports State_Store
begin

text \<open>
  What the state store guarantees: every change of a domain is published once, under the next publication identity;
  a subscriber that has taken what is pending knows the current state; the independent parts of a shared domain do
  not overwrite each other; the failure of a monitor stays visible.
\<close>

section \<open>Publications\<close>

definition advances :: "Publication option \<Rightarrow> Publication option \<Rightarrow> bool" where
  "advances p q \<longleftrightarrow> (\<exists>x fresh. p = Some x \<and> q = Some (Publication_advance fresh x))"

definition publication_ok :: "Publication \<Rightarrow> bool" where
  "publication_ok p \<longleftrightarrow> 1 \<le> pb_revision p \<and> pb_revision p \<le> MAX_REVISION"

lemma publication_new_ok [simp]: "publication_ok (Publication_new fresh)"
  by (simp add: publication_ok_def Publication_new_def MAX_REVISION_def)

lemma publication_advance_ok [simp]: "publication_ok p \<Longrightarrow> publication_ok (Publication_advance fresh p)"
  by (auto simp: publication_ok_def Publication_advance_def)

lemma advance_changes: "Publication_advance fresh p \<noteq> p"
proof
  assume "Publication_advance fresh p = p"
  then have "pb_revision (Publication_advance fresh p) = pb_revision p" by simp
  then show False by (simp add: Publication_advance_def MAX_REVISION_def split: if_splits)
qed

section \<open>What a commit does\<close>

definition event_publication :: "nat \<times> ('v, 'i) data \<Rightarrow> Publication option" where
  "event_publication e = Option.bind (snd e) wi_publication"

abbreviation sent :: "('v, 'i) StateStore \<Rightarrow> string \<Rightarrow> (nat \<times> ('v, 'i) data) list" where
  "sent t s \<equiv> src_sent (st_events t s)"

abbreviation publication :: "('v, 'i) StateStore \<Rightarrow> string \<Rightarrow> Publication option" where
  "publication t s \<equiv> om_get (publications (st_snapshot t)) s"

definition stream_ok :: "('v, 'i) StateStore \<Rightarrow> string \<Rightarrow> bool" where
  "stream_ok t s \<longleftrightarrow> (\<exists>p. publication t s = Some p \<and> publication_ok p)
     \<and> src_events (st_events t s) = length (sent t s)
     \<and> successively advances (map event_publication (sent t s))
     \<and> (\<forall>e\<in>set (sent t s). \<exists>p. event_publication e = Some p \<and> publication_ok p)
     \<and> (sent t s \<noteq> [] \<longrightarrow> event_publication (last (sent t s)) = publication t s)"

definition store_base :: "('v, 'i) StateStore \<Rightarrow> bool" where
  "store_base t \<longleftrightarrow> om_ok (publications (st_snapshot t)) \<and> (\<forall>s\<in>set STREAMS. stream_ok t s)"

text \<open>
  \<open>moves self t X\<close>: between \<open>self\<close> and \<open>t\<close> a stream outside \<open>X\<close> has either one more event, that says
  what it now is under a new publication, or none and is as it was; the streams of \<open>X\<close> are still to be published.
\<close>

definition moved :: "('v, 'i) StateStore \<Rightarrow> ('v, 'i) StateStore \<Rightarrow> string set \<Rightarrow> string \<Rightarrow> bool" where
  "moved self t X s \<longleftrightarrow>
     sent t s = sent self s \<and> publication t s = publication self s \<and> (s \<notin> X \<longrightarrow> healthy t s = healthy self s)
   \<or> s \<notin> X \<and> (\<exists>n. sent t s = sent self s @ [(n, healthy t s)]) \<and> publication t s \<noteq> publication self s"

definition moves :: "('v, 'i) StateStore \<Rightarrow> ('v, 'i) StateStore \<Rightarrow> string set \<Rightarrow> bool" where
  "moves self t X \<longleftrightarrow> store_base t \<and> (\<forall>s\<in>set STREAMS. moved self t X s)"

lemma stream_ok_cong: "publication u s = publication t s \<Longrightarrow> st_events u s = st_events t s \<Longrightarrow> stream_ok u s = stream_ok t s"
  by (simp add: stream_ok_def)

lemma moves_start:
  assumes "store_base t" and same: "publications (st_snapshot u) = publications (st_snapshot t)" "st_events u = st_events t"
    and "\<And>s. s \<notin> X \<Longrightarrow> healthy u s = healthy t s"
  shows "moves t u X"
proof -
  have "stream_ok u s = stream_ok t s" for s by (rule stream_ok_cong) (simp_all add: same)
  then show ?thesis using assms by (simp add: moves_def store_base_def moved_def)
qed

lemma moves_refl: "store_base t \<Longrightarrow> moves t t X"
  by (rule moves_start) simp_all

lemma moves_plain: "store_base t \<Longrightarrow> st_snapshot u = st_snapshot t \<Longrightarrow> st_events u = st_events t \<Longrightarrow>
    failed_monitors u = failed_monitors t \<Longrightarrow> moves t u {}"
  by (rule moves_start) (simp_all add: healthy_def unhealthy_def)

lemma moves_domain:
  assumes "store_base t" and pubs: "\<And>sn. publications (f sn) = publications sn"
    and dom: "\<And>u sn. u \<noteq> s \<Longrightarrow> read_domain u (f sn) = read_domain u sn"
  shows "moves t (on_snapshot f t) {s}"
  by (rule moves_start [OF assms(1)])
    (simp_all add: healthy_def unhealthy_def initial_stream_data_def on_snapshot_def pubs dom split: option.split)

lemma publish_other [simp]: "u \<noteq> s \<Longrightarrow> st_events (publish C s t) u = st_events t u"
  by (simp add: publish_def Let_def split: option.split)

lemma publish_events:
  "publication t s = Some p \<Longrightarrow> s \<in> set STREAMS \<Longrightarrow> om_ok (publications (st_snapshot t)) \<Longrightarrow>
     sent (publish C s t) s = sent t s @ [(src_events (st_events t s) + 1, healthy (publish C s t) s)]
     \<and> src_events (st_events (publish C s t) s) = src_events (st_events t s) + 1
     \<and> publications (st_snapshot (publish C s t)) = om_insert s (Publication_advance (fresh_epoch C s) p) (publications (st_snapshot t))
     \<and> event_publication (src_events (st_events t s) + 1, healthy (publish C s t) s) = Some (Publication_advance (fresh_epoch C s) p)"
  by (simp add: publish_def Let_def Source_send_def healthy_def unhealthy_def event_publication_def initial_stream_data_def
      split: option.split)

lemma healthy_publish_other: "u \<noteq> s \<Longrightarrow> om_ok (publications (st_snapshot t)) \<Longrightarrow> healthy (publish C s t) u = healthy t u"
  by (simp add: publish_def Let_def healthy_def unhealthy_def initial_stream_data_def read_domain_def split: option.split)

lemma successively_snoc: "successively P (xs @ [y]) \<longleftrightarrow> successively P xs \<and> (xs \<noteq> [] \<longrightarrow> P (last xs) y)"
  by (auto simp: successively_append_iff)

lemma moves_publish:
  assumes m: "moves self t X" and s: "s \<in> set STREAMS" "s \<in> X"
  shows "moves self (publish C s t) (X - {s})"
proof -
  from m have base: "store_base t" and mv: "\<And>u. u \<in> set STREAMS \<Longrightarrow> moved self t X u" by (simp_all add: moves_def)
  from base s have ok: "om_ok (publications (st_snapshot t))" and st: "stream_ok t s" by (auto simp: store_base_def)
  from st obtain p where p: "publication t s = Some p" "publication_ok p" by (auto simp: stream_ok_def)
  let ?u = "publish C s t"
  note ev = publish_events [OF p(1) s(1) ok, of C]
  have pubs: "publication ?u u = (if u = s then Some (Publication_advance (fresh_epoch C s) p) else publication t u)" for u
    using ev ok by simp
  have "stream_ok ?u s"
    using st p ev pubs [of s] unfolding stream_ok_def
    by (auto simp: successively_snoc advances_def last_map)
  moreover have "stream_ok ?u u" if "u \<noteq> s" "stream_ok t u" for u
    using that pubs [of u] by (simp add: stream_ok_def)
  ultimately have "stream_ok ?u u" if "u \<in> set STREAMS" for u
    using base that by (cases "u = s") (auto simp: store_base_def)
  then have "store_base ?u" using ev ok by (simp add: store_base_def)
  moreover have "moved self ?u (X - {s}) u" if "u \<in> set STREAMS" for u
  proof (cases "u = s")
    case True
    with mv [OF that] s(2) have "sent t s = sent self s" "publication self s = Some p" by (simp_all add: moved_def p(1))
    then show ?thesis using ev pubs [of s] advance_changes by (simp add: moved_def True)
  next
    case False
    then show ?thesis
      using mv [OF that] pubs [of u] healthy_publish_other [OF False ok, of C] by (simp add: moved_def)
  qed
  ultimately show ?thesis by (simp add: moves_def)
qed

lemma moves_commit:
  assumes "store_base t" "s \<in> set STREAMS" "\<And>sn. publications (f sn) = publications sn"
    and "\<And>u sn. u \<noteq> s \<Longrightarrow> read_domain u (f sn) = read_domain u sn"
  shows "moves t (publish C s (on_snapshot f t)) {}"
proof -
  have "moves t (on_snapshot f t) {s}" by (rule moves_domain [OF assms(1)]) (simp_all add: assms(3,4))
  from moves_publish [OF this assms(2), of C] show ?thesis by simp
qed

lemma moves_publish_all:
  "moves self t X \<Longrightarrow> set streams \<subseteq> set STREAMS \<inter> X \<Longrightarrow> distinct streams \<Longrightarrow>
     moves self (fold (publish C) streams t) (X - set streams)"
proof (induction streams arbitrary: t X)
  case (Cons s streams)
  have "moves self (fold (publish C) streams (publish C s t)) (X - {s} - set streams)"
    by (rule Cons.IH [OF moves_publish [OF Cons.prems(1)]]) (use Cons.prems(2,3) in auto)
  then show ?case by (simp add: Diff_insert2 [symmetric] set_diff_eq)
qed simp

lemma failures_get:
  "om_ok m \<Longrightarrow> om_get (fold (\<lambda>s. om_insert s text) streams m) u = (if u \<in> set streams then Some text else om_get m u)
     \<and> om_ok (fold (\<lambda>s. om_insert s text) streams m)"
  by (induction streams arbitrary: m) auto

lemma REPLACED_STREAMS: "set REPLACED \<subseteq> set STREAMS"
  by (simp add: REPLACED_def STREAMS_def)

lemma special_streams [simp]:
  "POWER_SLEEP \<in> set STREAMS" "SLEEP_POLICY \<in> set STREAMS" "WORKAREA \<in> set STREAMS" "COMPOSITOR \<in> set STREAMS"
  "UPDATES \<in> set STREAMS"
  by (simp_all add: STREAMS_def)

lemma MONITORS_STREAMS: "m \<in> set MONITORS \<Longrightarrow> set (snd m) \<subseteq> set STREAMS \<and> distinct (snd m)"
  by (auto simp: MONITORS_def STREAMS_def)

lemma moves_commit_power_sleep:
  "store_base t \<Longrightarrow> moves t (snd (commit_power_sleep C value resumed preparing expected t)) {}"
  by (auto simp: commit_power_sleep_def Let_def moves_refl read_domain_def intro!: moves_commit split: option.split)

lemma moves_supervise:
  assumes "store_base t" "set streams \<subseteq> set STREAMS \<and> distinct streams" "om_ok (failed_monitors t)"
  shows "moves t (supervise C name streams panicked t) {}"
proof -
  define text' where "text' = name @ '' monitor '' @ (if panicked then ''panicked'' else ''exited'') @ ''; restart daemon to recover''"
  define u where "u = t\<lparr>failed_monitors := fold (\<lambda>s. om_insert s text') streams (failed_monitors t)\<rparr>"
  have "moves t u (set streams)"
    by (rule moves_start [OF assms(1)]) (simp_all add: u_def healthy_def unhealthy_def failures_get [OF assms(3)])
  from moves_publish_all [OF this, of streams C] assms(2) show ?thesis
    by (simp add: supervise_def monitor_failed_def Let_def u_def text'_def)
qed

lemma moves_parts:
  assumes "store_base t"
  shows "moves t (update_sleep_policy C policy t) {}" "moves t (update_critical_battery C cs t) {}"
    "moves t (update_lid C lid t) {}" "moves t (update_work_area C w t) {}" "moves t (update_compositor C co t) {}"
    "moves t (record_sleep_operation C op' t) {}" "moves t (set_hyprland_connected b t) {}"
    "moves t (compositor_failed e t) {}" "moves t (WorkAreaInterest_drop t) {}" "moves t (work_area_interest t) {}"
  using assms
  by (auto simp: update_sleep_policy_def update_critical_battery_def update_lid_def update_work_area_def update_compositor_def
      record_sleep_operation_def Let_def moves_refl read_domain_def intro!: moves_commit)
    (auto simp: set_hyprland_connected_def compositor_failed_def WorkAreaInterest_drop_def work_area_interest_def
      moves_refl intro!: moves_plain split: option.split)

lemma store_step_moves:
  assumes ok: "store_base t" and made: "commit_made x" and failed: "om_ok (failed_monitors t)"
  shows "moves t (store_step C x t) {}"
proof (cases x)
  case (Update stream v)
  then have "stream \<in> set STREAMS" using made REPLACED_STREAMS by auto
  then show ?thesis
    using Update ok by (auto simp: update_def moves_refl read_domain_def intro!: moves_commit)
next
  case Invalidate_Updates
  then show ?thesis using moves_publish [OF moves_refl [OF ok, of "{UPDATES}"], of UPDATES C] by (simp add: invalidate_update_history_def)
next
  case (Monitor_Ends m panicked)
  then show ?thesis using moves_supervise [OF ok MONITORS_STREAMS failed] made by simp
qed (simp_all add: moves_parts ok moves_commit_power_sleep update_power_sleep_def update_power_sleep_if_unchanged_def
    record_resume_def record_sleep_preparation_def)

lemma publish_failed [simp]: "failed_monitors (publish C s t) = failed_monitors t"
  by (simp add: publish_def Let_def split: option.split)

lemma publish_all_failed [simp]: "failed_monitors (fold (publish C) streams t) = failed_monitors t"
  by (induction streams arbitrary: t) simp_all

lemma on_snapshot_failed [simp]: "failed_monitors (on_snapshot f t) = failed_monitors t"
  by (simp add: on_snapshot_def)

lemmas commit_defs = update_def invalidate_update_history_def update_sleep_policy_def update_critical_battery_def
  update_lid_def update_work_area_def update_compositor_def record_sleep_operation_def update_power_sleep_def
  update_power_sleep_if_unchanged_def record_resume_def record_sleep_preparation_def commit_power_sleep_def
  set_hyprland_connected_def compositor_failed_def WorkAreaInterest_drop_def

lemma store_step_failed:
  "om_ok (failed_monitors t) \<Longrightarrow> om_ok (failed_monitors (store_step C x t))
     \<and> (om_get (failed_monitors t) s \<noteq> None \<longrightarrow> om_get (failed_monitors (store_step C x t)) s \<noteq> None)"
  by (cases x) (auto simp: commit_defs Let_def supervise_def monitor_failed_def failures_get split: option.splits)

section \<open>Reachable buses\<close>

fun told :: "('v, 'i) emission list \<Rightarrow> ('v, 'i) data option" where
  "told [] = None"
| "told (e # es) = (case told es of Some d \<Rightarrow> Some d
     | None \<Rightarrow> (case e of E_Subscribed d \<Rightarrow> Some d | E_Changed d \<Rightarrow> Some d | E_Gap _ \<Rightarrow> None))"

lemma told_snoc [simp]:
  "told (es @ [E_Changed d]) = Some d" "told (es @ [E_Gap n]) = told es"
  by (induction es) (simp_all split: option.split)

text \<open>Following a stream from a place: a change is the event there, a gap skips as many as it says.\<close>

fun follow :: "('v, 'i) data list \<Rightarrow> nat \<Rightarrow> ('v, 'i) emission list \<Rightarrow> nat option" where
  "follow events p [] = Some p"
| "follow events p (E_Changed d # es) = (if p < length events \<and> events ! p = d then follow events (p + 1) es else None)"
| "follow events p (E_Gap n # es) = follow events (p + n) es"
| "follow events p (E_Subscribed _ # es) = None"

lemma follow_snoc: "follow events p (es @ [e]) = Option.bind (follow events p es) (\<lambda>q. follow events q [e])"
  by (induction events p es rule: follow.induct) (auto split: emission.split)

lemma follow_append: "follow events p es = Some q \<Longrightarrow> follow (events @ new) p es = Some q"
  by (induction events p es rule: follow.induct) (auto simp: nth_append split: if_splits)

definition forwarder_ok :: "('v, 'i) StateStore \<Rightarrow> ('v, 'i) forwarder \<Rightarrow> bool" where
  "forwarder_ok t f \<longleftrightarrow> (let s = rc_stream (fw_receiver f) in
     s \<in> set STREAMS \<and> rc_next (fw_receiver f) \<le> length (sent t s)
     \<and> (rc_next (fw_receiver f) = length (sent t s) \<longrightarrow> told (fw_emitted f) = Some (healthy t s))
     \<and> (\<exists>d es start. fw_emitted f = E_Subscribed d # es
          \<and> (ordered s \<longrightarrow> follow (map snd (sent t s)) start es = Some (rc_next (fw_receiver f)))))"

definition bus_ok :: "('v, 'i) bus \<Rightarrow> bool" where
  "bus_ok b \<longleftrightarrow> store_base (bus_store b) \<and> om_ok (failed_monitors (bus_store b))
     \<and> (\<forall>s\<in>set STREAMS. sent (bus_store b) s \<noteq> [] \<longrightarrow> snd (last (sent (bus_store b) s)) = healthy (bus_store b) s)
     \<and> (\<forall>f\<in>set (bus_forwarders b). forwarder_ok (bus_store b) f)"

lemma healthy_publication: "s \<in> set STREAMS \<Longrightarrow> Option.bind (healthy t s) wi_publication = publication t s"
  by (simp add: healthy_def unhealthy_def initial_stream_data_def split: option.split)

lemma moves_sent:
  assumes "moves t u {}" "s \<in> set STREAMS"
  shows "\<exists>new. sent u s = sent t s @ new \<and> (if new = [] then healthy u s = healthy t s else snd (last new) = healthy u s)
    \<and> (new = [] \<longleftrightarrow> healthy u s = healthy t s)"
proof -
  from assms have "moved t u {} s" by (simp add: moves_def)
  then consider "sent u s = sent t s" "healthy u s = healthy t s"
    | n where "sent u s = sent t s @ [(n, healthy u s)]" "publication u s \<noteq> publication t s"
    by (auto simp: moved_def)
  then show ?thesis
  proof cases
    case 1
    then show ?thesis by simp
  next
    case 2
    then have "healthy u s \<noteq> healthy t s" using healthy_publication [OF assms(2)] by metis
    with 2 show ?thesis by (intro exI [of _ "[(n, healthy u s)]"]) simp
  qed
qed

lemma forwarder_moves:
  assumes f: "forwarder_ok t f" and m: "moves t u {}"
  shows "forwarder_ok u f"
proof -
  let ?s = "rc_stream (fw_receiver f)"
  from f have s: "?s \<in> set STREAMS" by (simp add: forwarder_ok_def Let_def)
  from moves_sent [OF m s] obtain new where new: "sent u ?s = sent t ?s @ new"
    "if new = [] then healthy u ?s = healthy t ?s else snd (last new) = healthy u ?s" by blast
  from f obtain d es start where e: "fw_emitted f = E_Subscribed d # es"
    "ordered ?s \<longrightarrow> follow (map snd (sent t ?s)) start es = Some (rc_next (fw_receiver f))"
    by (auto simp: forwarder_ok_def Let_def)
  have "ordered ?s \<longrightarrow> follow (map snd (sent u ?s)) start es = Some (rc_next (fw_receiver f))"
    using e(2) by (auto simp: new(1) intro: follow_append)
  with e(1) have "\<exists>d es start. fw_emitted f = E_Subscribed d # es
      \<and> (ordered ?s \<longrightarrow> follow (map snd (sent u ?s)) start es = Some (rc_next (fw_receiver f)))" by blast
  moreover have "rc_next (fw_receiver f) = length (sent u ?s) \<longrightarrow> told (fw_emitted f) = Some (healthy u ?s)"
    "rc_next (fw_receiver f) \<le> length (sent u ?s)"
    using f new by (auto simp: forwarder_ok_def Let_def split: if_splits)
  ultimately show ?thesis using s by (simp add: forwarder_ok_def Let_def)
qed

lemma bus_moves:
  assumes b: "bus_ok b" and m: "moves (bus_store b) u {}" and "om_ok (failed_monitors u)"
  shows "bus_ok (b\<lparr>bus_store := u\<rparr>)"
proof -
  have "snd (last (sent u s)) = healthy u s" if "s \<in> set STREAMS" "sent u s \<noteq> []" for s
  proof -
    from moves_sent [OF m that(1)] obtain new where new: "sent u s = sent (bus_store b) s @ new"
      "if new = [] then healthy u s = healthy (bus_store b) s else snd (last new) = healthy u s" by blast
    with b that show ?thesis by (auto simp: bus_ok_def split: if_splits)
  qed
  moreover have "store_base u" using m by (simp add: moves_def)
  ultimately show ?thesis using b assms(3) forwarder_moves [OF _ m] by (simp add: bus_ok_def)
qed

lemma publications_get:
  "om_ok m \<Longrightarrow> om_get (fold (\<lambda>s. om_insert s (f s)) ss m) u = (if u \<in> set ss then Some (f u) else om_get m u)
     \<and> om_ok (fold (\<lambda>s. om_insert s (f s)) ss m)"
  by (induction ss arbitrary: m) auto

lemma bus_ok_started: "bus_ok \<lparr>bus_store = StateStore_default C defaults, bus_forwarders = []\<rparr>"
  by (simp add: bus_ok_def store_base_def stream_ok_def StateStore_default_def Source_new_def
      publications_get [of "[]" "\<lambda>s. Publication_new (fresh_epoch C s)"])

lemma bus_ok_committed:
  assumes "bus_ok b" "commit_made x"
  shows "bus_ok (b\<lparr>bus_store := store_step C x (bus_store b)\<rparr>)"
  using assms by (intro bus_moves store_step_moves) (auto simp: bus_ok_def store_step_failed)

lemma forwarder_of_ok: "s \<in> set STREAMS \<Longrightarrow> forwarder_ok t (forwarder_of s t)"
  by (simp add: forwarder_ok_def forwarder_of_def Source_subscribe_def Let_def)

lemma bus_ok_subscribed:
  assumes b: "bus_ok b"
  shows "bus_ok (snd (subscribe_owned streams b))"
proof (cases "list_ex (\<lambda>s. s \<notin> set STREAMS) streams")
  case False
  define u where "u = (if WORKAREA \<in> set streams then work_area_interest (bus_store b) else bus_store b)"
  have base: "store_base (bus_store b)" "om_ok (failed_monitors (bus_store b))" using b by (simp_all add: bus_ok_def)
  have "bus_ok (b\<lparr>bus_store := u\<rparr>)"
  proof (intro bus_moves b)
    show "moves (bus_store b) u {}" using base by (simp add: u_def moves_parts moves_refl)
    show "om_ok (failed_monitors u)" using base by (simp add: u_def work_area_interest_def)
  qed
  moreover have "\<forall>s\<in>set streams. s \<in> set STREAMS" using False by (simp add: list_ex_iff)
  ultimately show ?thesis
    using False by (auto simp: subscribe_owned_def u_def [symmetric] Let_def bus_ok_def forwarder_of_ok)
qed (use b in \<open>simp add: subscribe_owned_def\<close>)

lemma recv_keeps:
  "recv ans src r = (got, src', r') \<Longrightarrow> src_sent src' = src_sent src \<and> src_events src' = src_events src \<and> rc_stream r' = rc_stream r"
  by (auto simp: recv_def metrics_current_def Let_def split: answer.splits if_splits prod.splits)

lemma recv_gives:
  "recv ans src r = (got, src', r') \<Longrightarrow> (case ans of
     Got k \<Rightarrow> got = Inr (snd (src_sent src ! k)) \<and> rc_next r' = k + 1 | Lagged n \<Rightarrow> got = Inl n \<and> rc_next r' = rc_next r + n)"
  by (auto simp: recv_def metrics_current_def Let_def split: answer.splits if_splits prod.splits)

lemma forwarder_ok_cong:
  assumes "\<And>s. sent u s = sent t s" "\<And>s. healthy u s = healthy t s"
  shows "forwarder_ok u f = forwarder_ok t f"
  by (simp add: forwarder_ok_def assms)

lemma bus_ok_received:
  assumes b: "bus_ok b" and i: "i < length (bus_forwarders b)"
    and doc: "documented (st_events (bus_store b) (rc_stream (fw_receiver (bus_forwarders b ! i)))) (fw_receiver (bus_forwarders b ! i)) ans"
    and fw: "forward_event ans (bus_store b) (bus_forwarders b ! i) = (store, f)"
  shows "bus_ok (b\<lparr>bus_store := store, bus_forwarders := (bus_forwarders b)[i := f]\<rparr>)"
proof -
  let ?f = "bus_forwarders b ! i" and ?t = "bus_store b"
  let ?r = "fw_receiver ?f" and ?s = "rc_stream (fw_receiver (bus_forwarders b ! i))"
  obtain got src r where run: "recv ans (st_events ?t ?s) ?r = (got, src, r)" by (metis prod_cases3)
  note keeps = recv_keeps [OF run] and gives = recv_gives [OF run]
  let ?e = "case got of Inr event \<Rightarrow> E_Changed event | Inl missed \<Rightarrow> E_Gap missed"
  have res: "store = ?t\<lparr>st_events := (st_events ?t)(?s := src)\<rparr>" "f = ?f\<lparr>fw_receiver := r, fw_emitted := fw_emitted ?f @ [?e]\<rparr>"
    using fw run by (auto simp: forward_event_def Let_def)
  have sent: "sent store s = sent ?t s" for s using keeps by (simp add: res(1))
  have healthy: "healthy store s = healthy ?t s" for s by (simp add: res(1) healthy_def unhealthy_def)
  have pub: "publication store s = publication ?t s" "src_events (st_events store s) = src_events (st_events ?t s)" for s
    using keeps by (simp_all add: res(1))
  have base: "store_base store"
    using b sent pub by (simp add: bus_ok_def store_base_def stream_ok_def res(1) [symmetric]) (simp add: res(1))
  have old: "forwarder_ok ?t ?f" using b i by (simp add: bus_ok_def)
  then obtain d es start where em: "fw_emitted ?f = E_Subscribed d # es"
    "ordered ?s \<longrightarrow> follow (map snd (sent ?t ?s)) start es = Some (rc_next ?r)"
    by (auto simp: forwarder_ok_def Let_def)
  have s: "?s \<in> set STREAMS" using old by (simp add: forwarder_ok_def Let_def)
  have last: "snd (last (sent ?t ?s)) = healthy ?t ?s" if "sent ?t ?s \<noteq> []" using b s that by (simp add: bus_ok_def)
  have "rc_next r \<le> length (sent ?t ?s)"
    using doc gives by (cases ans) auto
  moreover have "told (fw_emitted f) = Some (healthy ?t ?s)" if "rc_next r = length (sent ?t ?s)"
  proof (cases ans)
    case (Got k)
    then have "k = length (sent ?t ?s) - 1" "sent ?t ?s \<noteq> []" using doc gives that by auto
    with Got gives last show ?thesis by (simp add: res(2) last_conv_nth)
  next
    case (Lagged n)
    then show ?thesis using doc gives that by (simp add: CHANNEL_def)
  qed
  moreover have "ordered ?s \<longrightarrow> follow (map snd (sent ?t ?s)) start (es @ [?e]) = Some (rc_next r)"
  proof (cases ans)
    case (Got k)
    then show ?thesis using doc gives em(2) by (auto simp: follow_snoc)
  next
    case (Lagged n)
    then show ?thesis using gives em(2) by (auto simp: follow_snoc)
  qed
  ultimately have "forwarder_ok store f"
    unfolding forwarder_ok_def Let_def using em(1) s keeps by (auto simp: res(2) sent healthy)
  moreover have "forwarder_ok store g" if "g \<in> set (bus_forwarders b)" for g
    using b that forwarder_ok_cong [of store ?t g] sent healthy by (simp add: bus_ok_def)
  ultimately have "\<forall>g\<in>set ((bus_forwarders b)[i := f]). forwarder_ok store g"
    using set_update_subset_insert [of "bus_forwarders b" i f] by blast
  then show ?thesis using b base by (simp add: bus_ok_def sent healthy) (simp add: res(1))
qed

lemma bus_reach_ok: "bus_reach b \<Longrightarrow> bus_ok b"
  by (induction rule: bus_reach.induct)
    (auto intro: bus_ok_started bus_ok_committed bus_ok_subscribed bus_ok_received)

text \<open>
  C6. No update is missed. In every reachable state of the store and its subscriptions, a subscriber that has taken
  all the events of its stream has last been told what the stream now is: the domain's value, its publication, and
  that its monitor has failed if it has.
\<close>

theorem no_update_missed:
  assumes "bus_reach b" "f \<in> set (bus_forwarders b)"
    and "rc_next (fw_receiver f) = length (src_sent (st_events (bus_store b) (rc_stream (fw_receiver f))))"
  shows "told (fw_emitted f) = Some (healthy (bus_store b) (rc_stream (fw_receiver f)))"
  using bus_reach_ok [OF assms(1)] assms(2,3) by (auto simp: bus_ok_def forwarder_ok_def Let_def)


text \<open>
  Every event on the wire is typed and numbered. It has a publication whose revision is between 1 and the
  largest integer a JSON reader holds exactly, and each event of a stream has the publication next after the one
  before it: the same epoch and the next revision, or a new epoch that names the exhausted one.
\<close>

theorem published_in_sequence:
  assumes "bus_reach b" "stream \<in> set STREAMS"
  defines "E \<equiv> src_sent (st_events (bus_store b) stream)"
  shows "(\<forall>e\<in>set E. \<exists>p. event_publication e = Some p \<and> 1 \<le> pb_revision p \<and> pb_revision p \<le> 9007199254740991)
    \<and> (\<forall>k. k + 1 < length E \<longrightarrow> (\<exists>p q. event_publication (E ! k) = Some p \<and> event_publication (E ! (k + 1)) = Some q
        \<and> (pb_epoch q = pb_epoch p \<and> pb_revision q = pb_revision p + 1 \<and> previous_epoch q = previous_epoch p
           \<or> pb_revision p = 9007199254740991 \<and> pb_revision q = 1 \<and> previous_epoch q = Some (pb_epoch p))))"
proof -
  have ok: "stream_ok (bus_store b) stream"
    using bus_reach_ok [OF assms(1)] assms(2) by (simp add: bus_ok_def store_base_def)
  have "\<exists>p q. event_publication (E ! k) = Some p \<and> event_publication (E ! (k + 1)) = Some q
        \<and> (pb_epoch q = pb_epoch p \<and> pb_revision q = pb_revision p + 1 \<and> previous_epoch q = previous_epoch p
           \<or> pb_revision p = 9007199254740991 \<and> pb_revision q = 1 \<and> previous_epoch q = Some (pb_epoch p))"
    if "k + 1 < length E" for k
  proof -
    have "successively advances (map event_publication E)" using ok by (simp add: stream_ok_def E_def)
    then have "advances (event_publication (E ! k)) (event_publication (E ! (k + 1)))"
      using that by (simp add: successively_conv_nth)
    then show ?thesis by (auto simp: advances_def Publication_advance_def MAX_REVISION_def)
  qed
  moreover have "\<exists>p. event_publication e = Some p \<and> 1 \<le> pb_revision p \<and> pb_revision p \<le> 9007199254740991" if "e \<in> set E" for e
    using ok that by (auto simp: stream_ok_def publication_ok_def MAX_REVISION_def E_def)
  ultimately show ?thesis by blast
qed


section \<open>Ownership of shared domains\<close>

abbreviation sleep_of :: "('v, 'i) StateStore \<Rightarrow> PowerSleepState" where
  "sleep_of t \<equiv> sn_power_sleep (st_snapshot t)"

abbreviation policy_of :: "('v, 'i) StateStore \<Rightarrow> StoredPolicy" where
  "policy_of t \<equiv> sn_sleep_policy (st_snapshot t)"

lemma publish_domains [simp]:
  "sn_power_sleep (st_snapshot (publish C s t)) = sleep_of t" "sn_sleep_policy (st_snapshot (publish C s t)) = policy_of t"
  by (simp_all add: publish_def Let_def split: option.split)

lemma publish_all_domains [simp]:
  "sn_power_sleep (st_snapshot (fold (publish C) ss t)) = sleep_of t" "sn_sleep_policy (st_snapshot (fold (publish C) ss t)) = policy_of t"
  by (induction ss arbitrary: t) simp_all

lemmas ownership_defs = commit_defs on_snapshot_def supervise_def monitor_failed_def Let_def

text \<open>
  C22. The writers of a shared domain do not overwrite each other. Whatever is committed: the operation of the sleep
  domain is that of the last report of the tracker, its resume generation counts the resumes (up to saturation), the
  lid and critical-battery parts of the sleep policy are those of their own monitors, and a write that expects an
  older sleep state changes nothing and says so.
\<close>

theorem writers_keep_their_parts:
  fixes t :: "('v, 'i) StateStore"
  assumes "resume_generation (sleep_of t) \<le> U64_MAX"
  shows "ps_operation (sleep_of (store_step C x t)) = (case x of Record_Operation new \<Rightarrow> new | _ \<Rightarrow> ps_operation (sleep_of t))
    \<and> resume_generation (sleep_of (store_step C x t)) = (case x of
        Record_Resume \<Rightarrow> saturating_add_u64 (resume_generation (sleep_of t)) 1 | _ \<Rightarrow> resume_generation (sleep_of t))
    \<and> sp_lid (policy_of (store_step C x t)) = (case x of Update_Lid lid \<Rightarrow> lid | _ \<Rightarrow> sp_lid (policy_of t))
    \<and> sp_critical (policy_of (store_step C x t)) = (case x of Update_Critical cs \<Rightarrow> cs | _ \<Rightarrow> sp_critical (policy_of t))
    \<and> (\<forall>v e. e \<noteq> sleep_of t \<longrightarrow> update_power_sleep_if_unchanged C v e t = (False, t))"
proof -
  have zero: "saturating_add_u64 (resume_generation (sleep_of t)) 0 = resume_generation (sleep_of t)"
    using assms by (simp add: saturating_add_u64_small)
  have field: "resume_generation r = a" if "r = q\<lparr>resume_generation := a, preparing_for_sleep := b\<rparr>" for r q :: PowerSleepState and a b
    using arg_cong [OF that, of resume_generation] by simp
  show ?thesis
    by (cases x) (auto simp: ownership_defs zero split: option.splits dest: field)
qed

section \<open>Failed monitors\<close>

fun is_failed :: "('v, 'i) data \<Rightarrow> bool" where
  "is_failed None = False"
| "is_failed (Some w) = (wi_failure w \<noteq> None)"

lemma failed_healthy: "s \<in> set STREAMS \<Longrightarrow> is_failed (healthy t s) \<longleftrightarrow> om_get (failed_monitors t) s \<noteq> None"
  by (simp add: healthy_def unhealthy_def initial_stream_data_def split: option.split)

lemma store_run_failed:
  "om_ok (failed_monitors t) \<Longrightarrow> om_get (failed_monitors t) s \<noteq> None \<Longrightarrow>
     om_get (failed_monitors (run (\<lambda>t x. store_step C x t) t xs)) s \<noteq> None"
proof (induction xs arbitrary: t)
  case (Cons x xs)
  then show ?case using store_step_failed [of t C x s] by simp
qed simp


section \<open>A run\<close>

definition example_draw :: "(nat, nat) draw" where
  "example_draw = \<lparr>json_len = (\<lambda>_. 2), fresh_epoch = (\<lambda>s. s)\<rparr>"

definition example_snapshot :: "(nat, nat) BarSnapshot" where
  "example_snapshot = \<lparr>publications = [], sn_replaced = (\<lambda>_. 0), sn_power_sleep = PowerSleepState_default,
     sn_sleep_policy = SleepPolicyState.extend SleepPolicyState_default
       (StoredPolicy.fields \<lparr>lid_available = False, lid_managed = False, lid_error = None\<rparr> CriticalState_default),
     sn_workarea = \<lparr>wa_available = False, wa_revision = 0, wa_monitors = [], wa_error = None\<rparr>,
     sn_compositor = \<lparr>co_available = False, co_revision = 0, animations_enabled = None, co_error = None\<rparr>\<rparr>"

definition example_bus :: "(nat, nat) bus" where
  "example_bus = snd (subscribe_owned [''battery.changed''] \<lparr>bus_store = StateStore_default example_draw example_snapshot, bus_forwarders = []\<rparr>)"

lemma example_bus_reach: "bus_reach example_bus"
  unfolding example_bus_def by (intro bus_reach.subscribed bus_reach.started)

lemma example_bus_eval:
  "bus_store example_bus = StateStore_default example_draw example_snapshot"
  "bus_forwarders example_bus = [forwarder_of ''battery.changed'' (bus_store example_bus)]"
  by (simp_all add: example_bus_def subscribe_owned_def STREAMS_def Let_def)

theorem no_update_missed_witness:
  "told (fw_emitted (hd (bus_forwarders example_bus))) = Some (healthy (bus_store example_bus) ''battery.changed'')"
  using no_update_missed [OF example_bus_reach, of "hd (bus_forwarders example_bus)"]
  by (simp add: example_bus_eval forwarder_of_def Source_subscribe_def)


definition example_committed :: "(nat, nat) bus" where
  "example_committed = example_bus\<lparr>bus_store := store_step example_draw (Update ''battery.changed'' 7) (bus_store example_bus)\<rparr>"

lemma example_committed_reach: "bus_reach example_committed"
  unfolding example_committed_def by (intro bus_reach.committed example_bus_reach) (simp add: REPLACED_def)

lemma example_sent: "src_sent (st_events (bus_store example_committed) ''battery.changed'') \<noteq> []"
proof -
  let ?t = "on_snapshot (\<lambda>s. s\<lparr>sn_replaced := (sn_replaced s)(''battery.changed'' := 7)\<rparr>) (bus_store example_bus)"
  have "bus_store example_committed = publish example_draw ''battery.changed'' ?t"
    by (simp add: example_committed_def example_bus_eval update_def StateStore_default_def example_snapshot_def)
  moreover have "''battery.changed'' \<in> set STREAMS" by (simp add: STREAMS_def)
  then have "stream_ok (bus_store example_bus) ''battery.changed''"
    using bus_reach_ok [OF example_bus_reach] by (simp add: bus_ok_def store_base_def)
  then have "\<exists>p. publication ?t ''battery.changed'' = Some p" by (auto simp: stream_ok_def on_snapshot_def)
  ultimately show ?thesis by (auto simp: publish_def Source_send_def Let_def)
qed

theorem published_in_sequence_witness:
  "\<exists>p. event_publication (hd (src_sent (st_events (bus_store example_committed) ''battery.changed''))) = Some p
     \<and> 1 \<le> pb_revision p \<and> pb_revision p \<le> 9007199254740991"
  using published_in_sequence [OF example_committed_reach, of "''battery.changed''"] hd_in_set [OF example_sent]
  by (simp add: STREAMS_def)


theorem writers_keep_their_parts_witness:
  "update_power_sleep_if_unchanged example_draw PowerSleepState_default (PowerSleepState_default\<lparr>keep_awake := True\<rparr>) (bus_store example_bus)
     = (False, bus_store example_bus)"
proof -
  have "PowerSleepState_default\<lparr>keep_awake := True\<rparr> \<noteq> sleep_of (bus_store example_bus)"
    by (simp add: example_bus_eval StateStore_default_def example_snapshot_def PowerSleepState_default_def)
  then show ?thesis using writers_keep_their_parts [of "bus_store example_bus" example_draw Record_Resume]
    by (simp add: example_bus_eval StateStore_default_def example_snapshot_def PowerSleepState_default_def)
qed


end
