(* ===== verification/Workspace_Journal.thy ===== *)
theory Workspace_Journal
  imports Ordered_Map
begin

text \<open>
  The journal of the workspace service: \<open>workspace/journal.rs\<close>, the identity records of \<open>workspace/handoff.rs\<close> and
  the projections of \<open>workspace/presentation.rs\<close>. The wire records are those the code uses of the shared daemon
  library; observations of the compositor are its snapshots. Limits of the library, the icon lookup and the JSON
  encoder are parameters.
\<close>

section \<open>Wire records and observations\<close>

datatype Purpose = Launch | LandingPad

record Context =
  cx_session :: string
  cx_monitor :: string
  cx_workspace_id :: int

record Create =
  cr_request_id :: string
  cr_context :: Context
  cr_purpose :: Purpose
  cr_workspace_id :: "int option"
  cr_origin :: string
  cr_icon :: string

record Lease =
  le_session :: string
  le_request_id :: string
  le_workspace_id :: int
  le_generation :: string

record WindowIdentity =
  wn_address :: string
  wn_pid :: nat
  wn_workspace_id :: int

record Placement =
  pl_lease :: Lease
  pl_window :: WindowIdentity
  pl_follow :: bool

record Close =
  cl_request_id :: string
  cl_context :: Context

record Monitor =
  mo_name :: string
  mo_focused :: bool
  mo_active :: "int option"

record LiveWorkspace =
  lw_id :: "int option"
  lw_monitor :: string
  lw_windows :: nat
  lw_urgent :: bool

record Window =
  wi_address :: string
  wi_pid :: nat
  wi_mapped :: bool
  wi_workspace :: "int option"
  wi_class :: string
  wi_initial_class :: string

record Snapshot =
  sn_session :: string
  sn_monitors :: "Monitor list"
  sn_workspaces :: "LiveWorkspace list"
  sn_windows :: "Window list"

record wslimits =
  max_workspace_id :: int
  wire_version :: nat
  valid_request_id :: "string \<Rightarrow> bool"
  window_icon :: "string \<Rightarrow> string \<Rightarrow> string option"

section \<open>Entries\<close>

definition MAX_RECORDS :: nat where "MAX_RECORDS = 4096"

record Entry =
  en_id :: int
  en_generation :: string
  en_monitor :: string
  en_occupied :: bool
  landing_pad :: bool
  keep_until_closed :: bool
  en_origin :: string
  en_icon :: string
  cue_assigned :: bool
  cue_empty :: bool

text \<open>Control characters of a UTF-8 string: below 32, 127, and U+0080 to U+009F.\<close>

fun has_control :: "string \<Rightarrow> bool" where
  "has_control [] = False"
| "has_control (c # s) = (of_char c < (32::nat) \<or> of_char c = (127::nat)
     \<or> (of_char c = (194::nat) \<and> (case s of [] \<Rightarrow> False | d # _ \<Rightarrow> 128 \<le> (of_char d :: nat) \<and> of_char d < (160::nat)))
     \<or> has_control s)"

definition Entry_observe :: "wslimits \<Rightarrow> LiveWorkspace option \<Rightarrow> Window option \<Rightarrow> Entry \<Rightarrow> bool \<times> Entry" where
  "Entry_observe L live window self0 =
     (let moved = (case live of Some w \<Rightarrow> en_monitor self0 \<noteq> lw_monitor w | None \<Rightarrow> False);
          self = (case live of Some w \<Rightarrow> self0\<lparr>en_monitor := lw_monitor w\<rparr> | None \<Rightarrow> self0);
          was_empty = cue_empty self;
          self = self\<lparr>cue_empty := (window = None)\<rparr>;
          changed = (moved \<or> was_empty \<noteq> cue_empty self) in
      case window of
        None \<Rightarrow> (changed, self)
      | Some w \<Rightarrow>
        let changed = (changed \<or> \<not> en_occupied self);
            self = self\<lparr>en_occupied := True\<rparr> in
        if was_empty \<or> \<not> cue_assigned self then
          let origin = (if wi_class w = [] then wi_initial_class w else wi_class w) in
          (True, self\<lparr>en_icon := unwrap_or ''workspace'' (window_icon L (wi_class w) (wi_initial_class w)),
             en_origin := (if origin = [] \<or> length origin > 256 \<or> has_control origin then ''Workspace'' else origin),
             cue_assigned := True\<rparr>)
        else (changed, self))"

section \<open>Records\<close>

record Reservation =
  rs_request :: Create
  rs_lease :: Lease
  rs_writer :: string
  rs_released :: bool
  rs_placed :: bool
  rs_placement :: "Placement option"
  rs_status :: string

record CloseTarget =
  tg_window :: WindowIdentity
  tg_token :: string
  tg_attempted :: bool

record CloseRecord =
  cs_request :: Close
  cs_targets :: "CloseTarget list"
  cs_status :: string
  cs_error :: "string option"

record Handoff =
  ho_window :: WindowIdentity
  ho_token :: string
  ho_process_start :: nat
  ho_excluded :: "string list"
  ho_replacements :: nat
  ho_watching :: bool
  ho_missing_since :: "nat option"

record Journal =
  jo_version :: nat
  jo_session :: string
  jo_high :: int
  jo_entries :: "(int, Entry) omap"
  jo_reservations :: "(string, Reservation) omap"
  jo_closes :: "(string, CloseRecord) omap"
  jo_history :: "(string, int list) omap"
  jo_handoffs :: "(string, Handoff) omap"

definition Journal_empty :: "wslimits \<Rightarrow> string \<Rightarrow> Journal" where
  "Journal_empty L session =
     \<lparr>jo_version = wire_version L, jo_session = session, jo_high = 5, jo_entries = [], jo_reservations = [],
      jo_closes = [], jo_history = [], jo_handoffs = []\<rparr>"

definition active_close :: "CloseRecord \<Rightarrow> bool" where
  "active_close r \<longleftrightarrow> cs_status r \<in> {''dispatching'', ''waiting''}"

definition close_id :: "CloseRecord \<Rightarrow> int" where
  "close_id r = cx_workspace_id (cl_context (cs_request r))"

definition Journal_closing :: "Journal \<Rightarrow> int \<Rightarrow> bool" where
  "Journal_closing self n \<longleftrightarrow> list_ex (\<lambda>r. close_id r = n \<and> active_close r) (om_values (jo_closes self))"

definition valid_workspace :: "wslimits \<Rightarrow> int \<Rightarrow> bool" where
  "valid_workspace L n \<longleftrightarrow> 1 \<le> n \<and> n \<le> max_workspace_id L"

definition Journal_admit :: "wslimits \<Rightarrow> string \<Rightarrow> Journal \<Rightarrow> unit result" where
  "Journal_admit L key self =
     and_then (ensure (valid_request_id L key) ''invalid request key'') (\<lambda>_.
     and_then (ensure (length (jo_reservations self) + length (jo_closes self) < MAX_RECORDS)
       ''workspace session request limit reached'') (\<lambda>_.
     ensure (\<not> om_has key (jo_reservations self) \<and> \<not> om_has key (jo_closes self)) ''request key already used''))"

definition Journal_allocate :: "wslimits \<Rightarrow> int list \<Rightarrow> Journal \<Rightarrow> (int \<times> Journal) result" where
  "Journal_allocate L live self =
     (let highest = max (max (if live = [] then 5 else Max (set live)) (jo_high self)) 5 in
      and_then (ensure (highest < max_workspace_id L) ''workspace ID space exhausted'') (\<lambda>_.
        Ok (highest + 1, self\<lparr>jo_high := highest + 1\<rparr>)))"

section \<open>Loading\<close>

definition entry_valid :: "Journal \<Rightarrow> int \<times> Entry \<Rightarrow> bool" where
  "entry_valid self = (\<lambda>(n, entry). 5 < n \<and> n \<le> jo_high self \<and> en_id entry = n)"

definition reservation_valid :: "wslimits \<Rightarrow> string \<Rightarrow> string \<times> Reservation \<Rightarrow> bool" where
  "reservation_valid L session = (\<lambda>(key, r).
     valid_request_id L key \<and> key = cr_request_id (rs_request r) \<and> key = le_request_id (rs_lease r)
     \<and> le_session (rs_lease r) = session \<and> cx_session (cr_context (rs_request r)) = session
     \<and> valid_workspace L (le_workspace_id (rs_lease r)))"

definition handoff_valid :: "wslimits \<Rightarrow> (string, Reservation) omap \<Rightarrow> string \<times> Handoff \<Rightarrow> unit result" where
  "handoff_valid L reservations = (\<lambda>(key, h).
     case om_get reservations key of
       None \<Rightarrow> Err (err ''orphan launch handoff'')
     | Some r \<Rightarrow> ensure (wn_workspace_id (ho_window h) = le_workspace_id (rs_lease r)
         \<and> length (ho_excluded h) \<le> 512 \<and> valid_request_id L (ho_token h)) ''invalid launch handoff'')"

fun first_error :: "('a \<Rightarrow> unit result) \<Rightarrow> 'a list \<Rightarrow> unit result" where
  "first_error f [] = Ok ()"
| "first_error f (x # xs) = and_then (f x) (\<lambda>_. first_error f xs)"

definition keep_manual :: "Journal \<Rightarrow> Entry \<Rightarrow> Entry" where
  "keep_manual self entry =
     (if \<not> list_ex (\<lambda>c. close_id c = en_id entry) (om_values (jo_closes self))
         \<and> list_ex (\<lambda>r. cr_purpose (rs_request r) = LandingPad \<and> cr_workspace_id (rs_request r) = None
             \<and> le_workspace_id (rs_lease r) = en_id entry \<and> le_generation (rs_lease r) = en_generation entry)
             (om_values (jo_reservations self))
      then entry\<lparr>keep_until_closed := True\<rparr> else entry)"

definition fence_reservation :: "Reservation \<Rightarrow> Reservation" where
  "fence_reservation r = (if rs_released r then r else r\<lparr>rs_released := True, rs_status := ''unknown''\<rparr>)"

definition fence_close :: "CloseRecord \<Rightarrow> CloseRecord" where
  "fence_close c = (if active_close c then c\<lparr>cs_status := ''unknown''\<rparr> else c)"

definition Journal_check :: "wslimits \<Rightarrow> string \<Rightarrow> Journal \<Rightarrow> unit result" where
  "Journal_check L session self =
     and_then (ensure (jo_version self = wire_version L \<and> jo_session self = session) ''workspace journal session/version mismatch'') (\<lambda>_.
     and_then (ensure (5 \<le> jo_high self \<and> jo_high self \<le> max_workspace_id L) ''invalid workspace high watermark'') (\<lambda>_.
     and_then (ensure (length (jo_reservations self) + length (jo_closes self) \<le> MAX_RECORDS) ''workspace journal exceeds admission limit'') (\<lambda>_.
     and_then (ensure (list_all (entry_valid self) (jo_entries self)) ''invalid workspace entries'') (\<lambda>_.
     ensure (list_all (reservation_valid L session) (jo_reservations self)) ''invalid reservation identity''))))"

text \<open>\<open>file\<close> is what the bounded read found and the decoder made of it.\<close>

definition Journal_load :: "wslimits \<Rightarrow> Journal option result \<Rightarrow> string \<Rightarrow> Journal result" where
  "Journal_load L content session =
     and_then content (\<lambda>found. case found of
        None \<Rightarrow> Ok (Journal_empty L session)
      | Some journal \<Rightarrow>
        and_then (Journal_check L session journal) (\<lambda>_.
        let journal = journal\<lparr>jo_entries := om_map (keep_manual journal) (jo_entries journal),
              jo_reservations := om_map fence_reservation (jo_reservations journal),
              jo_closes := om_map fence_close (jo_closes journal)\<rparr> in
        and_then (ensure (length (jo_handoffs journal) \<le> 128) ''too many launch handoffs'') (\<lambda>_.
        and_then (first_error (handoff_valid L (jo_reservations journal)) (jo_handoffs journal)) (\<lambda>_.
        Ok (journal\<lparr>jo_handoffs := om_map (\<lambda>h. h\<lparr>ho_watching := False\<rparr>) (jo_handoffs journal)\<rparr>)))))"

section \<open>Presentation\<close>

definition live_owners :: "LiveWorkspace list \<Rightarrow> (int, string) omap" where
  "live_owners live = fold (\<lambda>w m. case lw_id w of None \<Rightarrow> m | Some n \<Rightarrow> om_insert n (lw_monitor w) m) live []"

definition workspace_ids :: "Journal \<Rightarrow> string \<Rightarrow> LiveWorkspace list \<Rightarrow> int list" where
  "workspace_ids journal monitor workspaces =
     (let live = live_owners workspaces in
      remdups_adj (sort ([1, 2, 3, 4, 5]
        @ map fst (filter (\<lambda>(n, owner). n > 5 \<and> owner = monitor) live)
        @ map en_id (filter (\<lambda>e. unwrap_or (en_monitor e) (om_get live (en_id e)) = monitor) (om_values (jo_entries journal))))))"

record Item =
  it_id :: int
  it_label :: string
  it_icon :: string
  it_number :: string
  it_temporary :: bool
  divider_before :: bool
  it_active :: bool
  it_occupied :: bool
  it_urgent :: bool
  accessible_name :: string

record View =
  vw_version :: nat
  vw_session :: string
  vw_available :: bool
  vw_monitors :: "(string, Item list) omap"
  vw_error :: "string option"

record WorkspaceState =
  ws_available :: bool
  ws_monitors :: "Monitor list"
  ws_workspaces :: "LiveWorkspace list"

definition CATEGORIES :: "(string \<times> string) list" where
  "CATEGORIES = [(''Shell'', ''terminal''), (''Browser'', ''language''), (''Code'', ''code''), (''Media'', ''music_note''),
     (''Text'', ''description'')]"

definition show_signed :: "int \<Rightarrow> string" where
  "show_signed n = (if n < 0 then ''-'' @ show_nat (nat (- n)) else show_nat (nat n))"

definition item :: "Journal \<Rightarrow> WorkspaceState \<Rightarrow> Monitor \<Rightarrow> int option \<Rightarrow> int \<Rightarrow> Item" where
  "item journal state monitor first_extra n =
     (let workspace = find (\<lambda>w. lw_id w = Some n) (ws_workspaces state);
          label_icon = (if 1 \<le> n \<and> n \<le> 5 then CATEGORIES ! nat (n - 1)
            else (case om_get (jo_entries journal) n of
                Some e \<Rightarrow> (en_origin e, en_icon e) | None \<Rightarrow> (''Workspace'', ''workspace'')));
          num = (case workspace of None \<Rightarrow> 0 | Some w \<Rightarrow> lw_windows w) in
      \<lparr>it_id = n, it_label = fst label_icon, it_icon = snd label_icon,
       it_number = (if n > 5 then show_signed n else []), it_temporary = n > 5, divider_before = (Some n = first_extra),
       it_active = (mo_active monitor = Some n), it_occupied = num > 0,
       it_urgent = (case workspace of None \<Rightarrow> False | Some w \<Rightarrow> lw_urgent w),
       accessible_name = ''Workspace '' @ show_signed n @ '', '' @ fst label_icon @ '', '' @ show_nat num
         @ '' windows. Shift+Super+Q closes its windows.''\<rparr>)"

definition view :: "wslimits \<Rightarrow> Journal \<Rightarrow> WorkspaceState \<Rightarrow> View" where
  "view L journal state =
     \<lparr>vw_version = wire_version L, vw_session = jo_session journal, vw_available = ws_available state,
      vw_monitors = fold (\<lambda>m vs. let ids = workspace_ids journal (mo_name m) (ws_workspaces state) in
        om_insert (mo_name m) (map (item journal state m (find (\<lambda>n. n > 5) ids)) ids) vs) (ws_monitors state) [],
      vw_error = None\<rparr>"

definition usable_workspace :: "Journal \<Rightarrow> Snapshot \<Rightarrow> string \<Rightarrow> int \<Rightarrow> int \<Rightarrow> bool" where
  "usable_workspace journal snapshot monitor retiring n \<longleftrightarrow> n \<noteq> retiring \<and> n > 0 \<and> \<not> Journal_closing journal n
     \<and> list_ex (\<lambda>w. lw_id w = Some n \<and> lw_monitor w = monitor) (sn_workspaces snapshot)"

definition fallback :: "Journal \<Rightarrow> Snapshot \<Rightarrow> string \<Rightarrow> int \<Rightarrow> int option" where
  "fallback journal snapshot monitor retiring =
     (case find (usable_workspace journal snapshot monitor retiring) (unwrap_or [] (om_get (jo_history journal) monitor)) of
        Some n \<Rightarrow> Some n
      | None \<Rightarrow> (case find (usable_workspace journal snapshot monitor retiring) (List.map_filter lw_id (sn_workspaces snapshot)) of
          Some n \<Rightarrow> Some n
        | None \<Rightarrow> find (\<lambda>n. \<not> Journal_closing journal n \<and> \<not> list_ex (\<lambda>w. lw_id w = Some n) (sn_workspaces snapshot)) [1, 2, 3, 4, 5]))"

end
