(* ===== verification/Workspace_Service.thy ===== *)
theory Workspace_Service
  imports Workspace_Journal
begin

text \<open>
  The workspace service: \<open>workspace/mod.rs\<close>, \<open>workspace/handoff.rs\<close> and \<open>workspace/replies.rs\<close>. Every handler runs
  under the service's lock, so it is one atomic operation here; it talks to the compositor, the journal file, the
  clock and \<open>/proc\<close> through the functions of \<open>wenv\<close>, each free to fail at every call. The trace records the
  journals written and the compositor commands run, newest first.
\<close>

section \<open>The world\<close>

text \<open>Expressions the compositor library builds, and what a pinned window turned out to be.\<close>

datatype cmd =
    Select_Local string int int bool bool
  | Focus_Local string int int bool
  | Move_Local string nat int int string
  | Follow_Window string nat int string int
  | Pin_Window string string nat int
  | Close_Pinned string string nat int
  | Release_Window string
  | Replace_Pinned string string Window int string
  | Release_Prefix string
  | Then_Cmd cmd cmd

datatype PinnedState = Present | Moved | Lost | Gone

text \<open>
  An atomic file write that fails may have replaced the file already (the directory is flushed last) or not.
\<close>

datatype write_outcome = Written | Written_Then error | Not_Written error

record 'w wenv =
  wv_limits :: wslimits
  wv_enabled :: bool
  wv_runtime_dir :: bool
  wv_snapshot :: "'w \<Rightarrow> Snapshot result \<times> 'w"
  wv_build :: "cmd \<Rightarrow> unit result"
  wv_execute :: "cmd \<Rightarrow> 'w \<Rightarrow> unit result \<times> 'w"
  wv_pinned_snapshot :: "string \<Rightarrow> int \<Rightarrow> string \<Rightarrow> 'w \<Rightarrow> Snapshot result \<times> 'w"
  wv_pinned_state :: "string \<Rightarrow> string \<Rightarrow> nat \<Rightarrow> int \<Rightarrow> 'w \<Rightarrow> PinnedState result \<times> 'w"
  wv_read :: "string \<Rightarrow> 'w \<Rightarrow> unit result \<times> 'w"
  wv_write :: "Journal \<Rightarrow> 'w \<Rightarrow> write_outcome \<times> 'w"
  wv_encoded_size :: "Journal \<Rightarrow> nat"
  wv_fresh :: "'w \<Rightarrow> string \<times> 'w"
  wv_now :: "'w \<Rightarrow> nat \<times> 'w"
  wv_process_start :: "nat \<Rightarrow> 'w \<Rightarrow> nat option \<times> 'w"

datatype event =
    Wrote Journal
  | Write_Failed Journal
  | Ran string cmd
  | Restarted

section \<open>State\<close>

text \<open>
  \<open>sv_ready\<close> holds when the slot of the loaded journal is filled; the five fields after it are that slot.
  \<open>sv_changed\<close> is the permit of the notifier, \<open>sv_observers\<close> the spawned close observers with their attempts,
  \<open>sv_wakes\<close> the spawned grace timers. \<open>sv_disk\<close> holds the journal files by compositor session.
\<close>

record 'w wstate =
  sv_world :: 'w
  sv_disk :: "string \<Rightarrow> Journal option"
  sv_trace :: "event list"
  sv_ready :: bool
  sv_journal :: Journal
  sv_poisoned :: bool
  sv_pins_cleaned :: bool
  sv_empty_since :: "(int, nat) omap"
  sv_writer :: string
  sv_changed :: bool
  sv_moved :: "(string \<times> int option) list"
  sv_lost :: bool
  sv_observers :: "(string \<times> nat) list"
  sv_wakes :: nat

type_synonym ('w, 'a) weff = "('w wstate, 'a) eff"

fun foldE :: "('a \<Rightarrow> 'b \<Rightarrow> ('s, 'b) eff) \<Rightarrow> 'a list \<Rightarrow> 'b \<Rightarrow> ('s, 'b) eff" where
  "foldE f [] b = returnE b"
| "foldE f (x # xs) b = bindE (f x b) (foldE f xs)"

definition om_adjust :: "'k \<Rightarrow> ('v \<Rightarrow> 'v) \<Rightarrow> ('k, 'v) omap \<Rightarrow> ('k, 'v) omap" where
  "om_adjust k f m = map (\<lambda>(k', v). (k', if k' = k then f v else v)) m"

definition worldE :: "('w \<Rightarrow> 'a \<times> 'w) \<Rightarrow> ('w, 'a) weff" where
  "worldE f s = (case f (sv_world s) of (x, w) \<Rightarrow> (Ok x, s\<lparr>sv_world := w\<rparr>))"

definition askE :: "('w \<Rightarrow> 'a result \<times> 'w) \<Rightarrow> ('w, 'a) weff" where
  "askE f s = (case f (sv_world s) of (r, w) \<Rightarrow> (r, s\<lparr>sv_world := w\<rparr>))"

definition journalE :: "(Journal \<Rightarrow> 'a) \<Rightarrow> ('w, 'a) weff" where
  "journalE f = getE (\<lambda>s. f (sv_journal s))"

definition updateE :: "(Journal \<Rightarrow> Journal) \<Rightarrow> ('w, unit) weff" where
  "updateE f = modifyE (\<lambda>s. s\<lparr>sv_journal := f (sv_journal s)\<rparr>)"

definition reservationE :: "string \<Rightarrow> (Reservation \<Rightarrow> Reservation) \<Rightarrow> ('w, unit) weff" where
  "reservationE k f = updateE (\<lambda>j. j\<lparr>jo_reservations := om_adjust k f (jo_reservations j)\<rparr>)"

definition closeE :: "string \<Rightarrow> (CloseRecord \<Rightarrow> CloseRecord) \<Rightarrow> ('w, unit) weff" where
  "closeE k f = updateE (\<lambda>j. j\<lparr>jo_closes := om_adjust k f (jo_closes j)\<rparr>)"

definition handoffE :: "string \<Rightarrow> (Handoff \<Rightarrow> Handoff) \<Rightarrow> ('w, unit) weff" where
  "handoffE k f = updateE (\<lambda>j. j\<lparr>jo_handoffs := om_adjust k f (jo_handoffs j)\<rparr>)"

definition entryE :: "int \<Rightarrow> (Entry \<Rightarrow> Entry) \<Rightarrow> ('w, unit) weff" where
  "entryE k f = updateE (\<lambda>j. j\<lparr>jo_entries := om_adjust k f (jo_entries j)\<rparr>)"

text \<open>Building an expression may be refused; running it is recorded with the session it runs under.\<close>

definition runE :: "'w wenv \<Rightarrow> cmd \<Rightarrow> ('w, unit) weff" where
  "runE env c s = (case wv_execute env c (sv_world s) of (r, w) \<Rightarrow>
     (r, s\<lparr>sv_world := w, sv_trace := Ran (jo_session (sv_journal s)) c # sv_trace s\<rparr>))"

definition commandE :: "'w wenv \<Rightarrow> cmd \<Rightarrow> ('w, unit) weff" where
  "commandE env c = seqE (liftE (wv_build env c)) (runE env c)"

section \<open>Saving\<close>

text \<open>The file keeps every field but the instants of the handoffs.\<close>

definition wire_journal :: "Journal \<Rightarrow> Journal" where
  "wire_journal j = j\<lparr>jo_handoffs := om_map (\<lambda>h. h\<lparr>ho_missing_since := None\<rparr>) (jo_handoffs j)\<rparr>"

definition JOURNAL_BYTES :: nat where "JOURNAL_BYTES = 16 * 1024 * 1024"

definition Journal_save :: "'w wenv \<Rightarrow> ('w, unit) weff" where
  "Journal_save env s =
     (let j = sv_journal s; replaced = (sv_disk s)(jo_session j \<mapsto> wire_journal j);
          failed = Write_Failed j # sv_trace s in
      if wv_encoded_size env j > JOURNAL_BYTES then
        (Err (err ''workspace journal exceeds byte limit''), s\<lparr>sv_trace := failed\<rparr>)
      else (case wv_write env j (sv_world s) of (r, w) \<Rightarrow>
        (case r of
           Written \<Rightarrow> (Ok (), s\<lparr>sv_world := w, sv_disk := replaced, sv_trace := Wrote j # sv_trace s\<rparr>)
         | Written_Then e \<Rightarrow> (Err e, s\<lparr>sv_world := w, sv_disk := replaced, sv_trace := failed\<rparr>)
         | Not_Written e \<Rightarrow> (Err e, s\<lparr>sv_world := w, sv_trace := failed\<rparr>))))"

definition save :: "'w wenv \<Rightarrow> ('w, unit) weff" where
  "save env =
     bindE (getE sv_poisoned) (\<lambda>p.
     seqE (ensureE (\<not> p) ''workspace journal requires restart after persistence failure'')
       (catchE (Journal_save env) (\<lambda>e. seqE (modifyE (\<lambda>s. s\<lparr>sv_poisoned := True\<rparr>)) (throwE e))))"

section \<open>Loading and pins\<close>

definition initialize :: "'w wenv \<Rightarrow> Snapshot \<Rightarrow> ('w, unit) weff" where
  "initialize env snapshot =
     seqE (bindE (getE sv_ready) (\<lambda>ready. if ready then returnE () else
       seqE (ensureE (wv_runtime_dir env) ''runtime directory required'')
       (bindE (attemptE (askE (wv_read env (sn_session snapshot)))) (\<lambda>found.
        bindE (getE (\<lambda>s. sv_disk s (sn_session snapshot))) (\<lambda>file.
        bindE (liftE (Journal_load (wv_limits env) (and_then found (\<lambda>_. Ok file)) (sn_session snapshot))) (\<lambda>journal.
        seqE (modifyE (\<lambda>s. s\<lparr>sv_ready := True, sv_journal := journal, sv_poisoned := False, sv_pins_cleaned := False,
                sv_empty_since := []\<rparr>))
          (save env)))))))
     (bindE (getE sv_poisoned) (\<lambda>p.
      seqE (ensureE (\<not> p) ''workspace journal unavailable'')
        (bindE (journalE jo_session) (\<lambda>session.
         ensureE (session = sn_session snapshot) ''compositor session changed''))))"

definition PIN_PREFIX :: string where "PIN_PREFIX = ''shelllist-bar-workspace-''"

definition prepare_pins :: "'w wenv \<Rightarrow> ('w, unit) weff" where
  "prepare_pins env = bindE (getE sv_pins_cleaned) (\<lambda>cleaned. if cleaned then returnE () else
     seqE (commandE env (Release_Prefix PIN_PREFIX)) (modifyE (\<lambda>s. s\<lparr>sv_pins_cleaned := True\<rparr>)))"

definition notify_changed :: "('w, unit) weff" where
  "notify_changed = modifyE (\<lambda>s. s\<lparr>sv_changed := True\<rparr>)"

definition wake_after_grace :: "('w, unit) weff" where
  "wake_after_grace = modifyE (\<lambda>s. s\<lparr>sv_wakes := sv_wakes s + 1\<rparr>)"

section \<open>Contexts and leases\<close>

definition find_monitor :: "Snapshot \<Rightarrow> string \<Rightarrow> Monitor option" where
  "find_monitor snapshot name = find (\<lambda>m. mo_name m = name) (sn_monitors snapshot)"

definition validate_context :: "Snapshot \<Rightarrow> Context \<Rightarrow> bool \<Rightarrow> unit result" where
  "validate_context snapshot context active =
     and_then (ensure (cx_session context = sn_session snapshot \<and> cx_workspace_id context > 0)
       ''stale or unsupported workspace context'') (\<lambda>_.
     and_then (ok_or ''monitor disappeared'' (find_monitor snapshot (cx_monitor context))) (\<lambda>m.
     ensure (\<not> active \<or> mo_active m = Some (cx_workspace_id context)) ''workspace context changed''))"

definition check_lease :: "string \<Rightarrow> Journal \<Rightarrow> Lease \<Rightarrow> bool \<Rightarrow> Reservation result" where
  "check_lease writer journal lease effect =
     and_then (ensure (le_session lease = jo_session journal) ''stale lease session'') (\<lambda>_.
     and_then (ok_or ''unknown lease'' (om_get (jo_reservations journal) (le_request_id lease))) (\<lambda>record.
     and_then (ensure (rs_lease record = lease) ''stale lease identity'') (\<lambda>_.
     and_then (ensure (\<not> effect \<or> (\<not> rs_released record \<and> rs_writer record = writer)) ''placement writer fenced'') (\<lambda>_.
     Ok record))))"

datatype Reply =
    Context_Reply nat Context string
  | Lease_Reply string Lease
  | Focus_Reply string int
  | Reservation_Reply Reservation
  | Close_Reply CloseRecord

definition window_at :: "Snapshot \<Rightarrow> string \<Rightarrow> nat \<Rightarrow> int \<Rightarrow> bool" where
  "window_at snapshot address pid n \<longleftrightarrow>
     list_ex (\<lambda>w. wi_mapped w \<and> wi_address w = address \<and> wi_pid w = pid \<and> wi_workspace w = Some n) (sn_windows snapshot)"

definition has_active :: "Snapshot \<Rightarrow> string \<Rightarrow> int \<Rightarrow> bool" where
  "has_active snapshot monitor n \<longleftrightarrow> list_ex (\<lambda>m. mo_name m = monitor \<and> mo_active m = Some n) (sn_monitors snapshot)"

definition live_ids :: "Snapshot \<Rightarrow> int list" where
  "live_ids snapshot = List.map_filter lw_id (sn_workspaces snapshot)"

definition allocateE :: "'w wenv \<Rightarrow> Snapshot \<Rightarrow> ('w, int) weff" where
  "allocateE env snapshot =
     bindE (journalE (Journal_allocate (wv_limits env) (live_ids snapshot))) (\<lambda>r.
     bindE (liftE r) (\<lambda>(n, journal). seqE (updateE (\<lambda>_. journal)) (returnE n)))"

section \<open>Creating\<close>

definition reservation_of :: "string \<Rightarrow> ('w, Reservation) weff" where
  "reservation_of key = bindE (journalE (\<lambda>j. om_get (jo_reservations j) key)) (\<lambda>r. liftE (ok_or ''missing record'' r))"

definition close_of :: "string \<Rightarrow> ('w, CloseRecord) weff" where
  "close_of key = bindE (journalE (\<lambda>j. om_get (jo_closes j) key)) (\<lambda>r. liftE (ok_or ''missing record'' r))"

definition destination :: "'w wenv \<Rightarrow> Snapshot \<Rightarrow> Create \<Rightarrow> ('w, int) weff" where
  "destination env snapshot request = (case cr_workspace_id request of
     Some n \<Rightarrow>
       seqE (ensureE (valid_workspace (wv_limits env) n) ''invalid workspace ID'')
       (bindE (journalE jo_entries) (\<lambda>entries.
        seqE (ensureE (n \<le> 5 \<or> list_ex (\<lambda>w. lw_id w = Some n) (sn_workspaces snapshot)
          \<or> (case om_get entries n of None \<Rightarrow> False
              | Some e \<Rightarrow> keep_until_closed e \<and> en_monitor e = cx_monitor (cr_context request)))
          ''destination disappeared'') (returnE n)))
   | None \<Rightarrow> allocateE env snapshot)"

definition generation_of :: "'w wenv \<Rightarrow> int \<Rightarrow> ('w, string) weff" where
  "generation_of env n = bindE (journalE (\<lambda>j. om_get (jo_entries j) n)) (\<lambda>e. case e of
     Some e \<Rightarrow> returnE (en_generation e) | None \<Rightarrow> worldE (wv_fresh env))"

definition new_entry :: "Create \<Rightarrow> int \<Rightarrow> string \<Rightarrow> Entry" where
  "new_entry request n generation =
     \<lparr>en_id = n, en_generation = generation, en_monitor = cx_monitor (cr_context request), en_occupied = False,
      landing_pad = (cr_purpose request = LandingPad), keep_until_closed = (cr_purpose request = LandingPad),
      en_origin = cr_origin request, en_icon = cr_icon request, cue_assigned = (cr_purpose request = Launch),
      cue_empty = True\<rparr>"

definition new_reservation :: "Create \<Rightarrow> Lease \<Rightarrow> string \<Rightarrow> Reservation" where
  "new_reservation request lease writer =
     \<lparr>rs_request = request, rs_lease = lease, rs_writer = writer, rs_released = (cr_purpose request = LandingPad),
      rs_placed = False, rs_placement = None, rs_status = ''reserved''\<rparr>"

definition focus_created :: "'w wenv \<Rightarrow> Create \<Rightarrow> int \<Rightarrow> ('w, unit) weff" where
  "focus_created env request n =
     seqE (commandE env (Focus_Local (cx_monitor (cr_context request)) (cx_workspace_id (cr_context request)) n True))
     (bindE (askE (wv_snapshot env)) (\<lambda>observed.
      ensureE (has_active observed (cx_monitor (cr_context request)) n) ''workspace focus was not observed''))"

definition record_creation :: "'w wenv \<Rightarrow> Create \<Rightarrow> int \<Rightarrow> string \<Rightarrow> string \<Rightarrow> ('w, unit) weff" where
  "record_creation env request n generation session =
     seqE (if cr_workspace_id request = None
       then updateE (\<lambda>j. j\<lparr>jo_entries := om_insert n (new_entry request n generation) (jo_entries j)\<rparr>) else returnE ())
     (bindE (getE sv_writer) (\<lambda>writer.
      seqE (updateE (\<lambda>j. j\<lparr>jo_reservations := om_insert (cr_request_id request)
        (new_reservation request \<lparr>le_session = session, le_request_id = cr_request_id request, le_workspace_id = n,
          le_generation = generation\<rparr> writer) (jo_reservations j)\<rparr>))
      (save env)))"

definition create :: "'w wenv \<Rightarrow> Snapshot \<Rightarrow> Create \<Rightarrow> ('w, Reply) weff" where
  "create env snapshot request =
     seqE (ensureE (wv_enabled env \<or> (cr_purpose request = Launch \<and> cr_workspace_id request \<noteq> None))
       ''temporary workspace creation disabled'')
     (bindE (journalE (\<lambda>j. om_get (jo_reservations j) (cr_request_id request))) (\<lambda>existing. case existing of
        Some existing \<Rightarrow>
          seqE (ensureE (rs_request existing = request) ''request key reused with different parameters'')
            (returnE (Reservation_Reply existing))
      | None \<Rightarrow>
        seqE (liftE (validate_context snapshot (cr_context request) (cr_purpose request = LandingPad)))
        (seqE (ensureE (length (cr_origin request) \<le> 256 \<and> length (cr_icon request) \<le> 256) ''origin exceeds limit'')
        (seqE (bindE (journalE (Journal_admit (wv_limits env) (cr_request_id request))) liftE)
        (bindE (destination env snapshot request) (\<lambda>n.
         bindE (journalE (\<lambda>j. Journal_closing j n)) (\<lambda>closing.
         seqE (ensureE (\<not> closing) ''destination is closing'')
         (bindE (generation_of env n) (\<lambda>generation.
          seqE (record_creation env request n generation (sn_session snapshot))
          (seqE (if cr_purpose request = LandingPad then
              bindE (attemptE (focus_created env request n)) (\<lambda>result.
              seqE (reservationE (cr_request_id request)
                (\<lambda>r. r\<lparr>rs_status := (if is_ok result then ''focused'' else ''unknown'')\<rparr>))
              (seqE (save env) (liftE result)))
            else returnE ())
          (bindE (reservation_of (cr_request_id request)) (\<lambda>r. returnE (Reservation_Reply r)))))))))))))"

section \<open>Handoffs\<close>

definition GRACE :: nat where "GRACE = 2000"
definition MAX_HANDOFFS :: nat where "MAX_HANDOFFS = 128"
definition MAX_REPLACEMENTS :: nat where "MAX_REPLACEMENTS = 8"

definition excluded_windows :: "Snapshot \<Rightarrow> WindowIdentity \<Rightarrow> string list" where
  "excluded_windows snapshot window =
     map wi_address (take 513 (filter (\<lambda>w. wi_pid w = wn_pid window \<and> wi_address w \<noteq> wn_address window) (sn_windows snapshot)))"

definition Handoff_prepare :: "'w wenv \<Rightarrow> Reservation \<Rightarrow> Placement \<Rightarrow> Snapshot \<Rightarrow> ('w, Handoff option) weff" where
  "Handoff_prepare env reservation request snapshot =
     bindE (journalE (\<lambda>j. length (jo_handoffs j))) (\<lambda>n.
     if cr_workspace_id (rs_request reservation) \<noteq> None \<or> cr_purpose (rs_request reservation) \<noteq> Launch \<or> n \<ge> MAX_HANDOFFS
     then returnE None
     else let excluded = excluded_windows snapshot (pl_window request) in
       if length excluded > 512 then returnE None
       else bindE (worldE (wv_fresh env)) (\<lambda>epoch.
            bindE (worldE (wv_process_start env (wn_pid (pl_window request)))) (\<lambda>start. returnE (case start of
              None \<Rightarrow> None
            | Some start \<Rightarrow> Some \<lparr>ho_window = (pl_window request)\<lparr>wn_workspace_id := le_workspace_id (pl_lease request)\<rparr>,
                ho_token = PIN_PREFIX @ ''handoff-'' @ epoch, ho_process_start = start, ho_excluded = excluded,
                ho_replacements = 0, ho_watching = False, ho_missing_since = None\<rparr>))))"

definition cancel_handoff :: "'w wenv \<Rightarrow> string \<Rightarrow> ('w, unit) weff" where
  "cancel_handoff env key =
     bindE (journalE (\<lambda>j. om_get (jo_handoffs j) key)) (\<lambda>found. case found of
       None \<Rightarrow> returnE ()
     | Some handoff \<Rightarrow>
       seqE (handoffE key (\<lambda>h. h\<lparr>ho_watching := False\<rparr>))
       (seqE (save env)
       (seqE (commandE env (Release_Window (ho_token handoff)))
       (seqE (updateE (\<lambda>j. j\<lparr>jo_handoffs := om_remove key (jo_handoffs j)\<rparr>))
         (save env)))))"

text \<open>A move of a window away from its numbered destination.\<close>

definition moved_away :: "(string \<times> int option) list \<Rightarrow> string \<Rightarrow> int \<Rightarrow> bool" where
  "moved_away moved address n \<longleftrightarrow> list_ex (\<lambda>(a, ws). a = address \<and> ws \<noteq> Some n) moved"

definition fenced_by_events :: "(string \<times> int option) list \<Rightarrow> bool \<Rightarrow> Snapshot \<Rightarrow> Handoff \<Rightarrow> bool" where
  "fenced_by_events moved lost snapshot h \<longleftrightarrow> ho_watching h \<and> (lost \<or> list_ex (\<lambda>(address, ws).
     ws \<noteq> Some (wn_workspace_id (ho_window h)) \<and> (address = wn_address (ho_window h)
       \<or> list_ex (\<lambda>w. wi_address w = address \<and> wi_pid w = wn_pid (ho_window h)) (sn_windows snapshot))) moved)"

definition superseded_handoff :: "Journal \<Rightarrow> string \<Rightarrow> Handoff \<Rightarrow> (string \<times> int option) list \<Rightarrow> bool \<Rightarrow> nat option \<Rightarrow> bool" where
  "superseded_handoff j key handoff moved lost start \<longleftrightarrow>
     (let n = wn_workspace_id (ho_window handoff) in
      \<not> ho_watching handoff \<or> lost \<or> moved_away moved (wn_address (ho_window handoff)) n
      \<or> start \<noteq> Some (ho_process_start handoff)
      \<or> (case (om_get (jo_entries j) n, om_get (jo_reservations j) key) of
           (Some e, Some r) \<Rightarrow> en_generation e \<noteq> le_generation (rs_lease r) | _ \<Rightarrow> True)
      \<or> list_ex (\<lambda>c. close_id c = n) (om_values (jo_closes j)))"

definition handoff_candidates :: "Snapshot \<Rightarrow> Handoff \<Rightarrow> Window list" where
  "handoff_candidates snapshot h = filter (\<lambda>w. wi_mapped w \<and> wi_pid w = wn_pid (ho_window h)
     \<and> (case wi_workspace w of None \<Rightarrow> False | Some n \<Rightarrow> n > 0) \<and> wi_address w \<notin> set (ho_excluded h)) (sn_windows snapshot)"

definition exclude_present :: "Snapshot \<Rightarrow> Handoff \<Rightarrow> Handoff" where
  "exclude_present snapshot h = fold (\<lambda>w h. if wi_address w \<in> set (ho_excluded h) then h
       else h\<lparr>ho_excluded := ho_excluded h @ [wi_address w]\<rparr>)
     (filter (\<lambda>w. wi_pid w = wn_pid (ho_window h) \<and> wi_address w \<noteq> wn_address (ho_window h)) (sn_windows snapshot)) h"

definition put_handoff :: "string \<Rightarrow> Handoff \<Rightarrow> ('w, unit) weff" where
  "put_handoff key h = updateE (\<lambda>j. j\<lparr>jo_handoffs := om_insert key h (jo_handoffs j)\<rparr>)"

text \<open>The window that replaces the pinned one is moved once; the journal gives up the observer first.\<close>

definition adopt_replacement :: "'w wenv \<Rightarrow> string \<Rightarrow> Handoff \<Rightarrow> Window \<Rightarrow> string \<Rightarrow> ('w, bool) weff" where
  "adopt_replacement env key handoff candidate monitor =
     (let expression = Replace_Pinned (ho_token handoff) (wn_address (ho_window handoff)) candidate
            (wn_workspace_id (ho_window handoff)) monitor in
      seqE (liftE (wv_build env expression))
      (seqE (handoffE key (\<lambda>h. h\<lparr>ho_watching := False\<rparr>))
      (seqE (save env)
      (bindE (attemptE (runE env expression)) (\<lambda>result.
       if is_ok result then
         seqE (put_handoff key (handoff\<lparr>ho_window := (ho_window handoff)\<lparr>wn_address := wi_address candidate\<rparr>,
             ho_replacements := ho_replacements handoff + 1, ho_missing_since := None\<rparr>))
           (seqE (save env) (returnE True))
       else seqE (cancel_handoff env key) (returnE False))))))"

definition missing_handoff :: "'w wenv \<Rightarrow> Snapshot \<Rightarrow> (string \<times> int option) list \<Rightarrow> string \<Rightarrow> Handoff \<Rightarrow> string \<Rightarrow> ('w, bool) weff" where
  "missing_handoff env snapshot moved key handoff0 monitor =
     bindE (case ho_missing_since handoff0 of
         Some since \<Rightarrow> returnE since | None \<Rightarrow> seqE wake_after_grace (worldE (wv_now env))) (\<lambda>since.
     let handoff = handoff0\<lparr>ho_missing_since := Some since\<rparr> in
     seqE (handoffE key (\<lambda>h. h\<lparr>ho_missing_since := Some since\<rparr>))
     (bindE (worldE (wv_now env)) (\<lambda>now.
      if now - since \<ge> GRACE \<or> ho_replacements handoff \<ge> MAX_REPLACEMENTS
      then seqE (cancel_handoff env key) (returnE False)
      else (case handoff_candidates snapshot handoff of
          [] \<Rightarrow> seqE (put_handoff key handoff) (returnE False)
        | [candidate] \<Rightarrow>
          if moved_away moved (wi_address candidate) (wn_workspace_id (ho_window handoff))
          then seqE (cancel_handoff env key) (returnE False)
          else adopt_replacement env key handoff candidate monitor
        | _ \<Rightarrow> seqE (cancel_handoff env key) (returnE False)))))"

definition reconcile_handoff :: "'w wenv \<Rightarrow> Snapshot \<Rightarrow> (string \<times> int option) list \<Rightarrow> bool \<Rightarrow> string \<Rightarrow> bool \<Rightarrow> ('w, bool) weff" where
  "reconcile_handoff env snapshot moved lost key changed =
     bindE (journalE (\<lambda>j. om_get (jo_handoffs j) key)) (\<lambda>found.
     bindE (liftE (ok_or ''missing handoff'' found)) (\<lambda>handoff.
     bindE (worldE (wv_process_start env (wn_pid (ho_window handoff)))) (\<lambda>start.
     bindE (journalE (\<lambda>j. (superseded_handoff j key handoff moved lost start,
         om_get (jo_entries j) (wn_workspace_id (ho_window handoff))))) (\<lambda>(superseded, entry).
     if superseded then seqE (cancel_handoff env key) (returnE changed)
     else bindE (askE (wv_pinned_state env (ho_token handoff) (wn_address (ho_window handoff)) (wn_pid (ho_window handoff))
         (wn_workspace_id (ho_window handoff)))) (\<lambda>pinned. case pinned of
         Present \<Rightarrow>
           (let h = exclude_present snapshot handoff in
            seqE (if length (ho_excluded h) > 512 then cancel_handoff env key
              else put_handoff key (h\<lparr>ho_missing_since := None\<rparr>)) (returnE changed))
       | Gone \<Rightarrow>
           bindE (liftE (ok_or ''missing entry'' entry)) (\<lambda>e.
           bindE (missing_handoff env snapshot moved key handoff (en_monitor e)) (\<lambda>replaced. returnE (changed \<or> replaced)))
       | _ \<Rightarrow> seqE (cancel_handoff env key) (returnE changed))))))"

definition reconcile_handoffs :: "'w wenv \<Rightarrow> Snapshot \<Rightarrow> ('w, bool) weff" where
  "reconcile_handoffs env snapshot =
     bindE (journalE (\<lambda>j. om_keys (jo_handoffs j))) (\<lambda>keys.
     bindE (getE (\<lambda>s. (sv_moved s, sv_lost s))) (\<lambda>(moved, lost).
     seqE (modifyE (\<lambda>s. s\<lparr>sv_moved := [], sv_lost := False\<rparr>))
     (bindE (journalE (\<lambda>j. list_ex (fenced_by_events moved lost snapshot) (om_values (jo_handoffs j)))) (\<lambda>fenced.
      seqE (updateE (\<lambda>j. j\<lparr>jo_handoffs := om_map (\<lambda>h. if fenced_by_events moved lost snapshot h
          then h\<lparr>ho_watching := False\<rparr> else h) (jo_handoffs j)\<rparr>))
      (seqE (if fenced then save env else returnE ())
        (foldE (reconcile_handoff env snapshot moved lost) keys False))))))"

text \<open>Compositor events that matter here; every other one is ignored.\<close>

datatype wevent = Stream_Lost | Window_Moved string "int option" bool | Other_Event

definition handoff_event :: "wevent \<Rightarrow> 'w wstate \<Rightarrow> 'w wstate" where
  "handoff_event e s = (case e of
     Stream_Lost \<Rightarrow> s\<lparr>sv_lost := True\<rparr>
   | Window_Moved address ws special \<Rightarrow>
       if length (sv_moved s) < 512
       then s\<lparr>sv_moved := List.insert (address, (case ws of None \<Rightarrow> None | Some n \<Rightarrow> if n > 0 \<and> \<not> special then Some n else None))
         (sv_moved s)\<rparr>
       else s\<lparr>sv_lost := True\<rparr>
   | Other_Event \<Rightarrow> s)"

section \<open>Placing\<close>

definition admit_placement :: "string \<Rightarrow> Snapshot \<Rightarrow> Journal \<Rightarrow> Placement \<Rightarrow> Reservation \<Rightarrow> unit result" where
  "admit_placement writer snapshot journal request record =
     and_then (ensure (rs_status record = ''reserved'') ''placement outcome requires reconciliation; never replay'') (\<lambda>_.
     and_then (ensure (window_at snapshot (wn_address (pl_window request)) (wn_pid (pl_window request))
       (wn_workspace_id (pl_window request))) ''stale placement candidate'') (\<lambda>_.
     and_then (ensure (find_monitor snapshot (cx_monitor (cr_context (rs_request record))) \<noteq> None) ''destination monitor disappeared'') (\<lambda>_.
     ensure (\<not> Journal_closing journal (le_workspace_id (pl_lease request))) ''workspace is closing'')))"

definition placement_expression :: "Snapshot \<Rightarrow> Placement \<Rightarrow> Context \<Rightarrow> Handoff option \<Rightarrow> cmd" where
  "placement_expression snapshot request context handoff =
     (let n = le_workspace_id (pl_lease request);
          w = pl_window request;
          monitor = (case find (\<lambda>w. lw_id w = Some n) (sn_workspaces snapshot) of
            None \<Rightarrow> cx_monitor context | Some w \<Rightarrow> lw_monitor w);
          move = Move_Local (wn_address w) (wn_pid w) (wn_workspace_id w) n monitor in
      (case handoff of None \<Rightarrow> move
       | Some h \<Rightarrow> Then_Cmd move (Pin_Window (ho_token h) (wn_address w) (wn_pid w) n)))"

fun buildE :: "'w wenv \<Rightarrow> cmd \<Rightarrow> unit result" where
  "buildE env (Then_Cmd a b) = and_then (buildE env a) (\<lambda>_. buildE env b)"
| "buildE env c = wv_build env c"

definition observed_entry :: "Create \<Rightarrow> Entry \<Rightarrow> Entry" where
  "observed_entry request e =
     (let e = e\<lparr>en_occupied := True\<rparr>;
          e = (if \<not> cue_assigned e \<or> cue_empty e
               then e\<lparr>en_origin := cr_origin request, en_icon := cr_icon request, cue_assigned := True\<rparr> else e) in
      e\<lparr>cue_empty := False\<rparr>)"

definition record_placement :: "string \<Rightarrow> int \<Rightarrow> Create \<Rightarrow> bool \<Rightarrow> ('w, unit) weff" where
  "record_placement key n origin verified =
     seqE (reservationE key (\<lambda>r. r\<lparr>rs_placed := verified, rs_status := (if verified then ''placed'' else ''unknown'')\<rparr>))
     (if verified then seqE (handoffE key (\<lambda>h. h\<lparr>ho_watching := True\<rparr>)) (entryE n (observed_entry origin)) else returnE ())"

definition follow_placement :: "'w wenv \<Rightarrow> Snapshot \<Rightarrow> Placement \<Rightarrow> Context \<Rightarrow> ('w, unit) weff" where
  "follow_placement env current request context =
     (if pl_follow request \<and> is_ok (validate_context current context True)
         \<and> list_ex (\<lambda>m. mo_focused m \<and> mo_name m = cx_monitor context) (sn_monitors current)
      then commandE env (Follow_Window (wn_address (pl_window request)) (wn_pid (pl_window request))
        (le_workspace_id (pl_lease request)) (cx_monitor context) (cx_workspace_id context))
      else returnE ())"

definition supersede_handoffs :: "'w wenv \<Rightarrow> nat \<Rightarrow> ('w, unit) weff" where
  "supersede_handoffs env pid =
     bindE (journalE (\<lambda>j. map fst (filter (\<lambda>(_, h). wn_pid (ho_window h) = pid) (jo_handoffs j))))
       (forE (cancel_handoff env))"

text \<open>What is recorded before the window moves: the handoff, the placement and its status.\<close>

definition record_placing :: "'w wenv \<Rightarrow> string \<Rightarrow> Placement \<Rightarrow> Handoff option \<Rightarrow> ('w, unit) weff" where
  "record_placing env key request handoff =
     seqE (case handoff of None \<Rightarrow> returnE () | Some h \<Rightarrow> put_handoff key h)
     (seqE (reservationE key (\<lambda>r. r\<lparr>rs_status := ''placing'', rs_placement := Some request\<rparr>))
       (save env))"

definition Service_place :: "'w wenv \<Rightarrow> Snapshot \<Rightarrow> Placement \<Rightarrow> ('w, Reply) weff" where
  "Service_place env snapshot request =
     (let lease = pl_lease request; key = le_request_id lease; n = le_workspace_id lease in
      bindE (getE (\<lambda>s. check_lease (sv_writer s) (sv_journal s) lease True)) (\<lambda>checked.
      bindE (liftE checked) (\<lambda>record.
      if rs_placed record then
        seqE (ensureE (rs_placement record = Some request) ''placement parameters changed'')
          (returnE (Lease_Reply ''placed'' lease))
      else
        bindE (getE (\<lambda>s. admit_placement (sv_writer s) snapshot (sv_journal s) request record)) (\<lambda>admitted.
        seqE (liftE admitted)
        (seqE (supersede_handoffs env (wn_pid (pl_window request)))
        (bindE (Handoff_prepare env record request snapshot) (\<lambda>handoff.
         seqE (if handoff \<noteq> None then prepare_pins env else returnE ())
         (seqE (record_placing env key request handoff)
         (let expression = placement_expression snapshot request (cr_context (rs_request record)) handoff in
         (seqE (liftE (buildE env expression))
         (bindE (attemptE (runE env expression)) (\<lambda>result.
          bindE (askE (wv_snapshot env)) (\<lambda>current.
          let verified = (is_ok result \<and> window_at current (wn_address (pl_window request)) (wn_pid (pl_window request)) n) in
          seqE (record_placement key n (rs_request record) verified)
          (seqE (save env)
          (seqE (if verified then returnE () else cancel_handoff env key)
          (seqE (ensureE verified ''placement not observed; launch must not be replayed'')
          (seqE (follow_placement env current request (cr_context (rs_request record)))
            (returnE (Lease_Reply ''placed'' lease)))))))))))))))))))"

section \<open>Closing\<close>

definition close_targets :: "string \<Rightarrow> int \<Rightarrow> Snapshot \<Rightarrow> CloseTarget list" where
  "close_targets prefix n snapshot =
     map (\<lambda>w. \<lparr>tg_window = \<lparr>wn_address = wi_address w, wn_pid = wi_pid w, wn_workspace_id = n\<rparr>,
         tg_token = prefix @ ''-'' @ wi_address w, tg_attempted = False\<rparr>)
       (filter (\<lambda>w. wi_mapped w \<and> wi_workspace w = Some n) (sn_windows snapshot))"

text \<open>Admission of a close fences every pending writer and observer of its workspace and gives up its retention.\<close>

definition admit_close :: "string \<Rightarrow> Close \<Rightarrow> CloseTarget list \<Rightarrow> Journal \<Rightarrow> Journal" where
  "admit_close key request targets j =
     (let n = cx_workspace_id (cl_context request) in
      j\<lparr>jo_closes := om_insert key \<lparr>cs_request = request, cs_targets = targets, cs_status = ''dispatching'', cs_error = None\<rparr>
          (jo_closes j),
        jo_handoffs := om_map (\<lambda>h. if wn_workspace_id (ho_window h) = n then h\<lparr>ho_watching := False\<rparr> else h) (jo_handoffs j),
        jo_reservations := om_map (\<lambda>r. if le_workspace_id (rs_lease r) = n \<and> \<not> rs_released r
          then r\<lparr>rs_released := True, rs_status := ''released''\<rparr> else r) (jo_reservations j),
        jo_entries := om_adjust n (\<lambda>e. e\<lparr>landing_pad := False, keep_until_closed := False\<rparr>) (jo_entries j)\<rparr>)"

definition attempted :: "nat \<Rightarrow> CloseRecord \<Rightarrow> CloseRecord" where
  "attempted i c = (if i < length (cs_targets c)
     then c\<lparr>cs_targets := (cs_targets c)[i := (cs_targets c ! i)\<lparr>tg_attempted := True\<rparr>]\<rparr> else c)"

definition close_target :: "'w wenv \<Rightarrow> string \<Rightarrow> nat \<Rightarrow> ('w, unit) weff" where
  "close_target env key i =
     seqE (closeE key (attempted i))
     (seqE (save env)
     (bindE (close_of key) (\<lambda>record.
      let target = cs_targets record ! i; w = tg_window target;
          expression = Close_Pinned (tg_token target) (wn_address w) (wn_pid w) (wn_workspace_id w) in
      seqE (liftE (wv_build env (Release_Window (tg_token target))))
      (seqE (liftE (wv_build env expression))
      (bindE (attemptE (runE env expression)) (\<lambda>result.
       seqE (case result of Inl e \<Rightarrow> closeE key (\<lambda>c. c\<lparr>cs_error := Some (err_to_string e)\<rparr>) | Inr _ \<Rightarrow> returnE ())
       (bindE (attemptE (runE env (Release_Window (tg_token target)))) (\<lambda>_. returnE ()))))))))"

definition active_close_of :: "int \<Rightarrow> Journal \<Rightarrow> CloseRecord option" where
  "active_close_of n j = find (\<lambda>r. close_id r = n \<and> active_close r) (om_values (jo_closes j))"

definition Service_close :: "'w wenv \<Rightarrow> Snapshot \<Rightarrow> Close \<Rightarrow> ('w, Reply) weff" where
  "Service_close env snapshot request =
     (let key = cl_request_id request; n = cx_workspace_id (cl_context request) in
      bindE (journalE (\<lambda>j. om_get (jo_closes j) key)) (\<lambda>existing. case existing of
        Some record \<Rightarrow>
          seqE (ensureE (cs_request record = request) ''request key reused with different parameters'')
            (returnE (Close_Reply record))
      | None \<Rightarrow>
        seqE (liftE (validate_context snapshot (cl_context request) True))
        (bindE (journalE (active_close_of n)) (\<lambda>pending. case pending of
          Some record \<Rightarrow> returnE (Close_Reply record)
        | None \<Rightarrow>
          seqE (bindE (journalE (Journal_admit (wv_limits env) key)) liftE)
          (bindE (worldE (wv_fresh env)) (\<lambda>epoch.
           let prefix = PIN_PREFIX @ ''close-'' @ epoch in
           seqE (prepare_pins env)
           (bindE (askE (wv_pinned_snapshot env (cx_monitor (cl_context request)) n prefix)) (\<lambda>pinned.
            let targets = close_targets prefix n pinned in
            seqE (ensureE (length targets \<le> 512) ''workspace window limit exceeded'')
            (seqE (updateE (admit_close key request targets))
            (seqE (save env)
            (seqE (forE (close_target env key) [0 ..< length targets])
            (seqE (closeE key (\<lambda>c. c\<lparr>cs_status := ''waiting''\<rparr>))
            (seqE (save env)
            (seqE (modifyE (\<lambda>s. s\<lparr>sv_observers := sv_observers s @ [(key, 0)]\<rparr>))
              (bindE (close_of key) (\<lambda>r. returnE (Close_Reply r)))))))))))))))))"

section \<open>Cleanup\<close>

definition note_active :: "int \<Rightarrow> int list \<Rightarrow> int list" where
  "note_active active history =
     (if (case history of [] \<Rightarrow> False | h # _ \<Rightarrow> h = active) then history
      else take 128 (active # filter (\<lambda>n. n \<noteq> active) history))"

text \<open>The active workspaces of the monitors, most recent first, and whether that changed anything.\<close>

definition note_monitor :: "Monitor \<Rightarrow> (string, int list) omap \<times> bool \<Rightarrow> (string, int list) omap \<times> bool" where
  "note_monitor m = (\<lambda>(h, changed). case mo_active m of
     None \<Rightarrow> (h, changed)
   | Some active \<Rightarrow> if active > 0 then
       let old = unwrap_or [] (om_get h (mo_name m)) in
       (om_insert (mo_name m) (note_active active old) h, changed \<or> (case old of [] \<Rightarrow> True | first # _ \<Rightarrow> first \<noteq> active))
     else (h, changed))"

definition min_window :: "Window list \<Rightarrow> Window option" where
  "min_window ws = fold (\<lambda>w best. case best of None \<Rightarrow> Some w
     | Some b \<Rightarrow> if wi_address w < wi_address b then Some w else best) ws None"

definition windows_on :: "Snapshot \<Rightarrow> int \<Rightarrow> Window list" where
  "windows_on snapshot n = filter (\<lambda>w. wi_mapped w \<and> wi_workspace w = Some n) (sn_windows snapshot)"

definition pending_lease :: "int \<Rightarrow> Journal \<Rightarrow> bool" where
  "pending_lease n j \<longleftrightarrow> list_ex (\<lambda>r. le_workspace_id (rs_lease r) = n \<and> \<not> rs_released r) (om_values (jo_reservations j))"

definition explicitly_closed :: "int \<Rightarrow> Journal \<Rightarrow> bool" where
  "explicitly_closed n j \<longleftrightarrow> list_ex (\<lambda>c. close_id c = n) (om_values (jo_closes j))"

definition watched :: "int \<Rightarrow> Journal \<Rightarrow> bool" where
  "watched n j \<longleftrightarrow> list_ex (\<lambda>h. ho_watching h \<and> wn_workspace_id (ho_window h) = n) (om_values (jo_handoffs j))"

definition fallback_entry :: "string \<Rightarrow> int \<Rightarrow> string \<Rightarrow> Entry" where
  "fallback_entry monitor n generation =
     \<lparr>en_id = n, en_generation = generation, en_monitor = monitor, en_occupied = False, landing_pad = True,
      keep_until_closed = False, en_origin = ''Workspace'', en_icon = ''workspace'', cue_assigned = False, cue_empty = True\<rparr>"

text \<open>A workspace that held windows waits for the grace period after its last one.\<close>

definition still_in_grace :: "'w wenv \<Rightarrow> int \<Rightarrow> ('w, bool) weff" where
  "still_in_grace env n =
     bindE (getE (\<lambda>s. om_get (sv_empty_since s) n)) (\<lambda>known.
     bindE (case known of Some since \<Rightarrow> returnE since
        | None \<Rightarrow> seqE wake_after_grace (bindE (worldE (wv_now env)) (\<lambda>now.
            seqE (modifyE (\<lambda>s. s\<lparr>sv_empty_since := om_insert n now (sv_empty_since s)\<rparr>)) (returnE now)))) (\<lambda>since.
     bindE (worldE (wv_now env)) (\<lambda>now.
     bindE (journalE (watched n)) (\<lambda>handed. returnE (now - since < GRACE \<or> handed)))))"

definition leave_workspace :: "'w wenv \<Rightarrow> Snapshot \<Rightarrow> Monitor \<Rightarrow> int \<Rightarrow> ('w, unit) weff" where
  "leave_workspace env snapshot monitor n =
     bindE (journalE (\<lambda>j. fallback j snapshot (mo_name monitor) n)) (\<lambda>found.
     bindE (case found of
         Some target \<Rightarrow> returnE target
       | None \<Rightarrow> bindE (allocateE env snapshot) (\<lambda>next.
           bindE (worldE (wv_fresh env)) (\<lambda>generation.
           seqE (updateE (\<lambda>j. j\<lparr>jo_entries := om_insert next (fallback_entry (mo_name monitor) next generation) (jo_entries j)\<rparr>))
           (seqE (save env) (returnE next))))) (\<lambda>target.
     seqE (commandE env (Focus_Local (mo_name monitor) n target False))
     (bindE (askE (wv_snapshot env)) (\<lambda>observed.
      ensureE (has_active observed (mo_name monitor) target) ''fallback focus was not observed''))))"

definition retire :: "'w wenv \<Rightarrow> Snapshot \<Rightarrow> Monitor option \<Rightarrow> int \<Rightarrow> ('w, bool) weff" where
  "retire env snapshot active n =
     seqE (case active of None \<Rightarrow> returnE () | Some monitor \<Rightarrow> leave_workspace env snapshot monitor n)
     (seqE (updateE (\<lambda>j. j\<lparr>jo_entries := om_remove n (jo_entries j)\<rparr>))
     (seqE (modifyE (\<lambda>s. s\<lparr>sv_empty_since := om_remove n (sv_empty_since s)\<rparr>))
       (returnE True)))"

definition cleanup_entry :: "'w wenv \<Rightarrow> Snapshot \<Rightarrow> int \<Rightarrow> bool \<Rightarrow> ('w, bool) weff" where
  "cleanup_entry env snapshot n changed0 =
     (let window = min_window (windows_on snapshot n);
          active = find (\<lambda>m. mo_active m = Some n) (sn_monitors snapshot) in
      bindE (journalE (\<lambda>j. (window = None \<and> Journal_closing j n, om_get (jo_entries j) n))) (\<lambda>(closing, found).
      bindE (liftE (ok_or ''workspace entry disappeared'' found)) (\<lambda>entry0.
      let (observed, entry) = Entry_observe (wv_limits env) (find (\<lambda>w. lw_id w = Some n) (sn_workspaces snapshot)) window entry0;
          changed = (changed0 \<or> observed) in
      seqE (entryE n (\<lambda>_. entry))
      (if window \<noteq> None then
         seqE (modifyE (\<lambda>s. s\<lparr>sv_empty_since := om_remove n (sv_empty_since s)\<rparr>)) (returnE changed)
       else
         let adoptable = (\<not> en_occupied entry \<and> active \<noteq> None) in
         bindE (journalE (\<lambda>j. (pending_lease n j, explicitly_closed n j))) (\<lambda>(pending, closed_before).
         if closing \<or> pending then
           (if \<not> closing \<and> \<not> landing_pad entry \<and> adoptable
            then seqE (entryE n (\<lambda>e. e\<lparr>landing_pad := True\<rparr>)) (returnE True) else returnE changed)
         else if keep_until_closed entry \<or> (landing_pad entry \<and> adoptable) then returnE changed
         else bindE (if en_occupied entry \<and> \<not> closed_before then still_in_grace env n else returnE False) (\<lambda>wait.
           if wait then returnE changed else retire env snapshot active n))))))"

definition cleanup :: "'w wenv \<Rightarrow> Snapshot \<Rightarrow> ('w, unit) weff" where
  "cleanup env snapshot0 =
     bindE (reconcile_handoffs env snapshot0) (\<lambda>replaced.
     bindE (if replaced then bindE (askE (wv_snapshot env)) (\<lambda>s. seqE notify_changed (returnE s)) else returnE snapshot0) (\<lambda>snapshot.
     bindE (journalE (\<lambda>j. fold note_monitor (sn_monitors snapshot) (jo_history j, False))) (\<lambda>(history, changed).
     seqE (updateE (\<lambda>j. j\<lparr>jo_history := history\<rparr>))
     (bindE (journalE (\<lambda>j. om_keys (jo_entries j))) (\<lambda>ids.
     bindE (foldE (cleanup_entry env snapshot) ids changed) (\<lambda>changed.
     if changed then save env else returnE ()))))))"

section \<open>Commands\<close>

datatype CommandKind = Create_Kind | Close_Kind | Next_Kind | Previous_Kind | Focus_Kind | Move_Kind

record Command =
  cm_command :: CommandKind
  cm_workspace_id :: "int option"
  cm_position :: "int option"
  cm_monitor :: "string option"
  cm_request_id :: "string option"

definition well_formed_command :: "Command \<Rightarrow> bool" where
  "well_formed_command c \<longleftrightarrow>
     (if cm_command c \<in> {Focus_Kind, Move_Kind} then (cm_workspace_id c \<noteq> None) \<noteq> (cm_position c \<noteq> None)
      else cm_workspace_id c = None \<and> cm_position c = None)"

definition same_monitor :: "Command \<Rightarrow> Context \<Rightarrow> bool" where
  "same_monitor c context \<longleftrightarrow> (case cm_monitor c of None \<Rightarrow> True | Some m \<Rightarrow> m = cx_monitor context)"

text \<open>A recorded request key answers again, or is refused; it never runs a second time.\<close>

definition recorded_command :: "Command \<Rightarrow> Journal \<Rightarrow> Reply option result" where
  "recorded_command c j = (case cm_request_id c of
     None \<Rightarrow> Ok None
   | Some key \<Rightarrow> (case om_get (jo_reservations j) key of
       Some record \<Rightarrow>
         and_then (ensure (cm_command c = Create_Kind \<and> cr_purpose (rs_request record) = LandingPad
           \<and> same_monitor c (cr_context (rs_request record))) ''request key reused with different command'')
           (\<lambda>_. Ok (Some (Reservation_Reply record)))
     | None \<Rightarrow> (case om_get (jo_closes j) key of
         Some record \<Rightarrow>
           and_then (ensure (cm_command c = Close_Kind \<and> same_monitor c (cl_context (cs_request record)))
             ''request key reused with different command'') (\<lambda>_. Ok (Some (Close_Reply record)))
       | None \<Rightarrow> Ok None)))"

definition positive :: "int option \<Rightarrow> int option" where
  "positive v = (case v of None \<Rightarrow> None | Some n \<Rightarrow> if n > 0 then Some n else None)"

definition invoking_context :: "Snapshot \<Rightarrow> string option \<Rightarrow> Context result" where
  "invoking_context snapshot monitor =
     and_then (ok_or ''invoking monitor unavailable''
       (find (\<lambda>m. case monitor of None \<Rightarrow> mo_focused m | Some name \<Rightarrow> mo_name m = name) (sn_monitors snapshot))) (\<lambda>m.
     and_then (ok_or ''ordinary workspace required'' (positive (mo_active m))) (\<lambda>n.
     Ok \<lparr>cx_session = sn_session snapshot, cx_monitor = mo_name m, cx_workspace_id = n\<rparr>))"

definition elsewhere :: "Snapshot \<Rightarrow> string \<Rightarrow> int \<Rightarrow> bool" where
  "elsewhere snapshot monitor n \<longleftrightarrow> list_ex (\<lambda>w. lw_id w = Some n \<and> lw_monitor w \<noteq> monitor) (sn_workspaces snapshot)"

definition command_target :: "Command \<Rightarrow> Journal \<Rightarrow> Snapshot \<Rightarrow> Context \<Rightarrow> int result" where
  "command_target c j snapshot context = (case cm_position c of
     Some position \<Rightarrow>
       and_then (ensure (position \<ge> 1) ''invalid workspace bar position'') (\<lambda>_.
       let ids = workspace_ids j (cx_monitor context) (sn_workspaces snapshot) in
       ok_or ''workspace bar position does not exist on this monitor''
         (if nat (position - 1) < length ids then Some (ids ! nat (position - 1)) else None))
   | None \<Rightarrow> ok_or ''missing workspace ID'' (cm_workspace_id c))"

definition retained :: "Journal \<Rightarrow> string \<Rightarrow> int \<Rightarrow> bool" where
  "retained j monitor n \<longleftrightarrow> (case om_get (jo_entries j) n of None \<Rightarrow> False
     | Some e \<Rightarrow> keep_until_closed e \<and> en_monitor e = monitor)"

definition select_target :: "wslimits \<Rightarrow> Command \<Rightarrow> Journal \<Rightarrow> Snapshot \<Rightarrow> Context \<Rightarrow> (int \<times> bool) result" where
  "select_target L c j snapshot context =
     and_then (command_target c j snapshot context) (\<lambda>n.
     and_then (ensure (valid_workspace L n) ''invalid workspace ID'') (\<lambda>_.
     and_then (ensure (\<not> Journal_closing j n) ''workspace is closing'') (\<lambda>_.
     and_then (ensure (\<not> elsewhere snapshot (cx_monitor context) n) ''workspace belongs to another monitor'') (\<lambda>_.
     let materialize = (n \<le> 5 \<or> retained j (cx_monitor context) n) in
     and_then (ensure (materialize \<or> list_ex (\<lambda>w. lw_id w = Some n \<and> lw_monitor w = cx_monitor context) (sn_workspaces snapshot))
       ''workspace does not exist on this monitor'') (\<lambda>_. Ok (n, materialize))))))"

definition select_workspace :: "'w wenv \<Rightarrow> Snapshot \<Rightarrow> Command \<Rightarrow> Context \<Rightarrow> ('w, Reply) weff" where
  "select_workspace env snapshot c context =
     (let moving = (cm_command c = Move_Kind) in
      bindE (journalE (\<lambda>j. select_target (wv_limits env) c j snapshot context)) (\<lambda>r.
      bindE (liftE r) (\<lambda>(n, materialize).
      seqE (commandE env (Select_Local (cx_monitor context) (cx_workspace_id context) n moving materialize))
      (bindE (journalE (\<lambda>j. om_has n (jo_entries j))) (\<lambda>known.
       seqE (if moving \<and> windows_on snapshot n = [] \<and> known
         then seqE (entryE n (\<lambda>e. e\<lparr>cue_empty := True\<rparr>)) (save env) else returnE ())
        (returnE (Focus_Reply (if moving then ''moved'' else ''focused'') n)))))))"

definition neighbour :: "bool \<Rightarrow> Journal \<Rightarrow> Snapshot \<Rightarrow> Context \<Rightarrow> int result" where
  "neighbour forward j snapshot context =
     (let ids = filter (\<lambda>n. \<not> elsewhere snapshot (cx_monitor context) n)
            (workspace_ids j (cx_monitor context) (sn_workspaces snapshot)) in
      and_then (ensure (ids \<noteq> []) ''no local workspace'') (\<lambda>_.
      let i = length (takeWhile (\<lambda>n. n \<noteq> cx_workspace_id context) ids);
          position = (if i < length ids then i else 0) in
      Ok (ids ! (if forward then (position + 1) mod length ids else (position + length ids - 1) mod length ids))))"

definition step_workspace :: "'w wenv \<Rightarrow> Snapshot \<Rightarrow> bool \<Rightarrow> Context \<Rightarrow> ('w, Reply) weff" where
  "step_workspace env snapshot forward context =
     bindE (journalE (\<lambda>j. neighbour forward j snapshot context)) (\<lambda>r.
     bindE (liftE r) (\<lambda>n.
     seqE (commandE env (Focus_Local (cx_monitor context) (cx_workspace_id context) n True))
       (returnE (Focus_Reply ''focused'' n))))"

definition run_command :: "'w wenv \<Rightarrow> Snapshot \<Rightarrow> Command \<Rightarrow> ('w, Reply) weff" where
  "run_command env snapshot c =
     seqE (ensureE (well_formed_command c) ''only focus and move require exactly one workspace ID or bar position'')
     (bindE (journalE (recorded_command c)) (\<lambda>recorded.
      bindE (liftE recorded) (\<lambda>answer. case answer of
        Some reply \<Rightarrow> returnE reply
      | None \<Rightarrow>
        bindE (liftE (invoking_context snapshot (cm_monitor c))) (\<lambda>context.
        bindE (case cm_request_id c of Some key \<Rightarrow> returnE key | None \<Rightarrow> worldE (wv_fresh env)) (\<lambda>key.
        (case cm_command c of
           Focus_Kind \<Rightarrow> select_workspace env snapshot c context
         | Move_Kind \<Rightarrow> select_workspace env snapshot c context
         | Create_Kind \<Rightarrow> create env snapshot \<lparr>cr_request_id = key, cr_context = context, cr_purpose = LandingPad,
             cr_workspace_id = None, cr_origin = ''Workspace'', cr_icon = ''workspace''\<rparr>
         | Close_Kind \<Rightarrow> Service_close env snapshot \<lparr>cl_request_id = key, cl_context = context\<rparr>
         | Next_Kind \<Rightarrow> step_workspace env snapshot True context
         | Previous_Kind \<Rightarrow> step_workspace env snapshot False context))))))"

section \<open>Requests\<close>

datatype Request =
    Command_Request Command
  | Context_Request "string option"
  | Create_Request Create
  | Place_Request Placement
  | Release_Request Lease
  | Lookup_Request string string
  | Close_Request Close
  | Undecodable_Request

definition workspace_context :: "'w wenv \<Rightarrow> Snapshot \<Rightarrow> string option \<Rightarrow> ('w, Reply) weff" where
  "workspace_context env snapshot monitor =
     bindE (liftE (invoking_context snapshot monitor)) (\<lambda>context.
     bindE (worldE (wv_fresh env)) (\<lambda>key. returnE (Context_Reply (wire_version (wv_limits env)) context key)))"

definition release_lease :: "'w wenv \<Rightarrow> Snapshot \<Rightarrow> Lease \<Rightarrow> ('w, Reply) weff" where
  "release_lease env snapshot lease =
     bindE (getE (\<lambda>s. check_lease (sv_writer s) (sv_journal s) lease False)) (\<lambda>checked.
     seqE (liftE checked)
     (seqE (reservationE (le_request_id lease) (\<lambda>r. r\<lparr>rs_released := True,
        rs_status := (if rs_status r \<noteq> ''unknown'' then ''released'' else rs_status r)\<rparr>))
     (seqE (save env)
     (seqE (cleanup env snapshot)
       (returnE (Lease_Reply ''released'' lease))))))"

definition operation_get :: "Snapshot \<Rightarrow> string \<Rightarrow> string \<Rightarrow> ('w, Reply) weff" where
  "operation_get snapshot session key =
     seqE (ensureE (session = sn_session snapshot) ''stale session'')
     (bindE (journalE (\<lambda>j. (om_get (jo_reservations j) key, om_get (jo_closes j) key))) (\<lambda>(r, c).
      case r of Some record \<Rightarrow> returnE (Reservation_Reply record)
      | None \<Rightarrow> (case c of Some record \<Rightarrow> returnE (Close_Reply record)
          | None \<Rightarrow> throwE (err ''workspace operation not found''))))"

definition handle :: "'w wenv \<Rightarrow> Snapshot \<Rightarrow> Request \<Rightarrow> ('w, Reply) weff" where
  "handle env snapshot r = (case r of
     Command_Request c \<Rightarrow> run_command env snapshot c
   | Context_Request m \<Rightarrow> workspace_context env snapshot m
   | Create_Request c \<Rightarrow> create env snapshot c
   | Place_Request p \<Rightarrow> Service_place env snapshot p
   | Release_Request l \<Rightarrow> release_lease env snapshot l
   | Lookup_Request session key \<Rightarrow> operation_get snapshot session key
   | Close_Request c \<Rightarrow> Service_close env snapshot c
   | Undecodable_Request \<Rightarrow> throwE (err ''unsupported workspace method''))"

definition call :: "'w wenv \<Rightarrow> Request \<Rightarrow> ('w, Reply) weff" where
  "call env r = bindE (askE (wv_snapshot env)) (\<lambda>snapshot. seqE (initialize env snapshot) (handle env snapshot r))"

definition read_method :: "Request \<Rightarrow> bool" where
  "read_method r = (case r of Context_Request _ \<Rightarrow> True | Lookup_Request _ _ \<Rightarrow> True | _ \<Rightarrow> False)"

text \<open>\<open>known_read\<close> covers a request of a reading method whose parameters do not decode.\<close>

definition dispatch :: "'w wenv \<Rightarrow> bool \<Rightarrow> Request \<Rightarrow> ('w, Reply) weff" where
  "dispatch env known_read r =
     bindE (attemptE (call env r)) (\<lambda>result.
     seqE (if read_method r \<or> known_read then returnE () else notify_changed) (liftE result))"

section \<open>Observing a close, and projecting\<close>

definition remaining_targets :: "Snapshot \<Rightarrow> CloseRecord \<Rightarrow> bool" where
  "remaining_targets snapshot record \<longleftrightarrow> list_ex (\<lambda>w. wi_mapped w \<and> list_ex (\<lambda>t. wn_address (tg_window t) = wi_address w
     \<and> wn_pid (tg_window t) = wi_pid w) (cs_targets record)) (sn_windows snapshot)"

definition finish_close :: "'w wenv \<Rightarrow> string \<Rightarrow> string \<Rightarrow> Snapshot result \<Rightarrow> ('w, unit) weff" where
  "finish_close env key status snapshot =
     seqE (closeE key (\<lambda>c. c\<lparr>cs_status := status\<rparr>))
     (bindE (attemptE (save env)) (\<lambda>saved.
      seqE (case snapshot of Inl _ \<Rightarrow> returnE ()
        | Inr s \<Rightarrow> if is_ok saved then bindE (attemptE (cleanup env s)) (\<lambda>_. returnE ()) else returnE ())
        notify_changed))"

text \<open>One attempt; the answer is whether the observer sleeps and tries again.\<close>

definition OBSERVATIONS :: nat where "OBSERVATIONS = 26"

definition observe_attempt :: "'w wenv \<Rightarrow> string \<Rightarrow> nat \<Rightarrow> ('w, bool) weff" where
  "observe_attempt env key attempt =
     bindE (attemptE (askE (wv_snapshot env))) (\<lambda>snapshot.
     bindE (getE (\<lambda>s. if sv_ready s then om_get (jo_closes (sv_journal s)) key else None)) (\<lambda>found. case found of
       None \<Rightarrow> returnE False
     | Some record \<Rightarrow>
       let left = (case snapshot of Inl _ \<Rightarrow> False | Inr s \<Rightarrow> remaining_targets s record) in
       if \<not> is_ok snapshot \<or> \<not> left \<or> attempt + 1 \<ge> OBSERVATIONS then
         seqE (finish_close env key (if \<not> is_ok snapshot then ''unknown'' else if left then ''still-open'' else ''closed'') snapshot)
           (returnE False)
       else returnE True))"

definition observe_close :: "'w wenv \<Rightarrow> nat \<Rightarrow> 'w wstate \<Rightarrow> 'w wstate" where
  "observe_close env i s = (if i < length (sv_observers s) then
     let (key, attempt) = sv_observers s ! i;
         rest = take i (sv_observers s) @ drop (i + 1) (sv_observers s) in
     (case observe_attempt env key attempt s of
        (Inr True, t) \<Rightarrow> t\<lparr>sv_observers := (sv_observers s)[i := (key, attempt + 1)]\<rparr>
      | (_, t) \<Rightarrow> t\<lparr>sv_observers := rest\<rparr>)
   else s)"

definition Service_project :: "'w wenv \<Rightarrow> WorkspaceState \<Rightarrow> ('w, View) weff" where
  "Service_project env state =
     bindE (attemptE (bindE (askE (wv_snapshot env)) (\<lambda>snapshot.
       seqE (initialize env snapshot)
       (seqE (cleanup env snapshot)
         (journalE (\<lambda>j. let v = view (wv_limits env) j state in v\<lparr>vw_available := vw_available v \<and> wv_enabled env\<rparr>)))))) (\<lambda>result.
     returnE (case result of
        Inr v \<Rightarrow> v
      | Inl e \<Rightarrow> (view (wv_limits env) (Journal_empty (wv_limits env) []) state)\<lparr>vw_available := False,
          vw_error := Some (err_to_string e)\<rparr>))"

section \<open>Runs\<close>

text \<open>A daemon that starts again finds the files of the one before it, and nothing else of it.\<close>

definition restart :: "string \<Rightarrow> 'w \<Rightarrow> 'w wstate \<Rightarrow> 'w wstate" where
  "restart writer world s =
     s\<lparr>sv_world := world, sv_trace := Restarted # sv_trace s, sv_ready := False, sv_poisoned := False,
       sv_pins_cleaned := False, sv_empty_since := [], sv_writer := writer, sv_changed := False, sv_moved := [],
       sv_lost := False, sv_observers := [], sv_wakes := 0\<rparr>"

datatype 'w wop =
    Dispatch bool Request
  | Observe nat
  | Project WorkspaceState
  | Event wevent
  | Grace_Timer
  | Notified
  | Restart string 'w

definition wstep :: "'w wenv \<Rightarrow> 'w wstate \<Rightarrow> 'w wop \<Rightarrow> 'w wstate" where
  "wstep env s x = (case x of
     Dispatch k r \<Rightarrow> snd (dispatch env k r s)
   | Observe i \<Rightarrow> observe_close env i s
   | Project st \<Rightarrow> snd (Service_project env st s)
   | Event e \<Rightarrow> handoff_event e s
   | Grace_Timer \<Rightarrow> (if sv_wakes s > 0 then s\<lparr>sv_wakes := sv_wakes s - 1, sv_changed := True\<rparr> else s)
   | Notified \<Rightarrow> s\<lparr>sv_changed := False\<rparr>
   | Restart writer world \<Rightarrow> restart writer world s)"

definition wboot :: "string \<Rightarrow> 'w \<Rightarrow> 'w wstate" where
  "wboot writer world =
     \<lparr>sv_world = world, sv_disk = (\<lambda>_. None), sv_trace = [], sv_ready = False,
      sv_journal = \<lparr>jo_version = 0, jo_session = [], jo_high = 0, jo_entries = [], jo_reservations = [], jo_closes = [],
        jo_history = [], jo_handoffs = []\<rparr>,
      sv_poisoned = False, sv_pins_cleaned = False, sv_empty_since = [], sv_writer = writer, sv_changed = False,
      sv_moved = [], sv_lost = False, sv_observers = [], sv_wakes = 0\<rparr>"

end
