(* ===== verification/Workspace_Logic.thy ===== *)
theory Workspace_Logic
  imports Workspace_Service "HOL-Library.Multiset"
begin

text \<open>
  What the workspace service keeps, and a program logic for proving it: the invariant of a journal, the order in which
  a journal may change, the discipline of the trace (every window effect is admitted by the journal last written), and
  triples over the journal and the trace for the handlers.
\<close>

named_theorems tri_intros \<open>rules for triples of workspace handlers\<close>

section \<open>Updates of maps\<close>

lemma om_keys_adjust [simp]: "om_keys (om_adjust k f m) = om_keys m"
  by (auto simp: om_adjust_def)

lemma om_fst_adjust [simp]: "fst ` set (om_adjust k f m) = fst ` set m"
  by (force simp: om_adjust_def)

lemma om_ok_adjust [simp]: "om_ok (om_adjust k f m) = om_ok m"
  by (simp add: om_ok_def)

lemma om_get_adjust [simp]: "om_get (om_adjust k f m) i = (if i = k then map_option f (om_get m k) else om_get m i)"
  by (induction m) (auto simp: om_adjust_def)

lemma length_om_adjust [simp]: "length (om_adjust k f m) = length m" "length (om_map g m) = length m"
  by (simp_all add: om_adjust_def om_map_def)

lemma om_values_get: "om_ok m \<Longrightarrow> x \<in> set (om_values m) \<longleftrightarrow> (\<exists>k. om_get m k = Some x)"
  by (auto simp: om_get_mem [symmetric] image_iff) (metis snd_conv)

lemma om_set_get: "om_ok m \<Longrightarrow> p \<in> set m \<longleftrightarrow> om_get m (fst p) = Some (snd p)"
  by (cases p) (simp add: om_get_mem)

section \<open>The invariant of a journal\<close>

definition journal_inv :: "wslimits \<Rightarrow> Journal \<Rightarrow> bool" where
  "journal_inv L j \<longleftrightarrow>
     om_ok (jo_entries j) \<and> om_ok (jo_reservations j) \<and> om_ok (jo_closes j) \<and> om_ok (jo_handoffs j)
     \<and> jo_version j = wire_version L \<and> 5 \<le> jo_high j \<and> jo_high j \<le> max_workspace_id L
     \<and> length (jo_reservations j) + length (jo_closes j) \<le> MAX_RECORDS
     \<and> (\<forall>n e. om_get (jo_entries j) n = Some e \<longrightarrow> entry_valid j (n, e))
     \<and> (\<forall>k r. om_get (jo_reservations j) k = Some r \<longrightarrow> reservation_valid L (jo_session j) (k, r))
     \<and> length (jo_handoffs j) \<le> 128
     \<and> (\<forall>k h. om_get (jo_handoffs j) k = Some h \<longrightarrow> handoff_valid L (jo_reservations j) (k, h) = Ok ())
     \<and> (\<forall>k r. om_get (jo_reservations j) k = Some r \<longrightarrow> rs_status r = ''reserved'' \<longrightarrow> rs_placement r = None)
     \<and> (\<forall>k c i r. om_get (jo_closes j) k = Some c \<longrightarrow> active_close c \<longrightarrow> om_get (jo_reservations j) i = Some r \<longrightarrow>
          le_workspace_id (rs_lease r) = close_id c \<longrightarrow> rs_released r)"

text \<open>How a journal changes: records stay, releases and placements are final, closes end once.\<close>

definition reservation_le :: "Reservation \<Rightarrow> Reservation \<Rightarrow> bool" where
  "reservation_le r r' \<longleftrightarrow> rs_request r' = rs_request r \<and> rs_lease r' = rs_lease r \<and> rs_writer r' = rs_writer r
     \<and> (rs_released r \<longrightarrow> rs_released r') \<and> (rs_placement r \<noteq> None \<longrightarrow> rs_placement r' = rs_placement r)"

definition close_le :: "CloseRecord \<Rightarrow> CloseRecord \<Rightarrow> bool" where
  "close_le c c' \<longleftrightarrow> cs_request c' = cs_request c \<and> (\<not> active_close c \<longrightarrow> \<not> active_close c')"

definition journal_le :: "Journal \<Rightarrow> Journal \<Rightarrow> bool" where
  "journal_le j j' \<longleftrightarrow> jo_session j' = jo_session j \<and> jo_high j \<le> jo_high j'
     \<and> (\<forall>k r. om_get (jo_reservations j) k = Some r \<longrightarrow> (\<exists>r'. om_get (jo_reservations j') k = Some r' \<and> reservation_le r r'))
     \<and> (\<forall>k c. om_get (jo_closes j) k = Some c \<longrightarrow> (\<exists>c'. om_get (jo_closes j') k = Some c' \<and> close_le c c'))"

lemma reservation_le_refl [simp]: "reservation_le r r"
  by (simp add: reservation_le_def)

lemma close_le_refl [simp]: "close_le c c"
  by (simp add: close_le_def)

lemma journal_le_refl [simp]: "journal_le j j"
  by (simp add: journal_le_def)

lemma journal_le_trans: "journal_le a b \<Longrightarrow> journal_le b c \<Longrightarrow> journal_le a c"
  unfolding journal_le_def reservation_le_def close_le_def by fastforce

section \<open>Moves and their records\<close>

type_synonym move = "string \<times> nat \<times> int \<times> int"

fun cmd_moves :: "cmd \<Rightarrow> move multiset" where
  "cmd_moves (Move_Local a p src dst m) = {#(a, p, src, dst)#}"
| "cmd_moves (Then_Cmd c d) = cmd_moves c + cmd_moves d"
| "cmd_moves _ = {#}"

fun trace_moves :: "string \<Rightarrow> event list \<Rightarrow> move multiset" where
  "trace_moves \<sigma> [] = {#}"
| "trace_moves \<sigma> (Ran \<tau> c # tr) = (if \<tau> = \<sigma> then cmd_moves c else {#}) + trace_moves \<sigma> tr"
| "trace_moves \<sigma> (_ # tr) = trace_moves \<sigma> tr"

definition placement_move :: "Placement \<Rightarrow> move" where
  "placement_move p = (wn_address (pl_window p), wn_pid (pl_window p), wn_workspace_id (pl_window p), le_workspace_id (pl_lease p))"

definition recorded_moves :: "Journal \<Rightarrow> move multiset" where
  "recorded_moves j = mset (map placement_move (List.map_filter rs_placement (om_values (jo_reservations j))))"

definition placed_keys :: "('k, Reservation) omap \<Rightarrow> 'k set" where
  "placed_keys m = {k. \<exists>r p. om_get m k = Some r \<and> rs_placement r = Some p}"

definition key_move :: "('k, Reservation) omap \<Rightarrow> 'k \<Rightarrow> move" where
  "key_move m k = placement_move (the (rs_placement (the (om_get m k))))"

lemma finite_placed_keys [simp]: "finite (placed_keys m)"
  by (rule finite_subset [of _ "set (om_keys m)"]) (auto simp: placed_keys_def dest: map_of_SomeD intro!: image_eqI)

lemma moves_by_key:
  "distinct (om_keys m) \<Longrightarrow>
   mset (map placement_move (List.map_filter rs_placement (om_values m))) = image_mset (key_move m) (mset_set (placed_keys m))"
proof (induction m)
  case (Cons p m)
  obtain k r where p: "p = (k, r)" by (cases p)
  with Cons.prems have k: "k \<notin> set (om_keys m)" and d: "distinct (om_keys m)" by auto
  from k have none: "om_get m k = None" by (auto simp: map_of_eq_None_iff)
  then have notin: "k \<notin> placed_keys m" by (simp add: placed_keys_def)
  have same: "i \<in> placed_keys m \<Longrightarrow> key_move (p # m) i = key_move m i" for i
    using notin by (cases "i = k") (simp_all add: key_move_def p)
  have rest: "image_mset (key_move (p # m)) (mset_set (placed_keys m)) = image_mset (key_move m) (mset_set (placed_keys m))"
    by (rule image_mset_cong) (simp add: same)
  have keys: "placed_keys (p # m) = (if rs_placement r = None then placed_keys m else insert k (placed_keys m))"
    using none by (auto simp: placed_keys_def p)
  have first: "rs_placement r = Some q \<Longrightarrow> key_move (p # m) k = placement_move q" for q by (simp add: key_move_def p)
  show ?case
    using Cons.IH [OF d] notin rest first
    by (cases "rs_placement r") (simp_all add: keys [unfolded p] p map_filter_simps)
qed (simp add: placed_keys_def map_filter_simps)

lemma recorded_moves_key:
  "om_ok (jo_reservations j) \<Longrightarrow>
   recorded_moves j = image_mset (key_move (jo_reservations j)) (mset_set (placed_keys (jo_reservations j)))"
  unfolding recorded_moves_def by (rule moves_by_key) (rule om_ok_distinct)

lemma recorded_moves_subset:
  assumes "om_ok (jo_reservations j)" "om_ok (jo_reservations j')" and sub: "journal_le j j'"
  shows "recorded_moves j \<subseteq># recorded_moves j'"
proof -
  let ?m = "jo_reservations j" and ?m' = "jo_reservations j'"
  have *: "k \<in> placed_keys ?m' \<and> key_move ?m' k = key_move ?m k" if "k \<in> placed_keys ?m" for k
    using that sub by (fastforce simp: journal_le_def placed_keys_def key_move_def reservation_le_def)
  have "image_mset (key_move ?m) (mset_set (placed_keys ?m)) = image_mset (key_move ?m') (mset_set (placed_keys ?m))"
    by (rule image_mset_cong) (simp add: *)
  also have "\<dots> \<subseteq># image_mset (key_move ?m') (mset_set (placed_keys ?m'))"
    using * by (intro image_mset_subseteq_mono subset_imp_msubset_mset_set) auto
  finally show ?thesis using assms by (simp add: recorded_moves_key)
qed

text \<open>Recording the placement of a reservation that has none adds exactly its move.\<close>

lemma recorded_moves_place:
  assumes "om_ok (jo_reservations j)" "om_get (jo_reservations j) k = Some r" "rs_placement r = None"
    and j': "jo_reservations j' = om_adjust k (\<lambda>r. r\<lparr>rs_status := st, rs_placement := Some p\<rparr>) (jo_reservations j)"
  shows "recorded_moves j' = add_mset (placement_move p) (recorded_moves j)"
proof -
  let ?m = "jo_reservations j" and ?m' = "jo_reservations j'"
  have k: "k \<notin> placed_keys ?m" using assms by (simp add: placed_keys_def)
  have keys: "placed_keys ?m' = insert k (placed_keys ?m)"
    using assms by (auto simp: placed_keys_def j')
  have "image_mset (key_move ?m') (mset_set (placed_keys ?m)) = image_mset (key_move ?m) (mset_set (placed_keys ?m))"
    using k by (intro image_mset_cong) (auto simp: key_move_def j')
  moreover have "key_move ?m' k = placement_move p" using assms by (simp add: key_move_def j')
  ultimately show ?thesis using assms(1,2) k by (simp add: recorded_moves_key keys [unfolded j'] j')
qed

section \<open>The discipline of the trace\<close>

fun last_written :: "string \<Rightarrow> event list \<Rightarrow> Journal option" where
  "last_written \<sigma> [] = None"
| "last_written \<sigma> (Wrote j # tr) = (if jo_session j = \<sigma> then Some j else last_written \<sigma> tr)"
| "last_written \<sigma> (_ # tr) = last_written \<sigma> tr"

text \<open>What a written journal admits: it names the window and the effect before the effect is run.\<close>

fun admits :: "Journal \<Rightarrow> cmd \<Rightarrow> bool" where
  "admits j (Move_Local a p src dst m) \<longleftrightarrow> (\<exists>r p'. r \<in> set (om_values (jo_reservations j)) \<and> rs_status r = ''placing''
     \<and> \<not> rs_released r \<and> rs_placement r = Some p' \<and> placement_move p' = (a, p, src, dst))"
| "admits j (Close_Pinned tok a p n) \<longleftrightarrow> (\<exists>c t. c \<in> set (om_values (jo_closes j)) \<and> cs_status c = ''dispatching''
     \<and> close_id c = n \<and> t \<in> set (cs_targets c) \<and> tg_attempted t \<and> tg_token t = tok
     \<and> tg_window t = \<lparr>wn_address = a, wn_pid = p, wn_workspace_id = n\<rparr>)"
| "admits j (Replace_Pinned tok a w n m) \<longleftrightarrow> (\<exists>h. h \<in> set (om_values (jo_handoffs j)) \<and> ho_token h = tok \<and> \<not> ho_watching h
     \<and> wn_address (ho_window h) = a \<and> wn_workspace_id (ho_window h) = n)"
| "admits j (Then_Cmd c d) \<longleftrightarrow> admits j c \<and> admits j d"
| "admits j _ \<longleftrightarrow> True"

fun free_cmd :: "cmd \<Rightarrow> bool" where
  "free_cmd (Move_Local _ _ _ _ _) = False"
| "free_cmd (Close_Pinned _ _ _ _) = False"
| "free_cmd (Replace_Pinned _ _ _ _ _) = False"
| "free_cmd (Then_Cmd c d) = (free_cmd c \<and> free_cmd d)"
| "free_cmd _ = True"

lemma free_cmd_admits: "free_cmd c \<Longrightarrow> admits j c"
  by (induction c) simp_all

lemma free_cmd_moves [simp]: "free_cmd c \<Longrightarrow> cmd_moves c = {#}"
  by (induction c) simp_all

definition authorized :: "string \<Rightarrow> cmd \<Rightarrow> event list \<Rightarrow> bool" where
  "authorized \<sigma> c tr \<longleftrightarrow> (case last_written \<sigma> tr of None \<Rightarrow> free_cmd c | Some j \<Rightarrow> admits j c)"

text \<open>Nothing is written or run after a write that failed, until the next start.\<close>

definition running :: "event list \<Rightarrow> bool" where
  "running tr \<longleftrightarrow> (case tr of Write_Failed _ # _ \<Rightarrow> False | _ \<Rightarrow> True)"

fun write_ahead :: "event list \<Rightarrow> bool" where
  "write_ahead [] = True"
| "write_ahead (Ran \<sigma> c # tr) \<longleftrightarrow> running tr \<and> authorized \<sigma> c tr \<and> write_ahead tr"
| "write_ahead (Restarted # tr) \<longleftrightarrow> write_ahead tr"
| "write_ahead (_ # tr) \<longleftrightarrow> running tr \<and> write_ahead tr"

lemma running_simps [simp]:
  "running []" "running (Wrote j # tr)" "\<not> running (Write_Failed j # tr)" "running (Ran \<sigma> c # tr)" "running (Restarted # tr)"
  by (simp_all add: running_def)

section \<open>The invariant of the service\<close>

text \<open>
  A scope fixes the limits, the session the service is loaded with, and a set of request keys of some session that
  an earlier process left behind, whose leases stay fenced.
\<close>

record scope =
  sc_limits :: wslimits
  sc_session :: string
  sc_old_session :: string
  sc_old :: "string set"

definition fenced_keys :: "string set \<Rightarrow> Journal \<Rightarrow> bool" where
  "fenced_keys K j \<longleftrightarrow> (\<forall>k\<in>K. \<exists>r. om_get (jo_reservations j) k = Some r \<and> rs_released r)"

definition winv :: "scope \<Rightarrow> 'w wstate \<Rightarrow> bool" where
  "winv C s \<longleftrightarrow>
     (sv_ready s \<longrightarrow> journal_inv (sc_limits C) (sv_journal s)
        \<and> trace_moves (jo_session (sv_journal s)) (sv_trace s) \<subseteq># recorded_moves (sv_journal s)
        \<and> (jo_session (sv_journal s) = sc_old_session C \<longrightarrow> fenced_keys (sc_old C) (sv_journal s)))
     \<and> (\<forall>\<sigma> j. sv_disk s \<sigma> = Some j \<longrightarrow> jo_session j = \<sigma> \<and> journal_inv (sc_limits C) j)
     \<and> (\<forall>\<sigma>. trace_moves \<sigma> (sv_trace s) \<subseteq># (case sv_disk s \<sigma> of None \<Rightarrow> {#} | Some j \<Rightarrow> recorded_moves j))
     \<and> (sc_old C \<noteq> {} \<longrightarrow> (\<exists>j. sv_disk s (sc_old_session C) = Some j \<and> sc_old C \<subseteq> set (om_keys (jo_reservations j))))
     \<and> write_ahead (sv_trace s) \<and> (sv_poisoned s \<longleftrightarrow> \<not> running (sv_trace s)) \<and> (sv_poisoned s \<longrightarrow> sv_ready s)"

text \<open>A service that is not poisoned has a file: the journal last written.\<close>

definition synced :: "string \<Rightarrow> 'w wstate \<Rightarrow> bool" where
  "synced \<sigma> s \<longleftrightarrow> (\<exists>j. last_written \<sigma> (sv_trace s) = Some j \<and> sv_disk s \<sigma> = Some (wire_journal j))"

definition rest :: "scope \<Rightarrow> 'w wstate \<Rightarrow> bool" where
  "rest C s \<longleftrightarrow> winv C s \<and> (sv_ready s \<longrightarrow> \<not> sv_poisoned s \<longrightarrow> synced (jo_session (sv_journal s)) s)"

definition shut :: "scope \<Rightarrow> 'w wstate \<Rightarrow> bool" where
  "shut C s \<longleftrightarrow> rest C s \<and> sv_ready s \<and> jo_session (sv_journal s) = sc_session C"

definition live :: "scope \<Rightarrow> 'w wstate \<Rightarrow> bool" where
  "live C s \<longleftrightarrow> shut C s \<and> \<not> sv_poisoned s"

lemma live_shut: "live C s \<Longrightarrow> shut C s"
  by (simp add: live_def)

lemma shut_rest: "shut C s \<Longrightarrow> rest C s"
  by (simp add: shut_def)

lemma shut_winv: "shut C s \<Longrightarrow> winv C s"
  by (simp add: shut_def rest_def)

text \<open>Fields that the invariant does not read.\<close>

lemma winv_frame [simp]:
  "winv C (s\<lparr>sv_world := w\<rparr>) = winv C s" "winv C (s\<lparr>sv_pins_cleaned := b\<rparr>) = winv C s"
  "winv C (s\<lparr>sv_empty_since := es\<rparr>) = winv C s" "winv C (s\<lparr>sv_changed := b\<rparr>) = winv C s"
  "winv C (s\<lparr>sv_moved := mv, sv_lost := b\<rparr>) = winv C s" "winv C (s\<lparr>sv_observers := os\<rparr>) = winv C s"
  "winv C (s\<lparr>sv_wakes := n\<rparr>) = winv C s" "winv C (s\<lparr>sv_moved := mv\<rparr>) = winv C s" "winv C (s\<lparr>sv_lost := b\<rparr>) = winv C s"
  by (simp_all add: winv_def)

lemma live_journal_inv: "live C s \<Longrightarrow> journal_inv (sc_limits C) (sv_journal s)"
  and shut_journal_inv: "shut C s \<Longrightarrow> journal_inv (sc_limits C) (sv_journal s)"
  by (simp_all add: live_def shut_def rest_def winv_def)

lemma live_frame [simp]:
  "live C (s\<lparr>sv_world := w\<rparr>) = live C s" "live C (s\<lparr>sv_pins_cleaned := b\<rparr>) = live C s"
  "live C (s\<lparr>sv_empty_since := es\<rparr>) = live C s" "live C (s\<lparr>sv_changed := b\<rparr>) = live C s"
  "live C (s\<lparr>sv_moved := mv, sv_lost := l\<rparr>) = live C s" "live C (s\<lparr>sv_observers := os\<rparr>) = live C s"
  "live C (s\<lparr>sv_wakes := n\<rparr>) = live C s"
  by (simp_all add: live_def shut_def rest_def synced_def)

section \<open>Triples\<close>

type_synonym jpred = "Journal \<Rightarrow> event list \<Rightarrow> bool"

text \<open>
  From a live service that satisfies \<open>F\<close>, the handler leaves a live one that satisfies \<open>G\<close>, or fails and leaves the
  invariant; either way the journal has only grown.
\<close>

definition tri :: "scope \<Rightarrow> jpred \<Rightarrow> ('w, 'a) weff \<Rightarrow> ('a \<Rightarrow> jpred) \<Rightarrow> bool" where
  "tri C F m G \<longleftrightarrow> (\<forall>s. live C s \<longrightarrow> F (sv_journal s) (sv_trace s) \<longrightarrow>
     (case m s of
        (Inr x, t) \<Rightarrow> live C t \<and> G x (sv_journal t) (sv_trace t) \<and> journal_le (sv_journal s) (sv_journal t)
      | (Inl e, t) \<Rightarrow> shut C t \<and> journal_le (sv_journal s) (sv_journal t)))"

text \<open>Handlers that stay live even when they fail, which \<open>F\<close> survives.\<close>

definition unfailing :: "scope \<Rightarrow> jpred \<Rightarrow> ('w, 'a) weff \<Rightarrow> bool" where
  "unfailing C F m \<longleftrightarrow> (\<forall>s. live C s \<longrightarrow> F (sv_journal s) (sv_trace s) \<longrightarrow>
     live C (snd (m s)) \<and> F (sv_journal (snd (m s))) (sv_trace (snd (m s))) \<and> sv_journal (snd (m s)) = sv_journal s)"

lemma triI:
  assumes "\<And>s x t. live C s \<Longrightarrow> F (sv_journal s) (sv_trace s) \<Longrightarrow> m s = (Inr x, t) \<Longrightarrow>
      live C t \<and> G x (sv_journal t) (sv_trace t) \<and> journal_le (sv_journal s) (sv_journal t)"
    and "\<And>s e t. live C s \<Longrightarrow> F (sv_journal s) (sv_trace s) \<Longrightarrow> m s = (Inl e, t) \<Longrightarrow>
      shut C t \<and> journal_le (sv_journal s) (sv_journal t)"
  shows "tri C F m G"
  unfolding tri_def using assms by (auto split: prod.splits sum.splits)

lemma tri_Ok:
  "tri C F m G \<Longrightarrow> live C s \<Longrightarrow> F (sv_journal s) (sv_trace s) \<Longrightarrow> m s = (Inr x, t) \<Longrightarrow>
   live C t \<and> G x (sv_journal t) (sv_trace t) \<and> journal_le (sv_journal s) (sv_journal t)"
  and tri_Err:
  "tri C F m G \<Longrightarrow> live C s \<Longrightarrow> F (sv_journal s) (sv_trace s) \<Longrightarrow> m s = (Inl e, t) \<Longrightarrow>
   shut C t \<and> journal_le (sv_journal s) (sv_journal t)"
  unfolding tri_def by (auto dest!: spec [of _ s])

lemma tri_bindE:
  assumes m: "tri C F m G" and k: "\<And>x. tri C (G x) (k x) H"
  shows "tri C F (bindE m k) H"
proof (rule triI)
  fix s y t
  assume s: "live C s" "F (sv_journal s) (sv_trace s)" and run: "bindE m k s = (Inr y, t)"
  then obtain x u where u: "m s = (Inr x, u)" "k x u = (Inr y, t)" by (auto simp: bindE_eq_Ok)
  from tri_Ok [OF m s u(1)] have "live C u" "G x (sv_journal u) (sv_trace u)" "journal_le (sv_journal s) (sv_journal u)" by auto
  with tri_Ok [OF k this(1,2) u(2)] show "live C t \<and> H y (sv_journal t) (sv_trace t) \<and> journal_le (sv_journal s) (sv_journal t)"
    by (auto intro: journal_le_trans)
next
  fix s e t
  assume s: "live C s" "F (sv_journal s) (sv_trace s)" and run: "bindE m k s = (Inl e, t)"
  then consider "m s = (Inl e, t)" | x u where "m s = (Inr x, u)" "k x u = (Inl e, t)" by (auto simp: bindE_eq_Err)
  then show "shut C t \<and> journal_le (sv_journal s) (sv_journal t)"
  proof cases
    case 1
    then show ?thesis using tri_Err [OF m s] by blast
  next
    case (2 x u)
    from tri_Ok [OF m s 2(1)] have "live C u" "G x (sv_journal u) (sv_trace u)" "journal_le (sv_journal s) (sv_journal u)" by auto
    with tri_Err [OF k this(1,2) 2(2)] show ?thesis by (auto intro: journal_le_trans)
  qed
qed

lemma tri_seqE: "tri C F m (\<lambda>_. G) \<Longrightarrow> tri C G n H \<Longrightarrow> tri C F (seqE m n) H"
  unfolding seqE_def by (rule tri_bindE) auto

lemma tri_conseq:
  "tri C F' m G' \<Longrightarrow> (\<And>j tr. F j tr \<Longrightarrow> F' j tr) \<Longrightarrow> (\<And>x j tr. G' x j tr \<Longrightarrow> G x j tr) \<Longrightarrow> tri C F m G"
  unfolding tri_def by (fastforce split: prod.splits sum.splits)

lemma tri_pre: "tri C F' m G \<Longrightarrow> (\<And>j tr. F j tr \<Longrightarrow> F' j tr) \<Longrightarrow> tri C F m G"
  by (rule tri_conseq)

lemma tri_post: "tri C F m G' \<Longrightarrow> (\<And>x j tr. G' x j tr \<Longrightarrow> G x j tr) \<Longrightarrow> tri C F m G"
  by (rule tri_conseq)

text \<open>A fact of the state before that no step destroys can be used throughout.\<close>

lemma tri_fact: "(\<And>j tr. F j tr \<Longrightarrow> P) \<Longrightarrow> (P \<Longrightarrow> tri C F m G) \<Longrightarrow> tri C F m G"
  by (cases P) (auto simp: tri_def)

lemma tri_false [simp]: "tri C (\<lambda>_ _. False) m G"
  by (simp add: tri_def)

lemma tri_returnE [tri_intros]: "(\<And>j tr. F j tr \<Longrightarrow> G x j tr) \<Longrightarrow> tri C F (returnE x) G"
  by (simp add: tri_def eff_defs live_def)

lemma tri_throwE [tri_intros]: "tri C F (throwE e) G"
  by (simp add: tri_def eff_defs live_def)

lemma tri_liftE [tri_intros]: "(\<And>x j tr. r = Inr x \<Longrightarrow> F j tr \<Longrightarrow> G x j tr) \<Longrightarrow> tri C F (liftE r) G"
  by (auto simp: tri_def eff_defs live_def split: sum.splits)

lemma tri_ensureE [tri_intros]: "(\<And>j tr. b \<Longrightarrow> F j tr \<Longrightarrow> G () j tr) \<Longrightarrow> tri C F (ensureE b msg) G"
  by (auto simp: tri_def eff_defs ensure_def live_def split: sum.splits)

lemma tri_getE [tri_intros]:
  "(\<And>x. tri C F (k x) G) \<Longrightarrow> tri C F (bindE (getE f) k) G"
  by (simp add: tri_def bindE_def getE_def)

text \<open>What was read of the journal is known of it.\<close>

lemma tri_journalE:
  "(\<And>x. tri C (\<lambda>j tr. F j tr \<and> journal_inv (sc_limits C) j \<and> jo_session j = sc_session C \<and> x = f j) (k x) G) \<Longrightarrow>
   tri C F (bindE (journalE f) k) G"
  by (simp add: tri_def journalE_def bindE_def getE_def live_journal_inv) (auto simp: live_def shut_def)

lemma tri_stateE:
  "(\<And>x s. x = f s \<Longrightarrow> live C s \<Longrightarrow> tri C (\<lambda>j tr. F j tr \<and> j = sv_journal s) (k x) G) \<Longrightarrow> tri C F (bindE (getE f) k) G"
  by (simp add: tri_def bindE_def getE_def)

lemma tri_if [tri_intros]:
  "(b \<Longrightarrow> tri C F m G) \<Longrightarrow> (\<not> b \<Longrightarrow> tri C F n G) \<Longrightarrow> tri C F (if b then m else n) G"
  by simp

lemma tri_option:
  "(v = None \<Longrightarrow> tri C F m G) \<Longrightarrow> (\<And>x. v = Some x \<Longrightarrow> tri C F (k x) G) \<Longrightarrow> tri C F (case v of None \<Rightarrow> m | Some x \<Rightarrow> k x) G"
  by (cases v) simp_all

lemma tri_modifyE:
  assumes "\<And>s. live C (f s) = live C s" "\<And>s. sv_journal (f s) = sv_journal s" "\<And>s. sv_trace (f s) = sv_trace s"
  shows "tri C F (modifyE f) (\<lambda>_. F)"
  using assms by (simp add: tri_def eff_defs)

lemma tri_worldE [tri_intros]: "(\<And>x j tr. F j tr \<Longrightarrow> G x j tr) \<Longrightarrow> tri C F (worldE f) G"
  by (auto simp: tri_def worldE_def split: prod.splits)

lemma tri_askE [tri_intros]: "(\<And>x j tr. F j tr \<Longrightarrow> G x j tr) \<Longrightarrow> tri C F (askE f) G"
  by (auto simp: tri_def askE_def live_shut split: prod.splits sum.splits)

lemma tri_forE: "(\<And>x. x \<in> set xs \<Longrightarrow> tri C F (f x) (\<lambda>_. F)) \<Longrightarrow> tri C F (forE f xs) (\<lambda>_. F)"
  by (induction xs) (auto intro!: tri_seqE tri_returnE)

lemma tri_foldE: "(\<And>x b. x \<in> set xs \<Longrightarrow> tri C F (f x b) (\<lambda>_. F)) \<Longrightarrow> tri C F (foldE f xs b) (\<lambda>_. F)"
  by (induction xs arbitrary: b) (auto intro!: tri_bindE tri_returnE)

section \<open>Changing, saving and running\<close>

lemma fenced_keys_le: "journal_le j j' \<Longrightarrow> fenced_keys K j \<Longrightarrow> fenced_keys K j'"
  unfolding fenced_keys_def journal_le_def reservation_le_def by fastforce

lemma fenced_keys_subset: "fenced_keys K j \<Longrightarrow> K \<subseteq> set (om_keys (jo_reservations j))"
  unfolding fenced_keys_def by (force dest: map_of_SomeD)

lemma journal_inv_maps: "journal_inv L j \<Longrightarrow> om_ok (jo_reservations j)"
  by (simp add: journal_inv_def)

lemma winv_update:
  assumes "winv C s" "sv_ready s" and j: "journal_inv (sc_limits C) j" "journal_le (sv_journal s) j"
  shows "winv C (s\<lparr>sv_journal := j\<rparr>)"
proof -
  from assms have inv: "journal_inv (sc_limits C) (sv_journal s)" by (simp add: winv_def)
  have le: "recorded_moves (sv_journal s) \<subseteq># recorded_moves j"
    by (rule recorded_moves_subset) (use inv j in \<open>auto dest: journal_inv_maps\<close>)
  have session: "jo_session j = jo_session (sv_journal s)" using j by (simp add: journal_le_def)
  show ?thesis
    using assms le session fenced_keys_le [OF j(2)] by (auto simp: winv_def intro: subset_mset.order_trans)
qed

lemma tri_updateE [tri_intros]:
  assumes "\<And>j tr. F j tr \<Longrightarrow> journal_inv (sc_limits C) j \<Longrightarrow> jo_session j = sc_session C \<Longrightarrow>
      journal_inv (sc_limits C) (f j) \<and> journal_le j (f j) \<and> G () (f j) tr"
  shows "tri C F (updateE f) G"
proof (rule triI)
  fix s x t
  assume s: "live C s" "F (sv_journal s) (sv_trace s)" and "updateE f s = (Inr x, t)"
  then have t: "t = s\<lparr>sv_journal := f (sv_journal s)\<rparr>" by (simp add: updateE_def eff_defs)
  from s(1) have "jo_session (sv_journal s) = sc_session C" "sv_ready s" "winv C s"
    by (auto simp: live_def shut_def rest_def)
  moreover from this assms [OF s(2) live_journal_inv [OF s(1)]]
  have f: "journal_inv (sc_limits C) (f (sv_journal s))" "journal_le (sv_journal s) (f (sv_journal s))"
    "G () (f (sv_journal s)) (sv_trace s)" by auto
  moreover from f(2) have "jo_session (f (sv_journal s)) = jo_session (sv_journal s)" by (simp add: journal_le_def)
  ultimately show "live C t \<and> G x (sv_journal t) (sv_trace t) \<and> journal_le (sv_journal s) (sv_journal t)"
    using s(1) by (auto simp: t live_def shut_def rest_def synced_def winv_update)
qed (simp add: updateE_def eff_defs)

lemma wire_simps [simp]:
  "jo_session (wire_journal j) = jo_session j" "jo_reservations (wire_journal j) = jo_reservations j"
  "jo_closes (wire_journal j) = jo_closes j" "jo_entries (wire_journal j) = jo_entries j" "jo_high (wire_journal j) = jo_high j"
  "recorded_moves (wire_journal j) = recorded_moves j"
  by (simp_all add: wire_journal_def recorded_moves_def)

lemma handoff_valid_instant [simp]: "handoff_valid L R (k, h\<lparr>ho_missing_since := i\<rparr>) = handoff_valid L R (k, h)"
  by (simp add: handoff_valid_def split: option.split)

lemma journal_inv_wire: "journal_inv L j \<Longrightarrow> journal_inv L (wire_journal j)"
  by (auto simp: journal_inv_def wire_journal_def entry_valid_def)

lemma winv_disk:
  assumes "winv C s" "sv_ready s"
  shows "winv C (s\<lparr>sv_world := w, sv_disk := (sv_disk s)(jo_session (sv_journal s) \<mapsto> wire_journal (sv_journal s))\<rparr>)"
  using assms fenced_keys_subset [of "sc_old C" "sv_journal s"] by (auto simp: winv_def journal_inv_wire)

lemma winv_event:
  assumes "winv C s" "\<not> sv_poisoned s" "\<And>\<sigma>. trace_moves \<sigma> (e # sv_trace s) = trace_moves \<sigma> (sv_trace s)"
    and "write_ahead (e # sv_trace s)" "running (e # sv_trace s)"
  shows "winv C (s\<lparr>sv_trace := e # sv_trace s\<rparr>)"
  using assms by (auto simp: winv_def)

lemma winv_failed:
  assumes "winv C s" "\<not> sv_poisoned s" "sv_ready s"
  shows "winv C (s\<lparr>sv_trace := Write_Failed j # sv_trace s, sv_poisoned := True\<rparr>)"
  using assms by (auto simp: winv_def)

text \<open>Saving, from any loaded service that is not poisoned.\<close>

lemma save_cases:
  fixes env :: "'w wenv"
  assumes s: "winv C s" "sv_ready s" "jo_session (sv_journal s) = sc_session C" "\<not> sv_poisoned s"
  shows "case save env s of
      (Inr _, t) \<Rightarrow> live C t \<and> sv_journal t = sv_journal s \<and> sv_trace t = Wrote (sv_journal s) # sv_trace s
    | (Inl _, t) \<Rightarrow> shut C t \<and> sv_journal t = sv_journal s"
proof -
  let ?j = "sv_journal s"
  note w = s(1-3)
  have run: "running (sv_trace s)" "write_ahead (sv_trace s)" using s w by (auto simp: winv_def)
  note disk = winv_disk [OF w(1,2)]
  have failed: "winv C (s\<lparr>sv_trace := Write_Failed ?j # sv_trace s, sv_poisoned := True\<rparr>)"
    by (rule winv_failed) (use s w in simp_all)
  have failed_disk: "winv C (s\<lparr>sv_world := v, sv_disk := (sv_disk s)(jo_session ?j \<mapsto> wire_journal ?j),
      sv_trace := Write_Failed ?j # sv_trace s, sv_poisoned := True\<rparr>)" for v
    using winv_failed [OF disk [of v], of ?j] s w by simp
  have done_: "winv C (s\<lparr>sv_world := v, sv_disk := (sv_disk s)(jo_session ?j \<mapsto> wire_journal ?j),
      sv_trace := Wrote ?j # sv_trace s\<rparr>)" for v
    using winv_event [OF disk [of v], of "Wrote ?j"] s run by simp
  have failed_world: "winv C (s\<lparr>sv_world := v, sv_trace := Write_Failed ?j # sv_trace s, sv_poisoned := True\<rparr>)" for v
    using winv_failed [of C "s\<lparr>sv_world := v\<rparr>" ?j] s w by simp
  show ?thesis
    using s w failed failed_disk done_ failed_world
    by (auto simp: save_def Journal_save_def eff_defs ensure_def Let_def shut_def live_def rest_def synced_def
        split: prod.splits sum.splits write_outcome.splits if_splits)
qed

lemma tri_save [tri_intros]:
  fixes env :: "'w wenv"
  assumes "\<And>j tr. F j tr \<Longrightarrow> journal_inv (sc_limits C) j \<Longrightarrow> jo_session j = sc_session C \<Longrightarrow> G () j (Wrote j # tr)"
  shows "tri C F (save env) G"
  unfolding tri_def
proof (intro allI impI)
  fix s :: "'w wstate"
  assume s: "live C s" "F (sv_journal s) (sv_trace s)"
  from s(1) have "winv C s" "sv_ready s" "jo_session (sv_journal s) = sc_session C" "\<not> sv_poisoned s"
    by (auto simp: live_def shut_def rest_def)
  with save_cases [OF this, of env] assms [OF s(2) live_journal_inv [OF s(1)]]
  show "case save env s of
      (Inr x, t) \<Rightarrow> live C t \<and> G x (sv_journal t) (sv_trace t) \<and> journal_le (sv_journal s) (sv_journal t)
    | (Inl e, t) \<Rightarrow> shut C t \<and> journal_le (sv_journal s) (sv_journal t)"
    by (auto split: prod.splits sum.splits)
qed

lemma winv_ran:
  assumes w: "live C s" and \<sigma>: "\<sigma> = sc_session C" and j: "last_written \<sigma> (sv_trace s) = Some j" and "admits j c"
    and moves: "cmd_moves c \<noteq> {#} \<Longrightarrow> trace_moves \<sigma> (sv_trace s) + cmd_moves c \<subseteq># recorded_moves j
      \<and> trace_moves \<sigma> (sv_trace s) + cmd_moves c \<subseteq># recorded_moves (sv_journal s)"
  shows "live C (s\<lparr>sv_world := v, sv_trace := Ran \<sigma> c # sv_trace s\<rparr>)"
proof -
  from w \<sigma> have s: "winv C s" "sv_ready s" "jo_session (sv_journal s) = \<sigma>" "\<not> sv_poisoned s" "synced \<sigma> s"
    by (auto simp: live_def shut_def rest_def)
  from s(5) j have disk: "sv_disk s \<sigma> = Some (wire_journal j)" by (simp add: synced_def)
  have auth: "authorized \<sigma> c (sv_trace s)" using j \<open>admits j c\<close> by (simp add: authorized_def)
  have new: "trace_moves \<sigma> (Ran \<sigma> c # sv_trace s) = trace_moves \<sigma> (sv_trace s) + cmd_moves c" by (simp add: union_commute)
  have old: "trace_moves \<tau> (sv_trace s) \<subseteq># (case sv_disk s \<tau> of None \<Rightarrow> {#} | Some j \<Rightarrow> recorded_moves j)" for \<tau>
    using s(1) unfolding winv_def by blast
  have "trace_moves \<tau> (Ran \<sigma> c # sv_trace s) \<subseteq># (case sv_disk s \<tau> of None \<Rightarrow> {#} | Some j \<Rightarrow> recorded_moves j)" for \<tau>
    using old [of \<tau>] moves disk by (cases "\<tau> = \<sigma>"; cases "cmd_moves c = {#}") (simp_all add: union_commute)
  moreover have "trace_moves \<sigma> (Ran \<sigma> c # sv_trace s) \<subseteq># recorded_moves (sv_journal s)"
    using s moves by (cases "cmd_moves c = {#}") (auto simp: winv_def union_commute)
  ultimately have "winv C (s\<lparr>sv_world := v, sv_trace := Ran \<sigma> c # sv_trace s\<rparr>)"
    using s auth by (simp add: winv_def)
  then show ?thesis using w s \<sigma> by (simp add: live_def shut_def rest_def synced_def)
qed

text \<open>A command that moves, closes or replaces a window, run on the journal just written.\<close>

lemma tri_effect:
  assumes "\<And>j tr. F j tr \<Longrightarrow> last_written (sc_session C) tr = Some j \<and> admits j c
      \<and> (cmd_moves c \<noteq> {#} \<longrightarrow> trace_moves (sc_session C) tr + cmd_moves c \<subseteq># recorded_moves j)"
    and "\<And>r j tr. F j tr \<Longrightarrow> G r j (Ran (sc_session C) c # tr)"
  shows "tri C F (attemptE (runE env c)) G"
proof (rule triI)
  fix s x t
  assume s: "live C s" "F (sv_journal s) (sv_trace s)" and run: "attemptE (runE env c) s = (Inr x, t)"
  from s(1) have \<sigma>: "jo_session (sv_journal s) = sc_session C" by (auto simp: live_def shut_def)
  with run obtain v where t: "t = s\<lparr>sv_world := v, sv_trace := Ran (sc_session C) c # sv_trace s\<rparr>"
    by (auto simp: attemptE_def runE_def split: prod.splits)
  from assms(1) [OF s(2)] have "live C t" unfolding t by (intro winv_ran [OF s(1) refl]) auto
  with assms(2) [OF s(2)] show "live C t \<and> G x (sv_journal t) (sv_trace t) \<and> journal_le (sv_journal s) (sv_journal t)"
    by (simp add: t)
qed (auto simp: attemptE_def split: prod.splits)

text \<open>A command without a window effect may run at any time.\<close>

lemma live_ran_free:
  assumes "live C s" "free_cmd c"
  shows "live C (s\<lparr>sv_world := v, sv_trace := Ran (sc_session C) c # sv_trace s\<rparr>)"
proof -
  from assms(1) obtain j where "last_written (sc_session C) (sv_trace s) = Some j" by (auto simp: live_def shut_def rest_def synced_def)
  with assms show ?thesis by (intro winv_ran) (auto intro: free_cmd_admits)
qed

lemma tri_attempt_free:
  assumes "free_cmd c" "\<And>r j tr. F j tr \<Longrightarrow> G r j (Ran (sc_session C) c # tr)"
  shows "tri C F (attemptE (runE env c)) G"
proof (rule triI)
  fix s x t
  assume s: "live C s" "F (sv_journal s) (sv_trace s)" and run: "attemptE (runE env c) s = (Inr x, t)"
  from s(1) have \<sigma>: "jo_session (sv_journal s) = sc_session C" by (auto simp: live_def shut_def)
  with run obtain v where t: "t = s\<lparr>sv_world := v, sv_trace := Ran (sc_session C) c # sv_trace s\<rparr>"
    by (auto simp: attemptE_def runE_def split: prod.splits)
  show "live C t \<and> G x (sv_journal t) (sv_trace t) \<and> journal_le (sv_journal s) (sv_journal t)"
    using live_ran_free [OF s(1) assms(1)] assms(2) [OF s(2)] by (simp add: t)
qed (auto simp: attemptE_def split: prod.splits)

lemma tri_runE:
  assumes "free_cmd c" "\<And>j tr. F j tr \<Longrightarrow> G () j (Ran (sc_session C) c # tr)"
  shows "tri C F (runE env c) G"
proof (rule triI)
  fix s x t
  assume s: "live C s" "F (sv_journal s) (sv_trace s)" and run: "runE env c s = (Inr x, t)"
  from s(1) have "jo_session (sv_journal s) = sc_session C" by (auto simp: live_def shut_def)
  with run obtain v where t: "t = s\<lparr>sv_world := v, sv_trace := Ran (sc_session C) c # sv_trace s\<rparr>"
    by (auto simp: runE_def split: prod.splits)
  show "live C t \<and> G x (sv_journal t) (sv_trace t) \<and> journal_le (sv_journal s) (sv_journal t)"
    using live_ran_free [OF s(1) assms(1)] assms(2) [OF s(2)] by (simp add: t)
next
  fix s e t
  assume s: "live C s" and run: "runE env c s = (Inl e, t)"
  from s have "jo_session (sv_journal s) = sc_session C" by (auto simp: live_def shut_def)
  with run obtain v where t: "t = s\<lparr>sv_world := v, sv_trace := Ran (sc_session C) c # sv_trace s\<rparr>"
    by (auto simp: runE_def split: prod.splits)
  show "shut C t \<and> journal_le (sv_journal s) (sv_journal t)"
    using live_ran_free [OF s assms(1)] by (simp add: t live_shut)
qed

lemma tri_commandE [tri_intros]:
  assumes "free_cmd c" "\<And>j tr. F j tr \<Longrightarrow> G () j (Ran (sc_session C) c # tr)"
  shows "tri C F (commandE env c) G"
  unfolding commandE_def by (rule tri_seqE [OF tri_liftE tri_runE]) (use assms in auto)

end
