(* ===== verification/Workspace_Invariant.thy ===== *)
theory Workspace_Invariant
  imports Workspace_Logic
begin

text \<open>
  Every handler of the workspace service keeps the invariant and the discipline of \<open>Workspace_Logic\<close>: one triple per
  operation, from the smallest to the whole request.
\<close>

section \<open>Sequencing rules\<close>

lemma tri_lift_seq: "(\<And>x. r = Inr x \<Longrightarrow> tri C F n H) \<Longrightarrow> tri C F (seqE (liftE r) n) H"
  by (cases r) (auto simp: tri_def seqE_def bindE_def liftE_def live_shut)

lemma tri_lift_bind: "(\<And>x. r = Inr x \<Longrightarrow> tri C F (k x) H) \<Longrightarrow> tri C F (bindE (liftE r) k) H"
  by (cases r) (auto simp: tri_def bindE_def liftE_def live_shut)

lemma tri_ensure_seq: "(b \<Longrightarrow> tri C F n H) \<Longrightarrow> tri C F (seqE (ensureE b msg) n) H"
  unfolding ensureE_def by (rule tri_lift_seq) simp

lemma tri_world_bind: "(\<And>x. tri C F (k x) H) \<Longrightarrow> tri C F (bindE (worldE f) k) H"
  by (rule tri_bindE [where G = "\<lambda>_. F", OF tri_worldE]) auto

lemma tri_ask_bind: "(\<And>x. tri C F (k x) H) \<Longrightarrow> tri C F (bindE (askE f) k) H"
  by (rule tri_bindE [where G = "\<lambda>_. F", OF tri_askE]) auto

lemma tri_let: "tri C F (f x) H \<Longrightarrow> tri C F (let y = x in f y) H"
  by simp

lemma tri_prod: "(\<And>a b. p = (a, b) \<Longrightarrow> tri C F (f a b) H) \<Longrightarrow> tri C F (case p of (a, b) \<Rightarrow> f a b) H"
  by (cases p) simp

lemma tri_return_seq: "tri C F n H \<Longrightarrow> tri C F (seqE (returnE x) n) H"
  by (simp add: tri_def seqE_def bindE_def returnE_def)

text \<open>Steps that keep the assertion they start from.\<close>

lemma tri_keep_seq: "tri C F m (\<lambda>_. F) \<Longrightarrow> tri C F n H \<Longrightarrow> tri C F (seqE m n) H"
  by (rule tri_seqE)

lemma tri_keep_bind: "tri C F m (\<lambda>_. F) \<Longrightarrow> (\<And>x. tri C F (k x) H) \<Longrightarrow> tri C F (bindE m k) H"
  by (rule tri_bindE)

lemmas tri_steps = tri_lift_seq tri_lift_bind tri_ensure_seq tri_world_bind tri_ask_bind tri_let tri_if tri_option tri_prod

lemma tri_put_world [tri_intros]:
  "(\<And>j tr. F j tr \<Longrightarrow> G () j tr) \<Longrightarrow> tri C F notify_changed G"
  "(\<And>j tr. F j tr \<Longrightarrow> G () j tr) \<Longrightarrow> tri C F wake_after_grace G"
  "(\<And>j tr. F j tr \<Longrightarrow> G () j tr) \<Longrightarrow> tri C F (modifyE (\<lambda>s. s\<lparr>sv_pins_cleaned := b\<rparr>)) G"
  "(\<And>j tr. F j tr \<Longrightarrow> G () j tr) \<Longrightarrow> tri C F (modifyE (\<lambda>s. s\<lparr>sv_empty_since := e s\<rparr>)) G"
  "(\<And>j tr. F j tr \<Longrightarrow> G () j tr) \<Longrightarrow> tri C F (modifyE (\<lambda>s. s\<lparr>sv_moved := mv, sv_lost := l\<rparr>)) G"
  "(\<And>j tr. F j tr \<Longrightarrow> G () j tr) \<Longrightarrow> tri C F (modifyE (\<lambda>s. s\<lparr>sv_observers := ob s\<rparr>)) G"
  by (simp_all add: tri_def notify_changed_def wake_after_grace_def eff_defs)

section \<open>Changes of one table\<close>

lemma journal_inv_handoffs:
  assumes "journal_inv L j" "om_ok hs" "length hs \<le> 128"
    and "\<And>k h. om_get hs k = Some h \<Longrightarrow> handoff_valid L (jo_reservations j) (k, h) = Ok ()"
  shows "journal_inv L (j\<lparr>jo_handoffs := hs\<rparr>)" "journal_le j (j\<lparr>jo_handoffs := hs\<rparr>)"
  using assms by (simp_all add: journal_inv_def journal_le_def entry_valid_def)

lemma journal_inv_entries:
  assumes "journal_inv L j" "om_ok es" "\<And>n e. om_get es n = Some e \<Longrightarrow> 5 < n \<and> n \<le> jo_high j \<and> en_id e = n"
  shows "journal_inv L (j\<lparr>jo_entries := es\<rparr>)" "journal_le j (j\<lparr>jo_entries := es\<rparr>)"
  using assms by (simp_all add: journal_inv_def journal_le_def entry_valid_def)

lemma journal_inv_history:
  assumes "journal_inv L j"
  shows "journal_inv L (j\<lparr>jo_history := h\<rparr>)" "journal_le j (j\<lparr>jo_history := h\<rparr>)"
  using assms by (simp_all add: journal_inv_def journal_le_def entry_valid_def)

lemma handoff_valid_cong:
  assumes "map_option (\<lambda>r. le_workspace_id (rs_lease r)) (om_get R' k) = map_option (\<lambda>r. le_workspace_id (rs_lease r)) (om_get R k)"
  shows "handoff_valid L R' (k, h) = handoff_valid L R (k, h)"
  using assms by (cases "om_get R k"; cases "om_get R' k") (auto simp: handoff_valid_def)

lemma journal_inv_reservation:
  assumes j: "journal_inv L j"
    and f: "\<And>r. om_get (jo_reservations j) k = Some r \<Longrightarrow>
      reservation_le r (f r) \<and> (rs_status (f r) = ''reserved'' \<longrightarrow> rs_placement (f r) = None)"
  shows "journal_inv L (j\<lparr>jo_reservations := om_adjust k f (jo_reservations j)\<rparr>)"
    and "journal_le j (j\<lparr>jo_reservations := om_adjust k f (jo_reservations j)\<rparr>)"
proof -
  let ?R = "om_adjust k f (jo_reservations j)"
  have h: "handoff_valid L ?R (i, h) = handoff_valid L (jo_reservations j) (i, h)" for i h
    using f by (intro handoff_valid_cong) (auto simp: reservation_le_def map_option_case split: option.splits)
  have le: "\<exists>r. om_get (jo_reservations j) i = Some r \<and> reservation_le r r'
      \<and> (rs_status r' = ''reserved'' \<longrightarrow> rs_placement r' = None)" if "om_get ?R i = Some r'" for i r'
    using that f j by (auto simp: journal_inv_def split: if_splits)
  show "journal_inv L (j\<lparr>jo_reservations := ?R\<rparr>)"
    using j unfolding journal_inv_def
    by (simp add: h del: om_get_adjust)
      (use le in \<open>fastforce simp: entry_valid_def reservation_valid_def reservation_le_def simp del: om_get_adjust\<close>)
  show "journal_le j (j\<lparr>jo_reservations := ?R\<rparr>)"
    using f by (auto simp: journal_le_def)
qed

lemma journal_inv_close:
  assumes j: "journal_inv L j"
    and f: "\<And>c. om_get (jo_closes j) k = Some c \<Longrightarrow> close_le c (f c)"
  shows "journal_inv L (j\<lparr>jo_closes := om_adjust k f (jo_closes j)\<rparr>)"
    and "journal_le j (j\<lparr>jo_closes := om_adjust k f (jo_closes j)\<rparr>)"
proof -
  have "\<exists>c. om_get (jo_closes j) i = Some c \<and> (active_close c' \<longrightarrow> active_close c) \<and> close_id c' = close_id c"
    if "om_get (om_adjust k f (jo_closes j)) i = Some c'" for i c'
    using that f by (auto simp: close_le_def close_id_def split: if_splits)
  then show "journal_inv L (j\<lparr>jo_closes := om_adjust k f (jo_closes j)\<rparr>)"
    using j unfolding journal_inv_def by (simp add: entry_valid_def del: om_get_adjust) metis
  show "journal_le j (j\<lparr>jo_closes := om_adjust k f (jo_closes j)\<rparr>)"
    using f by (auto simp: journal_le_def)
qed

lemma tri_reservationE:
  assumes "\<And>j tr r. F j tr \<Longrightarrow> om_get (jo_reservations j) k = Some r \<Longrightarrow>
      reservation_le r (f r) \<and> (rs_status (f r) = ''reserved'' \<longrightarrow> rs_placement (f r) = None)"
    and "\<And>j tr. F j tr \<Longrightarrow> journal_inv (sc_limits C) j \<Longrightarrow> G () (j\<lparr>jo_reservations := om_adjust k f (jo_reservations j)\<rparr>) tr"
  shows "tri C F (reservationE k f) G"
  unfolding reservationE_def
  by (rule tri_updateE) (use assms in \<open>auto intro!: journal_inv_reservation\<close>)

lemma tri_closeE:
  assumes "\<And>j tr c. F j tr \<Longrightarrow> om_get (jo_closes j) k = Some c \<Longrightarrow> close_le c (f c)"
    and "\<And>j tr. F j tr \<Longrightarrow> G () (j\<lparr>jo_closes := om_adjust k f (jo_closes j)\<rparr>) tr"
  shows "tri C F (closeE k f) G"
  unfolding closeE_def
  by (rule tri_updateE) (use assms in \<open>auto intro!: journal_inv_close\<close>)

lemma tri_entryE:
  assumes "\<And>j tr e. F j tr \<Longrightarrow> om_get (jo_entries j) n = Some e \<Longrightarrow> en_id (f e) = en_id e"
    and "\<And>j tr. F j tr \<Longrightarrow> G () (j\<lparr>jo_entries := om_adjust n f (jo_entries j)\<rparr>) tr"
  shows "tri C F (entryE n f) G"
  unfolding entryE_def
proof (rule tri_updateE, intro conjI)
  fix j tr
  assume F: "F j tr" and j: "journal_inv (sc_limits C) j"
  have "5 < i \<and> i \<le> jo_high j \<and> en_id e = i" if "om_get (om_adjust n f (jo_entries j)) i = Some e" for i e
    using that j assms(1) [OF F] by (auto simp: journal_inv_def entry_valid_def split: if_splits)
  moreover have "om_ok (jo_entries j)" using j by (simp add: journal_inv_def)
  ultimately show "journal_inv (sc_limits C) (j\<lparr>jo_entries := om_adjust n f (jo_entries j)\<rparr>)"
    and "journal_le j (j\<lparr>jo_entries := om_adjust n f (jo_entries j)\<rparr>)"
    by (auto intro!: journal_inv_entries [OF j])
  show "G () (j\<lparr>jo_entries := om_adjust n f (jo_entries j)\<rparr>) tr" by (rule assms(2) [OF F])
qed

lemma tri_handoffE:
  assumes "\<And>h. ho_window (f h) = ho_window h \<and> ho_token (f h) = ho_token h \<and> ho_excluded (f h) = ho_excluded h"
    and "\<And>j tr. F j tr \<Longrightarrow> G () (j\<lparr>jo_handoffs := om_adjust k f (jo_handoffs j)\<rparr>) tr"
  shows "tri C F (handoffE k f) G"
  unfolding handoffE_def
proof (rule tri_updateE, intro conjI)
  fix j tr
  assume F: "F j tr" and j: "journal_inv (sc_limits C) j"
  have same: "handoff_valid L R (i, f h) = handoff_valid L R (i, h)" for L R i h
    using assms(1) [of h] by (simp add: handoff_valid_def split: option.split)
  have "handoff_valid (sc_limits C) (jo_reservations j) (i, h) = Ok ()"
    if "om_get (om_adjust k f (jo_handoffs j)) i = Some h" for i h
    using that j by (auto simp: journal_inv_def same split: if_splits)
  moreover have "om_ok (jo_handoffs j)" "length (jo_handoffs j) \<le> 128" using j by (simp_all add: journal_inv_def)
  ultimately show "journal_inv (sc_limits C) (j\<lparr>jo_handoffs := om_adjust k f (jo_handoffs j)\<rparr>)"
    and "journal_le j (j\<lparr>jo_handoffs := om_adjust k f (jo_handoffs j)\<rparr>)"
    by (auto intro!: journal_inv_handoffs [OF j])
  show "G () (j\<lparr>jo_handoffs := om_adjust k f (jo_handoffs j)\<rparr>) tr" by (rule assms(2) [OF F])
qed

section \<open>Handoffs\<close>

text \<open>Facts about the other tables, which the operations on handoffs leave alone.\<close>

definition tables :: "((string, Reservation) omap \<Rightarrow> (string, CloseRecord) omap \<Rightarrow> (int, Entry) omap \<Rightarrow> bool) \<Rightarrow> jpred" where
  "tables R j tr \<longleftrightarrow> R (jo_reservations j) (jo_closes j) (jo_entries j)"

lemma tables_handoffs [simp]: "tables R (j\<lparr>jo_handoffs := hs\<rparr>) tr = tables R j tr"
  by (simp add: tables_def)

lemma tables_trace: "tables R j (e # tr) = tables R j tr"
  by (simp add: tables_def)

lemma journal_inv_remove_handoff:
  assumes "journal_inv L j"
  shows "journal_inv L (j\<lparr>jo_handoffs := om_remove k (jo_handoffs j)\<rparr>)"
    and "journal_le j (j\<lparr>jo_handoffs := om_remove k (jo_handoffs j)\<rparr>)"
proof -
  have "om_ok (om_remove k (jo_handoffs j))" "length (om_remove k (jo_handoffs j)) \<le> 128"
    using assms length_om_remove_le [of k "jo_handoffs j"] by (simp_all add: journal_inv_def)
  moreover have "handoff_valid L (jo_reservations j) (i, h) = Ok ()" if "om_get (om_remove k (jo_handoffs j)) i = Some h" for i h
    using that assms by (auto simp: journal_inv_def split: if_splits)
  ultimately show "journal_inv L (j\<lparr>jo_handoffs := om_remove k (jo_handoffs j)\<rparr>)"
    and "journal_le j (j\<lparr>jo_handoffs := om_remove k (jo_handoffs j)\<rparr>)"
    by (auto intro!: journal_inv_handoffs [OF assms])
qed

lemma tri_cancel_handoff:
  "tri C (tables R) (cancel_handoff env key) (\<lambda>_. tables R)"
proof -
  have remove: "tri C (tables R) (updateE (\<lambda>j. j\<lparr>jo_handoffs := om_remove key (jo_handoffs j)\<rparr>)) (\<lambda>_. tables R)"
    by (rule tri_updateE) (auto intro: journal_inv_remove_handoff simp: tables_def)
  have each: "tri C (tables R) (seqE (handoffE key (\<lambda>h. h\<lparr>ho_watching := False\<rparr>)) (seqE (save env)
      (seqE (commandE env (Release_Window tok)) (seqE (updateE (\<lambda>j. j\<lparr>jo_handoffs := om_remove key (jo_handoffs j)\<rparr>))
        (save env))))) (\<lambda>_. tables R)" for tok
    by (intro tri_keep_seq tri_handoffE tri_save tri_commandE remove) (simp_all add: tables_def)
  show ?thesis
    unfolding cancel_handoff_def
    by (rule tri_journalE, rule tri_option) (auto intro!: tri_returnE tri_pre [OF each])
qed

lemma tri_prepare_pins: "tri C (tables R) (prepare_pins env) (\<lambda>_. tables R)"
  unfolding prepare_pins_def
  by (rule tri_getE, rule tri_if) (auto intro!: tri_returnE tri_keep_seq tri_commandE tri_put_world simp: tables_def)

text \<open>A handoff can be stored where its key already is, or where there is room for one more.\<close>

definition storable :: "wslimits \<Rightarrow> string \<Rightarrow> Handoff \<Rightarrow> Journal \<Rightarrow> bool" where
  "storable L key h j \<longleftrightarrow> (om_has key (jo_handoffs j) \<or> length (jo_handoffs j) < 128)
     \<and> handoff_valid L (jo_reservations j) (key, h) = Ok ()"

lemma tri_put_handoff:
  assumes "\<And>j tr. F j tr \<Longrightarrow> storable (sc_limits C) key h j"
    and "\<And>j tr. F j tr \<Longrightarrow> G () (j\<lparr>jo_handoffs := om_insert key h (jo_handoffs j)\<rparr>) tr"
  shows "tri C F (put_handoff key h) G"
  unfolding put_handoff_def
proof (rule tri_updateE, intro conjI)
  fix j tr
  assume F: "F j tr" and j: "journal_inv (sc_limits C) j"
  have ok: "om_ok (jo_handoffs j)" "length (jo_handoffs j) \<le> 128" using j by (simp_all add: journal_inv_def)
  have "length (om_insert key h (jo_handoffs j)) \<le> 128"
    using assms(1) [OF F] ok by (auto simp: storable_def length_om_insert)
  moreover have "handoff_valid (sc_limits C) (jo_reservations j) (i, h') = Ok ()"
    if "om_get (om_insert key h (jo_handoffs j)) i = Some h'" for i h'
    using that ok j assms(1) [OF F] by (auto simp: journal_inv_def storable_def split: if_splits)
  ultimately show "journal_inv (sc_limits C) (j\<lparr>jo_handoffs := om_insert key h (jo_handoffs j)\<rparr>)"
    and "journal_le j (j\<lparr>jo_handoffs := om_insert key h (jo_handoffs j)\<rparr>)"
    using ok by (auto intro!: journal_inv_handoffs [OF j])
  show "G () (j\<lparr>jo_handoffs := om_insert key h (jo_handoffs j)\<rparr>) tr" by (rule assms(2) [OF F])
qed

text \<open>The stored handoff is still the one at hand, up to what reconciliation changes in it.\<close>

definition twin :: "string \<Rightarrow> Handoff \<Rightarrow> Journal \<Rightarrow> bool" where
  "twin key h j \<longleftrightarrow> (\<exists>h'. om_get (jo_handoffs j) key = Some h' \<and> ho_token h' = ho_token h \<and> ho_window h' = ho_window h)"

definition twin_fenced :: "string \<Rightarrow> Handoff \<Rightarrow> Journal \<Rightarrow> bool" where
  "twin_fenced key h j \<longleftrightarrow> (\<exists>h'. om_get (jo_handoffs j) key = Some h' \<and> ho_token h' = ho_token h \<and> ho_window h' = ho_window h
     \<and> \<not> ho_watching h')"

lemma twin_has: "twin key h j \<Longrightarrow> om_has key (jo_handoffs j)"
  and twin_fenced_has: "twin_fenced key h j \<Longrightarrow> om_has key (jo_handoffs j)"
  by (auto simp: twin_def twin_fenced_def om_has_get)

lemma twin_adjust:
  assumes "\<And>h. ho_window (f h) = ho_window h \<and> ho_token (f h) = ho_token h"
  shows "twin key h j \<Longrightarrow> twin key h (j\<lparr>jo_handoffs := om_adjust key f (jo_handoffs j)\<rparr>)"
  using assms by (auto simp: twin_def)

lemma twin_unwatch: "twin key h j \<Longrightarrow> twin_fenced key h (j\<lparr>jo_handoffs := om_adjust key (\<lambda>h. h\<lparr>ho_watching := False\<rparr>) (jo_handoffs j)\<rparr>)"
  by (auto simp: twin_def twin_fenced_def)

lemma twin_fenced_admits:
  "twin_fenced key h j \<Longrightarrow> admits j (Replace_Pinned (ho_token h) (wn_address (ho_window h)) w (wn_workspace_id (ho_window h)) m)"
  by (auto simp: twin_fenced_def dest!: map_of_SomeD) (metis (mono_tags, lifting) image_eqI snd_conv)

text \<open>Handoffs of the same destination, token and exclusions are equally valid.\<close>

lemma handoff_valid_same:
  "wn_workspace_id (ho_window h') = wn_workspace_id (ho_window h) \<Longrightarrow> ho_token h' = ho_token h \<Longrightarrow>
   length (ho_excluded h') \<le> 512 \<Longrightarrow> handoff_valid L R (k, h) = Ok () \<Longrightarrow> handoff_valid L R (k, h') = Ok ()"
  by (auto simp: handoff_valid_def split: option.splits)

lemma handoff_valid_excluded: "handoff_valid L R (k, h) = Ok () \<Longrightarrow> length (ho_excluded h) \<le> 512"
  by (auto simp: handoff_valid_def split: option.splits)

lemma tri_adopt_replacement:
  assumes R: "\<And>res cl en. R res cl en \<Longrightarrow> handoff_valid (sc_limits C) res (key, h) = Ok ()"
  shows "tri C (\<lambda>j tr. tables R j tr \<and> twin key h j) (adopt_replacement env key h w m) (\<lambda>_. tables R)"
proof -
  let ?h = "h\<lparr>ho_window := (ho_window h)\<lparr>wn_address := wi_address w\<rparr>, ho_replacements := ho_replacements h + 1, ho_missing_since := None\<rparr>"
  let ?c = "Replace_Pinned (ho_token h) (wn_address (ho_window h)) w (wn_workspace_id (ho_window h)) m"
  let ?A = "\<lambda>j tr. tables R j tr \<and> twin_fenced key h j"
  let ?B = "\<lambda>j tr. tables R j tr \<and> twin_fenced key h j \<and> last_written (sc_session C) tr = Some j"
  have valid: "tables R j tr \<Longrightarrow> handoff_valid (sc_limits C) (jo_reservations j) (key, ?h) = Ok ()" for j tr
    using R [of "jo_reservations j" "jo_closes j" "jo_entries j"]
    by (auto simp: tables_def intro!: handoff_valid_same [where h = h] dest: handoff_valid_excluded)
  have put: "tri C ?A (put_handoff key ?h) (\<lambda>_. tables R)"
    by (rule tri_put_handoff) (auto simp: storable_def valid [simplified] twin_fenced_has)
  have final: "tri C ?A (if b then seqE (put_handoff key ?h) (seqE (save env) (returnE True))
      else seqE (cancel_handoff env key) (returnE False)) (\<lambda>_. tables R)" for b
    by (rule tri_if; rule tri_seqE [OF put] tri_seqE [OF tri_pre [OF tri_cancel_handoff]])
      (auto intro!: tri_keep_seq [OF tri_save] tri_returnE simp: tables_trace)
  show ?thesis
    unfolding adopt_replacement_def Let_def
    by (intro tri_lift_seq tri_seqE [where G = ?A, OF tri_handoffE] tri_seqE [where G = ?B, OF tri_save]
        tri_bindE [where G = "\<lambda>_. ?A", OF tri_effect] final)
      (auto simp: twin_unwatch tables_trace twin_fenced_admits simp del: admits.simps)
qed

lemma tri_missing_handoff:
  assumes R: "\<And>res cl en. R res cl en \<Longrightarrow> handoff_valid (sc_limits C) res (key, h) = Ok ()"
  shows "tri C (\<lambda>j tr. tables R j tr \<and> twin key h j) (missing_handoff env snapshot mv key h m) (\<lambda>_. tables R)"
proof -
  let ?T = "\<lambda>j tr. tables R j tr \<and> twin key h j"
  have since: "tri C ?T (case ho_missing_since h of Some since \<Rightarrow> returnE since
      | None \<Rightarrow> seqE wake_after_grace (worldE (wv_now env))) (\<lambda>_. ?T)"
    by (rule tri_option) (auto intro!: tri_keep_seq tri_put_world tri_worldE tri_returnE)
  have cancel: "tri C ?T (seqE (cancel_handoff env key) (returnE False)) (\<lambda>_. tables R)"
    by (rule tri_seqE [OF tri_pre [OF tri_cancel_handoff] tri_returnE]) auto
  let ?h = "\<lambda>i. h\<lparr>ho_missing_since := i\<rparr>"
  have twin: "twin key (?h i) j = twin key h j" for i j by (simp add: twin_def)
  have adopt: "tri C ?T (adopt_replacement env key (?h i) w m) (\<lambda>_. tables R)" for i w
    by (rule tri_pre [OF tri_adopt_replacement]) (auto simp: twin dest: R)
  have put: "tri C ?T (seqE (put_handoff key (?h i)) (returnE False)) (\<lambda>_. tables R)" for i
    by (rule tri_seqE [where G = "tables R", OF tri_put_handoff tri_returnE])
      (auto simp: storable_def twin_has tables_def dest: R)
  have note_: "tri C ?T (handoffE key (\<lambda>h. h\<lparr>ho_missing_since := i\<rparr>)) (\<lambda>_. ?T)" for i
    by (rule tri_handoffE) (auto intro: twin_adjust)
  show ?thesis
    unfolding missing_handoff_def Let_def
    by (intro tri_keep_bind [OF since] tri_keep_seq [OF note_] tri_world_bind tri_if cancel)
      (auto split: list.split intro!: put cancel adopt tri_if)
qed

lemma exclude_present_keeps:
  "ho_window (exclude_present s h) = ho_window h \<and> ho_token (exclude_present s h) = ho_token h"
proof -
  have "ho_window (fold (\<lambda>w h. if wi_address w \<in> set (ho_excluded h) then h else h\<lparr>ho_excluded := ho_excluded h @ [wi_address w]\<rparr>) ws h)
      = ho_window h \<and> ho_token (fold (\<lambda>w h. if wi_address w \<in> set (ho_excluded h) then h
        else h\<lparr>ho_excluded := ho_excluded h @ [wi_address w]\<rparr>) ws h) = ho_token h" for ws
    by (induction ws arbitrary: h) auto
  then show ?thesis by (simp add: exclude_present_def)
qed

lemma tri_pinned:
  "tri C F a G \<Longrightarrow> tri C F b G \<Longrightarrow> tri C F d G \<Longrightarrow> tri C F (case p of Present \<Rightarrow> a | Gone \<Rightarrow> d | _ \<Rightarrow> b) G"
  by (cases p) simp_all

lemma tri_reconcile_handoff: "tri C (tables R) (reconcile_handoff env snapshot mv lost key b) (\<lambda>_. tables R)"
proof -
  have cancel: "tri C F (seqE (cancel_handoff env key) (returnE x)) (\<lambda>_. tables R)"
    if "\<And>j tr. F j tr \<Longrightarrow> tables R j tr" for F x
    by (rule tri_seqE [OF tri_pre [OF tri_cancel_handoff] tri_returnE]) (auto dest: that)
  let ?R = "\<lambda>h res cl en. R res cl en \<and> handoff_valid (sc_limits C) res (key, h) = Ok ()"
  have present: "tri C (\<lambda>j tr. tables (?R h) j tr \<and> twin key h j)
      (seqE (if length (ho_excluded (exclude_present snapshot h)) > 512 then cancel_handoff env key
        else put_handoff key ((exclude_present snapshot h)\<lparr>ho_missing_since := None\<rparr>)) (returnE x)) (\<lambda>_. tables R)" for h x
    by (rule tri_seqE [where G = "tables R"], rule tri_if)
      (auto intro!: tri_pre [OF tri_cancel_handoff] tri_put_handoff tri_returnE
          handoff_valid_same [where h = h] simp: storable_def twin_has tables_def exclude_present_keeps)
  have gone: "tri C (\<lambda>j tr. tables (?R h) j tr \<and> twin key h j) (missing_handoff env snapshot mv key h m) (\<lambda>_. tables R)" for h m
    by (rule tri_post [OF tri_missing_handoff]) (auto simp: tables_def)
  have found: "tri C (\<lambda>j tr. tables R j tr \<and> journal_inv (sc_limits C) j \<and> jo_session j = sc_session C \<and> Some h = om_get (jo_handoffs j) key)
      (bindE (worldE (wv_process_start env (wn_pid (ho_window h)))) (\<lambda>start.
        bindE (journalE (\<lambda>j. (superseded_handoff j key h mv lost start, om_get (jo_entries j) (wn_workspace_id (ho_window h)))))
          (\<lambda>(superseded, entry). k superseded entry))) G"
    if k: "\<And>sup entry. tri C (\<lambda>j tr. tables (?R h) j tr \<and> twin key h j) (k sup entry) G" for h k G
    apply (rule tri_world_bind)
    apply (rule tri_journalE)
    apply (rule tri_prod)
    apply (rule tri_pre [OF k])
    by (auto simp: tables_def twin_def journal_inv_def eq_commute [of "Some h"])
  show ?thesis
    unfolding reconcile_handoff_def
    apply (rule tri_journalE)
    apply (rule tri_lift_bind)
    apply (rule tri_pre [OF found])
     apply (rule tri_if)
      apply (rule cancel, force simp: tables_def)
     apply (rule tri_ask_bind)
     apply (rule tri_pinned)
       apply (simp only: Let_def, rule present)
      apply (rule cancel, force simp: tables_def)
     apply (intro tri_lift_bind tri_bindE [OF gone] tri_returnE, assumption)
    apply auto
    done
qed

text \<open>The assertion that asks nothing.\<close>

abbreviation top_pred :: jpred where
  "top_pred \<equiv> \<lambda>_ _. True"

lemma tables_top [simp]: "tables (\<lambda>_ _ _. True) = top_pred"
  by (simp add: fun_eq_iff tables_def)

lemmas tri_cancel_top = tri_cancel_handoff [of _ "\<lambda>_ _ _. True", simplified]
  and tri_pins_top = tri_prepare_pins [of _ "\<lambda>_ _ _. True", simplified]
  and tri_reconcile_top = tri_reconcile_handoff [of _ "\<lambda>_ _ _. True", simplified]

lemma tri_fence_handoffs:
  assumes "\<And>h. ho_window (f h) = ho_window h \<and> ho_token (f h) = ho_token h \<and> ho_excluded (f h) = ho_excluded h"
  shows "tri C top_pred (updateE (\<lambda>j. j\<lparr>jo_handoffs := om_map f (jo_handoffs j)\<rparr>)) (\<lambda>_. top_pred)"
proof (rule tri_updateE, intro conjI)
  fix j
  assume j: "journal_inv (sc_limits C) j"
  have same: "handoff_valid L R (i, f h) = handoff_valid L R (i, h)" for L R i h
    using assms [of h] by (simp add: handoff_valid_def split: option.split)
  have "om_ok (om_map f (jo_handoffs j))" "length (om_map f (jo_handoffs j)) \<le> 128" using j by (simp_all add: journal_inv_def)
  moreover have "handoff_valid (sc_limits C) (jo_reservations j) (i, h) = Ok ()" if "om_get (om_map f (jo_handoffs j)) i = Some h" for i h
    using that j by (auto simp: journal_inv_def same)
  ultimately show "journal_inv (sc_limits C) (j\<lparr>jo_handoffs := om_map f (jo_handoffs j)\<rparr>)"
    and "journal_le j (j\<lparr>jo_handoffs := om_map f (jo_handoffs j)\<rparr>)"
    by (auto intro!: journal_inv_handoffs [OF j])
qed simp

lemma tri_reconcile_handoffs: "tri C top_pred (reconcile_handoffs env snapshot) (\<lambda>_. top_pred)"
  unfolding reconcile_handoffs_def
  by (rule tri_journalE, rule tri_pre [where F' = top_pred], rule tri_getE, rule tri_prod, rule tri_keep_seq,
      simp add: tri_put_world, rule tri_journalE, rule tri_pre [where F' = top_pred],
      intro tri_keep_seq tri_fence_handoffs tri_if tri_foldE tri_reconcile_top tri_save tri_returnE) auto

section \<open>Identifiers\<close>

lemma journal_inv_high:
  assumes "journal_inv L j" "jo_high j \<le> n" "n \<le> max_workspace_id L"
  shows "journal_inv L (j\<lparr>jo_high := n\<rparr>)" "journal_le j (j\<lparr>jo_high := n\<rparr>)"
  using assms by (force simp: journal_inv_def journal_le_def entry_valid_def)+

text \<open>An allocated identifier is above every live one and above every one the journal ever gave out.\<close>

lemma Journal_allocate_fresh:
  assumes "Journal_allocate L ids j = Ok (n, j')"
  shows "j' = j\<lparr>jo_high := n\<rparr>" "jo_high j < n" "5 < n" "n \<le> max_workspace_id L" "\<And>i. i \<in> set ids \<Longrightarrow> i < n"
proof -
  define h where "h = max (max (if ids = [] then 5 else Max (set ids)) (jo_high j)) 5"
  from assms have *: "h < max_workspace_id L" "n = h + 1" "j' = j\<lparr>jo_high := h + 1\<rparr>"
    by (auto simp: Journal_allocate_def Let_def and_then_Ok_iff h_def [symmetric])
  then show "j' = j\<lparr>jo_high := n\<rparr>" "n \<le> max_workspace_id L" by simp_all
  show "jo_high j < n" "5 < n" by (simp_all add: * h_def)
  fix i
  assume i: "i \<in> set ids"
  then have "i \<le> Max (set ids)" "ids \<noteq> []" by auto
  then show "i < n" by (simp add: * h_def)
qed

lemma tri_allocateE:
  "tri C (tables R) (allocateE env snapshot)
     (\<lambda>n j tr. tables R j tr \<and> 5 < n \<and> n \<le> jo_high j \<and> n \<le> max_workspace_id (sc_limits C))"
  if L: "wv_limits env = sc_limits C"
  unfolding allocateE_def
proof (rule tri_journalE, rule tri_lift_bind, rule tri_prod)
  fix r :: "(int \<times> Journal) result" and p n j'
  assume r: "r = Ok p" and p: "p = (n, j')"
  let ?F = "\<lambda>j tr. tables R j tr \<and> journal_inv (sc_limits C) j \<and> jo_session j = sc_session C
      \<and> r = Journal_allocate (wv_limits env) (live_ids snapshot) j"
  have fresh: "j' = j\<lparr>jo_high := n\<rparr> \<and> jo_high j < n \<and> 5 < n \<and> n \<le> max_workspace_id (sc_limits C)" if "?F j tr" for j tr
    using that Journal_allocate_fresh [of "wv_limits env" "live_ids snapshot" j n j'] by (simp add: r p L)
  show "tri C ?F (seqE (updateE (\<lambda>_. j')) (returnE n))
     (\<lambda>n j tr. tables R j tr \<and> 5 < n \<and> n \<le> jo_high j \<and> n \<le> max_workspace_id (sc_limits C))"
  proof (rule tri_seqE [where G = "\<lambda>j tr. tables R j tr \<and> 5 < n \<and> n \<le> jo_high j \<and> n \<le> max_workspace_id (sc_limits C)"])
    show "tri C ?F (updateE (\<lambda>_. j'))
       (\<lambda>_ j tr. tables R j tr \<and> 5 < n \<and> n \<le> jo_high j \<and> n \<le> max_workspace_id (sc_limits C))"
    proof (rule tri_updateE)
      fix j tr
      assume F: "?F j tr" and j: "journal_inv (sc_limits C) j"
      with fresh [OF F] show "journal_inv (sc_limits C) j' \<and> journal_le j j' \<and>
          tables R j' tr \<and> 5 < n \<and> n \<le> jo_high j' \<and> n \<le> max_workspace_id (sc_limits C)"
        by (auto intro!: journal_inv_high simp: tables_def)
    qed
  qed (rule tri_returnE)
qed

lemma tri_insert_entry:
  assumes "\<And>j tr. F j tr \<Longrightarrow> 5 < n \<and> n \<le> jo_high j" "en_id e = n"
    and "\<And>j tr. F j tr \<Longrightarrow> G () (j\<lparr>jo_entries := om_insert n e (jo_entries j)\<rparr>) tr"
  shows "tri C F (updateE (\<lambda>j. j\<lparr>jo_entries := om_insert n e (jo_entries j)\<rparr>)) G"
proof (rule tri_updateE, intro conjI)
  fix j tr
  assume F: "F j tr" and j: "journal_inv (sc_limits C) j"
  have ok: "om_ok (jo_entries j)" using j by (simp add: journal_inv_def)
  have "5 < i \<and> i \<le> jo_high j \<and> en_id e' = i" if "om_get (om_insert n e (jo_entries j)) i = Some e'" for i e'
    using that ok j assms(1) [OF F] assms(2) by (auto simp: journal_inv_def entry_valid_def split: if_splits)
  with ok show "journal_inv (sc_limits C) (j\<lparr>jo_entries := om_insert n e (jo_entries j)\<rparr>)"
    and "journal_le j (j\<lparr>jo_entries := om_insert n e (jo_entries j)\<rparr>)"
    by (auto intro!: journal_inv_entries [OF j])
  show "G () (j\<lparr>jo_entries := om_insert n e (jo_entries j)\<rparr>) tr" by (rule assms(3) [OF F])
qed

section \<open>Cleanup\<close>

lemma tri_leave_workspace:
  assumes L: "wv_limits env = sc_limits C"
  shows "tri C top_pred (leave_workspace env snapshot m n) (\<lambda>_. top_pred)"
proof -
  let ?P = "\<lambda>n j tr. 5 < n \<and> n \<le> jo_high j"
  have alloc: "tri C top_pred (allocateE env snapshot) ?P"
    using tri_post [OF tri_allocateE [OF L, of "\<lambda>_ _ _. True"], of ?P snapshot] by simp
  have fresh: "tri C top_pred (bindE (allocateE env snapshot) (\<lambda>next. bindE (worldE (wv_fresh env)) (\<lambda>generation.
      seqE (updateE (\<lambda>j. j\<lparr>jo_entries := om_insert next (fallback_entry (mo_name m) next generation) (jo_entries j)\<rparr>))
        (seqE (save env) (returnE next))))) (\<lambda>_. top_pred)"
    by (intro tri_bindE [OF alloc] tri_world_bind tri_seqE [where G = top_pred, OF tri_insert_entry] tri_keep_seq tri_save
        tri_returnE) (auto simp: fallback_entry_def)
  show ?thesis
    unfolding leave_workspace_def
    by (rule tri_journalE, rule tri_pre [where F' = top_pred], rule tri_keep_bind, rule tri_option)
      (auto intro!: tri_keep_seq tri_ask_bind tri_ensureE tri_commandE tri_returnE fresh)
qed

lemma tri_retire:
  assumes "wv_limits env = sc_limits C"
  shows "tri C top_pred (retire env snapshot active n) (\<lambda>_. top_pred)"
proof -
  have "tri C top_pred (updateE (\<lambda>j. j\<lparr>jo_entries := om_remove n (jo_entries j)\<rparr>)) (\<lambda>_. top_pred)"
    by (rule tri_updateE)
      (auto intro!: journal_inv_entries simp: journal_inv_def entry_valid_def split: if_splits)
  then show ?thesis
    unfolding retire_def
    by (intro tri_keep_seq tri_option tri_leave_workspace [OF assms] tri_put_world tri_returnE) auto
qed

lemma Entry_observe_id [simp]: "en_id (snd (Entry_observe L lw window e)) = en_id e"
  by (auto simp: Entry_observe_def Let_def split: option.splits)

lemma Entry_observe_pair: "Entry_observe L lw window e = (b, e') \<Longrightarrow> en_id e' = en_id e"
  using Entry_observe_id [of L lw window e] by simp

lemma tri_still_in_grace: "tri C top_pred (still_in_grace env n) (\<lambda>_. top_pred)"
  unfolding still_in_grace_def
  by (rule tri_getE, rule tri_keep_bind, rule tri_option, simp_all add: tri_returnE,
      (intro tri_keep_seq tri_world_bind tri_put_world tri_returnE tri_journalE | simp)+)

lemma tri_cleanup_entry:
  assumes L: "wv_limits env = sc_limits C"
  shows "tri C top_pred (cleanup_entry env snapshot n b) (\<lambda>_. top_pred)"
proof -
  have observe: "tri C (\<lambda>j tr. om_get (jo_entries j) n = Some e) (entryE n (\<lambda>_. e')) (\<lambda>_. top_pred)" if "en_id e' = en_id e" for e e'
    by (rule tri_entryE) (simp_all add: that)
  have adopt: "tri C top_pred (entryE n (\<lambda>e. e\<lparr>landing_pad := True\<rparr>)) (\<lambda>_. top_pred)"
    by (rule tri_entryE) simp_all
  have after: "tri C top_pred (if w \<noteq> None then seqE (modifyE (\<lambda>s. s\<lparr>sv_empty_since := om_remove n (sv_empty_since s)\<rparr>)) (returnE ch)
     else let adoptable = (\<not> en_occupied e \<and> act \<noteq> None) in
       bindE (journalE (\<lambda>j. (pending_lease n j, explicitly_closed n j))) (\<lambda>(pending, closed_before).
         if closing \<or> pending then
           (if \<not> closing \<and> \<not> landing_pad e \<and> adoptable
            then seqE (entryE n (\<lambda>e. e\<lparr>landing_pad := True\<rparr>)) (returnE True) else returnE ch)
         else if keep_until_closed e \<or> (landing_pad e \<and> adoptable) then returnE ch
         else bindE (if en_occupied e \<and> \<not> closed_before then still_in_grace env n else returnE False) (\<lambda>wait.
           if wait then returnE ch else retire env snapshot act n))) (\<lambda>_. top_pred)" for w ch e act closing
    unfolding Let_def
    apply (rule tri_if)
     apply (intro tri_keep_seq tri_put_world tri_returnE; simp)
    apply (rule tri_journalE)
    apply (rule tri_pre [where F' = top_pred])
     apply (rule tri_prod)
     apply (intro tri_if tri_keep_seq adopt tri_returnE tri_keep_bind tri_still_in_grace tri_retire [OF L])
               apply simp_all
    done
  show ?thesis
    unfolding cleanup_entry_def
    apply (subst Let_def, subst Let_def)
    apply (rule tri_journalE, rule tri_prod, rule tri_lift_bind)
    apply (rule tri_let, rule tri_prod, rule tri_let)
    apply (rule tri_seqE [OF _ after])
    apply (rule tri_pre [OF observe [OF Entry_observe_pair]])
     apply assumption
    apply auto
    done
qed

lemma tri_cleanup:
  assumes L: "wv_limits env = sc_limits C"
  shows "tri C top_pred (cleanup env snapshot) (\<lambda>_. top_pred)"
proof -
  have history: "tri C top_pred (updateE (\<lambda>j. j\<lparr>jo_history := h\<rparr>)) (\<lambda>_. top_pred)" for h
    by (rule tri_updateE) (auto intro: journal_inv_history)
  have refresh: "tri C top_pred (if b then bindE (askE (wv_snapshot env)) (\<lambda>s. seqE notify_changed (returnE s)) else returnE snapshot)
      (\<lambda>_. top_pred)" for b
    by (intro tri_if tri_ask_bind tri_keep_seq tri_put_world tri_returnE) auto
  have entries: "tri C top_pred (bindE (foldE (cleanup_entry env s) ids ch) (\<lambda>ch. if ch then save env else returnE ()))
      (\<lambda>_. top_pred)" for s ids ch
    by (intro tri_keep_bind tri_foldE tri_cleanup_entry [OF L] tri_if tri_save tri_returnE) auto
  show ?thesis
    unfolding cleanup_def
    by (intro tri_keep_bind [OF tri_reconcile_handoffs] tri_keep_bind [OF refresh], rule tri_journalE,
        rule tri_pre [where F' = top_pred], rule tri_prod, rule tri_keep_seq [OF history], rule tri_journalE,
        rule tri_pre [where F' = top_pred], rule entries) auto
qed

section \<open>Creating\<close>

lemma unfailing_attempt: "unfailing C F m \<Longrightarrow> tri C F (attemptE m) (\<lambda>_. F)"
  by (auto simp: tri_def unfailing_def attemptE_def split: prod.splits)

lemma unfailing_bindE: "unfailing C F m \<Longrightarrow> (\<And>x. unfailing C F (k x)) \<Longrightarrow> unfailing C F (bindE m k)"
  unfolding unfailing_def bindE_def by (auto split: prod.splits sum.splits) (metis snd_conv)+

lemma unfailing_seqE: "unfailing C F m \<Longrightarrow> unfailing C F n \<Longrightarrow> unfailing C F (seqE m n)"
  unfolding seqE_def by (rule unfailing_bindE)

lemma unfailing_basic:
  "unfailing C F (liftE r)" "unfailing C F (ensureE b msg)" "unfailing C F (askE f)"
  by (auto simp: unfailing_def eff_defs askE_def split: prod.splits)

lemma unfailing_commandE:
  fixes env :: "'w wenv"
  assumes "free_cmd c" "\<And>j tr. F j tr \<Longrightarrow> F j (Ran (sc_session C) c # tr)"
  shows "unfailing C F (commandE env c)"
  unfolding commandE_def
proof (rule unfailing_seqE [OF unfailing_basic(1)])
  show "unfailing C F (runE env c)"
    unfolding unfailing_def
  proof (intro allI impI)
    fix s :: "'w wstate"
    assume s: "live C s" "F (sv_journal s) (sv_trace s)"
    then have "jo_session (sv_journal s) = sc_session C" by (simp add: live_def shut_def)
    then show "live C (snd (runE env c s)) \<and> F (sv_journal (snd (runE env c s))) (sv_trace (snd (runE env c s)))
        \<and> sv_journal (snd (runE env c s)) = sv_journal s"
      using live_ran_free [OF s(1) assms(1)] assms(2) [OF s(2)] by (auto simp: runE_def split: prod.splits)
  qed
qed

lemma tri_reservation_of: "(\<And>r j tr. F j tr \<Longrightarrow> om_get (jo_reservations j) key = Some r \<Longrightarrow> G r j tr) \<Longrightarrow> tri C F (reservation_of key) G"
  unfolding reservation_of_def by (rule tri_journalE, rule tri_liftE) auto

lemma tri_close_of: "(\<And>r j tr. F j tr \<Longrightarrow> om_get (jo_closes j) key = Some r \<Longrightarrow> G r j tr) \<Longrightarrow> tri C F (close_of key) G"
  unfolding close_of_def by (rule tri_journalE, rule tri_liftE) auto

text \<open>A key that may be admitted, and a workspace that a new lease may name.\<close>

definition admissible_key :: "wslimits \<Rightarrow> string \<Rightarrow> (string, Reservation) omap \<Rightarrow> (string, CloseRecord) omap \<Rightarrow> bool" where
  "admissible_key L key res cl \<longleftrightarrow> valid_request_id L key \<and> length res + length cl < MAX_RECORDS
     \<and> \<not> om_has key res \<and> \<not> om_has key cl"

lemma Journal_admit_iff: "Journal_admit L key j = Ok u \<longleftrightarrow> admissible_key L key (jo_reservations j) (jo_closes j)"
  by (simp add: Journal_admit_def admissible_key_def and_then_Ok_iff)

definition open_workspace :: "(string, CloseRecord) omap \<Rightarrow> int \<Rightarrow> bool" where
  "open_workspace cl n \<longleftrightarrow> \<not> list_ex (\<lambda>r. close_id r = n \<and> active_close r) (om_values cl)"

lemma closing_open: "Journal_closing j n \<longleftrightarrow> \<not> open_workspace (jo_closes j) n"
  by (simp add: Journal_closing_def open_workspace_def)

lemma journal_inv_new_reservation:
  assumes j: "journal_inv L j" and key: "admissible_key L key (jo_reservations j) (jo_closes j)"
    and r: "reservation_valid L (jo_session j) (key, r)" "rs_placement r = None"
    and closes: "open_workspace (jo_closes j) (le_workspace_id (rs_lease r))"
  shows "journal_inv L (j\<lparr>jo_reservations := om_insert key r (jo_reservations j)\<rparr>)"
    and "journal_le j (j\<lparr>jo_reservations := om_insert key r (jo_reservations j)\<rparr>)"
proof -
  have ok: "om_ok (jo_reservations j)" "om_ok (jo_closes j)" using j by (simp_all add: journal_inv_def)
  have new: "om_get (jo_reservations j) key = None" using key by (simp add: admissible_key_def om_has_get)
  have h: "handoff_valid L (om_insert key r (jo_reservations j)) (k, h) = Ok ()"
    if "om_get (jo_handoffs j) k = Some h" for k h
  proof -
    have "handoff_valid L (jo_reservations j) (k, h) = Ok ()" using that j by (simp add: journal_inv_def)
    with new ok show ?thesis by (auto simp: handoff_valid_def split: option.splits)
  qed
  have "om_get (jo_closes j) k = Some c \<Longrightarrow> active_close c \<Longrightarrow> le_workspace_id (rs_lease r) \<noteq> close_id c" for k c
    using closes om_values_get [OF ok(2), of c] by (auto simp: open_workspace_def list_ex_iff)
  with j ok key r h show "journal_inv L (j\<lparr>jo_reservations := om_insert key r (jo_reservations j)\<rparr>)"
    by (auto simp: journal_inv_def entry_valid_def length_om_insert admissible_key_def)
  show "journal_le j (j\<lparr>jo_reservations := om_insert key r (jo_reservations j)\<rparr>)"
    using ok new by (auto simp: journal_le_def)
qed

lemma validate_context_session: "validate_context snapshot context b = Ok u \<Longrightarrow> cx_session context = sn_session snapshot"
  by (auto simp: validate_context_def and_then_Ok_iff)

lemma tri_destination:
  assumes L: "wv_limits env = sc_limits C"
  shows "tri C (tables R) (destination env snapshot request) (\<lambda>n j tr. tables R j tr \<and> valid_workspace (sc_limits C) n
      \<and> (cr_workspace_id request = None \<longrightarrow> 5 < n \<and> n \<le> jo_high j))"
  unfolding destination_def
proof (rule tri_option)
  assume "cr_workspace_id request = None"
  then show "tri C (tables R) (allocateE env snapshot) (\<lambda>n j tr. tables R j tr \<and> valid_workspace (sc_limits C) n
      \<and> (cr_workspace_id request = None \<longrightarrow> 5 < n \<and> n \<le> jo_high j))"
    by (intro tri_post [OF tri_allocateE [OF L]]) (auto simp: valid_workspace_def)
next
  fix n
  assume "cr_workspace_id request = Some n"
  then show "tri C (tables R) (seqE (ensureE (valid_workspace (wv_limits env) n) ''invalid workspace ID'')
       (bindE (journalE jo_entries) (\<lambda>entries.
        seqE (ensureE (n \<le> 5 \<or> list_ex (\<lambda>w. lw_id w = Some n) (sn_workspaces snapshot)
          \<or> (case om_get entries n of None \<Rightarrow> False
              | Some e \<Rightarrow> keep_until_closed e \<and> en_monitor e = cx_monitor (cr_context request)))
          ''destination disappeared'') (returnE n))))
     (\<lambda>n j tr. tables R j tr \<and> valid_workspace (sc_limits C) n \<and> (cr_workspace_id request = None \<longrightarrow> 5 < n \<and> n \<le> jo_high j))"
    by (intro tri_ensure_seq) (rule tri_journalE, intro tri_ensure_seq tri_returnE, simp add: L)
qed

end
