(* ===== verification/Workspace_Requests.thy ===== *)
theory Workspace_Requests
  imports Workspace_Invariant
begin

text \<open>
  The requests of the workspace service under the logic of \<open>Workspace_Logic\<close>: creating, placing, closing and
  navigating, then whole calls, observers and projections, and the invariant of every run.
\<close>

section \<open>Creating\<close>

definition creation_ready :: "scope \<Rightarrow> Create \<Rightarrow> int \<Rightarrow> jpred" where
  "creation_ready C request n j tr \<longleftrightarrow>
     admissible_key (sc_limits C) (cr_request_id request) (jo_reservations j) (jo_closes j) \<and> open_workspace (jo_closes j) n
     \<and> valid_workspace (sc_limits C) n \<and> (cr_workspace_id request = None \<longrightarrow> 5 < n \<and> n \<le> jo_high j)"

lemma tri_record_creation:
  assumes session: "cx_session (cr_context request) = sc_session C"
  shows "tri C (creation_ready C request n) (record_creation env request n g (sc_session C)) (\<lambda>_. top_pred)"
proof -
  have entry: "tri C (creation_ready C request n) (if cr_workspace_id request = None
      then updateE (\<lambda>j. j\<lparr>jo_entries := om_insert n (new_entry request n g) (jo_entries j)\<rparr>) else returnE ())
      (\<lambda>_. creation_ready C request n)"
    by (intro tri_if tri_insert_entry tri_returnE) (auto simp: creation_ready_def new_entry_def)
  have reservation: "tri C (creation_ready C request n) (updateE (\<lambda>j. j\<lparr>jo_reservations := om_insert (cr_request_id request)
        (new_reservation request \<lparr>le_session = sc_session C, le_request_id = cr_request_id request, le_workspace_id = n,
          le_generation = g\<rparr> writer) (jo_reservations j)\<rparr>)) (\<lambda>_. top_pred)" for writer
    using session by (intro tri_updateE)
      (auto intro!: journal_inv_new_reservation simp: creation_ready_def new_reservation_def reservation_valid_def admissible_key_def)
  show ?thesis
    unfolding record_creation_def
    by (intro tri_keep_seq [OF entry] tri_getE tri_seqE [OF reservation] tri_save) simp
qed

lemma tri_focus_created: "tri C top_pred (attemptE (focus_created env request n)) (\<lambda>_. top_pred)"
  unfolding focus_created_def by (intro unfailing_attempt unfailing_seqE unfailing_commandE unfailing_bindE unfailing_basic) simp_all

lemma tri_create:
  assumes L: "wv_limits env = sc_limits C" and session: "sn_session snapshot = sc_session C"
  shows "tri C top_pred (create env snapshot request) (\<lambda>_. top_pred)"
proof -
  let ?A = "\<lambda>res cl en. admissible_key (sc_limits C) (cr_request_id request) res cl"
  let ?D = "\<lambda>n j tr. tables ?A j tr \<and> valid_workspace (sc_limits C) n \<and> (cr_workspace_id request = None \<longrightarrow> 5 < n \<and> n \<le> jo_high j)"
  have focus: "tri C top_pred (seqE (if cr_purpose request = LandingPad then
        bindE (attemptE (focus_created env request n)) (\<lambda>result.
        seqE (reservationE (cr_request_id request) (\<lambda>r. r\<lparr>rs_status := (if is_ok result then ''focused'' else ''unknown'')\<rparr>))
          (seqE (save env) (liftE result)))
      else returnE ())
    (bindE (reservation_of (cr_request_id request)) (\<lambda>r. returnE (Reservation_Reply r)))) (\<lambda>_. top_pred)" for n
    by (intro tri_keep_seq tri_if tri_keep_bind [OF tri_focus_created] tri_reservationE tri_save tri_liftE tri_returnE
        tri_keep_bind [OF tri_reservation_of]) (auto simp: reservation_le_def)
  have generation: "tri C F (generation_of env n) (\<lambda>_. F)" for n F
    unfolding generation_of_def by (rule tri_journalE, rule tri_option) (auto intro: tri_returnE tri_worldE)
  have ready: "tri C (creation_ready C request n) (bindE (generation_of env n) (\<lambda>g. seqE (record_creation env request n g (sn_session snapshot)) m)) G"
    if "cx_session (cr_context request) = sc_session C" "tri C top_pred m G" for n m and G :: "Reply \<Rightarrow> jpred"
    unfolding session by (intro tri_keep_bind [OF generation] tri_seqE [OF tri_record_creation [OF that(1)] that(2)])
  show ?thesis
    unfolding create_def
    apply (rule tri_ensure_seq, rule tri_journalE, rule tri_option)
     apply (rule tri_lift_seq, rule tri_ensure_seq)
     apply (rule tri_seqE [where G = "tables ?A"])
      apply (rule tri_journalE, rule tri_liftE, simp add: Journal_admit_iff L tables_def)
     apply (rule tri_bindE [where G = ?D, OF tri_destination [OF L]])
     apply (rule tri_journalE, rule tri_ensure_seq)
     apply (rule tri_pre [OF ready [OF _ focus]])
      apply (simp add: validate_context_session session [symmetric])
     apply (auto simp: creation_ready_def tables_def closing_open)[1]
    apply (intro tri_ensure_seq tri_returnE, simp)
    done
qed

section \<open>Placing\<close>

definition fresh_tokens :: "'w wenv \<Rightarrow> bool" where
  "fresh_tokens env \<longleftrightarrow> (\<forall>w. valid_request_id (wv_limits env) (PIN_PREFIX @ ''handoff-'' @ fst (wv_fresh env w)))"

text \<open>The reservation a placement was admitted with, which nothing changes until it is recorded.\<close>

definition reserved_as :: "string \<Rightarrow> Reservation \<Rightarrow> (string, Reservation) omap \<Rightarrow> (string, CloseRecord) omap \<Rightarrow> (int, Entry) omap \<Rightarrow> bool" where
  "reserved_as key r res cl en \<longleftrightarrow> om_get res key = Some r"

lemma tri_Handoff_prepare:
  assumes L: "wv_limits env = sc_limits C" and fresh: "fresh_tokens env"
    and r: "rs_lease r = pl_lease request" "le_request_id (pl_lease request) = key"
  shows "tri C (tables (reserved_as key r)) (Handoff_prepare env r request snapshot)
     (\<lambda>handoff j tr. tables (reserved_as key r) j tr \<and> (\<forall>h. handoff = Some h \<longrightarrow> storable (sc_limits C) key h j))"
proof (rule triI)
  fix s x t
  assume s: "live C s" "tables (reserved_as key r) (sv_journal s) (sv_trace s)"
    and run: "Handoff_prepare env r request snapshot s = (Inr x, t)"
  show "live C t \<and> (tables (reserved_as key r) (sv_journal t) (sv_trace t) \<and> (\<forall>h. x = Some h \<longrightarrow> storable (sc_limits C) key h (sv_journal t)))
      \<and> journal_le (sv_journal s) (sv_journal t)"
    using s run fresh r
    by (auto simp: Handoff_prepare_def journalE_def worldE_def eff_defs Let_def MAX_HANDOFFS_def storable_def handoff_valid_def
        tables_def reserved_as_def fresh_tokens_def L [symmetric] split: if_splits prod.splits option.splits)
      (metis fst_conv)+
next
  fix s e t
  assume "Handoff_prepare env r request snapshot s = (Inl e, t)"
  then show "shut C t \<and> journal_le (sv_journal s) (sv_journal t)"
    by (auto simp: Handoff_prepare_def journalE_def worldE_def eff_defs Let_def split: if_splits prod.splits)
qed

lemma tri_supersede_handoffs: "tri C (tables R) (supersede_handoffs env pid) (\<lambda>_. tables R)"
  unfolding supersede_handoffs_def
  by (rule tri_journalE, rule tri_pre [where F' = "tables R"]) (auto intro!: tri_forE tri_cancel_handoff)

text \<open>After the placement is recorded and written, its window may move once.\<close>

definition placing_written :: "scope \<Rightarrow> Placement \<Rightarrow> jpred" where
  "placing_written C request j tr \<longleftrightarrow> last_written (sc_session C) tr = Some j
     \<and> (\<exists>r. r \<in> set (om_values (jo_reservations j)) \<and> rs_status r = ''placing'' \<and> \<not> rs_released r \<and> rs_placement r = Some request)
     \<and> add_mset (placement_move request) (trace_moves (sc_session C) tr) \<subseteq># recorded_moves j"

definition placing_recorded :: "scope \<Rightarrow> Placement \<Rightarrow> jpred" where
  "placing_recorded C request j tr \<longleftrightarrow>
     (\<exists>r. r \<in> set (om_values (jo_reservations j)) \<and> rs_status r = ''placing'' \<and> \<not> rs_released r \<and> rs_placement r = Some request)
     \<and> add_mset (placement_move request) (trace_moves (sc_session C) tr) \<subseteq># recorded_moves j"

lemma live_moves: "live C s \<Longrightarrow> trace_moves (sc_session C) (sv_trace s) \<subseteq># recorded_moves (sv_journal s)"
  by (auto simp: live_def shut_def rest_def winv_def)

lemma tri_mark_placing:
  assumes r: "rs_status r = ''reserved''" "\<not> rs_released r"
  shows "tri C (tables (reserved_as key r)) (reservationE key (\<lambda>r. r\<lparr>rs_status := ''placing'', rs_placement := Some request\<rparr>))
     (\<lambda>_. placing_recorded C request)"
proof (rule triI)
  fix s x t
  let ?f = "\<lambda>r. r\<lparr>rs_status := ''placing'', rs_placement := Some request\<rparr>"
  assume s: "live C s" "tables (reserved_as key r) (sv_journal s) (sv_trace s)"
    and run: "reservationE key ?f s = (Inr x, t)"
  let ?j = "sv_journal s"
  from s have get: "om_get (jo_reservations ?j) key = Some r" by (simp add: tables_def reserved_as_def)
  have inv: "journal_inv (sc_limits C) ?j" by (rule live_journal_inv [OF s(1)])
  with get r have none: "rs_placement r = None" by (auto simp: journal_inv_def)
  have "tri C (tables (reserved_as key r)) (reservationE key ?f) (\<lambda>_. top_pred)"
    by (rule tri_reservationE) (use none in \<open>auto simp: tables_def reserved_as_def reservation_le_def\<close>)
  from tri_Ok [OF this s run] have t: "live C t" "journal_le ?j (sv_journal t)" by auto
  from run have j: "jo_reservations (sv_journal t) = om_adjust key ?f (jo_reservations ?j)" and tr: "sv_trace t = sv_trace s"
    by (auto simp: reservationE_def updateE_def eff_defs)
  have ok: "om_ok (jo_reservations ?j)" using inv by (rule journal_inv_maps)
  have moves: "recorded_moves (sv_journal t) = add_mset (placement_move request) (recorded_moves ?j)"
    by (rule recorded_moves_place [OF ok get none j])
  have "?f r \<in> set (om_values (jo_reservations (sv_journal t)))"
    unfolding j by (subst om_values_get) (use ok get in auto)
  then have "\<exists>r'. r' \<in> set (om_values (jo_reservations (sv_journal t))) \<and> rs_status r' = ''placing'' \<and> \<not> rs_released r'
      \<and> rs_placement r' = Some request"
    using r by (intro exI [of _ "?f r"]) auto
  with live_moves [OF s(1)] t moves tr
  show "live C t \<and> placing_recorded C request (sv_journal t) (sv_trace t) \<and> journal_le ?j (sv_journal t)"
    by (simp add: placing_recorded_def)
qed (simp add: reservationE_def updateE_def eff_defs)

lemma tri_record_placing:
  assumes r: "rs_status r = ''reserved''" "\<not> rs_released r"
  shows "tri C (\<lambda>j tr. tables (reserved_as key r) j tr \<and> (\<forall>h. handoff = Some h \<longrightarrow> storable (sc_limits C) key h j))
     (record_placing env key request handoff) (\<lambda>_. placing_written C request)"
proof -
  have "tri C (\<lambda>j tr. tables (reserved_as key r) j tr \<and> (\<forall>h. handoff = Some h \<longrightarrow> storable (sc_limits C) key h j))
     (case handoff of None \<Rightarrow> returnE () | Some h \<Rightarrow> put_handoff key h) (\<lambda>_. tables (reserved_as key r))"
    by (rule tri_option) (auto intro!: tri_returnE tri_put_handoff)
  then show ?thesis
    unfolding record_placing_def
    by (intro tri_seqE [OF _ tri_seqE [OF tri_mark_placing [OF r]]] tri_save)
      (auto simp: placing_written_def placing_recorded_def)
qed

lemma placement_expression_admitted:
  "placing_written C request j tr \<Longrightarrow> admits j (placement_expression snapshot request context handoff)"
  by (auto simp: placing_written_def placement_expression_def Let_def placement_move_def split: option.splits)

lemma placement_expression_moves:
  "cmd_moves (placement_expression snapshot request context handoff) = {#placement_move request#}"
  by (simp add: placement_expression_def Let_def placement_move_def split: option.split)

lemma check_lease_Ok:
  assumes "check_lease writer j lease effect = Ok r"
  shows "om_get (jo_reservations j) (le_request_id lease) = Some r" "rs_lease r = lease"
    "effect \<Longrightarrow> \<not> rs_released r \<and> rs_writer r = writer"
  using assms by (auto simp: check_lease_def and_then_Ok_iff)

lemma admit_placement_reserved: "admit_placement w sn j request r = Ok u \<Longrightarrow> rs_status r = ''reserved''"
  by (auto simp: admit_placement_def and_then_Ok_iff)

lemma tri_prepare_pins_keep:
  "(\<And>j tr c. F j tr \<Longrightarrow> F j (Ran (sc_session C) c # tr)) \<Longrightarrow> tri C F (prepare_pins env) (\<lambda>_. F)"
  unfolding prepare_pins_def
  by (rule tri_getE, rule tri_if) (auto intro!: tri_returnE tri_keep_seq tri_commandE tri_put_world)

lemma tri_place:
  assumes L: "wv_limits env = sc_limits C" and fresh: "fresh_tokens env"
  shows "tri C top_pred (Service_place env snapshot request) (\<lambda>_. top_pred)"
proof -
  let ?key = "le_request_id (pl_lease request)"
  let ?n = "le_workspace_id (pl_lease request)"
  have observed: "en_id (observed_entry c e) = en_id e" for c e by (simp add: observed_entry_def Let_def)
  have recd: "tri C top_pred (record_placement ?key ?n c v) (\<lambda>_. top_pred)" for c v
    unfolding record_placement_def
    by (intro tri_keep_seq tri_reservationE tri_if tri_handoffE tri_entryE tri_returnE)
      (auto simp: reservation_le_def observed)
  have follow: "tri C top_pred (follow_placement env current request ctx) (\<lambda>_. top_pred)" for current ctx
    unfolding follow_placement_def by (intro tri_if tri_commandE tri_returnE) simp_all
  have effect: "tri C (placing_written C request) (attemptE (runE env (placement_expression snapshot request ctx handoff)))
      (\<lambda>_. top_pred)" for ctx handoff
  proof (rule tri_effect)
    fix j tr
    assume p: "placing_written C request j tr"
    then show "last_written (sc_session C) tr = Some j \<and> admits j (placement_expression snapshot request ctx handoff)
      \<and> (cmd_moves (placement_expression snapshot request ctx handoff) \<noteq> {#} \<longrightarrow>
         trace_moves (sc_session C) tr + cmd_moves (placement_expression snapshot request ctx handoff) \<subseteq># recorded_moves j)"
      by (simp add: placement_expression_moves placement_expression_admitted) (simp add: placing_written_def)
  qed simp
  have after: "tri C (\<lambda>j tr. tables (reserved_as ?key r) j tr \<and> (\<forall>h. handoff = Some h \<longrightarrow> storable (sc_limits C) ?key h j))
      (seqE (if handoff \<noteq> None then prepare_pins env else returnE ())
      (seqE (record_placing env ?key request handoff)
      (let expression = placement_expression snapshot request (cr_context (rs_request r)) handoff in
      (seqE (liftE (buildE env expression))
      (bindE (attemptE (runE env expression)) (\<lambda>result.
       bindE (askE (wv_snapshot env)) (\<lambda>current.
       let verified = (is_ok result \<and> window_at current (wn_address (pl_window request)) (wn_pid (pl_window request)) ?n) in
       seqE (record_placement ?key ?n (rs_request r) verified)
       (seqE (save env)
       (seqE (if verified then returnE () else cancel_handoff env ?key)
       (seqE (ensureE verified msg)
       (seqE (follow_placement env current request (cr_context (rs_request r)))
         (returnE reply)))))))))))) (\<lambda>_. top_pred)"
    if r: "rs_status r = ''reserved''" "\<not> rs_released r" for r handoff msg and reply :: Reply
    unfolding Let_def
    by (intro tri_keep_seq [OF tri_if [OF tri_prepare_pins_keep tri_returnE]] tri_seqE [OF tri_record_placing [OF r]] tri_lift_seq
        tri_bindE [OF effect] tri_ask_bind tri_keep_seq [OF recd] tri_keep_seq tri_save tri_if tri_returnE tri_cancel_top
        tri_ensureE follow) (auto simp: tables_trace)
  show ?thesis
    unfolding Service_place_def
    apply (subst Let_def, subst Let_def, subst Let_def)
    apply (rule tri_stateE, rule tri_lift_bind, rule tri_if)
     apply (intro tri_ensure_seq tri_returnE, simp)
    apply (rule tri_stateE, rule tri_lift_seq)
    subgoal premises prems for x s r admitted s' u
    proof -
      from prems have c: "check_lease (sv_writer s) (sv_journal s) (pl_lease request) True = Ok r" by simp
      have r: "rs_lease r = pl_lease request" "\<not> rs_released r" using check_lease_Ok [OF c] by auto
      have get: "om_get (jo_reservations (sv_journal s)) ?key = Some r" by (rule check_lease_Ok [OF c])
      have status: "rs_status r = ''reserved''" using prems by (metis admit_placement_reserved)
      show ?thesis
        by (rule tri_pre [where F' = "tables (reserved_as ?key r)"],
            intro tri_keep_seq [OF tri_supersede_handoffs] tri_bindE [OF tri_Handoff_prepare [OF L fresh r(1) refl]]
              after [OF status r(2)]) (simp add: tables_def reserved_as_def get)
    qed
    done
qed

section \<open>Closing\<close>

lemma journal_inv_admit_close:
  assumes j: "journal_inv L j" and key: "admissible_key L key (jo_reservations j) (jo_closes j)"
  shows "journal_inv L (admit_close key request targets j)" "journal_le j (admit_close key request targets j)"
proof -
  let ?n = "cx_workspace_id (cl_context request)"
  let ?fence = "\<lambda>r. if le_workspace_id (rs_lease r) = ?n \<and> \<not> rs_released r then r\<lparr>rs_released := True, rs_status := ''released''\<rparr> else r"
  let ?j = "admit_close key request targets j"
  have ok: "om_ok (jo_entries j)" "om_ok (jo_reservations j)" "om_ok (jo_closes j)" "om_ok (jo_handoffs j)"
    using j by (simp_all add: journal_inv_def)
  have new: "om_get (jo_closes j) key = None" "\<not> om_has key (jo_closes j)" using key by (simp_all add: admissible_key_def om_has_get)
  have R: "jo_reservations ?j = om_map ?fence (jo_reservations j)" by (simp add: admit_close_def Let_def)
  have res: "\<exists>r. om_get (jo_reservations j) k = Some r \<and> r' = ?fence r" if "om_get (jo_reservations ?j) k = Some r'" for k r'
    using that by (auto simp: R)
  have hv: "handoff_valid L (jo_reservations ?j) (k, h) = handoff_valid L (jo_reservations j) (k, h)" for k h
    by (rule handoff_valid_cong) (auto simp: R map_option_case split: option.splits)
  have hf: "handoff_valid L R' (k, h\<lparr>ho_watching := b\<rparr>) = handoff_valid L R' (k, h)" for R' k h b
    by (simp add: handoff_valid_def split: option.split)
  have len: "length (jo_closes ?j) = Suc (length (jo_closes j))" "length (jo_reservations ?j) = length (jo_reservations j)"
    using ok new by (simp_all add: admit_close_def Let_def length_om_insert)
  have le: "reservation_le r (?fence r)" for r by (simp add: reservation_le_def)
  have entries: "om_get (jo_entries ?j) i = Some e \<Longrightarrow> entry_valid ?j (i, e)" for i e
    using j by (auto simp: admit_close_def Let_def journal_inv_def entry_valid_def split: if_splits)
  have handoffs: "om_get (jo_handoffs ?j) k = Some h \<Longrightarrow> handoff_valid L (jo_reservations j) (k, h) = Ok ()" for k h
    using j by (auto simp: admit_close_def Let_def journal_inv_def hf)
  have reservations: "reservation_valid L (jo_session j) (k, r) \<and> (rs_status r = ''reserved'' \<longrightarrow> rs_placement r = None)"
    if "om_get (jo_reservations ?j) k = Some r" for k r
  proof -
    from res [OF that] obtain r0 where r0: "om_get (jo_reservations j) k = Some r0" "r = ?fence r0" by auto
    from j r0(1) have "reservation_valid L (jo_session j) (k, r0)" "rs_status r0 = ''reserved'' \<longrightarrow> rs_placement r0 = None"
      by (simp_all add: journal_inv_def)
    then show ?thesis unfolding r0(2) reservation_valid_def by (auto split: if_splits)
  qed
  have closes: "rs_released r" if "om_get (jo_closes ?j) k = Some c" "active_close c" "om_get (jo_reservations ?j) i = Some r"
    "le_workspace_id (rs_lease r) = close_id c" for k c i r
  proof -
    from res [OF that(3)] obtain r0 where r0: "om_get (jo_reservations j) i = Some r0" "r = ?fence r0" by auto
    from that(1) have "close_id c = ?n \<or> om_get (jo_closes j) k = Some c"
      using ok by (auto simp: admit_close_def Let_def close_id_def split: if_splits)
    then show ?thesis
    proof
      assume "close_id c = ?n"
      with that(4) r0(2) show ?thesis by (simp split: if_splits)
    next
      assume "om_get (jo_closes j) k = Some c"
      moreover have "le_workspace_id (rs_lease r0) = close_id c" using that(4) r0(2) by (simp split: if_splits)
      ultimately have "rs_released r0" using j that(2) r0(1) unfolding journal_inv_def by blast
      then show ?thesis by (simp add: r0(2))
    qed
  qed
  have same: "jo_version ?j = jo_version j" "jo_high ?j = jo_high j" "jo_session ?j = jo_session j"
    "om_ok (jo_entries ?j)" "om_ok (jo_reservations ?j)" "om_ok (jo_closes ?j)" "om_ok (jo_handoffs ?j)"
    "length (jo_handoffs ?j) = length (jo_handoffs j)"
    using ok by (simp_all add: admit_close_def Let_def)
  have bounds: "jo_version j = wire_version L" "5 \<le> jo_high j" "jo_high j \<le> max_workspace_id L" "length (jo_handoffs j) \<le> 128"
    using j by (simp_all add: journal_inv_def)
  have total: "length (jo_reservations ?j) + length (jo_closes ?j) \<le> MAX_RECORDS"
    using key len by (simp add: admissible_key_def)
  show "journal_inv L ?j"
    unfolding journal_inv_def hv same
    by (intro conjI allI impI bounds same total)
      (use entries handoffs reservations closes in \<open>blast+\<close>)
  show "journal_le j ?j"
    using ok new le by (auto simp: journal_le_def admit_close_def Let_def)
qed

text \<open>A close being close_dispatched: its targets all lie on its workspace.\<close>

definition dispatching :: "string \<Rightarrow> nat \<Rightarrow> CloseRecord \<Rightarrow> bool" where
  "dispatching key m c \<longleftrightarrow> cs_status c = ''dispatching'' \<and> length (cs_targets c) = m
     \<and> (\<forall>t\<in>set (cs_targets c). wn_workspace_id (tg_window t) = close_id c)"

definition close_dispatched :: "string \<Rightarrow> nat \<Rightarrow> jpred" where
  "close_dispatched key m j tr \<longleftrightarrow> (\<exists>c. om_get (jo_closes j) key = Some c \<and> dispatching key m c)"

definition target_attempted :: "string \<Rightarrow> nat \<Rightarrow> nat \<Rightarrow> CloseRecord \<Rightarrow> bool" where
  "target_attempted key m i c \<longleftrightarrow> dispatching key m c \<and> tg_attempted (cs_targets c ! i)"

lemma attempted_dispatching: "dispatching key m c \<Longrightarrow> i < m \<Longrightarrow> target_attempted key m i (attempted i c)"
  by (auto simp: dispatching_def target_attempted_def attempted_def close_id_def set_update_distinct dest!: set_update_subset_insert [THEN subsetD])

lemma attempted_le: "close_le c (attempted i c)"
  by (simp add: attempted_def close_le_def active_close_def)

lemma attempted_admits:
  assumes "target_attempted key m i c" "i < m" "om_get (jo_closes j) key = Some c"
  shows "admits j (Close_Pinned (tg_token (cs_targets c ! i)) (wn_address (tg_window (cs_targets c ! i)))
    (wn_pid (tg_window (cs_targets c ! i))) (wn_workspace_id (tg_window (cs_targets c ! i))))"
proof -
  have "c \<in> set (om_values (jo_closes j))" using assms(3) by (force dest: map_of_SomeD)
  moreover have t: "cs_targets c ! i \<in> set (cs_targets c)" using assms by (simp add: target_attempted_def dispatching_def)
  ultimately show ?thesis
    using assms by (auto simp: target_attempted_def dispatching_def simp del: set_map intro!: exI [of _ c] exI [of _ "cs_targets c ! i"])
qed

lemma active_dispatching: "dispatching key m c \<Longrightarrow> active_close c"
  by (simp add: dispatching_def active_close_def)

lemma admit_close_starts:
  assumes "journal_inv L j" "\<forall>t\<in>set targets. wn_workspace_id (tg_window t) = cx_workspace_id (cl_context request)"
  shows "close_dispatched key (length targets) (admit_close key request targets j) tr"
  using assms by (simp add: close_dispatched_def dispatching_def admit_close_def Let_def close_id_def journal_inv_def)

lemma tri_close_target:
  assumes i: "i < m"
  shows "tri C (close_dispatched key m) (close_target env key i) (\<lambda>_. close_dispatched key m)"
proof -
  let ?A = "\<lambda>j tr. \<exists>c. om_get (jo_closes j) key = Some c \<and> target_attempted key m i c"
  let ?B = "\<lambda>j tr. ?A j tr \<and> last_written (sc_session C) tr = Some j"
  have mark: "tri C (close_dispatched key m) (closeE key (attempted i)) (\<lambda>_. ?A)"
    by (rule tri_closeE)
      (auto simp: close_dispatched_def attempted_le attempted_dispatching [OF _ i])
  have written: "tri C ?A (save env) (\<lambda>_. ?B)"
    by (rule tri_save) auto
  have effect: "tri C (\<lambda>j tr. ?B j tr \<and> om_get (jo_closes j) key = Some c) (attemptE (runE env (Close_Pinned (tg_token (cs_targets c ! i))
      (wn_address (tg_window (cs_targets c ! i))) (wn_pid (tg_window (cs_targets c ! i))) (wn_workspace_id (tg_window (cs_targets c ! i))))))
      (\<lambda>_. close_dispatched key m)" for c
    by (rule tri_effect) (auto simp: close_dispatched_def target_attempted_def simp del: admits.simps intro!: attempted_admits [OF _ i])
  have error: "tri C (close_dispatched key m) (case r of Inl e \<Rightarrow> closeE key (\<lambda>c. c\<lparr>cs_error := Some (err_to_string e)\<rparr>) | Inr _ \<Rightarrow> returnE ())
      (\<lambda>_. close_dispatched key m)" for r :: "unit result"
    by (cases r) (auto intro!: tri_closeE tri_returnE simp: close_dispatched_def dispatching_def close_le_def active_close_def close_id_def)
  have release: "tri C (close_dispatched key m) (attemptE (runE env (Release_Window tok))) (\<lambda>_. close_dispatched key m)" for tok
    by (rule tri_attempt_free) (auto simp: close_dispatched_def)
  show ?thesis
    unfolding close_target_def Let_def
    by (intro tri_seqE [OF mark] tri_seqE [OF written] tri_bindE [where G = "\<lambda>c j tr. ?B j tr \<and> om_get (jo_closes j) key = Some c", OF tri_close_of]
        tri_lift_seq tri_bindE [OF effect] tri_keep_seq [OF error] tri_keep_bind [OF release] tri_returnE) auto
qed

lemma tri_close:
  assumes L: "wv_limits env = sc_limits C"
  shows "tri C top_pred (Service_close env snapshot request) (\<lambda>_. top_pred)"
proof -
  let ?key = "cl_request_id request"
  let ?A = "tables (\<lambda>res cl en. admissible_key (sc_limits C) ?key res cl)"
  have pinned: "\<forall>t\<in>set (close_targets p n sn). wn_workspace_id (tg_window t) = n" for p n sn
    by (auto simp: close_targets_def)
  have admit: "tri C ?A (updateE (admit_close ?key request targets)) (\<lambda>_. close_dispatched ?key (length targets))"
    if "\<forall>t\<in>set targets. wn_workspace_id (tg_window t) = cx_workspace_id (cl_context request)" for targets
    by (rule tri_updateE) (use that in \<open>auto simp: tables_def admit_close_starts intro: journal_inv_admit_close\<close>)
  have loop: "tri C (close_dispatched ?key m) (forE (close_target env ?key) [0 ..< m]) (\<lambda>_. close_dispatched ?key m)" for m
    by (rule tri_forE) (simp add: tri_close_target)
  have waiting: "tri C (close_dispatched ?key m) (closeE ?key (\<lambda>c. c\<lparr>cs_status := ''waiting''\<rparr>)) (\<lambda>_. top_pred)" for m
    by (rule tri_closeE) (auto simp: close_dispatched_def dispatching_def close_le_def active_close_def)
  have saved: "tri C (close_dispatched ?key m) (save env) (\<lambda>_. close_dispatched ?key m)" for m
    by (rule tri_save) (simp add: close_dispatched_def)
  show ?thesis
    unfolding Service_close_def
    apply (subst Let_def, subst Let_def)
    apply (rule tri_journalE, rule tri_option)
     apply (rule tri_lift_seq, rule tri_journalE, rule tri_option)
      apply (rule tri_seqE [where G = ?A])
       apply (rule tri_journalE, rule tri_liftE, simp add: Journal_admit_iff L tables_def)
      apply (rule tri_world_bind, rule tri_let, rule tri_keep_seq [OF tri_prepare_pins], rule tri_ask_bind, rule tri_let,
        rule tri_ensure_seq)
      apply (intro tri_seqE [OF admit [OF pinned]] tri_keep_seq [OF saved] tri_keep_seq [OF loop] tri_seqE [OF waiting]
        tri_keep_seq tri_save tri_put_world tri_bindE [where G = "\<lambda>_. top_pred", OF tri_close_of] tri_returnE)
          apply (auto intro!: tri_ensure_seq tri_returnE)
    done
qed

section \<open>Commands and requests\<close>

lemma tri_select_workspace: "tri C top_pred (select_workspace env snapshot c ctx) (\<lambda>_. top_pred)"
proof -
  have entry: "tri C top_pred (entryE n (\<lambda>e. e\<lparr>cue_empty := True\<rparr>)) (\<lambda>_. top_pred)" for n
    by (rule tri_entryE) simp_all
  show ?thesis
    unfolding select_workspace_def Let_def
    apply (rule tri_journalE, rule tri_lift_bind, rule tri_prod, rule tri_pre [where F' = top_pred])
     apply (rule tri_keep_seq [OF tri_commandE], simp, simp)
     apply (rule tri_journalE, rule tri_pre [where F' = top_pred])
      apply (intro tri_keep_seq tri_if entry tri_save tri_returnE)
          apply simp_all
    done
qed

lemma tri_step_workspace: "tri C top_pred (step_workspace env snapshot b ctx) (\<lambda>_. top_pred)"
  unfolding step_workspace_def
  by (rule tri_journalE, rule tri_lift_bind, rule tri_seqE [where G = top_pred, OF tri_commandE]) (auto intro: tri_returnE)

lemma tri_run_command:
  fixes env :: "'w wenv"
  assumes "wv_limits env = sc_limits C" "sn_session snapshot = sc_session C"
  shows "tri C top_pred (run_command env snapshot c) (\<lambda>_. top_pred)"
proof -
  have kinds: "tri C top_pred (case k of Focus_Kind \<Rightarrow> f | Move_Kind \<Rightarrow> m | Create_Kind \<Rightarrow> cr | Close_Kind \<Rightarrow> cl | Next_Kind \<Rightarrow> nx
      | Previous_Kind \<Rightarrow> pv) G"
    if "tri C top_pred f G" "tri C top_pred m G" "tri C top_pred cr G" "tri C top_pred cl G" "tri C top_pred nx G" "tri C top_pred pv G"
    for f m cr cl nx pv :: "('w, Reply) weff" and k G
    using that by (cases k) simp_all
  have key: "tri C top_pred (case cm_request_id c of Some key \<Rightarrow> returnE key | None \<Rightarrow> worldE (wv_fresh env)) (\<lambda>_. top_pred)"
    by (rule tri_option) (auto intro: tri_returnE tri_worldE)
  show ?thesis
    unfolding run_command_def
    apply (rule tri_ensure_seq, rule tri_journalE, rule tri_lift_bind, rule tri_pre [where F' = top_pred], rule tri_option)
      apply (rule tri_lift_bind, rule tri_keep_bind [OF key])
      apply (intro kinds tri_select_workspace tri_step_workspace tri_create [OF assms] tri_close [OF assms(1)])
     apply (auto intro: tri_returnE)
    done
qed

lemma tri_release_lease:
  assumes "wv_limits env = sc_limits C"
  shows "tri C top_pred (release_lease env snapshot lease) (\<lambda>_. top_pred)"
  unfolding release_lease_def
  by (rule tri_getE, rule tri_lift_seq)
    (intro tri_keep_seq tri_reservationE tri_save tri_cleanup [OF assms] tri_returnE, auto simp: reservation_le_def)

lemma tri_handle:
  assumes "wv_limits env = sc_limits C" "sn_session snapshot = sc_session C" "fresh_tokens env"
  shows "tri C top_pred (handle env snapshot r) (\<lambda>_. top_pred)"
proof (cases r)
  case (Command_Request c)
  then show ?thesis using tri_run_command [OF assms(1,2)] by (simp add: handle_def)
next
  case (Create_Request c)
  then show ?thesis using tri_create [OF assms(1,2)] by (simp add: handle_def)
next
  case (Place_Request p)
  then show ?thesis using tri_place [OF assms(1,3)] by (simp add: handle_def)
next
  case (Release_Request l)
  then show ?thesis using tri_release_lease [OF assms(1)] by (simp add: handle_def)
next
  case (Close_Request c)
  then show ?thesis using tri_close [OF assms(1)] by (simp add: handle_def)
next
  case (Context_Request m)
  then show ?thesis
    by (auto simp: handle_def workspace_context_def intro!: tri_lift_bind tri_world_bind tri_returnE)
next
  case (Lookup_Request session key)
  then show ?thesis
    by (simp add: handle_def operation_get_def)
      (rule tri_ensure_seq, rule tri_journalE, rule tri_prod, auto intro!: tri_option tri_returnE tri_throwE)
next
  case Undecodable_Request
  then show ?thesis by (simp add: handle_def tri_throwE)
qed

section \<open>Loading\<close>

lemma first_error_Ok: "first_error f xs = Ok u \<longleftrightarrow> (\<forall>x\<in>set xs. f x = Ok ())"
  by (induction xs) (auto simp: and_then_Ok_iff)

lemma om_list_all: "om_ok m \<Longrightarrow> list_all P m \<longleftrightarrow> (\<forall>k v. om_get m k = Some v \<longrightarrow> P (k, v))"
  by (auto simp: list_all_iff om_get_mem)

lemma Journal_check_Ok: "journal_inv L j \<Longrightarrow> Journal_check L (jo_session j) j = Ok ()"
  by (simp add: Journal_check_def journal_inv_def om_list_all)

definition loaded_journal :: "Journal \<Rightarrow> Journal" where
  "loaded_journal j = j\<lparr>jo_entries := om_map (keep_manual j) (jo_entries j),
     jo_reservations := om_map fence_reservation (jo_reservations j), jo_closes := om_map fence_close (jo_closes j),
     jo_handoffs := om_map (\<lambda>h. h\<lparr>ho_watching := False\<rparr>) (jo_handoffs j)\<rparr>"

lemma fence_reservation_simps [simp]:
  "rs_request (fence_reservation r) = rs_request r" "rs_lease (fence_reservation r) = rs_lease r"
  "rs_placement (fence_reservation r) = rs_placement r" "rs_released (fence_reservation r)"
  by (simp_all add: fence_reservation_def)

lemma fence_reservation_status: "rs_status (fence_reservation r) = ''reserved'' \<Longrightarrow> rs_status r = ''reserved''"
  by (simp add: fence_reservation_def split: if_splits)

lemma fence_close_inactive [simp]: "\<not> active_close (fence_close c)"
  by (auto simp: fence_close_def active_close_def)

lemma keep_manual_id [simp]: "en_id (keep_manual j e) = en_id e"
  by (simp add: keep_manual_def)

lemma handoff_valid_fenced: "handoff_valid L (om_map fence_reservation R) (k, h) = handoff_valid L R (k, h)"
  by (rule handoff_valid_cong) (simp add: map_option_case split: option.split)

lemma loaded_journal_inv:
  assumes j: "journal_inv L j"
  shows "journal_inv L (loaded_journal j)"
proof -
  have unwatched: "handoff_valid L R (k, h\<lparr>ho_watching := b\<rparr>) = handoff_valid L R (k, h)" for R k h b
    by (simp add: handoff_valid_def split: option.split)
  have fenced: "reservation_valid L s (k, fence_reservation r) = reservation_valid L s (k, r)" for s k r
    by (simp add: reservation_valid_def)
  from j show ?thesis
    unfolding journal_inv_def
    by (auto simp: loaded_journal_def entry_valid_def handoff_valid_fenced unwatched fenced dest!: fence_reservation_status)
qed

lemma Journal_load_valid:
  assumes j: "journal_inv L j" and session: "jo_session j = \<sigma>"
  shows "Journal_load L (Ok (Some j)) \<sigma> = Ok (loaded_journal j)"
proof -
  have "Journal_check L \<sigma> j = Ok ()" using Journal_check_Ok [OF j] session by simp
  moreover have "om_ok (jo_handoffs j)" "length (jo_handoffs j) \<le> 128" using j by (simp_all add: journal_inv_def)
  moreover have "first_error (handoff_valid L (om_map fence_reservation (jo_reservations j))) (jo_handoffs j) = Ok ()"
    unfolding first_error_Ok using j \<open>om_ok (jo_handoffs j)\<close>
    by (auto simp: handoff_valid_fenced journal_inv_def om_get_mem)
  ultimately show ?thesis by (simp add: Journal_load_def Let_def loaded_journal_def)
qed

lemma recorded_moves_loaded: "recorded_moves (loaded_journal j) = recorded_moves j"
proof -
  have same: "List.map_filter rs_placement (map fence_reservation rs) = List.map_filter rs_placement rs" for rs
    by (induction rs) (simp_all add: map_filter_simps split: option.split)
  have "om_values (jo_reservations (loaded_journal j)) = map fence_reservation (om_values (jo_reservations j))"
    by (auto simp: loaded_journal_def om_map_def)
  then show ?thesis unfolding recorded_moves_def by (simp only: same)
qed

lemma journal_inv_empty: "5 \<le> max_workspace_id L \<Longrightarrow> journal_inv L (Journal_empty L \<sigma>)"
  by (simp add: Journal_empty_def journal_inv_def MAX_RECORDS_def)

definition sound_env :: "'w wenv \<Rightarrow> bool" where
  "sound_env env \<longleftrightarrow> fresh_tokens env \<and> 5 \<le> max_workspace_id (wv_limits env)"

lemma loaded_fenced: "K \<subseteq> set (om_keys (jo_reservations j)) \<Longrightarrow> om_ok (jo_reservations j) \<Longrightarrow> fenced_keys K (loaded_journal j)"
  by (fastforce simp: fenced_keys_def loaded_journal_def om_get_mem)

text \<open>Starting: the journal that is loaded accounts for everything that was run before.\<close>

lemma winv_loaded:
  assumes s: "winv C s" "\<not> sv_ready s" and L: "5 \<le> max_workspace_id (sc_limits C)"
    and j: "Journal_load (sc_limits C) (Ok (sv_disk s \<sigma>)) \<sigma> = Ok j"
  shows "winv C (s\<lparr>sv_ready := True, sv_journal := j, sv_poisoned := False, sv_pins_cleaned := False, sv_empty_since := []\<rparr>)"
    and "jo_session j = \<sigma>"
proof -
  have inv: "journal_inv (sc_limits C) j \<and> jo_session j = \<sigma>
      \<and> trace_moves \<sigma> (sv_trace s) \<subseteq># recorded_moves j \<and> (\<sigma> = sc_old_session C \<longrightarrow> fenced_keys (sc_old C) j)"
  proof (cases "sv_disk s \<sigma>")
    case None
    with j have "j = Journal_empty (sc_limits C) \<sigma>" by (simp add: Journal_load_def)
    moreover from s(1) None have "trace_moves \<sigma> (sv_trace s) = {#}" unfolding winv_def by (metis option.case(1) subset_mset.le_zero_eq)
    moreover from s(1) None have "\<sigma> = sc_old_session C \<Longrightarrow> sc_old C = {}" by (auto simp: winv_def)
    ultimately show ?thesis using L journal_inv_empty [OF L, of \<sigma>] by (auto simp: Journal_empty_def fenced_keys_def)
  next
    case (Some f)
    with s(1) have f: "jo_session f = \<sigma>" "journal_inv (sc_limits C) f" by (auto simp: winv_def)
    with j Some have jf: "j = loaded_journal f" by (simp add: Journal_load_valid)
    from s(1) Some have moves: "trace_moves \<sigma> (sv_trace s) \<subseteq># recorded_moves f" unfolding winv_def by (metis option.case(2))
    from s(1) Some have old: "\<sigma> = sc_old_session C \<Longrightarrow> sc_old C \<subseteq> set (om_keys (jo_reservations f))"
      by (cases "sc_old C = {}") (auto simp: winv_def)
    from f(1) have "jo_session (loaded_journal f) = \<sigma>" by (simp add: loaded_journal_def)
    with moves show ?thesis
      using loaded_journal_inv [OF f(2)] old loaded_fenced [OF _ journal_inv_maps [OF f(2)]]
      by (auto simp: jf recorded_moves_loaded)
  qed
  then show "jo_session j = \<sigma>" by simp
  have "running (sv_trace s)" using s by (auto simp: winv_def)
  with s inv show "winv C (s\<lparr>sv_ready := True, sv_journal := j, sv_poisoned := False, sv_pins_cleaned := False, sv_empty_since := []\<rparr>)"
    by (auto simp: winv_def)
qed

lemma rest_frame [simp]:
  "rest C (s\<lparr>sv_world := w\<rparr>) = rest C s" "rest C (s\<lparr>sv_changed := b\<rparr>) = rest C s"
  "rest C (s\<lparr>sv_observers := os\<rparr>) = rest C s" "rest C (s\<lparr>sv_wakes := n, sv_changed := b\<rparr>) = rest C s"
  "rest C (s\<lparr>sv_wakes := n\<rparr>) = rest C s" "rest C (s\<lparr>sv_moved := mv\<rparr>) = rest C s" "rest C (s\<lparr>sv_lost := l\<rparr>) = rest C s"
  by (simp_all add: rest_def synced_def winv_def)

lemma winv_scope [simp]: "winv (C\<lparr>sc_session := \<sigma>\<rparr>) s = winv C s"
  by (simp add: winv_def)

lemma rest_scope [simp]: "rest (C\<lparr>sc_session := \<sigma>\<rparr>) s = rest C s"
  by (simp add: rest_def)

lemma Journal_load_read: "Journal_load L (and_then found (\<lambda>_. Ok file)) \<sigma> = Ok j \<Longrightarrow> Journal_load L (Ok file) \<sigma> = Ok j"
  by (cases found) (simp_all add: Journal_load_def)

lemma initialize_rest:
  fixes env :: "'w wenv"
  assumes s: "rest C s" and L: "wv_limits env = sc_limits C" and max: "5 \<le> max_workspace_id (sc_limits C)"
  shows "case initialize env snapshot s of
      (Inr _, t) \<Rightarrow> live (C\<lparr>sc_session := sn_session snapshot\<rparr>) t
    | (Inl _, t) \<Rightarrow> rest C t"
proof -
  let ?C = "C\<lparr>sc_session := sn_session snapshot\<rparr>"
  define check where "check = (bindE (getE sv_poisoned) (\<lambda>p.
      seqE (ensureE (\<not> p) ''workspace journal unavailable'')
        (bindE (journalE jo_session) (\<lambda>session. ensureE (session = sn_session snapshot) ''compositor session changed''))) :: ('w, unit) weff)"
  have checked: "case check t of (Inr _, u) \<Rightarrow> live ?C u | (Inl _, u) \<Rightarrow> rest C u" if "rest C t" "sv_ready t" for t
    using that by (auto simp: check_def journalE_def eff_defs ensure_def live_def shut_def split: if_splits)
  show ?thesis
  proof (cases "sv_ready s")
    case True
    then show ?thesis
      using checked [OF s True] by (simp add: initialize_def check_def seqE_def bindE_def getE_def returnE_def)
  next
    case False
    define found where "found = fst (wv_read env (sn_session snapshot) (sv_world s))"
    define s1 where "s1 = s\<lparr>sv_world := snd (wv_read env (sn_session snapshot) (sv_world s))\<rparr>"
    have s1: "winv C s1" "\<not> sv_ready s1" "rest C s1" using s False by (auto simp: s1_def rest_def)
    show ?thesis
    proof (cases "wv_runtime_dir env \<and> (\<exists>j. Journal_load (wv_limits env) (and_then found (\<lambda>_. Ok (sv_disk s1 (sn_session snapshot)))) (sn_session snapshot) = Ok j)")
      case no: False
      then have "initialize env snapshot s = (Err (err ''runtime directory required''), s) \<or> (\<exists>e. initialize env snapshot s = (Inl e, s1))"
        using False
        by (cases "wv_runtime_dir env"; cases "Journal_load (wv_limits env) (and_then found (\<lambda>_. Ok (sv_disk s1 (sn_session snapshot)))) (sn_session snapshot)")
          (auto simp: initialize_def eff_defs askE_def found_def s1_def split: prod.splits)
      with s s1 show ?thesis by auto
    next
      case True
      then obtain j where j: "Journal_load (wv_limits env) (and_then found (\<lambda>_. Ok (sv_disk s1 (sn_session snapshot)))) (sn_session snapshot) = Ok j"
        by auto
      define s2 where "s2 = s1\<lparr>sv_ready := True, sv_journal := j, sv_poisoned := False, sv_pins_cleaned := False, sv_empty_since := []\<rparr>"
      have run: "initialize env snapshot s = seqE (save env) check s2"
        using True False j
        by (auto simp: initialize_def check_def eff_defs askE_def found_def s1_def s2_def split: prod.splits sum.splits)
      from winv_loaded [OF s1(1,2) max Journal_load_read [OF j [unfolded L]]]
      have s2: "winv ?C s2" "sv_ready s2" "jo_session (sv_journal s2) = sc_session ?C" "\<not> sv_poisoned s2"
        by (simp_all add: s2_def)
      show ?thesis
      proof (cases "save env s2")
        case (Pair r t)
        show ?thesis
        proof (cases r)
          case (Inl e)
          with save_cases [OF s2, of env] Pair have "rest C t" by (auto dest!: shut_rest)
          with Inl Pair show ?thesis by (simp add: run seqE_def bindE_def)
        next
          case (Inr u)
          with save_cases [OF s2, of env] Pair have "rest C t" "sv_ready t" by (auto dest!: live_shut simp: shut_def)
          from checked [OF this] Inr Pair show ?thesis by (simp add: run seqE_def bindE_def)
        qed
      qed
    qed
  qed
qed

section \<open>Calls, observers and projections\<close>

lemma rest_tri:
  assumes "tri (C\<lparr>sc_session := \<sigma>\<rparr>) top_pred m (\<lambda>_. top_pred)" "live (C\<lparr>sc_session := \<sigma>\<rparr>) s"
  shows "rest C (snd (m s))"
proof -
  have "shut (C\<lparr>sc_session := \<sigma>\<rparr>) (snd (m s))"
    using tri_Ok [OF assms(1,2)] tri_Err [OF assms(1,2)] by (cases "m s"; cases "fst (m s)") (auto dest: live_shut)
  from shut_rest [OF this] show ?thesis by simp
qed

lemma rest_initialized:
  assumes "rest C s" "wv_limits env = sc_limits C" "5 \<le> max_workspace_id (sc_limits C)"
    and "tri (C\<lparr>sc_session := sn_session snapshot\<rparr>) top_pred m (\<lambda>_. top_pred)"
  shows "rest C (snd (seqE (initialize env snapshot) m s))"
  using initialize_rest [OF assms(1-3), of snapshot] rest_tri [OF assms(4)]
  by (auto simp: seqE_def bindE_def split: prod.splits sum.splits)

lemma rest_call:
  assumes s: "rest C s" and env: "sound_env env" "wv_limits env = sc_limits C"
  shows "rest C (snd (call env r s))"
proof -
  have max: "5 \<le> max_workspace_id (sc_limits C)" "fresh_tokens env" using env by (simp_all add: sound_env_def)
  have "rest C (snd (seqE (initialize env snapshot) (handle env snapshot r) (s\<lparr>sv_world := w\<rparr>)))" for snapshot w
    by (rule rest_initialized) (use s env max in \<open>auto intro: tri_handle\<close>)
  with s show ?thesis by (auto simp: call_def bindE_def askE_def split: prod.splits sum.splits)
qed

lemma snd_attempt [simp]: "snd (attemptE m s) = snd (m s)"
  by (simp add: attemptE_def split: prod.split)

lemma rest_dispatch:
  assumes "rest C s" "sound_env env" "wv_limits env = sc_limits C"
  shows "rest C (snd (dispatch env b r s))"
  using rest_call [OF assms, of r]
  by (cases "call env r s") (auto simp: dispatch_def eff_defs notify_changed_def)

lemma snd_bind_return: "snd (bindE m (\<lambda>x. returnE (f x)) s) = snd (m s)"
  by (auto simp: bindE_def returnE_def split: prod.splits sum.splits)

lemma rest_project:
  assumes s: "rest C s" and env: "sound_env env" "wv_limits env = sc_limits C"
  shows "rest C (snd (Service_project env st s))"
proof -
  have max: "5 \<le> max_workspace_id (sc_limits C)" using env by (simp add: sound_env_def)
  have read: "tri D top_pred (journalE f) (\<lambda>_. top_pred)" for D and f :: "Journal \<Rightarrow> View"
    by (simp add: tri_def journalE_def eff_defs)
  have "rest C (snd (seqE (initialize env snapshot) (seqE (cleanup env snapshot) (journalE f)) (s\<lparr>sv_world := w\<rparr>)))"
    for snapshot w and f :: "Journal \<Rightarrow> View"
    by (rule rest_initialized) (use s env max in \<open>auto intro!: tri_keep_seq tri_cleanup read\<close>)
  with s have "rest C (snd (bindE (askE (wv_snapshot env)) (\<lambda>snapshot. seqE (initialize env snapshot)
      (seqE (cleanup env snapshot) (journalE f))) s))" for f :: "Journal \<Rightarrow> View"
    by (auto simp: bindE_def askE_def split: prod.splits sum.splits)
  then show ?thesis by (simp add: Service_project_def snd_bind_return)
qed

lemma live_or_poisoned:
  "rest C s \<Longrightarrow> sv_ready s \<Longrightarrow> \<not> sv_poisoned s \<Longrightarrow> live (C\<lparr>sc_session := jo_session (sv_journal s)\<rparr>) s"
  by (simp add: live_def shut_def)

lemma rest_close_status:
  assumes "rest C s" "sv_ready s" "\<And>c. close_le c (f c)"
  shows "rest C (snd (closeE key f s))"
proof -
  have j: "journal_inv (sc_limits C) (sv_journal s)" using assms by (simp add: rest_def winv_def)
  note new = journal_inv_close [OF j, of key f] and upd = winv_update [of C s]
  have "winv C (s\<lparr>sv_journal := (sv_journal s)\<lparr>jo_closes := om_adjust key f (jo_closes (sv_journal s))\<rparr>\<rparr>)"
    using assms by (intro upd new) (auto simp: rest_def)
  with assms show ?thesis by (simp add: closeE_def updateE_def eff_defs rest_def synced_def)
qed

lemma rest_finish_close:
  assumes s: "rest C s" "sv_ready s" and L: "wv_limits env = sc_limits C"
    and status: "status \<notin> {''dispatching'', ''waiting''}"
  shows "rest C (snd (finish_close env key status snapshot s))"
proof -
  define s1 where "s1 = snd (closeE key (\<lambda>c. c\<lparr>cs_status := status\<rparr>) s)"
  have s1: "rest C s1" unfolding s1_def
    by (rule rest_close_status [OF s]) (use status in \<open>auto simp: close_le_def active_close_def\<close>)
  have ready: "sv_ready s1" "sv_poisoned s1 = sv_poisoned s" using s by (simp_all add: s1_def closeE_def updateE_def eff_defs)
  have run: "finish_close env key status snapshot s = bindE (attemptE (save env)) (\<lambda>saved.
      seqE (case snapshot of Inl _ \<Rightarrow> returnE ()
        | Inr s \<Rightarrow> if is_ok saved then bindE (attemptE (cleanup env s)) (\<lambda>_. returnE ()) else returnE ()) notify_changed) s1"
    by (simp add: finish_close_def seqE_def [of "closeE key f" for f] bindE_def [of "closeE key f" for f] s1_def closeE_def updateE_def eff_defs)
  show ?thesis
  proof (cases "sv_poisoned s1")
    case True
    then have "save env s1 = (Err (err ''workspace journal requires restart after persistence failure''), s1)"
      by (simp add: save_def eff_defs ensure_def)
    with s1 show ?thesis unfolding run by (cases snapshot) (simp_all add: eff_defs notify_changed_def)
  next
    case False
    let ?C = "C\<lparr>sc_session := jo_session (sv_journal s1)\<rparr>"
    have live: "live ?C s1" by (rule live_or_poisoned [OF s1 ready(1) False])
    have saved: "tri ?C top_pred (save env) (\<lambda>_. top_pred)" by (rule tri_save) simp
    have clean: "tri ?C top_pred (cleanup env sn) (\<lambda>_. top_pred)" for sn by (rule tri_cleanup) (simp add: L)
    show ?thesis
    proof (cases "save env s1")
      case (Pair r t)
      have t: "rest C t" using rest_tri [OF saved live] Pair by simp
      show ?thesis
      proof (cases "is_ok r \<and> is_ok snapshot")
        case True
        then obtain u sn where u: "r = Inr u" "snapshot = Inr sn" by (cases r; cases snapshot) auto
        with tri_Ok [OF saved live _ ] Pair have "live ?C t" by auto
        from rest_tri [OF clean this, of sn] have "rest C (snd (cleanup env sn t))" .
        then show ?thesis using Pair u unfolding run by (cases "cleanup env sn t") (simp add: eff_defs notify_changed_def)
      next
        case False
        with t Pair show ?thesis unfolding run by (cases r; cases snapshot) (simp_all add: eff_defs notify_changed_def)
      qed
    qed
  qed
qed

lemma rest_observe_attempt:
  assumes s: "rest C s" and L: "wv_limits env = sc_limits C"
  shows "rest C (snd (observe_attempt env key n s))"
proof (cases "wv_snapshot env (sv_world s)")
  case (Pair r w)
  let ?s = "s\<lparr>sv_world := w\<rparr>"
  from s have "rest C ?s" by simp
  note fin = rest_finish_close [OF this, of env _ key r]
  have after: "rest C (snd (seqE (finish_close env key status r) (returnE b) ?s))"
    if "sv_ready s" "status \<notin> {''dispatching'', ''waiting''}" for status and b :: bool
    using fin [of status] that L by (auto simp: seqE_def bindE_def returnE_def split: prod.splits sum.splits)
  show ?thesis
  proof (cases "if sv_ready s then om_get (jo_closes (sv_journal s)) key else None")
    case None
    with Pair s show ?thesis
      by (cases "sv_ready s") (simp_all add: observe_attempt_def bindE_def attemptE_def askE_def getE_def returnE_def)
  next
    case (Some c)
    then have "sv_ready s" by (simp split: if_splits)
    with Pair s Some after [of "''unknown''"] after [of "''still-open''"] after [of "''closed''"] show ?thesis
      by (simp add: observe_attempt_def bindE_def [of "attemptE m" for m] bindE_def [of "getE f" for f] attemptE_def askE_def getE_def
          returnE_def [of True] Let_def)
  qed
qed

lemma rest_observe:
  assumes "rest C s" "wv_limits env = sc_limits C"
  shows "rest C (observe_close env i s)"
proof (cases "sv_observers s ! i")
  case (Pair key n)
  with rest_observe_attempt [OF assms, of key n] assms(1) show ?thesis
    by (auto simp: observe_close_def Let_def split: prod.splits sum.splits bool.splits)
qed

lemma rest_event: "rest C s \<Longrightarrow> rest C (handoff_event e s)"
  by (cases e) (simp_all add: handoff_event_def)

lemma rest_restart:
  assumes "rest C s"
  shows "rest C (restart writer world s)"
proof -
  have moves: "trace_moves \<sigma> (Restarted # sv_trace s) = trace_moves \<sigma> (sv_trace s)" for \<sigma> by simp
  from assms show ?thesis by (auto simp: rest_def winv_def restart_def)
qed

lemma rest_step:
  assumes "rest C s" "sound_env env" "wv_limits env = sc_limits C"
  shows "rest C (wstep env s x)"
  using assms rest_dispatch [OF assms] rest_project [OF assms]
  by (cases x) (auto simp: wstep_def intro: rest_observe rest_event rest_restart)

definition plain_scope :: "wslimits \<Rightarrow> scope" where
  "plain_scope L = \<lparr>sc_limits = L, sc_session = [], sc_old_session = [], sc_old = {}\<rparr>"

lemma plain_scope_limits [simp]: "sc_limits (plain_scope L) = L"
  by (simp add: plain_scope_def)

lemma rest_boot: "rest (plain_scope L) (wboot writer world)"
  by (simp add: rest_def winv_def wboot_def plain_scope_def)

lemma rest_run:
  assumes "rest C s" "sound_env env" "wv_limits env = sc_limits C"
  shows "rest C (run (wstep env) s xs)"
  using assms(1)
proof (induction xs arbitrary: s)
  case (Cons x xs)
  show ?case using Cons.IH [OF rest_step [OF Cons.prems assms(2,3)]] by simp
qed simp

text \<open>The service is a machine whose invariant every run keeps.\<close>

interpretation workspace: machine "wboot writer world" "wstep env" "\<lambda>s. sound_env env \<longrightarrow> rest (plain_scope (wv_limits env)) s"
  for writer world env
  by unfold_locales (auto simp: rest_boot intro: rest_step)

end
