(* ===== verification/Workspace_Theorems.thy ===== *)
theory Workspace_Theorems
  imports Workspace_Requests
begin

text \<open>
  What the workspace service guarantees: what it runs is written ahead and at most once, what it writes can be read
  again, what it records is answered and never repeated, and workspaces in use are never retired.
\<close>

section \<open>A service to run\<close>

text \<open>One monitor, one window whose workspace is the state of the world, and two requests: a launch and its placement.\<close>

definition demo_limits :: wslimits where
  "demo_limits = \<lparr>max_workspace_id = 100, wire_version = 1, valid_request_id = (\<lambda>k. k \<noteq> []), window_icon = (\<lambda>_ _. None)\<rparr>"

definition demo_snapshot :: "int \<Rightarrow> Snapshot" where
  "demo_snapshot w = \<lparr>sn_session = ''s'', sn_monitors = [\<lparr>mo_name = ''M'', mo_focused = True, mo_active = Some 1\<rparr>],
     sn_workspaces = [\<lparr>lw_id = Some 1, lw_monitor = ''M'', lw_windows = 1, lw_urgent = False\<rparr>],
     sn_windows = [\<lparr>wi_address = ''a'', wi_pid = 7, wi_mapped = True, wi_workspace = Some w, wi_class = ''c'', wi_initial_class = ''c''\<rparr>]\<rparr>"

fun demo_destination :: "cmd \<Rightarrow> int \<Rightarrow> int" where
  "demo_destination (Move_Local _ _ _ dst _) w = dst"
| "demo_destination (Then_Cmd c d) w = demo_destination d (demo_destination c w)"
| "demo_destination _ w = w"

definition demo_env :: "int wenv" where
  "demo_env = \<lparr>wv_limits = demo_limits, wv_enabled = True, wv_runtime_dir = True, wv_snapshot = (\<lambda>w. (Ok (demo_snapshot w), w)),
     wv_build = (\<lambda>_. Ok ()), wv_execute = (\<lambda>c w. (Ok (), demo_destination c w)),
     wv_pinned_snapshot = (\<lambda>_ _ _ w. (Ok (demo_snapshot w), w)), wv_pinned_state = (\<lambda>_ _ _ _ w. (Ok Present, w)),
     wv_read = (\<lambda>_ w. (Ok (), w)), wv_write = (\<lambda>_ w. (Written, w)), wv_encoded_size = (\<lambda>_. 0), wv_fresh = (\<lambda>w. (''e'', w)),
     wv_now = (\<lambda>w. (0, w)), wv_process_start = (\<lambda>_ w. (Some 3, w))\<rparr>"

definition demo_create :: Create where
  "demo_create = \<lparr>cr_request_id = ''k'', cr_context = \<lparr>cx_session = ''s'', cx_monitor = ''M'', cx_workspace_id = 1\<rparr>,
     cr_purpose = Launch, cr_workspace_id = None, cr_origin = ''o'', cr_icon = ''i''\<rparr>"

definition demo_placement :: Placement where
  "demo_placement = \<lparr>pl_lease = \<lparr>le_session = ''s'', le_request_id = ''k'', le_workspace_id = 6, le_generation = ''e''\<rparr>,
     pl_window = \<lparr>wn_address = ''a'', wn_pid = 7, wn_workspace_id = 1\<rparr>, pl_follow = False\<rparr>"

definition demo_ops :: "int wop list" where
  "demo_ops = [Dispatch False (Create_Request demo_create), Dispatch False (Place_Request demo_placement)]"

lemma demo_sound: "sound_env demo_env"
  by (simp add: sound_env_def fresh_tokens_def demo_env_def demo_limits_def PIN_PREFIX_def)

lemmas run_defs = Let_def ok_or_def ensure_def eff_defs worldE_def askE_def journalE_def updateE_def reservationE_def closeE_def handoffE_def entryE_def
  runE_def commandE_def save_def Journal_save_def initialize_def Journal_load_def Journal_empty_def prepare_pins_def notify_changed_def
  wake_after_grace_def validate_context_def find_monitor_def check_lease_def window_at_def has_active_def live_ids_def allocateE_def
  reservation_of_def close_of_def destination_def generation_of_def new_entry_def new_reservation_def record_creation_def create_def
  Journal_admit_def Journal_allocate_def Journal_closing_def call_def handle_def dispatch_def read_method_def wstep_def wboot_def
  JOURNAL_BYTES_def MAX_RECORDS_def valid_workspace_def om_has_def
  demo_limits_def demo_snapshot_def demo_env_def demo_create_def demo_placement_def

lemmas place_defs = map_filter_simps Service_place_def admit_placement_def supersede_handoffs_def Handoff_prepare_def
  excluded_windows_def record_placing_def put_handoff_def placement_expression_def record_placement_def
  follow_placement_def observed_entry_def om_adjust_def MAX_HANDOFFS_def cancel_handoff_def

definition demo_state :: "int wstate" where
  "demo_state = run (wstep demo_env) (wboot ''w'' 1) demo_ops"

lemma demo_moves: "trace_moves ''s'' (sv_trace demo_state) = {#(''a'', 7, 1, 6)#}"
  and demo_disk: "map_option (\<lambda>j. om_keys (jo_reservations j)) (sv_disk demo_state ''s'') = Some [''k'']"
  by (simp_all add: run_defs place_defs demo_state_def demo_ops_def)

text \<open>The same service after a restart and a lookup.\<close>

definition demo_restarted :: "int wstate" where
  "demo_restarted = run (wstep demo_env) (restart ''x'' 6 demo_state) [Dispatch True (Lookup_Request ''s'' ''k'')]"

lemma demo_restarted_ready: "sv_ready demo_restarted \<and> jo_session (sv_journal demo_restarted) = ''s''"
  by (simp add: run_defs place_defs demo_state_def demo_restarted_def demo_ops_def restart_def operation_get_def wire_journal_def
    Journal_check_def entry_valid_def reservation_valid_def handoff_valid_def om_map_def fence_reservation_def keep_manual_def)

lemma effect_steps:
  "bindE (getE f) k s = k (f s) s" "bindE (journalE g) k s = k (g (sv_journal s)) s" "bindE (liftE (Ok x)) k s = k x s"
  "bindE (liftE (Err e)) k' s = (Err e, s)" "seqE (liftE (Err e)) n s = (Err e, s)" "seqE (ensureE True msg) n s = n s"
  "seqE (ensureE False msg) n s = (Err (err msg), s)"
  by (simp_all add: journalE_def eff_defs)

section \<open>Written ahead, at most once, and readable again\<close>

lemma run_rest: "sound_env env \<Longrightarrow> rest (plain_scope (wv_limits env)) (run (wstep env) (wboot writer world) xs)"
  using workspace.inv_run [of env writer world xs] by blast





text \<open>
  C10. Whatever the service has written, a daemon that starts again accepts: the file passes every check of loading, and
  the loaded journal has every lease released, no close in progress and no handoff watching.
\<close>

theorem every_saved_journal_reloads:
  assumes "sound_env env" and j: "sv_disk (run (wstep env) (wboot writer world) xs) \<sigma> = Some j"
  shows "\<exists>l. Journal_load (wv_limits env) (Ok (Some j)) \<sigma> = Ok l \<and> om_keys (jo_reservations l) = om_keys (jo_reservations j)
    \<and> (\<forall>r\<in>set (om_values (jo_reservations l)). rs_released r) \<and> (\<forall>c\<in>set (om_values (jo_closes l)). \<not> active_close c)
    \<and> (\<forall>h\<in>set (om_values (jo_handoffs l)). \<not> ho_watching h)"
proof -
  from run_rest [OF assms(1), of writer world xs] j have "journal_inv (wv_limits env) j" "jo_session j = \<sigma>"
    unfolding rest_def winv_def by auto
  then have "Journal_load (wv_limits env) (Ok (Some j)) \<sigma> = Ok (loaded_journal j)" by (rule Journal_load_valid)
  then show ?thesis by (intro exI [of _ "loaded_journal j"]) (auto simp: loaded_journal_def om_map_def)
qed

theorem every_saved_journal_reloads_witness:
  "\<exists>j l. sv_disk demo_state ''s'' = Some j \<and> Journal_load demo_limits (Ok (Some j)) ''s'' = Ok l
    \<and> om_keys (jo_reservations l) = [''k''] \<and> (\<forall>r\<in>set (om_values (jo_reservations l)). rs_released r)"
proof -
  from demo_disk obtain j where j: "sv_disk demo_state ''s'' = Some j" "om_keys (jo_reservations j) = [''k'']" by auto
  have "wv_limits demo_env = demo_limits" by (simp add: demo_env_def)
  with every_saved_journal_reloads [OF demo_sound j(1) [unfolded demo_state_def]] j show ?thesis by auto
qed

text \<open>
  C11. A lease given out before a restart never places a window again: whatever the restarted daemon then does, a
  placement under a request key its predecessor had recorded is refused, and refusing it touches nothing.
\<close>

theorem old_leases_stay_fenced:
  assumes "sound_env env" and s: "s = run (wstep env) (wboot writer world) xs" and j: "sv_disk s \<sigma> = Some j"
    and k: "om_has k (jo_reservations j)"
    and t: "t = run (wstep env) (restart writer' world' s) ys" "sv_ready t" "jo_session (sv_journal t) = \<sigma>"
    and p: "le_request_id (pl_lease p) = k"
  shows "\<exists>e. Service_place env snapshot p t = (Err e, t)"
proof -
  let ?C = "\<lparr>sc_limits = wv_limits env, sc_session = [], sc_old_session = \<sigma>, sc_old = set (om_keys (jo_reservations j))\<rparr>"
  from run_rest [OF assms(1), of writer world xs] have "rest (plain_scope (wv_limits env)) s" by (simp add: s)
  then have "rest ?C (restart writer' world' s)"
    using j by (auto simp: rest_def winv_def plain_scope_def restart_def)
  then have "rest ?C t" unfolding t by (rule rest_run) (simp_all add: assms(1))
  with t k obtain r where r: "om_get (jo_reservations (sv_journal t)) k = Some r" "rs_released r"
    unfolding rest_def winv_def fenced_keys_def om_has_def by fastforce
  then have "\<exists>e. check_lease (sv_writer t) (sv_journal t) (pl_lease p) True = Err e"
    using p check_lease_Ok [of "sv_writer t" "sv_journal t" "pl_lease p" True]
    by (cases "check_lease (sv_writer t) (sv_journal t) (pl_lease p) True") auto
  then show ?thesis by (auto simp: Service_place_def Let_def effect_steps)
qed

theorem old_leases_stay_fenced_witness:
  "\<exists>e. Service_place demo_env (demo_snapshot 6) demo_placement demo_restarted = (Err e, demo_restarted)"
proof -
  from demo_disk obtain j where j: "sv_disk demo_state ''s'' = Some j" "om_keys (jo_reservations j) = [''k'']" by auto
  have "om_has ''k'' (jo_reservations j)" by (simp add: om_has_def j)
  moreover have "le_request_id (pl_lease demo_placement) = ''k''" by (simp add: demo_placement_def)
  ultimately show ?thesis
    using demo_restarted_ready old_leases_stay_fenced [OF demo_sound demo_state_def j(1) _ demo_restarted_def] by blast
qed

section \<open>Recorded requests\<close>

fun request_key :: "Request \<Rightarrow> string option" where
  "request_key (Create_Request c) = Some (cr_request_id c)"
| "request_key (Close_Request c) = Some (cl_request_id c)"
| "request_key (Command_Request c) = cm_request_id c"
| "request_key _ = None"

definition known_record :: "Journal \<Rightarrow> Reply \<Rightarrow> bool" where
  "known_record j x \<longleftrightarrow> (\<exists>r\<in>set (om_values (jo_reservations j)). x = Reservation_Reply r)
     \<or> (\<exists>c\<in>set (om_values (jo_closes j)). x = Close_Reply c)"

definition answers_only :: "('w, Reply) weff \<Rightarrow> 'w wstate \<Rightarrow> bool" where
  "answers_only m s \<longleftrightarrow> (\<exists>a. m s = (a, s) \<and> (\<forall>x. a = Ok x \<longrightarrow> known_record (sv_journal s) x))"

lemma answers_only_intros:
  "answers_only (throwE e) s" "known_record (sv_journal s) x \<Longrightarrow> answers_only (returnE x) s"
  "(b \<Longrightarrow> answers_only n s) \<Longrightarrow> answers_only (seqE (ensureE b msg) n) s"
  "(\<And>x. r = Ok x \<Longrightarrow> answers_only n s) \<Longrightarrow> answers_only (seqE (liftE r) n) s"
  "(\<And>x. r = Ok x \<Longrightarrow> answers_only (k x) s) \<Longrightarrow> answers_only (bindE (liftE r) k) s"
  "answers_only (k (f (sv_journal s))) s \<Longrightarrow> answers_only (bindE (journalE f) k) s"
  by (cases b; cases r; simp add: answers_only_def eff_defs ensure_def journalE_def)+

lemma om_get_value: "om_get m k = Some v \<Longrightarrow> v \<in> set (om_values m)"
  by (force dest: map_of_SomeD)

lemma answers_only_refused:
  "f (sv_journal s) = Err e \<Longrightarrow> answers_only (seqE (bindE (journalE f) liftE) n) s"
  by (simp add: answers_only_def eff_defs journalE_def)

lemma used_key_refused: "om_has k (jo_reservations j) \<or> om_has k (jo_closes j) \<Longrightarrow> \<exists>e. Journal_admit L k j = Err e"
  using Journal_admit_iff [of L k j "()"] by (cases "Journal_admit L k j") (auto simp: admissible_key_def)

text \<open>
  C12. A request key is good for one effect. A create, close or command request that carries a recorded key is answered
  from the journal or refused, and leaves the whole service as it was: nothing is written, no command is run, no
  identifier is given out, whatever its other parameters say.
\<close>

theorem recorded_requests_change_nothing:
  assumes key: "request_key req = Some k"
    and used: "om_has k (jo_reservations (sv_journal s)) \<or> om_has k (jo_closes (sv_journal s))"
  shows "\<exists>a. handle env snapshot req s = (a, s) \<and> (\<forall>x. a = Ok x \<longrightarrow> known_record (sv_journal s) x)"
proof -
  let ?j = "sv_journal s"
  obtain e where e: "Journal_admit (wv_limits env) k ?j = Err e" using used_key_refused [OF used] by blast
  have known: "om_get (jo_reservations ?j) i = Some r \<Longrightarrow> known_record ?j (Reservation_Reply r)"
    "om_get (jo_closes ?j) i = Some c \<Longrightarrow> known_record ?j (Close_Reply c)" for i r c
    by (auto simp: known_record_def dest: om_get_value)
  have pending: "active_close_of n ?j = Some c \<Longrightarrow> known_record ?j (Close_Reply c)" for n c
    by (auto simp: known_record_def active_close_of_def dest: find_Some_mem)
  have creating: "answers_only (create env snapshot c) s" if "cr_request_id c = k" for c
    unfolding create_def that
    by (intro answers_only_intros)
      (auto split: option.split intro!: answers_only_intros answers_only_refused known simp: e)
  have closing: "answers_only (Service_close env snapshot c) s" if "cl_request_id c = k" for c
    unfolding Service_close_def Let_def that
    by (intro answers_only_intros)
      (auto split: option.split intro!: answers_only_intros answers_only_refused simp: e intro: known pending)
  have commanding: "answers_only (run_command env snapshot c) s" if c: "cm_request_id c = Some k" for c
  proof -
    have "recorded_command c ?j \<noteq> Ok None" "\<And>x. recorded_command c ?j = Ok (Some x) \<Longrightarrow> known_record ?j x"
      using used known by (auto simp: recorded_command_def c om_has_get and_then_Ok_iff split: option.splits)
    then show ?thesis
      unfolding run_command_def
      by (intro answers_only_intros) (auto split: option.split intro!: answers_only_intros)
  qed
  have "answers_only (handle env snapshot req) s"
    using key creating closing commanding by (cases req) (auto simp: handle_def)
  then show ?thesis by (simp add: answers_only_def)
qed

theorem recorded_requests_change_nothing_witness:
  "\<exists>a. handle demo_env (demo_snapshot 6) (Create_Request demo_create) demo_restarted = (a, demo_restarted)"
proof -
  have "om_has ''k'' (jo_reservations (sv_journal demo_restarted))"
    by (simp add: run_defs place_defs demo_state_def demo_restarted_def demo_ops_def restart_def operation_get_def wire_journal_def
      Journal_check_def entry_valid_def reservation_valid_def handoff_valid_def om_map_def fence_reservation_def keep_manual_def)
  moreover have "request_key (Create_Request demo_create) = Some ''k''" by (simp add: demo_create_def)
  ultimately show ?thesis
    using recorded_requests_change_nothing [of "Create_Request demo_create" "''k''" demo_restarted demo_env "demo_snapshot 6"] by blast
qed

section \<open>Workspaces in use\<close>

lemma min_window_fold:
  "fold (\<lambda>w best. case best of None \<Rightarrow> Some w | Some b \<Rightarrow> if wi_address w < wi_address b then Some w else best) ws (Some v) \<noteq> None"
  by (induction ws arbitrary: v) auto

lemma min_window_None: "min_window ws = None \<longleftrightarrow> ws = []"
  using min_window_fold by (cases ws) (simp_all add: min_window_def del: not_None_eq)

text \<open>Effects that leave the journal as it is, and effects that only touch the table of entries without removing one.\<close>

definition keeps_journal :: "('w, 'a) weff \<Rightarrow> bool" where
  "keeps_journal m \<longleftrightarrow> (\<forall>s. sv_journal (snd (m s)) = sv_journal s)"

lemma keeps_journal_intros:
  "keeps_journal (returnE x)" "keeps_journal (throwE e)" "keeps_journal (liftE r)" "keeps_journal (ensureE b msg)"
  "keeps_journal (worldE f)" "keeps_journal (askE g)" "keeps_journal (runE env c)" "keeps_journal (journalE h)"
  "keeps_journal wake_after_grace" "keeps_journal (modifyE (\<lambda>s. s\<lparr>sv_empty_since := es s\<rparr>))" "keeps_journal (getE q)"
  by (simp_all add: keeps_journal_def eff_defs worldE_def askE_def runE_def journalE_def wake_after_grace_def split: prod.split)

lemma keeps_journal_bind: "keeps_journal m \<Longrightarrow> (\<And>x. keeps_journal (k x)) \<Longrightarrow> keeps_journal (bindE m k)"
  and keeps_journal_seq: "keeps_journal m \<Longrightarrow> keeps_journal n \<Longrightarrow> keeps_journal (seqE m n)"
  unfolding keeps_journal_def seqE_def bindE_def by (auto split: prod.splits sum.splits) (metis snd_conv)+

lemma keeps_journal_command: "keeps_journal (commandE env c)"
  unfolding commandE_def by (intro keeps_journal_seq keeps_journal_intros)

lemma keeps_journal_save: "keeps_journal (save env)"
  by (auto simp: keeps_journal_def save_def Journal_save_def eff_defs ensure_def Let_def split: prod.splits sum.splits write_outcome.splits)

lemma keeps_journal_grace: "keeps_journal (still_in_grace env n)"
  unfolding still_in_grace_def
  by (intro keeps_journal_bind keeps_journal_seq keeps_journal_intros) (auto split: option.split intro!: keeps_journal_bind keeps_journal_seq keeps_journal_intros)

lemma preserves_keeps: "keeps_journal m \<Longrightarrow> preserves (\<lambda>s. P (sv_journal s)) m"
  by (simp add: keeps_journal_def preserves_def)

text \<open>Why a workspace may not be retired: it holds windows, it is kept until closed, or a lease on it is pending.\<close>

definition in_use :: "Snapshot \<Rightarrow> int \<Rightarrow> Journal \<Rightarrow> bool" where
  "in_use snapshot n j \<longleftrightarrow> (\<exists>e. om_get (jo_entries j) n = Some e \<and> n \<le> jo_high j
     \<and> (windows_on snapshot n \<noteq> [] \<or> keep_until_closed e \<or> pending_lease n j))"

definition guarded :: "Snapshot \<Rightarrow> int \<Rightarrow> Journal \<Rightarrow> bool" where
  "guarded snapshot n j \<longleftrightarrow> om_ok (jo_entries j) \<and> in_use snapshot n j"

lemma guarded_update:
  assumes "guarded snapshot n j" "om_ok es" "jo_high j \<le> h"
    and "\<And>e. om_get (jo_entries j) n = Some e \<Longrightarrow> \<exists>e'. om_get es n = Some e' \<and> (keep_until_closed e \<longrightarrow> keep_until_closed e')"
  shows "guarded snapshot n (j\<lparr>jo_entries := es, jo_high := h\<rparr>)" "guarded snapshot n (j\<lparr>jo_entries := es\<rparr>)"
  using assms by (fastforce simp: guarded_def in_use_def pending_lease_def)+

lemma guarded_high: "guarded snapshot n j \<Longrightarrow> jo_high j \<le> h \<Longrightarrow> guarded snapshot n (j\<lparr>jo_high := h\<rparr>)"
  by (auto simp: guarded_def in_use_def pending_lease_def)

lemma preserves_updateE: "(\<And>j. P j \<Longrightarrow> P (f j)) \<Longrightarrow> preserves (\<lambda>s. P (sv_journal s)) (updateE f)"
  by (simp add: updateE_def preserves_def eff_defs)

lemma preserves_entryE:
  assumes "\<And>e. keep_until_closed e \<Longrightarrow> keep_until_closed (f e)"
  shows "preserves (\<lambda>s. guarded snapshot n (sv_journal s)) (entryE i f)"
  unfolding entryE_def
  by (rule preserves_updateE) (auto intro!: guarded_update(2) simp: assms, simp add: guarded_def)

lemma Entry_observe_keep: "Entry_observe L lw window e = (b, e') \<Longrightarrow> keep_until_closed e' = keep_until_closed e"
  by (auto simp: Entry_observe_def Let_def split: option.splits if_splits)

lemma preserves_allocateE:
  fixes env :: "'w wenv"
  shows "preserves (\<lambda>s. guarded snapshot n (sv_journal s)) (allocateE env sn)"
proof (rule preservesI)
  fix s :: "'w wstate"
  assume g: "guarded snapshot n (sv_journal s)"
  show "guarded snapshot n (sv_journal (snd (allocateE env sn s)))"
  proof (cases "Journal_allocate (wv_limits env) (live_ids sn) (sv_journal s)")
    case (Inl e)
    with g show ?thesis by (simp add: allocateE_def effect_steps)
  next
    case (Inr p)
    obtain m j' where p: "p = (m, j')" by (cases p)
    have "j' = (sv_journal s)\<lparr>jo_high := m\<rparr>" "jo_high (sv_journal s) \<le> m"
      using Journal_allocate_fresh [OF Inr [unfolded p]] by simp_all
    with g have "guarded snapshot n j'" by (auto intro: guarded_high)
    with Inr p show ?thesis by (simp add: allocateE_def journalE_def updateE_def eff_defs)
  qed
qed

lemma seq_modifyE: "seqE (modifyE f) m s = m (f s)"
  by (simp add: seqE_def bindE_def modifyE_def)

text \<open>What is allocated was never an entry, so inserting it replaces none.\<close>

lemma preserves_fresh_entry:
  fixes env :: "'w wenv"
  shows "preserves (\<lambda>s. guarded snapshot n (sv_journal s)) (bindE (allocateE env sn) (\<lambda>next. bindE (worldE (wv_fresh env)) (\<lambda>g.
     seqE (updateE (\<lambda>j. j\<lparr>jo_entries := om_insert next (fallback_entry m next g) (jo_entries j)\<rparr>)) (seqE (save env) (returnE next)))))"
proof (rule preservesI)
  fix s :: "'w wstate"
  assume g: "guarded snapshot n (sv_journal s)"
  let ?k = "\<lambda>next. bindE (worldE (wv_fresh env)) (\<lambda>g.
     seqE (updateE (\<lambda>j. j\<lparr>jo_entries := om_insert next (fallback_entry m next g) (jo_entries j)\<rparr>)) (seqE (save env) (returnE next)))"
  show "guarded snapshot n (sv_journal (snd (bindE (allocateE env sn) ?k s)))"
  proof (cases "Journal_allocate (wv_limits env) (live_ids sn) (sv_journal s)")
    case (Inl e)
    with g show ?thesis by (simp add: allocateE_def effect_steps journalE_def eff_defs)
  next
    case (Inr p)
    obtain fresh j' where p: "p = (fresh, j')" by (cases p)
    have j': "j' = (sv_journal s)\<lparr>jo_high := fresh\<rparr>" "jo_high (sv_journal s) < fresh"
      using Journal_allocate_fresh [OF Inr [unfolded p]] by simp_all
    with g have g': "guarded snapshot n j'" by (auto intro: guarded_high)
    have ne: "fresh \<noteq> n" using g j'(2) by (auto simp: guarded_def in_use_def)
    have run: "bindE (allocateE env sn) ?k s = ?k fresh (s\<lparr>sv_journal := j'\<rparr>)"
      using Inr p by (simp add: allocateE_def journalE_def updateE_def eff_defs)
    have ins: "guarded snapshot n (j'\<lparr>jo_entries := om_insert fresh e (jo_entries j')\<rparr>)" for e
      using g' ne by (intro guarded_update(2)) (auto simp: guarded_def)
    obtain g w where gw: "wv_fresh env (sv_world s) = (g, w)" by (cases "wv_fresh env (sv_world s)")
    let ?t = "s\<lparr>sv_world := w, sv_journal := j'\<lparr>jo_entries := om_insert fresh (fallback_entry m fresh g) (jo_entries j')\<rparr>\<rparr>"
    have "sv_journal (snd (seqE (save env) (returnE fresh) ?t)) = sv_journal ?t"
      using keeps_journal_seq [OF keeps_journal_save [of env] keeps_journal_intros(1) [of fresh]] by (simp add: keeps_journal_def)
    moreover have "?k fresh (s\<lparr>sv_journal := j'\<rparr>) = seqE (save env) (returnE fresh) ?t"
      by (simp add: bindE_def [of "worldE f" for f] worldE_def gw seq_modifyE updateE_def)
    ultimately show ?thesis using ins by (simp add: run)
  qed
qed

lemma preserves_leave_workspace: "preserves (\<lambda>s. guarded snapshot n (sv_journal s)) (leave_workspace env sn m i)"
  unfolding leave_workspace_def
  by (intro preserves_bindE preserves_seqE preserves_option preserves_keeps preserves_fresh_entry keeps_journal_intros
    keeps_journal_command)

lemma preserves_retire:
  assumes "i \<noteq> n"
  shows "preserves (\<lambda>s. guarded snapshot n (sv_journal s)) (retire env sn a i)"
proof -
  have "preserves (\<lambda>s. guarded snapshot n (sv_journal s)) (updateE (\<lambda>j. j\<lparr>jo_entries := om_remove i (jo_entries j)\<rparr>))"
    using assms by (intro preserves_updateE guarded_update(2)) (auto simp: guarded_def)
  then show ?thesis
    unfolding retire_def
    by (intro preserves_seqE [OF _ preserves_seqE [OF _ preserves_seqE]] preserves_option preserves_leave_workspace)
      (rule preserves_returnE preserves_keeps [OF keeps_journal_intros(10)] | assumption)+
qed

lemma guarded_cleanup_entry:
  assumes g: "guarded snapshot n (sv_journal s)"
  shows "guarded snapshot n (sv_journal (snd (cleanup_entry env snapshot i b s)))"
proof (cases "om_get (jo_entries (sv_journal s)) i")
  case None
  with g show ?thesis by (simp add: cleanup_entry_def Let_def effect_steps ok_or_def)
next
  case (Some e0)
  let ?w = "min_window (windows_on snapshot i)"
  let ?act = "find (\<lambda>m. mo_active m = Some i) (sn_monitors snapshot)"
  obtain ob e where e: "Entry_observe (wv_limits env) (find (\<lambda>w. lw_id w = Some i) (sn_workspaces snapshot)) ?w e0 = (ob, e)"
    by fastforce
  define s1 where "s1 = s\<lparr>sv_journal := (sv_journal s)\<lparr>jo_entries := om_adjust i (\<lambda>_. e) (jo_entries (sv_journal s))\<rparr>\<rparr>"
  have g1: "guarded snapshot n (sv_journal s1)"
    unfolding s1_def using Some Entry_observe_keep [OF e] g
    by (simp, intro guarded_update(2) [OF g _ order_refl]) (auto simp: guarded_def)
  have get1: "om_get (jo_entries (sv_journal s1)) i = Some e" using Some by (simp add: s1_def)
  let ?P = "\<lambda>s. guarded snapshot n (sv_journal s)"
  have landing: "preserves ?P (entryE i (\<lambda>e. e\<lparr>landing_pad := True\<rparr>))" by (rule preserves_entryE) simp
  have pads: "?P (snd (seqE (entryE i (\<lambda>e. e\<lparr>landing_pad := True\<rparr>)) (returnE c) s1))" for c :: bool
    using preservesD [OF preserves_seqE [OF landing preserves_returnE] g1] .
  have wait: "?P (snd (bindE (if x then still_in_grace env i else returnE False) (\<lambda>wait. if wait then returnE c else retire env snapshot ?act i) s1))"
    if "i \<noteq> n" for x c
    by (rule preservesD [where I = ?P, OF _ g1], intro preserves_bindE preserves_if preserves_retire [OF that] preserves_keeps
      keeps_journal_grace keeps_journal_intros)
  have window: "?P (snd (seqE (modifyE (\<lambda>s. s\<lparr>sv_empty_since := om_remove i (sv_empty_since s)\<rparr>)) (returnE c) s1))" for c :: bool
    using preservesD [where I = ?P, OF preserves_seqE [OF preserves_keeps [OF keeps_journal_intros(10)] preserves_returnE] g1] .
  have own: "windows_on snapshot i \<noteq> [] \<or> keep_until_closed e \<or> pending_lease i (sv_journal s1)" if "i = n"
    using g1 get1 that by (auto simp: guarded_def in_use_def)
  have entry: "seqE (entryE i (\<lambda>_. e)) m s = m s1" for m :: "('a, bool) weff"
    by (simp add: entryE_def updateE_def eff_defs s1_def)
  have run: "cleanup_entry env snapshot i b s =
    (if windows_on snapshot i \<noteq> [] then seqE (modifyE (\<lambda>s. s\<lparr>sv_empty_since := om_remove i (sv_empty_since s)\<rparr>)) (returnE (b \<or> ob))
     else if Journal_closing (sv_journal s) i \<or> pending_lease i (sv_journal s1) then
       (if \<not> Journal_closing (sv_journal s) i \<and> \<not> landing_pad e \<and> \<not> en_occupied e \<and> ?act \<noteq> None
        then seqE (entryE i (\<lambda>e. e\<lparr>landing_pad := True\<rparr>)) (returnE True) else returnE (b \<or> ob))
     else if keep_until_closed e \<or> (landing_pad e \<and> \<not> en_occupied e \<and> ?act \<noteq> None) then returnE (b \<or> ob)
     else bindE (if en_occupied e \<and> \<not> explicitly_closed i (sv_journal s1) then still_in_grace env i else returnE False)
       (\<lambda>wait. if wait then returnE (b \<or> ob) else retire env snapshot ?act i)) s1"
    by (simp add: cleanup_entry_def Let_def effect_steps ok_or_def Some e entry min_window_None del: not_None_eq)
  show ?thesis
    unfolding run using own g1 window pads wait by (cases "i = n") (auto simp: returnE_def split: if_splits)
qed

lemma guarded_fold:
  "guarded snapshot n (sv_journal s) \<Longrightarrow> guarded snapshot n (sv_journal (snd (foldE (cleanup_entry env snapshot) ids b s)))"
proof (induction ids arbitrary: b s)
  case Nil
  then show ?case by (simp add: returnE_def)
next
  case (Cons i ids)
  from guarded_cleanup_entry [OF Cons.prems] Cons.IH show ?case
    by (auto simp: bindE_def split: prod.split sum.split) (metis snd_conv)+
qed

lemma in_use_has: "in_use snapshot n j \<Longrightarrow> om_has n (jo_entries j)"
  by (auto simp: in_use_def om_has_get)

text \<open>
  C13. Cleaning up never takes away a workspace in use: whatever other workspaces a pass retires, focuses or creates,
  and wherever it fails, an entry that holds windows, that the user keeps until it is closed, or that a pending lease
  points to is still an entry afterwards and still in use.
\<close>

theorem cleanup_keeps_workspaces_in_use:
  assumes "om_ok (jo_entries (sv_journal s))" and "in_use snapshot n (sv_journal s)"
  shows "om_has n (jo_entries (sv_journal (snd (foldE (cleanup_entry env snapshot) ids b s))))
    \<and> in_use snapshot n (sv_journal (snd (foldE (cleanup_entry env snapshot) ids b s)))"
  using guarded_fold [of snapshot n s env ids b] assms by (auto simp: guarded_def intro: in_use_has)

lemma demo_in_use: "om_ok (jo_entries (sv_journal demo_state)) \<and> in_use (demo_snapshot 6) 6 (sv_journal demo_state)"
  by (simp add: run_defs place_defs demo_state_def demo_ops_def in_use_def windows_on_def om_ok_def)

theorem cleanup_keeps_workspaces_in_use_witness:
  "om_has 6 (jo_entries (sv_journal (snd (foldE (cleanup_entry demo_env (demo_snapshot 6)) [6] False demo_state))))"
  using cleanup_keeps_workspaces_in_use [of demo_state "demo_snapshot 6" 6 demo_env "[6]" False] demo_in_use by blast

end
