(* ===== verification/Charge_Policy.thy ===== *)
theory Charge_Policy
  imports Battery Ordered_Map
begin

text \<open>
  The charge policy of the batteries: configuration and runtime records (\<open>battery/config.rs\<close>), and the privileged
  helper that writes the kernel's charge attributes (\<open>battery/helper.rs\<close>) with the client that calls it. What the
  kernel, polkit, the message bus, the clock and the disk answer comes from the functions of \<open>chenv\<close>, each free to
  answer anything at every call.
\<close>

section \<open>Configuration\<close>

definition valid_thresholds :: "nat \<Rightarrow> nat \<Rightarrow> bool" where
  "valid_thresholds s e \<longleftrightarrow> s < e \<and> e \<le> 100"

definition validate_battery_id :: "string \<Rightarrow> unit result" where
  "validate_battery_id battery =
     (if \<not> starts_with ''BAT'' battery then Err (err (''battery id '' @ battery @ '' must start with BAT''))
      else ensure (drop 3 battery \<noteq> [] \<and> list_all ascii_digit (drop 3 battery)) ''battery id must match BAT followed by digits'')"

record BatteryDeviceConfig =
  dc_manage_thresholds :: bool
  dc_protection_enabled :: bool
  dc_start_percent :: nat
  dc_end_percent :: nat
  dc_accepted_start :: "nat option"
  dc_accepted_end :: "nat option"

definition BatteryDeviceConfig_default :: BatteryDeviceConfig where
  "BatteryDeviceConfig_default = \<lparr>dc_manage_thresholds = False, dc_protection_enabled = False, dc_start_percent = 75,
     dc_end_percent = 80, dc_accepted_start = None, dc_accepted_end = None\<rparr>"

record BatteryConfig =
  bc_warning_percent :: nat
  bc_critical_percent :: nat
  bc_notify_when_full :: bool
  bc_auto_power_saver :: bool
  bc_notify_warning :: bool
  bc_notify_critical :: bool
  bc_warning_profile :: "BatteryProfileAction option"
  bc_critical_profile :: "BatteryProfileAction option"
  bc_manage_thresholds :: bool
  bc_protection_enabled :: bool
  bc_start_percent :: nat
  bc_end_percent :: nat
  bc_devices :: "(string, BatteryDeviceConfig) omap"

definition BatteryConfig_default :: BatteryConfig where
  "BatteryConfig_default = \<lparr>bc_warning_percent = 25, bc_critical_percent = 12, bc_notify_when_full = True,
     bc_auto_power_saver = True, bc_notify_warning = True, bc_notify_critical = True, bc_warning_profile = None,
     bc_critical_profile = None, bc_manage_thresholds = False, bc_protection_enabled = False, bc_start_percent = 75,
     bc_end_percent = 80, bc_devices = []\<rparr>"

definition legacy_profile :: "BatteryConfig \<Rightarrow> BatteryProfileAction" where
  "legacy_profile self = (if bc_auto_power_saver self then PowerSaver else KeepCurrent)"

definition config_warning_profile :: "BatteryConfig \<Rightarrow> BatteryProfileAction" where
  "config_warning_profile self = unwrap_or (legacy_profile self) (bc_warning_profile self)"

definition config_critical_profile :: "BatteryConfig \<Rightarrow> BatteryProfileAction" where
  "config_critical_profile self = unwrap_or (legacy_profile self) (bc_critical_profile self)"

definition BatteryConfig_policy :: "BatteryConfig \<Rightarrow> BatteryPolicyState" where
  "BatteryConfig_policy self =
     (let warning = config_warning_profile self; critical = config_critical_profile self in
      \<lparr>warning_percent = bc_warning_percent self, critical_percent = bc_critical_percent self,
       notify_warning = bc_notify_warning self, notify_critical = bc_notify_critical self,
       warning_profile = warning, critical_profile = critical, recovery_margin_percent = RECOVERY_MARGIN,
       notify_when_full = bc_notify_when_full self,
       auto_power_saver = (BatteryProfileAction_profile warning \<noteq> None \<or> BatteryProfileAction_profile critical \<noteq> None)\<rparr>)"

definition desired_thresholds :: "BatteryDeviceConfig \<Rightarrow> nat \<times> nat" where
  "desired_thresholds self = (if dc_protection_enabled self then (dc_start_percent self, dc_end_percent self) else (0, 100))"

definition BatteryDeviceConfig_validate :: "BatteryDeviceConfig \<Rightarrow> unit result" where
  "BatteryDeviceConfig_validate self =
     and_then (ensure (valid_thresholds (dc_start_percent self) (dc_end_percent self))
       ''protection thresholds must satisfy 0 <= start < end <= 100'') (\<lambda>_.
     ensure ((dc_accepted_start self = None) = (dc_accepted_end self = None))
       ''accepted reported thresholds must both be present or absent'')"

fun validate_devices :: "(string, BatteryDeviceConfig) omap \<Rightarrow> unit result" where
  "validate_devices [] = Ok ()"
| "validate_devices ((battery, device) # devices) =
     and_then (validate_battery_id battery) (\<lambda>_.
     and_then (BatteryDeviceConfig_validate device) (\<lambda>_. validate_devices devices))"

definition BatteryConfig_validate :: "BatteryConfig \<Rightarrow> unit result" where
  "BatteryConfig_validate self =
     and_then (ensure (\<not> (bc_critical_percent self > bc_warning_percent self \<or> bc_warning_percent self > 100))
       ''alert percentages must satisfy 0 <= critical <= warning <= 100'') (\<lambda>_.
     and_then (ensure (valid_thresholds (bc_start_percent self) (bc_end_percent self))
       ''protection thresholds must satisfy 0 <= start < end <= 100'') (\<lambda>_.
     validate_devices (bc_devices self)))"

text \<open>A battery without an entry of its own inherits the settings of old configuration files.\<close>

definition BatteryConfig_device :: "string \<Rightarrow> BatteryConfig \<Rightarrow> BatteryDeviceConfig" where
  "BatteryConfig_device battery self =
     unwrap_or (BatteryDeviceConfig_default\<lparr>dc_manage_thresholds := bc_manage_thresholds self,
         dc_protection_enabled := bc_protection_enabled self, dc_start_percent := bc_start_percent self,
         dc_end_percent := bc_end_percent self\<rparr>)
       (om_get (bc_devices self) battery)"

definition device_mut :: "string \<Rightarrow> (BatteryDeviceConfig \<Rightarrow> BatteryDeviceConfig) \<Rightarrow> BatteryConfig \<Rightarrow> BatteryConfig" where
  "device_mut battery f self =
     self\<lparr>bc_devices := om_insert battery (f (BatteryConfig_device battery self)) (bc_devices self)\<rparr>"

section \<open>Runtime state\<close>

datatype OperationKind = No_Operation | Inhibit | Calibration

fun OperationKind_as_str :: "OperationKind \<Rightarrow> string" where
  "OperationKind_as_str No_Operation = []"
| "OperationKind_as_str Inhibit = ''inhibit''"
| "OperationKind_as_str Calibration = ''calibration''"

datatype OperationPhase = No_Phase | Paused | Discharging | Charging | Restoring

fun OperationPhase_as_str :: "OperationPhase \<Rightarrow> string" where
  "OperationPhase_as_str No_Phase = []"
| "OperationPhase_as_str Paused = ''paused''"
| "OperationPhase_as_str Discharging = ''discharging''"
| "OperationPhase_as_str Charging = ''charging''"
| "OperationPhase_as_str Restoring = ''restoring''"

record BatteryRuntimeState =
  rn_uncertain :: "string list"
  rn_charge_once_active :: bool
  rn_charge_once_battery :: string
  rn_charge_once_started :: nat
  rn_charge_once_expires :: nat
  rn_restore_start :: "nat option"
  rn_restore_end :: "nat option"
  rn_operation :: OperationKind
  rn_operation_battery :: string
  rn_operation_phase :: OperationPhase
  rn_operation_started :: nat
  rn_operation_expires :: nat
  rn_operation_restore_start :: "nat option"
  rn_operation_restore_end :: "nat option"

definition BatteryRuntimeState_default :: BatteryRuntimeState where
  "BatteryRuntimeState_default =
     \<lparr>rn_uncertain = [], rn_charge_once_active = False, rn_charge_once_battery = [], rn_charge_once_started = 0,
      rn_charge_once_expires = 0, rn_restore_start = None, rn_restore_end = None, rn_operation = No_Operation,
      rn_operation_battery = [], rn_operation_phase = No_Phase, rn_operation_started = 0, rn_operation_expires = 0,
      rn_operation_restore_start = None, rn_operation_restore_end = None\<rparr>"

text \<open>One day and two days, in milliseconds.\<close>

definition CHARGE_ONCE_MAX_AGE :: nat where "CHARGE_ONCE_MAX_AGE = 86400000"

definition CALIBRATION_MAX_AGE :: nat where "CALIBRATION_MAX_AGE = 172800000"

definition start_charge_once :: "nat \<Rightarrow> string \<Rightarrow> nat \<Rightarrow> nat \<Rightarrow> BatteryRuntimeState" where
  "start_charge_once now battery s e =
     BatteryRuntimeState_default\<lparr>rn_charge_once_active := True, rn_charge_once_battery := battery,
       rn_charge_once_started := now, rn_charge_once_expires := saturating_add_u64 now CHARGE_ONCE_MAX_AGE,
       rn_restore_start := Some s, rn_restore_end := Some e\<rparr>"

definition charge_once_targets :: "string \<Rightarrow> BatteryRuntimeState \<Rightarrow> bool" where
  "charge_once_targets battery self \<longleftrightarrow>
     rn_charge_once_active self \<and> (rn_charge_once_battery self = [] \<or> rn_charge_once_battery self = battery)"

definition charge_once_expired :: "nat \<Rightarrow> BatteryRuntimeState \<Rightarrow> bool" where
  "charge_once_expired now self \<longleftrightarrow> rn_charge_once_active self \<and> rn_charge_once_expires self \<noteq> 0 \<and> now \<ge> rn_charge_once_expires self"

definition start_inhibit :: "nat \<Rightarrow> string \<Rightarrow> BatteryRuntimeState" where
  "start_inhibit now battery =
     BatteryRuntimeState_default\<lparr>rn_operation := Inhibit, rn_operation_battery := battery, rn_operation_phase := Paused,
       rn_operation_started := now\<rparr>"

definition start_calibration :: "nat \<Rightarrow> string \<Rightarrow> nat \<Rightarrow> nat \<Rightarrow> BatteryRuntimeState" where
  "start_calibration now battery s e =
     BatteryRuntimeState_default\<lparr>rn_operation := Calibration, rn_operation_battery := battery,
       rn_operation_phase := Discharging, rn_operation_started := now,
       rn_operation_expires := saturating_add_u64 now CALIBRATION_MAX_AGE,
       rn_operation_restore_start := Some s, rn_operation_restore_end := Some e\<rparr>"

definition has_durable_operation :: "BatteryRuntimeState \<Rightarrow> bool" where
  "has_durable_operation self \<longleftrightarrow> rn_charge_once_active self \<or> rn_operation self \<noteq> No_Operation"

definition operation_expired :: "nat \<Rightarrow> BatteryRuntimeState \<Rightarrow> bool" where
  "operation_expired now self \<longleftrightarrow> rn_operation self \<noteq> No_Operation \<and> rn_operation_expires self \<noteq> 0 \<and> now \<ge> rn_operation_expires self"

definition clear_operation :: "BatteryRuntimeState \<Rightarrow> BatteryRuntimeState" where
  "clear_operation self =
     self\<lparr>rn_operation := No_Operation, rn_operation_battery := [], rn_operation_phase := No_Phase,
       rn_operation_started := 0, rn_operation_expires := 0, rn_operation_restore_start := None,
       rn_operation_restore_end := None\<rparr>"

definition complete_calibration_restoration :: "nat \<Rightarrow> nat \<Rightarrow> bool \<Rightarrow> BatteryRuntimeState \<Rightarrow> BatteryRuntimeState result" where
  "complete_calibration_restoration s e verified self =
     and_then (ensure (rn_operation self = Calibration) ''no calibration to restore'') (\<lambda>_.
     and_then (ensure (verified \<and> (Some s, Some e) = (rn_operation_restore_start self, rn_operation_restore_end self))
       (''battery '' @ rn_operation_battery self @ '' reported thresholds '' @ show_nat s @ ''-'' @ show_nat e
          @ '' after calibration restoration; recovery remains pending'')) (\<lambda>_.
     Ok (clear_operation self)))"

end
