(* ===== verification/Charge_Helper.thy ===== *)
theory Charge_Helper
  imports Charge_Policy
begin

text \<open>
  The privileged battery helper and its client: \<open>battery/helper.rs\<close>. What the kernel's charge attributes, polkit, the
  message bus, the clock and the disk answer comes from the functions of \<open>chenv\<close>, each free to answer anything at
  every call; so is what happens to them in between.
\<close>

section \<open>The world\<close>

datatype hcall = Set_Thresholds string nat nat | Set_Behaviour string string

fun call_battery :: "hcall \<Rightarrow> string" where
  "call_battery (Set_Thresholds b s e) = b"
| "call_battery (Set_Behaviour b x) = b"

record ThresholdWriteResult =
  actual_start_percent :: nat
  actual_end_percent :: nat
  tw_verified :: bool

datatype hvalue = Thresholds_Set ThresholdWriteResult | Behaviour_Set string

text \<open>What the helper learns about its caller: its name, the authority, the authority's answer, whether it is still there.\<close>

datatype polkit = Expired_Or_Lost | Polkit_Failed string | Polkit_Answer bool

record caller =
  ca_sender :: "string option"
  ca_proxy :: "unit result"
  ca_polkit :: polkit
  ca_present :: "bool result"

text \<open>
  How a call to the helper goes: no connection to send it on, no answer although the helper did or did not process it
  (the client gives up when it is cancelled or out of time), or the helper's answer.
\<close>

datatype transport = Unreachable error | No_Answer bool | Answered

datatype save_outcome = Saved | Saved_But error | Not_Saved error

record 'w chenv =
  ch_load_config :: "'w \<Rightarrow> unit result \<times> 'w"
  ch_load_runtime :: "'w \<Rightarrow> unit result \<times> 'w"
  ch_write_config :: "'w \<Rightarrow> save_outcome \<times> 'w"
  ch_write_runtime :: "'w \<Rightarrow> save_outcome \<times> 'w"
  ch_unix_ms :: "'w \<Rightarrow> nat \<times> 'w"
  ch_cancelled :: "'w \<Rightarrow> bool \<times> 'w"
  ch_transport :: "hcall \<Rightarrow> 'w \<Rightarrow> transport \<times> 'w"
  ch_caller :: "hcall \<Rightarrow> bool \<Rightarrow> 'w \<Rightarrow> caller \<times> 'w"
  ch_read_attr :: "string \<Rightarrow> string \<Rightarrow> 'w \<Rightarrow> string result \<times> 'w"
  ch_write_attr :: "string \<Rightarrow> string \<Rightarrow> string \<Rightarrow> 'w \<Rightarrow> unit result \<times> 'w"
  ch_is_file :: "string \<Rightarrow> string \<Rightarrow> 'w \<Rightarrow> bool \<times> 'w"
  ch_read_state :: "'w \<Rightarrow> BatteryState result \<times> 'w"

text \<open>
  The two files (absent at first), the last published battery state, the alert tracker, the profiles of the power
  profile service as last published (none while it is unavailable), whether the request runs in an interactive
  operation, and what happened, newest first: attributes written, helper calls sent and their outcomes, files replaced.
\<close>

datatype charge_event =
    Wrote_Attr string string string
  | Called hcall "hvalue result"
  | Saved_Runtime BatteryRuntimeState
  | Saved_Config BatteryConfig
  | Alerted BatteryAlert

record 'w chstate =
  bs_world :: 'w
  bs_config :: "BatteryConfig option"
  bs_runtime :: "BatteryRuntimeState option"
  bs_published :: BatteryState
  bs_alerts :: AlertTracker
  bs_profiles :: "string list option"
  bs_interactive :: bool
  bs_trace :: "charge_event list"

type_synonym ('w, 'a) ceff = "('w chstate, 'a) eff"

definition askC :: "('w \<Rightarrow> 'a result \<times> 'w) \<Rightarrow> ('w, 'a) ceff" where
  "askC f s = (case f (bs_world s) of (r, w) \<Rightarrow> (r, s\<lparr>bs_world := w\<rparr>))"

definition worldC :: "('w \<Rightarrow> 'a \<times> 'w) \<Rightarrow> ('w, 'a) ceff" where
  "worldC f s = (case f (bs_world s) of (x, w) \<Rightarrow> (Ok x, s\<lparr>bs_world := w\<rparr>))"

definition noteC :: "charge_event \<Rightarrow> ('w, unit) ceff" where
  "noteC e = modifyE (\<lambda>s. s\<lparr>bs_trace := e # bs_trace s\<rparr>)"

section \<open>Files\<close>

text \<open>A missing file reads as the default.\<close>

definition load_runtime :: "'w chenv \<Rightarrow> ('w, BatteryRuntimeState) ceff" where
  "load_runtime env = seqE (askC (ch_load_runtime env)) (getE (\<lambda>s. unwrap_or BatteryRuntimeState_default (bs_runtime s)))"

definition load_config :: "'w chenv \<Rightarrow> ('w, BatteryConfig) ceff" where
  "load_config env =
     seqE (askC (ch_load_config env))
     (bindE (getE (\<lambda>s. unwrap_or BatteryConfig_default (bs_config s))) (\<lambda>config.
      seqE (liftE (BatteryConfig_validate config)) (returnE config)))"

text \<open>A write may fail after the file was replaced already.\<close>

definition save_runtime :: "'w chenv \<Rightarrow> BatteryRuntimeState \<Rightarrow> ('w, unit) ceff" where
  "save_runtime env runtime =
     (let replaced = seqE (modifyE (\<lambda>s. s\<lparr>bs_runtime := Some runtime\<rparr>)) (noteC (Saved_Runtime runtime)) in
      bindE (worldC (ch_write_runtime env)) (\<lambda>outcome. case outcome of
         Saved \<Rightarrow> replaced
       | Saved_But e \<Rightarrow> seqE replaced (throwE e)
       | Not_Saved e \<Rightarrow> throwE e))"

definition save_config :: "'w chenv \<Rightarrow> BatteryConfig \<Rightarrow> ('w, unit) ceff" where
  "save_config env config =
     (let replaced = seqE (modifyE (\<lambda>s. s\<lparr>bs_config := Some config\<rparr>)) (noteC (Saved_Config config)) in
      seqE (liftE (BatteryConfig_validate config))
      (bindE (worldC (ch_write_config env)) (\<lambda>outcome. case outcome of
         Saved \<Rightarrow> replaced
       | Saved_But e \<Rightarrow> seqE replaced (throwE e)
       | Not_Saved e \<Rightarrow> throwE e)))"

section \<open>Attribute texts\<close>

definition parse_u8 :: "string \<Rightarrow> nat option" where
  "parse_u8 s =
     (let digits = (case s of [] \<Rightarrow> [] | c # cs \<Rightarrow> if c = CHR ''+'' then cs else s);
          v = foldl (\<lambda>v c. 10 * v + (of_char c - 48)) 0 digits in
      if digits = [] \<or> \<not> list_all ascii_digit digits \<or> v > 255 then None else Some v)"

text \<open>Words between white space; the first argument bounds the recursion by the length of the text.\<close>

fun words_of :: "nat \<Rightarrow> string \<Rightarrow> string \<Rightarrow> string list" where
  "words_of 0 word s = []"
| "words_of (Suc n) word [] = (if word = [] then [] else [rev word])"
| "words_of (Suc n) word (c # cs) =
     (case find (\<lambda>p. starts_with p (c # cs)) ws_strings of
        Some p \<Rightarrow> (if word = [] then [] else [rev word]) @ words_of n [] (drop (length p) (c # cs))
      | None \<Rightarrow> words_of n (c # word) cs)"

definition split_whitespace :: "string \<Rightarrow> string list" where
  "split_whitespace s = words_of (Suc (length s)) [] s"

definition is_bracket :: "char \<Rightarrow> bool" where
  "is_bracket c \<longleftrightarrow> c = CHR ''['' \<or> c = CHR '']''"

definition trim_brackets :: "string \<Rightarrow> string" where
  "trim_brackets s = rev (dropWhile is_bracket (rev (dropWhile is_bracket s)))"

definition bracketed :: "string \<Rightarrow> bool" where
  "bracketed s \<longleftrightarrow> s \<noteq> [] \<and> hd s = CHR ''['' \<and> last s = CHR '']''"

definition parse_choices :: "string \<Rightarrow> (string \<times> string list) result" where
  "parse_choices contents =
     (let choices = filter (\<lambda>v. v \<noteq> []) (map trim_brackets (split_whitespace contents));
          selected = (case find bracketed (split_whitespace contents) of
            Some v \<Rightarrow> Some (trim_brackets v)
          | None \<Rightarrow> if length choices = 1 then Some (choices ! 0) else None) in
      map_sum id (\<lambda>v. (v, choices)) (ok_or ''charge_behaviour does not identify its selected value'' selected))"

section \<open>The helper\<close>

definition START :: string where "START = ''charge_control_start_threshold''"

definition END :: string where "END = ''charge_control_end_threshold''"

definition BEHAVIOUR :: string where "BEHAVIOUR = ''charge_behaviour''"

definition attr_path :: "string \<Rightarrow> string \<Rightarrow> string" where
  "attr_path battery attr = ''/sys/class/power_supply/'' @ battery @ ''/'' @ attr"

definition read_percent :: "'w chenv \<Rightarrow> string \<Rightarrow> string \<Rightarrow> ('w, nat) ceff" where
  "read_percent env battery attr =
     bindE (contextE (''read '' @ attr_path battery attr) (askC (ch_read_attr env battery attr))) (\<lambda>contents.
     bindE (liftE (ok_or (''parse '' @ attr_path battery attr) (parse_u8 (trim contents)))) (\<lambda>v.
     seqE (ensureE (v \<le> 100) (attr_path battery attr @ '' contains an invalid percentage''))
       (returnE v)))"

definition write_attr :: "'w chenv \<Rightarrow> string \<Rightarrow> string \<Rightarrow> string \<Rightarrow> ('w, unit) ceff" where
  "write_attr env battery attr v =
     contextE (''write '' @ attr_path battery attr)
       (seqE (askC (ch_write_attr env battery attr v)) (noteC (Wrote_Attr battery attr v)))"

definition write_percent :: "'w chenv \<Rightarrow> string \<Rightarrow> string \<Rightarrow> nat \<Rightarrow> ('w, unit) ceff" where
  "write_percent env battery attr v = write_attr env battery attr (show_nat v)"

definition battery_directory :: "'w chenv \<Rightarrow> string \<Rightarrow> ('w, unit) ceff" where
  "battery_directory env battery =
     seqE (liftE (validate_battery_id battery))
     (bindE (contextE (''read battery type for '' @ battery) (askC (ch_read_attr env battery ''type''))) (\<lambda>kind.
      ensureE (trim kind = ''Battery'') (''power supply '' @ battery @ '' is not a battery'')))"

definition threshold_directory :: "'w chenv \<Rightarrow> string \<Rightarrow> ('w, unit) ceff" where
  "threshold_directory env battery =
     seqE (battery_directory env battery)
     (forE (\<lambda>attr. bindE (worldC (ch_is_file env battery attr)) (\<lambda>b.
        ensureE b (''battery '' @ battery @ '' does not support '' @ attr))) [START, END])"

definition get_thresholds :: "'w chenv \<Rightarrow> string \<Rightarrow> ('w, nat \<times> nat) ceff" where
  "get_thresholds env battery =
     seqE (threshold_directory env battery)
     (bindE (read_percent env battery START) (\<lambda>s. bindE (read_percent env battery END) (\<lambda>e. returnE (s, e))))"

text \<open>The two attributes in the order of writing, their values, and the old value of the first.\<close>

definition write_order :: "nat \<Rightarrow> nat \<Rightarrow> nat \<Rightarrow> nat \<Rightarrow> (string \<times> nat \<times> nat) \<times> string \<times> nat" where
  "write_order s e current_start current_end =
     (if s \<ge> current_end then ((END, e, current_end), START, s) else ((START, s, current_start), END, e))"

text \<open>Both writes, the first taken back when the second fails, and what the kernel then shows.\<close>

definition write_thresholds :: "'w chenv \<Rightarrow> string \<Rightarrow> nat \<Rightarrow> nat \<Rightarrow> nat \<Rightarrow> nat \<Rightarrow> ('w, ThresholdWriteResult) ceff" where
  "write_thresholds env battery s e current_start current_end =
     (case write_order s e current_start current_end of ((attr1, v1, old), attr2, v2) \<Rightarrow>
      seqE (write_percent env battery attr1 v1)
      (bindE (attemptE (write_percent env battery attr2 v2)) (\<lambda>second. case second of
         Inl failure \<Rightarrow>
           bindE (attemptE (write_percent env battery attr1 old)) (\<lambda>rollback. case rollback of
             Inr _ \<Rightarrow> throwE (Msg ''second threshold write failed; first write rolled back'' # failure)
           | Inl e' \<Rightarrow> throwE (Msg (''second threshold write failed and rollback also failed: '' @ err_to_string e') # failure))
       | Inr _ \<Rightarrow>
           bindE (get_thresholds env battery) (\<lambda>actual.
           returnE \<lparr>actual_start_percent = fst actual, actual_end_percent = snd actual,
             tw_verified = (actual = (s, e))\<rparr>))))"

definition writer_set_thresholds :: "'w chenv \<Rightarrow> string \<Rightarrow> nat \<Rightarrow> nat \<Rightarrow> ('w, ThresholdWriteResult) ceff" where
  "writer_set_thresholds env battery s e =
     seqE (ensureE (valid_thresholds s e) ''thresholds must satisfy 0 <= start < end <= 100'')
     (seqE (threshold_directory env battery)
     (bindE (read_percent env battery START) (\<lambda>current_start.
      bindE (read_percent env battery END) (\<lambda>current_end.
      if (current_start, current_end) = (s, e) then
        returnE \<lparr>actual_start_percent = s, actual_end_percent = e, tw_verified = True\<rparr>
      else write_thresholds env battery s e current_start current_end))))"

definition writer_set_behaviour :: "'w chenv \<Rightarrow> string \<Rightarrow> string \<Rightarrow> ('w, string) ceff" where
  "writer_set_behaviour env battery behaviour =
     seqE (ensureE (behaviour \<in> {''auto'', ''inhibit-charge'', ''inhibit-charge-awake'', ''force-discharge''})
       (''unsupported charge behaviour: '' @ behaviour))
     (seqE (battery_directory env battery)
     (bindE (askC (ch_read_attr env battery BEHAVIOUR)) (\<lambda>contents.
      bindE (liftE (parse_choices contents)) (\<lambda>(_, available).
      seqE (ensureE (behaviour \<in> set available)
        (''battery '' @ battery @ '' does not support charge behaviour '' @ behaviour))
      (seqE (write_attr env battery BEHAVIOUR behaviour)
      (bindE (askC (ch_read_attr env battery BEHAVIOUR)) (\<lambda>contents.
       bindE (liftE (parse_choices contents)) (\<lambda>(actual, _).
       seqE (ensureE (actual = behaviour)
         (''battery '' @ battery @ '' reported charge behaviour '' @ actual @ '' after requesting '' @ behaviour))
         (returnE actual)))))))))"

text \<open>The answers of the helper's interface.\<close>

datatype helper_answer = Access_Denied string | Failed string | Reply_Value hvalue

definition authorize :: "caller \<Rightarrow> helper_answer option" where
  "authorize c =
     (case ca_sender c of None \<Rightarrow> Some (Access_Denied ''caller has no D-Bus identity'')
      | Some _ \<Rightarrow>
        (case ca_proxy c of Inl e \<Rightarrow> Some (Failed (err_to_string e))
         | Inr _ \<Rightarrow>
           (case ca_polkit c of
              Expired_Or_Lost \<Rightarrow> Some (Access_Denied ''authorization cancelled or expired; no write started'')
            | Polkit_Failed e \<Rightarrow> Some (Failed e)
            | Polkit_Answer authorized \<Rightarrow>
              (case ca_present c of Inl e \<Rightarrow> Some (Failed (err_to_string e))
               | Inr False \<Rightarrow> Some (Access_Denied ''caller disconnected before write'')
               | Inr True \<Rightarrow> if authorized then None
                   else Some (Access_Denied ''power setting change was not authorized'')))))"

definition serve :: "'w chenv \<Rightarrow> bool \<Rightarrow> hcall \<Rightarrow> ('w, helper_answer) ceff" where
  "serve env interactive call =
     bindE (worldC (ch_caller env call interactive)) (\<lambda>c. case authorize c of
       Some refusal \<Rightarrow> returnE refusal
     | None \<Rightarrow>
       bindE (attemptE (case call of
           Set_Thresholds battery s e \<Rightarrow> bindE (writer_set_thresholds env battery s e) (\<lambda>r. returnE (Thresholds_Set r))
         | Set_Behaviour battery b \<Rightarrow> bindE (writer_set_behaviour env battery b) (\<lambda>r. returnE (Behaviour_Set r)))) (\<lambda>r.
       returnE (case r of Inl e \<Rightarrow> Failed (err_to_string e) | Inr v \<Rightarrow> Reply_Value v)))"

section \<open>The client\<close>

text \<open>Only a refusal before the write is a plain error: a lost or failed answer may have written something.\<close>

fun outcome_of :: "helper_answer \<Rightarrow> hvalue result" where
  "outcome_of (Reply_Value v) = Ok v"
| "outcome_of (Access_Denied message) = Err (err message)"
| "outcome_of (Failed _) = Err [OutcomeUnknown]"

definition dispatch_write :: "'w chenv \<Rightarrow> bool \<Rightarrow> hcall \<Rightarrow> ('w, hvalue) ceff" where
  "dispatch_write env interactive call =
     bindE (worldC (ch_transport env call)) (\<lambda>t. case t of
        Unreachable e \<Rightarrow> throwE e
      | No_Answer processed \<Rightarrow>
          seqE (if processed then bindE (serve env interactive call) (\<lambda>_. returnE ()) else returnE ())
          (seqE (noteC (Called call (Err [OutcomeUnknown]))) (throwE [OutcomeUnknown]))
      | Answered \<Rightarrow>
          bindE (serve env interactive call) (\<lambda>a.
          seqE (noteC (Called call (outcome_of a))) (liftE (outcome_of a))))"

text \<open>An uncertain write fences its battery on disk before the effects lock is released.\<close>

definition mark_uncertain :: "'w chenv \<Rightarrow> string \<Rightarrow> ('w, unit) ceff" where
  "mark_uncertain env battery =
     map_errE (\<lambda>failure. [Msg (err_to_string failure), OutcomeUnknown])
       (bindE (load_runtime env) (\<lambda>runtime.
        save_runtime env (if battery \<in> set (rn_uncertain runtime) then runtime
          else runtime\<lparr>rn_uncertain := rn_uncertain runtime @ [battery]\<rparr>)))"

definition write_call :: "'w chenv \<Rightarrow> hcall \<Rightarrow> ('w, hvalue) ceff" where
  "write_call env call =
     bindE (getE bs_interactive) (\<lambda>interactive.
     bindE (if interactive then worldC (ch_cancelled env) else returnE False) (\<lambda>stop.
     seqE (ensureE (\<not> stop) ''battery operation cancelled before helper dispatch'')
     (catchE (dispatch_write env interactive call) (\<lambda>e.
        if is_unknown e then seqE (mark_uncertain env (call_battery call)) (throwE e) else throwE e))))"

text \<open>The helper answers a call with a value of its kind, so the other case does not arise.\<close>

definition set_thresholds :: "'w chenv \<Rightarrow> string \<Rightarrow> nat \<Rightarrow> nat \<Rightarrow> ('w, ThresholdWriteResult) ceff" where
  "set_thresholds env battery s e =
     bindE (write_call env (Set_Thresholds battery s e)) (\<lambda>v. case v of
        Thresholds_Set r \<Rightarrow> returnE r
      | Behaviour_Set _ \<Rightarrow> throwE [OutcomeUnknown])"

definition set_charge_behaviour :: "'w chenv \<Rightarrow> string \<Rightarrow> string \<Rightarrow> ('w, string) ceff" where
  "set_charge_behaviour env battery behaviour =
     bindE (write_call env (Set_Behaviour battery behaviour)) (\<lambda>v. case v of
        Behaviour_Set b \<Rightarrow> returnE b
      | Thresholds_Set _ \<Rightarrow> throwE [OutcomeUnknown])"

end
