(* ===== verification/Charge_Control.thy ===== *)
theory Charge_Control
  imports Charge_Helper
begin

text \<open>
  Charge control: the monitor's reconciliation of the batteries with the configured policy and the operation in
  progress (\<open>battery/mod.rs\<close>), and the battery requests of the interface (\<open>api/battery.rs\<close>,
  \<open>protocol/battery_wire.rs\<close>). Both run under the battery effects lock, so a turn of the monitor and a request are
  each one operation here.
\<close>

section \<open>Reconciliation\<close>

definition append_error :: "string option \<Rightarrow> string \<Rightarrow> string option" where
  "append_error e addition = Some (case e of Some existing \<Rightarrow> existing @ ''; '' @ addition | None \<Rightarrow> addition)"

definition update_observed_thresholds :: "BatteryDeviceState \<Rightarrow> nat \<Rightarrow> nat \<Rightarrow> BatteryDeviceState" where
  "update_observed_thresholds device s e =
     device\<lparr>bd_protection := (bd_protection device)\<lparr>start_percent := Some s, end_percent := Some e,
       protection_enabled := (s > 0 \<or> e < 100)\<rparr>\<rparr>"

definition set_observed_behaviour :: "BatteryDeviceState \<Rightarrow> string \<Rightarrow> BatteryDeviceState" where
  "set_observed_behaviour device b = device\<lparr>bd_protection := (bd_protection device)\<lparr>charge_behaviour := Some b\<rparr>\<rparr>"

text \<open>Saving that only notes its failure.\<close>

definition save_runtime_noting :: "'w chenv \<Rightarrow> BatteryRuntimeState \<Rightarrow> string option \<Rightarrow> ('w, string option) ceff" where
  "save_runtime_noting env runtime perr =
     bindE (attemptE (save_runtime env runtime)) (\<lambda>r.
       returnE (case r of Inl e \<Rightarrow> append_error perr (err_to_string e) | Inr _ \<Rightarrow> perr))"

definition policy_or_default :: "'a \<Rightarrow> 'a result \<Rightarrow> string option \<Rightarrow> 'a \<times> string option" where
  "policy_or_default d r perr = (case r of Inr x \<Rightarrow> (x, perr) | Inl e \<Rightarrow> (d, append_error perr (err_to_string e)))"

definition load_policy_data :: "'w chenv \<Rightarrow> ('w, BatteryConfig \<times> BatteryRuntimeState \<times> string option) ceff" where
  "load_policy_data env =
     bindE (attemptE (load_config env)) (\<lambda>c.
     bindE (attemptE (load_runtime env)) (\<lambda>r.
     let (config, perr) = policy_or_default BatteryConfig_default c None;
         (runtime, perr) = policy_or_default BatteryRuntimeState_default r perr in
     returnE (config, runtime, perr)))"

text \<open>The target thresholds of a battery, if any.\<close>

definition reconciliation_target :: "BatteryDeviceConfig \<Rightarrow> BatteryRuntimeState \<Rightarrow> bool \<Rightarrow> string \<Rightarrow> (nat \<times> nat) option" where
  "reconciliation_target device runtime finish_due battery =
     (let charge_once = charge_once_targets battery runtime;
          restoration = (charge_once \<and> finish_due);
          configured = (if dc_manage_thresholds device then Some (desired_thresholds device) else None) in
      if battery \<in> set (rn_uncertain runtime) \<and> \<not> restoration then None
      else if rn_operation runtime = Calibration \<and> rn_operation_battery runtime = battery then
        (if rn_operation_phase runtime \<noteq> Restoring then Some (0, 100) else None)
      else if charge_once \<and> \<not> finish_due then Some (0, 100)
      else if restoration then
        (case (rn_restore_start runtime, rn_restore_end runtime) of
           (Some s, Some e) \<Rightarrow> Some (s, e)
         | _ \<Rightarrow> configured)
      else configured)"

record ThresholdIntent =
  ti_target :: "(nat \<times> nat) option"
  ti_observed :: "nat option \<times> nat option"
  ti_accepted :: "(nat \<times> nat) option"
  ti_temporary :: bool
  ti_restoration :: bool
  ti_policy :: bool
  ti_can_control :: bool

definition threshold_intent :: "BatteryDeviceState \<Rightarrow> BatteryConfig \<Rightarrow> BatteryRuntimeState \<Rightarrow> bool \<Rightarrow> ThresholdIntent" where
  "threshold_intent device config runtime finish_due =
     (let battery = bd_id device;
          policy = BatteryConfig_device battery config;
          charge_once = charge_once_targets battery runtime;
          temporary = ((rn_operation runtime = Calibration \<and> rn_operation_battery runtime = battery)
            \<or> (charge_once \<and> \<not> finish_due));
          restoration = (charge_once \<and> finish_due) in
      \<lparr>ti_target = reconciliation_target policy runtime finish_due battery,
       ti_observed = (start_percent (bd_protection device), end_percent (bd_protection device)),
       ti_accepted = (case (dc_accepted_start policy, dc_accepted_end policy) of
          (Some s, Some e) \<Rightarrow> Some (s, e) | _ \<Rightarrow> None),
       ti_temporary = temporary, ti_restoration = restoration, ti_policy = (\<not> temporary \<and> \<not> restoration),
       ti_can_control = (supports_start (bd_protection device) \<and> supports_end (bd_protection device))\<rparr>)"

definition target_is_applied :: "nat option \<times> nat option \<Rightarrow> nat \<times> nat \<Rightarrow> (nat \<times> nat) option \<Rightarrow> bool \<Rightarrow> bool \<Rightarrow> bool" where
  "target_is_applied observed target accepted temporary policy \<longleftrightarrow>
     observed = (Some (fst target), Some (snd target)) \<or> (temporary \<and> snd observed = Some 100)
     \<or> (policy \<and> (case accepted of Some a \<Rightarrow> observed = (Some (fst a), Some (snd a)) | None \<Rightarrow> False))"

text \<open>What a device becomes, whether it is as intended, the configuration and whether it changed, the error text.\<close>

type_synonym applied = "BatteryDeviceState \<times> bool \<times> BatteryConfig \<times> bool \<times> string option"

definition apply_threshold ::
  "'w chenv \<Rightarrow> BatteryDeviceState \<Rightarrow> BatteryConfig \<Rightarrow> ThresholdIntent \<Rightarrow> string option \<Rightarrow> ('w, applied) ceff" where
  "apply_threshold env device config intent perr =
     (case ti_target intent of
        None \<Rightarrow> returnE (device, False, config, False, perr)
      | Some target \<Rightarrow>
        let already = target_is_applied (ti_observed intent) target (ti_accepted intent) (ti_temporary intent) (ti_policy intent) in
        if already \<or> \<not> ti_can_control intent then returnE (device, already, config, False, perr)
        else
          bindE (attemptE (set_thresholds env (bd_id device) (fst target) (snd target))) (\<lambda>result. case result of
            Inl e \<Rightarrow> returnE (device, False, config, False, append_error perr (err_to_string e))
          | Inr r \<Rightarrow>
            let device = update_observed_thresholds device (actual_start_percent r) (actual_end_percent r) in
            if ti_restoration intent \<and> \<not> tw_verified r then
              returnE (device, False, config, False, append_error perr
                (''battery '' @ bd_id device @ '' reported thresholds '' @ show_nat (actual_start_percent r) @ ''-''
                  @ show_nat (actual_end_percent r) @ '' after restoring '' @ show_nat (fst target) @ ''-''
                  @ show_nat (snd target)))
            else
              let config = (if ti_policy intent then device_mut (bd_id device) (\<lambda>c. c\<lparr>
                    dc_accepted_start := Some (actual_start_percent r), dc_accepted_end := Some (actual_end_percent r)\<rparr>) config
                  else config) in
              returnE (device, True, config, ti_policy intent, perr)))"

fun reconcile_thresholds ::
  "'w chenv \<Rightarrow> BatteryRuntimeState \<Rightarrow> bool \<Rightarrow> BatteryDeviceState list \<Rightarrow> BatteryConfig \<Rightarrow> bool \<Rightarrow> bool \<Rightarrow> string option \<Rightarrow>
     ('w, BatteryDeviceState list \<times> BatteryConfig \<times> bool \<times> bool \<times> string option) ceff" where
  "reconcile_thresholds env runtime finish_due [] config restored changed perr = returnE ([], config, restored, changed, perr)"
| "reconcile_thresholds env runtime finish_due (device # devices) config restored changed perr =
     (let intent = threshold_intent device config runtime finish_due;
          charge_once_battery = (rn_charge_once_active runtime \<and> bd_id device = rn_charge_once_battery runtime) in
      bindE (apply_threshold env device config intent perr) (\<lambda>(device', applied, config, now_changed, perr).
      bindE (reconcile_thresholds env runtime finish_due devices config
          (if charge_once_battery then applied else restored) (changed \<or> now_changed) perr)
        (\<lambda>(devices', rest). returnE (device' # devices', rest))))"

section \<open>Operations in progress\<close>

definition ensure_charge_behaviour ::
  "'w chenv \<Rightarrow> BatteryDeviceState \<Rightarrow> string \<Rightarrow> string option \<Rightarrow> ('w, bool \<times> BatteryDeviceState \<times> string option) ceff" where
  "ensure_charge_behaviour env device desired perr =
     (if charge_behaviour (bd_protection device) = Some desired then returnE (True, device, perr)
      else bindE (attemptE (set_charge_behaviour env (bd_id device) desired)) (\<lambda>r. case r of
         Inr actual \<Rightarrow> returnE (True, set_observed_behaviour device actual, perr)
       | Inl e \<Rightarrow> returnE (False, device, append_error perr (err_to_string e))))"

text \<open>What an operation's turn leaves: whether the runtime state is to be saved, the device, the runtime state, the error text.\<close>

type_synonym turned = "bool \<times> BatteryDeviceState \<times> BatteryRuntimeState \<times> string option"

definition restore_hardware :: "'w chenv \<Rightarrow> BatteryDeviceState \<Rightarrow> BatteryRuntimeState \<Rightarrow> string option \<Rightarrow> ('w, turned) ceff" where
  "restore_hardware env device runtime perr =
     bindE (attemptE (set_charge_behaviour env (bd_id device) ''auto'')) (\<lambda>behaviour.
     bindE (attemptE (case (rn_operation_restore_start runtime, rn_operation_restore_end runtime) of
         (Some s, Some e) \<Rightarrow> set_thresholds env (bd_id device) s e
       | _ \<Rightarrow> throwE (err ''calibration restoration thresholds are missing''))) (\<lambda>thresholds.
     case (behaviour, thresholds) of
       (Inr actual, Inr r) \<Rightarrow>
         let device = update_observed_thresholds (set_observed_behaviour device actual) (actual_start_percent r) (actual_end_percent r) in
         (case complete_calibration_restoration (actual_start_percent r) (actual_end_percent r) (tw_verified r) runtime of
            Inr runtime' \<Rightarrow> returnE (True, device, runtime', perr)
          | Inl e \<Rightarrow> returnE (False, device, runtime, append_error perr (err_to_string e)))
     | _ \<Rightarrow>
         let perr = (case behaviour of Inl e \<Rightarrow> append_error perr (err_to_string e) | Inr _ \<Rightarrow> perr);
             perr = (case thresholds of Inl e \<Rightarrow> append_error perr (err_to_string e) | Inr _ \<Rightarrow> perr) in
         returnE (False, device, runtime, perr)))"

text \<open>The restoring phase is on disk before the hardware is touched.\<close>

definition finish_runtime_operation :: "'w chenv \<Rightarrow> BatteryDeviceState \<Rightarrow> BatteryRuntimeState \<Rightarrow> string option \<Rightarrow> ('w, turned) ceff" where
  "finish_runtime_operation env device runtime perr =
     (if rn_operation_phase runtime \<noteq> Restoring then
        let runtime = runtime\<lparr>rn_operation_phase := Restoring\<rparr> in
        bindE (attemptE (save_runtime env runtime)) (\<lambda>saved. case saved of
          Inl e \<Rightarrow> returnE (False, device, runtime, append_error perr (err_to_string e))
        | Inr _ \<Rightarrow> restore_hardware env device runtime perr)
      else restore_hardware env device runtime perr)"

definition reconcile_calibration_discharge :: "'w chenv \<Rightarrow> BatteryDeviceState \<Rightarrow> BatteryRuntimeState \<Rightarrow> string option \<Rightarrow> ('w, turned) ceff" where
  "reconcile_calibration_discharge env device runtime perr =
     (if bd_percentage device > 1 then
        bindE (ensure_charge_behaviour env device ''force-discharge'' perr) (\<lambda>(_, device, perr).
          returnE (False, device, runtime, perr))
      else
        bindE (ensure_charge_behaviour env device ''auto'' perr) (\<lambda>(ok, device, perr).
          returnE (if ok then (True, device, runtime\<lparr>rn_operation_phase := Charging\<rparr>, perr)
            else (False, device, runtime, perr))))"

definition reconcile_calibration :: "'w chenv \<Rightarrow> BatteryDeviceState \<Rightarrow> bool \<Rightarrow> BatteryRuntimeState \<Rightarrow> string option \<Rightarrow> ('w, turned) ceff" where
  "reconcile_calibration env device on_power runtime perr =
     bindE (worldC (ch_unix_ms env)) (\<lambda>now.
     if rn_operation_phase runtime = Restoring \<or> operation_expired now runtime \<or> \<not> on_power
     then finish_runtime_operation env device runtime perr
     else (case rn_operation_phase runtime of
         Discharging \<Rightarrow> reconcile_calibration_discharge env device runtime perr
       | Charging \<Rightarrow>
           if bd_percentage device \<ge> 100 then finish_runtime_operation env device runtime perr
           else bindE (ensure_charge_behaviour env device ''auto'' perr) (\<lambda>(_, device, perr).
             returnE (False, device, runtime, perr))
       | phase \<Rightarrow> finish_runtime_operation env device runtime
           (append_error perr (''invalid calibration phase: '' @ OperationPhase_as_str phase))))"

definition replace_device :: "BatteryDeviceState \<Rightarrow> BatteryDeviceState list \<Rightarrow> BatteryDeviceState list" where
  "replace_device device devices =
     (let before = takeWhile (\<lambda>d. bd_id d \<noteq> bd_id device) devices in
      before @ (case drop (length before) devices of [] \<Rightarrow> [] | _ # after \<Rightarrow> device # after))"

definition reconcile_operation :: "'w chenv \<Rightarrow> bool \<Rightarrow> BatteryDeviceState \<Rightarrow> BatteryRuntimeState \<Rightarrow> string option \<Rightarrow> ('w, turned) ceff" where
  "reconcile_operation env on_power device runtime perr =
     (if bd_id device \<in> set (rn_uncertain runtime) then
        (if rn_operation runtime = Calibration then
           bindE (finish_runtime_operation env device runtime perr) (\<lambda>(done, device, runtime, perr).
             returnE (if done
               then (True, device, runtime\<lparr>rn_uncertain := filter (\<lambda>b. b \<noteq> bd_id device) (rn_uncertain runtime)\<rparr>, perr)
               else (False, device, runtime, perr)))
         else returnE (False, device, runtime, perr))
      else (case rn_operation runtime of
          Inhibit \<Rightarrow> bindE (ensure_charge_behaviour env device ''inhibit-charge'' perr) (\<lambda>(_, device, perr).
            returnE (False, device, runtime, perr))
        | Calibration \<Rightarrow> reconcile_calibration env device on_power runtime perr
        | No_Operation \<Rightarrow> returnE (False, device, runtime, perr)))"

definition reconcile_runtime_operation ::
  "'w chenv \<Rightarrow> BatteryState \<Rightarrow> BatteryRuntimeState \<Rightarrow> string option \<Rightarrow>
     ('w, bool \<times> BatteryState \<times> BatteryRuntimeState \<times> string option) ceff" where
  "reconcile_runtime_operation env state runtime perr =
     (if rn_operation runtime = No_Operation then returnE (False, state, runtime, perr)
      else (case find (\<lambda>d. bd_id d = rn_operation_battery runtime) (bat_devices state) of
          None \<Rightarrow> returnE (False, state, runtime, append_error perr (''cannot resume '' @ OperationKind_as_str (rn_operation runtime)
              @ '' operation: battery '' @ rn_operation_battery runtime @ '' is unavailable''))
        | Some device \<Rightarrow>
            bindE (reconcile_operation env (plugged state) device runtime perr) (\<lambda>(save, device, runtime, perr).
              returnE (save, state\<lparr>bat_devices := replace_device device (bat_devices state)\<rparr>, runtime, perr))))"

definition migrate_charge_once_battery ::
  "'w chenv \<Rightarrow> BatteryState \<Rightarrow> BatteryRuntimeState \<Rightarrow> string option \<Rightarrow> ('w, BatteryRuntimeState \<times> string option) ceff" where
  "migrate_charge_once_battery env state runtime perr =
     (if rn_charge_once_active runtime \<and> rn_charge_once_battery runtime = [] then
        let runtime = runtime\<lparr>rn_charge_once_battery := native_path state\<rparr> in
        bindE (save_runtime_noting env runtime perr) (\<lambda>perr. returnE (runtime, perr))
      else returnE (runtime, perr))"

definition charge_once_is_due :: "BatteryState \<Rightarrow> BatteryRuntimeState \<Rightarrow> nat \<Rightarrow> bool" where
  "charge_once_is_due state runtime now \<longleftrightarrow>
     (let pct = (case find (\<lambda>d. bd_id d = rn_charge_once_battery runtime) (bat_devices state) of
         Some d \<Rightarrow> bd_percentage d | None \<Rightarrow> 0) in
      rn_charge_once_active runtime \<and> (\<not> plugged state \<or> pct \<ge> 100 \<or> charge_once_expired now runtime))"

definition finish_charge_once_if_due ::
  "'w chenv \<Rightarrow> bool \<Rightarrow> bool \<Rightarrow> BatteryRuntimeState \<Rightarrow> string option \<Rightarrow> ('w, BatteryRuntimeState \<times> string option) ceff" where
  "finish_charge_once_if_due env due restored runtime perr =
     (if \<not> due then returnE (runtime, perr)
      else if \<not> restored then
        returnE (runtime, append_error perr (''cannot verify restored charge thresholds for '' @ rn_charge_once_battery runtime
          @ '': the battery is absent, unsupported, or reported different values''))
      else
        let runtime = BatteryRuntimeState_default\<lparr>rn_uncertain :=
            filter (\<lambda>b. b \<noteq> rn_charge_once_battery runtime) (rn_uncertain runtime)\<rparr> in
        bindE (save_runtime_noting env runtime perr) (\<lambda>perr. returnE (runtime, perr)))"

section \<open>Publication\<close>

definition semantic_state :: "BatteryState \<Rightarrow> string" where
  "semantic_state state =
     (if bo_kind (bat_operation state) = ''calibration'' then ''calibrating''
      else if bo_kind (bat_operation state) = ''inhibit'' then ''charging-inhibited''
      else if charging state then ''charging''
      else if \<not> plugged state then (if bat_state state = ''fully-charged'' then ''fully-charged'' else ''discharging'')
      else if charge_behaviour (protection state) = Some ''force-discharge'' then ''calibrating''
      else if charge_behaviour (protection state) \<in> {Some ''inhibit-charge'', Some ''inhibit-charge-awake''} then ''charging-inhibited''
      else if bat_state state = ''fully-charged'' then ''fully-charged''
      else if bat_state state = ''pending-charge'' then ''charge-paused''
      else if protection_enabled (protection state) then ''charge-paused''
      else ''not-charging'')"

definition decorate_protection ::
  "BatteryDeviceConfig \<Rightarrow> BatteryRuntimeState \<Rightarrow> string \<Rightarrow> string option \<Rightarrow> BatteryProtectionState \<Rightarrow> BatteryProtectionState" where
  "decorate_protection config runtime battery perr p =
     p\<lparr>pt_managed := dc_manage_thresholds config, desired_start_percent := Some (dc_start_percent config),
       desired_end_percent := Some (dc_end_percent config), desired_enabled := dc_protection_enabled config,
       thresholds_verified := (start_percent p = Some (fst (desired_thresholds config))
         \<and> end_percent p = Some (snd (desired_thresholds config))),
       charge_once_active := charge_once_targets battery runtime,
       pt_error := (case perr of Some e \<Rightarrow> append_error (pt_error p) e | None \<Rightarrow> pt_error p)\<rparr>"

definition decorate :: "BatteryConfig \<Rightarrow> BatteryRuntimeState \<Rightarrow> string option \<Rightarrow> BatteryState \<Rightarrow> BatteryState" where
  "decorate config runtime perr state =
     (let state = state\<lparr>
          bat_warning := (bat_available state \<and> \<not> plugged state \<and> percentage state \<le> bc_warning_percent config),
          bat_critical := (bat_available state \<and> \<not> plugged state \<and> percentage state \<le> bc_critical_percent config),
          bat_policy := BatteryConfig_policy config,
          bat_operation := \<lparr>bo_kind = OperationKind_as_str (rn_operation runtime), bo_battery_id = rn_operation_battery runtime,
            bo_phase = OperationPhase_as_str (rn_operation_phase runtime), bo_started_unix_ms = rn_operation_started runtime,
            bo_expires_unix_ms = rn_operation_expires runtime\<rparr>,
          bat_devices := map (\<lambda>d. d\<lparr>bd_protection := decorate_protection (BatteryConfig_device (bd_id d) config) runtime
            (bd_id d) perr (bd_protection d)\<rparr>) (bat_devices state)\<rparr>;
          state = state\<lparr>protection := (case find (\<lambda>d. bd_id d = native_path state) (bat_devices state) of
            Some d \<Rightarrow> bd_protection d | None \<Rightarrow> BatteryProtectionState_default)\<rparr> in
      state\<lparr>bat_state := semantic_state state\<rparr>)"

definition UNCERTAIN_TEXT :: string where
  "UNCERTAIN_TEXT = ''Battery write outcome unknown; automatic writes for the affected battery paused. Inspect current state before another action.''"

definition reconcile_and_decorate :: "'w chenv \<Rightarrow> BatteryState \<Rightarrow> ('w, BatteryState) ceff" where
  "reconcile_and_decorate env state =
     bindE (load_policy_data env) (\<lambda>(config, runtime, perr).
     bindE (migrate_charge_once_battery env state runtime perr) (\<lambda>(runtime, perr).
     let perr = (if rn_uncertain runtime \<noteq> [] then append_error perr UNCERTAIN_TEXT else perr) in
     bindE (reconcile_runtime_operation env state runtime perr) (\<lambda>(save, state, runtime, perr).
     bindE (if save then save_runtime_noting env runtime perr else returnE perr) (\<lambda>perr.
     bindE (worldC (ch_unix_ms env)) (\<lambda>now.
     let due = charge_once_is_due state runtime now in
     bindE (reconcile_thresholds env runtime due (bat_devices state) config False False perr)
       (\<lambda>(devices, config, restored, changed, perr).
     bindE (if changed then bindE (attemptE (save_config env config)) (\<lambda>r.
         returnE (case r of Inl e \<Rightarrow> append_error perr (err_to_string e) | Inr _ \<Rightarrow> perr)) else returnE perr) (\<lambda>perr.
     bindE (finish_charge_once_if_due env due restored runtime perr) (\<lambda>(runtime, perr).
     returnE (decorate config runtime perr (state\<lparr>bat_devices := devices\<rparr>))))))))))"

definition publish_battery :: "BatteryState \<Rightarrow> ('w, unit) ceff" where
  "publish_battery state =
     bindE (getE bs_alerts) (\<lambda>tracker.
     let (alert, tracker) = AlertTracker_observe tracker state (notify_when_full (bat_policy state)) in
     seqE (modifyE (\<lambda>s. s\<lparr>bs_alerts := tracker\<rparr>))
     (seqE (case alert of Some a \<Rightarrow> noteC (Alerted a) | None \<Rightarrow> returnE ())
     (modifyE (\<lambda>s. s\<lparr>bs_published := state\<rparr>))))"

definition publish_battery_error :: "error \<Rightarrow> ('w, unit) ceff" where
  "publish_battery_error e = modifyE (\<lambda>s. s\<lparr>bs_published := BatteryState_default\<lparr>bat_error := Some (err_to_string e)\<rparr>\<rparr>)"

text \<open>One round of the native monitor.\<close>

definition native_turn :: "'w chenv \<Rightarrow> ('w, unit) ceff" where
  "native_turn env =
     bindE (attemptE (askC (ch_read_state env))) (\<lambda>r. case r of
        Inr state \<Rightarrow> bindE (reconcile_and_decorate env state) publish_battery
      | Inl e \<Rightarrow> publish_battery_error e)"

definition refresh_state :: "'w chenv \<Rightarrow> ('w, BatteryState) ceff" where
  "refresh_state env =
     bindE (askC (ch_read_state env)) (\<lambda>state.
     bindE (load_policy_data env) (\<lambda>(config, runtime, perr).
     let state = decorate config runtime perr state in
     seqE (modifyE (\<lambda>s. s\<lparr>bs_published := state\<rparr>)) (returnE state)))"

end
