(* ===== verification/Charge_Requests.thy ===== *)
theory Charge_Requests
  imports Charge_Control
begin

text \<open>
  The battery requests of the interface: \<open>api/battery.rs\<close> with the request and reply types of
  \<open>protocol/battery_wire.rs\<close>. An error reply is its code and its message, in this order, in the error position of
  the handlers. Decoding of the parameters is left out: requests come with their fields.
\<close>

section \<open>Requests and replies\<close>

record ThresholdRequest =
  tq_battery :: string
  tq_start :: nat
  tq_end :: nat

record ProtectionRequest =
  pq_battery :: "string option"
  pq_enabled :: bool
  pq_start :: "nat option"
  pq_end :: "nat option"

record AlertPolicyRequest =
  aq_warning_percent :: "nat option"
  aq_critical_percent :: "nat option"
  aq_notify_when_full :: "bool option"
  aq_auto_power_saver :: "bool option"
  aq_notify_warning :: "bool option"
  aq_notify_critical :: "bool option"
  aq_warning_profile :: "BatteryProfileAction option"
  aq_critical_profile :: "BatteryProfileAction option"

definition AlertPolicyRequest_default :: AlertPolicyRequest where
  "AlertPolicyRequest_default = \<lparr>aq_warning_percent = None, aq_critical_percent = None, aq_notify_when_full = None,
     aq_auto_power_saver = None, aq_notify_warning = None, aq_notify_critical = None, aq_warning_profile = None,
     aq_critical_profile = None\<rparr>"

datatype battery_request =
    Set_Thresholds_Request ThresholdRequest
  | Set_Protection_Request ProtectionRequest
  | Charge_Once_Request "string option"
  | Set_Inhibited_Request "string option" bool
  | Start_Calibration_Request "string option"
  | Cancel_Calibration_Request "string option"
  | Set_Alert_Policy_Request AlertPolicyRequest

datatype ErrorCode = ConfigFailed | NotPlugged | OperationActive | OperationFailed | OperationInactive
  | OperationUnsupported | ProtectionUnsupported | RefreshFailed | StateFailed | Unavailable | ValidationError

fun error_code :: "ErrorCode \<Rightarrow> string" where
  "error_code ConfigFailed = ''battery-config-failed''"
| "error_code NotPlugged = ''battery-not-plugged''"
| "error_code OperationActive = ''battery-operation-active''"
| "error_code OperationFailed = ''battery-operation-failed''"
| "error_code OperationInactive = ''battery-operation-inactive''"
| "error_code OperationUnsupported = ''battery-operation-unsupported''"
| "error_code ProtectionUnsupported = ''battery-protection-unsupported''"
| "error_code RefreshFailed = ''battery-refresh-failed''"
| "error_code StateFailed = ''battery-state-failed''"
| "error_code Unavailable = ''battery-unavailable''"
| "error_code ValidationError = ''validation-error''"

definition api_error :: "ErrorCode \<Rightarrow> string \<Rightarrow> error" where
  "api_error code message = [Msg (error_code code), Msg message]"

datatype battery_reply =
    Battery_Reply BatteryState "(string \<times> ThresholdWriteResult) option"
  | Error_Reply error

definition helper_error :: "error \<Rightarrow> error" where
  "helper_error e = (if is_unknown e then [Msg ''outcome-unknown'', Msg (err_to_string e)]
     else api_error OperationFailed (err_to_string e))"

section \<open>Shared steps\<close>

definition apiE :: "ErrorCode \<Rightarrow> ('w, 'a) ceff \<Rightarrow> ('w, 'a) ceff" where
  "apiE code m = map_errE (\<lambda>e. api_error code (err_to_string e)) m"

definition ensureA :: "bool \<Rightarrow> ErrorCode \<Rightarrow> string \<Rightarrow> ('w, unit) ceff" where
  "ensureA b code message = (if b then returnE () else throwE (api_error code message))"

definition api_load_runtime :: "'w chenv \<Rightarrow> ('w, BatteryRuntimeState) ceff" where
  "api_load_runtime env = apiE StateFailed (load_runtime env)"

definition api_save_runtime :: "'w chenv \<Rightarrow> BatteryRuntimeState \<Rightarrow> ('w, unit) ceff" where
  "api_save_runtime env runtime = apiE StateFailed (save_runtime env runtime)"

definition api_save_config :: "'w chenv \<Rightarrow> BatteryConfig \<Rightarrow> ('w, unit) ceff" where
  "api_save_config env config = apiE ConfigFailed (save_config env config)"

definition battery_response :: "'w chenv \<Rightarrow> (string \<times> ThresholdWriteResult) option \<Rightarrow> ('w, battery_reply) ceff" where
  "battery_response env operation =
     bindE (attemptE (refresh_state env)) (\<lambda>r. returnE (case r of
        Inr state \<Rightarrow> Battery_Reply state operation
      | Inl e \<Rightarrow> Error_Reply (api_error RefreshFailed (err_to_string e))))"

text \<open>A confirmed write lifts the fence of its battery.\<close>

definition hardware_response :: "'w chenv \<Rightarrow> string \<Rightarrow> ThresholdWriteResult option \<Rightarrow> ('w, battery_reply) ceff" where
  "hardware_response env battery result =
     bindE (api_load_runtime env) (\<lambda>runtime.
     seqE (api_save_runtime env (runtime\<lparr>rn_uncertain := filter (\<lambda>b. b \<noteq> battery) (rn_uncertain runtime)\<rparr>))
     (battery_response env (map_option (\<lambda>r. (battery, r)) result)))"

definition editable_policy :: "'w chenv \<Rightarrow> ('w, BatteryConfig) ceff" where
  "editable_policy env =
     bindE (apiE ConfigFailed (load_config env)) (\<lambda>config.
     bindE (api_load_runtime env) (\<lambda>runtime.
     seqE (ensureA (\<not> has_durable_operation runtime) OperationActive
       ''charge policy cannot change during a durable battery operation'')
     (returnE config)))"

definition requested_device :: "string option \<Rightarrow> BatteryState \<Rightarrow> BatteryDeviceState result" where
  "requested_device requested battery =
     (case (case requested of
          Some b \<Rightarrow> find (\<lambda>d. bd_id d = b) (bat_devices battery)
        | None \<Rightarrow> (case bat_devices battery of [] \<Rightarrow> None | d # _ \<Rightarrow> Some d)) of
        Some d \<Rightarrow> Ok d
      | None \<Rightarrow> Err (api_error Unavailable (case requested of
          None \<Rightarrow> ''no controllable system battery is available''
        | Some b \<Rightarrow> ''battery '' @ b @ '' is unavailable'')))"

definition requested_battery_id :: "string option \<Rightarrow> ('w, string) ceff" where
  "requested_battery_id requested =
     bindE (getE (\<lambda>s. requested_device requested (bs_published s))) (\<lambda>r. bindE (liftE r) (\<lambda>d. returnE (bd_id d)))"

definition require_power :: "BatteryState \<Rightarrow> string \<Rightarrow> unit result" where
  "require_power battery action =
     (if plugged battery then Ok () else Err (api_error NotPlugged (action @ '' requires external power'')))"

definition restoration_thresholds :: "BatteryDeviceState \<Rightarrow> string \<Rightarrow> (nat \<times> nat) result" where
  "restoration_thresholds device action =
     (case (start_percent (bd_protection device), end_percent (bd_protection device)) of
        (Some s, Some e) \<Rightarrow> Ok (s, e)
      | _ \<Rightarrow> Err (api_error ProtectionUnsupported (action @ '' requires readable charge thresholds'')))"

definition require_behaviour :: "BatteryState \<Rightarrow> string \<Rightarrow> string \<Rightarrow> string \<Rightarrow> BatteryDeviceState result" where
  "require_behaviour battery battery_id behaviour action =
     and_then (requested_device (Some battery_id) battery) (\<lambda>device.
       if behaviour \<in> set (available_behaviours (bd_protection device)) then Ok device
       else Err (api_error OperationUnsupported (''battery '' @ battery_id @ '' cannot '' @ action)))"

definition optional_thresholds :: "nat option \<Rightarrow> nat option \<Rightarrow> (nat \<times> nat) option result" where
  "optional_thresholds s e =
     (case (s, e) of
        (None, None) \<Rightarrow> Ok None
      | (Some s, Some e) \<Rightarrow> if valid_thresholds s e then Ok (Some (s, e))
          else Err (api_error ValidationError ''battery start_percent must be lower than end_percent'')
      | _ \<Rightarrow> Err (api_error ValidationError ''battery start_percent and end_percent must be supplied together''))"

section \<open>Policy\<close>

definition save_policy_change :: "'w chenv \<Rightarrow> BatteryConfig \<Rightarrow> ('w, battery_reply) ceff" where
  "save_policy_change env next_config = seqE (api_save_config env next_config) (battery_response env None)"

definition apply_policy_change ::
  "'w chenv \<Rightarrow> string \<Rightarrow> nat \<Rightarrow> nat \<Rightarrow> BatteryConfig \<Rightarrow> BatteryConfig \<Rightarrow> ('w, battery_reply) ceff" where
  "apply_policy_change env battery s e previous_config next_config =
     seqE (api_save_config env next_config)
     (bindE (attemptE (set_thresholds env battery s e)) (\<lambda>r. case r of
        Inr result \<Rightarrow>
          let next_config = device_mut battery (\<lambda>c. c\<lparr>dc_accepted_start := Some (actual_start_percent result),
                dc_accepted_end := Some (actual_end_percent result)\<rparr>) next_config in
          seqE (api_save_config env next_config) (hardware_response env battery (Some result))
      | Inl failure \<Rightarrow>
          seqE (map_errE (\<lambda>rollback. api_error OperationFailed
              (err_to_string failure @ ''; battery configuration rollback also failed: '' @ err_to_string rollback))
            (save_config env previous_config))
          (throwE (helper_error failure))))"

definition battery_set_thresholds :: "'w chenv \<Rightarrow> ThresholdRequest \<Rightarrow> ('w, battery_reply) ceff" where
  "battery_set_thresholds env request =
     (let battery = tq_battery request; s = tq_start request; e = tq_end request in
      seqE (ensureA (valid_thresholds s e) ValidationError ''battery start_percent must be lower than end_percent'')
      (bindE (editable_policy env) (\<lambda>previous.
       let device = BatteryConfig_device battery previous;
           active = (dc_manage_thresholds device \<and> dc_protection_enabled device);
           next_config = device_mut battery (\<lambda>c.
             let c = c\<lparr>dc_start_percent := s, dc_end_percent := e\<rparr> in
             if active then c\<lparr>dc_accepted_start := None, dc_accepted_end := None\<rparr> else c) previous in
       if active then apply_policy_change env battery s e previous next_config
       else save_policy_change env next_config)))"

definition battery_set_protection :: "'w chenv \<Rightarrow> ProtectionRequest \<Rightarrow> ('w, battery_reply) ceff" where
  "battery_set_protection env request =
     bindE (liftE (optional_thresholds (pq_start request) (pq_end request))) (\<lambda>requested.
     bindE (requested_battery_id (pq_battery request)) (\<lambda>battery.
     bindE (editable_policy env) (\<lambda>previous.
     let next_config = device_mut battery (\<lambda>c.
           let c = (case requested of Some (s, e) \<Rightarrow> c\<lparr>dc_start_percent := s, dc_end_percent := e\<rparr> | None \<Rightarrow> c) in
           c\<lparr>dc_manage_thresholds := True, dc_protection_enabled := pq_enabled request,
             dc_accepted_start := None, dc_accepted_end := None\<rparr>) previous;
         (s, e) = desired_thresholds (BatteryConfig_device battery next_config) in
     apply_policy_change env battery s e previous next_config)))"

definition apply_alert_policy :: "AlertPolicyRequest \<Rightarrow> BatteryConfig \<Rightarrow> BatteryConfig result" where
  "apply_alert_policy self config =
     and_then (ensure (self \<noteq> AlertPolicyRequest_default) ''battery.setAlertPolicy requires at least one policy field'') (\<lambda>_.
     let config = config\<lparr>bc_warning_percent := unwrap_or (bc_warning_percent config) (aq_warning_percent self),
           bc_critical_percent := unwrap_or (bc_critical_percent config) (aq_critical_percent self),
           bc_notify_when_full := unwrap_or (bc_notify_when_full config) (aq_notify_when_full self)\<rparr>;
         action = map_option (\<lambda>value. if value then PowerSaver else KeepCurrent) (aq_auto_power_saver self);
         warning = unwrap_or (config_warning_profile config) action;
         critical = unwrap_or (config_critical_profile config) action;
         config = config\<lparr>bc_warning_profile := Some (unwrap_or warning (aq_warning_profile self)),
           bc_critical_profile := Some (unwrap_or critical (aq_critical_profile self))\<rparr>;
         config = config\<lparr>bc_auto_power_saver := auto_power_saver (BatteryConfig_policy config)\<rparr>;
         config = config\<lparr>bc_notify_warning := unwrap_or (bc_notify_warning config) (aq_notify_warning self),
           bc_notify_critical := unwrap_or (bc_notify_critical config) (aq_notify_critical self)\<rparr> in
     and_then (BatteryConfig_validate config) (\<lambda>_. Ok config))"

text \<open>The first newly requested profile that the profile service, if it is available, does not offer.\<close>

definition unavailable_profile :: "AlertPolicyRequest \<Rightarrow> BatteryConfig \<Rightarrow> string list option \<Rightarrow> string option" where
  "unavailable_profile request config offered =
     (let news = (case aq_warning_profile request of
            Some a \<Rightarrow> if a \<noteq> config_warning_profile config then [a] else [] | None \<Rightarrow> [])
          @ (case aq_critical_profile request of
            Some a \<Rightarrow> if a \<noteq> config_critical_profile config then [a] else [] | None \<Rightarrow> []) in
      find (\<lambda>p. case offered of Some names \<Rightarrow> p \<notin> set names | None \<Rightarrow> False)
        (List.map_filter BatteryProfileAction_profile news))"

definition battery_set_alert_policy :: "'w chenv \<Rightarrow> AlertPolicyRequest \<Rightarrow> ('w, battery_reply) ceff" where
  "battery_set_alert_policy env request =
     bindE (apiE ConfigFailed (load_config env)) (\<lambda>config.
     bindE (apiE ValidationError (liftE (apply_alert_policy request config))) (\<lambda>next_config.
     bindE (getE (\<lambda>s. unavailable_profile request config (bs_profiles s))) (\<lambda>unavailable. case unavailable of
        Some profile \<Rightarrow> throwE (api_error ValidationError (''power profile is unavailable: '' @ profile))
      | None \<Rightarrow> save_policy_change env next_config)))"

section \<open>Operations\<close>

definition rollback_runtime :: "'w chenv \<Rightarrow> BatteryRuntimeState \<Rightarrow> error \<Rightarrow> string \<Rightarrow> ('w, error) ceff" where
  "rollback_runtime env previous failure operation =
     (if is_unknown failure then returnE [Msg ''outcome-unknown'', Msg (err_to_string failure)]
      else bindE (attemptE (save_runtime env previous)) (\<lambda>r. returnE (case r of
         Inr _ \<Rightarrow> api_error OperationFailed (err_to_string failure)
       | Inl e \<Rightarrow> api_error OperationFailed (err_to_string failure @ ''; '' @ operation @ '' state rollback also failed: ''
           @ err_to_string e))))"

definition battery_charge_once :: "'w chenv \<Rightarrow> string option \<Rightarrow> ('w, battery_reply) ceff" where
  "battery_charge_once env requested =
     bindE (getE (\<lambda>s. and_then (require_power (bs_published s) ''battery.chargeOnce'') (\<lambda>_.
        and_then (requested_device requested (bs_published s)) (\<lambda>device.
        and_then (restoration_thresholds device ''battery.chargeOnce'') (\<lambda>(s, e). Ok (bd_id device, s, e)))))) (\<lambda>r.
     bindE (liftE r) (\<lambda>(battery, restore_start, restore_end).
     bindE (api_load_runtime env) (\<lambda>previous.
     seqE (ensureA (\<not> has_durable_operation previous) OperationActive ''another durable battery operation is already active'')
     (bindE (worldC (ch_unix_ms env)) (\<lambda>now.
      seqE (api_save_runtime env ((start_charge_once now battery restore_start restore_end)
        \<lparr>rn_uncertain := rn_uncertain previous\<rparr>))
      (bindE (attemptE (set_thresholds env battery 0 100)) (\<lambda>r. case r of
         Inr result \<Rightarrow> hardware_response env battery (Some result)
       | Inl failure \<Rightarrow> bindE (rollback_runtime env previous failure ''charge-once'') throwE)))))))"

definition start_charging_inhibition :: "'w chenv \<Rightarrow> string \<Rightarrow> BatteryRuntimeState \<Rightarrow> ('w, unit) ceff" where
  "start_charging_inhibition env battery previous =
     seqE (ensureA (\<not> has_durable_operation previous) OperationActive ''another durable battery operation is already active'')
     (bindE (worldC (ch_unix_ms env)) (\<lambda>now.
      seqE (api_save_runtime env ((start_inhibit now battery)\<lparr>rn_uncertain := rn_uncertain previous\<rparr>))
      (bindE (attemptE (set_charge_behaviour env battery ''inhibit-charge'')) (\<lambda>r. case r of
         Inr _ \<Rightarrow> returnE ()
       | Inl failure \<Rightarrow> bindE (rollback_runtime env previous failure ''inhibition'') throwE))))"

definition stop_charging_inhibition :: "'w chenv \<Rightarrow> string \<Rightarrow> BatteryRuntimeState \<Rightarrow> ('w, unit) ceff" where
  "stop_charging_inhibition env battery runtime =
     seqE (ensureA (rn_operation runtime = Inhibit \<and> rn_operation_battery runtime = battery) OperationInactive
       (''charging is not durably inhibited for '' @ battery))
     (seqE (map_errE helper_error (set_charge_behaviour env battery ''auto''))
     (api_save_runtime env (clear_operation runtime)))"

definition battery_set_charging_inhibited :: "'w chenv \<Rightarrow> string option \<Rightarrow> bool \<Rightarrow> ('w, battery_reply) ceff" where
  "battery_set_charging_inhibited env requested enabled =
     bindE (requested_battery_id requested) (\<lambda>battery.
     bindE (getE (\<lambda>s. require_behaviour (bs_published s) battery ''inhibit-charge'' ''inhibit charging'')) (\<lambda>r.
     seqE (liftE r)
     (bindE (api_load_runtime env) (\<lambda>previous.
      seqE (if enabled then start_charging_inhibition env battery previous else stop_charging_inhibition env battery previous)
      (hardware_response env battery None)))))"

definition rollback_calibration_hardware ::
  "'w chenv \<Rightarrow> string \<Rightarrow> nat \<Rightarrow> nat \<Rightarrow> BatteryRuntimeState \<Rightarrow> error \<Rightarrow> ('w, error) ceff" where
  "rollback_calibration_hardware env battery restore_start restore_end previous failure =
     (if is_unknown failure then returnE [Msg ''outcome-unknown'', Msg (err_to_string failure)]
      else
        bindE (attemptE (set_thresholds env battery restore_start restore_end)) (\<lambda>r.
        let message = err_to_string failure @ (case r of
              Inr result \<Rightarrow> if tw_verified result then [] else
                ''; threshold rollback reported '' @ show_nat (actual_start_percent result) @ ''-''
                  @ show_nat (actual_end_percent result) @ '' instead of '' @ show_nat restore_start @ ''-'' @ show_nat restore_end
            | Inl e \<Rightarrow> ''; threshold rollback also failed: '' @ err_to_string e) in
        if (case r of Inl e \<Rightarrow> is_unknown e | Inr _ \<Rightarrow> False) then returnE [Msg ''outcome-unknown'', Msg message]
        else bindE (attemptE (save_runtime env previous)) (\<lambda>saved.
          returnE (api_error OperationFailed (message @ (case saved of Inr _ \<Rightarrow> []
            | Inl e \<Rightarrow> ''; calibration state rollback also failed: '' @ err_to_string e))))))"

definition begin_calibration :: "'w chenv \<Rightarrow> string \<Rightarrow> nat \<Rightarrow> nat \<Rightarrow> BatteryRuntimeState \<Rightarrow> ('w, unit) ceff" where
  "begin_calibration env battery restore_start restore_end previous =
     seqE (ensureA (\<not> has_durable_operation previous) OperationActive ''another durable battery operation is already active'')
     (bindE (worldC (ch_unix_ms env)) (\<lambda>now.
      seqE (api_save_runtime env ((start_calibration now battery restore_start restore_end)
        \<lparr>rn_uncertain := rn_uncertain previous\<rparr>))
      (bindE (attemptE (set_thresholds env battery 0 100)) (\<lambda>r. case r of
         Inl failure \<Rightarrow> bindE (rollback_runtime env previous failure ''calibration'') throwE
       | Inr _ \<Rightarrow>
           bindE (attemptE (set_charge_behaviour env battery ''force-discharge'')) (\<lambda>r. case r of
             Inl failure \<Rightarrow> bindE (rollback_calibration_hardware env battery restore_start restore_end previous failure) throwE
           | Inr _ \<Rightarrow> returnE ())))))"

definition battery_start_calibration :: "'w chenv \<Rightarrow> string option \<Rightarrow> ('w, battery_reply) ceff" where
  "battery_start_calibration env requested =
     bindE (requested_battery_id requested) (\<lambda>battery.
     bindE (getE (\<lambda>s. and_then (require_power (bs_published s) ''battery calibration'') (\<lambda>_.
        and_then (require_behaviour (bs_published s) battery ''force-discharge'' ''force discharge'') (\<lambda>device.
        restoration_thresholds device ''battery calibration'')))) (\<lambda>r.
     bindE (liftE r) (\<lambda>(restore_start, restore_end).
     bindE (api_load_runtime env) (\<lambda>previous.
     seqE (begin_calibration env battery restore_start restore_end previous)
     (hardware_response env battery None)))))"

text \<open>Cancelling writes the restoring phase first, so that a failed restoration is retried and never discharges again.\<close>

definition battery_cancel_calibration :: "'w chenv \<Rightarrow> string option \<Rightarrow> ('w, battery_reply) ceff" where
  "battery_cancel_calibration env requested =
     bindE (requested_battery_id requested) (\<lambda>battery.
     bindE (api_load_runtime env) (\<lambda>runtime.
     seqE (ensureA (rn_operation runtime = Calibration \<and> rn_operation_battery runtime = battery) OperationInactive
       (''battery '' @ battery @ '' is not being calibrated''))
     (let runtime = runtime\<lparr>rn_operation_phase := Restoring\<rparr> in
      seqE (api_save_runtime env runtime)
      (seqE (map_errE helper_error (set_charge_behaviour env battery ''auto''))
      (case (rn_operation_restore_start runtime, rn_operation_restore_end runtime) of
         (Some s, Some e) \<Rightarrow>
           bindE (map_errE helper_error (set_thresholds env battery s e)) (\<lambda>result.
           bindE (apiE OperationFailed (liftE (complete_calibration_restoration (actual_start_percent result)
             (actual_end_percent result) (tw_verified result) runtime))) (\<lambda>runtime.
           seqE (api_save_runtime env runtime)
           (hardware_response env battery None)))
       | _ \<Rightarrow> throwE (api_error StateFailed ''calibration restoration thresholds are missing''))))))"

fun battery_handle :: "'w chenv \<Rightarrow> battery_request \<Rightarrow> ('w, battery_reply) ceff" where
  "battery_handle env (Set_Thresholds_Request r) = battery_set_thresholds env r"
| "battery_handle env (Set_Protection_Request r) = battery_set_protection env r"
| "battery_handle env (Charge_Once_Request b) = battery_charge_once env b"
| "battery_handle env (Set_Inhibited_Request b enabled) = battery_set_charging_inhibited env b enabled"
| "battery_handle env (Start_Calibration_Request b) = battery_start_calibration env b"
| "battery_handle env (Cancel_Calibration_Request b) = battery_cancel_calibration env b"
| "battery_handle env (Set_Alert_Policy_Request r) = battery_set_alert_policy env r"

definition battery_dispatch :: "'w chenv \<Rightarrow> battery_request \<Rightarrow> ('w, battery_reply) ceff" where
  "battery_dispatch env request =
     bindE (attemptE (battery_handle env request)) (\<lambda>r. returnE (case r of Inr reply \<Rightarrow> reply | Inl e \<Rightarrow> Error_Reply e))"

section \<open>Runs\<close>

text \<open>
  Requests, interactive or not, turns of the monitor, and the profile service changing; a daemon that starts again keeps
  the files.
\<close>

datatype charge_op =
    Request bool battery_request
  | Monitor_Turn
  | Profiles_Change "string list option"
  | Restart

definition charge_boot :: "'w \<Rightarrow> 'w chstate" where
  "charge_boot w = \<lparr>bs_world = w, bs_config = None, bs_runtime = None, bs_published = BatteryState_default,
     bs_alerts = AlertTracker_default, bs_profiles = None, bs_interactive = False, bs_trace = []\<rparr>"

fun charge_step :: "'w chenv \<Rightarrow> 'w chstate \<Rightarrow> charge_op \<Rightarrow> 'w chstate" where
  "charge_step env s (Request interactive r) =
     (snd (battery_dispatch env r (s\<lparr>bs_interactive := interactive\<rparr>)))\<lparr>bs_interactive := False\<rparr>"
| "charge_step env s Monitor_Turn = snd (native_turn env s)"
| "charge_step env s (Profiles_Change p) = s\<lparr>bs_profiles := p\<rparr>"
| "charge_step env s Restart = s\<lparr>bs_published := BatteryState_default, bs_alerts := AlertTracker_default, bs_profiles := None\<rparr>"

end
