(* ===== verification/Charge_Logic.thy ===== *)
theory Charge_Logic
  imports Charge_Requests
begin

text \<open>
  Reasoning about charge control. A predicate on what happened and the runtime state is kept by every turn of the
  monitor if it obeys the laws of \<open>monitor_law\<close>: one for each way the monitor changes the runtime state, and one for
  the helper calls it makes. \<open>request_law\<close> adds what the requests do. The component's theorems are instances.
\<close>

section \<open>Silent steps\<close>

text \<open>The helper's own work touches neither file and records only the attributes it writes.\<close>

definition silent :: "('w, 'a) ceff \<Rightarrow> bool" where
  "silent m \<longleftrightarrow> (\<forall>s. bs_runtime (snd (m s)) = bs_runtime s
     \<and> (\<exists>new. bs_trace (snd (m s)) = new @ bs_trace s \<and> (\<forall>e\<in>set new. \<exists>b a v. e = Wrote_Attr b a v)))"

named_theorems silent_intros

lemma silent_step: "silent m \<Longrightarrow> \<exists>new. bs_runtime (snd (m s)) = bs_runtime s \<and> bs_trace (snd (m s)) = new @ bs_trace s
    \<and> (\<forall>e\<in>set new. \<exists>b a v. e = Wrote_Attr b a v)"
  by (auto simp: silent_def)

lemma silent_bindE [silent_intros]:
  assumes "silent m" "\<And>x. silent (k x)"
  shows "silent (bindE m k)"
  unfolding silent_def
proof
  fix s
  obtain r t where m: "m s = (r, t)" by (cases "m s")
  from silent_step [OF assms(1), of s] m obtain new where
    1: "bs_runtime t = bs_runtime s" "bs_trace t = new @ bs_trace s" "\<forall>e\<in>set new. \<exists>b a v. e = Wrote_Attr b a v" by auto
  show "bs_runtime (snd (bindE m k s)) = bs_runtime s
    \<and> (\<exists>new. bs_trace (snd (bindE m k s)) = new @ bs_trace s \<and> (\<forall>e\<in>set new. \<exists>b a v. e = Wrote_Attr b a v))"
  proof (cases r)
    case (Inl e)
    with m 1 show ?thesis by (auto simp: bindE_def)
  next
    case (Inr x)
    from silent_step [OF assms(2), of x t] obtain new' where
      2: "bs_runtime (snd (k x t)) = bs_runtime t" "bs_trace (snd (k x t)) = new' @ bs_trace t"
        "\<forall>e\<in>set new'. \<exists>b a v. e = Wrote_Attr b a v" by blast
    have "bs_trace (snd (bindE m k s)) = (new' @ new) @ bs_trace s \<and> bs_runtime (snd (bindE m k s)) = bs_runtime s"
      using m Inr 1 2 by (simp add: bindE_def)
    moreover have "\<forall>e\<in>set (new' @ new). \<exists>b a v. e = Wrote_Attr b a v" using 1(3) 2(3) by (simp only: set_append) blast
    ultimately show ?thesis by blast
  qed
qed

lemma silent_seqE [silent_intros]: "silent m \<Longrightarrow> silent n \<Longrightarrow> silent (seqE m n)"
  by (simp add: seqE_def silent_bindE)

lemma silent_basic [silent_intros]:
  "silent (returnE x)" "silent (throwE e)" "silent (liftE r)" "silent (ensureE b msg)" "silent (getE f)"
  "silent (askC g)" "silent (worldC h)" "silent (noteC (Wrote_Attr b' a v))"
  by (auto simp: silent_def eff_defs askC_def worldC_def noteC_def split: prod.split)

lemma silent_map_errE [silent_intros]: "silent m \<Longrightarrow> silent (map_errE f m)"
  and silent_contextE [silent_intros]: "silent m \<Longrightarrow> silent (contextE msg m)"
  by (simp_all add: silent_def)

lemma snd_attemptE [simp]: "snd (attemptE m s) = snd (m s)"
  by (simp add: attemptE_def split: prod.split)

lemma silent_attemptE [silent_intros]: "silent m \<Longrightarrow> silent (attemptE m)"
  by (simp add: silent_def)

lemma silent_cases [silent_intros]:
  "(b \<Longrightarrow> silent m) \<Longrightarrow> (\<not> b \<Longrightarrow> silent n) \<Longrightarrow> silent (if b then m else n)"
  "silent m \<Longrightarrow> (\<And>x. silent (k x)) \<Longrightarrow> silent (case v of None \<Rightarrow> m | Some x \<Rightarrow> k x)"
  "(\<And>a b. silent (f a b)) \<Longrightarrow> silent (case p of (a, b) \<Rightarrow> f a b)"
  "(\<And>e. silent (g e)) \<Longrightarrow> (\<And>x. silent (h x)) \<Longrightarrow> silent (case r of Inl e \<Rightarrow> g e | Inr x \<Rightarrow> h x)"
  by (auto split: option.split prod.split sum.split)

lemma silent_forE [silent_intros]: "(\<And>x. silent (f x)) \<Longrightarrow> silent (forE f xs)"
  by (induction xs) (auto intro: silent_intros)

lemma silent_read_percent [silent_intros]: "silent (read_percent env b a)"
  and silent_write_attr [silent_intros]: "silent (write_attr env b a v)"
  and silent_write_percent [silent_intros]: "silent (write_percent env b a n)"
  and silent_battery_directory [silent_intros]: "silent (battery_directory env b)"
  unfolding read_percent_def write_percent_def write_attr_def battery_directory_def by (intro silent_intros)+

lemma silent_threshold_directory [silent_intros]: "silent (threshold_directory env b)"
  unfolding threshold_directory_def by (intro silent_intros)

lemma silent_get_thresholds [silent_intros]: "silent (get_thresholds env b)"
  unfolding get_thresholds_def by (intro silent_intros)

lemma silent_write_thresholds [silent_intros]: "silent (write_thresholds env b s e p q)"
  unfolding write_thresholds_def by (intro silent_intros)

lemma silent_writers [silent_intros]:
  "silent (writer_set_thresholds env b s e)" "silent (writer_set_behaviour env b x)"
  unfolding writer_set_thresholds_def writer_set_behaviour_def by (intro silent_intros)+

lemma silent_serve [silent_intros]: "silent (serve env interactive c)"
  unfolding serve_def by (intro silent_intros) (cases c; simp; intro silent_intros)

text \<open>Calling the helper records the call last; a call that was never sent is not recorded.\<close>

lemma dispatch_shape:
  assumes "dispatch_write env interactive c s = (r, t)"
  shows "bs_runtime t = bs_runtime s \<and> (\<exists>new. (\<forall>e\<in>set new. \<exists>b a v. e = Wrote_Attr b a v)
    \<and> (bs_trace t = new @ bs_trace s \<and> (\<exists>e. r = Inl e) \<or> bs_trace t = Called c r # new @ bs_trace s))"
proof -
  obtain k w where k: "ch_transport env c (bs_world s) = (k, w)" by (cases "ch_transport env c (bs_world s)")
  let ?s = "s\<lparr>bs_world := w\<rparr>"
  obtain a u where a: "serve env interactive c ?s = (a, u)" by (cases "serve env interactive c ?s")
  from silent_step [OF silent_serve, of env interactive c ?s] a obtain new where
    new: "bs_runtime u = bs_runtime s" "bs_trace u = new @ bs_trace s" "\<forall>e\<in>set new. \<exists>b a v. e = Wrote_Attr b a v" by auto
  show ?thesis
  proof (cases k)
    case (Unreachable e)
    with assms k show ?thesis by (auto simp: dispatch_write_def worldC_def eff_defs intro: exI [of _ "[]"])
  next
    case (No_Answer processed)
    with assms k a new show ?thesis
      by (cases processed; cases a) (auto simp: dispatch_write_def worldC_def eff_defs noteC_def intro: exI [of _ "[]"] exI [of _ new])
  next
    case Answered
    with assms k a new show ?thesis
      by (cases a) (auto simp: dispatch_write_def worldC_def eff_defs noteC_def intro: exI [of _ new])
  qed
qed

section \<open>Which helper calls a runtime state justifies\<close>

fun monitor_call :: "BatteryRuntimeState \<Rightarrow> hcall \<Rightarrow> bool" where
  "monitor_call m (Set_Thresholds b s e) \<longleftrightarrow> (rn_operation m = Calibration \<and> rn_operation_battery m = b)
     \<or> charge_once_targets b m \<or> b \<notin> set (rn_uncertain m)"
| "monitor_call m (Set_Behaviour b x) \<longleftrightarrow> rn_operation_battery m = b
     \<and> (rn_operation m = Inhibit \<and> x = ''inhibit-charge'' \<and> b \<notin> set (rn_uncertain m)
       \<or> rn_operation m = Calibration \<and> (x = ''auto'' \<or> x = ''force-discharge'' \<and> rn_operation_phase m = Discharging))"

fun request_call :: "BatteryRuntimeState \<Rightarrow> hcall \<Rightarrow> bool" where
  "request_call m (Set_Thresholds b s e) \<longleftrightarrow> True"
| "request_call m (Set_Behaviour b x) \<longleftrightarrow> x = ''auto'' \<or> (x = ''inhibit-charge'' \<and> rn_operation m = Inhibit)
     \<or> (x = ''force-discharge'' \<and> rn_operation m = Calibration \<and> rn_operation_phase m = Discharging)"

text \<open>The thresholds of a calibration were set back: the helper confirmed it when the trace was \<open>old\<close>.\<close>

definition restored_since :: "BatteryRuntimeState \<Rightarrow> charge_event list \<Rightarrow> charge_event list \<Rightarrow> bool" where
  "restored_since r old tr \<longleftrightarrow> (\<exists>s e new. rn_operation_restore_start r = Some s \<and> rn_operation_restore_end r = Some e
     \<and> tr = new @ Called (Set_Thresholds (rn_operation_battery r) s e)
         (Ok (Thresholds_Set \<lparr>actual_start_percent = s, actual_end_percent = e, tw_verified = True\<rparr>)) # old)"

locale monitor_law =
  fixes P :: "charge_event list \<Rightarrow> BatteryRuntimeState \<Rightarrow> bool"
    and fallible :: bool
  assumes quiet: "P tr r \<Longrightarrow> (\<And>c x. ev \<noteq> Called c x) \<Longrightarrow> P (ev # tr) r"
    and called: "P tr r \<Longrightarrow> P tr m \<or> fallible \<and> m = BatteryRuntimeState_default \<Longrightarrow> monitor_call m c \<Longrightarrow> P (Called c x # tr) r"
    and fence: "P tr r \<Longrightarrow> P tr (r\<lparr>rn_uncertain := rn_uncertain r @ [b]\<rparr>)"
    and restoring: "P tr r \<Longrightarrow> rn_operation r = Calibration \<Longrightarrow> P tr (r\<lparr>rn_operation_phase := Restoring\<rparr>)"
    and discharged: "P tr r \<Longrightarrow> rn_operation r = Calibration \<Longrightarrow> rn_operation_phase r = Discharging \<Longrightarrow>
      P tr (r\<lparr>rn_operation_phase := Charging\<rparr>)"
    and migrated: "P tr r \<Longrightarrow> rn_charge_once_active r \<Longrightarrow> rn_charge_once_battery r = [] \<Longrightarrow> P tr (r\<lparr>rn_charge_once_battery := b\<rparr>)"
    and charged_once: "P tr r \<Longrightarrow> rn_charge_once_active r \<Longrightarrow>
      P tr (BatteryRuntimeState_default\<lparr>rn_uncertain := filter (\<lambda>b. b \<noteq> rn_charge_once_battery r) (rn_uncertain r)\<rparr>)"
    and calibrated: "P old r \<Longrightarrow> P tr r \<Longrightarrow> restored_since r old tr \<Longrightarrow> rn_operation r = Calibration \<Longrightarrow> P tr (clear_operation r)"
    and unfenced: "P old r \<Longrightarrow> P tr r \<Longrightarrow> restored_since r old tr \<Longrightarrow> rn_operation r = Calibration \<Longrightarrow>
      P tr ((clear_operation r)\<lparr>rn_uncertain := filter (\<lambda>b. b \<noteq> rn_operation_battery r) (rn_uncertain r)\<rparr>)"

locale request_law = monitor_law P True for P :: "charge_event list \<Rightarrow> BatteryRuntimeState \<Rightarrow> bool" +
  assumes asked: "P tr r \<Longrightarrow> P tr m \<Longrightarrow> request_call m c \<Longrightarrow> P (Called c x # tr) r"
    and confirmed: "P tr r \<Longrightarrow> P tr (r\<lparr>rn_uncertain := u\<rparr>)"
    and begun_once: "P tr r \<Longrightarrow> \<not> has_durable_operation r \<Longrightarrow> P tr ((start_charge_once now b s e)\<lparr>rn_uncertain := u\<rparr>)"
    and begun_inhibit: "P tr r \<Longrightarrow> \<not> has_durable_operation r \<Longrightarrow> P tr ((start_inhibit now b)\<lparr>rn_uncertain := u\<rparr>)"
    and begun_calibration: "P tr r \<Longrightarrow> \<not> has_durable_operation r \<Longrightarrow> P tr ((start_calibration now b s e)\<lparr>rn_uncertain := u\<rparr>)"
    and uninhibited: "P tr r \<Longrightarrow> rn_operation r = Inhibit \<Longrightarrow> P tr (clear_operation r)"

section \<open>Triples\<close>

text \<open>What is on disk obeys the predicate; whatever obeyed it before still does.\<close>

context monitor_law begin

definition sound :: "'w chstate \<Rightarrow> bool" where
  "sound s \<longleftrightarrow> P (bs_trace s) (unwrap_or BatteryRuntimeState_default (bs_runtime s))"

definition mem :: "BatteryRuntimeState \<Rightarrow> charge_event list \<Rightarrow> bool" where
  "mem m tr \<longleftrightarrow> P tr m"

definition grows :: "charge_event list \<Rightarrow> charge_event list \<Rightarrow> bool" where
  "grows tr tr' \<longleftrightarrow> (\<exists>new. tr' = new @ tr) \<and> (\<forall>r. P tr r \<longrightarrow> P tr' r)"

definition leads :: "(charge_event list \<Rightarrow> bool) \<Rightarrow> ('w, 'a) ceff \<Rightarrow> ('a \<Rightarrow> charge_event list \<Rightarrow> bool) \<Rightarrow> bool" where
  "leads F m G \<longleftrightarrow> (\<forall>s. sound s \<and> F (bs_trace s) \<longrightarrow>
     (case m s of (r, t) \<Rightarrow> sound t \<and> grows (bs_trace s) (bs_trace t) \<and> (\<forall>x. r = Inr x \<longrightarrow> G x (bs_trace t))))"

lemma grows_refl [simp]: "grows tr tr"
  by (simp add: grows_def)

lemma grows_trans: "grows a b \<Longrightarrow> grows b c \<Longrightarrow> grows a c"
  by (fastforce simp: grows_def)

lemma grows_mem: "grows tr tr' \<Longrightarrow> mem m tr \<Longrightarrow> mem m tr'"
  by (simp add: grows_def mem_def)

lemma leadsI:
  assumes "\<And>s r t. sound s \<Longrightarrow> F (bs_trace s) \<Longrightarrow> m s = (r, t) \<Longrightarrow>
      sound t \<and> grows (bs_trace s) (bs_trace t) \<and> (\<forall>x. r = Inr x \<longrightarrow> G x (bs_trace t))"
  shows "leads F m G"
  using assms by (auto simp: leads_def split: prod.split)

lemma leadsD:
  "leads F m G \<Longrightarrow> sound s \<Longrightarrow> F (bs_trace s) \<Longrightarrow> m s = (r, t) \<Longrightarrow>
     sound t \<and> grows (bs_trace s) (bs_trace t) \<and> (\<forall>x. r = Inr x \<longrightarrow> G x (bs_trace t))"
  by (auto simp: leads_def dest: spec [of _ s])

lemma leads_sound: "leads (\<lambda>_. True) m G \<Longrightarrow> sound s \<Longrightarrow> sound (snd (m s))"
  by (cases "m s") (auto dest: leadsD)

lemma leads_bindE:
  assumes "leads F m G" "\<And>x. leads (G x) (k x) H"
  shows "leads F (bindE m k) H"
proof (rule leadsI)
  fix s r t
  assume s: "sound s" "F (bs_trace s)" "bindE m k s = (r, t)"
  obtain r1 u where m: "m s = (r1, u)" by (cases "m s")
  note 1 = leadsD [OF assms(1) s(1,2) m]
  show "sound t \<and> grows (bs_trace s) (bs_trace t) \<and> (\<forall>x. r = Inr x \<longrightarrow> H x (bs_trace t))"
  proof (cases r1)
    case (Inl e)
    with m s(3) 1 show ?thesis by (auto simp: bindE_def)
  next
    case (Inr x)
    with m s(3) have k: "k x u = (r, t)" by (simp add: bindE_def)
    from 1 Inr have u: "sound u" "G x (bs_trace u)" "grows (bs_trace s) (bs_trace u)" by auto
    from leadsD [OF assms(2) u(1,2) k] u(3) show ?thesis by (blast intro: grows_trans)
  qed
qed

lemma leads_seqE: "leads F m (\<lambda>_. G) \<Longrightarrow> leads G n H \<Longrightarrow> leads F (seqE m n) H"
  unfolding seqE_def by (rule leads_bindE)

lemma leads_conseq:
  "leads F' m G' \<Longrightarrow> (\<And>tr. F tr \<Longrightarrow> F' tr) \<Longrightarrow> (\<And>x tr. G' x tr \<Longrightarrow> G x tr) \<Longrightarrow> leads F m G"
  unfolding leads_def by (fastforce split: prod.splits)

lemma leads_pre: "leads F' m G \<Longrightarrow> (\<And>tr. F tr \<Longrightarrow> F' tr) \<Longrightarrow> leads F m G"
  by (rule leads_conseq)

text \<open>Facts that growing traces keep can be carried along.\<close>

lemma leads_frame:
  assumes "leads F m G" and "\<And>tr tr'. grows tr tr' \<Longrightarrow> K tr \<Longrightarrow> K tr'"
  shows "leads (\<lambda>tr. F tr \<and> K tr) m (\<lambda>x tr. G x tr \<and> K tr)"
  using assms unfolding leads_def by (fastforce split: prod.splits)

lemma leads_fact: "(\<And>tr. F tr \<Longrightarrow> Q) \<Longrightarrow> (Q \<Longrightarrow> leads F m G) \<Longrightarrow> leads F m G"
  by (cases Q) (auto simp: leads_def)

lemma leads_returnE: "(\<And>tr. F tr \<Longrightarrow> G x tr) \<Longrightarrow> leads F (returnE x) G"
  and leads_throwE: "leads F (throwE e) H"
  and leads_getE: "(\<And>x. leads F (k x) G') \<Longrightarrow> leads F (bindE (getE f) k) G'"
  and leads_liftE: "(\<And>x tr. r = Inr x \<Longrightarrow> F tr \<Longrightarrow> G'' x tr) \<Longrightarrow> leads F (liftE r) G''"
  by (auto simp: leads_def eff_defs)

lemma leads_ensureA: "(\<And>tr. b \<Longrightarrow> F tr \<Longrightarrow> G () tr) \<Longrightarrow> leads F (ensureA b code msg) G"
  by (auto simp: ensureA_def intro: leads_returnE leads_throwE)

lemma leads_ensureE: "(\<And>tr. b \<Longrightarrow> F tr \<Longrightarrow> G () tr) \<Longrightarrow> leads F (ensureE b msg) G"
  by (auto simp: leads_def eff_defs ensure_def)

lemma leads_ensure_seq:
  "(b \<Longrightarrow> leads F n G) \<Longrightarrow> leads F (seqE (ensureE b msg) n) G"
  "(b \<Longrightarrow> leads F n G) \<Longrightarrow> leads F (seqE (ensureA b code msg) n) G"
  by (cases b; auto simp: leads_def eff_defs ensureA_def ensure_def)+

lemma leads_map_errE: "leads F m G \<Longrightarrow> leads F (map_errE f m) G"
  by (fastforce simp: leads_def map_errE_def split: prod.splits sum.splits)

lemma leads_attemptE: "leads F m G \<Longrightarrow> leads F (attemptE m) (\<lambda>r tr. \<forall>x. r = Inr x \<longrightarrow> G x tr)"
  by (fastforce simp: leads_def attemptE_def split: prod.splits)

lemma leads_if: "(b \<Longrightarrow> leads F m G) \<Longrightarrow> (\<not> b \<Longrightarrow> leads F n G) \<Longrightarrow> leads F (if b then m else n) G"
  by simp

lemma leads_option: "(v = None \<Longrightarrow> leads F m G) \<Longrightarrow> (\<And>x. v = Some x \<Longrightarrow> leads F (k x) G) \<Longrightarrow> leads F (case v of None \<Rightarrow> m | Some x \<Rightarrow> k x) G"
  by (cases v) simp_all

lemma leads_prod: "(\<And>a b. p = (a, b) \<Longrightarrow> leads F (f a b) G) \<Longrightarrow> leads F (case p of (a, b) \<Rightarrow> f a b) G"
  by (cases p) simp

lemma leads_sum: "(\<And>e. r = Inl e \<Longrightarrow> leads F (f e) G) \<Longrightarrow> (\<And>x. r = Inr x \<Longrightarrow> leads F (k x) G) \<Longrightarrow>
    leads F (case r of Inl e \<Rightarrow> f e | Inr x \<Rightarrow> k x) G"
  by (cases r) simp_all

lemma leads_let: "leads F (f x) G \<Longrightarrow> leads F (let y = x in f y) G"
  by simp

lemmas leads_cases = leads_if leads_option leads_prod leads_sum leads_let

section \<open>Steps\<close>

lemma quiet_many: "P tr r \<Longrightarrow> (\<forall>e\<in>set new. \<exists>b a v. e = Wrote_Attr b a v) \<Longrightarrow> P (new @ tr) r"
  by (induction new) (auto intro: quiet)

lemma leads_silent:
  fixes m :: "('w, 'a) ceff"
  shows "silent m \<Longrightarrow> leads F m (\<lambda>_ _. True)"
proof (rule leadsI)
  fix s :: "'w chstate" and r t
  assume "silent m" "sound s" "m s = (r, t)"
  with silent_step [OF this(1), of s] show "sound t \<and> grows (bs_trace s) (bs_trace t) \<and> (\<forall>x. r = Inr x \<longrightarrow> True)"
    by (auto simp: sound_def grows_def quiet_many)
qed

lemma leads_modify:
  "(\<And>s. bs_runtime (f s) = bs_runtime s) \<Longrightarrow> (\<And>s. bs_trace (f s) = bs_trace s) \<Longrightarrow> leads F (modifyE f) (\<lambda>_. F)"
  by (auto simp: leads_def eff_defs sound_def)

lemma leads_noteC: "(\<And>c x. ev \<noteq> Called c x) \<Longrightarrow> leads F (noteC ev) (\<lambda>_ _. True)"
  by (auto simp: leads_def noteC_def eff_defs sound_def grows_def quiet)

lemma leads_load_runtime: "leads F (load_runtime env) mem"
proof (rule leadsI)
  fix s r t
  assume "sound s" "load_runtime env s = (r, t)"
  then show "sound t \<and> grows (bs_trace s) (bs_trace t) \<and> (\<forall>x. r = Inr x \<longrightarrow> mem x (bs_trace t))"
    by (auto simp: load_runtime_def askC_def eff_defs sound_def mem_def split: prod.splits sum.splits)
qed

lemma leads_load_config: "leads F (load_config env) (\<lambda>_ _. True)"
  unfolding load_config_def by (rule leads_silent) (intro silent_intros)

lemma leads_save_runtime: "leads (mem m) (save_runtime env m) (\<lambda>_ _. True)"
proof (rule leadsI)
  fix s r t
  assume s: "sound s" "mem m (bs_trace s)" "save_runtime env m s = (r, t)"
  then have "P (Saved_Runtime m # bs_trace s) m" "\<And>r. P (bs_trace s) r \<Longrightarrow> P (Saved_Runtime m # bs_trace s) r"
    by (auto simp: mem_def intro: quiet)
  with s show "sound t \<and> grows (bs_trace s) (bs_trace t) \<and> (\<forall>x. r = Inr x \<longrightarrow> True)"
    by (auto simp: save_runtime_def worldC_def noteC_def eff_defs sound_def grows_def unwrap_or_def Let_def
      split: prod.splits save_outcome.splits)
qed

lemma leads_save_config: "leads F (save_config env c) (\<lambda>_ _. True)"
proof (rule leadsI)
  fix s r t
  assume s: "sound s" "save_config env c s = (r, t)"
  have "\<And>r. P (bs_trace s) r \<Longrightarrow> P (Saved_Config c # bs_trace s) r" by (auto intro: quiet)
  with s show "sound t \<and> grows (bs_trace s) (bs_trace t) \<and> (\<forall>x. r = Inr x \<longrightarrow> True)"
    by (auto simp: save_config_def worldC_def noteC_def eff_defs sound_def grows_def unwrap_or_def Let_def
      split: prod.splits save_outcome.splits sum.splits)
qed

end
section \<open>Helper calls\<close>

context monitor_law begin

definition callable :: "hcall \<Rightarrow> charge_event list \<Rightarrow> bool" where
  "callable c tr \<longleftrightarrow> (\<forall>new r x. (\<forall>e\<in>set new. \<exists>b a v. e = Wrote_Attr b a v) \<longrightarrow> P (new @ tr) r \<longrightarrow> P (Called c x # new @ tr) r)"

definition answered :: "hcall \<Rightarrow> hvalue \<Rightarrow> BatteryRuntimeState \<Rightarrow> charge_event list \<Rightarrow> bool" where
  "answered c v m tr \<longleftrightarrow> (\<exists>new old. tr = new @ Called c (Ok v) # old \<and> P old m)"

lemma answered_grows: "grows tr tr' \<Longrightarrow> answered c v m tr \<Longrightarrow> answered c v m tr'"
  by (auto simp: grows_def answered_def) (metis append.assoc)

lemma monitor_callable: "mem m tr \<or> fallible \<and> m = BatteryRuntimeState_default \<Longrightarrow> monitor_call m c \<Longrightarrow> callable c tr"
  by (auto simp: callable_def mem_def intro: called quiet_many)

lemma leads_mark_uncertain: "leads F (mark_uncertain env b) (\<lambda>_ _. True)"
  unfolding mark_uncertain_def
  by (intro leads_map_errE leads_bindE [OF leads_load_runtime] leads_pre [OF leads_save_runtime]) (auto simp: mem_def fence)

lemma leads_dispatch:
  "leads (\<lambda>tr. callable c tr \<and> mem m tr) (dispatch_write env interactive c) (\<lambda>v. answered c v m)"
proof (rule leadsI)
  fix s r t
  assume s: "sound s" "callable c (bs_trace s) \<and> mem m (bs_trace s)" "dispatch_write env interactive c s = (r, t)"
  from dispatch_shape [OF s(3)] obtain new where
    d: "bs_runtime t = bs_runtime s" "\<forall>e\<in>set new. \<exists>b a v. e = Wrote_Attr b a v"
      "bs_trace t = new @ bs_trace s \<and> (\<exists>e. r = Inl e) \<or> bs_trace t = Called c r # new @ bs_trace s" by blast
  have q: "P (bs_trace s) x \<Longrightarrow> P (new @ bs_trace s) x" for x by (rule quiet_many [OF _ d(2)])
  have k: "P (bs_trace s) x \<Longrightarrow> P (Called c r # new @ bs_trace s) x" for x using q s(2) d(2) by (simp add: callable_def)
  show "sound t \<and> grows (bs_trace s) (bs_trace t) \<and> (\<forall>x. r = Inr x \<longrightarrow> answered c x m (bs_trace t))"
  proof (cases "bs_trace t = Called c r # new @ bs_trace s")
    case True
    then have "grows (bs_trace s) (bs_trace t)" "sound t"
      using k s(1) d(1) by (auto simp: grows_def sound_def intro: exI [of _ "Called c r # new"])
    moreover have "answered c x m (bs_trace t)" if "r = Inr x" for x
      using True q [of m] s(2) that unfolding answered_def mem_def
      by (intro exI [of _ "[]"] exI [of _ "new @ bs_trace s"]) simp
    ultimately show ?thesis by blast
  next
    case False
    with d(3) have "bs_trace t = new @ bs_trace s" "\<exists>e. r = Inl e" by auto
    then show ?thesis using q s(1) d(1) by (auto simp: grows_def sound_def)
  qed
qed

lemma leads_catchE:
  assumes "leads F m G" "\<And>e. leads (\<lambda>_. True) (h e) G"
  shows "leads F (catchE m h) G"
proof (rule leadsI)
  fix s r t
  assume s: "sound s" "F (bs_trace s)" "catchE m h s = (r, t)"
  obtain r1 u where m: "m s = (r1, u)" by (cases "m s")
  note 1 = leadsD [OF assms(1) s(1,2) m]
  show "sound t \<and> grows (bs_trace s) (bs_trace t) \<and> (\<forall>x. r = Inr x \<longrightarrow> G x (bs_trace t))"
  proof (cases r1)
    case (Inl e)
    with m s(3) have "h e u = (r, t)" by (simp add: catchE_def)
    from leadsD [OF assms(2) _ _ this] 1 show ?thesis by (blast intro: grows_trans)
  next
    case (Inr x)
    with m s(3) 1 show ?thesis by (auto simp: catchE_def)
  qed
qed

lemma leads_write_call:
  "leads (\<lambda>tr. callable c tr \<and> mem m tr) (write_call env c) (\<lambda>v. answered c v m)"
proof -
  have h: "leads (\<lambda>_. True) (if is_unknown e then seqE (mark_uncertain env (call_battery c)) (throwE e) else throwE e)
      (\<lambda>v. answered c v m)" for e
    by (intro leads_if leads_seqE [OF leads_mark_uncertain] leads_throwE)
  have w: "leads (\<lambda>tr. callable c tr \<and> mem m tr) (if i then worldC (ch_cancelled env) else returnE False)
      (\<lambda>_ tr. callable c tr \<and> mem m tr)" for i
    by (cases i) (auto simp: leads_def worldC_def eff_defs sound_def split: prod.split)
  show ?thesis
    unfolding write_call_def
    by (intro leads_getE leads_bindE [OF w] leads_ensure_seq leads_catchE [OF leads_dispatch] h)
qed

lemma leads_set_thresholds:
  "leads (\<lambda>tr. callable (Set_Thresholds b s e) tr \<and> mem m tr) (set_thresholds env b s e)
     (\<lambda>r. answered (Set_Thresholds b s e) (Thresholds_Set r) m)"
  unfolding set_thresholds_def
  by (rule leads_bindE [OF leads_write_call]) (auto split: hvalue.split intro!: leads_returnE leads_throwE)

lemma leads_set_charge_behaviour:
  "leads (\<lambda>tr. callable (Set_Behaviour b x) tr \<and> mem m tr) (set_charge_behaviour env b x) (\<lambda>_ _. True)"
  unfolding set_charge_behaviour_def
  by (rule leads_bindE [OF leads_write_call]) (auto split: hvalue.split intro!: leads_returnE leads_throwE)

text \<open>There is always something on disk that obeys the predicate.\<close>

lemma leads_some_mem:
  assumes "\<And>m. leads (\<lambda>tr. F tr \<and> mem m tr) n G"
  shows "leads F n G"
proof (rule leadsI)
  fix s r t
  assume s: "sound s" "F (bs_trace s)" "n s = (r, t)"
  then have "mem (unwrap_or BatteryRuntimeState_default (bs_runtime s)) (bs_trace s)" by (simp add: sound_def mem_def)
  with leadsD [OF assms s(1) _ s(3)] s(2) show "sound t \<and> grows (bs_trace s) (bs_trace t) \<and> (\<forall>x. r = Inr x \<longrightarrow> G x (bs_trace t))"
    by blast
qed

lemma leads_set_thresholds':
  "leads (callable (Set_Thresholds b s e)) (set_thresholds env b s e) (\<lambda>_ _. True)"
  by (rule leads_some_mem, rule leads_conseq [OF leads_set_thresholds]) auto

lemma leads_set_charge_behaviour':
  "leads (callable (Set_Behaviour b x)) (set_charge_behaviour env b x) (\<lambda>_ _. True)"
  by (rule leads_some_mem, rule leads_conseq [OF leads_set_charge_behaviour]) auto

end

section \<open>The monitor\<close>

definition reads :: "'w chenv \<Rightarrow> bool" where
  "reads env \<longleftrightarrow> (\<forall>w. is_ok (fst (ch_load_runtime env w)))"

lemma target_justified:
  "reconciliation_target c m due b = Some t \<Longrightarrow> monitor_call m (Set_Thresholds b s e)"
  by (auto simp: reconciliation_target_def Let_def split: if_splits)

lemma observed_ids [simp]:
  "bd_id (update_observed_thresholds d s e) = bd_id d" "bd_id (set_observed_behaviour d x) = bd_id d"
  by (simp_all add: update_observed_thresholds_def set_observed_behaviour_def)

lemma clear_phase [simp]: "clear_operation (m\<lparr>rn_operation_phase := p\<rparr>) = clear_operation m"
  by (simp add: clear_operation_def)

lemma restored_result:
  "complete_calibration_restoration (actual_start_percent r) (actual_end_percent r) (tw_verified r) m = Inr m' \<Longrightarrow>
     m' = clear_operation m \<and> rn_operation m = Calibration \<and> rn_operation_restore_start m = Some (actual_start_percent r)
     \<and> rn_operation_restore_end m = Some (actual_end_percent r) \<and> r = \<lparr>actual_start_percent = actual_start_percent r,
         actual_end_percent = actual_end_percent r, tw_verified = True\<rparr>"
  by (cases r) (auto simp: complete_calibration_restoration_def and_then_Ok_iff)

context monitor_law begin

definition known :: "BatteryRuntimeState \<Rightarrow> charge_event list \<Rightarrow> bool" where
  "known m tr \<longleftrightarrow> mem m tr \<or> fallible \<and> m = BatteryRuntimeState_default"

lemma known_grows: "grows tr tr' \<Longrightarrow> known m tr \<Longrightarrow> known m tr'"
  by (auto simp: known_def intro: grows_mem)

lemma known_mem: "known m tr \<Longrightarrow> m \<noteq> BatteryRuntimeState_default \<Longrightarrow> mem m tr"
  by (auto simp: known_def)

lemma not_default:
  "rn_charge_once_active m \<Longrightarrow> m \<noteq> BatteryRuntimeState_default"
  "rn_operation m \<noteq> No_Operation \<Longrightarrow> m \<noteq> BatteryRuntimeState_default"
  by (auto simp: BatteryRuntimeState_default_def)

lemma leads_load_policy:
  assumes "fallible \<or> reads env"
  shows "leads F (load_policy_data env) (\<lambda>(config, m, perr). known m)"
proof -
  have load: "leads F' (attemptE (load_runtime env)) (\<lambda>r tr. known (fst (policy_or_default BatteryRuntimeState_default r p)) tr)"
    for F' and p :: "string option"
  proof (rule leadsI)
    fix s r t
    assume s: "sound s" "attemptE (load_runtime env) s = (r, t)"
    obtain a u where a: "load_runtime env s = (a, u)" by (cases "load_runtime env s")
    from s a have [simp]: "u = t" "r = Inr a" by (auto simp: attemptE_def)
    note 1 = leadsD [OF leads_load_runtime s(1) TrueI a]
    have "known (fst (policy_or_default BatteryRuntimeState_default a p)) (bs_trace t)"
    proof (cases a)
      case (Inl e)
      have "\<not> reads env"
      proof
        assume "reads env"
        then have "is_ok (fst (ch_load_runtime env (bs_world s)))" by (simp add: reads_def)
        with a Inl show False
          by (auto simp: load_runtime_def askC_def eff_defs is_ok_def split: prod.splits sum.splits)
      qed
      with assms Inl show ?thesis unfolding known_def policy_or_default_def by auto
    next
      case (Inr x)
      with 1 show ?thesis by (simp add: known_def policy_or_default_def)
    qed
    with 1 show "sound t \<and> grows (bs_trace s) (bs_trace t) \<and> (\<forall>x. r = Inr x \<longrightarrow>
        known (fst (policy_or_default BatteryRuntimeState_default x p)) (bs_trace t))" by auto
  qed
  show ?thesis
    unfolding load_policy_data_def
    by (rule leads_bindE [OF leads_attemptE [OF leads_load_config]], rule leads_bindE [OF load])
      (auto simp: Let_def policy_or_default_def split: sum.split intro!: leads_returnE)
qed

lemma leads_save_noting: "leads (mem m) (save_runtime_noting env m p) (\<lambda>_ _. True)"
  unfolding save_runtime_noting_def by (rule leads_bindE [OF leads_attemptE [OF leads_save_runtime]]) (auto intro: leads_returnE)

lemma leads_migrate:
  "leads (known m) (migrate_charge_once_battery env state m p) (\<lambda>(m', p'). known m')"
proof -
  have "leads (known m) (bindE (save_runtime_noting env (m\<lparr>rn_charge_once_battery := b\<rparr>) p)
      (\<lambda>perr. returnE (m\<lparr>rn_charge_once_battery := b\<rparr>, perr))) (\<lambda>(m', p'). known m')"
    if "rn_charge_once_active m" "rn_charge_once_battery m = []" for b
  proof -
    let ?m = "m\<lparr>rn_charge_once_battery := b\<rparr>"
    have start: "known m tr \<Longrightarrow> mem ?m tr" for tr
      using known_mem [OF _ not_default(1)] that by (auto simp: mem_def intro: migrated)
    have "leads (\<lambda>tr. mem ?m tr \<and> mem ?m tr) (save_runtime_noting env ?m p) (\<lambda>_ tr. True \<and> mem ?m tr)"
      by (rule leads_frame [OF leads_save_noting]) (rule grows_mem)
    from leads_bindE [OF this leads_returnE] show ?thesis
      by (rule leads_conseq [where G' = "\<lambda>(m', p'). known m'"]) (auto simp: known_def start)
  qed
  then show ?thesis by (auto simp: migrate_charge_once_battery_def Let_def intro!: leads_returnE)
qed

lemma leads_ensure_behaviour:
  "leads (callable (Set_Behaviour (bd_id d) x)) (ensure_charge_behaviour env d x p) (\<lambda>(ok, d', p') _. bd_id d' = bd_id d)"
  unfolding ensure_charge_behaviour_def
  by (intro leads_if leads_returnE, simp, rule leads_bindE [OF leads_attemptE [OF leads_set_charge_behaviour']])
    (auto split: sum.split intro!: leads_returnE)

text \<open>A turn of an operation on the battery of the runtime state.\<close>

definition turned_to :: "BatteryDeviceState \<Rightarrow> bool \<times> BatteryDeviceState \<times> BatteryRuntimeState \<times> string option \<Rightarrow> charge_event list \<Rightarrow> bool" where
  "turned_to d = (\<lambda>(save, d', m', p) tr. bd_id d' = bd_id d \<and> mem m' tr)"

lemma leads_ensure_turn:
  assumes "monitor_call m (Set_Behaviour (bd_id d) x)"
    and "\<And>ok d' p' tr. mem m tr \<Longrightarrow> bd_id d' = bd_id d \<Longrightarrow> turned_to d (h ok d' p') tr"
  shows "leads (mem m) (bindE (ensure_charge_behaviour env d x p) (\<lambda>(ok, d', p'). returnE (h ok d' p'))) (turned_to d)"
proof -
  have "leads (\<lambda>tr. callable (Set_Behaviour (bd_id d) x) tr \<and> mem m tr) (ensure_charge_behaviour env d x p)
      (\<lambda>a tr. (case a of (ok, d', p') \<Rightarrow> bd_id d' = bd_id d) \<and> mem m tr)"
    by (rule leads_conseq [OF leads_frame [OF leads_ensure_behaviour, of "mem m"]]) (auto intro: grows_mem)
  then have "leads (mem m) (ensure_charge_behaviour env d x p) (\<lambda>a tr. (case a of (ok, d', p') \<Rightarrow> bd_id d' = bd_id d) \<and> mem m tr)"
    by (rule leads_pre) (auto intro: monitor_callable assms(1))
  then show ?thesis
    by (rule leads_bindE) (auto split: prod.split intro!: leads_returnE assms(2))
qed

end

section \<open>Restoring and whole turns\<close>

context monitor_law begin

lemma leads_try_behaviour:
  assumes "monitor_call m (Set_Behaviour b x)"
  shows "leads (mem m) (attemptE (set_charge_behaviour env b x)) (\<lambda>_. mem m)"
  by (rule leads_conseq [OF leads_frame [OF leads_attemptE [OF leads_set_charge_behaviour'], of "mem m" b x env]])
    (auto intro: grows_mem monitor_callable assms)

lemma leads_try_thresholds:
  assumes "monitor_call m (Set_Thresholds b s e)"
  shows "leads (mem m) (attemptE (set_thresholds env b s e))
    (\<lambda>r tr. (\<forall>v. r = Inr v \<longrightarrow> answered (Set_Thresholds b s e) (Thresholds_Set v) m tr) \<and> mem m tr)"
  by (rule leads_conseq [OF leads_frame [OF leads_attemptE [OF leads_set_thresholds], of "mem m" b s e m env]])
    (auto intro: grows_mem monitor_callable assms)

text \<open>After a restoration: nothing but the phase changed, or the operation is cleared and its thresholds were confirmed.\<close>

definition set_right :: "BatteryRuntimeState \<Rightarrow> bool \<Rightarrow> BatteryRuntimeState \<Rightarrow> charge_event list \<Rightarrow> bool" where
  "set_right m save m' tr \<longleftrightarrow> mem m' tr \<and>
     (save \<longrightarrow> (\<exists>m0 old. m' = clear_operation m0 \<and> rn_operation m0 = Calibration \<and> rn_operation_battery m0 = rn_operation_battery m
        \<and> rn_uncertain m0 = rn_uncertain m \<and> P old m0 \<and> mem m0 tr \<and> restored_since m0 old tr))"

lemma set_right_False [simp]: "set_right m False m' tr \<longleftrightarrow> mem m' tr"
  by (simp add: set_right_def)

lemma set_right_result:
  assumes "answered (Set_Thresholds (rn_operation_battery m) s e) (Thresholds_Set r) m tr" "mem m tr"
    and "rn_operation_restore_start m = Some s" "rn_operation_restore_end m = Some e"
    and c: "complete_calibration_restoration (actual_start_percent r) (actual_end_percent r) (tw_verified r) m = Inr m'"
  shows "set_right m True m' tr"
proof -
  note r = restored_result [OF c]
  from assms(1) obtain new old where tr: "tr = new @ Called (Set_Thresholds (rn_operation_battery m) s e) (Ok (Thresholds_Set r)) # old"
    and old: "P old m" by (auto simp: answered_def)
  from r assms(3,4) have se: "s = actual_start_percent r" "e = actual_end_percent r" by simp_all
  with r have "r = \<lparr>actual_start_percent = s, actual_end_percent = e, tw_verified = True\<rparr>" by simp
  with tr assms(3,4) have "restored_since m old tr" by (auto simp: restored_since_def)
  with old assms(2) r show ?thesis by (auto simp: set_right_def mem_def intro: calibrated)
qed

lemma leads_restore_hardware:
  assumes op: "rn_operation m = Calibration" "rn_operation_battery m = bd_id d"
  shows "leads (mem m) (restore_hardware env d m p) (\<lambda>(save, d', m', p') tr. bd_id d' = bd_id d \<and> set_right m save m' tr)"
proof -
  have 2: "leads (mem m) (attemptE (case (rn_operation_restore_start m, rn_operation_restore_end m) of
         (Some s, Some e) \<Rightarrow> set_thresholds env (bd_id d) s e
       | _ \<Rightarrow> throwE (err ''calibration restoration thresholds are missing'')))
     (\<lambda>r tr. mem m tr \<and> (\<forall>v. r = Inr v \<longrightarrow> (\<exists>s e. rn_operation_restore_start m = Some s \<and> rn_operation_restore_end m = Some e
        \<and> answered (Set_Thresholds (rn_operation_battery m) s e) (Thresholds_Set v) m tr)))"
  proof (cases "rn_operation_restore_start m = None \<or> rn_operation_restore_end m = None")
    case True
    have "leads (mem m) (attemptE (throwE failure)) (\<lambda>r tr. mem m tr \<and> (\<forall>v. r \<noteq> Inr v))" for failure
      by (simp add: leads_def eff_defs)
    from this [of "err ''calibration restoration thresholds are missing''"] True show ?thesis
      by (auto split: option.split)
  next
    case False
    then show ?thesis
      using op by (auto intro!: leads_conseq [OF leads_try_thresholds])
  qed
  have end': "leads (\<lambda>tr. mem m tr \<and> (\<forall>v. r = Inr v \<longrightarrow> (\<exists>s e. rn_operation_restore_start m = Some s \<and> rn_operation_restore_end m = Some e
        \<and> answered (Set_Thresholds (rn_operation_battery m) s e) (Thresholds_Set v) m tr)))
      (case (b, r) of
       (Inr actual, Inr r) \<Rightarrow>
         let device = update_observed_thresholds (set_observed_behaviour d actual) (actual_start_percent r) (actual_end_percent r) in
         (case complete_calibration_restoration (actual_start_percent r) (actual_end_percent r) (tw_verified r) m of
            Inr runtime' \<Rightarrow> returnE (True, device, runtime', p)
          | Inl e \<Rightarrow> returnE (False, device, m, append_error p (err_to_string e)))
     | _ \<Rightarrow>
         let perr = (case b of Inl e \<Rightarrow> append_error p (err_to_string e) | Inr _ \<Rightarrow> p);
             perr = (case r of Inl e \<Rightarrow> append_error perr (err_to_string e) | Inr _ \<Rightarrow> perr) in
         returnE (False, d, m, perr))
      (\<lambda>(save, d', m', p') tr. bd_id d' = bd_id d \<and> set_right m save m' tr)" for b :: "string result" and r
    by (cases b; cases r) (auto simp: Let_def split: sum.split intro!: leads_returnE intro: set_right_result)
  show ?thesis
    unfolding restore_hardware_def
    by (intro leads_bindE [OF leads_try_behaviour] leads_bindE [OF 2] end') (simp add: op)
qed

lemma leads_finish_operation:
  assumes op: "rn_operation m = Calibration" "rn_operation_battery m = bd_id d"
  shows "leads (mem m) (finish_runtime_operation env d m p) (\<lambda>(save, d', m', p') tr. bd_id d' = bd_id d \<and> set_right m save m' tr)"
proof (cases "rn_operation_phase m = Restoring")
  case True
  then show ?thesis by (simp add: finish_runtime_operation_def leads_restore_hardware [OF op])
next
  case False
  let ?m = "m\<lparr>rn_operation_phase := Restoring\<rparr>"
  have start: "mem m tr \<Longrightarrow> mem ?m tr" for tr using op by (simp add: mem_def restoring)
  have save: "leads (mem ?m) (attemptE (save_runtime env ?m)) (\<lambda>_. mem ?m)"
    by (rule leads_conseq [OF leads_frame [OF leads_attemptE [OF leads_save_runtime], of "mem ?m" ?m env]]) (auto intro: grows_mem)
  have "set_right ?m save m' tr \<Longrightarrow> set_right m save m' tr" for save m' tr by (simp add: set_right_def)
  then have restore: "leads (mem ?m) (restore_hardware env d ?m p) (\<lambda>(save, d', m', p') tr. bd_id d' = bd_id d \<and> set_right m save m' tr)"
    by (intro leads_conseq [OF leads_restore_hardware [of ?m d env p]]) (auto simp: op)
  have "leads (mem ?m) (finish_runtime_operation env d m p) (\<lambda>(save, d', m', p') tr. bd_id d' = bd_id d \<and> set_right m save m' tr)"
    using False unfolding finish_runtime_operation_def Let_def
    by (simp, intro leads_bindE [OF save] leads_sum restore) (auto simp: set_right_def intro: leads_returnE)
  then show ?thesis by (rule leads_pre) (rule start)
qed

lemma set_right_turned: "bd_id d' = bd_id d \<and> set_right m save m' tr \<Longrightarrow> turned_to d (save, d', m', p) tr"
  by (simp add: turned_to_def set_right_def)

lemma leads_finish_turned_to:
  "rn_operation m = Calibration \<Longrightarrow> rn_operation_battery m = bd_id d \<Longrightarrow> leads (mem m) (finish_runtime_operation env d m p) (turned_to d)"
  by (rule leads_conseq [OF leads_finish_operation]) (auto intro: set_right_turned)

lemma leads_turn_returnE: "leads (mem m) (returnE (save, d, m, p)) (turned_to d)"
  by (rule leads_returnE) (simp add: turned_to_def)

lemma leads_calibration_turn:
  assumes op: "rn_operation m = Calibration" "rn_operation_battery m = bd_id d"
  shows "leads (mem m) (reconcile_calibration env d on_ac m p) (turned_to d)"
proof -
  have clock: "leads (mem m) (worldC (ch_unix_ms env)) (\<lambda>_. mem m)"
    by (rule leads_conseq [OF leads_frame [OF leads_silent [OF silent_basic(7)], of "mem m"]]) (auto intro: grows_mem)
  have ensure: "leads (mem m) (bindE (ensure_charge_behaviour env d x p) (\<lambda>(_, d', p'). returnE (False, d', m, p'))) (turned_to d)"
    if "x = ''auto'' \<or> x = ''force-discharge'' \<and> rn_operation_phase m = Discharging" for x
    by (rule leads_ensure_turn) (use op that in \<open>auto simp: turned_to_def\<close>)
  have charge: "leads (mem m) (bindE (ensure_charge_behaviour env d ''auto'' p) (\<lambda>(ok, d', p').
      returnE (if ok then (True, d', m\<lparr>rn_operation_phase := Charging\<rparr>, p') else (False, d', m, p')))) (turned_to d)"
    if "rn_operation_phase m = Discharging"
    by (rule leads_ensure_turn) (use op that in \<open>auto simp: turned_to_def mem_def discharged\<close>)
  note steps = leads_finish_turned_to [OF op] ensure charge
  show ?thesis
    unfolding reconcile_calibration_def reconcile_calibration_discharge_def
    by (rule leads_bindE [OF clock]) (auto split: OperationPhase.split intro: steps)
qed

end

context monitor_law begin

lemma leads_operation_turn:
  assumes "rn_operation_battery m = bd_id d"
  shows "leads (mem m) (reconcile_operation env on_ac d m p) (turned_to d)"
proof (cases "bd_id d \<in> set (rn_uncertain m) \<and> rn_operation m = Calibration")
  case True
  have "turned_to d (True, d', m'\<lparr>rn_uncertain := filter (\<lambda>b. b \<noteq> bd_id d') (rn_uncertain m')\<rparr>, p') tr"
    if "bd_id d' = bd_id d" "set_right m True m' tr" for d' m' p' tr
  proof -
    from that(2) obtain m0 old where m0: "m' = clear_operation m0" "rn_operation m0 = Calibration"
      "rn_operation_battery m0 = bd_id d" "P old m0" "mem m0 tr" "restored_since m0 old tr"
      using assms by (auto simp: set_right_def)
    from unfenced [OF m0(4) _ m0(6,2)] m0(5) have
      "mem ((clear_operation m0)\<lparr>rn_uncertain := filter (\<lambda>b. b \<noteq> rn_operation_battery m0) (rn_uncertain m0)\<rparr>) tr"
      by (simp add: mem_def)
    then show ?thesis using m0 that(1) by (simp add: turned_to_def clear_operation_def)
  qed
  then show ?thesis
    using True assms unfolding reconcile_operation_def
    by (simp, intro leads_bindE [OF leads_finish_operation]) (auto split: prod.split intro!: leads_returnE intro: set_right_turned)
next
  case False
  have "leads (mem m) (bindE (ensure_charge_behaviour env d ''inhibit-charge'' p) (\<lambda>(_, d', p'). returnE (False, d', m, p'))) (turned_to d)"
    if "bd_id d \<notin> set (rn_uncertain m)" "rn_operation m = Inhibit"
    by (rule leads_ensure_turn) (use that assms in \<open>auto simp: turned_to_def\<close>)
  note steps = this leads_calibration_turn [OF _ assms] leads_turn_returnE
  show ?thesis
    using False unfolding reconcile_operation_def
    by (cases "bd_id d \<in> set (rn_uncertain m)") (auto split: OperationKind.split intro: steps)
qed

lemma leads_runtime_operation:
  "leads (known m) (reconcile_runtime_operation env state m p) (\<lambda>(save, state', m', p') tr. known m' tr \<and> (save \<longrightarrow> mem m' tr))"
proof (cases "rn_operation m = No_Operation")
  case True
  then show ?thesis by (auto simp: reconcile_runtime_operation_def intro: leads_returnE)
next
  case False
  let ?n = "\<lambda>d. bindE (reconcile_operation env (plugged state) d m p) (\<lambda>(save, d', m', p').
      returnE (save, state\<lparr>bat_devices := replace_device d' (bat_devices state)\<rparr>, m', p'))"
  have "leads (known m) (?n d) (\<lambda>(save, state', m', p') tr. known m' tr \<and> (save \<longrightarrow> mem m' tr))"
    if f: "find (\<lambda>d. bd_id d = rn_operation_battery m) (bat_devices state) = Some d" for d
  proof -
    have "leads (mem m) (?n d) (\<lambda>(save, state', m', p') tr. known m' tr \<and> (save \<longrightarrow> mem m' tr))"
      using find_Some_mem [OF f]
      by (intro leads_bindE [OF leads_operation_turn]) (auto simp: turned_to_def known_def split: prod.split intro!: leads_returnE)
    then show ?thesis by (rule leads_pre) (rule known_mem [OF _ not_default(2) [OF False]])
  qed
  then show ?thesis
    using False by (auto simp: reconcile_runtime_operation_def split: option.split intro!: leads_returnE)
qed

lemma leads_apply_threshold:
  "leads (known m) (apply_threshold env d c (threshold_intent d c m due) p) (\<lambda>_. known m)"
proof -
  have "leads (known m) (attemptE (set_thresholds env (bd_id d) s e)) (\<lambda>_. known m)"
    if "reconciliation_target (BatteryConfig_device (bd_id d) c) m due (bd_id d) = Some t" for s e t
  proof -
    have "known m tr \<Longrightarrow> callable (Set_Thresholds (bd_id d) s e) tr" for tr
      using target_justified [OF that] by (intro monitor_callable [of m]) (auto simp: known_def)
    then show ?thesis
      by (intro leads_conseq [OF leads_frame [OF leads_attemptE [OF leads_set_thresholds'], of "known m" "bd_id d" s e env]])
        (auto intro: known_grows)
  qed
  then show ?thesis
    unfolding apply_threshold_def
    by (auto simp: threshold_intent_def Let_def split: option.split intro!: leads_returnE leads_bindE leads_sum)
qed

lemma leads_reconcile_thresholds:
  "leads (known m) (reconcile_thresholds env m due ds c restored changed p) (\<lambda>_. known m)"
proof (induction ds arbitrary: c restored changed p)
  case Nil
  then show ?case by (simp add: leads_returnE)
next
  case (Cons d ds)
  show ?case
    by (simp add: Let_def, rule leads_bindE [OF leads_apply_threshold])
      (auto split: prod.split intro!: leads_bindE [OF Cons.IH] leads_returnE)
qed

lemma leads_finish_once:
  assumes "due \<longrightarrow> rn_charge_once_active m"
  shows "leads (known m) (finish_charge_once_if_due env due restored m p) (\<lambda>_ _. True)"
proof -
  let ?m = "BatteryRuntimeState_default\<lparr>rn_uncertain := filter (\<lambda>b. b \<noteq> rn_charge_once_battery m) (rn_uncertain m)\<rparr>"
  have "known m tr \<Longrightarrow> mem ?m tr" if due for tr
    using known_mem [OF _ not_default(1)] that assms by (auto simp: mem_def intro: charged_once)
  then have "due \<Longrightarrow> leads (known m) (bindE (save_runtime_noting env ?m p) (\<lambda>perr. returnE (?m, perr))) (\<lambda>_ _. True)"
    by (intro leads_pre [OF leads_bindE [OF leads_save_noting]]) (auto intro: leads_returnE)
  then show ?thesis
    by (auto simp: finish_charge_once_if_due_def Let_def intro!: leads_returnE)
qed

lemma leads_worldC: "leads F (worldC f) (\<lambda>_ _. True)"
  by (rule leads_pre [OF leads_silent [OF silent_basic(7)]]) simp

lemma leads_reconcile:
  assumes "fallible \<or> reads env"
  shows "leads (\<lambda>_. True) (reconcile_and_decorate env state) (\<lambda>_ _. True)"
proof -
  have save: "leads (\<lambda>tr. known m tr \<and> (b \<longrightarrow> mem m tr)) (if b then save_runtime_noting env m p else returnE p) (\<lambda>_. known m)" for b m p
    by (cases b) (auto intro!: leads_returnE leads_conseq [OF leads_frame [OF leads_save_noting, of "known m" m env p]] intro: known_grows)
  have clock: "leads (known m) (worldC f) (\<lambda>_. known m)" for m and f :: "'c \<Rightarrow> nat \<times> 'c"
    by (rule leads_conseq [OF leads_frame [OF leads_worldC, of "known m"]]) (auto intro: known_grows)
  have config: "leads (known m) (if b then bindE (attemptE (save_config env c)) (\<lambda>r.
         returnE (case r of Inl e \<Rightarrow> append_error p (err_to_string e) | Inr _ \<Rightarrow> p)) else returnE p) (\<lambda>_. known m)" for b m p c
  proof -
    have "leads (known m) (attemptE (save_config env c)) (\<lambda>_. known m)"
      by (rule leads_conseq [OF leads_frame [OF leads_attemptE [OF leads_save_config], of "known m"]]) (auto intro: known_grows)
    then show ?thesis by (auto intro!: leads_returnE leads_bindE)
  qed
  have due: "charge_once_is_due state m now \<longrightarrow> rn_charge_once_active m" for state m now
    by (auto simp: charge_once_is_due_def Let_def)
  show ?thesis
    unfolding reconcile_and_decorate_def
    by (rule leads_bindE [OF leads_load_policy [OF assms]], simp only: split_paired_all prod.case,
        rule leads_bindE [OF leads_migrate], simp only: split_paired_all prod.case,
        rule leads_let, rule leads_bindE [OF leads_runtime_operation], simp only: split_paired_all prod.case,
        rule leads_bindE [OF save], rule leads_bindE [OF clock], rule leads_let,
        rule leads_bindE [OF leads_reconcile_thresholds], simp only: split_paired_all prod.case,
        rule leads_bindE [OF config], rule leads_bindE [OF leads_finish_once [OF due]]) (auto intro: leads_returnE)
qed

lemma leads_publish: "leads F (publish_battery state) (\<lambda>_ _. True)"
proof -
  have "leads F (case a of Some a \<Rightarrow> noteC (Alerted a) | None \<Rightarrow> returnE ()) (\<lambda>_ _. True)" for a and F
    by (cases a) (auto intro: leads_returnE leads_noteC)
  then show ?thesis
    unfolding publish_battery_def
    by (intro leads_getE leads_let leads_prod leads_seqE [OF leads_modify [of _ F]] leads_seqE [where G = "\<lambda>_. True"])
      (auto intro: leads_conseq [OF leads_modify])
qed

lemma leads_turn:
  assumes "fallible \<or> reads env"
  shows "leads (\<lambda>_. True) (native_turn env) (\<lambda>_ _. True)"
proof -
  have "leads (\<lambda>_. True) (attemptE (askC (ch_read_state env))) (\<lambda>_ _. True)"
    by (rule leads_silent) (intro silent_intros)
  then show ?thesis
    unfolding native_turn_def publish_battery_error_def
    by (rule leads_bindE) (auto split: sum.split intro!: leads_bindE [OF leads_reconcile [OF assms]] leads_publish leads_conseq [OF leads_modify])
qed

lemma sound_turn: "fallible \<or> reads env \<Longrightarrow> sound s \<Longrightarrow> sound (charge_step env s Monitor_Turn)"
  by (simp add: leads_sound [OF leads_turn])

end

section \<open>Requests\<close>

context request_law begin

lemma asked_callable: "mem m tr \<Longrightarrow> request_call m c \<Longrightarrow> callable c tr"
  by (auto simp: callable_def mem_def intro: asked quiet_many)

text \<open>Thresholds, and the automatic behaviour, may be set on any request.\<close>

lemma leads_ask_thresholds: "leads F (set_thresholds env b s e) (\<lambda>_ _. True)"
  by (rule leads_some_mem, rule leads_pre [OF leads_set_thresholds']) (auto intro: asked_callable)

lemma leads_ask_auto: "leads F (set_charge_behaviour env b ''auto'') (\<lambda>_ _. True)"
  by (rule leads_some_mem, rule leads_pre [OF leads_set_charge_behaviour']) (auto intro: asked_callable)

lemma leads_keep: "leads F n (\<lambda>_ _. True) \<Longrightarrow> leads (\<lambda>tr. F tr \<and> mem m tr) n (\<lambda>_. mem m)"
  by (rule leads_conseq [OF leads_frame [of F n "\<lambda>_ _. True" "mem m"]]) (auto intro: grows_mem)

lemma leads_try:
  assumes "leads F n (\<lambda>_ _. True)"
  shows "leads F (attemptE n) (\<lambda>_ _. True)"
  by (rule leads_conseq [OF leads_attemptE [OF assms]]) simp_all

lemma leads_keep': "(\<And>F. leads F n (\<lambda>_ _. True)) \<Longrightarrow> leads (mem m) n (\<lambda>_. mem m)"
  by (rule leads_pre [OF leads_keep [of "\<lambda>_. True"]]) simp_all

lemma leads_load: "leads F (api_load_runtime env) mem"
  and leads_save: "leads (mem m) (api_save_runtime env m) (\<lambda>_ _. True)"
  and leads_save_cfg: "leads F (api_save_config env c) (\<lambda>_ _. True)"
  unfolding api_load_runtime_def api_save_runtime_def api_save_config_def apiE_def
  by (intro leads_map_errE leads_load_runtime leads_save_runtime leads_save_config)+

lemma leads_true: "leads (\<lambda>_. True) n G \<Longrightarrow> leads F n G"
  by (erule leads_pre) simp

lemma leads_refresh: "leads F (refresh_state env) (\<lambda>_ _. True)"
proof -
  have "leads F (askC (ch_read_state env)) (\<lambda>_ _. True)" by (rule leads_true, rule leads_silent) (intro silent_intros)
  then show ?thesis
    unfolding refresh_state_def
    by (rule leads_bindE, rule_tac leads_bindE [OF leads_load_policy])
      (auto simp: Let_def intro!: leads_seqE [OF leads_modify] leads_returnE)
qed

lemma leads_response: "leads F (battery_response env op) (\<lambda>_ _. True)"
  unfolding battery_response_def by (rule leads_bindE [OF leads_attemptE [OF leads_refresh]]) (rule leads_returnE, simp)

lemma leads_hardware: "leads F (hardware_response env b r) (\<lambda>_ _. True)"
  unfolding hardware_response_def
  by (rule leads_bindE [OF leads_load], rule leads_seqE [OF leads_pre [OF leads_save] leads_response]) (simp add: mem_def confirmed)

lemma leads_editable: "leads F (editable_policy env) (\<lambda>_ _. True)"
  unfolding editable_policy_def apiE_def
  by (rule leads_bindE [OF leads_map_errE [OF leads_load_config]], rule leads_bindE [OF leads_load]) (intro leads_ensure_seq leads_returnE, simp)

lemma leads_policy_change: "leads F (apply_policy_change env b s e c c') (\<lambda>_ _. True)"
  unfolding apply_policy_change_def
  by (intro leads_seqE [OF leads_save_cfg] leads_bindE [OF leads_attemptE [OF leads_ask_thresholds]] leads_sum leads_let leads_hardware
    leads_seqE [OF leads_map_errE [OF leads_save_config]] leads_throwE)

lemma leads_set_thresholds_request: "leads F (battery_set_thresholds env r) (\<lambda>_ _. True)"
  unfolding battery_set_thresholds_def save_policy_change_def
  by (intro leads_let leads_ensure_seq leads_bindE [OF leads_editable] leads_if leads_policy_change leads_seqE [OF leads_save_cfg] leads_response)

lemma leads_battery_id: "leads F (requested_battery_id b) (\<lambda>_ _. True)"
  unfolding requested_battery_id_def
  by (intro leads_getE leads_bindE [OF leads_liftE [where G'' = "\<lambda>_ _. True"]] leads_returnE) simp_all

lemma leads_lift: "leads F (liftE r) (\<lambda>_. F)"
  by (rule leads_liftE)

lemma leads_set_protection: "leads F (battery_set_protection env r) (\<lambda>_ _. True)"
  unfolding battery_set_protection_def
  by (intro leads_bindE [OF leads_lift] leads_bindE [OF leads_battery_id] leads_bindE [OF leads_editable] leads_let leads_prod leads_policy_change)

lemma leads_alert_policy: "leads F (battery_set_alert_policy env r) (\<lambda>_ _. True)"
  unfolding battery_set_alert_policy_def apiE_def save_policy_change_def
  by (intro leads_bindE [OF leads_map_errE [OF leads_load_config]] leads_bindE [OF leads_map_errE [OF leads_lift]] leads_getE leads_option
    leads_throwE leads_seqE [OF leads_save_cfg] leads_response)

lemma leads_rollback_runtime: "leads (mem m) (rollback_runtime env m e op) (\<lambda>_ _. True)"
  unfolding rollback_runtime_def
  by (intro leads_if leads_bindE [OF leads_attemptE [OF leads_save_runtime]] leads_returnE) simp_all

lemma leads_clock: "leads (mem m) (worldC f) (\<lambda>_. mem m)"
  by (rule leads_keep') (rule leads_worldC)

lemma leads_save_keep: "leads (\<lambda>tr. mem m' tr \<and> mem m tr) (api_save_runtime env m') (\<lambda>_. mem m)"
  by (rule leads_keep [OF leads_save])

lemma leads_save_both: "leads (\<lambda>tr. mem m' tr \<and> mem m tr) (api_save_runtime env m') (\<lambda>_ tr. mem m' tr \<and> mem m tr)"
  by (rule leads_conseq [OF leads_frame [OF leads_save, of "\<lambda>tr. mem m' tr \<and> mem m tr" m' env]]) (auto intro: grows_mem)

lemma leads_charge_once: "leads F (battery_charge_once env b) (\<lambda>_ _. True)"
proof -
  have started: "\<not> has_durable_operation m \<Longrightarrow>
      leads (mem m) (api_save_runtime env ((start_charge_once now b s e)\<lparr>rn_uncertain := u\<rparr>)) (\<lambda>_. mem m)" for now b s e m u
    by (rule leads_pre [OF leads_save_keep]) (auto simp: mem_def begun_once)
  show ?thesis
    unfolding battery_charge_once_def
    by (intro leads_getE leads_bindE [OF leads_lift] leads_prod leads_bindE [OF leads_load] leads_ensure_seq leads_bindE [OF leads_clock]
      leads_seqE [OF started] leads_bindE [OF leads_keep' [OF leads_try [OF leads_ask_thresholds]]] leads_sum leads_hardware
      leads_bindE [OF leads_rollback_runtime] leads_throwE)
qed

lemma leads_inhibition: "leads F (battery_set_charging_inhibited env b on) (\<lambda>_ _. True)"
proof -
  have started: "\<not> has_durable_operation m \<Longrightarrow>
      leads (mem m) (api_save_runtime env ((start_inhibit now b)\<lparr>rn_uncertain := u\<rparr>))
        (\<lambda>_ tr. mem ((start_inhibit now b)\<lparr>rn_uncertain := u\<rparr>) tr \<and> mem m tr)" for now b m u
    by (rule leads_pre [OF leads_save_both]) (auto simp: mem_def begun_inhibit)
  have ask: "leads (\<lambda>tr. mem ((start_inhibit now b)\<lparr>rn_uncertain := u\<rparr>) tr \<and> mem m tr)
      (attemptE (set_charge_behaviour env b ''inhibit-charge'')) (\<lambda>_. mem m)" for now b u m
    by (rule leads_keep, rule leads_pre [OF leads_try [OF leads_set_charge_behaviour']])
      (auto intro: asked_callable simp: start_inhibit_def)
  have stopped: "rn_operation m = Inhibit \<and> rn_operation_battery m = b' \<Longrightarrow> leads (mem m) (api_save_runtime env (clear_operation m)) (\<lambda>_ _. True)" for m b'
    by (rule leads_pre [OF leads_save]) (simp add: mem_def uninhibited)
  have start: "leads (mem m) (start_charging_inhibition env b m) (\<lambda>_ _. True)" for b m
    unfolding start_charging_inhibition_def
    by (intro leads_ensure_seq leads_bindE [OF leads_clock] leads_seqE [OF started] leads_bindE [OF ask] leads_sum
      leads_bindE [OF leads_rollback_runtime] leads_throwE leads_returnE) simp_all
  have stop: "leads (mem m) (stop_charging_inhibition env b m) (\<lambda>_ _. True)" for b m
    unfolding stop_charging_inhibition_def
    by (intro leads_ensure_seq leads_seqE [OF leads_map_errE [OF leads_keep' [OF leads_ask_auto]]] stopped) simp
  show ?thesis
    unfolding battery_set_charging_inhibited_def
    by (intro leads_bindE [OF leads_battery_id] leads_getE leads_seqE [OF leads_lift] leads_bindE [OF leads_load]
      leads_seqE [OF leads_if [OF start stop]] leads_hardware)
qed

lemma leads_calibrate: "leads F (battery_start_calibration env b) (\<lambda>_ _. True)"
proof -
  let ?new = "\<lambda>now b s e u. (start_calibration now b s e)\<lparr>rn_uncertain := u\<rparr>"
  have started: "\<not> has_durable_operation m \<Longrightarrow>
      leads (mem m) (api_save_runtime env (?new now b s e u)) (\<lambda>_ tr. mem (?new now b s e u) tr \<and> mem m tr)" for now b s e m u
    by (rule leads_pre [OF leads_save_both]) (auto simp: mem_def begun_calibration)
  have opened: "leads (\<lambda>tr. mem (?new now b s e u) tr \<and> mem m tr) (attemptE (set_thresholds env b 0 100))
      (\<lambda>_ tr. mem (?new now b s e u) tr \<and> mem m tr)" for now b s e u m
    by (rule leads_conseq [OF leads_frame [OF leads_try [OF leads_ask_thresholds]]]) (auto intro: grows_mem)
  have ask: "leads (\<lambda>tr. mem (?new now b s e u) tr \<and> mem m tr) (attemptE (set_charge_behaviour env b ''force-discharge'')) (\<lambda>_. mem m)"
    for now b s e u m
    by (rule leads_keep, rule leads_pre [OF leads_try [OF leads_set_charge_behaviour']])
      (auto intro: asked_callable simp: start_calibration_def)
  have undo: "leads (mem m) (rollback_calibration_hardware env b s e m failure) (\<lambda>_ _. True)" for b s e m failure
    unfolding rollback_calibration_hardware_def
    by (intro leads_if leads_bindE [OF leads_keep' [OF leads_try [OF leads_ask_thresholds]]] leads_let
      leads_bindE [OF leads_attemptE [OF leads_save_runtime]] leads_returnE) simp_all
  have drop: "leads (\<lambda>tr. mem m' tr \<and> mem m tr) (rollback_runtime env m failure op) (\<lambda>_ _. True)" for m m' failure op
    by (rule leads_pre [OF leads_rollback_runtime]) simp
  have start: "leads (mem m) (begin_calibration env b s e m) (\<lambda>_ _. True)" for b s e m
    unfolding begin_calibration_def
    by (intro leads_ensure_seq leads_bindE [OF leads_clock] leads_seqE [OF started] leads_bindE [OF opened] leads_sum
      leads_bindE [OF drop] leads_throwE leads_bindE [OF ask] leads_bindE [OF undo] leads_returnE) simp_all
  show ?thesis
    unfolding battery_start_calibration_def
    by (intro leads_bindE [OF leads_battery_id] leads_getE leads_bindE [OF leads_lift] leads_prod leads_bindE [OF leads_load]
      leads_seqE [OF start] leads_hardware)
qed

end

context request_law begin

lemma leads_cancel: "leads F (battery_cancel_calibration env b) (\<lambda>_ _. True)"
proof -
  let ?r = "\<lambda>m. m\<lparr>rn_operation_phase := Restoring\<rparr>"
  have save: "leads (mem m) (api_save_runtime env (?r m)) (\<lambda>_. mem (?r m))" if "rn_operation m = Calibration" for m
    by (rule leads_conseq [OF leads_save_both [of "?r m" "?r m" env]]) (use that in \<open>auto simp: mem_def restoring\<close>)
  have auto: "leads (mem m) (map_errE f (set_charge_behaviour env b ''auto'')) (\<lambda>_. mem m)" for m f b
    by (rule leads_map_errE, rule leads_keep', rule leads_ask_auto)
  have setback: "leads (mem m) (map_errE f (set_thresholds env b s e))
      (\<lambda>r tr. answered (Set_Thresholds b s e) (Thresholds_Set r) m tr \<and> mem m tr)" for m f b s e
    by (rule leads_map_errE, rule leads_conseq [OF leads_frame [OF leads_set_thresholds, of "mem m"]])
      (auto intro: grows_mem asked_callable)
  have settle: "leads (\<lambda>tr. answered (Set_Thresholds b s e) (Thresholds_Set r) m tr \<and> mem m tr)
      (map_errE f (liftE (complete_calibration_restoration (actual_start_percent r) (actual_end_percent r) (tw_verified r) m)))
      (\<lambda>m'. mem m')"
    if "rn_operation_battery m = b" "rn_operation_restore_start m = Some s" "rn_operation_restore_end m = Some e" for m b s e r f
    by (rule leads_map_errE, rule leads_liftE) (use that set_right_result [of m s e r] in \<open>auto simp: set_right_def\<close>)
  have rest: "leads (mem m) (seqE (map_errE helper_error (set_charge_behaviour env b ''auto''))
      (case (rn_operation_restore_start m, rn_operation_restore_end m) of
         (Some s, Some e) \<Rightarrow>
           bindE (map_errE helper_error (set_thresholds env b s e)) (\<lambda>result.
           bindE (apiE OperationFailed (liftE (complete_calibration_restoration (actual_start_percent result)
             (actual_end_percent result) (tw_verified result) m))) (\<lambda>runtime.
           seqE (api_save_runtime env runtime)
           (hardware_response env b None)))
       | _ \<Rightarrow> throwE (api_error StateFailed ''calibration restoration thresholds are missing''))) (\<lambda>_ _. True)"
    if "rn_operation_battery m = b" for m b
    unfolding apiE_def
    by (rule leads_seqE [OF auto], cases "rn_operation_restore_start m"; cases "rn_operation_restore_end m")
      (auto simp: leads_throwE intro!: leads_bindE [OF setback] leads_bindE [OF settle [OF that]] leads_seqE [OF leads_save] leads_hardware)
  have "leads (mem m) (seqE (ensureA (rn_operation m = Calibration \<and> rn_operation_battery m = b) OperationInactive msg)
      (let runtime = ?r m in seqE (api_save_runtime env runtime)
        (seqE (map_errE helper_error (set_charge_behaviour env b ''auto''))
        (case (rn_operation_restore_start runtime, rn_operation_restore_end runtime) of
         (Some s, Some e) \<Rightarrow>
           bindE (map_errE helper_error (set_thresholds env b s e)) (\<lambda>result.
           bindE (apiE OperationFailed (liftE (complete_calibration_restoration (actual_start_percent result)
             (actual_end_percent result) (tw_verified result) runtime))) (\<lambda>runtime.
           seqE (api_save_runtime env runtime)
           (hardware_response env b None)))
       | _ \<Rightarrow> throwE (api_error StateFailed ''calibration restoration thresholds are missing''))))) (\<lambda>_ _. True)" for m b msg
    by (intro leads_ensure_seq leads_let leads_seqE [OF save] rest) simp_all
  then show ?thesis
    unfolding battery_cancel_calibration_def
    by (intro leads_bindE [OF leads_battery_id] leads_bindE [OF leads_load])
qed

lemma leads_handle: "leads F (battery_handle env r) (\<lambda>_ _. True)"
  by (cases r) (simp_all add: leads_set_thresholds_request leads_set_protection leads_charge_once leads_inhibition leads_calibrate
    leads_cancel leads_alert_policy)

lemma leads_battery_dispatch: "leads F (battery_dispatch env r) (\<lambda>_ _. True)"
  unfolding battery_dispatch_def by (intro leads_bindE [OF leads_try [OF leads_handle]] leads_returnE) simp

lemma sound_step: "sound s \<Longrightarrow> sound (charge_step env s x)"
proof (cases x)
  case (Request interactive r)
  assume "sound s"
  then have "sound (s\<lparr>bs_interactive := interactive\<rparr>)" by (simp add: sound_def)
  from leads_sound [OF leads_battery_dispatch this] show ?thesis by (simp add: Request sound_def)
next
  case Monitor_Turn
  assume "sound s"
  with sound_turn [of env s] show ?thesis by (simp only: Monitor_Turn simp_thms)
qed (auto simp: sound_def)

lemma sound_run: "sound s \<Longrightarrow> sound (run (charge_step env) s xs)"
  by (induction xs arbitrary: s) (simp_all add: sound_step)

end

end
