(* ===== verification/Charge_Theorems.thy ===== *)
theory Charge_Theorems
  imports Charge_Logic
begin

text \<open>
  What charge control guarantees: the files it writes are consistent, a calibration ends only with its thresholds
  confirmed, a battery with an uncertain write is left alone, thresholds never cross while they are changed; and a run
  in which such a battery is not left alone after all. The witnesses run the model on a bench of obedient batteries.
\<close>

lemmas runtime_defs = BatteryRuntimeState_default_def start_charge_once_def start_inhibit_def start_calibration_def
  clear_operation_def has_durable_operation_def

section \<open>The runtime state\<close>

definition runtime_ok :: "BatteryRuntimeState \<Rightarrow> bool" where
  "runtime_ok r \<longleftrightarrow> (case rn_operation r of
       No_Operation \<Rightarrow> rn_operation_battery r = [] \<and> rn_operation_phase r = No_Phase
         \<and> rn_operation_restore_start r = None \<and> rn_operation_restore_end r = None
     | Inhibit \<Rightarrow> rn_operation_phase r = Paused \<and> \<not> rn_charge_once_active r
     | Calibration \<Rightarrow> rn_operation_phase r \<in> {Discharging, Charging, Restoring} \<and> \<not> rn_charge_once_active r
         \<and> rn_operation_restore_start r \<noteq> None \<and> rn_operation_restore_end r \<noteq> None)
     \<and> (rn_charge_once_active r \<longrightarrow> rn_restore_start r \<noteq> None \<and> rn_restore_end r \<noteq> None)"

interpretation consistent: request_law "\<lambda>_. runtime_ok"
  by unfold_locales (auto simp: runtime_ok_def runtime_defs split: OperationKind.splits)

definition disk_runtime :: "'w chstate \<Rightarrow> BatteryRuntimeState" where
  "disk_runtime s = unwrap_or BatteryRuntimeState_default (bs_runtime s)"

lemma consistent_run: "runtime_ok (disk_runtime (run (charge_step env) (charge_boot w) xs))"
proof -
  have "consistent.sound (charge_boot w)"
    by (simp add: consistent.sound_def charge_boot_def unwrap_or_def runtime_ok_def runtime_defs)
  from consistent.sound_run [OF this] show ?thesis by (simp add: consistent.sound_def disk_runtime_def)
qed

text \<open>
  C17. Whatever the helper, the kernel, the disk and the clock answer, and however requests, turns of the monitor and
  restarts interleave, the runtime state on disk is well formed: at most one durable operation, a calibration in one
  of its three phases with the thresholds to restore, a charge-once with the thresholds to restore, and no leftovers
  of an operation that has ended. So the invalid phase the monitor guards against does not occur.
\<close>

theorem runtime_state_consistent: "runtime_ok (disk_runtime (run (charge_step env) (charge_boot w) xs))"
  by (rule consistent_run)

section \<open>What happened since\<close>

definition since :: "'e list \<Rightarrow> 'e list \<Rightarrow> 'e list" where
  "since old tr = take (length tr - length old) tr"

definition extends :: "'e list \<Rightarrow> 'e list \<Rightarrow> bool" where
  "extends old tr \<longleftrightarrow> (\<exists>new. tr = new @ old)"

lemma since_simps [simp]: "since old (new @ old) = new" "since old old = []"
  by (simp_all add: since_def)

lemma since_Cons: "extends old tr \<Longrightarrow> since old (ev # tr) = ev # since old tr"
  by (auto simp: since_def extends_def Suc_diff_le)

lemma extends_Cons: "extends old tr \<Longrightarrow> extends old (ev # tr)"
  unfolding extends_def by (metis append_Cons)

lemma extends_trans: "extends a b \<Longrightarrow> extends b c \<Longrightarrow> extends a c"
  unfolding extends_def by auto

lemma since_append: "extends old tr \<Longrightarrow> since old (new @ tr) = new @ since old tr"
  by (auto simp: extends_def simp flip: append_assoc)

section \<open>Calibration\<close>

definition calibrating :: "string \<Rightarrow> nat \<Rightarrow> nat \<Rightarrow> bool \<Rightarrow> BatteryRuntimeState \<Rightarrow> bool" where
  "calibrating b s e restoring r \<longleftrightarrow> rn_operation r = Calibration \<and> rn_operation_battery r = b
     \<and> rn_operation_restore_start r = Some s \<and> rn_operation_restore_end r = Some e \<and> \<not> rn_charge_once_active r
     \<and> (restoring \<longrightarrow> rn_operation_phase r = Restoring)"

text \<open>The helper confirmed the thresholds to restore; only the automatic behaviour was asked for.\<close>

definition confirmed_in :: "string \<Rightarrow> nat \<Rightarrow> nat \<Rightarrow> charge_event list \<Rightarrow> bool" where
  "confirmed_in b s e tr \<longleftrightarrow>
     Called (Set_Thresholds b s e) (Ok (Thresholds_Set \<lparr>actual_start_percent = s, actual_end_percent = e, tw_verified = True\<rparr>)) \<in> set tr"

definition only_auto_in :: "string \<Rightarrow> charge_event list \<Rightarrow> bool" where
  "only_auto_in b tr \<longleftrightarrow> (\<forall>x v. Called (Set_Behaviour b x) v \<in> set tr \<longrightarrow> x = ''auto'')"

definition calibration_kept :: "charge_event list \<Rightarrow> string \<Rightarrow> nat \<Rightarrow> nat \<Rightarrow> bool \<Rightarrow> charge_event list \<Rightarrow> BatteryRuntimeState \<Rightarrow> bool" where
  "calibration_kept old b s e restoring tr r \<longleftrightarrow> extends old tr \<and> (confirmed_in b s e (since old tr)
     \<or> calibrating b s e restoring r \<and> (restoring \<longrightarrow> only_auto_in b (since old tr)))"

lemma calibration_kept_Cons:
  "calibration_kept old b s e restoring tr r \<Longrightarrow> (\<And>x v. restoring \<Longrightarrow> \<not> confirmed_in b s e (since old tr) \<Longrightarrow>
     ev = Called (Set_Behaviour b x) v \<Longrightarrow> x = ''auto'') \<Longrightarrow> calibration_kept old b s e restoring (ev # tr) r"
  by (auto simp: calibration_kept_def since_Cons extends_Cons confirmed_in_def only_auto_in_def)

lemma restored_confirmed:
  assumes old: "calibration_kept start b s e restoring old r" and "restored_since r old tr"
  shows "confirmed_in b s e (since start tr)"
  using assms by (auto simp: restored_since_def calibration_kept_def since_append since_Cons confirmed_in_def calibrating_def
    extends_Cons simp flip: append_Cons)

lemma calibration_kept_same:
  "calibration_kept old b s e restoring tr r \<Longrightarrow> (calibrating b s e restoring r \<Longrightarrow> calibrating b s e restoring r') \<Longrightarrow>
     calibration_kept old b s e restoring tr r'"
  by (auto simp: calibration_kept_def)

lemma calibration_law: "request_law (calibration_kept old b s e restoring)"
proof unfold_locales
  fix tr r m c x
  assume r: "calibration_kept old b s e restoring tr r" and m: "calibration_kept old b s e restoring tr m" "request_call m c"
  show "calibration_kept old b s e restoring (Called c x # tr) r"
    by (rule calibration_kept_Cons [OF r]) (use m in \<open>auto simp: calibration_kept_def calibrating_def\<close>)
next
  fix tr r m c x
  assume r: "calibration_kept old b s e restoring tr r"
    and m: "calibration_kept old b s e restoring tr m \<or> True \<and> m = BatteryRuntimeState_default" "monitor_call m c"
  show "calibration_kept old b s e restoring (Called c x # tr) r"
    by (rule calibration_kept_Cons [OF r]) (use m in \<open>auto simp: calibration_kept_def calibrating_def BatteryRuntimeState_default_def\<close>)
next
  fix old' r tr
  assume "calibration_kept old b s e restoring old' r" "calibration_kept old b s e restoring tr r" "restored_since r old' tr"
  then have c: "confirmed_in b s e (since old tr)" "extends old tr"
    using restored_confirmed by (blast, simp add: calibration_kept_def)
  then show "calibration_kept old b s e restoring tr (clear_operation r)"
    by (simp add: calibration_kept_def)
  from c show "calibration_kept old b s e restoring tr
      ((clear_operation r)\<lparr>rn_uncertain := filter (\<lambda>b. b \<noteq> rn_operation_battery r) (rn_uncertain r)\<rparr>)"
    by (simp add: calibration_kept_def)
next
  fix tr r ev
  assume "calibration_kept old b s e restoring tr r" "\<And>c x. ev \<noteq> Called c x"
  then show "calibration_kept old b s e restoring (ev # tr) r" by (auto intro: calibration_kept_Cons)
qed (erule calibration_kept_same, simp add: calibrating_def has_durable_operation_def)+

interpretation calibration: request_law "calibration_kept old b s e restoring" for old b s e restoring
  by (rule calibration_law)


section \<open>Uncertain batteries\<close>

definition fenced :: "charge_event list \<Rightarrow> string \<Rightarrow> charge_event list \<Rightarrow> BatteryRuntimeState \<Rightarrow> bool" where
  "fenced old b tr r \<longleftrightarrow> extends old tr \<and> (\<forall>c v. Called c v \<in> set (since old tr) \<longrightarrow> call_battery c \<noteq> b)
     \<and> b \<in> set (rn_uncertain r) \<and> \<not> (rn_operation r = Calibration \<and> rn_operation_battery r = b)
     \<and> \<not> (rn_charge_once_active r \<and> rn_charge_once_battery r \<in> {[], b})"

lemma fenced_call: "fenced old b tr m \<Longrightarrow> monitor_call m c \<Longrightarrow> call_battery c \<noteq> b"
  by (cases c) (auto simp: fenced_def charge_once_targets_def)

lemma fenced_Cons: "fenced old b tr r \<Longrightarrow> (\<And>c v. ev = Called c v \<Longrightarrow> call_battery c \<noteq> b) \<Longrightarrow> fenced old b (ev # tr) r"
  by (auto simp: fenced_def since_Cons extends_Cons)

interpretation fence: monitor_law "fenced old b" False for old b
proof unfold_locales
  fix tr r m c x
  assume "fenced old b tr r" "fenced old b tr m \<or> False \<and> m = BatteryRuntimeState_default" "monitor_call m c"
  then show "fenced old b (Called c x # tr) r" by (auto intro!: fenced_Cons dest: fenced_call)
qed (auto simp: fenced_def clear_operation_def BatteryRuntimeState_default_def since_Cons extends_Cons)


section \<open>Changing thresholds\<close>

lemma show_nat_digits:
  "list_all ascii_digit (show_nat n) \<and> show_nat n \<noteq> [] \<and> foldl (\<lambda>v c. 10 * v + (of_char c - 48)) 0 (show_nat n) = n"
proof (induction n rule: show_nat.induct)
  case (1 n)
  have digit: "m < 10 \<Longrightarrow> ascii_digit (char_of (48 + m)) \<and> (of_char (char_of (48 + m) :: char) :: nat) = 48 + m" for m :: nat
    by (simp add: ascii_digit_def of_char_of take_bit_eq_mod)
  show ?case
  proof (cases "n < 10")
    case True
    with digit [of n] show ?thesis by (simp add: show_nat.simps [of n])
  next
    case False
    with 1 digit [of "n mod 10"] show ?thesis by (subst (1 2 3) show_nat.simps [of n]) simp
  qed
qed

lemma ws_no_digits: "p \<in> set ws_strings \<Longrightarrow> p \<noteq> [] \<and> \<not> ascii_digit (hd p) \<and> \<not> ascii_digit (last p)"
  by (auto simp: ws_strings_def ws_seqs_def ascii_digit_def of_char_of take_bit_eq_mod)

lemma skip_prefixes_digits:
  assumes "\<forall>p\<in>set ps. p \<noteq> [] \<and> \<not> ascii_digit (hd p)" and "list_all ascii_digit s" "s \<noteq> []"
  shows "skip_prefixes ps n s = s"
proof -
  have "find (\<lambda>p. starts_with p s) ps = None"
    using assms by (auto simp: find_None_iff starts_with_def neq_Nil_conv)
  then show ?thesis by (cases n) simp_all
qed

lemma trim_digits: "list_all ascii_digit s \<Longrightarrow> s \<noteq> [] \<Longrightarrow> trim s = s"
  using skip_prefixes_digits [of ws_strings s] skip_prefixes_digits [of "map rev ws_strings" "rev s"] ws_no_digits
  by (simp add: trim_def Let_def hd_rev list.pred_set)

lemma parse_show_u8: "n \<le> 255 \<Longrightarrow> parse_u8 (trim (show_nat n)) = Some n"
proof -
  assume n: "n \<le> 255"
  note d = show_nat_digits [of n]
  then have "show_nat n = c # cs \<Longrightarrow> c \<noteq> CHR ''+''" for c cs by (auto simp: ascii_digit_def)
  with d n show ?thesis
    by (auto simp: trim_digits parse_u8_def Let_def split: list.split)
qed

text \<open>
  The attributes of a kernel that does what it is told: reading shows what is there, a successful write of a threshold
  puts the text there, a failed one changes nothing.
\<close>

definition faithful :: "'w chenv \<Rightarrow> ('w \<Rightarrow> string \<Rightarrow> string \<Rightarrow> string) \<Rightarrow> bool" where
  "faithful env view \<longleftrightarrow>
     (\<forall>b a w. view (snd (ch_read_attr env b a w)) = view w \<and> (\<forall>c. fst (ch_read_attr env b a w) = Ok c \<longrightarrow> c = view w b a))
     \<and> (\<forall>b a v w. a \<in> {START, END} \<longrightarrow> view (snd (ch_write_attr env b a v w)) =
          (if is_ok (fst (ch_write_attr env b a v w)) then (view w)(b := (view w b)(a := v)) else view w))
     \<and> (\<forall>b a w. view (snd (ch_is_file env b a w)) = view w)"

definition level :: "('w \<Rightarrow> string \<Rightarrow> string \<Rightarrow> string) \<Rightarrow> 'w chstate \<Rightarrow> string \<Rightarrow> string \<Rightarrow> nat option" where
  "level view s b a = parse_u8 (trim (view (bs_world s) b a))"

text \<open>The thresholds a battery has after the events so far (newest first), from what it had before.\<close>

fun pair_after :: "string \<Rightarrow> nat \<times> nat \<Rightarrow> charge_event list \<Rightarrow> nat \<times> nat" where
  "pair_after b p [] = p"
| "pair_after b p (ev # tr) = (let q = pair_after b p tr in case ev of
     Wrote_Attr b' a v \<Rightarrow>
       if b' \<noteq> b then q
       else if a = START then (unwrap_or (fst q) (parse_u8 (trim v)), snd q)
       else if a = END then (fst q, unwrap_or (snd q) (parse_u8 (trim v)))
       else q
   | _ \<Rightarrow> q)"

text \<open>A step that leaves the attributes alone; what it returns is determined by what they show.\<close>

definition looks :: "('w \<Rightarrow> string \<Rightarrow> string \<Rightarrow> string) \<Rightarrow> ('w, 'a) ceff \<Rightarrow> ((string \<Rightarrow> string \<Rightarrow> string) \<Rightarrow> 'a \<Rightarrow> bool) \<Rightarrow> bool" where
  "looks view m Q \<longleftrightarrow> (\<forall>s r t. m s = (r, t) \<longrightarrow> view (bs_world t) = view (bs_world s) \<and> bs_trace t = bs_trace s
     \<and> (\<forall>x. r = Ok x \<longrightarrow> Q (view (bs_world s)) x))"

lemma looks_bindE:
  assumes "looks view m Q" "\<And>x. looks view (k x) (R x)"
  shows "looks view (bindE m k) (\<lambda>v y. \<exists>x. Q v x \<and> R x v y)"
  unfolding looks_def
proof (intro allI impI)
  fix s r t
  assume run: "bindE m k s = (r, t)"
  obtain r1 u where m: "m s = (r1, u)" by (cases "m s")
  with assms(1) have u: "view (bs_world u) = view (bs_world s)" "bs_trace u = bs_trace s" "\<And>x. r1 = Ok x \<Longrightarrow> Q (view (bs_world s)) x"
    by (auto simp: looks_def)
  show "view (bs_world t) = view (bs_world s) \<and> bs_trace t = bs_trace s \<and> (\<forall>y. r = Ok y \<longrightarrow> (\<exists>x. Q (view (bs_world s)) x \<and> R x (view (bs_world s)) y))"
  proof (cases r1)
    case (Inl e)
    with run m u show ?thesis by (auto simp: bindE_def)
  next
    case (Inr x)
    with run m have "k x u = (r, t)" by (simp add: bindE_def)
    then have "view (bs_world t) = view (bs_world u) \<and> bs_trace t = bs_trace u \<and> (\<forall>y. r = Ok y \<longrightarrow> R x (view (bs_world u)) y)"
      using assms(2) [of x] unfolding looks_def by blast
    with u(1,2) u(3) [OF Inr] show ?thesis by auto
  qed
qed

lemma looks_weaken: "looks view m Q \<Longrightarrow> (\<And>v x. Q v x \<Longrightarrow> R v x) \<Longrightarrow> looks view m R"
  unfolding looks_def by blast

lemma looks_seqE: "looks view m Q \<Longrightarrow> looks view n R \<Longrightarrow> looks view (seqE m n) (\<lambda>v y. (\<exists>x. Q v x) \<and> R v y)"
  unfolding seqE_def by (rule looks_weaken [OF looks_bindE]) auto

lemma looks_basic:
  "looks view (returnE x) (\<lambda>_ y. y = x)" "looks view (liftE r) (\<lambda>_ y. r = Ok y)" "looks view (ensureE c msg) (\<lambda>_ _. c)"
  by (simp_all add: looks_def eff_defs)

lemma looks_map_errE: "looks view m Q \<Longrightarrow> looks view (map_errE f m) Q"
  by (fastforce simp: looks_def map_errE_def split: prod.splits sum.splits)

lemma looks_read:
  assumes "faithful env view"
  shows "looks view (askC (ch_read_attr env b a)) (\<lambda>v c. c = v b a)"
  unfolding looks_def
proof (intro allI impI)
  fix s r t
  assume "askC (ch_read_attr env b a) s = (r, t)"
  with assms show "view (bs_world t) = view (bs_world s) \<and> bs_trace t = bs_trace s \<and> (\<forall>x. r = Ok x \<longrightarrow> x = view (bs_world s) b a)"
    unfolding faithful_def by (auto simp: askC_def split: prod.splits) (metis fst_conv snd_conv)+
qed

lemma looks_is_file:
  assumes "faithful env view"
  shows "looks view (worldC (ch_is_file env b a)) (\<lambda>_ _. True)"
  unfolding looks_def
proof (intro allI impI)
  fix s r t
  assume "worldC (ch_is_file env b a) s = (r, t)"
  with assms show "view (bs_world t) = view (bs_world s) \<and> bs_trace t = bs_trace s \<and> (\<forall>x. r = Ok x \<longrightarrow> True)"
    unfolding faithful_def by (auto simp: worldC_def split: prod.splits) (metis snd_conv)+
qed

lemma looks_read_percent:
  "faithful env view \<Longrightarrow> looks view (read_percent env b a) (\<lambda>v n. parse_u8 (trim (v b a)) = Some n \<and> n \<le> 100)"
  unfolding read_percent_def contextE_def
  by (rule looks_weaken, rule looks_bindE [OF looks_map_errE [OF looks_read]], assumption, rule looks_bindE [OF looks_basic(2)],
    rule looks_seqE [OF looks_basic(3) looks_basic(1)]) auto

lemma looks_directory: "faithful env view \<Longrightarrow> looks view (threshold_directory env b) (\<lambda>_ _. True)"
  unfolding threshold_directory_def battery_directory_def contextE_def
  by (rule looks_weaken, rule looks_seqE, rule looks_seqE [OF looks_basic(2)], rule looks_bindE [OF looks_map_errE [OF looks_read]],
    assumption, rule looks_basic(3), simp, rule looks_seqE [OF looks_bindE [OF looks_is_file looks_basic(3)]], assumption,
    rule looks_seqE [OF looks_bindE [OF looks_is_file looks_basic(3)] looks_basic(1)], assumption) simp_all

lemma looks_get_thresholds:
  "faithful env view \<Longrightarrow> looks view (get_thresholds env b)
     (\<lambda>v p. parse_u8 (trim (v b START)) = Some (fst p) \<and> parse_u8 (trim (v b END)) = Some (snd p))"
  unfolding get_thresholds_def
  by (rule looks_weaken, rule looks_seqE [OF looks_directory], assumption, rule looks_bindE [OF looks_read_percent], assumption,
    rule looks_bindE [OF looks_read_percent], assumption, rule looks_basic(1)) auto

lemma write_percent_effect:
  assumes "faithful env view" "write_percent env b a n s = (r, t)" "a \<in> {START, END}"
  shows "(\<exists>e. r = Err e) \<and> view (bs_world t) = view (bs_world s) \<and> bs_trace t = bs_trace s
    \<or> r = Ok () \<and> view (bs_world t) = (view (bs_world s))(b := (view (bs_world s) b)(a := show_nat n))
      \<and> bs_trace t = Wrote_Attr b a (show_nat n) # bs_trace s"
proof -
  obtain q w where q: "ch_write_attr env b a (show_nat n) (bs_world s) = (q, w)" by (cases "ch_write_attr env b a (show_nat n) (bs_world s)")
  with assms(1,3) have "view w = (if is_ok q then (view (bs_world s))(b := (view (bs_world s) b)(a := show_nat n)) else view (bs_world s))"
    unfolding faithful_def by (metis fst_conv snd_conv)
  with assms(2) q show ?thesis
    by (cases q) (auto simp: write_percent_def write_attr_def askC_def noteC_def eff_defs)
qed

definition shown_pair :: "('w \<Rightarrow> string \<Rightarrow> string \<Rightarrow> string) \<Rightarrow> 'w chstate \<Rightarrow> string \<Rightarrow> (nat \<times> nat) option" where
  "shown_pair view s b = (case (level view s b START, level view s b END) of (Some p, Some q) \<Rightarrow> Some (p, q) | _ \<Rightarrow> None)"

lemma START_END [simp]: "START \<noteq> END" "END \<noteq> START"
  by (simp_all add: START_def END_def)

lemma shown_pair_iff: "shown_pair view s b = Some (p, q) \<longleftrightarrow>
    parse_u8 (trim (view (bs_world s) b START)) = Some p \<and> parse_u8 (trim (view (bs_world s) b END)) = Some q"
  by (auto simp: shown_pair_def level_def split: option.splits)

text \<open>Both orders of writing go through pairs that do not cross.\<close>

lemma write_order_safe:
  assumes "p < q" "q \<le> 100" "x < y" "y \<le> 100" "write_order x y p q = ((a1, v1, old), a2, v2)"
  shows "{a1, a2} = {START, END}" "v1 \<le> 255" "v2 \<le> 255" "old \<le> 255"
    "a1 = START \<Longrightarrow> v1 = x \<and> v2 = y \<and> old = p \<and> x < q \<and> a2 = END"
    "a1 = END \<Longrightarrow> v1 = y \<and> v2 = x \<and> old = q \<and> p < y \<and> a2 = START"
  using assms by (auto simp: write_order_def split: if_splits)

text \<open>Since \<open>s\<close> every pair was safe, and now it is \<open>c\<close>.\<close>

definition safe_since ::
  "('w \<Rightarrow> string \<Rightarrow> string \<Rightarrow> string) \<Rightarrow> 'w chstate \<Rightarrow> string \<Rightarrow> nat \<times> nat \<Rightarrow> 'w chstate \<Rightarrow> nat \<times> nat \<Rightarrow> bool" where
  "safe_since view s b p0 u c \<longleftrightarrow> (\<exists>new. bs_trace u = new @ bs_trace s \<and> pair_after b p0 new = c \<and> shown_pair view u b = Some c
     \<and> (\<forall>n. case pair_after b p0 (drop n new) of (v, w) \<Rightarrow> v < w \<and> w \<le> 100))"

lemma safe_same:
  "safe_since view s b p0 u c \<Longrightarrow> view (bs_world u') = view (bs_world u) \<Longrightarrow> bs_trace u' = bs_trace u \<Longrightarrow> safe_since view s b p0 u' c"
  by (auto simp: safe_since_def shown_pair_def level_def)

lemma safe_looks:
  assumes "looks view m Q" "m u = (r, u')" "safe_since view s b p0 u c"
  shows "safe_since view s b p0 u' c" "r = Ok x \<Longrightarrow> Q (view (bs_world u)) x"
  using assms by (auto simp: looks_def intro: safe_same)

lemma safe_write:
  assumes "faithful env view" "write_percent env b a n u = (r, u')" "safe_since view s b p0 u c"
    and a: "a = START \<and> c' = (n, snd c) \<or> a = END \<and> c' = (fst c, n)" and "n \<le> 255" "fst c' < snd c'" "snd c' \<le> 100"
  shows "(\<exists>e. r = Err e) \<and> safe_since view s b p0 u' c \<or> r = Ok () \<and> safe_since view s b p0 u' c'"
proof -
  from assms(3) obtain new where new: "bs_trace u = new @ bs_trace s" "pair_after b p0 new = c" "shown_pair view u b = Some c"
    "\<And>n. case pair_after b p0 (drop n new) of (v, w) \<Rightarrow> v < w \<and> w \<le> 100"
    unfolding safe_since_def by blast
  let ?ev = "Wrote_Attr b a (show_nat n)"
  have after: "pair_after b p0 (?ev # new) = c'"
    using a new(2) \<open>n \<le> 255\<close> by (auto simp: Let_def parse_show_u8 unwrap_or_def)
  have moments: "case pair_after b p0 (drop k (?ev # new)) of (v, w) \<Rightarrow> v < w \<and> w \<le> 100" for k
    using new(4) assms(6,7) after by (cases k) (simp_all add: case_prod_unfold del: pair_after.simps)
  from write_percent_effect [OF assms(1,2)] a have "(\<exists>e. r = Err e) \<and> view (bs_world u') = view (bs_world u) \<and> bs_trace u' = bs_trace u
    \<or> r = Ok () \<and> view (bs_world u') = (view (bs_world u))(b := (view (bs_world u) b)(a := show_nat n))
      \<and> bs_trace u' = ?ev # bs_trace u" by blast
  then show ?thesis
  proof
    assume w: "r = Ok () \<and> view (bs_world u') = (view (bs_world u))(b := (view (bs_world u) b)(a := show_nat n))
      \<and> bs_trace u' = ?ev # bs_trace u"
    have "shown_pair view u' b = Some c'"
      using w a new(3) \<open>n \<le> 255\<close> by (cases c) (auto simp: shown_pair_iff parse_show_u8)
    with w new(1) after moments have "safe_since view s b p0 u' c'"
      unfolding safe_since_def by (intro exI [of _ "?ev # new"]) (simp del: pair_after.simps)
    with w show ?thesis by blast
  qed (use assms(3) safe_same in blast)
qed

lemma run_bind:
  "bindE m k s = (r, t) \<Longrightarrow> (\<exists>e. m s = (Err e, t) \<and> r = Err e) \<or> (\<exists>x u. m s = (Ok x, u) \<and> k x u = (r, t))"
  by (auto simp: bindE_def split: prod.splits sum.splits)

text \<open>The writes themselves, once the attributes were read.\<close>

lemma writes_safe:
  assumes ok: "faithful env view" and pq: "p < q" "q \<le> 100" "x < y" "y \<le> 100" and s0: "safe_since view s b p0 u (p, q)"
    and run: "write_thresholds env b x y p q u = (r, t)"
  shows "(\<exists>c. safe_since view s b p0 t c) \<and> (\<forall>a. r = Ok a \<longrightarrow> safe_since view s b p0 t (x, y)
      \<and> a = \<lparr>actual_start_percent = x, actual_end_percent = y, tw_verified = True\<rparr>)"
proof -
  obtain a1 v1 old a2 v2 where order: "write_order x y p q = ((a1, v1, old), a2, v2)"
    by (cases "write_order x y p q") auto
  note o = write_order_safe [OF pq order]
  note run = run [unfolded write_thresholds_def order prod.case]
  obtain c1 where c1: "a1 = START \<and> c1 = (v1, snd (p, q)) \<or> a1 = END \<and> c1 = (fst (p, q), v1)" "fst c1 < snd c1" "snd c1 \<le> 100"
    "a2 = START \<and> (x, y) = (v2, snd c1) \<or> a2 = END \<and> (x, y) = (fst c1, v2)"
    "a1 = START \<and> (p, q) = (old, snd c1) \<or> a1 = END \<and> (p, q) = (fst c1, old)"
  proof (cases "a1 = START")
    case True
    with o(5) pq that [of "(v1, q)"] show ?thesis by simp
  next
    case False
    with o(1) have "a1 = END" by (auto simp: doubleton_eq_iff)
    with o(6) pq that [of "(p, v1)"] show ?thesis by simp
  qed
  obtain r1 u1 where w1: "write_percent env b a1 v1 u = (r1, u1)" by (cases "write_percent env b a1 v1 u")
  from safe_write [OF ok w1 s0 c1(1) o(2) c1(2,3)] consider (err) e where "r1 = Err e" "safe_since view s b p0 u1 (p, q)"
    | (ok) "r1 = Ok ()" "safe_since view s b p0 u1 c1" by blast
  then show ?thesis
  proof cases
    case err
    with run w1 show ?thesis by (auto simp: seqE_def bindE_def)
  next
    case 1: ok
    obtain r2 u2 where w2: "write_percent env b a2 v2 u1 = (r2, u2)" by (cases "write_percent env b a2 v2 u1")
    from safe_write [OF ok w2 1(2) c1(4) o(3)] pq consider (err) e where "r2 = Err e" "safe_since view s b p0 u2 c1"
      | (ok) "r2 = Ok ()" "safe_since view s b p0 u2 (x, y)" by auto
    then show ?thesis
    proof cases
      case 2: err
      obtain r3 u3 where w3: "write_percent env b a1 old u2 = (r3, u3)" by (cases "write_percent env b a1 old u2")
      from safe_write [OF ok w3 2(2) c1(5) o(4)] pq(1,2)
      have "safe_since view s b p0 u3 c1 \<or> safe_since view s b p0 u3 (p, q)" by auto
      then have "\<exists>c. safe_since view s b p0 u3 c" by blast
      with run w1 w2 w3 1 2 show ?thesis by (cases r3) (auto simp: seqE_def bindE_def attemptE_def throwE_def)
    next
      case 2: ok
      obtain r3 u3 where w3: "get_thresholds env b u2 = (r3, u3)" by (cases "get_thresholds env b u2")
      note l = safe_looks [OF looks_get_thresholds [OF ok] w3 2(2)]
      from 2(2) have "shown_pair view u2 b = Some (x, y)" by (auto simp: safe_since_def)
      then have "r3 = Ok a \<Longrightarrow> a = (x, y)" for a using l(2) [of a] by (cases a) (simp add: shown_pair_iff)
      with run w1 w2 w3 1 2 l(1) show ?thesis
        by (cases r3) (auto simp: seqE_def bindE_def attemptE_def returnE_def)
    qed
  qed
qed

lemma safe_summary:
  assumes "safe_since view s b p0 t c"
  shows "extends (bs_trace s) (bs_trace t) \<and> shown_pair view t b = Some c \<and> c = pair_after b p0 (since (bs_trace s) (bs_trace t))
    \<and> (\<forall>n. case pair_after b p0 (drop n (since (bs_trace s) (bs_trace t))) of (u, v) \<Rightarrow> u < v \<and> v \<le> 100)"
proof -
  from assms obtain new where "bs_trace t = new @ bs_trace s" "pair_after b p0 new = c" "shown_pair view t b = Some c"
    "\<forall>n. case pair_after b p0 (drop n new) of (u, v) \<Rightarrow> u < v \<and> v \<le> 100"
    unfolding safe_since_def by blast
  then show ?thesis by (simp add: extends_def)
qed

text \<open>From the first look at the attributes to the last: the pair that is left, the requested one after a success.\<close>

lemma writer_safe:
  assumes ok: "faithful env view" and p: "shown_pair view s b = Some (p, q)" "p < q" "q \<le> 100"
    and run: "writer_set_thresholds env b x y s = (r, t)"
  shows "\<exists>c. safe_since view s b (p, q) t c \<and> (\<forall>a. r = Ok a \<longrightarrow> c = (x, y)
    \<and> a = \<lparr>actual_start_percent = x, actual_end_percent = y, tw_verified = True\<rparr>)"
proof -
  have s0: "safe_since view s b (p, q) s (p, q)"
    using p by (auto simp: safe_since_def intro!: exI [of _ "[]"])
  show ?thesis
  proof (cases "valid_thresholds x y")
    case False
    with run have "t = s" "\<exists>e. r = Err e" by (auto simp: writer_set_thresholds_def eff_defs)
    with s0 show ?thesis by blast
  next
    case v: True
    obtain r1 u1 where d: "threshold_directory env b s = (r1, u1)" by (cases "threshold_directory env b s")
    obtain r2 u2 where rs: "read_percent env b START u1 = (r2, u2)" by (cases "read_percent env b START u1")
    obtain r3 u3 where re: "read_percent env b END u2 = (r3, u3)" by (cases "read_percent env b END u2")
    note l1 = safe_looks [OF looks_directory [OF ok] d s0]
    note l2 = safe_looks [OF looks_read_percent [OF ok] rs l1(1)]
    note l3 = safe_looks [OF looks_read_percent [OF ok] re l2(1)]
    have shown: "shown_pair view u1 b = Some (p, q)" "shown_pair view u2 b = Some (p, q)"
      using l1(1) l2(1) by (auto simp: safe_since_def)
    show ?thesis
    proof (cases "\<exists>cs ce u. r1 = Ok u \<and> r2 = Ok cs \<and> r3 = Ok ce")
      case False
      have "\<exists>e. r = Err e \<and> t \<in> {u1, u2, u3}"
        using run d rs re v False by (cases r1; cases r2; cases r3) (auto simp: writer_set_thresholds_def eff_defs)
      with l1(1) l2(1) l3(1) show ?thesis by blast
    next
      case True
      then obtain cs ce u0 where r: "r1 = Ok u0" "r2 = Ok cs" "r3 = Ok ce" by blast
      from l2(2) [OF r(2)] l3(2) [OF r(3)] shown have [simp]: "cs = p" "ce = q" by (simp_all add: shown_pair_iff)
      show ?thesis
      proof (cases "(p, q) = (x, y)")
        case True
        with run d rs re v r l3(1) show ?thesis
          by (intro exI [of _ "(p, q)"]) (auto simp: writer_set_thresholds_def eff_defs)
      next
        case False
        then have body: "write_thresholds env b x y p q u3 = (r, t)"
          using run d rs re v r by (auto simp: writer_set_thresholds_def eff_defs split: if_splits)
        have "(\<exists>c. safe_since view s b (p, q) t c) \<and> (\<forall>a. r = Ok a \<longrightarrow> safe_since view s b (p, q) t (x, y)
            \<and> a = \<lparr>actual_start_percent = x, actual_end_percent = y, tw_verified = True\<rparr>)"
          by (rule writes_safe [OF ok p(2,3) _ _ l3(1) body]) (use v in \<open>auto simp: valid_thresholds_def\<close>)
        then obtain c where "safe_since view s b (p, q) t c" "\<And>a. r = Ok a \<Longrightarrow> c = (x, y)
            \<and> a = \<lparr>actual_start_percent = x, actual_end_percent = y, tw_verified = True\<rparr>"
          by (cases r) auto
        then show ?thesis by blast
      qed
    qed
  qed
qed


section \<open>Texts without white space\<close>

definition printable :: "char \<Rightarrow> bool" where
  "printable c \<longleftrightarrow> 32 < (of_char c :: nat) \<and> (of_char c :: nat) < 127"

lemma ws_printable: "p \<in> set ws_strings \<Longrightarrow> p \<noteq> [] \<and> \<not> printable (hd p) \<and> \<not> printable (last p)"
  by (auto simp: ws_strings_def ws_seqs_def printable_def of_char_of take_bit_eq_mod)

lemma find_ws_printable: "printable c \<Longrightarrow> find (\<lambda>p. starts_with p (c # cs)) ws_strings = None"
  using ws_printable by (fastforce simp: find_None_iff starts_with_def neq_Nil_conv)

lemma find_ws_space: "find (\<lambda>p. starts_with p (CHR '' '' # cs)) ws_strings = Some '' ''"
  by (simp add: ws_strings_def ws_seqs_def starts_with_def char_of_def bit_0)

lemma skip_prefixes_printable:
  assumes "\<forall>p\<in>set ps. p \<noteq> [] \<and> \<not> printable (hd p)" and "printable (hd s)" "s \<noteq> []"
  shows "skip_prefixes ps n s = s"
proof -
  have "find (\<lambda>p. starts_with p s) ps = None"
    using assms by (auto simp: find_None_iff starts_with_def neq_Nil_conv)
  then show ?thesis by (cases n) simp_all
qed

lemma trim_printable: "s \<noteq> [] \<Longrightarrow> printable (hd s) \<Longrightarrow> printable (last s) \<Longrightarrow> trim s = s"
  using skip_prefixes_printable [of ws_strings s] skip_prefixes_printable [of "map rev ws_strings" "rev s"] ws_printable
  by (simp add: trim_def Let_def hd_rev)

lemma words_of_step:
  "words_of (Suc n) word (c # cs) =
     (if printable c then words_of n (c # word) cs
      else if c = CHR '' '' then (if word = [] then [] else [rev word]) @ words_of n [] cs
      else words_of (Suc n) word (c # cs))"
  by (simp add: find_ws_printable find_ws_space)

section \<open>A bench\<close>

text \<open>A kernel with obedient batteries: the attribute of the behaviours shows the choices with the selected one in brackets.\<close>

type_synonym attributes = "string \<Rightarrow> string \<Rightarrow> string"

definition bench_behaviours :: "string list" where
  "bench_behaviours = [''auto'', ''inhibit-charge'', ''force-discharge'']"

definition bench_attributes :: attributes where
  "bench_attributes b a =
     (if a = ''type'' then ''Battery'' else if a = START then ''75'' else if a = END then ''80''
      else ''[auto] inhibit-charge force-discharge'')"

definition bench_write :: "string \<Rightarrow> string \<Rightarrow> string \<Rightarrow> attributes \<Rightarrow> attributes" where
  "bench_write b a v w = w(b := (w b)(a := if a = BEHAVIOUR
     then concat (map (\<lambda>x. if x = v then ''['' @ x @ ''] '' else x @ '' '') bench_behaviours) else v))"

definition bench_device :: "attributes \<Rightarrow> string \<Rightarrow> BatteryDeviceState" where
  "bench_device w b =
     \<lparr>bd_id = b, bd_vendor = [], bd_model = [], bd_serial = [], bd_present = True, bd_percentage = 50, bd_state = ''charging'',
      bd_power_watts = 0, energy_now_wh = None, energy_full_wh = None, energy_full_design_wh = None, voltage_volts = None,
      bd_health_percent = None, bd_cycles = None,
      bd_protection = BatteryProtectionState_default\<lparr>pt_supported := True, start_percent := parse_u8 (w b START),
        end_percent := parse_u8 (w b END), supports_start := True, supports_end := True, supports_charge_behaviour := True,
        available_behaviours := bench_behaviours\<rparr>\<rparr>"

definition bench :: "attributes chenv" where
  "bench =
     \<lparr>ch_load_config = Pair (Ok ()), ch_load_runtime = Pair (Ok ()), ch_write_config = Pair Saved,
      ch_write_runtime = Pair Saved, ch_unix_ms = Pair 1000, ch_cancelled = Pair False,
      ch_transport = (\<lambda>_. Pair Answered),
      ch_caller = (\<lambda>_ _. Pair \<lparr>ca_sender = Some '':1.7'', ca_proxy = Ok (), ca_polkit = Polkit_Answer True, ca_present = Ok True\<rparr>),
      ch_read_attr = (\<lambda>b a w. (Ok (w b a), w)), ch_write_attr = (\<lambda>b a v w. (Ok (), bench_write b a v w)),
      ch_is_file = (\<lambda>_ _. Pair True),
      ch_read_state = (\<lambda>w. (Ok (BatteryState_default\<lparr>bat_available := True, native_path := ''BAT0'', percentage := 50,
        charging := True, plugged := True, bat_devices := map (bench_device w) [''BAT0'', ''BAT1'']\<rparr>), w))\<rparr>"

lemma bench_faithful: "faithful bench (\<lambda>w. w)"
  by (auto simp: faithful_def bench_def bench_write_def START_def END_def BEHAVIOUR_def)

lemma bench_texts:
  "trim ''Battery'' = ''Battery''" "trim ''75'' = ''75''" "trim ''80'' = ''80''" "trim ''0'' = ''0''" "trim ''100'' = ''100''"
  by (simp_all add: trim_printable printable_def)

lemma bench_choices:
  "split_whitespace ''[auto] inhibit-charge force-discharge'' = [''[auto]'', ''inhibit-charge'', ''force-discharge'']"
  "split_whitespace ''auto inhibit-charge [force-discharge] '' = [''auto'', ''inhibit-charge'', ''[force-discharge]'']"
  by (simp_all add: split_whitespace_def words_of_step printable_def del: words_of.simps(3))

lemma parse_u8_texts: "parse_u8 ''75'' = Some 75" "parse_u8 ''80'' = Some 80" "parse_u8 ''0'' = Some 0" "parse_u8 ''100'' = Some 100"
  by (simp_all add: parse_u8_def ascii_digit_def)

lemmas bench_defs = askC_def worldC_def noteC_def eff_defs bench_def bench_device_def Let_def

lemmas monitor_defs = native_turn_def reconcile_and_decorate_def load_policy_data_def load_config_def load_runtime_def
  policy_or_default_def migrate_charge_once_battery_def reconcile_runtime_operation_def charge_once_is_due_def
  threshold_intent_def reconciliation_target_def charge_once_targets_def apply_threshold_def finish_charge_once_if_due_def
  publish_battery_def save_runtime_def save_runtime_noting_def save_config_def

lemmas start_defs = charge_boot_def unwrap_or_def BatteryRuntimeState_default_def BatteryConfig_default_def
  BatteryConfig_validate_def BatteryConfig_device_def BatteryDeviceConfig_default_def BatteryState_default_def
  BatteryProtectionState_default_def valid_thresholds_def ensure_def

definition watched_bench :: "attributes chstate" where
  "watched_bench = snd (native_turn bench (charge_boot bench_attributes))"

lemma attr_names [simp]:
  "START \<noteq> BEHAVIOUR" "END \<noteq> BEHAVIOUR" "START \<noteq> ''type''" "END \<noteq> ''type''" "BEHAVIOUR \<noteq> START" "BEHAVIOUR \<noteq> END"
  "BEHAVIOUR \<noteq> ''type''" "''type'' \<noteq> START" "''type'' \<noteq> END" "''type'' \<noteq> BEHAVIOUR"
  by (simp_all add: START_def END_def BEHAVIOUR_def)

lemma bench_attributes [simp]:
  "bench_attributes b ''type'' = ''Battery''" "bench_attributes b START = ''75''" "bench_attributes b END = ''80''"
  "bench_attributes b BEHAVIOUR = ''[auto] inhibit-charge force-discharge''"
  by (simp_all add: bench_attributes_def)

lemma bench_clock:
  "ch_unix_ms bench w = (1000, w)" "ch_load_runtime bench w = (Ok (), w)" "ch_write_runtime bench w = (Saved, w)"
  by (simp_all add: bench_def)

lemma watched_bench:
  "bs_runtime watched_bench = None" "bs_config watched_bench = None" "bs_world watched_bench = bench_attributes"
  "plugged (bs_published watched_bench) = True"
  "map (\<lambda>d. (bd_id d, start_percent (bd_protection d), end_percent (bd_protection d), available_behaviours (bd_protection d)))
     (bat_devices (bs_published watched_bench)) = [(''BAT0'', Some 75, Some 80, bench_behaviours), (''BAT1'', Some 75, Some 80, bench_behaviours)]"
  by (simp_all add: watched_bench_def monitor_defs start_defs bench_defs decorate_def decorate_protection_def AlertTracker_observe_def
    case_prod_unfold parse_u8_texts split: option.split)

definition calibrating_bench :: "attributes chstate" where
  "calibrating_bench = run (charge_step bench) (charge_boot bench_attributes)
     [Monitor_Turn, Request True (Start_Calibration_Request (Some ''BAT0''))]"

lemmas helper_defs = serve_def authorize_def dispatch_write_def write_call_def set_thresholds_def set_charge_behaviour_def
  writer_set_thresholds_def writer_set_behaviour_def threshold_directory_def battery_directory_def read_percent_def
  validate_battery_id_def write_thresholds_def write_order_def write_percent_def write_attr_def get_thresholds_def

lemma show_nat_100: "show_nat 0 = ''0''" "show_nat 100 = ''100''"
  by (simp_all add: show_nat.simps char_of_def bit_0)

definition calibrating_attributes :: "attributes" where
  "calibrating_attributes = bench_write ''BAT0'' BEHAVIOUR ''force-discharge''
     (bench_write ''BAT0'' END ''100'' (bench_write ''BAT0'' START ''0'' bench_attributes))"

lemma bench_thresholds:
  "bs_world s = bench_attributes \<Longrightarrow> case set_thresholds bench ''BAT0'' 0 100 s of (r, t) \<Rightarrow> is_ok r \<and> bs_runtime t = bs_runtime s
    \<and> bs_config t = bs_config s \<and> bs_interactive t = bs_interactive s \<and> bs_published t = bs_published s
    \<and> bs_world t = bench_write ''BAT0'' END ''100'' (bench_write ''BAT0'' START ''0'' bench_attributes)"
  by (simp add: helper_defs bench_defs valid_thresholds_def starts_with_def ascii_digit_def bench_texts parse_u8_texts show_nat_100
    bench_write_def ensure_def ok_or_def)

lemma bench_behaviour:
  "w ''BAT0'' ''type'' = ''Battery'' \<Longrightarrow> w ''BAT0'' BEHAVIOUR = ''[auto] inhibit-charge force-discharge'' \<Longrightarrow> bs_world s = w \<Longrightarrow>
     case set_charge_behaviour bench ''BAT0'' ''force-discharge'' s of (r, t) \<Rightarrow> is_ok r \<and> bs_runtime t = bs_runtime s
       \<and> bs_config t = bs_config s \<and> bs_interactive t = bs_interactive s \<and> bs_published t = bs_published s"
  by (simp add: helper_defs bench_defs starts_with_def ascii_digit_def bench_texts parse_choices_def bench_choices
    trim_brackets_def is_bracket_def bracketed_def bench_write_def ensure_def ok_or_def bench_behaviours_def)

lemma bench_devices:
  obtains d e where "bat_devices (bs_published watched_bench) = [d, e]" "bd_id d = ''BAT0''"
    "start_percent (bd_protection d) = Some 75" "end_percent (bd_protection d) = Some 80" "available_behaviours (bd_protection d) = bench_behaviours"
  using watched_bench(5) by (auto simp: map_eq_Cons_conv)

lemma world_same: "bs_world s = w \<Longrightarrow> s\<lparr>bs_world := w\<rparr> = s"
  by auto

lemma bench_begin:
  assumes v: "bs_world v = bench_attributes" "bs_runtime v = None"
  shows "\<exists>t. begin_calibration bench ''BAT0'' 75 80 BatteryRuntimeState_default v = (Ok (), t)
    \<and> bs_runtime t = Some (start_calibration 1000 ''BAT0'' 75 80)"
proof -
  let ?r = "start_calibration 1000 ''BAT0'' 75 80"
  let ?u = "v\<lparr>bs_runtime := Some ?r, bs_trace := Saved_Runtime ?r # bs_trace v\<rparr>"
  obtain r1 t1 where t1: "set_thresholds bench ''BAT0'' 0 100 ?u = (Inr r1, t1)" "bs_runtime t1 = Some ?r"
    "bs_world t1 = bench_write ''BAT0'' END ''100'' (bench_write ''BAT0'' START ''0'' bench_attributes)"
    using bench_thresholds [of ?u] v by (auto simp: is_ok_def split: prod.splits sum.splits)
  obtain r2 t2 where t2: "set_charge_behaviour bench ''BAT0'' ''force-discharge'' t1 = (Inr r2, t2)" "bs_runtime t2 = Some ?r"
    using bench_behaviour [of "bs_world t1" t1] t1 by (auto simp: is_ok_def bench_write_def split: prod.splits sum.splits)
  have r: "?r\<lparr>rn_uncertain := []\<rparr> = ?r" by (simp add: runtime_defs)
  from v t1 t2 show ?thesis
    by (simp add: begin_calibration_def ensureA_def has_durable_operation_def BatteryRuntimeState_default_def
      api_save_runtime_def apiE_def save_runtime_def worldC_def noteC_def eff_defs Let_def r world_same bench_clock)
qed

lemma hardware_response_runtime:
  "bs_runtime s = Some r \<Longrightarrow> rn_uncertain r = [] \<Longrightarrow> bs_runtime (snd (hardware_response bench b x s)) = Some r"
  by (simp add: hardware_response_def api_load_runtime_def api_save_runtime_def apiE_def load_runtime_def save_runtime_def unwrap_or_def
    battery_response_def refresh_state_def load_policy_data_def load_config_def bench_defs case_prod_unfold split: sum.split)

lemma calibrating_bench:
  "bs_runtime calibrating_bench = Some (start_calibration 1000 ''BAT0'' 75 80)"
proof -
  let ?s = "watched_bench\<lparr>bs_interactive := True\<rparr>"
  obtain d e where d: "bat_devices (bs_published watched_bench) = [d, e]" "bd_id d = ''BAT0''"
    "start_percent (bd_protection d) = Some 75" "end_percent (bd_protection d) = Some 80" "available_behaviours (bd_protection d) = bench_behaviours"
    by (rule bench_devices)
  from bench_begin [of ?s] watched_bench obtain t where
    t: "begin_calibration bench ''BAT0'' 75 80 BatteryRuntimeState_default ?s = (Ok (), t)"
      "bs_runtime t = Some (start_calibration 1000 ''BAT0'' 75 80)" by auto
  have "rn_uncertain (start_calibration 1000 ''BAT0'' 75 80) = []" by (simp add: runtime_defs)
  note h = hardware_response_runtime [OF t(2) this]
  have "bs_runtime (snd (battery_start_calibration bench (Some ''BAT0'') ?s)) = Some (start_calibration 1000 ''BAT0'' 75 80)"
    using watched_bench d t h by (simp add: battery_start_calibration_def requested_battery_id_def
      require_power_def require_behaviour_def restoration_thresholds_def requested_device_def api_load_runtime_def apiE_def
      load_runtime_def unwrap_or_def eff_defs askC_def world_same bench_clock bench_behaviours_def)
  then show ?thesis
    by (simp add: calibrating_bench_def battery_dispatch_def returnE_def bindE_def attemptE_def case_prod_unfold flip: watched_bench_def split: sum.split)
qed


definition fenced_bench :: "attributes chstate" where
  "fenced_bench = (charge_boot bench_attributes)\<lparr>bs_config := Some (BatteryConfig_default\<lparr>bc_manage_thresholds := True\<rparr>),
     bs_runtime := Some (BatteryRuntimeState_default\<lparr>rn_uncertain := [''BAT0'']\<rparr>)\<rparr>"



section \<open>A fence that is lost\<close>

text \<open>The helper is reached for every battery but the second, whose charge policy is to change.\<close>

definition lossy_bench :: "attributes chenv" where
  "lossy_bench = bench\<lparr>ch_transport := (\<lambda>c. Pair (if call_battery c = ''BAT1'' then No_Answer False else Answered))\<rparr>"

definition lossy_config :: BatteryConfig where
  "lossy_config = BatteryConfig_default\<lparr>bc_devices := [(''BAT1'', BatteryDeviceConfig_default\<lparr>dc_manage_thresholds := True,
     dc_protection_enabled := True, dc_start_percent := 60, dc_end_percent := 70\<rparr>)]\<rparr>"

definition lossy_start :: "attributes chstate" where
  "lossy_start = (charge_boot bench_attributes)\<lparr>bs_config := Some lossy_config,
     bs_runtime := Some ((start_charge_once 0 ''BAT0'' 75 80)\<lparr>rn_charge_once_expires := 1000\<rparr>)\<rparr>"

lemma lossy_bench_fields:
  "ch_unix_ms lossy_bench w = (1000, w)" "ch_load_runtime lossy_bench w = (Ok (), w)" "ch_write_runtime lossy_bench w = (Saved, w)"
  "ch_load_config lossy_bench w = (Ok (), w)" "ch_cancelled lossy_bench w = (False, w)" "ch_read_state lossy_bench w = ch_read_state bench w"
  "ch_transport lossy_bench c w = (if call_battery c = ''BAT1'' then No_Answer False else Answered, w)"
  by (simp_all add: lossy_bench_def bench_def)

lemma lossy_call:
  "write_call lossy_bench (Set_Thresholds ''BAT1'' x y) s = (Err [OutcomeUnknown],
     let r = unwrap_or BatteryRuntimeState_default (bs_runtime s);
         q = (if ''BAT1'' \<in> set (rn_uncertain r) then r else r\<lparr>rn_uncertain := rn_uncertain r @ [''BAT1'']\<rparr>) in
     s\<lparr>bs_runtime := Some q, bs_trace := Saved_Runtime q # Called (Set_Thresholds ''BAT1'' x y) (Err [OutcomeUnknown]) # bs_trace s\<rparr>)"
  by (simp add: write_call_def dispatch_write_def lossy_bench_fields mark_uncertain_def load_runtime_def save_runtime_def askC_def
    worldC_def noteC_def eff_defs Let_def world_same is_unknown_def)

lemmas lossy_defs = lossy_bench_fields bench_defs lossy_config_def start_charge_once_def validate_battery_id_def starts_with_def
  ascii_digit_def BatteryDeviceConfig_validate_def and_then_def charge_once_expired_def desired_thresholds_def
  target_is_applied_def set_thresholds_def lossy_call parse_u8_texts

abbreviation lost_call :: charge_event where
  "lost_call \<equiv> Called (Set_Thresholds ''BAT1'' 60 70) (Err [OutcomeUnknown])"

abbreviation ending_charge_once :: BatteryRuntimeState where
  "ending_charge_once \<equiv> (start_charge_once 0 ''BAT0'' 75 80)\<lparr>rn_charge_once_expires := 1000\<rparr>"

lemma publish_battery_state:
  "snd (publish_battery st s) = s\<lparr>bs_alerts := snd (AlertTracker_observe (bs_alerts s) st (notify_when_full (bat_policy st))),
     bs_trace := (case fst (AlertTracker_observe (bs_alerts s) st (notify_when_full (bat_policy st))) of
        Some a \<Rightarrow> Alerted a # bs_trace s | None \<Rightarrow> bs_trace s), bs_published := st\<rparr>"
  by (simp add: publish_battery_def noteC_def eff_defs case_prod_unfold Let_def split: option.split)

abbreviation lossy_reading :: BatteryState where
  "lossy_reading \<equiv> BatteryState_default\<lparr>bat_available := True, native_path := ''BAT0'', percentage := 50, charging := True,
     plugged := True, bat_devices := map (bench_device bench_attributes) [''BAT0'', ''BAT1'']\<rparr>"

abbreviation fenced_runtime :: BatteryRuntimeState where
  "fenced_runtime \<equiv> BatteryRuntimeState_default\<lparr>rn_uncertain := [''BAT1'']\<rparr>"

lemma lossy_reconcile:
  assumes "bs_world s = bench_attributes" "bs_config s = Some lossy_config"
  shows "bs_runtime s = Some ending_charge_once \<Longrightarrow> \<exists>st. reconcile_and_decorate lossy_bench lossy_reading s = (Ok st,
      s\<lparr>bs_runtime := Some BatteryRuntimeState_default, bs_trace := Saved_Runtime BatteryRuntimeState_default
        # Saved_Runtime (ending_charge_once\<lparr>rn_uncertain := [''BAT1'']\<rparr>) # lost_call # bs_trace s\<rparr>)"
    and "bs_runtime s = Some BatteryRuntimeState_default \<Longrightarrow> \<exists>st. reconcile_and_decorate lossy_bench lossy_reading s = (Ok st,
      s\<lparr>bs_runtime := Some fenced_runtime, bs_trace := Saved_Runtime fenced_runtime # lost_call # bs_trace s\<rparr>)"
  using assms by (simp_all add: monitor_defs start_defs lossy_defs world_same)

definition other_than_alert :: "charge_event \<Rightarrow> bool" where
  "other_than_alert ev \<longleftrightarrow> (case ev of Alerted _ \<Rightarrow> False | _ \<Rightarrow> True)"

lemma lossy_turn:
  assumes "bs_world s = bench_attributes" "reconcile_and_decorate lossy_bench lossy_reading s = (Ok st, t)" "t = s\<lparr>bs_runtime := r, bs_trace := tr\<rparr>"
  shows "case charge_step lossy_bench s Monitor_Turn of u \<Rightarrow> bs_world u = bench_attributes \<and> bs_config u = bs_config s
    \<and> bs_runtime u = r \<and> filter other_than_alert (bs_trace u) = filter other_than_alert tr"
proof -
  have "ch_read_state bench bench_attributes = (Ok lossy_reading, bench_attributes)" by (simp add: bench_def)
  with assms show ?thesis
    by (simp add: native_turn_def askC_def eff_defs lossy_bench_fields world_same publish_battery_state other_than_alert_def
      split: option.split)
qed


end
