(* ===== verification/Charge_Operations.thy ===== *)
theory Charge_Operations
  imports Charge_Requests
begin

text \<open>
  Interactive battery operations: \<open>daemon/battery_operations.rs\<close> with the owners of \<open>daemon/owner.rs\<close>. A start is
  answered at once; a task then asks whether its owner is still there, dispatches the request of \<open>Charge_Requests\<close>,
  and keeps the answer for the owner. Each place where the task waits is the end of a step. Decoding of the parameters
  is left out; the shared daemon library says when an owner is gone.
\<close>

section \<open>The store\<close>

text \<open>Five minutes in milliseconds.\<close>

definition RETENTION :: nat where "RETENTION = 300000"

definition CAPACITY :: nat where "CAPACITY = 64"

definition METHODS :: "string list" where
  "METHODS = [''battery.setThresholds'', ''battery.setProtection'', ''battery.chargeOnce'', ''battery.setChargingInhibited'',
     ''battery.startCalibration'', ''battery.cancelCalibration'']"

fun request_method :: "battery_request \<Rightarrow> string" where
  "request_method (Set_Thresholds_Request _) = ''battery.setThresholds''"
| "request_method (Set_Protection_Request _) = ''battery.setProtection''"
| "request_method (Charge_Once_Request _) = ''battery.chargeOnce''"
| "request_method (Set_Inhibited_Request _ _) = ''battery.setChargingInhibited''"
| "request_method (Start_Calibration_Request _) = ''battery.startCalibration''"
| "request_method (Cancel_Calibration_Request _) = ''battery.cancelCalibration''"
| "request_method (Set_Alert_Policy_Request _) = ''battery.setAlertPolicy''"

record operation_owner =
  ow_name :: string
  ow_namespace :: string

record operation_entry =
  oe_owner :: string
  oe_cancel :: bool
  oe_response :: "battery_reply option"
  oe_finished :: "nat option"

record operation_store =
  os_next :: nat
  os_entries :: "(string, operation_entry) omap"

datatype operation_reply =
    Operation_Error string string
  | Operation_Status string "battery_reply option" bool

definition entry_retained :: "nat \<Rightarrow> operation_entry \<Rightarrow> bool" where
  "entry_retained now e \<longleftrightarrow> (case oe_finished e of None \<Rightarrow> True | Some t \<Rightarrow> now - t < RETENTION)"

definition operation_id :: "string \<Rightarrow> nat \<Rightarrow> string" where
  "operation_id namespace n = ''battery-operation-'' @ namespace @ ''-'' @ show_nat n"

definition om_retain :: "('v \<Rightarrow> bool) \<Rightarrow> ('k, 'v) omap \<Rightarrow> ('k, 'v) omap" where
  "om_retain p m = filter (\<lambda>(_, v). p v) m"

definition om_adjust_at :: "'k \<Rightarrow> ('v \<Rightarrow> 'v) \<Rightarrow> ('k, 'v) omap \<Rightarrow> ('k, 'v) omap" where
  "om_adjust_at k f m = map (\<lambda>(k', v). (k', if k' = k then f v else v)) m"

definition admit_operation :: "nat \<Rightarrow> operation_owner \<Rightarrow> operation_store \<Rightarrow> string option \<times> operation_store" where
  "admit_operation now owner store =
     (let store = store\<lparr>os_entries := om_retain (entry_retained now) (os_entries store)\<rparr> in
      if length (os_entries store) \<ge> CAPACITY \<or> list_ex (\<lambda>e. oe_response e = None) (om_values (os_entries store))
      then (None, store)
      else
        let n = Suc (os_next store); k = operation_id (ow_namespace owner) n in
        (Some k, store\<lparr>os_next := n, os_entries := om_insert k \<lparr>oe_owner = ow_name owner, oe_cancel = False,
           oe_response = None, oe_finished = None\<rparr> (os_entries store)\<rparr>))"

definition set_cancelled :: "string \<Rightarrow> operation_store \<Rightarrow> operation_store" where
  "set_cancelled k store = store\<lparr>os_entries := om_adjust_at k (\<lambda>e. e\<lparr>oe_cancel := True\<rparr>) (os_entries store)\<rparr>"

definition operation_lookup :: "nat \<Rightarrow> bool \<Rightarrow> string \<Rightarrow> string \<Rightarrow> operation_store \<Rightarrow> operation_reply \<times> operation_store" where
  "operation_lookup now cancel k owner store =
     (case om_get (os_entries store) k of
        None \<Rightarrow> (Operation_Error ''operation-not-found'' ''operation expired or belongs to another owner; reconcile state'', store)
      | Some e \<Rightarrow>
          if oe_owner e = owner \<and> entry_retained now e then
            (Operation_Status k (oe_response e) (oe_cancel e \<or> cancel), if cancel then set_cancelled k store else store)
          else (Operation_Error ''operation-not-found'' ''operation expired or belongs to another owner; reconcile state'', store))"

section \<open>The daemon\<close>

text \<open>
  Where a task waits: for the answer whether its owner exists; for its work; and for its work once cancelled, when the
  owner is lost or its time is over.
\<close>

datatype operation_phase = Checking | Working | Draining bool

record operation_task =
  ot_id :: string
  ot_request :: battery_request
  ot_phase :: operation_phase

datatype operation_event =
    Accepted string
  | Refused
  | Dispatched string
  | Replied string battery_reply

record 'w operations =
  op_store :: operation_store
  op_tasks :: "operation_task list"
  op_charge :: "'w chstate"
  op_log :: "operation_event list"

definition log_operation :: "operation_event \<Rightarrow> 'w operations \<Rightarrow> 'w operations" where
  "log_operation e s = s\<lparr>op_log := e # op_log s\<rparr>"

definition operation_start :: "nat \<Rightarrow> operation_owner \<Rightarrow> battery_request \<Rightarrow> 'w operations \<Rightarrow> operation_reply \<times> 'w operations" where
  "operation_start now owner request s =
     (if request_method request \<notin> set METHODS then
        (Operation_Error ''validation-error'' ''method is not an interactive battery operation'', log_operation Refused s)
      else case admit_operation now owner (op_store s) of
        (None, store) \<Rightarrow> (Operation_Error ''operation-active'' ''battery operation capacity exceeded; request was not dispatched'',
          log_operation Refused (s\<lparr>op_store := store\<rparr>))
      | (Some k, store) \<Rightarrow> (Operation_Status k None False,
          log_operation (Accepted k) (s\<lparr>op_store := store, op_tasks := \<lparr>ot_id = k, ot_request = request, ot_phase = Checking\<rparr> # op_tasks s\<rparr>)))"

definition set_phase :: "string \<Rightarrow> operation_phase \<Rightarrow> 'w operations \<Rightarrow> 'w operations" where
  "set_phase k p s = s\<lparr>op_tasks := map (\<lambda>t. if ot_id t = k then t\<lparr>ot_phase := p\<rparr> else t) (op_tasks s)\<rparr>"

definition end_task :: "string \<Rightarrow> 'w operations \<Rightarrow> 'w operations" where
  "end_task k s = s\<lparr>op_tasks := filter (\<lambda>t. ot_id t \<noteq> k) (op_tasks s)\<rparr>"

definition forget_operation :: "string \<Rightarrow> 'w operations \<Rightarrow> 'w operations" where
  "forget_operation k s = s\<lparr>op_store := (op_store s)\<lparr>os_entries := om_remove k (os_entries (op_store s))\<rparr>\<rparr>"

definition record_response :: "nat \<Rightarrow> string \<Rightarrow> battery_reply \<Rightarrow> 'w operations \<Rightarrow> 'w operations" where
  "record_response now k reply s = s\<lparr>op_store := (op_store s)\<lparr>os_entries :=
     om_adjust_at k (\<lambda>e. e\<lparr>oe_response := Some reply, oe_finished := Some now\<rparr>) (os_entries (op_store s))\<rparr>\<rparr>"

text \<open>The work of a task: the request is dispatched in the scope of an interactive operation.\<close>

definition dispatch_interactive :: "'w chenv \<Rightarrow> battery_request \<Rightarrow> 'w chstate \<Rightarrow> battery_reply \<times> 'w chstate" where
  "dispatch_interactive env request c =
     (case battery_dispatch env request (c\<lparr>bs_interactive := True\<rparr>) of
        (r, c') \<Rightarrow> ((case r of Inr reply \<Rightarrow> reply | Inl e \<Rightarrow> Error_Reply e), c'\<lparr>bs_interactive := False\<rparr>))"

definition task_panicked :: battery_reply where
  "task_panicked = Error_Reply [Msg ''outcome-unknown'', Msg ''battery operation task failed; reconcile state'']"

definition owner_lost_in :: "operation_phase \<Rightarrow> bool" where
  "owner_lost_in p \<longleftrightarrow> p = Draining True"

definition task_returned :: "nat \<Rightarrow> operation_task \<Rightarrow> battery_reply \<Rightarrow> 'w operations \<Rightarrow> 'w operations" where
  "task_returned now t reply s =
     (let s = end_task (ot_id t) (log_operation (Replied (ot_id t) reply) s) in
      if owner_lost_in (ot_phase t) then forget_operation (ot_id t) s else record_response now (ot_id t) reply s)"

text \<open>The steps. A panic loses the answer of a dispatch, whether its effects came before it or not.\<close>

datatype operations_op =
    Start_Operation nat operation_owner battery_request
  | Look_Up nat bool string string
  | Owner_Answer string bool
  | Owner_Closed string
  | Budget_Over string
  | Work_Ends nat string
  | Work_Panics nat string bool
  | Charge_Step charge_op

fun operations_step :: "'w chenv \<Rightarrow> 'w operations \<Rightarrow> operations_op \<Rightarrow> 'w operations" where
  "operations_step env s (Start_Operation now owner request) = snd (operation_start now owner request s)"
| "operations_step env s (Look_Up now cancel k owner) = s\<lparr>op_store := snd (operation_lookup now cancel k owner (op_store s))\<rparr>"
| "operations_step env s (Owner_Answer k exists) =
     (case find (\<lambda>t. ot_id t = k) (op_tasks s) of
        Some t \<Rightarrow> if ot_phase t \<noteq> Checking then s
          else if exists then set_phase k Working s else end_task k (forget_operation k s)
      | None \<Rightarrow> s)"
| "operations_step env s (Owner_Closed k) =
     (case find (\<lambda>t. ot_id t = k) (op_tasks s) of
        Some t \<Rightarrow> if ot_phase t = Working then set_phase k (Draining True) (s\<lparr>op_store := set_cancelled k (op_store s)\<rparr>) else s
      | None \<Rightarrow> s)"
| "operations_step env s (Budget_Over k) =
     (case find (\<lambda>t. ot_id t = k) (op_tasks s) of
        Some t \<Rightarrow> if ot_phase t = Working then set_phase k (Draining False) (s\<lparr>op_store := set_cancelled k (op_store s)\<rparr>) else s
      | None \<Rightarrow> s)"
| "operations_step env s (Work_Ends now k) =
     (case find (\<lambda>t. ot_id t = k) (op_tasks s) of
        Some t \<Rightarrow> if ot_phase t = Checking then s
          else (case dispatch_interactive env (ot_request t) (op_charge s) of
            (reply, c) \<Rightarrow> task_returned now t reply (log_operation (Dispatched k) (s\<lparr>op_charge := c\<rparr>)))
      | None \<Rightarrow> s)"
| "operations_step env s (Work_Panics now k effective) =
     (case find (\<lambda>t. ot_id t = k) (op_tasks s) of
        Some t \<Rightarrow> if ot_phase t = Checking then s
          else task_returned now t task_panicked (log_operation (Dispatched k)
            (if effective then s\<lparr>op_charge := snd (dispatch_interactive env (ot_request t) (op_charge s))\<rparr> else s))
      | None \<Rightarrow> s)"
| "operations_step env s (Charge_Step x) = s\<lparr>op_charge := charge_step env (op_charge s) x\<rparr>"

definition operations_boot :: "'w \<Rightarrow> 'w operations" where
  "operations_boot w = \<lparr>op_store = \<lparr>os_next = 0, os_entries = []\<rparr>, op_tasks = [], op_charge = charge_boot w, op_log = []\<rparr>"

end
