(* ===== verification/Operation_Theorems.thy ===== *)
theory Operation_Theorems
  imports Charge_Theorems Charge_Operations
begin

text \<open>
  What interactive battery operations guarantee: they are requests of charge control and nothing else, one at a time
  and each at most once, and the answer that is kept for the owner is the answer of the dispatch.
\<close>

section \<open>Identifiers\<close>

lemma operation_id_inject: "operation_id ns n = operation_id ms m \<Longrightarrow> n = m"
proof -
  assume eq: "operation_id ns n = operation_id ms m"
  have digits: "takeWhile ascii_digit (rev (operation_id ns k)) = rev (show_nat k)" for ns k
  proof -
    have "\<forall>c\<in>set (show_nat k). ascii_digit c" using show_nat_digits [of k] by (simp add: list.pred_set)
    then have "takeWhile ascii_digit (rev (show_nat k) @ CHR ''-'' # ys) = rev (show_nat k)" for ys
      by (simp add: takeWhile_append) (simp add: ascii_digit_def)
    then show ?thesis by (simp add: operation_id_def)
  qed
  from eq digits [of ns n] digits [of ms m] have "show_nat n = show_nat m" by simp
  then show "n = m" using show_nat_digits [of n] show_nat_digits [of m] by metis
qed

section \<open>Operations and charge control\<close>

lemma dispatch_is_request: "snd (dispatch_interactive env r c) = charge_step env c (Request True r)"
  by (simp add: dispatch_interactive_def split: prod.split)

lemma op_charge_simps [simp]:
  "op_charge (log_operation e s) = op_charge s" "op_charge (set_phase k p s) = op_charge s" "op_charge (end_task k s) = op_charge s"
  "op_charge (forget_operation k s) = op_charge s" "op_charge (record_response now k r s) = op_charge s"
  "op_charge (task_returned now t r s) = op_charge s" "op_charge (snd (operation_start now owner request s)) = op_charge s"
  by (simp_all add: log_operation_def set_phase_def end_task_def forget_operation_def record_response_def task_returned_def
    operation_start_def Let_def split: option.split prod.split)

lemma charge_simulated: "\<exists>zs. op_charge (operations_step env s x) = run (charge_step env) (op_charge s) zs"
proof -
  have none: "\<exists>zs. op_charge s = run (charge_step env) (op_charge s) zs" by (rule exI [of _ "[]"]) simp
  have one: "\<exists>zs. charge_step env (op_charge s) x = run (charge_step env) (op_charge s) zs" for x
    by (rule exI [of _ "[x]"]) simp
  have dispatch: "dispatch_interactive env r (op_charge s) = (a, c) \<Longrightarrow> \<exists>zs. c = run (charge_step env) (op_charge s) zs" for r a c
    using one [of "Request True r"] dispatch_is_request [of env r "op_charge s"] by simp
  show ?thesis
    by (cases x) (auto simp: none one dispatch_is_request split: option.split prod.split dest: dispatch simp del: charge_step.simps)
qed

lemma charge_simulated_run: "\<exists>zs. op_charge (run (operations_step env) s xs) = run (charge_step env) (op_charge s) zs"
proof (induction xs arbitrary: s)
  case Nil
  show ?case by (rule exI [of _ "[]"]) simp
next
  case (Cons x xs)
  from Cons [of "operations_step env s x"] charge_simulated [of env s x] show ?case
    by (metis run.simps(2) run_append)
qed


section \<open>One at a time, at most once\<close>

definition accepted_ids :: "operation_event list \<Rightarrow> string list" where
  "accepted_ids evs = List.map_filter (\<lambda>e. case e of Accepted k \<Rightarrow> Some k | _ \<Rightarrow> None) evs"

definition dispatched_ids :: "operation_event list \<Rightarrow> string list" where
  "dispatched_ids evs = List.map_filter (\<lambda>e. case e of Dispatched k \<Rightarrow> Some k | _ \<Rightarrow> None) evs"

definition answers :: "operation_event list \<Rightarrow> (string \<times> battery_reply) list" where
  "answers evs = List.map_filter (\<lambda>e. case e of Replied k r \<Rightarrow> Some (k, r) | _ \<Rightarrow> None) evs"

lemma events_Cons [simp]:
  "accepted_ids [] = []" "dispatched_ids [] = []" "answers [] = []"
  "accepted_ids (e # evs) = (case e of Accepted k \<Rightarrow> [k] | _ \<Rightarrow> []) @ accepted_ids evs"
  "dispatched_ids (e # evs) = (case e of Dispatched k \<Rightarrow> [k] | _ \<Rightarrow> []) @ dispatched_ids evs"
  "answers (e # evs) = (case e of Replied k r \<Rightarrow> [(k, r)] | _ \<Rightarrow> []) @ answers evs"
  by (auto simp: accepted_ids_def dispatched_ids_def answers_def List.map_filter_def split: operation_event.split)

definition unanswered :: "(string, operation_entry) omap \<Rightarrow> (string, operation_entry) omap" where
  "unanswered m = filter (\<lambda>(_, e). oe_response e = None) m"

definition issued :: "nat \<Rightarrow> string \<Rightarrow> bool" where
  "issued n k \<longleftrightarrow> (\<exists>ns m. k = operation_id ns m \<and> m \<le> n)"

text \<open>What is kept of an operation was answered by its dispatch.\<close>

definition entry_ok :: "nat \<Rightarrow> operation_event list \<Rightarrow> string \<times> operation_entry \<Rightarrow> bool" where
  "entry_ok n evs = (\<lambda>(k, e). issued n k
     \<and> (case oe_response e of None \<Rightarrow> oe_finished e = None | Some r \<Rightarrow> (k, r) \<in> set (answers evs)))"

definition store_inv :: "operation_store \<Rightarrow> operation_event list \<Rightarrow> bool" where
  "store_inv st evs \<longleftrightarrow> om_ok (os_entries st) \<and> length (os_entries st) \<le> CAPACITY
     \<and> (\<forall>p\<in>set (os_entries st). entry_ok (os_next st) evs p)"

definition log_inv :: "nat \<Rightarrow> operation_event list \<Rightarrow> bool" where
  "log_inv n evs \<longleftrightarrow> (\<forall>k\<in>set (accepted_ids evs). issued n k) \<and> distinct (accepted_ids evs) \<and> distinct (dispatched_ids evs)
     \<and> set (dispatched_ids evs) \<subseteq> set (accepted_ids evs) \<and> map fst (answers evs) = dispatched_ids evs"

definition tasks_inv :: "operation_store \<Rightarrow> operation_event list \<Rightarrow> operation_task list \<Rightarrow> bool" where
  "tasks_inv st evs ts \<longleftrightarrow> map fst (unanswered (os_entries st)) = map ot_id ts
     \<and> (case ts of [] \<Rightarrow> True | [t] \<Rightarrow> ot_id t \<in> set (accepted_ids evs) - set (dispatched_ids evs) | _ \<Rightarrow> False)"

definition operations_inv :: "'w operations \<Rightarrow> bool" where
  "operations_inv s \<longleftrightarrow> store_inv (op_store s) (op_log s) \<and> log_inv (os_next (op_store s)) (op_log s)
     \<and> tasks_inv (op_store s) (op_log s) (op_tasks s)"

lemma issued_mono: "issued n k \<Longrightarrow> n \<le> m \<Longrightarrow> issued m k"
  by (auto simp: issued_def intro: order_trans)

lemma next_not_issued: "\<not> issued n (operation_id ns (Suc n))"
  by (auto simp: issued_def dest: operation_id_inject)

lemma next_issued: "issued (Suc n) (operation_id ns (Suc n))"
  by (auto simp: issued_def)

lemma unanswered_retain:
  "\<forall>p\<in>set m. entry_ok n evs p \<Longrightarrow> unanswered (om_retain (entry_retained now) m) = unanswered m"
  by (induction m) (auto simp: unanswered_def om_retain_def entry_ok_def entry_retained_def split: option.splits)

lemma unanswered_adjust_same:
  "(\<And>e. oe_response (f e) = oe_response e) \<Longrightarrow> map fst (unanswered (om_adjust_at k f m)) = map fst (unanswered m)"
  by (induction m) (auto simp: unanswered_def om_adjust_at_def split: if_splits)

lemma unanswered_adjust_answer:
  "(\<And>e. oe_response (f e) \<noteq> None) \<Longrightarrow> unanswered (om_adjust_at k f m) = filter (\<lambda>p. fst p \<noteq> k) (unanswered m)"
  by (induction m) (auto simp: unanswered_def om_adjust_at_def)

lemma unanswered_remove: "unanswered (om_remove k m) = filter (\<lambda>p. fst p \<noteq> k) (unanswered m)"
  by (induction m) (auto simp: unanswered_def om_remove_def)

lemma unanswered_insert:
  "unanswered m = [] \<Longrightarrow> oe_response e = None \<Longrightarrow> unanswered (om_insert k e m) = [(k, e)]"
  by (induction k e m rule: om_insert.induct) (auto simp: unanswered_def split: if_splits)

lemma om_keys_adjust_at [simp]: "om_keys (om_adjust_at k f m) = om_keys m"
  by (auto simp: om_adjust_at_def)

lemma om_ok_adjust_at [simp]: "om_ok (om_adjust_at k f m) = om_ok m"
  by (simp add: om_ok_def)

lemma om_ok_retain [simp]: "om_ok m \<Longrightarrow> om_ok (om_retain p m)"
  by (induction m) (auto simp: om_retain_def om_ok_Cons)

lemma length_simps [simp]: "length (om_adjust_at k f m) = length m" "length (om_retain p m) \<le> length m"
  by (simp_all add: om_adjust_at_def om_retain_def)

lemma set_om_insert: "set (om_insert k v m) \<subseteq> insert (k, v) (set m)"
  by (induction k v m rule: om_insert.induct) auto

lemma length_om_insert_le: "length (om_insert k v m) \<le> Suc (length m)"
  by (induction k v m rule: om_insert.induct) auto

lemma entry_ok_mono: "entry_ok n evs p \<Longrightarrow> n \<le> m \<Longrightarrow> set (answers evs) \<subseteq> set (answers evs') \<Longrightarrow> entry_ok m evs' p"
  by (auto simp: entry_ok_def dest: issued_mono split: option.splits)

text \<open>The store while an operation is started, cancelled, answered and forgotten.\<close>

lemma om_retain_mem: "p \<in> set (om_retain q m) \<Longrightarrow> p \<in> set m"
  by (simp add: om_retain_def)

lemma om_adjust_mem: "(a, e) \<in> set (om_adjust_at k f m) \<Longrightarrow> \<exists>e'. (a, e') \<in> set m \<and> e = (if a = k then f e' else e')"
  by (auto simp: om_adjust_at_def)

lemma store_inv_entries:
  "store_inv st evs \<Longrightarrow> om_ok m \<Longrightarrow> length m \<le> length (os_entries st) \<Longrightarrow> (\<And>p. p \<in> set m \<Longrightarrow> entry_ok (os_next st) evs p) \<Longrightarrow>
     store_inv (st\<lparr>os_entries := m\<rparr>) evs"
  by (simp add: store_inv_def)

lemma store_inv_retain: "store_inv st evs \<Longrightarrow> store_inv (st\<lparr>os_entries := om_retain p (os_entries st)\<rparr>) evs"
  by (rule store_inv_entries) (auto simp: store_inv_def dest: om_retain_mem)

lemma store_inv_remove: "store_inv st evs \<Longrightarrow> store_inv (st\<lparr>os_entries := om_remove k (os_entries st)\<rparr>) evs"
  by (rule store_inv_entries) (auto simp: store_inv_def length_om_remove_le, simp add: om_remove_def)

lemma store_inv_more: "store_inv st evs \<Longrightarrow> set (answers evs) \<subseteq> set (answers evs') \<Longrightarrow> store_inv st evs'"
  by (auto simp: store_inv_def intro: entry_ok_mono)

lemma store_inv_cancelled: "store_inv st evs \<Longrightarrow> store_inv (set_cancelled k st) evs"
  unfolding set_cancelled_def
  by (rule store_inv_entries) (auto simp: store_inv_def entry_ok_def dest!: om_adjust_mem bspec split: if_splits option.splits)

lemma store_inv_answered:
  assumes "store_inv st evs" "(k, r) \<in> set (answers evs)"
  shows "store_inv (st\<lparr>os_entries := om_adjust_at k (\<lambda>e. e\<lparr>oe_response := Some r, oe_finished := Some now\<rparr>) (os_entries st)\<rparr>) evs"
  using assms
  by (intro store_inv_entries) (auto simp: store_inv_def entry_ok_def dest!: om_adjust_mem bspec split: if_splits)

lemma store_inv_admitted:
  assumes st: "store_inv st evs" and n: "length (os_entries st) < CAPACITY"
  shows "store_inv (st\<lparr>os_next := Suc (os_next st), os_entries := om_insert (operation_id ns (Suc (os_next st)))
     \<lparr>oe_owner = ow, oe_cancel = False, oe_response = None, oe_finished = None\<rparr> (os_entries st)\<rparr>) evs"
proof -
  have "entry_ok (Suc (os_next st)) evs p" if "p \<in> set (os_entries st)" for p
    using st that by (auto simp: store_inv_def intro: entry_ok_mono)
  moreover note next_issued
  ultimately have "entry_ok (Suc (os_next st)) evs p" if "p \<in> set (om_insert (operation_id ns (Suc (os_next st)))
     \<lparr>oe_owner = ow, oe_cancel = False, oe_response = None, oe_finished = None\<rparr> (os_entries st))" for p
    using that set_om_insert by (fastforce simp: entry_ok_def)
  then show ?thesis
    using st n by (auto simp: store_inv_def intro: le_trans [OF length_om_insert_le])
qed

lemma admit_cases:
  assumes "admit_operation now owner st = (r, st')" "store_inv st evs"
  shows "(r = None \<and> os_next st' = os_next st \<and> unanswered (os_entries st') = unanswered (os_entries st) \<and> store_inv st' evs)
    \<or> (\<exists>k e. r = Some k \<and> k = operation_id (ow_namespace owner) (Suc (os_next st)) \<and> os_next st' = Suc (os_next st)
        \<and> unanswered (os_entries st) = [] \<and> unanswered (os_entries st') = [(k, e)] \<and> store_inv st' evs)"
proof -
  let ?st = "st\<lparr>os_entries := om_retain (entry_retained now) (os_entries st)\<rparr>"
  note kept = store_inv_retain [OF assms(2), of "entry_retained now"]
  have same: "unanswered (os_entries ?st) = unanswered (os_entries st)"
    using assms(2) by (auto simp: store_inv_def intro: unanswered_retain)
  show ?thesis
  proof (cases "length (os_entries ?st) \<ge> CAPACITY \<or> list_ex (\<lambda>e. oe_response e = None) (om_values (os_entries ?st))")
    case True
    with assms(1) have "r = None" "st' = ?st" by (auto simp: admit_operation_def Let_def)
    with same kept show ?thesis by simp
  next
    case False
    then have none: "unanswered (os_entries ?st) = []"
      by (auto simp: unanswered_def filter_empty_conv list_ex_iff)
    from False have "length (os_entries ?st) < CAPACITY" by simp
    from store_inv_admitted [OF kept this, of "ow_namespace owner" "ow_name owner"] none same unanswered_insert [OF none]
      assms(1) False show ?thesis by (auto simp: admit_operation_def Let_def)
  qed
qed

lemma operations_inv_boot: "operations_inv (operations_boot w)"
  by (simp add: operations_boot_def operations_inv_def store_inv_def log_inv_def tasks_inv_def unanswered_def)

lemma operations_inv_start: "operations_inv s \<Longrightarrow> operations_inv (snd (operation_start now owner request s))"
proof -
  assume s: "operations_inv s"
  then have st: "store_inv (op_store s) (op_log s)" by (simp add: operations_inv_def)
  obtain r st' where a: "admit_operation now owner (op_store s) = (r, st')" by (cases "admit_operation now owner (op_store s)")
  from admit_cases [OF a st] s a next_not_issued [of "os_next (op_store s)" "ow_namespace owner"] show ?thesis
    by (auto simp: operations_inv_def operation_start_def log_operation_def log_inv_def tasks_inv_def
      intro: store_inv_more issued_mono next_issued split: option.split list.splits)
qed

lemma find_task: "find (\<lambda>t. ot_id t = k) (op_tasks s) = Some t \<Longrightarrow> operations_inv s \<Longrightarrow>
    op_tasks s = [t] \<and> ot_id t = k \<and> map fst (unanswered (os_entries (op_store s))) = [k]
      \<and> k \<in> set (accepted_ids (op_log s)) - set (dispatched_ids (op_log s))"
  by (auto simp: operations_inv_def tasks_inv_def find_Some_iff split: list.splits)

lemma one_unanswered: "map fst (unanswered m) = [k] \<Longrightarrow> filter (\<lambda>p. fst p \<noteq> k) (unanswered m) = []"
  by (auto simp: map_eq_Cons_conv)

lemma operations_inv_lookup: "operations_inv s \<Longrightarrow> operations_inv (s\<lparr>op_store := snd (operation_lookup now cancel k owner (op_store s))\<rparr>)"
  and operations_inv_cancel: "operations_inv s \<Longrightarrow> operations_inv (s\<lparr>op_store := set_cancelled k (op_store s)\<rparr>)"
  by (auto simp: operations_inv_def operation_lookup_def tasks_inv_def store_inv_cancelled split: option.split)
    (auto simp: set_cancelled_def unanswered_adjust_same)

lemma operations_inv_phase: "operations_inv s \<Longrightarrow> operations_inv (set_phase k p s)"
  by (auto simp: operations_inv_def tasks_inv_def set_phase_def split: list.splits)

lemma operations_inv_gone:
  "find (\<lambda>t. ot_id t = k) (op_tasks s) = Some t \<Longrightarrow> operations_inv s \<Longrightarrow> operations_inv (end_task k (forget_operation k s))"
  using find_task [of k s t] one_unanswered [of "os_entries (op_store s)" k]
  by (auto simp: operations_inv_def tasks_inv_def end_task_def forget_operation_def store_inv_remove unanswered_remove)

lemma operations_inv_returned:
  assumes t: "find (\<lambda>t. ot_id t = k) (op_tasks s) = Some t" and s: "operations_inv s"
  shows "operations_inv (task_returned now t reply (log_operation (Dispatched k) (s\<lparr>op_charge := c\<rparr>)))"
proof -
  note f = find_task [OF t s]
  let ?log = "Replied k reply # Dispatched k # op_log s"
  have "store_inv (op_store s) ?log" using s by (auto simp: operations_inv_def intro: store_inv_more)
  moreover have "log_inv (os_next (op_store s)) ?log" using s f by (auto simp: operations_inv_def log_inv_def)
  ultimately show ?thesis
    using f store_inv_remove [of "op_store s" ?log k] store_inv_answered [of "op_store s" ?log k reply now] one_unanswered [of "os_entries (op_store s)" k]
    by (auto simp: task_returned_def operations_inv_def tasks_inv_def end_task_def log_operation_def forget_operation_def
      record_response_def unanswered_remove unanswered_adjust_answer Let_def)
qed

lemma operations_inv_step: "operations_inv s \<Longrightarrow> operations_inv (operations_step env s x)"
proof (cases x)
  case (Charge_Step y)
  assume "operations_inv s"
  with Charge_Step show ?thesis by (simp add: operations_inv_def)
next
  case (Work_Panics now k effective)
  assume s: "operations_inv s"
  from Work_Panics operations_inv_returned [OF _ s, of k _ now task_panicked "op_charge s"] operations_inv_returned [OF _ s, of k]
  show ?thesis using s by (auto split: option.split)
qed (auto simp: operations_inv_start operations_inv_lookup operations_inv_cancel operations_inv_phase operations_inv_gone
  operations_inv_returned split: option.split prod.split)

interpretation op_machine: machine "operations_boot w" "operations_step env" operations_inv for w env
  by unfold_locales (simp_all add: operations_inv_boot operations_inv_step)

text \<open>
  C18. One at a time, at most once. In every run of the daemon every identifier is issued once, every accepted operation
  is dispatched at most once and nothing else is; at most one operation is unanswered and at most 64 are kept; and an
  answer that is kept is the answer that the dispatch of this very operation gave.
\<close>

theorem operations_run_once:
  assumes "s = run (operations_step env) (operations_boot w) xs"
  shows "distinct (accepted_ids (op_log s)) \<and> distinct (dispatched_ids (op_log s))
    \<and> set (dispatched_ids (op_log s)) \<subseteq> set (accepted_ids (op_log s))
    \<and> length (os_entries (op_store s)) \<le> CAPACITY \<and> length (unanswered (os_entries (op_store s))) \<le> 1
    \<and> list_all (\<lambda>(k, e). case oe_response e of None \<Rightarrow> True | Some r \<Rightarrow> (k, r) \<in> set (answers (op_log s))) (os_entries (op_store s))"
proof -
  have inv: "operations_inv s" unfolding assms by (rule op_machine.inv_run)
  then have "length (map fst (unanswered (os_entries (op_store s)))) \<le> 1"
    by (auto simp: operations_inv_def tasks_inv_def split: list.splits simp del: length_map)
  with inv show ?thesis
    by (auto simp: operations_inv_def log_inv_def store_inv_def list_all_iff entry_ok_def split: option.split)
qed

section \<open>The answer is kept for its owner\<close>

lemma om_get_adjust_at [simp]: "om_get (om_adjust_at k f m) j = (if j = k then map_option f (om_get m j) else om_get m j)"
  by (induction m) (auto simp: om_adjust_at_def)

lemma om_get_retain: "om_ok m \<Longrightarrow> om_get m k = Some v \<Longrightarrow> p v \<Longrightarrow> om_get (om_retain p m) k = Some v"
  by (simp add: om_get_mem [symmetric] om_ok_retain) (simp add: om_retain_def)

definition kept_answer :: "string \<Rightarrow> string \<Rightarrow> nat \<Rightarrow> battery_reply \<Rightarrow> 'w operations \<Rightarrow> bool" where
  "kept_answer k owner now reply s \<longleftrightarrow> operations_inv s \<and> k \<in> set (accepted_ids (op_log s)) \<and> find (\<lambda>t. ot_id t = k) (op_tasks s) = None
     \<and> (\<exists>e. om_get (os_entries (op_store s)) k = Some e \<and> oe_owner e = owner \<and> oe_response e = Some reply \<and> oe_finished e = Some now)"

definition before_expiry :: "nat \<Rightarrow> operations_op \<Rightarrow> bool" where
  "before_expiry now x \<longleftrightarrow> (case x of Start_Operation n _ _ \<Rightarrow> n - now < RETENTION | _ \<Rightarrow> True)"

lemma kept_answer_start:
  assumes "kept_answer k owner now reply s" "n - now < RETENTION"
  shows "kept_answer k owner now reply (snd (operation_start n ow request s))"
proof -
  from assms(1) obtain e where e: "om_get (os_entries (op_store s)) k = Some e" "oe_owner e = owner" "oe_response e = Some reply"
    "oe_finished e = Some now" and inv: "operations_inv s" and k: "k \<in> set (accepted_ids (op_log s))"
    and no: "find (\<lambda>t. ot_id t = k) (op_tasks s) = None"
    by (auto simp: kept_answer_def)
  from inv k have old: "issued (os_next (op_store s)) k" and ok: "om_ok (os_entries (op_store s))"
    by (auto simp: operations_inv_def log_inv_def store_inv_def)
  then have new: "operation_id (ow_namespace ow) (Suc (os_next (op_store s))) \<noteq> k" using next_not_issued by blast
  have get: "om_get (om_retain (entry_retained n) (os_entries (op_store s))) k = Some e"
    using e assms(2) by (intro om_get_retain ok) (simp_all add: entry_retained_def)
  from operations_inv_start [OF inv] e get new k no ok show ?thesis
    by (simp add: kept_answer_def operation_start_def admit_operation_def Let_def log_operation_def)
qed

lemma op_store_log [simp]: "op_store (log_operation ev s) = op_store s"
  by (simp add: log_operation_def)

text \<open>The steps of a task leave the entries and tasks of other operations alone.\<close>

lemma other_operation:
  assumes "j \<noteq> k"
  shows "om_get (os_entries (op_store (set_phase j p s))) k = om_get (os_entries (op_store s)) k"
    and "om_get (os_entries (op_store (end_task j s))) k = om_get (os_entries (op_store s)) k"
    and "om_get (os_entries (op_store (forget_operation j s))) k = om_get (os_entries (op_store s)) k"
    and "om_get (os_entries (op_store (record_response now j r s))) k = om_get (os_entries (op_store s)) k"
    and "om_get (os_entries (set_cancelled j st)) k = om_get (os_entries st) k"
  using assms by (simp_all add: set_phase_def end_task_def log_operation_def forget_operation_def record_response_def set_cancelled_def)

lemma other_returned:
  "ot_id t \<noteq> k \<Longrightarrow> om_get (os_entries (op_store (task_returned now t r s))) k = om_get (os_entries (op_store s)) k"
  by (simp add: task_returned_def other_operation Let_def)

definition shows_answer :: "string \<Rightarrow> string \<Rightarrow> nat \<Rightarrow> battery_reply \<Rightarrow> operation_store \<Rightarrow> bool" where
  "shows_answer k owner now reply st \<longleftrightarrow> (\<exists>e. om_get (os_entries st) k = Some e \<and> oe_owner e = owner
     \<and> oe_response e = Some reply \<and> oe_finished e = Some now)"

lemma shows_answer_cancelled: "shows_answer k owner now reply st \<Longrightarrow> shows_answer k owner now reply (set_cancelled j st)"
  by (auto simp: shows_answer_def set_cancelled_def)

lemma shows_answer_lookup:
  "shows_answer k owner now reply st \<Longrightarrow> shows_answer k owner now reply (snd (operation_lookup n cancel j other st))"
  by (auto simp: operation_lookup_def shows_answer_cancelled split: option.split)

lemma kept_answer_step:
  assumes kept: "kept_answer k owner now reply s" and x: "before_expiry now x"
  shows "kept_answer k owner now reply (operations_step env s x)"
proof (cases "\<exists>n ow request. x = Start_Operation n ow request")
  case True
  with kept x kept_answer_start show ?thesis by (auto simp: before_expiry_def)
next
  case False
  have inv: "operations_inv (operations_step env s x)" using kept by (simp add: kept_answer_def operations_inv_step)
  from kept have none: "\<forall>t\<in>set (op_tasks s). ot_id t \<noteq> k" by (auto simp: kept_answer_def find_None_iff)
  then have other: "find (\<lambda>t. ot_id t = j) (op_tasks s) = Some t \<Longrightarrow> j \<noteq> k \<and> ot_id t = j" for j t
    by (auto dest: find_Some_mem)
  show ?thesis
    unfolding kept_answer_def
  proof (intro conjI inv)
    show "k \<in> set (accepted_ids (op_log (operations_step env s x)))"
      using kept False by (cases x) (auto simp: kept_answer_def set_phase_def end_task_def forget_operation_def log_operation_def
        task_returned_def record_response_def Let_def split: option.split prod.split)
    show "find (\<lambda>t. ot_id t = k) (op_tasks (operations_step env s x)) = None"
      using none False by (cases x) (auto simp: find_None_iff set_phase_def end_task_def forget_operation_def log_operation_def
        task_returned_def record_response_def Let_def split: option.split prod.split)
    have shown: "shows_answer k owner now reply (op_store s)" using kept by (simp add: kept_answer_def shows_answer_def)
    have "shows_answer k owner now reply (op_store (operations_step env s x))"
    proof (cases x)
      case (Look_Up n cancel j other)
      with shown show ?thesis by (simp add: shows_answer_lookup)
    next
      case (Start_Operation n ow request)
      with False show ?thesis by blast
    next
      case (Charge_Step y)
      with shown show ?thesis by simp
    next
      case (Owner_Answer j b)
      with shown other [of j] show ?thesis
        by (cases "find (\<lambda>t. ot_id t = j) (op_tasks s)")
          (simp_all add: shows_answer_def other_operation other_returned split: prod.split)
    next
      case (Owner_Closed j)
      with shown other [of j] show ?thesis
        by (cases "find (\<lambda>t. ot_id t = j) (op_tasks s)")
          (simp_all add: shows_answer_def other_operation other_returned split: prod.split)
    next
      case (Budget_Over j)
      with shown other [of j] show ?thesis
        by (cases "find (\<lambda>t. ot_id t = j) (op_tasks s)")
          (simp_all add: shows_answer_def other_operation other_returned split: prod.split)
    next
      case (Work_Ends n j)
      with shown other [of j] show ?thesis
        by (cases "find (\<lambda>t. ot_id t = j) (op_tasks s)")
          (simp_all add: shows_answer_def other_operation other_returned split: prod.split)
    next
      case (Work_Panics n j b)
      with shown other [of j] show ?thesis
        by (cases "find (\<lambda>t. ot_id t = j) (op_tasks s)")
          (simp_all add: shows_answer_def other_operation other_returned split: prod.split)
    qed
    then show "\<exists>e. om_get (os_entries (op_store (operations_step env s x))) k = Some e \<and> oe_owner e = owner
        \<and> oe_response e = Some reply \<and> oe_finished e = Some now" by (simp add: shows_answer_def)
  qed
qed

text \<open>
  C19. The answer is kept for the owner. When the work of an operation ends and its owner was not lost, then however the
  daemon goes on for five minutes, the owner's inquiry is answered with the reply of the dispatch, and an inquiry or a
  cancellation by anybody else is refused and changes nothing.
\<close>

theorem operation_answer_kept:
  assumes s: "s = run (operations_step env) (operations_boot w) xs"
    and t: "find (\<lambda>t. ot_id t = k) (op_tasks s) = Some t" "ot_phase t \<noteq> Checking" "\<not> owner_lost_in (ot_phase t)"
    and d: "dispatch_interactive env (ot_request t) (op_charge s) = (reply, c)"
    and u: "u = run (operations_step env) s (Work_Ends now k # ys)" "list_all (before_expiry now) ys" "n - now < RETENTION"
  shows "\<exists>owner. map_option oe_owner (om_get (os_entries (op_store s)) k) = Some owner
    \<and> (\<exists>cancelled. fst (operation_lookup n cancel k owner (op_store u)) = Operation_Status k (Some reply) cancelled)
    \<and> (\<forall>other. other \<noteq> owner \<longrightarrow> operation_lookup n cancel k other (op_store u)
        = (Operation_Error ''operation-not-found'' ''operation expired or belongs to another owner; reconcile state'', op_store u))"
proof -
  have inv: "operations_inv s" unfolding s by (rule op_machine.inv_run)
  note f = find_task [OF t(1) inv]
  then have "k \<in> set (map fst (unanswered (os_entries (op_store s))))" by simp
  then obtain e where e: "(k, e) \<in> set (os_entries (op_store s))" by (auto simp: unanswered_def)
  with inv have get: "om_get (os_entries (op_store s)) k = Some e" by (auto simp: operations_inv_def store_inv_def om_get_mem)
  have "kept_answer k (oe_owner e) now reply (operations_step env s (Work_Ends now k))"
    using operations_inv_step [OF inv, of env "Work_Ends now k"] f t d get
    by (auto simp: kept_answer_def task_returned_def end_task_def log_operation_def record_response_def Let_def)
  moreover have "kept_answer k ow now reply (run (operations_step env) v ys)" if "kept_answer k ow now reply v" for ow v
    using that u(2) by (induction ys arbitrary: v) (auto intro: kept_answer_step)
  ultimately have "kept_answer k (oe_owner e) now reply u" using u(1) by simp
  with u(3) get show ?thesis by (auto simp: kept_answer_def operation_lookup_def entry_retained_def)
qed

section \<open>An operation on the bench\<close>

definition bench_owner :: operation_owner where
  "bench_owner = \<lparr>ow_name = '':1.7'', ow_namespace = ''bus''\<rparr>"

definition bench_operations :: "attributes operations" where
  "bench_operations = run (operations_step bench) (operations_boot bench_attributes)
     [Start_Operation 1000 bench_owner (Charge_Once_Request None), Owner_Answer ''battery-operation-bus-1'' True]"

definition bench_reply :: battery_reply where
  "bench_reply = Error_Reply (api_error NotPlugged ''battery.chargeOnce requires external power'')"

lemma bench_operations_task:
  "find (\<lambda>t. ot_id t = ''battery-operation-bus-1'') (op_tasks bench_operations)
     = Some \<lparr>ot_id = ''battery-operation-bus-1'', ot_request = Charge_Once_Request None, ot_phase = Working\<rparr>"
  "op_charge bench_operations = charge_boot bench_attributes"
  by (simp_all add: bench_operations_def operations_boot_def operation_start_def METHODS_def admit_operation_def om_retain_def
    CAPACITY_def operation_id_def bench_owner_def show_nat.simps char_of_def bit_0 log_operation_def set_phase_def Let_def)

lemma bench_operations_reply:
  "dispatch_interactive bench (Charge_Once_Request None) (charge_boot bench_attributes) = (bench_reply, charge_boot bench_attributes)"
  by (simp add: dispatch_interactive_def battery_dispatch_def battery_charge_once_def require_power_def charge_boot_def
    BatteryState_default_def bench_reply_def eff_defs)

theorem operations_run_once_witness:
  "length (unanswered (os_entries (op_store bench_operations))) \<le> 1"
  using operations_run_once [OF bench_operations_def] by simp

theorem operation_answer_kept_witness:
  "\<exists>owner cancelled. fst (operation_lookup 200000 False ''battery-operation-bus-1'' owner (op_store (run (operations_step bench) bench_operations
     [Work_Ends 2000 ''battery-operation-bus-1'', Start_Operation 3000 bench_owner (Charge_Once_Request None)])))
   = Operation_Status ''battery-operation-bus-1'' (Some bench_reply) cancelled"
  using operation_answer_kept [OF bench_operations_def bench_operations_task(1), of _ _ _ 2000
      "[Start_Operation 3000 bench_owner (Charge_Once_Request None)]" 200000 False]
  by (fastforce simp: bench_operations_task(2) bench_operations_reply before_expiry_def RETENTION_def owner_lost_in_def)

end
